(* ===== verification/Prelude.thy ===== *)
theory Prelude
  imports Main "HOL-Library.Char_ord" "HOL-Library.List_Lexorder" "HOL-Library.Product_Lexorder"
begin

text \<open>
  The Python values and library calls the components share: exceptions as values of a sum type,
  strings as lists of code points (Latin-1, that is \<^typ>\<open>char\<close>), dictionaries as association
  lists, and the string methods the source uses (\<open>strip\<close>, \<open>lower\<close>, \<open>split\<close>,
  \<open>startswith\<close>, \<open>replace\<close>, the \<open>in\<close> operator and \<open>int\<close> on a string).
  The order on strings is Python's: lexicographic by code point, which is the order of
  \<open>List_Lexorder\<close> over \<open>Char_ord\<close>.
\<close>

named_theorems py_simps \<open>unfolding rules for the Python library functions\<close>
named_theorems frame_simps \<open>what an operation leaves unchanged\<close>
named_theorems inv_intros \<open>preservation of a component's invariant\<close>

section \<open>Exceptions\<close>

text \<open>The built-in exceptions the modelled code can raise.\<close>

datatype pyexc = ValueError | TypeError | OverflowError | ZeroDivisionError | AttributeError
  | KeyError | InvalidToken | MultipleResultsFound | IntegrityError | ValidationError

type_synonym 'a res = "pyexc + 'a"

definition res_bind :: "'e + 'a \<Rightarrow> ('a \<Rightarrow> 'e + 'b) \<Rightarrow> 'e + 'b" where
  "res_bind m f = (case m of Inl e \<Rightarrow> Inl e | Inr x \<Rightarrow> f x)"

lemma res_bind_simps [simp]:
  "res_bind (Inl e) f = Inl e"
  "res_bind (Inr x) f = f x"
  by (simp_all add: res_bind_def)

lemma res_bind_eq_Inr: "res_bind m f = Inr y \<longleftrightarrow> (\<exists>x. m = Inr x \<and> f x = Inr y)"
  by (cases m) auto

lemma res_bind_eq_Inl: "res_bind m f = Inl e \<longleftrightarrow> m = Inl e \<or> (\<exists>x. m = Inr x \<and> f x = Inl e)"
  by (cases m) auto

lemma res_bind_cong [fundef_cong]:
  "m = m' \<Longrightarrow> (\<And>x. m' = Inr x \<Longrightarrow> f x = f' x) \<Longrightarrow> res_bind m f = res_bind m' f'"
  by (cases m') auto

text \<open>A Python loop over a list whose body can raise: it stops at the first exception.\<close>

fun res_map :: "('a \<Rightarrow> 'e + 'b) \<Rightarrow> 'a list \<Rightarrow> 'e + 'b list" where
  "res_map f [] = Inr []"
| "res_map f (x # xs) = res_bind (f x) (\<lambda>y. res_bind (res_map f xs) (\<lambda>ys. Inr (y # ys)))"

lemma res_map_Inr_iff: "res_map f xs = Inr ys \<longleftrightarrow> list_all2 (\<lambda>x y. f x = Inr y) xs ys"
proof (induction xs arbitrary: ys)
  case Nil
  then show ?case by auto
next
  case (Cons x xs)
  then show ?case by (cases ys) (auto simp: res_bind_eq_Inr)
qed

lemma res_map_mem: "res_map f xs = Inr ys \<Longrightarrow> y \<in> set ys \<Longrightarrow> \<exists>x\<in>set xs. f x = Inr y"
proof (induction xs arbitrary: ys)
  case (Cons x xs)
  then show ?case by (cases ys) (fastforce simp: res_bind_eq_Inr)+
qed simp

lemma res_map_cong [fundef_cong]:
  "xs = ys \<Longrightarrow> (\<And>x. x \<in> set ys \<Longrightarrow> f x = g x) \<Longrightarrow> res_map f xs = res_map g ys"
  by (induction ys arbitrary: xs) auto

section \<open>Strings\<close>

abbreviation code_point :: "char \<Rightarrow> nat" where
  "code_point c \<equiv> of_char c"

text \<open>\<open>str.isspace\<close> on the Latin-1 code points.\<close>

definition py_isspace :: "char \<Rightarrow> bool" where
  "py_isspace c = (let n = code_point c :: nat in
     (9 \<le> n \<and> n \<le> 13) \<or> (28 \<le> n \<and> n \<le> 32) \<or> n = 133 \<or> n = 160)"

definition lstrip :: "string \<Rightarrow> string" where
  "lstrip s = dropWhile py_isspace s"

definition rstrip :: "string \<Rightarrow> string" where
  "rstrip s = rev (dropWhile py_isspace (rev s))"

definition strip :: "string \<Rightarrow> string" where
  "strip s = rstrip (lstrip s)"

text \<open>\<open>str.lower\<close> on the Latin-1 code points: ASCII letters and the accented capitals.\<close>

definition lower_char :: "char \<Rightarrow> char" where
  "lower_char c = (let n = code_point c :: nat in
     if (65 \<le> n \<and> n \<le> 90) \<or> (192 \<le> n \<and> n \<le> 222 \<and> n \<noteq> 215) then char_of (n + 32) else c)"

definition lower :: "string \<Rightarrow> string" where
  "lower s = map lower_char s"

definition startswith :: "string \<Rightarrow> string \<Rightarrow> bool" where
  "startswith s p = (take (length p) s = p)"

definition endswith :: "string \<Rightarrow> string \<Rightarrow> bool" where
  "endswith s p = (length p \<le> length s \<and> drop (length s - length p) s = p)"

text \<open>The \<open>in\<close> operator of strings: \<open>sub in s\<close>.\<close>

fun str_in :: "string \<Rightarrow> string \<Rightarrow> bool" where
  "str_in sub [] = (sub = [])"
| "str_in sub (c # s) = (startswith (c # s) sub \<or> str_in sub s)"

text \<open>\<open>s.split(sep)\<close> for a separator of one character: never the empty list.\<close>

fun split_on :: "char \<Rightarrow> string \<Rightarrow> string list" where
  "split_on sep [] = [[]]"
| "split_on sep (c # s) =
     (if c = sep then [] # split_on sep s
      else (case split_on sep s of [] \<Rightarrow> [[c]] | w # ws \<Rightarrow> (c # w) # ws))"

text \<open>\<open>s.split()\<close>: the maximal runs of non-space characters.\<close>

fun split_ws :: "string \<Rightarrow> string list" where
  "split_ws [] = []"
| "split_ws (c # s) =
     (if py_isspace c then split_ws s
      else (case s of
              [] \<Rightarrow> [[c]]
            | d # _ \<Rightarrow> if py_isspace d then [c] # split_ws s
                       else (case split_ws s of [] \<Rightarrow> [[c]] | w # ws \<Rightarrow> (c # w) # ws)))"

text \<open>\<open>s.replace(old, new)\<close> for a non-empty \<open>old\<close>: left to right, not overlapping.\<close>

function str_replace :: "string \<Rightarrow> string \<Rightarrow> string \<Rightarrow> string" where
  "str_replace old new s =
     (if s = [] then []
      else if old \<noteq> [] \<and> startswith s old then new @ str_replace old new (drop (length old) s)
      else hd s # str_replace old new (tl s))"
  by pat_completeness auto
termination
  by (relation "measure (\<lambda>(old, new, s). length s)") auto

declare str_replace.simps [simp del]

text \<open>
  \<open>int(s)\<close> for a string: surrounding white space is dropped, one sign is allowed, the digits
  may be grouped by single underscores, and more than 4300 digits is an error.
\<close>

definition is_dec :: "char \<Rightarrow> bool" where
  "is_dec c = (let n = code_point c :: nat in 48 \<le> n \<and> n \<le> 57)"

fun dec_groups_ok :: "bool \<Rightarrow> string \<Rightarrow> bool" where
  "dec_groups_ok prev_digit [] = prev_digit"
| "dec_groups_ok prev_digit (c # s) =
     (if is_dec c then dec_groups_ok True s
      else if c = CHR ''_'' then prev_digit \<and> dec_groups_ok False s
      else False)"

definition dec_value :: "string \<Rightarrow> int" where
  "dec_value s = foldl (\<lambda>acc c. 10 * acc + (of_char c - 48)) 0 (filter is_dec s)"

definition py_int :: "string \<Rightarrow> int res" where
  "py_int s =
     (let t = strip s;
          neg = (t \<noteq> [] \<and> hd t = CHR ''-'');
          body = (if t \<noteq> [] \<and> (hd t = CHR ''-'' \<or> hd t = CHR ''+'') then tl t else t)
      in if dec_groups_ok False body \<and> length (filter is_dec body) \<le> 4300
         then Inr (if neg then - dec_value body else dec_value body)
         else Inl ValueError)"

lemmas py_string_defs [py_simps] =
  py_isspace_def lstrip_def rstrip_def strip_def lower_char_def lower_def startswith_def
  endswith_def is_dec_def dec_value_def py_int_def

lemma split_on_nonempty [simp]: "split_on sep s \<noteq> []"
  by (induction s) (auto split: list.splits)

lemma startswith_append [simp]: "startswith (p @ s) p"
  by (simp add: startswith_def)

lemma startswith_iff: "startswith s p \<longleftrightarrow> (\<exists>t. s = p @ t)"
  by (metis append_take_drop_id startswith_append startswith_def)

lemma strip_no_lead: "strip s = c # t \<Longrightarrow> \<not> py_isspace c"
proof -
  assume a: "strip s = c # t"
  have "\<exists>u. lstrip s = (c # t) @ u"
  proof -
    have "\<exists>u. rev x = rev (dropWhile py_isspace x) @ u" for x
      by (metis rev_append takeWhile_dropWhile_id)
    from this [of "rev (lstrip s)"] a show ?thesis
      by (auto simp: strip_def rstrip_def)
  qed
  then show ?thesis
    by (auto simp: lstrip_def dropWhile_eq_Cons_conv)
qed

section \<open>Dictionaries\<close>

text \<open>
  A \<open>dict\<close> in insertion order: setting an existing key keeps its position, a new key goes to
  the end. Look-up is \<^const>\<open>map_of\<close>.
\<close>

fun dict_set :: "'k \<Rightarrow> 'v \<Rightarrow> ('k \<times> 'v) list \<Rightarrow> ('k \<times> 'v) list" where
  "dict_set k v [] = [(k, v)]"
| "dict_set k v ((k', v') # d) = (if k' = k then (k, v) # d else (k', v') # dict_set k v d)"

definition dict_get :: "('k \<times> 'v) list \<Rightarrow> 'k \<Rightarrow> 'v \<Rightarrow> 'v" where
  "dict_get d k dflt = (case map_of d k of None \<Rightarrow> dflt | Some v \<Rightarrow> v)"

lemma map_of_dict_set [simp]: "map_of (dict_set k v d) = (map_of d)(k \<mapsto> v)"
  by (induction k v d rule: dict_set.induct) auto

lemma keys_dict_set: "set (map fst (dict_set k v d)) = insert k (set (map fst d))"
  by (induction k v d rule: dict_set.induct) auto

lemma distinct_dict_set: "distinct (map fst d) \<Longrightarrow> distinct (map fst (dict_set k v d))"
proof (induction k v d rule: dict_set.induct)
  case (2 k v k' v' d)
  then show ?case using keys_dict_set [of k v d] by auto
qed simp

lemma dict_get_Nil [simp]: "dict_get [] k d = d"
  by (simp add: dict_get_def)

lemma dict_get_Cons [simp]: "dict_get ((k, v) # d) k' x = (if k = k' then v else dict_get d k' x)"
  by (simp add: dict_get_def)

lemma dict_get_absent: "k \<notin> fst ` set d \<Longrightarrow> dict_get d k x = x"
  by (induction d) auto

lemma dict_get_set [simp]: "dict_get (dict_set k v d) k' dflt = (if k' = k then v else dict_get d k' dflt)"
  by (simp add: dict_get_def)

section \<open>Keyed tables\<close>

text \<open>
  A database table with a primary key is a list of rows. \<open>row_get\<close> is the look-up by key,
  \<open>row_put\<close> replaces the row with the given key (an ORM attribute write on a loaded row).
\<close>

definition row_get :: "('r \<Rightarrow> 'k) \<Rightarrow> 'r list \<Rightarrow> 'k \<Rightarrow> 'r option" where
  "row_get key rows k = find (\<lambda>r. key r = k) rows"

definition row_put :: "('r \<Rightarrow> 'k) \<Rightarrow> 'r list \<Rightarrow> 'r \<Rightarrow> 'r list" where
  "row_put key rows r = map (\<lambda>r'. if key r' = key r then r else r') rows"

lemma row_get_key: "row_get key rows k = Some r \<Longrightarrow> key r = k"
  by (auto simp: row_get_def find_Some_iff)

lemma row_get_mem: "row_get key rows k = Some r \<Longrightarrow> r \<in> set rows"
  by (auto simp: row_get_def find_Some_iff)

lemma row_get_Cons: "row_get key (r # rows) k = (if key r = k then Some r else row_get key rows k)"
  by (simp add: row_get_def)

lemma row_get_put:
  "row_get key (row_put key rows r) k =
     (if k = key r then map_option (\<lambda>_. r) (row_get key rows k) else row_get key rows k)"
  by (induction rows) (auto simp: row_get_def row_put_def)

lemma row_get_append:
  "row_get key (rows @ more) k =
     (case row_get key rows k of None \<Rightarrow> row_get key more k | Some r \<Rightarrow> Some r)"
  by (induction rows) (auto simp: row_get_def)

lemma keys_row_put [simp]: "map key (row_put key rows r) = map key rows"
  by (induction rows) (auto simp: row_put_def)

lemma length_row_put [simp]: "length (row_put key rows r) = length rows"
  by (simp add: row_put_def)

lemma row_get_None: "row_get key rows k = None \<longleftrightarrow> k \<notin> key ` set rows"
  by (auto simp: row_get_def find_None_iff)

lemma row_get_distinct: "distinct (map key rows) \<Longrightarrow> r \<in> set rows \<Longrightarrow> row_get key rows (key r) = Some r"
  by (induction rows) (auto simp: row_get_def)

lemma set_row_put: "r' \<in> set (row_put key rows r) \<Longrightarrow> r' = r \<or> r' \<in> set rows \<and> key r' \<noteq> key r"
  by (auto simp: row_put_def split: if_splits)

lemma all_row_put: "(\<forall>x\<in>set rows. P x) \<Longrightarrow> P r \<Longrightarrow> (\<forall>x\<in>set (row_put key rows r). P x)"
  by (auto simp: row_put_def)

end
