(* ===== verification/Float64.thy ===== *)
theory Float64
  imports Complex_Main Prelude
begin

text \<open>
  Python's \<open>float\<close> is IEEE binary64. A finite float is the rational number it denotes; an
  operation rounds the exact rational result to the nearest double, ties to even, with gradual
  underflow at \<open>2 ^ -1074\<close>. Division of two \<open>int\<close>s rounds once and raises
  \<open>OverflowError\<close> when the rounded quotient is not a finite double.
  The laws a client needs of the rounding are the locale \<open>rounding\<close>, interpreted at the end on
  \<open>fl\<close>.
\<close>

section \<open>Rounding to the nearest integer, ties to even\<close>

definition rne :: "rat \<Rightarrow> int" where
  "rne x = (let f = \<lfloor>x\<rfloor>; d = x - of_int f in
     if d < 1 / 2 then f else if 1 / 2 < d then f + 1 else if even f then f else f + 1)"

lemma rne_bounds: "x - 1 / 2 \<le> of_int (rne x)" "of_int (rne x) \<le> x + 1 / 2"
  unfolding rne_def Let_def by (auto; linarith)+

lemma rne_of_int [simp]: "rne (of_int n) = n"
  by (simp add: rne_def)

lemma rne_numeral [simp]: "rne (numeral n) = numeral n"
  using rne_of_int [of "numeral n"] by simp

lemma rne_mono: assumes "x \<le> y" shows "rne x \<le> rne y"
proof (cases "\<lfloor>x\<rfloor> = \<lfloor>y\<rfloor>")
  case True
  with assms show ?thesis by (auto simp: rne_def Let_def)
next
  case False
  with assms have "\<lfloor>x\<rfloor> + 1 \<le> \<lfloor>y\<rfloor>"
    by (metis add1_zle_eq floor_mono le_less)
  moreover have "rne x \<le> \<lfloor>x\<rfloor> + 1" "\<lfloor>y\<rfloor> \<le> rne y"
    by (auto simp: rne_def Let_def)
  ultimately show ?thesis by linarith
qed

lemma rne_minus: "rne (- x) = - rne x"
proof (cases "x = of_int \<lfloor>x\<rfloor>")
  case True
  then show ?thesis by (metis of_int_minus rne_of_int)
next
  case False
  have "\<lfloor>- x\<rfloor> = - \<lfloor>x\<rfloor> - 1"
    using False by (simp add: floor_eq_iff) linarith
  moreover from this have "even \<lfloor>- x\<rfloor> \<longleftrightarrow> odd \<lfloor>x\<rfloor>" by presburger
  ultimately show ?thesis by (auto simp: rne_def Let_def field_simps)
qed

section \<open>The binary exponent of a positive rational\<close>

function nbits :: "int \<Rightarrow> nat" where
  "nbits n = (if n \<le> 0 then 0 else Suc (nbits (n div 2)))"
  by pat_completeness auto
termination
  by (relation "measure nat") auto

declare nbits.simps [simp del]

lemma nbits_pos: "0 < n \<Longrightarrow> 0 < nbits n"
  by (simp add: nbits.simps)

lemma nbits_bounds: "0 < n \<Longrightarrow> 2 ^ (nbits n - 1) \<le> n \<and> n < 2 ^ nbits n"
proof (induction n rule: nbits.induct)
  case (1 n)
  have step: "nbits n = Suc (nbits (n div 2))" using 1 by (subst nbits.simps) simp
  show ?case
  proof (cases "n div 2 = 0")
    case True
    with 1 have "n = 1" by linarith
    then show ?thesis by (simp add: nbits.simps)
  next
    case False
    with 1 have pos: "0 < n div 2" by linarith
    with 1 have ih: "2 ^ (nbits (n div 2) - 1) \<le> n div 2" "n div 2 < 2 ^ nbits (n div 2)"
      by auto
    have "(2::int) ^ nbits (n div 2) = 2 * 2 ^ (nbits (n div 2) - 1)"
      using nbits_pos [OF pos] by (metis Suc_diff_1 power_Suc)
    with ih(1) have "2 ^ nbits (n div 2) \<le> n" by linarith
    moreover have "n < 2 * 2 ^ nbits (n div 2)" using ih(2) by linarith
    ultimately show ?thesis by (simp add: step)
  qed
qed

lemma nbits_bounds_rat:
  assumes "0 < n"
  shows "2 ^ (nbits n - 1) \<le> (of_int n :: rat)" "(of_int n :: rat) < 2 ^ nbits n"
proof -
  have p: "(2 :: rat) ^ k = of_int (2 ^ k)" for k by simp
  show "2 ^ (nbits n - 1) \<le> (of_int n :: rat)" "(of_int n :: rat) < 2 ^ nbits n"
    unfolding p of_int_le_iff of_int_less_iff using nbits_bounds [OF assms] by simp_all
qed

definition ilog2 :: "rat \<Rightarrow> int" where
  "ilog2 x = (let (n, d) = quotient_of x;
                  e = int (nbits n) - int (nbits d)
              in if 2 powi e \<le> x then e else e - 1)"

lemma powi_nat_diff: "2 powi (int a - int b) = (2 ^ a / 2 ^ b :: rat)"
  by (simp add: power_int_diff)

lemma ilog2_bounds:
  assumes "0 < x"
  shows "2 powi ilog2 x \<le> x \<and> x < 2 powi (ilog2 x + 1)"
proof -
  obtain n d where q: "quotient_of x = (n, d)" by (cases "quotient_of x")
  from q have d: "0 < d" and x: "x = of_int n / of_int d"
    by (auto simp: quotient_of_denom_pos quotient_of_div)
  with assms have n: "0 < n" by (simp add: zero_less_divide_iff)
  define a where "a = nbits n"
  define b where "b = nbits d"
  have ab: "0 < a" "0 < b" using n d by (simp_all add: a_def b_def nbits.simps)
  have rn: "2 ^ (a - 1) \<le> (of_int n :: rat)" "(of_int n :: rat) < 2 ^ a"
    and rd: "2 ^ (b - 1) \<le> (of_int d :: rat)" "(of_int d :: rat) < 2 ^ b"
    using nbits_bounds_rat n d by (simp_all add: a_def b_def)
  have pa: "(2::rat) ^ a = 2 * 2 ^ (a - 1)" and pb: "(2::rat) ^ b = 2 * 2 ^ (b - 1)"
    using ab by (metis Suc_diff_1 power_Suc)+
  have up: "x < 2 * (2 ^ a / 2 ^ b)"
  proof -
    have "x < 2 ^ a / of_int d" using x rn(2) d by (simp add: divide_strict_right_mono)
    also have "\<dots> \<le> 2 ^ a / 2 ^ (b - 1)" using rd(1) by (intro divide_left_mono) (auto simp: d)
    also have "\<dots> = 2 * (2 ^ a / 2 ^ b)" using pb by simp
    finally show ?thesis .
  qed
  have lo: "(2 ^ a / 2 ^ b) / 2 \<le> x"
  proof -
    have "(2 ^ a / 2 ^ b) / 2 = (2 ^ (a - 1) / 2 ^ b :: rat)" using pa by simp
    also have "\<dots> \<le> of_int n / 2 ^ b" using rn(1) by (simp add: divide_right_mono)
    also have "\<dots> \<le> x" using rd(2) d n unfolding x by (intro divide_left_mono) auto
    finally show ?thesis .
  qed
  have e: "ilog2 x = (if 2 ^ a / 2 ^ b \<le> x then int a - int b else int a - int b - 1)"
    by (simp add: ilog2_def q a_def b_def powi_nat_diff)
  have half: "(2::rat) powi (int a - int b - 1) = (2 ^ a / 2 ^ b) / 2"
    by (simp add: power_int_diff)
  have dbl: "(2::rat) powi (int a - int b + 1) = 2 * (2 ^ a / 2 ^ b)"
    by (simp add: power_int_diff power_int_add)
  show ?thesis
    using up lo unfolding e by (simp add: half dbl powi_nat_diff)
qed

lemma powi2_le_iff [simp]: "(2::rat) powi i \<le> 2 powi j \<longleftrightarrow> i \<le> j"
  by (metis linorder_not_le one_less_numeral_iff power_int_strict_increasing
      power_int_increasing less_imp_le order_less_le semiring_norm(76))

lemma powi2_less_iff [simp]: "(2::rat) powi i < 2 powi j \<longleftrightarrow> i < j"
  by (metis linorder_not_le powi2_le_iff)

lemma ilog2_mono: assumes "0 < x" "x \<le> y" shows "ilog2 x \<le> ilog2 y"
proof -
  have "2 powi ilog2 x < (2::rat) powi (ilog2 y + 1)"
    using ilog2_bounds [of x] ilog2_bounds [of y] assms by linarith
  then show ?thesis by simp
qed

section \<open>Rounding to binary64\<close>

definition ulp_exp :: "rat \<Rightarrow> int" where
  "ulp_exp x = max (ilog2 \<bar>x\<bar> - 52) (- 1074)"

definition fl :: "rat \<Rightarrow> rat" where
  "fl x = (if x = 0 then 0 else let u = 2 powi ulp_exp x in of_int (rne (x / u)) * u)"

definition float_max_exp :: rat where
  "float_max_exp = 2 ^ 1024"

text \<open>\<open>a / b\<close> on \<open>int\<close>s.\<close>

definition py_truediv :: "int \<Rightarrow> int \<Rightarrow> rat res" where
  "py_truediv a b =
     (if b = 0 then Inl ZeroDivisionError
      else let q = fl (of_int a / of_int b) in
        if float_max_exp \<le> \<bar>q\<bar> then Inl OverflowError else Inr q)"

lemma fl_0 [simp]: "fl 0 = 0"
  by (simp add: fl_def)

lemma fl_minus: "fl (- x) = - fl x"
  by (simp add: fl_def ulp_exp_def Let_def rne_minus minus_divide_left [symmetric])

lemma fl_scale: "x \<noteq> 0 \<Longrightarrow> fl x = of_int (rne (x / 2 powi ulp_exp x)) * 2 powi ulp_exp x"
  by (simp add: fl_def Let_def)

lemma fl_error:
  "\<bar>fl x - x\<bar> \<le> 2 powi ulp_exp x / 2"
proof (cases "x = 0")
  case False
  define u :: rat where "u = 2 powi ulp_exp x"
  have u: "0 < u" by (simp add: u_def)
  have "\<bar>of_int (rne (x / u)) - x / u\<bar> \<le> 1 / 2" using rne_bounds [of "x / u"] by linarith
  then have "\<bar>of_int (rne (x / u)) - x / u\<bar> * u \<le> 1 / 2 * u"
    using u by (intro mult_right_mono) auto
  moreover have "\<bar>of_int (rne (x / u)) - x / u\<bar> * u = \<bar>of_int (rne (x / u)) * u - x\<bar>"
    using u by (metis (no_types, lifting) abs_mult abs_of_pos left_diff_distrib
        nonzero_eq_divide_eq less_irrefl)
  ultimately have "\<bar>of_int (rne (x / u)) * u - x\<bar> \<le> u / 2" by simp
  then show ?thesis using False by (simp add: fl_scale flip: u_def)
qed simp

text \<open>A power of two that is a multiple of the unit of \<open>x\<close> bounds the rounded value too.\<close>

lemma fl_le_power:
  assumes "x \<noteq> 0" "x \<le> 2 powi e" "ulp_exp x \<le> e"
  shows "fl x \<le> 2 powi e"
proof -
  define k where "k = nat (e - ulp_exp x)"
  have split: "(2::rat) powi e = 2 ^ k * 2 powi ulp_exp x"
    using assms(3) by (simp add: k_def power_int_diff flip: power_int_of_nat)
  have "x / 2 powi ulp_exp x \<le> of_int (2 ^ k)"
    using assms(2) unfolding split by (simp add: pos_divide_le_eq)
  from rne_mono [OF this] have "rne (x / 2 powi ulp_exp x) \<le> 2 ^ k" by (simp only: rne_of_int)
  then have "(of_int (rne (x / 2 powi ulp_exp x)) :: rat) \<le> 2 ^ k"
    by (metis of_int_le_iff of_int_numeral of_int_power)
  then show ?thesis unfolding split fl_scale [OF assms(1)]
    by (intro mult_right_mono) auto
qed

lemma fl_ge_power:
  assumes "x \<noteq> 0" "2 powi e \<le> x" "ulp_exp x \<le> e"
  shows "2 powi e \<le> fl x"
proof -
  define k where "k = nat (e - ulp_exp x)"
  have split: "(2::rat) powi e = 2 ^ k * 2 powi ulp_exp x"
    using assms(3) by (simp add: k_def power_int_diff flip: power_int_of_nat)
  have "of_int (2 ^ k) \<le> x / 2 powi ulp_exp x"
    using assms(2) unfolding split by (simp add: pos_le_divide_eq)
  from rne_mono [OF this] have "2 ^ k \<le> rne (x / 2 powi ulp_exp x)" by (simp only: rne_of_int)
  then have "(2 ^ k :: rat) \<le> of_int (rne (x / 2 powi ulp_exp x))"
    by (metis of_int_le_iff of_int_numeral of_int_power)
  then show ?thesis unfolding split fl_scale [OF assms(1)]
    by (intro mult_right_mono) auto
qed

lemma fl_nonneg: "0 \<le> x \<Longrightarrow> 0 \<le> fl x"
proof -
  assume "0 \<le> x"
  then have "rne 0 \<le> rne (x / 2 powi ulp_exp x)" by (intro rne_mono) simp
  then have "0 \<le> rne (x / 2 powi ulp_exp x)" using rne_of_int [of 0] by simp
  then show ?thesis by (simp add: fl_def Let_def)
qed

lemma fl_mono_pos:
  assumes "0 < x" "x \<le> y"
  shows "fl x \<le> fl y"
proof (cases "ulp_exp x = ulp_exp y")
  case True
  have "rne (x / 2 powi ulp_exp y) \<le> rne (y / 2 powi ulp_exp y)"
    using assms by (intro rne_mono divide_right_mono) auto
  with assms True show ?thesis by (simp add: fl_scale mult_right_mono)
next
  case False
  have "ilog2 x \<le> ilog2 y" using assms by (rule ilog2_mono)
  with False assms have lt: "ulp_exp x < ulp_exp y" "ilog2 x < ilog2 y" "ulp_exp y = ilog2 y - 52"
    by (auto simp: ulp_exp_def)
  have "x \<le> 2 powi ilog2 y"
  proof -
    have "x < 2 powi (ilog2 x + 1)" using ilog2_bounds assms by blast
    also have "\<dots> \<le> 2 powi ilog2 y" using lt(2) by simp
    finally show ?thesis by simp
  qed
  then have "fl x \<le> 2 powi ilog2 y" using assms lt by (intro fl_le_power) auto
  also have "\<dots> \<le> fl y"
    using assms lt ilog2_bounds [of y] by (intro fl_ge_power) auto
  finally show ?thesis .
qed

lemma fl_mono: assumes "x \<le> y" shows "fl x \<le> fl y"
proof (cases "0 < x")
  case True
  then show ?thesis using assms by (rule fl_mono_pos)
next
  case False
  then have neg: "0 \<le> fl (- x)" by (intro fl_nonneg) simp
  show ?thesis
  proof (cases "0 \<le> y")
    case True
    then have "0 \<le> fl y" by (rule fl_nonneg)
    with neg show ?thesis by (simp add: fl_minus)
  next
    case False
    with assms have "fl (- y) \<le> fl (- x)" by (intro fl_mono_pos) auto
    then show ?thesis by (simp add: fl_minus)
  qed
qed

lemma fl_pos:
  assumes "2 powi (- 1074) \<le> x"
  shows "0 < fl x"
proof -
  have x: "0 < x" using assms by (meson less_le_trans zero_less_numeral zero_less_power_int)
  have "2 powi (- 1074) < (2::rat) powi (ilog2 x + 1)" using assms ilog2_bounds [OF x] by linarith
  then have "- 1074 \<le> ilog2 x" by (simp only: powi2_less_iff)
  then have "ulp_exp x \<le> ilog2 x" using x by (simp add: ulp_exp_def)
  then have "2 powi ilog2 x \<le> fl x" using x ilog2_bounds [OF x] by (intro fl_ge_power) auto
  then show ?thesis by (meson less_le_trans zero_less_numeral zero_less_power_int)
qed

lemma ilog2_less:
  assumes "0 < x" "x < 2 powi e"
  shows "ilog2 x < e"
proof -
  have "2 powi ilog2 x < (2::rat) powi e" using ilog2_bounds [OF assms(1)] assms(2) by linarith
  then show ?thesis by simp
qed

text \<open>Integers below \<open>2 ^ 53\<close> are doubles.\<close>

lemma fl_of_int:
  assumes "\<bar>m\<bar> < 2 ^ 53"
  shows "fl (of_int m) = of_int m"
proof (cases "m = 0")
  case False
  have "\<bar>of_int m :: rat\<bar> < of_int (2 ^ 53)" using assms by (metis of_int_abs of_int_less_iff)
  then have "ilog2 \<bar>of_int m\<bar> < 53" using False by (intro ilog2_less) auto
  then have k: "ulp_exp (of_int m) \<le> 0" by (simp add: ulp_exp_def)
  define k where "k = nat (- ulp_exp (of_int m))"
  have p: "(2::rat) powi ulp_exp (of_int m) = 1 / 2 ^ k"
    using k by (simp add: k_def power_int_def field_simps)
  have "(of_int m :: rat) / 2 powi ulp_exp (of_int m) = of_int (m * 2 ^ k)" by (simp add: p)
  then have "fl (of_int m) = of_int (m * 2 ^ k) * (1 / 2 ^ k)"
    using False by (simp only: fl_scale of_int_eq_0_iff rne_of_int p not_False_eq_True)
  then show ?thesis by simp
qed simp

lemma fl_1 [simp]: "fl 1 = 1"
  using fl_of_int [of 1] by simp

lemma fl_error_small:
  assumes "0 < x" "x < 2 powi e" "- 1021 \<le> e"
  shows "\<bar>fl x - x\<bar> \<le> 2 powi (e - 54)"
proof -
  have "ilog2 x < e" using assms by (intro ilog2_less) auto
  then have "ulp_exp x \<le> e - 53" using assms by (simp add: ulp_exp_def)
  then have "(2::rat) powi ulp_exp x \<le> 2 powi (e - 53)" by simp
  moreover have "(2::rat) powi (e - 53) / 2 = 2 powi (e - 54)"
    by (simp add: power_int_diff)
  ultimately show ?thesis using fl_error [of x] by linarith
qed

section \<open>What clients rely on\<close>

text \<open>
  The contract of a rounding: it is monotone and keeps the two numbers the code compares with.
  The facts about scores are proved once from it.
\<close>

locale rounding =
  fixes rnd :: "rat \<Rightarrow> rat"
  assumes mono: "x \<le> y \<Longrightarrow> rnd x \<le> rnd y"
    and zero: "rnd 0 = 0"
    and one: "rnd 1 = 1"
begin

lemma nonneg: "0 \<le> x \<Longrightarrow> 0 \<le> rnd x"
  using mono [of 0 x] zero by simp

lemma le_one: "x \<le> 1 \<Longrightarrow> rnd x \<le> 1"
  using mono [of x 1] one by simp

lemma unit: "0 \<le> x \<Longrightarrow> x \<le> 1 \<Longrightarrow> 0 \<le> rnd x \<and> rnd x \<le> 1"
  using nonneg le_one by blast

lemma add_mono2: "a \<le> a' \<Longrightarrow> b \<le> b' \<Longrightarrow> rnd (a + b) \<le> rnd (a' + b')"
  by (intro mono) simp

lemma mult_mono_nonneg: "0 \<le> c \<Longrightarrow> a \<le> a' \<Longrightarrow> rnd (a * c) \<le> rnd (a' * c)"
  by (intro mono mult_right_mono)

end

interpretation fl: rounding fl
  by unfold_locales (simp_all add: fl_mono)

lemma py_truediv_Inr:
  "py_truediv a b = Inr q \<Longrightarrow> b \<noteq> 0 \<and> q = fl (of_int a / of_int b)"
  by (auto simp: py_truediv_def Let_def split: if_splits)

lemma py_truediv_unit:
  assumes "0 \<le> a" "a \<le> b" "0 < b"
  shows "\<exists>q. py_truediv a b = Inr q \<and> 0 \<le> q \<and> q \<le> 1"
proof -
  have "0 \<le> fl (of_int a / of_int b) \<and> fl (of_int a / of_int b) \<le> 1"
    using assms by (intro fl.unit) auto
  then show ?thesis using assms by (auto simp: py_truediv_def Let_def float_max_exp_def)
qed

lemma py_truediv_unit_max:
  assumes "0 \<le> a" "a \<le> b"
  obtains q where "py_truediv a (max 1 b) = Inr q" "0 \<le> q" "q \<le> 1"
  using py_truediv_unit [of a "max 1 b"] assms by (auto simp: less_max_iff_disj le_max_iff_disj)

end
