(* ===== verification/Json.thy ===== *)
theory Json
  imports Float64
begin

text \<open>
  The values \<open>json.loads\<close> produces, which is what request payloads and upstream bodies are made
  of. A Python \<open>bool\<close>, \<open>int\<close>, \<open>float\<close>, \<open>str\<close>, \<open>list\<close>, \<open>dict\<close> and \<open>None\<close> each have a
  constructor; \<open>isinstance\<close> and \<open>type(x) is int\<close> tests are constructor tests. A \<open>dict\<close> is an
  association list with string keys.
\<close>

datatype pyfloat = Fin rat | PosInf | NegInf | NaN

datatype json = JNull | JBool bool | JInt int | JFloat pyfloat | JStr string
  | JArr "json list" | JObj "(string \<times> json) list"

type_synonym jobj = "(string \<times> json) list"

text \<open>\<open>payload.get(key)\<close>: a missing key and a JSON \<open>null\<close> both give \<open>None\<close>.\<close>

definition jget :: "jobj \<Rightarrow> string \<Rightarrow> json" where
  "jget ob key = (case map_of ob key of None \<Rightarrow> JNull | Some v \<Rightarrow> v)"

text \<open>Truth value testing.\<close>

fun truthy :: "json \<Rightarrow> bool" where
  "truthy JNull = False"
| "truthy (JBool b) = b"
| "truthy (JInt n) = (n \<noteq> 0)"
| "truthy (JFloat f) = (f \<noteq> Fin 0)"
| "truthy (JStr s) = (s \<noteq> [])"
| "truthy (JArr xs) = (xs \<noteq> [])"
| "truthy (JObj kvs) = (kvs \<noteq> [])"

text \<open>\<open>value.is_integer()\<close> followed by \<open>int(value)\<close>.\<close>

fun float_as_int :: "pyfloat \<Rightarrow> int option" where
  "float_as_int (Fin q) = (if of_int \<lfloor>q\<rfloor> = q then Some \<lfloor>q\<rfloor> else None)"
| "float_as_int _ = None"

text \<open>\<open>isinstance(v, str)\<close>, as the string it holds.\<close>

fun json_str :: "json \<Rightarrow> string option" where
  "json_str (JStr s) = Some s"
| "json_str _ = None"

lemma json_str_Some [simp]: "json_str v = Some s \<longleftrightarrow> v = JStr s"
  by (cases v) auto

lemma jget_Nil [simp]: "jget [] k = JNull"
  by (simp add: jget_def)

lemma jget_Cons [simp]: "jget ((k, v) # ob) k' = (if k = k' then v else jget ob k')"
  by (simp add: jget_def)

end
