(* ===== verification/Usage.thy ===== *)
theory Usage
  imports Json
begin

text \<open>
  Credit estimation, \<open>src/app/modules/firecrawl/usage.py\<close>: how many credits a request is
  expected to cost, and the exact number when the upstream response carries \<open>creditsUsed\<close>.
\<close>

section \<open>Definitions\<close>

definition EXPENSIVE_SCRAPE_FORMATS :: "string set" where
  "EXPENSIVE_SCRAPE_FORMATS =
     {''json'', ''summary'', ''screenshot'', ''audio'', ''video'', ''question'', ''highlights''}"

fun is_plain_int :: "json \<Rightarrow> bool" where
  "is_plain_int (JInt _) = True"
| "is_plain_int _ = False"

text \<open>\<open>_int_value\<close>: a string is converted with \<open>int\<close>, which can raise.\<close>

fun int_value :: "json \<Rightarrow> int \<Rightarrow> int res" where
  "int_value (JInt n) dflt = Inr n"
| "int_value (JStr s) dflt = py_int s"
| "int_value _ dflt = Inr dflt"

fun scrape_format_name :: "json \<Rightarrow> string option" where
  "scrape_format_name (JStr s) = Some s"
| "scrape_format_name (JObj ob) = json_str (jget ob ''type'')"
| "scrape_format_name _ = None"

fun normalized_scrape_formats :: "json \<Rightarrow> string set" where
  "normalized_scrape_formats (JArr items) =
     (let normalized = set (List.map_filter scrape_format_name items)
      in if normalized = {} then {''markdown''} else normalized)"
| "normalized_scrape_formats _ = {''markdown''}"

definition estimate_scrape_credits :: "jobj \<Rightarrow> int" where
  "estimate_scrape_credits payload =
     (let formats = normalized_scrape_formats (jget payload ''formats'');
          credits = 1 + int (card (formats \<inter> EXPENSIVE_SCRAPE_FORMATS));
          credits = (if truthy (jget payload ''onlyCleanContent'') then credits + 1 else credits)
      in if truthy (jget payload ''actions'') then credits + 1 else credits)"

definition estimate_search_scrape_reservation :: "int \<Rightarrow> int \<Rightarrow> jobj \<Rightarrow> int" where
  "estimate_search_scrape_reservation limit source_count scrape_options =
     limit * estimate_scrape_credits scrape_options"

text \<open>\<open>len(v)\<close> when \<open>v\<close> is a sequence that is not a string, otherwise the given number.\<close>

fun seq_len :: "json \<Rightarrow> int \<Rightarrow> int" where
  "seq_len (JArr xs) dflt = int (length xs)"
| "seq_len _ dflt = dflt"

definition estimate_search_credits :: "jobj \<Rightarrow> int res" where
  "estimate_search_credits payload =
     res_bind (int_value (jget payload ''limit'') 10) (\<lambda>raw.
       let limit = max 1 raw;
           source_count = max 1 (seq_len (jget payload ''sources'') 1)
       in res_bind (py_truediv limit 10) (\<lambda>pages.
         let credits = 2 * \<lceil>pages\<rceil> * source_count
         in Inr (case jget payload ''scrapeOptions'' of
                   JObj opts \<Rightarrow> credits + estimate_search_scrape_reservation limit source_count opts
                 | _ \<Rightarrow> credits)))"

definition response_credits_used :: "jobj option \<Rightarrow> int option" where
  "response_credits_used response_json =
     (case response_json of
        None \<Rightarrow> None
      | Some ob \<Rightarrow>
          (case jget ob ''creditsUsed'' of
             JInt n \<Rightarrow> Some n
           | _ \<Rightarrow>
               (case jget ob ''data'' of
                  JObj data \<Rightarrow> (case jget data ''creditsUsed'' of JInt n \<Rightarrow> Some n | _ \<Rightarrow> None)
                | _ \<Rightarrow> None)))"

definition estimate_credits :: "string \<Rightarrow> jobj \<Rightarrow> jobj option \<Rightarrow> int res" where
  "estimate_credits endpoint payload response_json =
     (case response_credits_used response_json of
        Some n \<Rightarrow> Inr n
      | None \<Rightarrow>
          if endpoint = ''scrape'' then Inr (estimate_scrape_credits payload)
          else if endpoint = ''map'' then Inr 1
          else if endpoint = ''search'' then estimate_search_credits payload
          else if endpoint = ''crawl'' then
            res_bind (int_value (jget payload ''limit'') 1) (\<lambda>n. Inr (max 1 n))
          else if endpoint = ''batch_scrape'' then Inr (max 1 (seq_len (jget payload ''urls'') 0))
          else Inr 1)"

section \<open>Lemmas\<close>

lemma finite_expensive [simp]: "finite EXPENSIVE_SCRAPE_FORMATS"
  by (simp add: EXPENSIVE_SCRAPE_FORMATS_def)

lemma card_expensive: "card EXPENSIVE_SCRAPE_FORMATS = 7"
  by (simp add: EXPENSIVE_SCRAPE_FORMATS_def)

lemma scrape_credits_bounds: "1 \<le> estimate_scrape_credits p \<and> estimate_scrape_credits p \<le> 10"
proof -
  have "card (normalized_scrape_formats (jget p ''formats'') \<inter> EXPENSIVE_SCRAPE_FORMATS) \<le> 7"
    using card_mono [OF finite_expensive Int_lower2] by (simp add: card_expensive)
  then show ?thesis by (auto simp: estimate_scrape_credits_def Let_def)
qed

lemma scrape_credits_nonneg [simp]: "0 \<le> estimate_scrape_credits p"
  using scrape_credits_bounds [of p] by simp

lemma seq_len_nonneg: "0 \<le> dflt \<Longrightarrow> 0 \<le> seq_len v dflt"
  by (cases v) auto

lemma ceiling_truediv_ge:
  assumes "py_truediv n 10 = Inr q" "1 \<le> n"
  shows "1 \<le> \<lceil>q\<rceil>"
proof -
  have "(2::rat) powi (- 1074) \<le> 2 powi (- 4)" by (subst powi2_le_iff) simp
  also have "\<dots> \<le> of_int n / of_int 10" using assms(2) by (simp add: power_int_def power_divide)
  finally have "0 < fl (of_int n / of_int 10)" by (rule fl_pos)
  then have "0 < q" using py_truediv_Inr [OF assms(1)] by simp
  then show ?thesis by linarith
qed

text \<open>For every limit up to \<open>2 ^ 48\<close> the float division does not disturb the ceiling.\<close>

lemma ceiling_fl_tenth:
  assumes "1 \<le> n" "n \<le> 2 ^ 48"
  shows "\<lceil>fl (of_int n / 10)\<rceil> = (n + 9) div 10"
proof -
  define m where "m = n div 10"
  define r where "r = n mod 10"
  have n: "n = 10 * m + r" and r: "0 \<le> r" "r < 10" by (simp_all add: m_def r_def)
  have m: "0 \<le> m" "m < 2 ^ 53" using n r assms by auto
  show ?thesis
  proof (cases "r = 0")
    case True
    with n have "(of_int n :: rat) / 10 = of_int m" by simp
    with fl_of_int [of m] m True n show ?thesis by simp
  next
    case False
    have x: "(of_int n :: rat) / 10 = of_int m + of_int r / 10" by (simp add: n field_simps)
    have "(of_int n :: rat) \<le> 2 ^ 48"
      using assms(2) by (metis of_int_le_iff of_int_numeral of_int_power)
    then have "\<bar>fl (of_int n / 10) - of_int n / 10\<bar> \<le> 2 powi (49 - 54)"
      using assms(1) by (intro fl_error_small) (auto simp: power_int_def)
    then have e: "\<bar>fl (of_int n / 10) - of_int n / 10\<bar> \<le> 1 / 32" by (simp add: power_int_def power_divide)
    have "of_int 1 \<le> (of_int r :: rat)" "(of_int r :: rat) \<le> of_int 9"
      using r False by (simp_all only: of_int_le_iff)
    with e x have "of_int m < fl (of_int n / 10)" "fl (of_int n / 10) \<le> of_int m + 1"
      unfolding abs_le_iff by linarith+
    then have "\<lceil>fl (of_int n / 10)\<rceil> = m + 1" by (subst ceiling_eq_iff) simp
    moreover have "(n + 9) div 10 = m + 1" using n r False by presburger
    ultimately show ?thesis by simp
  qed
qed

lemma py_truediv_tenth:
  assumes "1 \<le> n" "n \<le> 2 ^ 48"
  shows "\<exists>q. py_truediv n 10 = Inr q \<and> \<lceil>q\<rceil> = (n + 9) div 10"
proof -
  have c: "\<lceil>fl (of_int n / 10)\<rceil> = (n + 9) div 10" using assms by (rule ceiling_fl_tenth)
  have "0 \<le> fl (of_int n / 10)" using assms by (intro fl_nonneg) simp
  moreover have "fl (of_int n / 10) \<le> of_int ((n + 9) div 10)"
    using c by (metis le_of_int_ceiling)
  moreover have "(n + 9) div 10 \<le> 2 ^ 48" using assms by presburger
  then have "(of_int ((n + 9) div 10) :: rat) \<le> of_int (2 ^ 48)" by (simp only: of_int_le_iff)
  ultimately have "\<bar>fl (of_int n / 10)\<bar> < float_max_exp" by (simp add: float_max_exp_def)
  with c show ?thesis by (simp add: py_truediv_def)
qed

lemma estimate_search_Inr:
  "estimate_search_credits p = Inr n \<longleftrightarrow>
     (\<exists>raw q. int_value (jget p ''limit'') 10 = Inr raw \<and> py_truediv (max 1 raw) 10 = Inr q \<and>
        n = 2 * \<lceil>q\<rceil> * max 1 (seq_len (jget p ''sources'') 1) +
            (case jget p ''scrapeOptions'' of
               JObj opts \<Rightarrow> max 1 raw * estimate_scrape_credits opts | _ \<Rightarrow> 0))"
proof -
  have pull: "(case v of JObj opts \<Rightarrow> c + f opts | _ \<Rightarrow> c) =
      c + (case v of JObj opts \<Rightarrow> f opts | _ \<Rightarrow> 0)" for v and c :: int and f
    by (cases v) auto
  show ?thesis
    unfolding estimate_search_credits_def estimate_search_scrape_reservation_def Let_def
      res_bind_eq_Inr pull by auto
qed

lemma estimate_at_least_one:
  assumes "estimate_credits endpoint payload None = Inr n"
  shows "1 \<le> n"
proof -
  have search: "1 \<le> n" if "estimate_search_credits payload = Inr n" for n
  proof -
    from that obtain raw q where q: "py_truediv (max 1 raw) 10 = Inr q"
      and n: "n = 2 * \<lceil>q\<rceil> * max 1 (seq_len (jget payload ''sources'') 1) +
        (case jget payload ''scrapeOptions'' of
           JObj opts \<Rightarrow> max 1 raw * estimate_scrape_credits opts | _ \<Rightarrow> 0)"
      unfolding estimate_search_Inr by blast
    have "1 \<le> \<lceil>q\<rceil>" using q by (rule ceiling_truediv_ge) simp
    then have a: "1 * 1 \<le> \<lceil>q\<rceil> * max 1 (seq_len (jget payload ''sources'') 1)"
      by (intro mult_mono) auto
    have b: "0 \<le> (case v of JObj opts \<Rightarrow> max 1 raw * estimate_scrape_credits opts | _ \<Rightarrow> 0)"
      for v by (cases v) auto
    show ?thesis
      using a b [of "jget payload ''scrapeOptions''"] unfolding n mult.assoc by linarith
  qed
  note eq = assms [unfolded estimate_credits_def response_credits_used_def option.case]
  consider "endpoint = ''scrape''" | "endpoint = ''search''" | "endpoint = ''crawl''"
    | "endpoint = ''batch_scrape''"
    | "endpoint \<noteq> ''scrape''" "endpoint \<noteq> ''search''" "endpoint \<noteq> ''crawl''" "endpoint \<noteq> ''batch_scrape''"
    by blast
  then show ?thesis
  proof cases
    case 1
    with eq scrape_credits_bounds [of payload] show ?thesis by simp
  next
    case 2
    with eq search [of n] show ?thesis by simp
  next
    case 3
    with eq show ?thesis by (auto simp: res_bind_eq_Inr)
  next
    case 4
    with eq show ?thesis by auto
  next
    case 5
    with eq show ?thesis by (simp split: if_splits)
  qed
qed

section \<open>Properties\<close>

text \<open>
  An admission estimate (no response yet) is at least one credit on every endpoint and
  payload, so no request is admitted against an account without credits.
\<close>

lemma estimate_credits_pos:
  assumes "estimate_credits endpoint payload None = Inr n"
  shows "1 \<le> n"
  using assms by (rule estimate_at_least_one)

text \<open>
  C5: a search request with a limit up to \<open>2 ^ 48\<close> is estimated at
  \<open>2 * ceil(limit / 10) * sources\<close> credits, plus \<open>limit\<close> times the per-page scrape cost when
  scrape options are given: the float division inside \<open>ceil(limit / 10)\<close> is exact enough.
\<close>

theorem estimate_search_formula:
  assumes "jget payload ''limit'' = JInt limit" "1 \<le> limit" "limit \<le> 2 ^ 48"
  shows "estimate_credits ''search'' payload None =
    Inr (2 * ((limit + 9) div 10) * max 1 (seq_len (jget payload ''sources'') 1) +
         (case jget payload ''scrapeOptions'' of
            JObj opts \<Rightarrow> limit * estimate_scrape_credits opts | _ \<Rightarrow> 0))"
proof -
  have m: "max 1 limit = limit" using assms(2) by simp
  obtain q where "py_truediv limit 10 = Inr q" "\<lceil>q\<rceil> = (limit + 9) div 10"
    using py_truediv_tenth assms(2,3) by blast
  with m show ?thesis
    by (simp add: estimate_credits_def response_credits_used_def estimate_search_credits_def
        assms(1) estimate_search_scrape_reservation_def Let_def split: json.splits)
qed

theorem estimate_search_formula_witness:
  "estimate_credits ''search''
     [(''limit'', JInt 25), (''sources'', JArr [JStr ''web'', JStr ''news'']),
      (''scrapeOptions'', JObj [(''formats'', JArr [JStr ''json''])])] None = Inr 62"
  by (subst estimate_search_formula [where limit = 25])
    (simp_all add: estimate_scrape_credits_def EXPENSIVE_SCRAPE_FORMATS_def
      List.map_filter_def)

text \<open>
  What can go wrong. Without a \<open>creditsUsed\<close> in the response, estimation raises
  \<open>ValueError\<close> exactly for a search or crawl whose \<open>limit\<close> is a string that is not an integer
  literal, and \<open>OverflowError\<close> only for a search whose limit has no finite float quotient; no
  other exception occurs.
\<close>

lemma estimate_credits_errors:
  "estimate_credits endpoint payload response = Inl err \<longleftrightarrow>
     response_credits_used response = None \<and>
     ((\<exists>s. jget payload ''limit'' = JStr s \<and> py_int s = Inl err \<and>
           (endpoint = ''search'' \<or> endpoint = ''crawl'')) \<or>
      (\<exists>raw. endpoint = ''search'' \<and> int_value (jget payload ''limit'') 10 = Inr raw \<and>
           py_truediv (max 1 raw) 10 = Inl err))"
proof -
  have iv: "int_value v d = Inl e \<longleftrightarrow> (\<exists>s. v = JStr s \<and> py_int s = Inl e)" for v d e
    by (cases v) auto
  show ?thesis
    by (auto simp: estimate_credits_def estimate_search_credits_def res_bind_eq_Inl iv Let_def
        split: option.splits)
qed

text \<open>
  The exact count wins: whenever the response carries an integer \<open>creditsUsed\<close>, at the top
  level or under \<open>data\<close>, that number is the result whatever the endpoint and payload.
\<close>

lemma estimate_credits_response:
  assumes "response_credits_used response = Some n"
  shows "estimate_credits endpoint payload response = Inr n"
  using assms by (simp add: estimate_credits_def)

end
