(* ===== verification/Clock.thy ===== *)
theory Clock
  imports Prelude
begin

text \<open>
  Python's \<open>datetime\<close>: an instant in microseconds since the epoch (UTC), either naive or aware.
  Comparing a naive with an aware value raises \<open>TypeError\<close>; adding a \<open>timedelta\<close> that leaves
  the years 1 to 9999 raises \<open>OverflowError\<close>.
\<close>

datatype py_datetime = Naive int | Aware int

definition dt_min :: int where "dt_min = - 62135596800000000"
definition dt_max :: int where "dt_max = 253402300799999999"

fun dt_micros :: "py_datetime \<Rightarrow> int" where
  "dt_micros (Naive t) = t"
| "dt_micros (Aware t) = t"

fun dt_gt :: "py_datetime \<Rightarrow> py_datetime \<Rightarrow> bool res" where
  "dt_gt (Naive a) (Naive b) = Inr (b < a)"
| "dt_gt (Aware a) (Aware b) = Inr (b < a)"
| "dt_gt _ _ = Inl TypeError"

fun dt_add_seconds :: "py_datetime \<Rightarrow> int \<Rightarrow> py_datetime res" where
  "dt_add_seconds (Naive t) s =
     (let u = t + 1000000 * s in if dt_min \<le> u \<and> u \<le> dt_max then Inr (Naive u) else Inl OverflowError)"
| "dt_add_seconds (Aware t) s =
     (let u = t + 1000000 * s in if dt_min \<le> u \<and> u \<le> dt_max then Inr (Aware u) else Inl OverflowError)"

text \<open>\<open>value.replace(tzinfo=None)\<close> of a UTC value.\<close>

definition drop_tz :: "py_datetime \<Rightarrow> py_datetime" where
  "drop_tz d = Naive (dt_micros d)"

lemma dt_gt_Inl: "dt_gt a b = Inl e \<Longrightarrow> e = TypeError"
  by (cases "(a, b)" rule: dt_gt.cases) auto

lemma dt_add_seconds_nonneg:
  "dt_add_seconds d s = Inr d' \<Longrightarrow> dt_micros d' = dt_micros d + 1000000 * s"
  by (cases d) (auto simp: Let_def split: if_splits)

end
