(* ===== verification/Routing.thy ===== *)
theory Routing
  imports Usage Clock
begin

text \<open>
  The domain model of \<open>src/app/modules/firecrawl/models.py\<close> and the account selection of
  \<open>src/app/modules/firecrawl/routing.py\<close>: which account and credential a request is sent with.
\<close>

section \<open>Accounts and credentials\<close>

datatype account_status = ACTIVE | RATE_LIMITED | CREDIT_EXHAUSTED | PAUSED | INVALID

datatype credential_status = CRED_ACTIVE | CRED_PAUSED | CRED_INVALID

fun account_status_value :: "account_status \<Rightarrow> string" where
  "account_status_value ACTIVE = ''active''"
| "account_status_value RATE_LIMITED = ''rate_limited''"
| "account_status_value CREDIT_EXHAUSTED = ''credit_exhausted''"
| "account_status_value PAUSED = ''paused''"
| "account_status_value INVALID = ''invalid''"

fun credential_status_value :: "credential_status \<Rightarrow> string" where
  "credential_status_value CRED_ACTIVE = ''active''"
| "credential_status_value CRED_PAUSED = ''paused''"
| "credential_status_value CRED_INVALID = ''invalid''"

record firecrawl_credential =
  c_id :: string
  c_api_key :: string
  c_status :: credential_status
  c_name :: "string option"
  c_last_error_at :: "py_datetime option"
  c_last_error_message :: "string option"

record firecrawl_account =
  a_id :: string
  a_team_label :: string
  a_plan_type :: string
  a_remaining_credits :: int
  a_plan_credits :: int
  a_status :: account_status
  a_credentials :: "firecrawl_credential list"
  a_cooldown_until :: "py_datetime option"
  a_inflight :: int
  a_rpm_used :: "(string \<times> int) list"
  a_queue_active_jobs :: int
  a_queue_max_concurrency :: "int option"
  a_recent_error_count :: int

record selected_account =
  sel_account :: firecrawl_account
  sel_credential :: firecrawl_credential
  sel_estimated_credits :: int

section \<open>Selection\<close>

definition ENDPOINT_RPM_BY_PLAN :: "(string \<times> (string \<times> int) list) list" where
  "ENDPOINT_RPM_BY_PLAN =
    [(''free'', [(''scrape'', 10), (''map'', 10), (''crawl'', 1), (''search'', 5), (''batch_scrape'', 1)]),
     (''hobby'', [(''scrape'', 100), (''map'', 100), (''crawl'', 15), (''search'', 50), (''batch_scrape'', 15)]),
     (''standard'', [(''scrape'', 500), (''map'', 500), (''crawl'', 50), (''search'', 250), (''batch_scrape'', 50)]),
     (''growth'', [(''scrape'', 5000), (''map'', 5000), (''crawl'', 250), (''search'', 2500), (''batch_scrape'', 250)])]"

definition CONCURRENCY_BY_PLAN :: "(string \<times> int) list" where
  "CONCURRENCY_BY_PLAN = [(''free'', 2), (''hobby'', 5), (''standard'', 50), (''growth'', 100)]"

definition DEFAULT_RPM_LIMIT :: int where "DEFAULT_RPM_LIMIT = 10"
definition DEFAULT_CONCURRENCY_LIMIT :: int where "DEFAULT_CONCURRENCY_LIMIT = 2"

definition rpm_limit :: "firecrawl_account \<Rightarrow> string \<Rightarrow> int" where
  "rpm_limit account endpoint =
     (case map_of ENDPOINT_RPM_BY_PLAN (a_plan_type account) of
        None \<Rightarrow> DEFAULT_RPM_LIMIT
      | Some plan_limits \<Rightarrow> dict_get plan_limits endpoint DEFAULT_RPM_LIMIT)"

definition concurrency_limit :: "firecrawl_account \<Rightarrow> int" where
  "concurrency_limit account =
     (case a_queue_max_concurrency account of
        Some n \<Rightarrow> n
      | None \<Rightarrow> dict_get CONCURRENCY_BY_PLAN (a_plan_type account) DEFAULT_CONCURRENCY_LIMIT)"

record team_usage =
  rpm_used_by_endpoint :: "(string \<times> int) list"
  tu_inflight :: int
  tu_active_jobs :: int

definition empty_usage :: team_usage where
  "empty_usage = \<lparr>rpm_used_by_endpoint = [], tu_inflight = 0, tu_active_jobs = 0\<rparr>"

fun add_rpm :: "(string \<times> int) list \<Rightarrow> (string \<times> int) list \<Rightarrow> (string \<times> int) list" where
  "add_rpm d [] = d"
| "add_rpm d ((endpoint, used) # items) = add_rpm (dict_set endpoint (dict_get d endpoint 0 + used) d) items"

definition add_usage :: "team_usage \<Rightarrow> firecrawl_account \<Rightarrow> team_usage" where
  "add_usage tu account =
     \<lparr>rpm_used_by_endpoint = add_rpm (rpm_used_by_endpoint tu) (a_rpm_used account),
      tu_inflight = tu_inflight tu + a_inflight account,
      tu_active_jobs = tu_active_jobs tu + a_queue_active_jobs account\<rparr>"

fun build_team_usage_from ::
  "(string \<times> team_usage) list \<Rightarrow> firecrawl_account list \<Rightarrow> (string \<times> team_usage) list" where
  "build_team_usage_from d [] = d"
| "build_team_usage_from d (account # accounts) =
     build_team_usage_from
       (dict_set (a_team_label account) (add_usage (dict_get d (a_team_label account) empty_usage) account) d)
       accounts"

definition build_team_usage :: "firecrawl_account list \<Rightarrow> (string \<times> team_usage) list" where
  "build_team_usage accounts = build_team_usage_from [] accounts"

definition active_credential :: "firecrawl_credential list \<Rightarrow> firecrawl_credential option" where
  "active_credential credentials = find (\<lambda>c. c_status c = CRED_ACTIVE) credentials"

definition in_cooldown :: "firecrawl_account \<Rightarrow> py_datetime \<Rightarrow> bool res" where
  "in_cooldown account now =
     (case a_cooldown_until account of None \<Rightarrow> Inr False | Some t \<Rightarrow> dt_gt t now)"

definition rejection_reason ::
  "firecrawl_account \<Rightarrow> firecrawl_credential option \<Rightarrow> string \<Rightarrow> int \<Rightarrow> team_usage \<Rightarrow> py_datetime
   \<Rightarrow> string option res" where
  "rejection_reason account credential endpoint estimated_credits team now =
     (if a_status account \<noteq> ACTIVE
      then Inr (Some (''status='' @ account_status_value (a_status account)))
      else res_bind (in_cooldown account now) (\<lambda>cooling.
        if cooling then Inr (Some ''cooldown'')
        else if a_remaining_credits account < estimated_credits then Inr (Some ''credits'')
        else if credential = None then Inr (Some ''credentials'')
        else if rpm_limit account endpoint \<le> dict_get (a_rpm_used account) endpoint 0
          then Inr (Some ''account_rpm'')
        else if concurrency_limit account \<le> a_inflight account + a_queue_active_jobs account
          then Inr (Some ''account_concurrency'')
        else if rpm_limit account endpoint \<le> dict_get (rpm_used_by_endpoint team) endpoint 0
          then Inr (Some ''team_rpm'')
        else if concurrency_limit account \<le> tu_inflight team + tu_active_jobs team
          then Inr (Some ''team_concurrency'')
        else Inr None))"

text \<open>\<open>_score_account\<close> in binary64: every operation rounds, in the order Python evaluates them.\<close>

definition weighted_score :: "rat \<Rightarrow> rat \<Rightarrow> rat \<Rightarrow> rat \<Rightarrow> rat" where
  "weighted_score budget rpm concurrency health =
     fl (fl (fl (fl (budget * fl (45 / 100)) + fl (rpm * fl (25 / 100))) +
             fl (concurrency * fl (20 / 100))) + fl (health * fl (10 / 100)))"

definition score_account :: "firecrawl_account \<Rightarrow> string \<Rightarrow> team_usage \<Rightarrow> rat res" where
  "score_account account endpoint team =
     res_bind (py_truediv (a_remaining_credits account) (max 1 (a_plan_credits account))) (\<lambda>budget_ratio.
     res_bind (py_truediv (dict_get (rpm_used_by_endpoint team) endpoint 0)
                 (max 1 (rpm_limit account endpoint))) (\<lambda>rpm.
     res_bind (py_truediv (tu_inflight team + tu_active_jobs team)
                 (max 1 (concurrency_limit account))) (\<lambda>conc.
     res_bind (py_truediv 1 (1 + max 0 (a_recent_error_count account))) (\<lambda>health_ratio.
       Inr (weighted_score budget_ratio (fl (1 - rpm)) (fl (1 - conc)) health_ratio)))))"

type_synonym candidate = "rat \<times> string \<times> firecrawl_account \<times> firecrawl_credential"

datatype select_error =
    NoFirecrawlAccountAvailable string "(string \<times> string) list"
  | SelectRaised pyexc

text \<open>One pass of the loop body: either a rejection reason or a scored candidate.\<close>

definition consider_account ::
  "(string \<times> team_usage) list \<Rightarrow> string \<Rightarrow> int \<Rightarrow> py_datetime \<Rightarrow> firecrawl_account
   \<Rightarrow> (string + candidate) res" where
  "consider_account usage endpoint estimated_credits now account =
     (case map_of usage (a_team_label account) of
        None \<Rightarrow> Inl KeyError
      | Some team \<Rightarrow>
          (let credential = active_credential (a_credentials account) in
           res_bind (rejection_reason account credential endpoint estimated_credits team now) (\<lambda>reason.
             case reason of
               Some r \<Rightarrow> Inr (Inl r)
             | None \<Rightarrow> res_bind (score_account account endpoint team) (\<lambda>score.
                 Inr (Inr (score, a_id account, account, the credential))))))"

fun select_loop ::
  "(string \<times> team_usage) list \<Rightarrow> string \<Rightarrow> int \<Rightarrow> py_datetime \<Rightarrow> firecrawl_account list
   \<Rightarrow> candidate list \<Rightarrow> (string \<times> string) list \<Rightarrow> (candidate list \<times> (string \<times> string) list) res" where
  "select_loop usage endpoint est now [] cands rejs = Inr (cands, rejs)"
| "select_loop usage endpoint est now (account # accounts) cands rejs =
     res_bind (consider_account usage endpoint est now account) (\<lambda>r.
       case r of
         Inl reason \<Rightarrow> select_loop usage endpoint est now accounts cands (dict_set (a_id account) reason rejs)
       | Inr cand \<Rightarrow> select_loop usage endpoint est now accounts (cands @ [cand]) rejs)"

abbreviation cand_key :: "candidate \<Rightarrow> rat \<times> string" where
  "cand_key c \<equiv> (fst c, fst (snd c))"

text \<open>\<open>max(candidates, key=...)\<close>: the first candidate with the greatest key.\<close>

fun best_candidate :: "candidate \<Rightarrow> candidate list \<Rightarrow> candidate" where
  "best_candidate b [] = b"
| "best_candidate b (c # cs) = best_candidate (if cand_key b < cand_key c then c else b) cs"

definition select_account ::
  "firecrawl_account list \<Rightarrow> string \<Rightarrow> jobj \<Rightarrow> py_datetime option \<Rightarrow> py_datetime
   \<Rightarrow> select_error + selected_account" where
  "select_account accounts endpoint payload now clock =
     (let selection_time = (case now of Some t \<Rightarrow> t | None \<Rightarrow> clock) in
      case estimate_credits endpoint payload None of
        Inl e \<Rightarrow> Inl (SelectRaised e)
      | Inr est \<Rightarrow>
          (case select_loop (build_team_usage accounts) endpoint est selection_time accounts [] [] of
             Inl e \<Rightarrow> Inl (SelectRaised e)
           | Inr ([], rejections) \<Rightarrow> Inl (NoFirecrawlAccountAvailable endpoint rejections)
           | Inr (c # cs, rejections) \<Rightarrow>
               (case best_candidate c cs of (score, aid, account, credential) \<Rightarrow>
                  Inr \<lparr>sel_account = account, sel_credential = credential, sel_estimated_credits = est\<rparr>)))"

text \<open>\<open>str(exc)\<close> of \<open>NoFirecrawlAccountAvailable\<close>.\<close>

fun join :: "string \<Rightarrow> string list \<Rightarrow> string" where
  "join sep [] = []"
| "join sep [w] = w"
| "join sep (w # ws) = w @ sep @ join sep ws"

definition no_account_message :: "string \<Rightarrow> (string \<times> string) list \<Rightarrow> string" where
  "no_account_message endpoint rejections =
     ''No Firecrawl account available for '' @ endpoint @ ''; rejections={'' @
     join '', '' (map (\<lambda>(account_id, reason). account_id @ '': '' @ reason) rejections) @ ''}''"

section \<open>Team usage\<close>

lemma dict_get_add_rpm:
  "distinct (map fst items) \<Longrightarrow>
   dict_get (add_rpm d items) e 0 = dict_get d e 0 + dict_get items e 0"
proof (induction d items rule: add_rpm.induct)
  case (2 d endpoint used items)
  then show ?case by (auto simp: dict_get_absent)
qed simp

definition wf_account :: "firecrawl_account \<Rightarrow> bool" where
  "wf_account a = distinct (map fst (a_rpm_used a))"

abbreviation team_of :: "string \<Rightarrow> firecrawl_account list \<Rightarrow> firecrawl_account list" where
  "team_of l accs \<equiv> filter (\<lambda>a. a_team_label a = l) accs"

lemma build_team_usage_from_get:
  assumes "list_all wf_account accs"
  shows "dict_get (rpm_used_by_endpoint (dict_get (build_team_usage_from d accs) l empty_usage)) e 0 =
           dict_get (rpm_used_by_endpoint (dict_get d l empty_usage)) e 0 +
           (\<Sum>a\<leftarrow>team_of l accs. dict_get (a_rpm_used a) e 0)"
    and "tu_inflight (dict_get (build_team_usage_from d accs) l empty_usage) =
           tu_inflight (dict_get d l empty_usage) + (\<Sum>a\<leftarrow>team_of l accs. a_inflight a)"
    and "tu_active_jobs (dict_get (build_team_usage_from d accs) l empty_usage) =
           tu_active_jobs (dict_get d l empty_usage) + (\<Sum>a\<leftarrow>team_of l accs. a_queue_active_jobs a)"
  using assms
  by (induction d accs rule: build_team_usage_from.induct)
    (auto simp: add_usage_def wf_account_def dict_get_add_rpm)

lemma dom_build_team_usage_from:
  "dom (map_of (build_team_usage_from d accs)) = dom (map_of d) \<union> a_team_label ` set accs"
  by (induction d accs rule: build_team_usage_from.induct) auto

lemma build_team_usage_present:
  "a \<in> set accs \<Longrightarrow> map_of (build_team_usage accs) (a_team_label a) =
     Some (dict_get (build_team_usage accs) (a_team_label a) empty_usage)"
  using dom_build_team_usage_from [of "[]" accs]
  by (auto simp: build_team_usage_def dict_get_def dom_def split: option.splits)

section \<open>Scores\<close>

lemma weights_nonneg: "0 \<le> fl (45 / 100)" "0 \<le> fl (25 / 100)" "0 \<le> fl (20 / 100)" "0 \<le> fl (10 / 100)"
  by (simp_all add: fl_nonneg)

lemma weighted_score_mono:
  assumes "b \<le> b'" "r \<le> r'" "c \<le> c'" "h \<le> h'"
  shows "weighted_score b r c h \<le> weighted_score b' r' c' h'"
  unfolding weighted_score_def
  by (intro fl.add_mono2 fl.mult_mono_nonneg weights_nonneg assms)

lemma weighted_score_zero: "weighted_score 0 0 0 0 = 0"
  by (simp add: weighted_score_def)

lemma py_truediv_mono:
  assumes "py_truediv a c = Inr q" "py_truediv b c = Inr q'" "a \<le> b" "0 < c"
  shows "q \<le> q'"
  using assms py_truediv_Inr [OF assms(1)] py_truediv_Inr [OF assms(2)]
  by (auto intro!: fl_mono divide_right_mono)

lemma weighted_score_top: "weighted_score 1 1 1 1 \<le> 1"
  by code_simp

lemma score_account_Inr:
  assumes "score_account a e team = Inr s"
  obtains b r c h where
    "py_truediv (a_remaining_credits a) (max 1 (a_plan_credits a)) = Inr b"
    "py_truediv (dict_get (rpm_used_by_endpoint team) e 0) (max 1 (rpm_limit a e)) = Inr r"
    "py_truediv (tu_inflight team + tu_active_jobs team) (max 1 (concurrency_limit a)) = Inr c"
    "py_truediv 1 (1 + max 0 (a_recent_error_count a)) = Inr h"
    "s = weighted_score b (fl (1 - r)) (fl (1 - c)) h"
  using assms unfolding score_account_def res_bind_eq_Inr by blast

text \<open>A quotient of integers of at most 64 bits is always a finite float.\<close>

lemma py_truediv_64:
  assumes "\<bar>a\<bar> \<le> 2 ^ 64" "1 \<le> b"
  shows "\<exists>q. py_truediv a b = Inr q"
proof -
  define x :: rat where "x = of_int a / of_int b"
  have "\<bar>of_int a :: rat\<bar> \<le> of_int (2 ^ 64)"
    using assms(1) by (metis of_int_abs of_int_le_iff)
  then have "\<bar>of_int a :: rat\<bar> \<le> 2 ^ 64" by simp
  moreover have "\<bar>x\<bar> \<le> \<bar>of_int a\<bar>"
    using assms(2) mult_left_mono [of 1 "of_int b" "\<bar>of_int a :: rat\<bar>"]
    by (auto simp: x_def abs_divide pos_divide_le_eq)
  ultimately have x: "x \<le> 2 ^ 64" "- x \<le> 2 ^ 64" by linarith+
  have p: "fl (2 ^ 64) \<le> 2 ^ 65"
    using fl_error_small [of "2 ^ 64" 65] by (simp add: abs_le_iff power_int_def)
  have "fl x \<le> 2 ^ 65" "fl (- x) \<le> 2 ^ 65"
    using fl_mono [OF x(1)] fl_mono [OF x(2)] p by linarith+
  then have "\<bar>fl x\<bar> < float_max_exp" by (simp add: fl_minus abs_less_iff float_max_exp_def)
  then show ?thesis using assms(2) by (simp add: py_truediv_def x_def)
qed

section \<open>The selection loop\<close>

lemma outcome_cases:
  fixes y :: "('r + 'c) res"
  obtains (raise) x where "y = Inl x" | (reject) r where "y = Inr (Inl r)"
    | (accept) c where "y = Inr (Inr c)"
  by (metis sum.exhaust)

lemma select_loop_Inl:
  "select_loop usage e est now accs cands rejs = Inl x \<Longrightarrow>
   \<exists>a\<in>set accs. consider_account usage e est now a = Inl x"
proof (induction accs arbitrary: cands rejs)
  case (Cons b accs)
  then show ?case
    by (cases "consider_account usage e est now b" rule: outcome_cases) auto
qed simp

lemma select_loop_outcomes:
  "select_loop usage e est now accs cands rejs = Inr out \<Longrightarrow> a \<in> set accs \<Longrightarrow>
   \<exists>r. consider_account usage e est now a = Inr r"
proof (induction accs arbitrary: cands rejs)
  case (Cons b accs)
  then show ?case
    by (cases "consider_account usage e est now b" rule: outcome_cases) auto
qed simp

lemma select_loop_cands:
  "select_loop usage e est now accs cands rejs = Inr (cs, rs) \<Longrightarrow>
   set cs = set cands \<union> {c. \<exists>a\<in>set accs. consider_account usage e est now a = Inr (Inr c)}"
proof (induction accs arbitrary: cands rejs)
  case (Cons b accs)
  then show ?case
    by (cases "consider_account usage e est now b" rule: outcome_cases) auto
qed simp

lemma select_loop_keeps:
  "select_loop usage e est now accs cands rejs = Inr (cs, rs) \<Longrightarrow> k \<notin> a_id ` set accs \<Longrightarrow>
   map_of rs k = map_of rejs k"
proof (induction accs arbitrary: cands rejs)
  case (Cons b accs)
  then show ?case
    by (cases "consider_account usage e est now b" rule: outcome_cases) auto
qed simp

lemma select_loop_rejs_value:
  "select_loop usage e est now accs cands rejs = Inr (cs, rs) \<Longrightarrow> distinct (map a_id accs) \<Longrightarrow>
   a \<in> set accs \<Longrightarrow> consider_account usage e est now a = Inr (Inl r) \<Longrightarrow>
   map_of rs (a_id a) = Some r"
proof (induction accs arbitrary: cands rejs)
  case (Cons b accs)
  show ?case
  proof (cases "a = b")
    case True
    with Cons.prems have "select_loop usage e est now accs cands (dict_set (a_id a) r rejs) = Inr (cs, rs)"
      and "a_id a \<notin> a_id ` set accs" by auto
    from select_loop_keeps [OF this] show ?thesis by simp
  next
    case False
    with Cons show ?thesis
      by (cases "consider_account usage e est now b" rule: outcome_cases) auto
  qed
qed simp

lemma best_candidate_mem: "best_candidate b cs \<in> insert b (set cs)"
  by (induction b cs rule: best_candidate.induct) auto

lemma best_candidate_max: "c \<in> insert b (set cs) \<Longrightarrow> cand_key c \<le> cand_key (best_candidate b cs)"
proof (induction b cs arbitrary: c rule: best_candidate.induct)
  case (2 b d cs)
  let ?m = "if cand_key b < cand_key d then d else b"
  have "cand_key b \<le> cand_key ?m" "cand_key d \<le> cand_key ?m" by auto
  moreover have "cand_key ?m \<le> cand_key (best_candidate ?m cs)" by (rule "2.IH") simp
  ultimately have "cand_key c \<le> cand_key (best_candidate ?m cs)"
    using "2.prems" "2.IH" [of c] by (auto simp del: less_eq_prod_simp less_prod_simp)
  then show ?case by simp
qed simp

section \<open>What selection means\<close>

abbreviation team_usage_of :: "firecrawl_account list \<Rightarrow> firecrawl_account \<Rightarrow> team_usage" where
  "team_usage_of accs a \<equiv> dict_get (build_team_usage accs) (a_team_label a) empty_usage"

text \<open>The specification of admission: what has to hold of an account before it may be used.\<close>

definition eligible :: "firecrawl_account list \<Rightarrow> string \<Rightarrow> int \<Rightarrow> py_datetime \<Rightarrow> firecrawl_account \<Rightarrow> bool" where
  "eligible accs endpoint est now a \<longleftrightarrow>
     a_status a = ACTIVE \<and> in_cooldown a now = Inr False \<and> est \<le> a_remaining_credits a \<and>
     active_credential (a_credentials a) \<noteq> None \<and>
     dict_get (a_rpm_used a) endpoint 0 < rpm_limit a endpoint \<and>
     a_inflight a + a_queue_active_jobs a < concurrency_limit a \<and>
     (\<Sum>b\<leftarrow>team_of (a_team_label a) accs. dict_get (a_rpm_used b) endpoint 0) < rpm_limit a endpoint \<and>
     (\<Sum>b\<leftarrow>team_of (a_team_label a) accs. a_inflight b) +
     (\<Sum>b\<leftarrow>team_of (a_team_label a) accs. a_queue_active_jobs b) < concurrency_limit a"

lemma team_usage_of_sums:
  assumes "list_all wf_account accs"
  shows "dict_get (rpm_used_by_endpoint (team_usage_of accs a)) e 0 =
           (\<Sum>b\<leftarrow>team_of (a_team_label a) accs. dict_get (a_rpm_used b) e 0)"
    and "tu_inflight (team_usage_of accs a) = (\<Sum>b\<leftarrow>team_of (a_team_label a) accs. a_inflight b)"
    and "tu_active_jobs (team_usage_of accs a) =
           (\<Sum>b\<leftarrow>team_of (a_team_label a) accs. a_queue_active_jobs b)"
  using build_team_usage_from_get(1) [OF assms, of "[]" "a_team_label a" e]
    build_team_usage_from_get(2,3) [OF assms, of "[]" "a_team_label a"]
  by (simp_all add: build_team_usage_def empty_usage_def)

lemma rejection_reason_None:
  assumes "list_all wf_account accs"
  shows "rejection_reason a (active_credential (a_credentials a)) e est (team_usage_of accs a) now = Inr None
    \<longleftrightarrow> eligible accs e est now a"
  using team_usage_of_sums [OF assms, of a]
  by (auto simp: rejection_reason_def eligible_def res_bind_eq_Inr)

lemma consider_account_accept:
  assumes "list_all wf_account accs" "a \<in> set accs"
  shows "consider_account (build_team_usage accs) e est now a = Inr (Inr c) \<longleftrightarrow>
    eligible accs e est now a \<and>
    (\<exists>s cred. score_account a e (team_usage_of accs a) = Inr s \<and>
       active_credential (a_credentials a) = Some cred \<and> c = (s, a_id a, a, cred))"
  unfolding consider_account_def build_team_usage_present [OF assms(2)]
    rejection_reason_None [OF assms(1), symmetric]
  by (auto simp: res_bind_eq_Inr Let_def rejection_reason_def split: option.splits if_splits)

lemma select_account_Inr:
  assumes "select_account accs endpoint payload now clock = Inr sel"
  obtains est cs rs c ds where
    "estimate_credits endpoint payload None = Inr est"
    "select_loop (build_team_usage accs) endpoint est
       (case now of Some t \<Rightarrow> t | None \<Rightarrow> clock) accs [] [] = Inr (c # ds, rs)"
    "sel_account sel = fst (snd (snd (best_candidate c ds)))"
    "sel_credential sel = snd (snd (snd (best_candidate c ds)))"
    "sel_estimated_credits sel = est"
  using assms unfolding select_account_def Let_def
  by (auto split: sum.splits prod.splits list.splits)

lemma find_Some_first: "find P xs = Some x \<Longrightarrow> P x \<and> x \<in> set xs"
  by (auto simp: find_Some_iff)

lemma select_sound:
  assumes "list_all wf_account accs"
    and sel: "select_account accs endpoint payload now clock = Inr sel"
  shows "sel_account sel \<in> set accs \<and>
    eligible accs endpoint (sel_estimated_credits sel)
      (case now of Some t \<Rightarrow> t | None \<Rightarrow> clock) (sel_account sel) \<and>
    sel_credential sel \<in> set (a_credentials (sel_account sel)) \<and>
    c_status (sel_credential sel) = CRED_ACTIVE \<and>
    estimate_credits endpoint payload None = Inr (sel_estimated_credits sel)"
proof -
  from sel obtain est cs rs c ds where l:
    "estimate_credits endpoint payload None = Inr est"
    "select_loop (build_team_usage accs) endpoint est
       (case now of Some t \<Rightarrow> t | None \<Rightarrow> clock) accs [] [] = Inr (c # ds, rs)"
    "sel_account sel = fst (snd (snd (best_candidate c ds)))"
    "sel_credential sel = snd (snd (snd (best_candidate c ds)))"
    "sel_estimated_credits sel = est" by (rule select_account_Inr)
  let ?t = "case now of Some t \<Rightarrow> t | None \<Rightarrow> clock"
  have "best_candidate c ds \<in> set (c # ds)" using best_candidate_mem [of c ds] by simp
  with select_loop_cands [OF l(2)] obtain a where a: "a \<in> set accs"
    "consider_account (build_team_usage accs) endpoint est ?t a = Inr (Inr (best_candidate c ds))"
    by auto
  with consider_account_accept [OF assms(1) a(1)] l(3,4) obtain cred where
    "eligible accs endpoint est ?t a" "active_credential (a_credentials a) = Some cred"
    "sel_account sel = a" "sel_credential sel = cred" by auto
  with a(1) l(1,5) show ?thesis
    by (auto simp: active_credential_def dest: find_Some_first)
qed

section \<open>Properties\<close>

text \<open>
  C3: a selected account is one of the given accounts and is eligible: active, out of cooldown,
  with at least the estimated credits left, below its own and its team's request-rate and
  concurrency limits; the credential returned with it is an active credential of that account,
  and the estimate reported is the admission estimate of the request.
\<close>

theorem select_account_sound:
  assumes "list_all wf_account accs"
    and sel: "select_account accs endpoint payload now clock = Inr sel"
  shows "sel_account sel \<in> set accs \<and>
    eligible accs endpoint (sel_estimated_credits sel)
      (case now of Some t \<Rightarrow> t | None \<Rightarrow> clock) (sel_account sel) \<and>
    sel_credential sel \<in> set (a_credentials (sel_account sel)) \<and>
    c_status (sel_credential sel) = CRED_ACTIVE \<and>
    estimate_credits endpoint payload None = Inr (sel_estimated_credits sel)"
  using assms by (rule select_sound)

text \<open>
  C4: the selected account is a best one: every eligible account whose score is defined has a
  \<open>(score, id)\<close> pair that is at most that of the selected account.
\<close>

theorem select_account_best:
  assumes wf: "list_all wf_account accs"
    and sel: "select_account accs endpoint payload now clock = Inr sel"
    and a: "a \<in> set accs"
      "eligible accs endpoint (sel_estimated_credits sel) (case now of Some t \<Rightarrow> t | None \<Rightarrow> clock) a"
  shows "\<exists>s best. score_account a endpoint (team_usage_of accs a) = Inr s \<and>
    score_account (sel_account sel) endpoint (team_usage_of accs (sel_account sel)) = Inr best \<and>
    (s, a_id a) \<le> (best, a_id (sel_account sel))"
proof -
  from sel obtain est cs rs c ds where l:
    "estimate_credits endpoint payload None = Inr est"
    "select_loop (build_team_usage accs) endpoint est
       (case now of Some t \<Rightarrow> t | None \<Rightarrow> clock) accs [] [] = Inr (c # ds, rs)"
    "sel_account sel = fst (snd (snd (best_candidate c ds)))"
    "sel_credential sel = snd (snd (snd (best_candidate c ds)))"
    "sel_estimated_credits sel = est" by (rule select_account_Inr)
  let ?t = "case now of Some t \<Rightarrow> t | None \<Rightarrow> clock"
  let ?consider = "consider_account (build_team_usage accs) endpoint est ?t"
  have "best_candidate c ds \<in> set (c # ds)" using best_candidate_mem [of c ds] by simp
  with select_loop_cands [OF l(2)] obtain b where b: "b \<in> set accs"
    "?consider b = Inr (Inr (best_candidate c ds))" by auto
  from b(2) [unfolded consider_account_accept [OF wf b(1)]] l(3) obtain best where best:
    "score_account (sel_account sel) endpoint (team_usage_of accs (sel_account sel)) = Inr best"
    "cand_key (best_candidate c ds) = (best, a_id (sel_account sel))" by auto
  obtain r where r: "?consider a = Inr r" using select_loop_outcomes [OF l(2) a(1)] by blast
  have rej: "rejection_reason a (active_credential (a_credentials a)) endpoint est (team_usage_of accs a) ?t = Inr None"
    using a(2) l(5) rejection_reason_None [OF wf] by simp
  with r obtain d where d: "r = Inr d"
    by (auto simp: consider_account_def build_team_usage_present [OF a(1)] res_bind_eq_Inr Let_def)
  from r [unfolded d consider_account_accept [OF wf a(1)]] obtain s cred where s:
    "score_account a endpoint (team_usage_of accs a) = Inr s" "d = (s, a_id a, a, cred)" by auto
  have "d \<in> set (c # ds)" using select_loop_cands [OF l(2)] r d a(1) by auto
  then have "cand_key d \<le> cand_key (best_candidate c ds)" by (intro best_candidate_max) simp
  with s best show ?thesis by auto
qed

text \<open>A pool of two equal accounts for the witnesses: the greater id wins the tie.\<close>

definition sample_credential :: firecrawl_credential where
  "sample_credential = \<lparr>c_id = ''k1'', c_api_key = ''fc-1'', c_status = CRED_ACTIVE, c_name = None,
     c_last_error_at = None, c_last_error_message = None\<rparr>"

definition sample_account :: "string \<Rightarrow> firecrawl_account" where
  "sample_account i = \<lparr>a_id = i, a_team_label = i, a_plan_type = ''standard'',
     a_remaining_credits = 1, a_plan_credits = 1, a_status = ACTIVE,
     a_credentials = [sample_credential], a_cooldown_until = None, a_inflight = 0, a_rpm_used = [],
     a_queue_active_jobs = 0, a_queue_max_concurrency = None, a_recent_error_count = 0\<rparr>"

definition sample_pool :: "firecrawl_account list" where
  "sample_pool = [sample_account ''a'', sample_account ''b'']"

lemma py_truediv_simps [simp]: "py_truediv 1 1 = Inr 1" "0 < b \<Longrightarrow> py_truediv 0 b = Inr 0"
  by (simp_all add: py_truediv_def float_max_exp_def)

lemmas sample_defs = sample_pool_def sample_account_def sample_credential_def

lemma sample_score:
  "score_account (sample_account i) ''map'' empty_usage = Inr (weighted_score 1 1 1 1)"
  by (simp add: score_account_def sample_account_def empty_usage_def rpm_limit_def
      ENDPOINT_RPM_BY_PLAN_def concurrency_limit_def CONCURRENCY_BY_PLAN_def)

lemma sample_usage:
  "build_team_usage sample_pool = [(''a'', empty_usage), (''b'', empty_usage)]"
  by (simp add: build_team_usage_def sample_defs add_usage_def empty_usage_def)

lemma sample_consider:
  "i = ''a'' \<or> i = ''b'' \<Longrightarrow>
   consider_account [(''a'', empty_usage), (''b'', empty_usage)] ''map'' 1 (Aware 0) (sample_account i) =
     Inr (Inr (weighted_score 1 1 1 1, i, sample_account i, sample_credential))"
  using sample_score [of i]
  by (auto simp: consider_account_def active_credential_def rejection_reason_def in_cooldown_def
      sample_account_def sample_credential_def rpm_limit_def ENDPOINT_RPM_BY_PLAN_def
      concurrency_limit_def CONCURRENCY_BY_PLAN_def empty_usage_def)

lemma sample_pool_select:
  "select_account sample_pool ''map'' [] None (Aware 0) =
     Inr \<lparr>sel_account = sample_account ''b'', sel_credential = sample_credential,
          sel_estimated_credits = 1\<rparr>"
  unfolding select_account_def sample_usage Let_def
  by (simp add: sample_pool_def sample_consider estimate_credits_def response_credits_used_def
      less_prod_def less_char_def)

lemma sample_pool_wf: "list_all wf_account sample_pool"
  by (simp add: wf_account_def sample_defs)

lemma sample_eligible: "eligible sample_pool ''map'' 1 (Aware 0) (sample_account ''a'')"
  by (simp add: eligible_def sample_defs in_cooldown_def active_credential_def rpm_limit_def
      ENDPOINT_RPM_BY_PLAN_def concurrency_limit_def CONCURRENCY_BY_PLAN_def)

theorem select_account_sound_witness:
  "eligible sample_pool ''map'' 1 (Aware 0) (sample_account ''b'') \<and>
   c_status sample_credential = CRED_ACTIVE"
  using select_account_sound [OF sample_pool_wf sample_pool_select] by simp

theorem select_account_best_witness:
  "\<exists>s best. score_account (sample_account ''a'') ''map'' (team_usage_of sample_pool (sample_account ''a'')) = Inr s \<and>
    score_account (sample_account ''b'') ''map'' (team_usage_of sample_pool (sample_account ''b'')) = Inr best \<and>
    (s, ''a'') \<le> (best, ''b'')"
proof -
  have "sample_account ''a'' \<in> set sample_pool" by (simp add: sample_pool_def)
  from select_account_best [OF sample_pool_wf sample_pool_select this] sample_eligible
  show ?thesis by (simp add: sample_account_def)
qed

text \<open>
  selection fails with \<open>NoFirecrawlAccountAvailable\<close> only when no given account is eligible,
  and the error then names, for every account, a reason why it was rejected.
\<close>

lemma select_account_none:
  assumes wf: "list_all wf_account accs" and dist: "distinct (map a_id accs)"
    and none: "select_account accs endpoint payload now clock =
      Inl (NoFirecrawlAccountAvailable ep rejections)"
  shows "ep = endpoint \<and> (\<exists>est. estimate_credits endpoint payload None = Inr est \<and>
    (\<forall>a\<in>set accs.
       \<not> eligible accs endpoint est (case now of Some t \<Rightarrow> t | None \<Rightarrow> clock) a \<and>
       (\<exists>r. rejection_reason a (active_credential (a_credentials a)) endpoint est (team_usage_of accs a)
               (case now of Some t \<Rightarrow> t | None \<Rightarrow> clock) = Inr (Some r) \<and>
            map_of rejections (a_id a) = Some r)))"
proof -
  let ?t = "case now of Some t \<Rightarrow> t | None \<Rightarrow> clock"
  from none obtain est where est: "estimate_credits endpoint payload None = Inr est" "ep = endpoint"
    and loop: "select_loop (build_team_usage accs) endpoint est ?t accs [] [] = Inr ([], rejections)"
    unfolding select_account_def Let_def by (auto split: sum.splits prod.splits list.splits)
  have key: "\<exists>r. rejection_reason a (active_credential (a_credentials a)) endpoint est (team_usage_of accs a) ?t =
      Inr (Some r) \<and> map_of rejections (a_id a) = Some r" if a: "a \<in> set accs" for a
  proof -
    obtain out where out: "consider_account (build_team_usage accs) endpoint est ?t a = Inr out"
      using select_loop_outcomes [OF loop a] by blast
    then obtain r where r: "out = Inl r"
      using select_loop_cands [OF loop] a by (cases out) auto
    from out [unfolded r] have "rejection_reason a (active_credential (a_credentials a)) endpoint est
        (team_usage_of accs a) ?t = Inr (Some r)"
      by (auto simp: consider_account_def build_team_usage_present [OF a] res_bind_eq_Inr Let_def
          split: option.splits)
    moreover have "map_of rejections (a_id a) = Some r"
      using select_loop_rejs_value [OF loop dist a out [unfolded r]] .
    ultimately show ?thesis by blast
  qed
  have "\<not> eligible accs endpoint est ?t a" if "a \<in> set accs" for a
    unfolding rejection_reason_None [OF wf, symmetric] using key [OF that] by auto
  with key est show ?thesis by blast
qed

lemma select_account_none_example:
  "select_account [(sample_account ''a'')\<lparr>a_status := RATE_LIMITED\<rparr>] ''map'' [] None (Aware 0) =
     Inl (NoFirecrawlAccountAvailable ''map'' [(''a'', ''status=rate_limited'')]) \<and>
   \<not> eligible [(sample_account ''a'')\<lparr>a_status := RATE_LIMITED\<rparr>] ''map'' 1 (Aware 0)
       ((sample_account ''a'')\<lparr>a_status := RATE_LIMITED\<rparr>)"
proof -
  let ?a = "(sample_account ''a'')\<lparr>a_status := RATE_LIMITED\<rparr>"
  have sel: "select_account [?a] ''map'' [] None (Aware 0) =
      Inl (NoFirecrawlAccountAvailable ''map'' [(''a'', ''status=rate_limited'')])"
    by (simp add: select_account_def estimate_credits_def response_credits_used_def
        build_team_usage_def consider_account_def rejection_reason_def sample_account_def)
  have "list_all wf_account [?a]" "distinct (map a_id [?a])" by (simp_all add: wf_account_def sample_account_def)
  from select_account_none [OF this sel] sel show ?thesis
    by (simp add: estimate_credits_def response_credits_used_def)
qed

text \<open>
  scores are fair in credits: of two accounts that differ only in their remaining credits,
  the one with more has a score at least as high, although every operation rounds to a float.
\<close>

lemma score_monotone_in_credits:
  assumes "score_account a endpoint team = Inr s"
    and "score_account (a\<lparr>a_remaining_credits := richer\<rparr>) endpoint team = Inr s'"
    and "a_remaining_credits a \<le> richer"
  shows "s \<le> s'"
proof -
  let ?a' = "a\<lparr>a_remaining_credits := richer\<rparr>"
  have same: "rpm_limit ?a' endpoint = rpm_limit a endpoint" "concurrency_limit ?a' = concurrency_limit a"
    by (simp_all add: rpm_limit_def concurrency_limit_def split: option.split)
  from assms(1) obtain b r c h where l:
    "py_truediv (a_remaining_credits a) (max 1 (a_plan_credits a)) = Inr b"
    "py_truediv (dict_get (rpm_used_by_endpoint team) endpoint 0) (max 1 (rpm_limit a endpoint)) = Inr r"
    "py_truediv (tu_inflight team + tu_active_jobs team) (max 1 (concurrency_limit a)) = Inr c"
    "py_truediv 1 (1 + max 0 (a_recent_error_count a)) = Inr h"
    "s = weighted_score b (fl (1 - r)) (fl (1 - c)) h" by (rule score_account_Inr)
  from assms(2) obtain b' where m:
    "py_truediv richer (max 1 (a_plan_credits a)) = Inr b'"
    "s' = weighted_score b' (fl (1 - r)) (fl (1 - c)) h"
    using l by (auto elim!: score_account_Inr simp: same)
  have "b \<le> b'" by (rule py_truediv_mono [OF l(1) m(1) assms(3)]) simp
  then show ?thesis unfolding l(5) m(2) by (intro weighted_score_mono) auto
qed

lemma score_monotone_in_credits_example:
  "weighted_score 0 1 1 1 \<le> weighted_score 1 1 1 1"
proof -
  let ?z = "(sample_account ''a'')\<lparr>a_remaining_credits := 0\<rparr>"
  have z: "score_account ?z ''map'' empty_usage = Inr (weighted_score 0 1 1 1)"
    by (simp add: score_account_def sample_account_def empty_usage_def rpm_limit_def
        ENDPOINT_RPM_BY_PLAN_def concurrency_limit_def CONCURRENCY_BY_PLAN_def)
  have "?z\<lparr>a_remaining_credits := 1\<rparr> = sample_account ''a''" by (simp add: sample_account_def)
  then show ?thesis
    using score_monotone_in_credits [OF z, of 1] sample_score [of "''a''"]
    by (simp add: sample_account_def)
qed

text \<open>
  the score of an eligible account lies between 0 and 1 when its remaining credits do not
  exceed its plan and nothing is counted negatively.
\<close>

lemma score_bounds:
  assumes wf: "list_all wf_account accs" and el: "eligible accs endpoint est now a"
    and credits: "0 \<le> a_remaining_credits a" "a_remaining_credits a \<le> a_plan_credits a"
    and used: "0 \<le> dict_get (rpm_used_by_endpoint (team_usage_of accs a)) endpoint 0"
      "0 \<le> tu_inflight (team_usage_of accs a) + tu_active_jobs (team_usage_of accs a)"
  shows "\<exists>s. score_account a endpoint (team_usage_of accs a) = Inr s \<and> 0 \<le> s \<and> s \<le> 1"
proof -
  let ?team = "team_usage_of accs a"
  have lim: "dict_get (rpm_used_by_endpoint ?team) endpoint 0 < rpm_limit a endpoint"
    "tu_inflight ?team + tu_active_jobs ?team < concurrency_limit a"
    using el team_usage_of_sums [OF wf, of a] by (auto simp: eligible_def)
  obtain b where b: "py_truediv (a_remaining_credits a) (max 1 (a_plan_credits a)) = Inr b" "0 \<le> b" "b \<le> 1"
    using py_truediv_unit_max credits by blast
  obtain r where r: "py_truediv (dict_get (rpm_used_by_endpoint ?team) endpoint 0)
      (max 1 (rpm_limit a endpoint)) = Inr r" "0 \<le> r" "r \<le> 1"
    using py_truediv_unit_max used lim by (metis less_imp_le)
  obtain c where c: "py_truediv (tu_inflight ?team + tu_active_jobs ?team)
      (max 1 (concurrency_limit a)) = Inr c" "0 \<le> c" "c \<le> 1"
    using py_truediv_unit_max used lim by (metis less_imp_le)
  have "1 \<le> 1 + max 0 (a_recent_error_count a)" by simp
  then obtain h where h: "py_truediv 1 (1 + max 0 (a_recent_error_count a)) = Inr h" "0 \<le> h" "h \<le> 1"
    using py_truediv_unit [of 1 "1 + max 0 (a_recent_error_count a)"] by fastforce
  have "0 \<le> fl (1 - r) \<and> fl (1 - r) \<le> 1" "0 \<le> fl (1 - c) \<and> fl (1 - c) \<le> 1"
    using r c by (simp_all add: fl.unit)
  with b h have "weighted_score 0 0 0 0 \<le> weighted_score b (fl (1 - r)) (fl (1 - c)) h"
    "weighted_score b (fl (1 - r)) (fl (1 - c)) h \<le> weighted_score 1 1 1 1"
    by (auto intro!: weighted_score_mono)
  with weighted_score_top show ?thesis
    by (simp add: score_account_def b h r c weighted_score_zero)
qed

lemma score_bounds_example:
  "0 \<le> weighted_score 1 1 1 1 \<and> weighted_score 1 1 1 1 \<le> 1"
proof -
  have "score_account (sample_account ''a'') ''map'' (team_usage_of sample_pool (sample_account ''a'')) =
      Inr (weighted_score 1 1 1 1)"
    using sample_score [of "''a''"] by (simp add: sample_usage sample_account_def)
  then show ?thesis
    using score_bounds [OF sample_pool_wf sample_eligible]
    by (simp add: sample_usage sample_account_def empty_usage_def)
qed

end
