(* ===== verification/Store.thy ===== *)
theory Store
  imports Routing
begin

text \<open>
  The Firecrawl tables of \<open>src/app/db/models.py\<close> and \<open>FirecrawlRepository\<close>
  (\<open>src/app/modules/firecrawl/repository.py\<close>). A table is the list of its rows; an ORM statement
  is the list function its SQL denotes; an attribute write on a loaded row is a \<open>row_put\<close>.
  Autoincrement keys come from a counter of the database. Two things belong to libraries outside
  the repository and are parameters: \<open>decrypt\<close> (Fernet, behind \<open>TokenEncryptor.decrypt\<close>), and
  \<open>column\<close>, what a \<open>DateTime\<close> column gives back for the value that was stored in it.
  The columns \<open>created_at\<close>/\<open>updated_at\<close> of accounts and credentials are server-side time stamps
  that no code reads and are left out.
\<close>

section \<open>Tables\<close>

record account_record =
  ar_id :: string
  ar_team_label :: string
  ar_plan_type :: string
  ar_status :: string
  ar_monthly_budget_credits :: "int option"
  ar_remaining_credits_live :: "int option"
  ar_plan_credits_live :: "int option"
  ar_rpm_limit :: "int option"
  ar_billing_period_start :: "py_datetime option"
  ar_billing_period_end :: "py_datetime option"
  ar_queue_active_jobs :: "int option"
  ar_queue_waiting_jobs :: "int option"
  ar_queue_max_concurrency :: "int option"
  ar_cooldown_until :: "py_datetime option"
  ar_last_usage_refresh_at :: "py_datetime option"
  ar_last_queue_refresh_at :: "py_datetime option"
  ar_last_refresh_error_at :: "py_datetime option"
  ar_last_refresh_error_message :: "string option"

record credential_record =
  cr_id :: string
  cr_account_id :: string
  cr_name :: "string option"
  cr_api_key_encrypted :: string
  cr_status :: string
  cr_last_validated_at :: "py_datetime option"
  cr_last_error_at :: "py_datetime option"
  cr_last_error_message :: "string option"

record job_record =
  jr_id :: nat
  jr_account_id :: "string option"
  jr_credential_id :: "string option"
  jr_endpoint :: string
  jr_upstream_job_id :: "string option"
  jr_status :: string
  jr_estimated_credits_reserved :: "int option"
  jr_credits_used_final :: "int option"
  jr_created_at :: py_datetime
  jr_completed_at :: "py_datetime option"
  jr_last_polled_at :: "py_datetime option"
  jr_next_url :: "string option"

record request_log_record =
  lr_id :: nat
  lr_account_id :: "string option"
  lr_credential_id :: "string option"
  lr_client_api_key_id :: "string option"
  lr_endpoint :: string
  lr_upstream_job_id :: "string option"
  lr_requested_at :: py_datetime
  lr_status :: string
  lr_upstream_status_code :: "int option"
  lr_estimated_credits_pre :: "int option"
  lr_credits_used_final :: "int option"
  lr_latency_ms :: "int option"
  lr_error_code :: "string option"
  lr_error_message :: "string option"

record db =
  db_accounts :: "account_record list"
  db_credentials :: "credential_record list"
  db_jobs :: "job_record list"
  db_request_logs :: "request_log_record list"
  db_next_job_id :: nat
  db_next_log_id :: nat

section \<open>Primary-key access\<close>

text \<open>\<open>session.get(Record, key)\<close> and writes to the attributes of the row it returned.\<close>

definition get_account_record :: "db \<Rightarrow> string \<Rightarrow> account_record option" where
  "get_account_record d account_id = row_get ar_id (db_accounts d) account_id"

definition put_account :: "db \<Rightarrow> account_record \<Rightarrow> db" where
  "put_account d a = d\<lparr>db_accounts := row_put ar_id (db_accounts d) a\<rparr>"

definition get_credential_record :: "db \<Rightarrow> string \<Rightarrow> credential_record option" where
  "get_credential_record d credential_id = row_get cr_id (db_credentials d) credential_id"

definition put_credential :: "db \<Rightarrow> credential_record \<Rightarrow> db" where
  "put_credential d c = d\<lparr>db_credentials := row_put cr_id (db_credentials d) c\<rparr>"

definition get_job_by_id :: "db \<Rightarrow> nat \<Rightarrow> job_record option" where
  "get_job_by_id d i = row_get jr_id (db_jobs d) i"

definition put_job :: "db \<Rightarrow> job_record \<Rightarrow> db" where
  "put_job d j = d\<lparr>db_jobs := row_put jr_id (db_jobs d) j\<rparr>"

text \<open>Load a row by key, return when there is none, otherwise change it.\<close>

definition modify :: "('db \<Rightarrow> 'k \<Rightarrow> 'r option) \<Rightarrow> ('db \<Rightarrow> 'r \<Rightarrow> 'db) \<Rightarrow> 'db \<Rightarrow> 'k \<Rightarrow> ('r \<Rightarrow> 'r) \<Rightarrow> 'db" where
  "modify get put d k f = (case get d k of None \<Rightarrow> d | Some r \<Rightarrow> put d (f r))"

text \<open>
  What the repository relies on of primary-key access: a loaded row has the key it was loaded
  by, a write is seen under its key and under no other.
\<close>

locale keyed_rows =
  fixes get :: "'db \<Rightarrow> 'k \<Rightarrow> 'r option"
    and put :: "'db \<Rightarrow> 'r \<Rightarrow> 'db"
    and key :: "'r \<Rightarrow> 'k"
  assumes get_key: "get d k = Some r \<Longrightarrow> key r = k"
    and get_put: "get (put d r) k = (if k = key r then map_option (\<lambda>_. r) (get d k) else get d k)"
begin

lemma get_modify:
  assumes "\<And>r. key (f r) = key r"
  shows "get (modify get put d k f) k' =
    (if k' = k then map_option f (get d k) else get d k')"
  using assms get_key by (auto simp: modify_def get_put split: option.splits)

lemma modify_absent: "get d k = None \<Longrightarrow> modify get put d k f = d"
  by (simp add: modify_def)

end

interpretation accounts: keyed_rows get_account_record put_account ar_id
  by unfold_locales (auto simp: get_account_record_def put_account_def row_get_put dest: row_get_key)

interpretation credentials: keyed_rows get_credential_record put_credential cr_id
  by unfold_locales (auto simp: get_credential_record_def put_credential_def row_get_put dest: row_get_key)

interpretation jobs: keyed_rows get_job_by_id put_job jr_id
  by unfold_locales (auto simp: get_job_by_id_def put_job_def row_get_put dest: row_get_key)

section \<open>Queries\<close>

text \<open>\<open>account.credentials\<close>: the rows that point to the account, in table order.\<close>

definition account_credentials :: "db \<Rightarrow> string \<Rightarrow> credential_record list" where
  "account_credentials d account_id = filter (\<lambda>c. cr_account_id c = account_id) (db_credentials d)"

definition list_account_records :: "db \<Rightarrow> account_record list" where
  "list_account_records d = sort_key ar_id (db_accounts d)"

definition list_job_records ::
  "db \<Rightarrow> string option \<Rightarrow> string option \<Rightarrow> nat \<Rightarrow> nat \<Rightarrow> job_record list" where
  "list_job_records d endpoint status limit offset =
     take limit (drop offset
       (sort_key (\<lambda>j. - dt_micros (jr_created_at j))
         (filter (\<lambda>j. (endpoint = None \<or> endpoint = Some (jr_endpoint j)) \<and>
                      (status = None \<or> status = Some (jr_status j))) (db_jobs d))))"

definition list_request_logs ::
  "db \<Rightarrow> string option \<Rightarrow> string option \<Rightarrow> nat \<Rightarrow> nat \<Rightarrow> request_log_record list" where
  "list_request_logs d endpoint status limit offset =
     take limit (drop offset
       (sort_key (\<lambda>l. - dt_micros (lr_requested_at l))
         (filter (\<lambda>l. (endpoint = None \<or> endpoint = Some (lr_endpoint l)) \<and>
                      (status = None \<or> status = Some (lr_status l))) (db_request_logs d))))"

text \<open>\<open>one_or_none()\<close>: more than one row raises.\<close>

definition get_job_record :: "db \<Rightarrow> string \<Rightarrow> string \<Rightarrow> job_record option res" where
  "get_job_record d endpoint upstream_job_id =
     (case filter (\<lambda>j. jr_endpoint j = endpoint \<and> jr_upstream_job_id j = Some upstream_job_id) (db_jobs d) of
        [] \<Rightarrow> Inr None
      | [j] \<Rightarrow> Inr (Some j)
      | _ \<Rightarrow> Inl MultipleResultsFound)"

section \<open>From rows to the domain model\<close>

definition account_status_of :: "string \<Rightarrow> account_status res" where
  "account_status_of s =
     (if s = ''active'' then Inr ACTIVE
      else if s = ''rate_limited'' then Inr RATE_LIMITED
      else if s = ''credit_exhausted'' then Inr CREDIT_EXHAUSTED
      else if s = ''paused'' then Inr PAUSED
      else if s = ''invalid'' then Inr INVALID
      else Inl ValueError)"

definition credential_status_of :: "string \<Rightarrow> credential_status res" where
  "credential_status_of s =
     (if s = ''active'' then Inr CRED_ACTIVE
      else if s = ''paused'' then Inr CRED_PAUSED
      else if s = ''invalid'' then Inr CRED_INVALID
      else Inl ValueError)"

text \<open>Python's \<open>x or y\<close> on an optional integer: \<open>None\<close> and 0 give \<open>y\<close>.\<close>

definition int_or :: "int option \<Rightarrow> int \<Rightarrow> int" where
  "int_or x y = (case x of None \<Rightarrow> y | Some n \<Rightarrow> if n = 0 then y else n)"

definition to_domain_credential ::
  "(string \<Rightarrow> string res) \<Rightarrow> (py_datetime \<Rightarrow> py_datetime) \<Rightarrow> credential_record \<Rightarrow> firecrawl_credential res" where
  "to_domain_credential decrypt column c =
     res_bind (decrypt (cr_api_key_encrypted c)) (\<lambda>api_key.
     res_bind (credential_status_of (cr_status c)) (\<lambda>status.
       Inr \<lparr>c_id = cr_id c, c_api_key = api_key, c_status = status, c_name = cr_name c,
            c_last_error_at = map_option column (cr_last_error_at c),
            c_last_error_message = cr_last_error_message c\<rparr>))"

definition to_domain_account ::
  "(string \<Rightarrow> string res) \<Rightarrow> (py_datetime \<Rightarrow> py_datetime) \<Rightarrow> db \<Rightarrow> account_record \<Rightarrow> firecrawl_account res" where
  "to_domain_account decrypt column d a =
     res_bind (res_map (to_domain_credential decrypt column) (account_credentials d (ar_id a))) (\<lambda>credentials.
     res_bind (account_status_of (ar_status a)) (\<lambda>status.
       Inr \<lparr>a_id = ar_id a, a_team_label = ar_team_label a, a_plan_type = ar_plan_type a,
            a_remaining_credits = int_or (ar_remaining_credits_live a) 0,
            a_plan_credits = int_or (ar_plan_credits_live a) (int_or (ar_monthly_budget_credits a) 1),
            a_status = status, a_credentials = credentials,
            a_cooldown_until = map_option column (ar_cooldown_until a),
            a_inflight = 0, a_rpm_used = [],
            a_queue_active_jobs = int_or (ar_queue_active_jobs a) 0,
            a_queue_max_concurrency = ar_queue_max_concurrency a,
            a_recent_error_count = 0\<rparr>))"

definition list_accounts ::
  "(string \<Rightarrow> string res) \<Rightarrow> (py_datetime \<Rightarrow> py_datetime) \<Rightarrow> db \<Rightarrow> firecrawl_account list res" where
  "list_accounts decrypt column d =
     res_map (to_domain_account decrypt column d) (sort_key ar_id (db_accounts d))"

section \<open>Updates\<close>

definition add_account_record :: "db \<Rightarrow> account_record \<Rightarrow> db" where
  "add_account_record d a = d\<lparr>db_accounts := db_accounts d @ [a]\<rparr>"

definition add_credential_record :: "db \<Rightarrow> credential_record \<Rightarrow> db" where
  "add_credential_record d c = d\<lparr>db_credentials := db_credentials d @ [c]\<rparr>"

text \<open>The primary key of a new job or log row comes from the counter.\<close>

definition add_job_record :: "db \<Rightarrow> job_record \<Rightarrow> db" where
  "add_job_record d j = d\<lparr>db_jobs := db_jobs d @ [j\<lparr>jr_id := db_next_job_id d\<rparr>],
                          db_next_job_id := Suc (db_next_job_id d)\<rparr>"

definition record_request :: "db \<Rightarrow> request_log_record \<Rightarrow> db" where
  "record_request d l = d\<lparr>db_request_logs := db_request_logs d @ [l\<lparr>lr_id := db_next_log_id d\<rparr>],
                          db_next_log_id := Suc (db_next_log_id d)\<rparr>"

definition charge :: "int \<Rightarrow> account_record \<Rightarrow> account_record" where
  "charge credits_used a =
     (let a = (case ar_remaining_credits_live a of
                 None \<Rightarrow> a
               | Some n \<Rightarrow> a\<lparr>ar_remaining_credits_live := Some (max 0 (n - credits_used))\<rparr>)
      in if ar_status a = ''rate_limited''
         then a\<lparr>ar_status := ''active'', ar_cooldown_until := None\<rparr> else a)"

definition apply_success :: "db \<Rightarrow> string \<Rightarrow> int \<Rightarrow> db" where
  "apply_success d account_id credits_used =
     modify get_account_record put_account d account_id (charge credits_used)"

definition settle_job_once :: "db \<Rightarrow> job_record \<Rightarrow> string \<Rightarrow> int \<Rightarrow> py_datetime \<Rightarrow> db" where
  "settle_job_once d job status credits_used completed_at =
     (let job = job\<lparr>jr_status := status, jr_completed_at := Some completed_at,
                    jr_last_polled_at := Some completed_at\<rparr>
      in if jr_credits_used_final job \<noteq> None then put_job d job
         else let d = put_job d (job\<lparr>jr_credits_used_final := Some credits_used\<rparr>)
              in case jr_account_id job of
                   None \<Rightarrow> d
                 | Some account_id \<Rightarrow> apply_success d account_id credits_used)"

definition mark_credential_invalid :: "db \<Rightarrow> string \<Rightarrow> string option \<Rightarrow> py_datetime \<Rightarrow> db" where
  "mark_credential_invalid d credential_id message error_at =
     modify get_credential_record put_credential d credential_id
       (\<lambda>c. c\<lparr>cr_status := ''invalid'', cr_last_error_at := Some error_at, cr_last_error_message := message\<rparr>)"

definition mark_account_credit_exhausted :: "db \<Rightarrow> string \<Rightarrow> db" where
  "mark_account_credit_exhausted d account_id =
     modify get_account_record put_account d account_id (\<lambda>a. a\<lparr>ar_status := ''credit_exhausted''\<rparr>)"

definition mark_account_rate_limited :: "db \<Rightarrow> string \<Rightarrow> py_datetime \<Rightarrow> db" where
  "mark_account_rate_limited d account_id cooldown_until =
     modify get_account_record put_account d account_id
       (\<lambda>a. a\<lparr>ar_status := ''rate_limited'', ar_cooldown_until := Some cooldown_until\<rparr>)"

definition keep_or :: "'a option \<Rightarrow> 'a option \<Rightarrow> 'a option" where
  "keep_or new old = (case new of None \<Rightarrow> old | Some v \<Rightarrow> Some v)"

definition update_account_refresh_success ::
  "db \<Rightarrow> account_record \<Rightarrow> int option \<Rightarrow> int option \<Rightarrow> py_datetime option \<Rightarrow> py_datetime option
   \<Rightarrow> int option \<Rightarrow> int option \<Rightarrow> py_datetime \<Rightarrow> db" where
  "update_account_refresh_success d a remaining_credits plan_credits billing_period_start
     billing_period_end queue_active_jobs queue_max_concurrency refreshed_at =
     put_account d (a\<lparr>ar_remaining_credits_live := keep_or remaining_credits (ar_remaining_credits_live a),
       ar_plan_credits_live := keep_or plan_credits (ar_plan_credits_live a),
       ar_billing_period_start := keep_or billing_period_start (ar_billing_period_start a),
       ar_billing_period_end := keep_or billing_period_end (ar_billing_period_end a),
       ar_queue_active_jobs := keep_or queue_active_jobs (ar_queue_active_jobs a),
       ar_queue_max_concurrency := keep_or queue_max_concurrency (ar_queue_max_concurrency a),
       ar_last_usage_refresh_at := Some refreshed_at,
       ar_last_queue_refresh_at := Some refreshed_at,
       ar_last_refresh_error_at := None,
       ar_last_refresh_error_message := None\<rparr>)"

definition mark_account_refresh_error :: "db \<Rightarrow> account_record \<Rightarrow> string \<Rightarrow> py_datetime \<Rightarrow> db" where
  "mark_account_refresh_error d a message error_at =
     put_account d (a\<lparr>ar_last_refresh_error_at := Some error_at, ar_last_refresh_error_message := Some message\<rparr>)"

section \<open>Frame lemmas\<close>

lemma put_simps [frame_simps]:
  "db_credentials (put_account d a) = db_credentials d" "db_jobs (put_account d a) = db_jobs d"
  "db_request_logs (put_account d a) = db_request_logs d"
  "db_accounts (put_credential d c) = db_accounts d" "db_jobs (put_credential d c) = db_jobs d"
  "db_request_logs (put_credential d c) = db_request_logs d"
  "db_accounts (put_job d j) = db_accounts d" "db_credentials (put_job d j) = db_credentials d"
  "db_request_logs (put_job d j) = db_request_logs d"
  by (simp_all add: put_account_def put_credential_def put_job_def)

lemma add_simps [frame_simps]:
  "db_accounts (add_job_record d j) = db_accounts d"
  "db_credentials (add_job_record d j) = db_credentials d"
  "db_request_logs (add_job_record d j) = db_request_logs d"
  "db_accounts (record_request d l) = db_accounts d"
  "db_credentials (record_request d l) = db_credentials d"
  "db_jobs (record_request d l) = db_jobs d"
  by (simp_all add: add_job_record_def record_request_def)

lemma get_account_cong: "db_accounts d = db_accounts d' \<Longrightarrow> get_account_record d = get_account_record d'"
  by (simp add: get_account_record_def fun_eq_iff)

lemma get_credential_cong:
  "db_credentials d = db_credentials d' \<Longrightarrow> get_credential_record d = get_credential_record d'"
  by (simp add: get_credential_record_def fun_eq_iff)

lemma account_op_frames [frame_simps]:
  "db_credentials (modify get_account_record put_account d k f) = db_credentials d"
  "db_jobs (modify get_account_record put_account d k f) = db_jobs d"
  "db_request_logs (modify get_account_record put_account d k f) = db_request_logs d"
  by (simp_all add: modify_def frame_simps split: option.splits)

lemma credential_op_frames [frame_simps]:
  "db_accounts (modify get_credential_record put_credential d k g) = db_accounts d"
  "db_jobs (modify get_credential_record put_credential d k g) = db_jobs d"
  "db_request_logs (modify get_credential_record put_credential d k g) = db_request_logs d"
  by (simp_all add: modify_def frame_simps split: option.splits)

lemma charge_id [simp]: "ar_id (charge n a) = ar_id a" "ar_team_label (charge n a) = ar_team_label a"
  by (simp_all add: charge_def Let_def split: option.splits)

lemma charge_credits:
  "ar_remaining_credits_live (charge n a) =
     map_option (\<lambda>r. max 0 (r - n)) (ar_remaining_credits_live a)"
  by (simp add: charge_def Let_def split: option.splits)

lemma charge_status:
  "ar_status (charge n a) = (if ar_status a = ''rate_limited'' then ''active'' else ar_status a)"
  by (simp add: charge_def Let_def split: option.splits)

lemma get_apply_success:
  "get_account_record (apply_success d k n) k' =
     (if k' = k then map_option (charge n) (get_account_record d k) else get_account_record d k')"
  unfolding apply_success_def by (rule accounts.get_modify) simp

lemma get_mark_credit_exhausted:
  "get_account_record (mark_account_credit_exhausted d k) k' =
     (if k' = k then map_option (\<lambda>a. a\<lparr>ar_status := ''credit_exhausted''\<rparr>) (get_account_record d k)
      else get_account_record d k')"
  unfolding mark_account_credit_exhausted_def by (rule accounts.get_modify) simp

lemma get_mark_rate_limited:
  "get_account_record (mark_account_rate_limited d k t) k' =
     (if k' = k then map_option (\<lambda>a. a\<lparr>ar_status := ''rate_limited'', ar_cooldown_until := Some t\<rparr>)
        (get_account_record d k)
      else get_account_record d k')"
  unfolding mark_account_rate_limited_def by (rule accounts.get_modify) simp

lemma get_mark_credential_invalid:
  "get_credential_record (mark_credential_invalid d k m t) k' =
     (if k' = k then map_option (\<lambda>c. c\<lparr>cr_status := ''invalid'', cr_last_error_at := Some t,
          cr_last_error_message := m\<rparr>) (get_credential_record d k)
      else get_credential_record d k')"
  unfolding mark_credential_invalid_def by (rule credentials.get_modify) simp

lemmas outcome_frames [frame_simps] =
  account_op_frames [where f = "charge n" for n, folded apply_success_def]
  account_op_frames [where f = "\<lambda>a. a\<lparr>ar_status := ''credit_exhausted''\<rparr>", folded mark_account_credit_exhausted_def]
  account_op_frames [where f = "\<lambda>a. a\<lparr>ar_status := ''rate_limited'', ar_cooldown_until := Some t\<rparr>" for t,
    folded mark_account_rate_limited_def]
  credential_op_frames [where g = "\<lambda>c. c\<lparr>cr_status := ''invalid'', cr_last_error_at := Some t,
    cr_last_error_message := m\<rparr>" for t m, folded mark_credential_invalid_def]

lemma get_frames [frame_simps]:
  "get_account_record (mark_credential_invalid d k m t) = get_account_record d"
  "get_account_record (put_job d j) = get_account_record d"
  "get_account_record (add_job_record d j) = get_account_record d"
  "get_account_record (record_request d l) = get_account_record d"
  "get_credential_record (apply_success d k n) = get_credential_record d"
  "get_credential_record (mark_account_credit_exhausted d k) = get_credential_record d"
  "get_credential_record (mark_account_rate_limited d k t) = get_credential_record d"
  "get_credential_record (put_job d j) = get_credential_record d"
  "get_credential_record (add_job_record d j) = get_credential_record d"
  "get_credential_record (record_request d l) = get_credential_record d"
  by (simp_all add: get_account_record_def get_credential_record_def fun_eq_iff frame_simps)

section \<open>Well-formed stores\<close>

text \<open>
  The constraints the schema declares: primary keys are unique, team labels are unique, the
  autoincrement counters are ahead of the keys in use, credentials point to existing accounts.
\<close>

definition wf_db :: "db \<Rightarrow> bool" where
  "wf_db d \<longleftrightarrow>
     distinct (map ar_id (db_accounts d)) \<and> distinct (map ar_team_label (db_accounts d)) \<and>
     distinct (map cr_id (db_credentials d)) \<and> distinct (map jr_id (db_jobs d)) \<and>
     distinct (map lr_id (db_request_logs d)) \<and>
     (\<forall>j\<in>set (db_jobs d). jr_id j < db_next_job_id d) \<and>
     (\<forall>l\<in>set (db_request_logs d). lr_id l < db_next_log_id d) \<and>
     (\<forall>c\<in>set (db_credentials d). cr_account_id c \<in> ar_id ` set (db_accounts d))"

lemma map_row_put_same:
  assumes "\<And>r'. r' \<in> set rows \<Longrightarrow> key r' = key r \<Longrightarrow> g r' = g r"
  shows "map g (row_put key rows r) = map g rows"
  using assms by (induction rows) (auto simp: row_put_def)

lemma wf_put_account [inv_intros]:
  assumes "wf_db d" "get_account_record d (ar_id a) = Some b" "ar_team_label a = ar_team_label b"
  shows "wf_db (put_account d a)"
proof -
  have "ar_team_label r = ar_team_label a" if "r \<in> set (db_accounts d)" "ar_id r = ar_id a" for r
    using assms that row_get_distinct [of ar_id "db_accounts d" r]
    by (auto simp: wf_db_def get_account_record_def)
  then have l: "map ar_team_label (row_put ar_id (db_accounts d) a) = map ar_team_label (db_accounts d)"
    by (intro map_row_put_same) auto
  have k: "ar_id ` set (row_put ar_id (db_accounts d) a) = ar_id ` set (db_accounts d)"
    by (metis keys_row_put set_map)
  show ?thesis using assms(1) by (simp add: wf_db_def put_account_def l k)
qed

lemma wf_modify_account:
  assumes "wf_db d" "\<And>a. ar_id (f a) = ar_id a" "\<And>a. ar_team_label (f a) = ar_team_label a"
  shows "wf_db (modify get_account_record put_account d k f)"
  using assms accounts.get_key by (auto simp: modify_def split: option.splits intro!: wf_put_account)

lemma wf_put_credential [inv_intros]:
  assumes "wf_db d" "get_credential_record d (cr_id c) = Some b" "cr_account_id c = cr_account_id b"
  shows "wf_db (put_credential d c)"
proof -
  have b: "b \<in> set (db_credentials d)" using assms(2) by (auto simp: get_credential_record_def dest: row_get_mem)
  have "\<forall>x\<in>set (row_put cr_id (db_credentials d) c). cr_account_id x \<in> ar_id ` set (db_accounts d)"
    using assms b by (intro all_row_put) (auto simp: wf_db_def)
  then show ?thesis using assms(1) by (simp add: wf_db_def put_credential_def)
qed

lemma wf_put_job [inv_intros]:
  assumes "wf_db d" "get_job_by_id d (jr_id j) = Some b"
  shows "wf_db (put_job d j)"
proof -
  have b: "b \<in> set (db_jobs d)" "jr_id b = jr_id j"
    using assms(2) by (auto simp: get_job_by_id_def dest: row_get_mem row_get_key)
  then have "jr_id j < db_next_job_id d" using assms(1) by (auto simp: wf_db_def)
  then have "\<forall>x\<in>set (row_put jr_id (db_jobs d) j). jr_id x < db_next_job_id d"
    using assms(1) by (intro all_row_put) (auto simp: wf_db_def)
  then show ?thesis using assms(1) by (simp add: wf_db_def put_job_def)
qed

lemma wf_apply_success [inv_intros]: "wf_db d \<Longrightarrow> wf_db (apply_success d k n)"
  by (simp add: apply_success_def wf_modify_account)

lemma wf_mark_account [inv_intros]:
  "wf_db d \<Longrightarrow> wf_db (mark_account_credit_exhausted d k)"
  "wf_db d \<Longrightarrow> wf_db (mark_account_rate_limited d k t)"
  by (simp_all add: mark_account_credit_exhausted_def mark_account_rate_limited_def wf_modify_account)

lemma wf_mark_credential_invalid [inv_intros]: "wf_db d \<Longrightarrow> wf_db (mark_credential_invalid d k m t)"
  using credentials.get_key
  by (auto simp: mark_credential_invalid_def modify_def split: option.splits intro!: wf_put_credential)

lemma wf_add_job [inv_intros]: "wf_db d \<Longrightarrow> wf_db (add_job_record d j)"
  by (fastforce simp: wf_db_def add_job_record_def)

lemma wf_record_request [inv_intros]: "wf_db d \<Longrightarrow> wf_db (record_request d l)"
  by (fastforce simp: wf_db_def record_request_def)

lemma wf_settle_job_once [inv_intros]:
  assumes "wf_db d" "get_job_by_id d (jr_id j) = Some b"
  shows "wf_db (settle_job_once d j s n t)"
proof -
  have "wf_db (put_job d (j\<lparr>jr_status := s, jr_completed_at := Some t, jr_last_polled_at := Some t\<rparr>))"
    "wf_db (put_job d (j\<lparr>jr_status := s, jr_completed_at := Some t, jr_last_polled_at := Some t,
       jr_credits_used_final := Some n\<rparr>))"
    using assms by (auto intro!: wf_put_job)
  then show ?thesis
    by (auto simp: settle_job_once_def Let_def wf_apply_success split: option.splits)
qed

end
