(* ===== verification/ProxyService.thy ===== *)
theory ProxyService
  imports Store
begin

text \<open>
  The upstream client (\<open>src/app/modules/firecrawl/client.py\<close>), the proxy service
  (\<open>src/app/modules/firecrawl/service.py\<close>) and the proxy routes of
  \<open>src/app/modules/firecrawl/api.py\<close>. The outside world is the record \<open>world\<close>: the HTTP transport
  (aiohttp), the clocks, Fernet decryption and the \<open>DateTime\<close> columns. An operation returns the
  new database together with its result; when it raises, the session is rolled back
  (\<open>get_session\<close>), so an error result means the database is unchanged.
\<close>

section \<open>The client\<close>

record http_request =
  hq_method :: string
  hq_url :: string
  hq_headers :: "(string \<times> string) list"
  hq_json :: "jobj option"
  hq_params :: "(string \<times> string) list option"

datatype json_outcome = Parsed json | ContentTypeError | ParseRaised pyexc

record raw_response =
  rr_status :: int
  rr_headers :: "(string \<times> string) list"
  rr_json :: json_outcome
  rr_text :: string

record upstream_response =
  ur_status :: int
  ur_headers :: "(string \<times> string) list"
  ur_json_body :: "jobj option"
  ur_text_body :: "string option"

type_synonym transport = "http_request \<Rightarrow> raw_response res"

text \<open>\<open>headers.get(a) or headers.get(b)\<close>.\<close>

definition header_or :: "(string \<times> string) list \<Rightarrow> string \<Rightarrow> string \<Rightarrow> string option" where
  "header_or headers a b =
     (case map_of headers a of
        Some v \<Rightarrow> if v \<noteq> [] then Some v else map_of headers b
      | None \<Rightarrow> map_of headers b)"

definition is_json_response :: "(string \<times> string) list \<Rightarrow> bool" where
  "is_json_response headers =
     (let content_type = (case header_or headers ''content-type'' ''Content-Type'' of None \<Rightarrow> [] | Some v \<Rightarrow> v)
      in str_in ''application/json'' (lower content_type))"

definition strip_slash :: "string \<Rightarrow> string" where
  "strip_slash s = dropWhile (\<lambda>c. c = CHR ''/'') s"

definition default_base_url :: string where
  "default_base_url = ''https://api.firecrawl.dev''"

definition client_base_url :: "string \<Rightarrow> string" where
  "client_base_url base_url = rev (strip_slash (rev base_url))"

definition client_request ::
  "transport \<Rightarrow> string \<Rightarrow> string \<Rightarrow> string \<Rightarrow> string \<Rightarrow> jobj option \<Rightarrow> (string \<times> string) list option
   \<Rightarrow> upstream_response res" where
  "client_request http base_url meth path api_key body params =
     res_bind (http \<lparr>hq_method = meth, hq_url = client_base_url base_url @ ''/'' @ strip_slash path,
                     hq_headers = [(''Authorization'', ''Bearer '' @ api_key)],
                     hq_json = body, hq_params = params\<rparr>) (\<lambda>response.
       let as_text = \<lparr>ur_status = rr_status response, ur_headers = rr_headers response,
                      ur_json_body = None, ur_text_body = Some (rr_text response)\<rparr>
       in if is_json_response (rr_headers response)
          then (case rr_json response of
                  ContentTypeError \<Rightarrow> Inr as_text
                | ParseRaised e \<Rightarrow> Inl e
                | Parsed (JObj ob) \<Rightarrow> Inr \<lparr>ur_status = rr_status response, ur_headers = rr_headers response,
                                           ur_json_body = Some ob, ur_text_body = None\<rparr>
                | Parsed _ \<Rightarrow> Inr as_text)
          else Inr as_text)"

section \<open>Reading upstream responses\<close>

definition success_status :: "int \<Rightarrow> bool" where
  "success_status s = (200 \<le> s \<and> s < 300)"

definition request_status :: "int \<Rightarrow> string" where
  "request_status upstream_status =
     (if success_status upstream_status then ''success''
      else if upstream_status = 401 then ''credential_invalid''
      else if upstream_status = 402 then ''credit_exhausted''
      else if upstream_status = 429 then ''rate_limited''
      else ''error'')"

definition cooldown_until :: "(string \<times> string) list \<Rightarrow> py_datetime \<Rightarrow> py_datetime res" where
  "cooldown_until headers now =
     (case header_or headers ''retry-after'' ''Retry-After'' of
        None \<Rightarrow> dt_add_seconds now 60
      | Some raw \<Rightarrow>
          (case py_int raw of
             Inl _ \<Rightarrow> dt_add_seconds now 60
           | Inr retry_after_seconds \<Rightarrow> dt_add_seconds now (max 0 retry_after_seconds)))"

definition error_message :: "jobj option \<Rightarrow> string option \<Rightarrow> string option" where
  "error_message json_body text_body =
     (case json_body of
        None \<Rightarrow> text_body
      | Some ob \<Rightarrow>
          (case jget ob ''error'' of
             JStr m \<Rightarrow> Some m
           | JObj nested \<Rightarrow> json_str (jget nested ''message'')
           | _ \<Rightarrow> None))"

text \<open>A string under \<open>data\<close>, when \<open>data\<close> is an object.\<close>

definition nested_str :: "jobj \<Rightarrow> string \<Rightarrow> string option" where
  "nested_str ob key = (case jget ob ''data'' of JObj data \<Rightarrow> json_str (jget data key) | _ \<Rightarrow> None)"

definition upstream_job_id :: "jobj option \<Rightarrow> string option" where
  "upstream_job_id json_body =
     (case json_body of
        None \<Rightarrow> None
      | Some ob \<Rightarrow>
          (case jget ob ''id'' of
             JStr i \<Rightarrow> Some i
           | _ \<Rightarrow> (case jget ob ''jobId'' of JStr i \<Rightarrow> Some i | _ \<Rightarrow> nested_str ob ''id'')))"

definition job_status :: "jobj option \<Rightarrow> string option" where
  "job_status json_body =
     (case json_body of
        None \<Rightarrow> None
      | Some ob \<Rightarrow> (case jget ob ''status'' of JStr s \<Rightarrow> Some s | _ \<Rightarrow> nested_str ob ''status''))"

definition credits_used :: "jobj option \<Rightarrow> int option" where
  "credits_used json_body =
     (case json_body of
        None \<Rightarrow> None
      | Some ob \<Rightarrow>
          (case jget ob ''creditsUsed'' of
             JBool _ \<Rightarrow> None
           | JInt n \<Rightarrow> Some n
           | _ \<Rightarrow> (case jget ob ''data'' of
                     JObj data \<Rightarrow> (case jget data ''creditsUsed'' of JInt n \<Rightarrow> Some n | _ \<Rightarrow> None)
                   | _ \<Rightarrow> None)))"

definition is_terminal_job_status :: "string \<Rightarrow> bool" where
  "is_terminal_job_status status =
     (lower status \<in> {''completed'', ''complete'', ''finished'', ''failed'', ''cancelled'', ''canceled''})"

section \<open>The service\<close>

record world =
  w_decrypt :: "string \<Rightarrow> string res"
  w_column :: "py_datetime \<Rightarrow> py_datetime"
  w_http :: transport
  w_clock :: py_datetime
  w_now :: py_datetime
  w_db_now :: py_datetime
  w_latency_ms :: int

definition record_outcome ::
  "world \<Rightarrow> db \<Rightarrow> string \<Rightarrow> string \<Rightarrow> string \<Rightarrow> upstream_response \<Rightarrow> string \<Rightarrow> int \<Rightarrow> int \<Rightarrow> bool \<Rightarrow> db res" where
  "record_outcome w d account_id credential_id endpoint response status estimated used settle_success =
     (let message = error_message (ur_json_body response) (ur_text_body response);
          d = record_request d
            \<lparr>lr_id = 0, lr_account_id = Some account_id, lr_credential_id = Some credential_id,
             lr_client_api_key_id = None, lr_endpoint = endpoint,
             lr_upstream_job_id = upstream_job_id (ur_json_body response),
             lr_requested_at = w_db_now w, lr_status = status,
             lr_upstream_status_code = Some (ur_status response),
             lr_estimated_credits_pre = Some estimated, lr_credits_used_final = Some used,
             lr_latency_ms = Some (w_latency_ms w),
             lr_error_code = (if 400 \<le> ur_status response then Some status else None),
             lr_error_message = message\<rparr>
      in if success_status (ur_status response) \<and> settle_success
           then Inr (apply_success d account_id used)
         else if ur_status response = 401
           then Inr (mark_credential_invalid d credential_id message (w_now w))
         else if ur_status response = 402 then Inr (mark_account_credit_exhausted d account_id)
         else if ur_status response = 429
           then res_bind (cooldown_until (ur_headers response) (w_now w)) (\<lambda>until.
             Inr (mark_account_rate_limited d account_id until))
         else Inr d)"

definition lift_err :: "'a res \<Rightarrow> select_error + 'a" where
  "lift_err r = (case r of Inl e \<Rightarrow> Inl (SelectRaised e) | Inr x \<Rightarrow> Inr x)"

text \<open>The part \<open>proxy\<close> and \<open>submit_job\<close> have in common: select, send, work out the cost.\<close>

definition send_selected ::
  "world \<Rightarrow> db \<Rightarrow> string \<Rightarrow> string \<Rightarrow> jobj \<Rightarrow> (string \<times> string) list option
   \<Rightarrow> select_error + (selected_account \<times> upstream_response \<times> int)" where
  "send_selected w d endpoint path payload params =
     res_bind (lift_err (list_accounts (w_decrypt w) (w_column w) d)) (\<lambda>accounts.
     res_bind (select_account accounts endpoint payload None (w_clock w)) (\<lambda>selected.
     res_bind (lift_err (client_request (w_http w) default_base_url ''POST'' path
                 (c_api_key (sel_credential selected)) (Some payload) params)) (\<lambda>response.
     res_bind (lift_err (estimate_credits endpoint payload (ur_json_body response))) (\<lambda>used.
       Inr (selected, response, used)))))"

definition proxy ::
  "world \<Rightarrow> db \<Rightarrow> string \<Rightarrow> jobj \<Rightarrow> (string \<times> string) list option
   \<Rightarrow> select_error + (db \<times> upstream_response)" where
  "proxy w d endpoint payload params =
     res_bind (send_selected w d endpoint (''/v2/'' @ endpoint) payload params) (\<lambda>(selected, response, used).
     res_bind (lift_err (record_outcome w d (a_id (sel_account selected)) (c_id (sel_credential selected))
                 endpoint response (request_status (ur_status response))
                 (sel_estimated_credits selected) used True)) (\<lambda>d'.
       Inr (d', response)))"

definition new_job :: "world \<Rightarrow> selected_account \<Rightarrow> string \<Rightarrow> string \<Rightarrow> job_record" where
  "new_job w selected endpoint job_id =
     \<lparr>jr_id = 0, jr_account_id = Some (a_id (sel_account selected)),
      jr_credential_id = Some (c_id (sel_credential selected)), jr_endpoint = endpoint,
      jr_upstream_job_id = Some job_id, jr_status = ''submitted'',
      jr_estimated_credits_reserved = Some (sel_estimated_credits selected),
      jr_credits_used_final = None, jr_created_at = w_db_now w, jr_completed_at = None,
      jr_last_polled_at = None, jr_next_url = None\<rparr>"

definition submit_job ::
  "world \<Rightarrow> db \<Rightarrow> string \<Rightarrow> string \<Rightarrow> jobj \<Rightarrow> (string \<times> string) list option
   \<Rightarrow> select_error + (db \<times> upstream_response)" where
  "submit_job w d endpoint path payload params =
     res_bind (send_selected w d endpoint path payload params) (\<lambda>(selected, response, used).
     res_bind (lift_err (record_outcome w d (a_id (sel_account selected)) (c_id (sel_credential selected))
                 endpoint response (request_status (ur_status response))
                 (sel_estimated_credits selected) used False)) (\<lambda>d'.
       let d'' = (case upstream_job_id (ur_json_body response) of
                    Some job_id \<Rightarrow>
                      if success_status (ur_status response)
                      then add_job_record d' (new_job w selected endpoint job_id) else d'
                  | None \<Rightarrow> d')
       in Inr (d'', response)))"

definition job_credential :: "db \<Rightarrow> job_record \<Rightarrow> credential_record option" where
  "job_credential d job =
     (case jr_credential_id job of None \<Rightarrow> None | Some i \<Rightarrow> get_credential_record d i)"

definition str_or :: "string option \<Rightarrow> string \<Rightarrow> string" where
  "str_or x y = (case x of None \<Rightarrow> y | Some s \<Rightarrow> if s = [] then y else s)"

text \<open>What a response does to the job row and, on settlement, to the account.\<close>

definition apply_job_response ::
  "world \<Rightarrow> db \<Rightarrow> job_record \<Rightarrow> string \<Rightarrow> upstream_response \<Rightarrow> db" where
  "apply_job_response w d job meth response =
     (if meth = ''GET'' \<and> success_status (ur_status response) then
        (let status = job_status (ur_json_body response);
             used = credits_used (ur_json_body response);
             job = job\<lparr>jr_status := str_or status (jr_status job), jr_last_polled_at := Some (w_now w)\<rparr>
         in case (status, used) of
              (Some s, Some n) \<Rightarrow>
                if is_terminal_job_status s then settle_job_once d job s n (w_now w) else put_job d job
            | _ \<Rightarrow> put_job d job)
      else if meth = ''DELETE'' \<and> success_status (ur_status response) then
        put_job d (job\<lparr>jr_status := str_or (job_status (ur_json_body response)) ''cancelled'',
                       jr_completed_at := Some (w_now w)\<rparr>)
      else d)"

definition proxy_job_operation ::
  "world \<Rightarrow> db \<Rightarrow> string \<Rightarrow> string \<Rightarrow> string \<Rightarrow> string \<Rightarrow> (db \<times> upstream_response option) res" where
  "proxy_job_operation w d endpoint path job_id meth =
     res_bind (get_job_record d endpoint job_id) (\<lambda>found.
       case found of
         None \<Rightarrow> Inr (d, None)
       | Some job \<Rightarrow>
           (case job_credential d job of
              None \<Rightarrow> Inr (d, None)
            | Some credential \<Rightarrow>
                res_bind (w_decrypt w (cr_api_key_encrypted credential)) (\<lambda>api_key.
                res_bind (client_request (w_http w) default_base_url meth path api_key None None) (\<lambda>response.
                  Inr (apply_job_response w d job meth response, Some response)))))"

section \<open>The routes\<close>

datatype api_reply =
    JSONResponse int jobj
  | PlainResponse int string "string option"
  | HTTPException int string
  | Unhandled pyexc

definition no_account_response :: "string \<Rightarrow> (string \<times> string) list \<Rightarrow> jobj" where
  "no_account_response endpoint rejections =
     [(''error'', JStr ''no_firecrawl_account_available''),
      (''message'', JStr (no_account_message endpoint rejections))]"

definition upstream_reply :: "upstream_response \<Rightarrow> api_reply" where
  "upstream_reply upstream =
     (case ur_json_body upstream of
        Some ob \<Rightarrow> JSONResponse (ur_status upstream) ob
      | None \<Rightarrow> PlainResponse (ur_status upstream)
                 (case ur_text_body upstream of None \<Rightarrow> [] | Some t \<Rightarrow> t)
                 (header_or (ur_headers upstream) ''content-type'' ''Content-Type''))"

definition string_query_params :: "(string \<times> string) list \<Rightarrow> (string \<times> string) list option" where
  "string_query_params params = (if params = [] then None else Some params)"

definition service_reply :: "db \<Rightarrow> select_error + (db \<times> upstream_response) \<Rightarrow> db \<times> api_reply" where
  "service_reply d r =
     (case r of
        Inl (NoFirecrawlAccountAvailable endpoint rejections) \<Rightarrow>
          (d, JSONResponse 503 (no_account_response endpoint rejections))
      | Inl (SelectRaised e) \<Rightarrow> (d, Unhandled e)
      | Inr (d', upstream) \<Rightarrow> (d', upstream_reply upstream))"

definition proxy_firecrawl_request ::
  "world \<Rightarrow> db \<Rightarrow> string \<Rightarrow> json res \<Rightarrow> (string \<times> string) list \<Rightarrow> db \<times> api_reply" where
  "proxy_firecrawl_request w d endpoint body query =
     (case body of
        Inl e \<Rightarrow> (d, Unhandled e)
      | Inr (JObj payload) \<Rightarrow> service_reply d (proxy w d endpoint payload (string_query_params query))
      | Inr _ \<Rightarrow> (d, HTTPException 400 ''Firecrawl request body must be a JSON object''))"

definition submit_firecrawl_job ::
  "world \<Rightarrow> db \<Rightarrow> string \<Rightarrow> string \<Rightarrow> json res \<Rightarrow> (string \<times> string) list \<Rightarrow> db \<times> api_reply" where
  "submit_firecrawl_job w d endpoint path body query =
     (case body of
        Inl e \<Rightarrow> (d, Unhandled e)
      | Inr (JObj payload) \<Rightarrow> service_reply d (submit_job w d endpoint path payload (string_query_params query))
      | Inr _ \<Rightarrow> (d, HTTPException 400 ''Firecrawl request body must be a JSON object''))"

definition proxy_firecrawl_job_operation ::
  "world \<Rightarrow> db \<Rightarrow> string \<Rightarrow> string \<Rightarrow> string \<Rightarrow> string \<Rightarrow> db \<times> api_reply" where
  "proxy_firecrawl_job_operation w d endpoint path job_id meth =
     (case proxy_job_operation w d endpoint path job_id meth of
        Inl e \<Rightarrow> (d, Unhandled e)
      | Inr (d', None) \<Rightarrow> (d', HTTPException 404 ''Firecrawl job not found'')
      | Inr (d', Some upstream) \<Rightarrow> (d', upstream_reply upstream))"

text \<open>The router: method, path and body of a request to one of the proxy routes.\<close>

datatype proxy_route =
    Scrape | MapUrls | Search | SubmitCrawl | SubmitBatchScrape
  | GetCrawl string | GetBatchScrape string | CancelCrawl string | CancelBatchScrape string

fun handle_route :: "world \<Rightarrow> db \<Rightarrow> proxy_route \<Rightarrow> json res \<Rightarrow> (string \<times> string) list \<Rightarrow> db \<times> api_reply" where
  "handle_route w d Scrape body query = proxy_firecrawl_request w d ''scrape'' body query"
| "handle_route w d MapUrls body query = proxy_firecrawl_request w d ''map'' body query"
| "handle_route w d Search body query = proxy_firecrawl_request w d ''search'' body query"
| "handle_route w d SubmitCrawl body query = submit_firecrawl_job w d ''crawl'' ''/v2/crawl'' body query"
| "handle_route w d SubmitBatchScrape body query =
     submit_firecrawl_job w d ''batch_scrape'' ''/v2/batch/scrape'' body query"
| "handle_route w d (GetCrawl job_id) body query =
     proxy_firecrawl_job_operation w d ''crawl'' (''/v2/crawl/'' @ job_id) job_id ''GET''"
| "handle_route w d (GetBatchScrape job_id) body query =
     proxy_firecrawl_job_operation w d ''batch_scrape'' (''/v2/batch/scrape/'' @ job_id) job_id ''GET''"
| "handle_route w d (CancelCrawl job_id) body query =
     proxy_firecrawl_job_operation w d ''crawl'' (''/v2/crawl/'' @ job_id) job_id ''DELETE''"
| "handle_route w d (CancelBatchScrape job_id) body query =
     proxy_firecrawl_job_operation w d ''batch_scrape'' (''/v2/batch/scrape/'' @ job_id) job_id ''DELETE''"

section \<open>Accounts as the service sees them\<close>

lemma lift_err_simps [simp]:
  "lift_err r = Inr x \<longleftrightarrow> r = Inr x" "lift_err r = Inl (SelectRaised e) \<longleftrightarrow> r = Inl e"
  "lift_err r \<noteq> Inl (NoFirecrawlAccountAvailable ep rejs)"
  by (cases r; simp add: lift_err_def)+

lemma to_domain_account_Inr:
  assumes "to_domain_account decrypt column d r = Inr a"
  shows "a_id a = ar_id r" "account_status_of (ar_status r) = Inr (a_status a)"
    "a_rpm_used a = []" "a_inflight a = 0" "a_team_label a = ar_team_label r"
    "a_remaining_credits a = int_or (ar_remaining_credits_live r) 0"
    "res_map (to_domain_credential decrypt column) (account_credentials d (ar_id r)) = Inr (a_credentials a)"
  using assms by (auto simp: to_domain_account_def res_bind_eq_Inr)

lemma list_accounts_mem:
  assumes "list_accounts decrypt column d = Inr accs" "a \<in> set accs"
  obtains r where "r \<in> set (db_accounts d)" "to_domain_account decrypt column d r = Inr a"
  using res_map_mem [OF assms(1) [unfolded list_accounts_def] assms(2)] that by auto

lemma list_accounts_wf:
  assumes "list_accounts decrypt column d = Inr accs"
  shows "list_all wf_account accs"
proof -
  have "wf_account a" if "a \<in> set accs" for a
    using list_accounts_mem [OF assms that] to_domain_account_Inr(3)
    by (metis distinct.simps(1) list.simps(8) wf_account_def)
  then show ?thesis by (simp add: list_all_iff)
qed

lemma account_status_of_active: "account_status_of s = Inr ACTIVE \<longleftrightarrow> s = ''active''"
  by (auto simp: account_status_of_def)

lemma send_selected_Inr:
  assumes "send_selected w d endpoint path payload params = Inr (sel, response, used)"
  obtains accs where
    "list_accounts (w_decrypt w) (w_column w) d = Inr accs"
    "select_account accs endpoint payload None (w_clock w) = Inr sel"
    "client_request (w_http w) default_base_url ''POST'' path (c_api_key (sel_credential sel))
       (Some payload) params = Inr response"
    "estimate_credits endpoint payload (ur_json_body response) = Inr used"
  using assms
  by (auto simp: send_selected_def res_bind_eq_Inr)

text \<open>
  The request went out with a key of an active credential of an active account: the rows behind
  the selection.
\<close>

definition sent_with ::
  "world \<Rightarrow> db \<Rightarrow> string \<Rightarrow> jobj \<Rightarrow> (string \<times> string) list option \<Rightarrow> account_record \<Rightarrow>
   credential_record \<Rightarrow> upstream_response \<Rightarrow> bool" where
  "sent_with w d path payload params r c response \<longleftrightarrow>
     get_account_record d (ar_id r) = Some r \<and> ar_status r = ''active'' \<and>
     get_credential_record d (cr_id c) = Some c \<and> cr_status c = ''active'' \<and>
     cr_account_id c = ar_id r \<and>
     (\<exists>key. w_decrypt w (cr_api_key_encrypted c) = Inr key \<and>
        client_request (w_http w) default_base_url ''POST'' path key (Some payload) params = Inr response)"

lemma credential_status_of_active: "credential_status_of s = Inr CRED_ACTIVE \<longleftrightarrow> s = ''active''"
  by (auto simp: credential_status_of_def)

lemma account_credential_row:
  assumes "wf_db d" "to_domain_account decrypt column d r = Inr a" "c \<in> set (a_credentials a)"
    "c_status c = CRED_ACTIVE"
  obtains row where "get_credential_record d (cr_id row) = Some row" "cr_account_id row = ar_id r"
    "cr_id row = c_id c" "cr_status row = ''active''" "decrypt (cr_api_key_encrypted row) = Inr (c_api_key c)"
proof -
  obtain row where row: "row \<in> set (account_credentials d (ar_id r))"
    "to_domain_credential decrypt column row = Inr c"
    using res_map_mem [OF to_domain_account_Inr(7) [OF assms(2)] assms(3)] by blast
  have "get_credential_record d (cr_id row) = Some row"
    using assms(1) row(1) by (simp add: get_credential_record_def wf_db_def row_get_distinct account_credentials_def)
  with row assms(4) that show ?thesis
    by (auto simp: to_domain_credential_def res_bind_eq_Inr account_credentials_def
        credential_status_of_active [symmetric])
qed

lemma send_selected_sent:
  assumes wf: "wf_db d"
    and sent: "send_selected w d endpoint path payload params = Inr (sel, response, used)"
  obtains r c where "sent_with w d path payload params r c response"
    "a_id (sel_account sel) = ar_id r" "c_id (sel_credential sel) = cr_id c"
    "estimate_credits endpoint payload None = Inr (sel_estimated_credits sel)"
    "estimate_credits endpoint payload (ur_json_body response) = Inr used"
    "sel_estimated_credits sel \<le> int_or (ar_remaining_credits_live r) 0"
proof -
  from sent obtain accs where l: "list_accounts (w_decrypt w) (w_column w) d = Inr accs"
    and s: "select_account accs endpoint payload None (w_clock w) = Inr sel"
    and h: "client_request (w_http w) default_base_url ''POST'' path (c_api_key (sel_credential sel))
       (Some payload) params = Inr response"
    and u: "estimate_credits endpoint payload (ur_json_body response) = Inr used"
    by (rule send_selected_Inr)
  note sel = select_sound [OF list_accounts_wf [OF l] s]
  obtain r where r: "r \<in> set (db_accounts d)" "to_domain_account (w_decrypt w) (w_column w) d r = Inr (sel_account sel)"
    using list_accounts_mem [OF l] sel by blast
  obtain c where c: "get_credential_record d (cr_id c) = Some c" "cr_account_id c = ar_id r"
    "cr_id c = c_id (sel_credential sel)" "cr_status c = ''active''"
    "w_decrypt w (cr_api_key_encrypted c) = Inr (c_api_key (sel_credential sel))"
    using account_credential_row [OF wf r(2)] sel by blast
  have "get_account_record d (ar_id r) = Some r"
    using wf r(1) by (simp add: get_account_record_def wf_db_def row_get_distinct)
  then have "sent_with w d path payload params r c response"
    using c h to_domain_account_Inr(2) [OF r(2)] sel
    by (auto simp: sent_with_def eligible_def account_status_of_active)
  from that [OF this] show ?thesis
    using c(3) u sel to_domain_account_Inr [OF r(2)] by (simp add: eligible_def)
qed

section \<open>Recording an outcome\<close>

text \<open>The state change of an outcome, without the log entry.\<close>

definition outcome_effect :: "world \<Rightarrow> db \<Rightarrow> string \<Rightarrow> string \<Rightarrow> upstream_response \<Rightarrow> int \<Rightarrow> bool \<Rightarrow> db" where
  "outcome_effect w d acc cred resp used settle =
     (if success_status (ur_status resp) \<and> settle then apply_success d acc used
      else if ur_status resp = 401
        then mark_credential_invalid d cred (error_message (ur_json_body resp) (ur_text_body resp)) (w_now w)
      else if ur_status resp = 402 then mark_account_credit_exhausted d acc
      else if ur_status resp = 429
        then (case cooldown_until (ur_headers resp) (w_now w) of
                Inr t \<Rightarrow> mark_account_rate_limited d acc t | Inl e \<Rightarrow> d)
      else d)"

lemma record_outcome_Inr:
  assumes "record_outcome w d acc cred e resp st est used settle = Inr d'"
  obtains l where "d' = outcome_effect w (record_request d l) acc cred resp used settle"
    "lr_account_id l = Some acc" "lr_credential_id l = Some cred" "lr_endpoint l = e" "lr_status l = st"
    "lr_estimated_credits_pre l = Some est" "lr_credits_used_final l = Some used"
    "lr_upstream_status_code l = Some (ur_status resp)"
proof -
  define l where "l = \<lparr>lr_id = 0, lr_account_id = Some acc, lr_credential_id = Some cred,
             lr_client_api_key_id = None, lr_endpoint = e,
             lr_upstream_job_id = upstream_job_id (ur_json_body resp),
             lr_requested_at = w_db_now w, lr_status = st,
             lr_upstream_status_code = Some (ur_status resp),
             lr_estimated_credits_pre = Some est, lr_credits_used_final = Some used,
             lr_latency_ms = Some (w_latency_ms w),
             lr_error_code = (if 400 \<le> ur_status resp then Some st else None),
             lr_error_message = error_message (ur_json_body resp) (ur_text_body resp)\<rparr>"
  have "d' = outcome_effect w (record_request d l) acc cred resp used settle"
    using assms unfolding record_outcome_def Let_def outcome_effect_def l_def [symmetric]
    by (auto simp: res_bind_eq_Inr split: if_splits)
  then show ?thesis by (rule that) (simp_all add: l_def)
qed

lemma outcome_effect_frames [frame_simps]:
  "db_jobs (outcome_effect w d acc cred resp used settle) = db_jobs d"
  "db_request_logs (outcome_effect w d acc cred resp used settle) = db_request_logs d"
  "k \<noteq> acc \<Longrightarrow> get_account_record (outcome_effect w d acc cred resp used settle) k = get_account_record d k"
  "k \<noteq> cred \<Longrightarrow> get_credential_record (outcome_effect w d acc cred resp used settle) k = get_credential_record d k"
  by (simp_all add: outcome_effect_def frame_simps get_apply_success get_mark_credit_exhausted
      get_mark_rate_limited get_mark_credential_invalid split: sum.split)

lemma outcome_effect_account:
  "get_account_record (outcome_effect w d acc cred resp used settle) acc = map_option
    (if success_status (ur_status resp) \<and> settle then charge used
     else if ur_status resp = 402 then (\<lambda>a. a\<lparr>ar_status := ''credit_exhausted''\<rparr>)
     else if ur_status resp = 429
       then (case cooldown_until (ur_headers resp) (w_now w) of
               Inr t \<Rightarrow> (\<lambda>a. a\<lparr>ar_status := ''rate_limited'', ar_cooldown_until := Some t\<rparr>)
             | Inl e \<Rightarrow> id)
     else id) (get_account_record d acc)"
  by (simp add: outcome_effect_def success_status_def frame_simps get_apply_success
      get_mark_credit_exhausted get_mark_rate_limited option.map_id split: sum.split)

lemma wf_outcome_effect [inv_intros]:
  "wf_db d \<Longrightarrow> wf_db (outcome_effect w d acc cred resp used settle)"
  by (simp add: outcome_effect_def wf_apply_success wf_mark_account wf_mark_credential_invalid
      split: sum.split)


lemma charge_active:
  "ar_status a = ''active'' \<Longrightarrow>
   charge n a = a\<lparr>ar_remaining_credits_live := map_option (\<lambda>r. max 0 (r - n)) (ar_remaining_credits_live a)\<rparr>"
  by (cases a) (simp add: charge_def Let_def split: option.split)

lemma proxy_Inr:
  assumes "proxy w d endpoint payload params = Inr (d', response)"
  obtains sel used l where
    "send_selected w d endpoint (''/v2/'' @ endpoint) payload params = Inr (sel, response, used)"
    "d' = outcome_effect w (record_request d l) (a_id (sel_account sel)) (c_id (sel_credential sel)) response used True"
    "lr_account_id l = Some (a_id (sel_account sel))" "lr_credential_id l = Some (c_id (sel_credential sel))"
    "lr_endpoint l = endpoint" "lr_status l = request_status (ur_status response)"
    "lr_estimated_credits_pre l = Some (sel_estimated_credits sel)" "lr_credits_used_final l = Some used"
    "lr_upstream_status_code l = Some (ur_status response)"
proof -
  from assms obtain sel used where s:
    "send_selected w d endpoint (''/v2/'' @ endpoint) payload params = Inr (sel, response, used)"
    "record_outcome w d (a_id (sel_account sel)) (c_id (sel_credential sel)) endpoint response
       (request_status (ur_status response)) (sel_estimated_credits sel) used True = Inr d'"
    by (auto simp: proxy_def res_bind_eq_Inr)
  from s(2) obtain l where
    "d' = outcome_effect w (record_request d l) (a_id (sel_account sel)) (c_id (sel_credential sel)) response used True"
    "lr_account_id l = Some (a_id (sel_account sel))" "lr_credential_id l = Some (c_id (sel_credential sel))"
    "lr_endpoint l = endpoint" "lr_status l = request_status (ur_status response)"
    "lr_estimated_credits_pre l = Some (sel_estimated_credits sel)" "lr_credits_used_final l = Some used"
    "lr_upstream_status_code l = Some (ur_status response)"
    by (rule record_outcome_Inr)
  with s(1) that show ?thesis by blast
qed

lemma submit_job_Inr:
  assumes "submit_job w d endpoint path payload params = Inr (d', response)"
  obtains sel used l where
    "send_selected w d endpoint path payload params = Inr (sel, response, used)"
    "lr_account_id l = Some (a_id (sel_account sel))" "lr_status l = request_status (ur_status response)"
    "d' = (let e = outcome_effect w (record_request d l) (a_id (sel_account sel)) (c_id (sel_credential sel)) response used False
           in case upstream_job_id (ur_json_body response) of
                Some job_id \<Rightarrow> if success_status (ur_status response)
                  then add_job_record e (new_job w sel endpoint job_id) else e
              | None \<Rightarrow> e)"
proof -
  from assms obtain sel used e where s:
    "send_selected w d endpoint path payload params = Inr (sel, response, used)"
    "record_outcome w d (a_id (sel_account sel)) (c_id (sel_credential sel)) endpoint response
       (request_status (ur_status response)) (sel_estimated_credits sel) used False = Inr e"
    "d' = (case upstream_job_id (ur_json_body response) of
                Some job_id \<Rightarrow> if success_status (ur_status response)
                  then add_job_record e (new_job w sel endpoint job_id) else e
              | None \<Rightarrow> e)"
    by (auto simp: submit_job_def res_bind_eq_Inr Let_def)
  from s(2) obtain l where l:
    "e = outcome_effect w (record_request d l) (a_id (sel_account sel)) (c_id (sel_credential sel)) response used False"
    "lr_account_id l = Some (a_id (sel_account sel))" "lr_status l = request_status (ur_status response)"
    by (rule record_outcome_Inr)
  show ?thesis by (rule that [OF s(1) l(2,3)]) (unfold s(3) l(1) Let_def, rule refl)
qed

lemma db_request_logs_record [simp]:
  "db_request_logs (record_request d l) = db_request_logs d @ [l\<lparr>lr_id := db_next_log_id d\<rparr>]"
  by (simp add: record_request_def)

section \<open>Requests\<close>

lemma request_status_success [simp]: "success_status s \<Longrightarrow> request_status s = ''success''"
  by (simp add: request_status_def)

text \<open>
  C1: a successful proxied request charges exactly the account whose key it was sent with. That
  account and the credential are active rows of the store, the account had at least the admission
  estimate left, its remaining credits drop by the credits the response reports (or the
  estimate), never below zero; no other account, no credential and no job changes, and exactly
  one log row is appended, naming that account and that cost.
\<close>

theorem proxy_success_charges:
  assumes wf: "wf_db d" and p: "proxy w d endpoint payload params = Inr (d', response)"
    and ok: "success_status (ur_status response)"
  shows "\<exists>r c used est l. sent_with w d (''/v2/'' @ endpoint) payload params r c response \<and>
    estimate_credits endpoint payload None = Inr est \<and> est \<le> int_or (ar_remaining_credits_live r) 0 \<and>
    estimate_credits endpoint payload (ur_json_body response) = Inr used \<and>
    get_account_record d' (ar_id r) = Some (r\<lparr>ar_remaining_credits_live :=
       map_option (\<lambda>n. max 0 (n - used)) (ar_remaining_credits_live r)\<rparr>) \<and>
    (\<forall>k. k \<noteq> ar_id r \<longrightarrow> get_account_record d' k = get_account_record d k) \<and>
    db_credentials d' = db_credentials d \<and> db_jobs d' = db_jobs d \<and>
    db_request_logs d' = db_request_logs d @ [l] \<and> lr_account_id l = Some (ar_id r) \<and>
    lr_credential_id l = Some (cr_id c) \<and> lr_status l = ''success'' \<and> lr_credits_used_final l = Some used"
proof -
  from p obtain sel used l where s:
    "send_selected w d endpoint (''/v2/'' @ endpoint) payload params = Inr (sel, response, used)"
    "d' = outcome_effect w (record_request d l) (a_id (sel_account sel)) (c_id (sel_credential sel)) response used True"
    "lr_account_id l = Some (a_id (sel_account sel))" "lr_credential_id l = Some (c_id (sel_credential sel))"
    "lr_endpoint l = endpoint" "lr_status l = request_status (ur_status response)"
    "lr_estimated_credits_pre l = Some (sel_estimated_credits sel)" "lr_credits_used_final l = Some used"
    "lr_upstream_status_code l = Some (ur_status response)" by (rule proxy_Inr)
  from wf s(1) obtain r c where rc: "sent_with w d (''/v2/'' @ endpoint) payload params r c response"
    "a_id (sel_account sel) = ar_id r" "c_id (sel_credential sel) = cr_id c"
    "estimate_credits endpoint payload None = Inr (sel_estimated_credits sel)"
    "estimate_credits endpoint payload (ur_json_body response) = Inr used"
    "sel_estimated_credits sel \<le> int_or (ar_remaining_credits_live r) 0" by (rule send_selected_sent)
  have eff: "d' = apply_success (record_request d l) (ar_id r) used"
    using s(2) ok rc(2) by (simp add: outcome_effect_def)
  have "get_account_record d' (ar_id r) = Some (charge used r)"
    using rc(1) by (simp add: eff get_apply_success frame_simps sent_with_def)
  moreover have "ar_status r = ''active''" using rc(1) by (simp add: sent_with_def)
  ultimately show ?thesis
    using rc s(3-) ok
    by (rule_tac exI [of _ r], rule_tac exI [of _ c], rule_tac exI [of _ used],
        rule_tac exI [of _ "sel_estimated_credits sel"], rule_tac exI [of _ "l\<lparr>lr_id := db_next_log_id d\<rparr>"])
      (simp add: eff charge_active get_apply_success frame_simps)
qed

text \<open>A store with one account of one credit, and a transport with a fixed answer.\<close>

definition sample_row :: account_record where
  "sample_row = \<lparr>ar_id = ''a'', ar_team_label = ''t'', ar_plan_type = ''standard'', ar_status = ''active'',
     ar_monthly_budget_credits = Some 1, ar_remaining_credits_live = Some 1, ar_plan_credits_live = Some 1,
     ar_rpm_limit = None, ar_billing_period_start = None, ar_billing_period_end = None,
     ar_queue_active_jobs = None, ar_queue_waiting_jobs = None, ar_queue_max_concurrency = None,
     ar_cooldown_until = None, ar_last_usage_refresh_at = None, ar_last_queue_refresh_at = None,
     ar_last_refresh_error_at = None, ar_last_refresh_error_message = None\<rparr>"

definition sample_key_row :: credential_record where
  "sample_key_row = \<lparr>cr_id = ''k1'', cr_account_id = ''a'', cr_name = None, cr_api_key_encrypted = ''fc-1'',
     cr_status = ''active'', cr_last_validated_at = None, cr_last_error_at = None, cr_last_error_message = None\<rparr>"

definition sample_db :: db where
  "sample_db = \<lparr>db_accounts = [sample_row], db_credentials = [sample_key_row], db_jobs = [],
     db_request_logs = [], db_next_job_id = 0, db_next_log_id = 0\<rparr>"

definition sample_answer :: "int \<Rightarrow> json \<Rightarrow> (string \<times> string) list \<Rightarrow> raw_response" where
  "sample_answer status j headers = \<lparr>rr_status = status,
     rr_headers = (''content-type'', ''application/json'') # headers, rr_json = Parsed j, rr_text = []\<rparr>"

definition sample_world :: "raw_response \<Rightarrow> world" where
  "sample_world answer = \<lparr>w_decrypt = Inr, w_column = id, w_http = (\<lambda>_. Inr answer), w_clock = Aware 0,
     w_now = Aware 0, w_db_now = Naive 0, w_latency_ms = 0\<rparr>"

lemma sample_db_wf: "wf_db sample_db"
  by (simp add: wf_db_def sample_db_def sample_row_def sample_key_row_def)

lemma sample_accounts:
  "list_accounts Inr id sample_db = Inr [(sample_account ''a'')\<lparr>a_team_label := ''t''\<rparr>]"
  by (simp add: list_accounts_def to_domain_account_def account_credentials_def to_domain_credential_def
      sample_db_def sample_row_def sample_key_row_def account_status_of_def credential_status_of_def
      int_or_def sample_account_def sample_credential_def)

lemma sample_select:
  assumes "estimate_credits e payload None = Inr 1" "e \<in> {''map'', ''crawl''}"
  shows "select_account [(sample_account ''a'')\<lparr>a_team_label := ''t''\<rparr>] e payload None (Aware 0) =
    Inr \<lparr>sel_account = (sample_account ''a'')\<lparr>a_team_label := ''t''\<rparr>, sel_credential = sample_credential,
         sel_estimated_credits = 1\<rparr>"
  using assms
  by (auto simp: select_account_def build_team_usage_def add_usage_def empty_usage_def consider_account_def
      active_credential_def rejection_reason_def in_cooldown_def score_account_def rpm_limit_def
      ENDPOINT_RPM_BY_PLAN_def concurrency_limit_def CONCURRENCY_BY_PLAN_def sample_account_def sample_credential_def)

lemma is_json_sample: "is_json_response ((''content-type'', ''application/json'') # hs)"
  by (simp add: is_json_response_def header_or_def lower_def lower_char_def startswith_def)

lemma sample_send:
  assumes "estimate_credits e payload None = Inr 1" "e \<in> {''map'', ''crawl''}"
    "estimate_credits e payload (Some ob) = Inr used"
  shows "send_selected (sample_world (sample_answer st (JObj ob) hs)) sample_db e path payload params =
    Inr (\<lparr>sel_account = (sample_account ''a'')\<lparr>a_team_label := ''t''\<rparr>, sel_credential = sample_credential,
          sel_estimated_credits = 1\<rparr>,
         \<lparr>ur_status = st, ur_headers = (''content-type'', ''application/json'') # hs, ur_json_body = Some ob,
          ur_text_body = None\<rparr>, used)"
  using sample_select [OF assms(1,2)] assms(3)
  by (simp add: send_selected_def sample_world_def sample_accounts lift_err_def client_request_def
      sample_answer_def is_json_sample)

lemma map_cost [simp]: "estimate_credits ''map'' [] j = Inr (case response_credits_used j of None \<Rightarrow> 1 | Some n \<Rightarrow> n)"
  by (simp add: estimate_credits_def split: option.split)

lemma sample_proxy:
  assumes "response_credits_used (Some ob) = Some n" "st \<noteq> 429"
  shows "\<exists>d'. proxy (sample_world (sample_answer st (JObj ob) [])) sample_db ''map'' [] None =
     Inr (d', \<lparr>ur_status = st, ur_headers = [(''content-type'', ''application/json'')],
        ur_json_body = Some ob, ur_text_body = None\<rparr>)"
  using assms
  by (simp add: proxy_def sample_send [where used = n] response_credits_used_def [of None] record_outcome_def
      Let_def lift_err_def)

lemma sample_credits: "response_credits_used (Some [(''creditsUsed'', JInt n)]) = Some n"
  by (simp add: response_credits_used_def jget_def)

theorem proxy_success_charges_witness:
  "\<exists>d' r. proxy (sample_world (sample_answer 200 (JObj [(''creditsUsed'', JInt 1)]) [])) sample_db ''map'' [] None =
     Inr (d', r) \<and> (\<exists>l. db_request_logs d' = [l] \<and> lr_credits_used_final l = Some 1)"
proof -
  obtain d' where p: "proxy (sample_world (sample_answer 200 (JObj [(''creditsUsed'', JInt 1)]) [])) sample_db ''map'' [] None =
     Inr (d', \<lparr>ur_status = 200, ur_headers = [(''content-type'', ''application/json'')],
        ur_json_body = Some [(''creditsUsed'', JInt 1)], ur_text_body = None\<rparr>)"
    using sample_proxy [OF sample_credits, of 200 1] by auto
  from proxy_success_charges [OF sample_db_wf p] have
    "\<exists>l. db_request_logs d' = [l] \<and> lr_credits_used_final l = Some 1"
    by (auto simp: success_status_def sample_db_def sample_credits)
  with p show ?thesis by blast
qed

text \<open>
  C2: an unsuccessful proxied request costs nothing. One log row is appended, and the only other
  changes are the verdicts: 401 invalidates the credential that was used, 402 marks its account as
  out of credits, 429 marks it as rate limited until the time the \<open>Retry-After\<close> header gives.
\<close>

theorem proxy_failure_effects:
  assumes wf: "wf_db d" and p: "proxy w d endpoint payload params = Inr (d', response)"
    and no: "\<not> success_status (ur_status response)"
  shows "\<exists>r c l. sent_with w d (''/v2/'' @ endpoint) payload params r c response \<and>
    db_jobs d' = db_jobs d \<and> db_request_logs d' = db_request_logs d @ [l] \<and>
    lr_status l = request_status (ur_status response) \<and> lr_account_id l = Some (ar_id r) \<and>
    (\<forall>k. k \<noteq> ar_id r \<longrightarrow> get_account_record d' k = get_account_record d k) \<and>
    (\<forall>k. k \<noteq> cr_id c \<longrightarrow> get_credential_record d' k = get_credential_record d k) \<and>
    get_credential_record d' (cr_id c) = Some (if ur_status response = 401
      then c\<lparr>cr_status := ''invalid'', cr_last_error_at := Some (w_now w),
             cr_last_error_message := error_message (ur_json_body response) (ur_text_body response)\<rparr>
      else c) \<and>
    get_account_record d' (ar_id r) = Some (if ur_status response = 402 then r\<lparr>ar_status := ''credit_exhausted''\<rparr>
      else if ur_status response = 429
      then r\<lparr>ar_status := ''rate_limited'',
             ar_cooldown_until := Some (projr (cooldown_until (ur_headers response) (w_now w)))\<rparr>
      else r)"
proof -
  from p obtain sel used where s:
    "send_selected w d endpoint (''/v2/'' @ endpoint) payload params = Inr (sel, response, used)"
    "record_outcome w d (a_id (sel_account sel)) (c_id (sel_credential sel)) endpoint response
       (request_status (ur_status response)) (sel_estimated_credits sel) used True = Inr d'"
    by (auto simp: proxy_def res_bind_eq_Inr)
  then have cool: "\<exists>t. cooldown_until (ur_headers response) (w_now w) = Inr t" if "ur_status response = 429"
    using that by (auto simp: record_outcome_def success_status_def Let_def res_bind_eq_Inr)
  from s(2) obtain l where l:
    "d' = outcome_effect w (record_request d l) (a_id (sel_account sel)) (c_id (sel_credential sel)) response used True"
    "lr_account_id l = Some (a_id (sel_account sel))" "lr_status l = request_status (ur_status response)"
    by (rule record_outcome_Inr)
  from wf s(1) obtain r c where rc: "sent_with w d (''/v2/'' @ endpoint) payload params r c response"
    "a_id (sel_account sel) = ar_id r" "c_id (sel_credential sel) = cr_id c" by (rule send_selected_sent)
  have rows: "get_account_record d (ar_id r) = Some r" "get_credential_record d (cr_id c) = Some c"
    using rc(1) by (simp_all add: sent_with_def)
  have "get_credential_record d' (cr_id c) = Some (if ur_status response = 401
      then c\<lparr>cr_status := ''invalid'', cr_last_error_at := Some (w_now w),
             cr_last_error_message := error_message (ur_json_body response) (ur_text_body response)\<rparr>
      else c)"
    using rows no by (simp add: l(1) rc outcome_effect_def get_mark_credential_invalid frame_simps split: sum.split)
  moreover have "get_account_record d' (ar_id r) = Some (if ur_status response = 402 then r\<lparr>ar_status := ''credit_exhausted''\<rparr>
      else if ur_status response = 429
      then r\<lparr>ar_status := ''rate_limited'',
             ar_cooldown_until := Some (projr (cooldown_until (ur_headers response) (w_now w)))\<rparr>
      else r)"
    using rows no cool by (auto simp: l(1) rc outcome_effect_account frame_simps split: sum.split)
  ultimately show ?thesis
    using rc l
    by (rule_tac exI [of _ r], rule_tac exI [of _ c], rule_tac exI [of _ "l\<lparr>lr_id := db_next_log_id d\<rparr>"])
      (simp add: frame_simps)
qed

theorem proxy_failure_effects_witness:
  "\<exists>d' r. proxy (sample_world (sample_answer 402 (JObj [(''creditsUsed'', JInt 1)]) [])) sample_db ''map'' [] None =
     Inr (d', r) \<and> get_account_record d' ''a'' = Some (sample_row\<lparr>ar_status := ''credit_exhausted''\<rparr>)"
proof -
  obtain d' where p: "proxy (sample_world (sample_answer 402 (JObj [(''creditsUsed'', JInt 1)]) [])) sample_db ''map'' [] None =
     Inr (d', \<lparr>ur_status = 402, ur_headers = [(''content-type'', ''application/json'')],
        ur_json_body = Some [(''creditsUsed'', JInt 1)], ur_text_body = None\<rparr>)"
    using sample_proxy [OF sample_credits, of 402 1] by auto
  from proxy_failure_effects [OF sample_db_wf p] obtain r where
    "get_account_record sample_db (ar_id r) = Some r"
    "get_account_record d' (ar_id r) = Some (r\<lparr>ar_status := ''credit_exhausted''\<rparr>)"
    by (auto simp: success_status_def sent_with_def)
  moreover from this(1) have "r = sample_row"
    by (auto simp: get_account_record_def sample_db_def row_get_def split: if_splits)
  ultimately have "get_account_record d' ''a'' = Some (sample_row\<lparr>ar_status := ''credit_exhausted''\<rparr>)"
    by (simp add: sample_row_def)
  with p show ?thesis by blast
qed

end
