(* ===== verification/ProxyJobs.thy ===== *)
theory ProxyJobs
  imports ProxyService
begin

text \<open>
  Sequences of requests to the proxy: the store invariant, jobs that are polled until they settle,
  accounts that are out of rotation, and requests whose outcome is lost. The definitions are those
  of \<open>ProxyService\<close>; here are the properties that need more than one request.
\<close>

section \<open>The store invariant\<close>

lemma get_job_record_Some:
  "get_job_record d endpoint jid = Inr (Some j) \<longleftrightarrow>
     filter (\<lambda>j. jr_endpoint j = endpoint \<and> jr_upstream_job_id j = Some jid) (db_jobs d) = [j]"
  by (auto simp: get_job_record_def split: list.splits)

lemma get_job_record_row:
  assumes "wf_db d" "get_job_record d endpoint jid = Inr (Some j)"
  shows "get_job_by_id d (jr_id j) = Some j"
proof -
  have "j \<in> set (db_jobs d)" using assms(2) unfolding get_job_record_Some
    by (metis filter_is_subset in_mono list.set_intros(1))
  then show ?thesis using assms(1) by (simp add: get_job_by_id_def wf_db_def row_get_distinct)
qed

lemma wf_apply_job_response:
  assumes "wf_db d" "get_job_by_id d (jr_id j) = Some j"
  shows "wf_db (apply_job_response w d j meth response)"
  using assms unfolding apply_job_response_def Let_def
  by (auto split: option.splits intro!: wf_put_job wf_settle_job_once)

lemma proxy_job_operation_Inr:
  assumes "proxy_job_operation w d endpoint path jid meth = Inr (d', r)"
  obtains (missing) "d' = d" "r = None"
  | (sent) j c key response where "get_job_record d endpoint jid = Inr (Some j)"
      "job_credential d j = Some c" "w_decrypt w (cr_api_key_encrypted c) = Inr key"
      "client_request (w_http w) default_base_url meth path key None None = Inr response"
      "d' = apply_job_response w d j meth response" "r = Some response"
proof -
  from assms obtain found where f: "get_job_record d endpoint jid = Inr found"
    by (auto simp: proxy_job_operation_def res_bind_eq_Inr)
  show thesis
  proof (cases "\<exists>j c. found = Some j \<and> job_credential d j = Some c")
    case True
    with assms f sent show ?thesis by (auto simp: proxy_job_operation_def res_bind_eq_Inr)
  next
    case False
    with assms f missing show ?thesis
      by (auto simp: proxy_job_operation_def split: option.splits)
  qed
qed

lemma wf_proxy:
  assumes "wf_db d" "proxy w d endpoint payload params = Inr (d', response)"
  shows "wf_db d'"
  using assms(2) by (rule proxy_Inr) (simp add: assms(1) wf_outcome_effect wf_record_request)

lemma wf_submit_job:
  assumes "wf_db d" "submit_job w d endpoint path payload params = Inr (d', response)"
  shows "wf_db d'"
  using assms(2)
  by (rule submit_job_Inr)
    (simp add: assms(1) wf_outcome_effect wf_record_request wf_add_job Let_def split: option.split)

lemma wf_job_operation:
  assumes "wf_db d" "proxy_job_operation w d endpoint path jid meth = Inr (d', r)"
  shows "wf_db d'"
  using assms(2)
proof (cases rule: proxy_job_operation_Inr)
  case (sent j c key response)
  with assms(1) show ?thesis by (simp add: wf_apply_job_response get_job_record_row)
qed (simp add: assms(1))

lemma wf_service_reply:
  assumes "wf_db d" "\<And>d' u. r = Inr (d', u) \<Longrightarrow> wf_db d'"
  shows "wf_db (fst (service_reply d r))"
  using assms by (auto simp: service_reply_def split: sum.split select_error.split)

lemma wf_proxy_firecrawl_request: "wf_db d \<Longrightarrow> wf_db (fst (proxy_firecrawl_request w d e body q))"
  using wf_service_reply [OF _ wf_proxy]
  by (simp add: proxy_firecrawl_request_def split: sum.split json.split)

lemma wf_submit_firecrawl_job: "wf_db d \<Longrightarrow> wf_db (fst (submit_firecrawl_job w d e p body q))"
  using wf_service_reply [OF _ wf_submit_job]
  by (simp add: submit_firecrawl_job_def split: sum.split json.split)

lemma wf_proxy_firecrawl_job_operation:
  "wf_db d \<Longrightarrow> wf_db (fst (proxy_firecrawl_job_operation w d e p j m))"
  by (auto simp: proxy_firecrawl_job_operation_def split: sum.split option.split dest: wf_job_operation)

lemma wf_handle_route: "wf_db d \<Longrightarrow> wf_db (fst (handle_route w d route body q))"
  by (cases route)
    (simp_all add: wf_proxy_firecrawl_request wf_submit_firecrawl_job wf_proxy_firecrawl_job_operation)

text \<open>A run of the proxy: requests in the order they are served, each with its own outside world.\<close>

type_synonym request = "world \<times> proxy_route \<times> json res \<times> (string \<times> string) list"

fun serve :: "db \<Rightarrow> request list \<Rightarrow> db" where
  "serve d [] = d"
| "serve d ((w, route, body, q) # rs) = serve (fst (handle_route w d route body q)) rs"

text \<open>
  whatever requests the proxy serves, and whatever the upstream answers, the store stays
  well formed: keys stay unique, credentials keep pointing to existing accounts, and new jobs and
  log rows get fresh keys.
\<close>

lemma serve_keeps_store_wf:
  assumes "wf_db d"
  shows "wf_db (serve d requests)"
  using assms
  by (induction d requests rule: serve.induct) (simp_all add: wf_handle_route)

lemma serve_keeps_store_wf_example:
  "wf_db (serve sample_db [(sample_world (sample_answer 200 JNull []), SubmitCrawl, Inr (JObj []), [])])"
  by (rule serve_keeps_store_wf [OF sample_db_wf])

section \<open>Jobs\<close>

lemma filter_row_put:
  assumes "distinct (map key rows)" "filter P rows = [r]" "key r' = key r" "P r'"
  shows "filter P (row_put key rows r') = [r']"
  using assms
proof (induction rows)
  case (Cons a rows)
  show ?case
  proof (cases "P a")
    case True
    with Cons.prems have "a = r" "filter P rows = []" by auto
    moreover have "row_put key rows r' = rows"
      using Cons.prems \<open>a = r\<close> unfolding row_put_def by (intro map_idI) (auto simp: image_iff)
    ultimately show ?thesis using Cons.prems by (simp add: row_put_def)
  next
    case False
    then have f: "filter P rows = [r]" using Cons.prems by simp
    then have "r \<in> set rows" by (metis filter_is_subset in_mono list.set_intros(1))
    then have "key a \<noteq> key r" using Cons.prems(1) by auto
    with Cons.IH f Cons.prems False show ?thesis by (simp add: row_put_def)
  qed
qed simp

lemma get_job_record_put:
  assumes "wf_db d" "get_job_record d e jid = Inr (Some j)"
    "jr_id j' = jr_id j" "jr_endpoint j' = jr_endpoint j" "jr_upstream_job_id j' = jr_upstream_job_id j"
  shows "get_job_record (put_job d j') e jid = Inr (Some j')"
proof -
  have f: "filter (\<lambda>j. jr_endpoint j = e \<and> jr_upstream_job_id j = Some jid) (db_jobs d) = [j]"
    using assms(2) by (simp add: get_job_record_Some)
  then have "jr_endpoint j = e \<and> jr_upstream_job_id j = Some jid"
    by (metis (mono_tags, lifting) filter_eq_ConsD)
  with f assms show ?thesis
    unfolding get_job_record_Some put_job_def
    by (simp add: filter_row_put wf_db_def)
qed

lemma get_job_record_cong: "db_jobs d = db_jobs d' \<Longrightarrow> get_job_record d = get_job_record d'"
  by (simp add: get_job_record_def fun_eq_iff)

lemma apply_success_cong:
  "db_accounts d = db_accounts d' \<Longrightarrow> db_accounts (apply_success d k n) = db_accounts (apply_success d' k n)"
  by (auto simp: apply_success_def modify_def put_account_def get_account_record_def split: option.split)

text \<open>
  The contract of a job operation: the job keeps its identity, owner and key; its final cost is
  either left alone, and then no account changes, or fixed for the first time, and then exactly
  the owning account is charged with it.
\<close>

definition same_job :: "job_record \<Rightarrow> job_record \<Rightarrow> bool" where
  "same_job j j' \<longleftrightarrow> jr_id j' = jr_id j \<and> jr_endpoint j' = jr_endpoint j \<and>
     jr_upstream_job_id j' = jr_upstream_job_id j \<and> jr_account_id j' = jr_account_id j \<and>
     jr_credential_id j' = jr_credential_id j"

definition settles_at_most_once :: "db \<Rightarrow> job_record \<Rightarrow> db \<Rightarrow> job_record \<Rightarrow> bool" where
  "settles_at_most_once d j d' j' \<longleftrightarrow> same_job j j' \<and>
     (if jr_credits_used_final j' = jr_credits_used_final j then db_accounts d' = db_accounts d
      else jr_credits_used_final j = None \<and>
        (case jr_account_id j of
           None \<Rightarrow> db_accounts d' = db_accounts d
         | Some a \<Rightarrow> db_accounts d' = db_accounts (apply_success d a (the (jr_credits_used_final j')))))"

lemma put_job_contract:
  assumes "wf_db d" "get_job_record d e jid = Inr (Some j)" "same_job j j'"
    "jr_credits_used_final j' = jr_credits_used_final j"
  shows "get_job_record (put_job d j') e jid = Inr (Some j') \<and> settles_at_most_once d j (put_job d j') j'"
  using assms by (simp add: get_job_record_put same_job_def settles_at_most_once_def frame_simps)

lemma settle_contract:
  assumes "wf_db d" "get_job_record d e jid = Inr (Some j0)" "same_job j0 j"
    "jr_credits_used_final j = jr_credits_used_final j0"
  shows "\<exists>j'. get_job_record (settle_job_once d j s n t) e jid = Inr (Some j') \<and>
    settles_at_most_once d j0 (settle_job_once d j s n t) j'"
proof (cases "jr_credits_used_final j0")
  case None
  let ?j = "j\<lparr>jr_status := s, jr_completed_at := Some t, jr_last_polled_at := Some t, jr_credits_used_final := Some n\<rparr>"
  have g: "get_job_record (put_job d ?j) e jid = Inr (Some ?j)"
    using assms by (simp add: get_job_record_put same_job_def)
  have "get_job_record (settle_job_once d j s n t) = get_job_record (put_job d ?j)"
    using None assms(4)
    by (auto simp: settle_job_once_def Let_def frame_simps split: option.split intro!: get_job_record_cong)
  moreover have "settles_at_most_once d j0 (settle_job_once d j s n t) ?j"
    using None assms(3,4) apply_success_cong [of "put_job d ?j" d]
    by (auto simp: settles_at_most_once_def settle_job_once_def Let_def same_job_def frame_simps split: option.split)
  ultimately show ?thesis using g by auto
next
  case (Some m)
  let ?j = "j\<lparr>jr_status := s, jr_completed_at := Some t, jr_last_polled_at := Some t\<rparr>"
  have "settle_job_once d j s n t = put_job d ?j" using Some assms(4) by (simp add: settle_job_once_def Let_def)
  then show ?thesis using put_job_contract [OF assms(1,2), of ?j] assms(3,4) by (auto simp: same_job_def)
qed

lemma apply_job_response_contract:
  assumes "wf_db d" "get_job_record d e jid = Inr (Some j)"
  shows "\<exists>j'. get_job_record (apply_job_response w d j meth response) e jid = Inr (Some j') \<and>
    settles_at_most_once d j (apply_job_response w d j meth response) j'"
proof -
  have put: "\<exists>j''. get_job_record (put_job d j') e jid = Inr (Some j'') \<and> settles_at_most_once d j (put_job d j') j''"
    if "same_job j j'" "jr_credits_used_final j' = jr_credits_used_final j" for j'
    using put_job_contract [OF assms that] by blast
  have refl: "settles_at_most_once d j d j" by (simp add: settles_at_most_once_def same_job_def)
  show ?thesis
    unfolding apply_job_response_def Let_def
    using assms(2) refl
    by (auto split: option.split intro!: put settle_contract [OF assms] simp: same_job_def)
qed

lemma job_operation_contract:
  assumes "wf_db d" "get_job_record d e jid = Inr (Some j)"
    "proxy_job_operation w d e path jid meth = Inr (d', r)"
  shows "\<exists>j'. get_job_record d' e jid = Inr (Some j') \<and> settles_at_most_once d j d' j'"
  using assms(3)
proof (cases rule: proxy_job_operation_Inr)
  case missing
  with assms show ?thesis by (auto simp: settles_at_most_once_def same_job_def)
next
  case (sent j' c key response)
  with assms show ?thesis using apply_job_response_contract [OF assms(1,2)] by auto
qed

text \<open>Operations on one job, in order; one that raises leaves the store as it was.\<close>

fun run_job_ops :: "db \<Rightarrow> string \<Rightarrow> string \<Rightarrow> (world \<times> string \<times> string) list \<Rightarrow> db" where
  "run_job_ops d e jid [] = d"
| "run_job_ops d e jid ((w, path, meth) # ops) =
     run_job_ops (case proxy_job_operation w d e path jid meth of Inl _ \<Rightarrow> d | Inr (d', _) \<Rightarrow> d') e jid ops"

lemma settles_trans:
  assumes "settles_at_most_once d j d1 j1" "settles_at_most_once d1 j1 d2 j2"
  shows "settles_at_most_once d j d2 j2"
  using assms apply_success_cong [of d1 d]
  by (auto simp: settles_at_most_once_def same_job_def split: if_splits option.splits)

lemma run_job_ops_contract:
  assumes "wf_db d" "get_job_record d e jid = Inr (Some j)"
  shows "\<exists>j'. get_job_record (run_job_ops d e jid ops) e jid = Inr (Some j') \<and>
    settles_at_most_once d j (run_job_ops d e jid ops) j'"
  using assms
proof (induction d e jid ops arbitrary: j rule: run_job_ops.induct)
  case (1 d e jid)
  then show ?case by (auto simp: settles_at_most_once_def same_job_def)
next
  case (2 d e jid w path meth ops)
  show ?case
  proof (cases "proxy_job_operation w d e path jid meth")
    case (Inl x)
    with 2 show ?thesis by simp
  next
    case (Inr b)
    then obtain d' r where p: "proxy_job_operation w d e path jid meth = Inr (d', r)" by (cases b) auto
    obtain j1 where j1: "get_job_record d' e jid = Inr (Some j1)" "settles_at_most_once d j d' j1"
      using job_operation_contract [OF "2.prems" p] by blast
    have "wf_db d'" using wf_job_operation [OF "2.prems"(1) p] .
    from "2.IH" [of j1] this j1(1) p obtain j2 where
      "get_job_record (run_job_ops d' e jid ops) e jid = Inr (Some j2)"
      "settles_at_most_once d' j1 (run_job_ops d' e jid ops) j2" by auto
    with settles_trans [OF j1(2)] p show ?thesis by auto
  qed
qed


definition sample_job :: job_record where
  "sample_job = \<lparr>jr_id = 0, jr_account_id = Some ''a'', jr_credential_id = Some ''k1'', jr_endpoint = ''crawl'',
     jr_upstream_job_id = Some ''j'', jr_status = ''submitted'', jr_estimated_credits_reserved = Some 1,
     jr_credits_used_final = None, jr_created_at = Naive 0, jr_completed_at = None,
     jr_last_polled_at = None, jr_next_url = None\<rparr>"

definition sample_job_db :: db where
  "sample_job_db = sample_db\<lparr>db_jobs := [sample_job], db_next_job_id := 1\<rparr>"

definition sample_poll :: "world \<times> string \<times> string" where
  "sample_poll = (sample_world (sample_answer 200
     (JObj [(''status'', JStr ''completed''), (''creditsUsed'', JInt 1)]) []), ''/v2/crawl/j'', ''GET'')"

lemma sample_job_db_wf: "wf_db sample_job_db"
  by (simp add: wf_db_def sample_job_db_def sample_db_def sample_row_def sample_key_row_def sample_job_def)

lemma sample_job_found: "get_job_record sample_job_db ''crawl'' ''j'' = Inr (Some sample_job)"
  by (simp add: get_job_record_def sample_job_db_def sample_job_def)



lemma sample_submit:
  "\<exists>d'. submit_job (sample_world (sample_answer 200 (JObj [(''id'', JStr ''j'')]) [])) sample_db ''crawl'' ''/v2/crawl'' [] None =
     Inr (d', \<lparr>ur_status = 200, ur_headers = [(''content-type'', ''application/json'')],
        ur_json_body = Some [(''id'', JStr ''j'')], ur_text_body = None\<rparr>)"
proof -
  have c: "estimate_credits ''crawl'' [] None = Inr 1" "estimate_credits ''crawl'' [] (Some [(''id'', JStr ''j'')]) = Inr 1"
    by (simp_all add: estimate_credits_def response_credits_used_def jget_def)
  show ?thesis
    using sample_send [OF c(1) _ c(2)]
    by (simp add: submit_job_def record_outcome_def Let_def lift_err_def success_status_def)
qed


section \<open>Accounts out of rotation\<close>

definition polls :: "proxy_route \<Rightarrow> bool" where
  "polls route = (case route of GetCrawl _ \<Rightarrow> True | GetBatchScrape _ \<Rightarrow> True | _ \<Rightarrow> False)"

definition logged_for :: "db \<Rightarrow> string \<Rightarrow> request_log_record list" where
  "logged_for d k = filter (\<lambda>l. lr_account_id l = Some k) (db_request_logs d)"

text \<open>What a step keeps of an account: its row, and the requests logged for it.\<close>

definition untouched :: "string \<Rightarrow> db \<Rightarrow> db \<Rightarrow> bool" where
  "untouched k d d' \<longleftrightarrow> get_account_record d' k = get_account_record d k \<and> logged_for d' k = logged_for d k"

lemma send_selected_other:
  assumes "wf_db d" "send_selected w d endpoint path payload params = Inr (sel, response, used)"
    "get_account_record d k = Some r" "ar_status r \<noteq> ''active''"
  shows "a_id (sel_account sel) \<noteq> k"
  using assms by (auto elim!: send_selected_sent simp: sent_with_def)

lemma untouched_proxy:
  assumes "wf_db d" "proxy w d endpoint payload params = Inr (d', response)"
    "get_account_record d k = Some r" "ar_status r \<noteq> ''active''"
  shows "untouched k d d'"
  using assms(2)
proof (rule proxy_Inr)
  fix sel used l
  assume "send_selected w d endpoint (''/v2/'' @ endpoint) payload params = Inr (sel, response, used)"
    and d': "d' = outcome_effect w (record_request d l) (a_id (sel_account sel)) (c_id (sel_credential sel)) response used True"
    and l: "lr_account_id l = Some (a_id (sel_account sel))"
  with send_selected_other assms have "a_id (sel_account sel) \<noteq> k" by blast
  then show ?thesis by (simp add: d' l untouched_def logged_for_def frame_simps)
qed

lemma untouched_submit_job:
  assumes "wf_db d" "submit_job w d endpoint path payload params = Inr (d', response)"
    "get_account_record d k = Some r" "ar_status r \<noteq> ''active''"
  shows "untouched k d d'"
  using assms(2)
proof (rule submit_job_Inr)
  fix sel used l
  assume "send_selected w d endpoint path payload params = Inr (sel, response, used)"
    and l: "lr_account_id l = Some (a_id (sel_account sel))"
    and d': "d' = (let e = outcome_effect w (record_request d l) (a_id (sel_account sel)) (c_id (sel_credential sel)) response used False
           in case upstream_job_id (ur_json_body response) of
                Some job_id \<Rightarrow> if success_status (ur_status response)
                  then add_job_record e (new_job w sel endpoint job_id) else e
              | None \<Rightarrow> e)"
  with send_selected_other assms have "a_id (sel_account sel) \<noteq> k" by blast
  then show ?thesis by (simp add: d' l untouched_def logged_for_def frame_simps Let_def split: option.split)
qed

lemma untouched_cancel:
  assumes "proxy_job_operation w d e path jid ''DELETE'' = Inr (d', r)"
  shows "untouched k d d'"
  using assms
proof (cases rule: proxy_job_operation_Inr)
  case (sent j c key response)
  then show ?thesis by (simp add: apply_job_response_def untouched_def logged_for_def frame_simps)
qed (simp add: untouched_def)

lemma untouched_reply:
  assumes "\<And>d' u. r = Inr (d', u) \<Longrightarrow> untouched k d d'"
  shows "untouched k d (fst (service_reply d r))"
  using assms by (auto simp: service_reply_def untouched_def split: sum.split select_error.split)

lemma untouched_handle_route:
  assumes "wf_db d" "get_account_record d k = Some r" "ar_status r \<noteq> ''active''" "\<not> polls route"
  shows "untouched k d (fst (handle_route w d route body q))"
proof -
  have p: "untouched k d (fst (proxy_firecrawl_request w d e body q))" for e
    using untouched_reply [OF untouched_proxy [OF assms(1) _ assms(2,3)]]
    by (auto simp: proxy_firecrawl_request_def untouched_def split: sum.split json.split)
  have s: "untouched k d (fst (submit_firecrawl_job w d e path body q))" for e path
    using untouched_reply [OF untouched_submit_job [OF assms(1) _ assms(2,3)]]
    by (auto simp: submit_firecrawl_job_def untouched_def split: sum.split json.split)
  have c: "untouched k d (fst (proxy_firecrawl_job_operation w d e path jid ''DELETE''))" for e path jid
    using untouched_cancel
    by (fastforce simp: proxy_firecrawl_job_operation_def untouched_def split: sum.split option.split)
  show ?thesis using assms(4) by (cases route) (simp_all add: p s c polls_def)
qed



section \<open>Outcomes\<close>

lemma estimate_with_response:
  assumes "estimate_credits endpoint payload None = Inr est"
  shows "\<exists>used. estimate_credits endpoint payload j = Inr used"
proof (cases "response_credits_used j")
  case None
  have "response_credits_used None = None" by (simp add: response_credits_used_def)
  with None assms show ?thesis by (auto simp: estimate_credits_def)
qed (simp add: estimate_credits_def)

lemma dt_add_seconds_error: "dt_add_seconds t n = Inl e \<Longrightarrow> e = OverflowError"
  by (cases t) (auto simp: Let_def split: if_splits)

lemma cooldown_until_error: "cooldown_until hs t = Inl e \<Longrightarrow> e = OverflowError"
  by (auto simp: cooldown_until_def dest: dt_add_seconds_error split: option.splits sum.splits)



section \<open>Admission\<close>

lemma rpm_limit_pos: "0 < rpm_limit a e"
  by (auto simp: rpm_limit_def ENDPOINT_RPM_BY_PLAN_def DEFAULT_RPM_LIMIT_def dict_get_def split: option.split)

lemma list_accounts_labels:
  assumes "list_accounts decrypt column d = Inr accs"
  shows "map a_team_label accs = map ar_team_label (sort_key ar_id (db_accounts d))"
  using assms unfolding list_accounts_def res_map_Inr_iff
  by (induction rule: list_all2_induct) (simp_all add: to_domain_account_Inr(5))

lemma filter_key_distinct:
  "distinct (map f xs) \<Longrightarrow> x \<in> set xs \<Longrightarrow> filter (\<lambda>y. f y = f x) xs = [x]"
proof (induction xs)
  case (Cons a xs)
  show ?case
  proof (cases "x = a")
    case True
    with Cons.prems have "filter (\<lambda>y. f y = f x) xs = []" by (auto simp: filter_empty_conv image_iff)
    with True show ?thesis by simp
  next
    case False
    with Cons show ?thesis by (auto simp: image_iff)
  qed
qed simp



end
