(* ===== verification/Admin.thy ===== *)
theory Admin
  imports ProxyJobs
begin

text \<open>
  The administration of accounts and credentials: the request and response models of
  \<open>src/app/modules/firecrawl/schemas.py\<close> with their declared constraints, the service
  \<open>src/app/modules/firecrawl/admin_service.py\<close> and the admin routes of
  \<open>src/app/modules/firecrawl/api.py\<close>. The result of the admin check
  (\<open>require_firecrawl_admin\<close>) is an argument of the routes; it is modelled with the dashboard.
\<close>

section \<open>Schemas\<close>

definition ACCOUNT_STATUS_PATTERN :: "string \<Rightarrow> bool" where
  "ACCOUNT_STATUS_PATTERN s = (s \<in> {''active'', ''rate_limited'', ''credit_exhausted'', ''paused'', ''invalid''})"

definition CREDENTIAL_STATUS_PATTERN :: "string \<Rightarrow> bool" where
  "CREDENTIAL_STATUS_PATTERN s = (s \<in> {''active'', ''paused'', ''invalid''})"

definition JOB_ENDPOINT_PATTERN :: "string \<Rightarrow> bool" where
  "JOB_ENDPOINT_PATTERN s = (s \<in> {''crawl'', ''batch_scrape''})"

definition REQUEST_LOG_ENDPOINT_PATTERN :: "string \<Rightarrow> bool" where
  "REQUEST_LOG_ENDPOINT_PATTERN s = (s \<in> {''scrape'', ''map'', ''search''})"

record credential_response =
  crs_id :: string
  crs_name :: "string option"
  crs_status :: string

record account_response =
  ars_id :: string
  ars_team_label :: string
  ars_plan_type :: string
  ars_status :: string
  ars_monthly_budget_credits :: "int option"
  ars_remaining_credits_live :: "int option"
  ars_plan_credits_live :: "int option"
  ars_rpm_limit :: "int option"
  ars_max_concurrency :: "int option"
  ars_cooldown_until :: "py_datetime option"
  ars_credentials :: "credential_response list"

record job_response =
  jrs_id :: nat
  jrs_account_id :: "string option"
  jrs_credential_id :: "string option"
  jrs_endpoint :: string
  jrs_upstream_job_id :: "string option"
  jrs_status :: string
  jrs_estimated_credits_reserved :: "int option"
  jrs_credits_used_final :: "int option"
  jrs_created_at :: py_datetime
  jrs_completed_at :: "py_datetime option"
  jrs_last_polled_at :: "py_datetime option"

record request_log_response =
  lrs_id :: nat
  lrs_account_id :: "string option"
  lrs_credential_id :: "string option"
  lrs_endpoint :: string
  lrs_upstream_job_id :: "string option"
  lrs_status :: string
  lrs_upstream_status_code :: "int option"
  lrs_estimated_credits_pre :: "int option"
  lrs_credits_used_final :: "int option"
  lrs_latency_ms :: "int option"
  lrs_error_code :: "string option"
  lrs_error_message :: "string option"
  lrs_created_at :: py_datetime

record accounts_by_status_response =
  abs_active :: nat
  abs_rate_limited :: nat
  abs_credit_exhausted :: nat
  abs_paused :: nat

record recent_requests_response =
  rq_total :: nat
  rq_success :: nat
  rq_error :: nat

record endpoint_breakdown_response =
  eb_scrape :: nat
  eb_map :: nat
  eb_search :: nat
  eb_crawl :: nat
  eb_batch_scrape :: nat

record overview_response =
  ov_total_accounts :: nat
  ov_active_accounts :: nat
  ov_total_remaining_credits :: int
  ov_total_budget_credits :: int
  ov_accounts_by_status :: accounts_by_status_response
  ov_active_jobs :: nat
  ov_recent_requests :: recent_requests_response
  ov_endpoint_breakdown :: endpoint_breakdown_response

record account_create_request =
  acr_id :: string
  acr_team_label :: string
  acr_plan_type :: string
  acr_monthly_budget_credits :: "int option"
  acr_remaining_credits_live :: "int option"
  acr_plan_credits_live :: "int option"
  acr_rpm_limit :: "int option"
  acr_max_concurrency :: "int option"

text \<open>A field of an update is unset (\<open>None\<close>), set to \<open>null\<close> (\<open>Some None\<close>) or set to a value.\<close>

record account_update_request =
  aur_status :: "string option option"
  aur_monthly_budget_credits :: "int option option"
  aur_remaining_credits_live :: "int option option"
  aur_plan_credits_live :: "int option option"
  aur_rpm_limit :: "int option option"
  aur_max_concurrency :: "int option option"
  aur_cooldown_until :: "py_datetime option option"

record credential_create_request =
  ccr_id :: string
  ccr_name :: "string option"
  ccr_api_key :: string
  ccr_status :: string

record credential_update_request =
  cur_status :: string

definition at_least :: "int \<Rightarrow> int option \<Rightarrow> bool" where
  "at_least n x = (case x of None \<Rightarrow> True | Some v \<Rightarrow> n \<le> v)"

definition field_ok :: "('a option \<Rightarrow> bool) \<Rightarrow> 'a option option \<Rightarrow> bool" where
  "field_ok P x = (case x of None \<Rightarrow> True | Some v \<Rightarrow> P v)"

definition valid_account_create :: "account_create_request \<Rightarrow> bool" where
  "valid_account_create p \<longleftrightarrow> acr_id p \<noteq> [] \<and> acr_team_label p \<noteq> [] \<and> acr_plan_type p \<noteq> [] \<and>
     at_least 0 (acr_monthly_budget_credits p) \<and> at_least 0 (acr_remaining_credits_live p) \<and>
     at_least 0 (acr_plan_credits_live p) \<and> at_least 1 (acr_rpm_limit p) \<and> at_least 1 (acr_max_concurrency p)"

definition valid_account_update :: "account_update_request \<Rightarrow> bool" where
  "valid_account_update p \<longleftrightarrow>
     field_ok (\<lambda>s. case s of None \<Rightarrow> True | Some v \<Rightarrow> ACCOUNT_STATUS_PATTERN v) (aur_status p) \<and>
     field_ok (at_least 0) (aur_monthly_budget_credits p) \<and> field_ok (at_least 0) (aur_remaining_credits_live p) \<and>
     field_ok (at_least 0) (aur_plan_credits_live p) \<and> field_ok (at_least 1) (aur_rpm_limit p) \<and>
     field_ok (at_least 1) (aur_max_concurrency p)"

definition valid_credential_create :: "credential_create_request \<Rightarrow> bool" where
  "valid_credential_create p \<longleftrightarrow> ccr_id p \<noteq> [] \<and> ccr_name p \<noteq> Some [] \<and> ccr_api_key p \<noteq> [] \<and>
     CREDENTIAL_STATUS_PATTERN (ccr_status p)"

definition valid_credential_update :: "credential_update_request \<Rightarrow> bool" where
  "valid_credential_update p \<longleftrightarrow> CREDENTIAL_STATUS_PATTERN (cur_status p)"

section \<open>Responses\<close>

definition credential_response_of :: "credential_record \<Rightarrow> credential_response res" where
  "credential_response_of c =
     (if CREDENTIAL_STATUS_PATTERN (cr_status c)
      then Inr \<lparr>crs_id = cr_id c, crs_name = cr_name c, crs_status = cr_status c\<rparr> else Inl ValidationError)"

definition account_response_of :: "account_record \<Rightarrow> credential_record list \<Rightarrow> account_response res" where
  "account_response_of a credentials =
     res_bind (res_map credential_response_of credentials) (\<lambda>cs.
       if ACCOUNT_STATUS_PATTERN (ar_status a)
       then Inr \<lparr>ars_id = ar_id a, ars_team_label = ar_team_label a, ars_plan_type = ar_plan_type a,
                 ars_status = ar_status a, ars_monthly_budget_credits = ar_monthly_budget_credits a,
                 ars_remaining_credits_live = ar_remaining_credits_live a,
                 ars_plan_credits_live = ar_plan_credits_live a, ars_rpm_limit = ar_rpm_limit a,
                 ars_max_concurrency = ar_queue_max_concurrency a, ars_cooldown_until = ar_cooldown_until a,
                 ars_credentials = cs\<rparr>
       else Inl ValidationError)"

definition job_response_of :: "job_record \<Rightarrow> job_response res" where
  "job_response_of j =
     (if JOB_ENDPOINT_PATTERN (jr_endpoint j)
      then Inr \<lparr>jrs_id = jr_id j, jrs_account_id = jr_account_id j, jrs_credential_id = jr_credential_id j,
                jrs_endpoint = jr_endpoint j, jrs_upstream_job_id = jr_upstream_job_id j,
                jrs_status = jr_status j, jrs_estimated_credits_reserved = jr_estimated_credits_reserved j,
                jrs_credits_used_final = jr_credits_used_final j, jrs_created_at = jr_created_at j,
                jrs_completed_at = jr_completed_at j, jrs_last_polled_at = jr_last_polled_at j\<rparr>
      else Inl ValidationError)"

definition request_log_response_of :: "request_log_record \<Rightarrow> request_log_response res" where
  "request_log_response_of l =
     (if REQUEST_LOG_ENDPOINT_PATTERN (lr_endpoint l)
      then Inr \<lparr>lrs_id = lr_id l, lrs_account_id = lr_account_id l, lrs_credential_id = lr_credential_id l,
                lrs_endpoint = lr_endpoint l, lrs_upstream_job_id = lr_upstream_job_id l,
                lrs_status = lr_status l, lrs_upstream_status_code = lr_upstream_status_code l,
                lrs_estimated_credits_pre = lr_estimated_credits_pre l,
                lrs_credits_used_final = lr_credits_used_final l, lrs_latency_ms = lr_latency_ms l,
                lrs_error_code = lr_error_code l, lrs_error_message = lr_error_message l,
                lrs_created_at = lr_requested_at l\<rparr>
      else Inl ValidationError)"

section \<open>The service\<close>

datatype admin_error =
    FirecrawlAccountNotFoundError | FirecrawlCredentialNotFoundError
  | FirecrawlAccountConflictError | FirecrawlCredentialConflictError
  | AdminRaised pyexc

definition lift_admin :: "'a res \<Rightarrow> admin_error + 'a" where
  "lift_admin r = (case r of Inl e \<Rightarrow> Inl (AdminRaised e) | Inr x \<Rightarrow> Inr x)"

definition list_account_responses :: "db \<Rightarrow> account_response list res" where
  "list_account_responses d =
     res_map (\<lambda>a. account_response_of a (account_credentials d (ar_id a))) (list_account_records d)"

definition list_jobs :: "db \<Rightarrow> string option \<Rightarrow> string option \<Rightarrow> nat \<Rightarrow> nat \<Rightarrow> job_response list res" where
  "list_jobs d endpoint status limit offset = res_map job_response_of (list_job_records d endpoint status limit offset)"

definition list_logs :: "db \<Rightarrow> string option \<Rightarrow> string option \<Rightarrow> nat \<Rightarrow> nat \<Rightarrow> request_log_response list res" where
  "list_logs d endpoint status limit offset =
     res_map request_log_response_of (list_request_logs d endpoint status limit offset)"

fun count_by_endpoint :: "(string \<times> nat) list \<Rightarrow> string list \<Rightarrow> (string \<times> nat) list" where
  "count_by_endpoint counts [] = counts"
| "count_by_endpoint counts (e # es) =
     count_by_endpoint (if map_of counts e \<noteq> None then dict_set e (dict_get counts e 0 + 1) counts else counts) es"

definition zero_counts :: "string list \<Rightarrow> (string \<times> nat) list" where
  "zero_counts keys = map (\<lambda>k. (k, 0)) keys"

definition ACCOUNT_STATUSES :: "string list" where
  "ACCOUNT_STATUSES = [''active'', ''rate_limited'', ''credit_exhausted'', ''paused'']"

definition SYNC_ENDPOINTS :: "string list" where
  "SYNC_ENDPOINTS = [''scrape'', ''map'', ''search'']"

definition JOB_ENDPOINTS :: "string list" where
  "JOB_ENDPOINTS = [''crawl'', ''batch_scrape'']"

definition get_overview :: "db \<Rightarrow> overview_response" where
  "get_overview d =
     (let accounts = list_account_records d;
          jobs = list_job_records d None None 10000 0;
          logs = list_request_logs d None None 10000 0;
          by_status = count_by_endpoint (zero_counts ACCOUNT_STATUSES) (map ar_status accounts);
          sync_counts = count_by_endpoint (zero_counts SYNC_ENDPOINTS) (map lr_endpoint logs);
          job_counts = count_by_endpoint (zero_counts JOB_ENDPOINTS) (map jr_endpoint jobs)
      in \<lparr>ov_total_accounts = length accounts,
          ov_active_accounts = dict_get by_status ''active'' 0,
          ov_total_remaining_credits = (\<Sum>a\<leftarrow>accounts. int_or (ar_remaining_credits_live a) 0),
          ov_total_budget_credits = (\<Sum>a\<leftarrow>accounts. int_or (ar_monthly_budget_credits a) (int_or (ar_plan_credits_live a) 0)),
          ov_accounts_by_status =
            \<lparr>abs_active = dict_get by_status ''active'' 0, abs_rate_limited = dict_get by_status ''rate_limited'' 0,
             abs_credit_exhausted = dict_get by_status ''credit_exhausted'' 0,
             abs_paused = dict_get by_status ''paused'' 0\<rparr>,
          ov_active_jobs = length (filter (\<lambda>j. jr_status j = ''submitted'') jobs),
          ov_recent_requests =
            \<lparr>rq_total = length logs, rq_success = length (filter (\<lambda>l. lr_status l = ''success'') logs),
             rq_error = length (filter (\<lambda>l. lr_status l = ''error'') logs)\<rparr>,
          ov_endpoint_breakdown =
            \<lparr>eb_scrape = dict_get sync_counts ''scrape'' 0, eb_map = dict_get sync_counts ''map'' 0,
             eb_search = dict_get sync_counts ''search'' 0, eb_crawl = dict_get job_counts ''crawl'' 0,
             eb_batch_scrape = dict_get job_counts ''batch_scrape'' 0\<rparr>\<rparr>)"

definition get_account :: "db \<Rightarrow> string \<Rightarrow> admin_error + account_response" where
  "get_account d account_id =
     (case get_account_record d account_id of
        None \<Rightarrow> Inl FirecrawlAccountNotFoundError
      | Some a \<Rightarrow> lift_admin (account_response_of a (account_credentials d account_id)))"

definition new_account :: "account_create_request \<Rightarrow> account_record" where
  "new_account p =
     \<lparr>ar_id = acr_id p, ar_team_label = acr_team_label p, ar_plan_type = acr_plan_type p, ar_status = ''active'',
      ar_monthly_budget_credits = acr_monthly_budget_credits p,
      ar_remaining_credits_live = acr_remaining_credits_live p, ar_plan_credits_live = acr_plan_credits_live p,
      ar_rpm_limit = acr_rpm_limit p, ar_billing_period_start = None, ar_billing_period_end = None,
      ar_queue_active_jobs = None, ar_queue_waiting_jobs = None, ar_queue_max_concurrency = acr_max_concurrency p,
      ar_cooldown_until = None, ar_last_usage_refresh_at = None, ar_last_queue_refresh_at = None,
      ar_last_refresh_error_at = None, ar_last_refresh_error_message = None\<rparr>"

text \<open>
  A commit of new or changed rows checks the declared constraints: unique primary keys and team
  labels. (A \<open>NOT NULL\<close> violation is a branch of the operation that can cause it.)
\<close>

definition commit_ok :: "db \<Rightarrow> bool" where
  "commit_ok d \<longleftrightarrow> distinct (map ar_id (db_accounts d)) \<and> distinct (map ar_team_label (db_accounts d)) \<and>
     distinct (map cr_id (db_credentials d))"

text \<open>
  An operation that writes gives the store it leaves behind and its result. Validation of the
  response comes after the commit, so a response that fails leaves the write in place.
\<close>

definition create_account :: "db \<Rightarrow> account_create_request \<Rightarrow> db \<times> (admin_error + account_response)" where
  "create_account d payload =
     (if get_account_record d (acr_id payload) \<noteq> None then (d, Inl FirecrawlAccountConflictError)
      else let d' = add_account_record d (new_account payload)
           in if \<not> commit_ok d' then (d, Inl FirecrawlAccountConflictError)
              else (d', lift_admin (account_response_of (new_account payload) [])))"

definition set_field :: "('a \<Rightarrow> account_record \<Rightarrow> account_record) \<Rightarrow> 'a option \<Rightarrow> account_record \<Rightarrow> account_record" where
  "set_field setter v a = (case v of None \<Rightarrow> a | Some x \<Rightarrow> setter x a)"

definition apply_updates :: "account_update_request \<Rightarrow> account_record \<Rightarrow> account_record" where
  "apply_updates p a =
     set_field (\<lambda>v a. a\<lparr>ar_cooldown_until := v\<rparr>) (aur_cooldown_until p)
    (set_field (\<lambda>v a. a\<lparr>ar_queue_max_concurrency := v\<rparr>) (aur_max_concurrency p)
    (set_field (\<lambda>v a. a\<lparr>ar_rpm_limit := v\<rparr>) (aur_rpm_limit p)
    (set_field (\<lambda>v a. a\<lparr>ar_plan_credits_live := v\<rparr>) (aur_plan_credits_live p)
    (set_field (\<lambda>v a. a\<lparr>ar_remaining_credits_live := v\<rparr>) (aur_remaining_credits_live p)
    (set_field (\<lambda>v a. a\<lparr>ar_monthly_budget_credits := v\<rparr>) (aur_monthly_budget_credits p)
    (set_field (\<lambda>v a. case v of None \<Rightarrow> a | Some s \<Rightarrow> a\<lparr>ar_status := s\<rparr>) (aur_status p) a))))))"

text \<open>\<open>status = None\<close> violates the \<open>NOT NULL\<close> of the column; that \<open>IntegrityError\<close> is not caught.\<close>

definition update_account ::
  "db \<Rightarrow> string \<Rightarrow> account_update_request \<Rightarrow> db \<times> (admin_error + account_response)" where
  "update_account d account_id payload =
     (case get_account_record d account_id of
        None \<Rightarrow> (d, Inl FirecrawlAccountNotFoundError)
      | Some a \<Rightarrow>
          if aur_status payload = Some None then (d, Inl (AdminRaised IntegrityError))
          else let a' = apply_updates payload a
               in (put_account d a', lift_admin (account_response_of a' (account_credentials d account_id))))"

definition new_credential :: "(string \<Rightarrow> string) \<Rightarrow> string \<Rightarrow> credential_create_request \<Rightarrow> credential_record" where
  "new_credential encrypt account_id p =
     \<lparr>cr_id = ccr_id p, cr_account_id = account_id, cr_name = ccr_name p,
      cr_api_key_encrypted = encrypt (ccr_api_key p), cr_status = ccr_status p,
      cr_last_validated_at = None, cr_last_error_at = None, cr_last_error_message = None\<rparr>"

definition create_credential ::
  "(string \<Rightarrow> string) \<Rightarrow> db \<Rightarrow> string \<Rightarrow> credential_create_request \<Rightarrow> db \<times> (admin_error + credential_response)" where
  "create_credential encrypt d account_id payload =
     (if get_account_record d account_id = None then (d, Inl FirecrawlAccountNotFoundError)
      else if get_credential_record d (ccr_id payload) \<noteq> None then (d, Inl FirecrawlCredentialConflictError)
      else let c = new_credential encrypt account_id payload; d' = add_credential_record d c
           in if \<not> commit_ok d' then (d, Inl FirecrawlCredentialConflictError)
              else (d', lift_admin (credential_response_of c)))"

definition update_credential ::
  "db \<Rightarrow> string \<Rightarrow> string \<Rightarrow> credential_update_request \<Rightarrow> db \<times> (admin_error + credential_response)" where
  "update_credential d account_id credential_id payload =
     (if get_account_record d account_id = None then (d, Inl FirecrawlAccountNotFoundError)
      else case get_credential_record d credential_id of
             None \<Rightarrow> (d, Inl FirecrawlCredentialNotFoundError)
           | Some c \<Rightarrow>
               if cr_account_id c \<noteq> account_id then (d, Inl FirecrawlCredentialNotFoundError)
               else let c' = c\<lparr>cr_status := cur_status payload\<rparr>
                    in (put_credential d c', lift_admin (credential_response_of c')))"

section \<open>The routes\<close>

datatype admin_request =
    ListAccounts
  | ListJobs "string option" "string option" int int
  | ListLogs "string option" "string option" int int
  | Overview
  | CreateAccount account_create_request
  | GetAccount string
  | UpdateAccount string account_update_request
  | CreateCredential string credential_create_request
  | UpdateCredential string string credential_update_request

datatype admin_body =
    AccountsBody "account_response list" | JobsBody "job_response list" | LogsBody "request_log_response list"
  | OverviewBody overview_response | AccountBody account_response | CredentialBody credential_response

datatype admin_reply =
    AdminOk int admin_body | AdminHTTP int string | AdminInvalid | AdminUnauthorized string | AdminUnhandled pyexc

definition admin_reply_of :: "int \<Rightarrow> ('r \<Rightarrow> admin_body) \<Rightarrow> admin_error + 'r \<Rightarrow> admin_reply" where
  "admin_reply_of status body r =
     (case r of
        Inr x \<Rightarrow> AdminOk status (body x)
      | Inl FirecrawlAccountConflictError \<Rightarrow> AdminHTTP 409 ''Firecrawl account already exists''
      | Inl FirecrawlAccountNotFoundError \<Rightarrow> AdminHTTP 404 ''Firecrawl account not found''
      | Inl FirecrawlCredentialConflictError \<Rightarrow> AdminHTTP 409 ''Firecrawl credential already exists''
      | Inl FirecrawlCredentialNotFoundError \<Rightarrow> AdminHTTP 404 ''Firecrawl credential not found''
      | Inl (AdminRaised e) \<Rightarrow> AdminUnhandled e)"

definition page_ok :: "string list \<Rightarrow> string option \<Rightarrow> int \<Rightarrow> int \<Rightarrow> bool" where
  "page_ok endpoints endpoint limit offset \<longleftrightarrow>
     (case endpoint of None \<Rightarrow> True | Some e \<Rightarrow> e \<in> set endpoints) \<and> 1 \<le> limit \<and> limit \<le> 500 \<and> 0 \<le> offset"

fun valid_request :: "admin_request \<Rightarrow> bool" where
  "valid_request (ListJobs endpoint status limit offset) = page_ok JOB_ENDPOINTS endpoint limit offset"
| "valid_request (ListLogs endpoint status limit offset) = page_ok SYNC_ENDPOINTS endpoint limit offset"
| "valid_request (CreateAccount p) = valid_account_create p"
| "valid_request (UpdateAccount i p) = valid_account_update p"
| "valid_request (CreateCredential i p) = valid_credential_create p"
| "valid_request (UpdateCredential i j p) = valid_credential_update p"
| "valid_request _ = True"

fun admin_operation :: "(string \<Rightarrow> string) \<Rightarrow> db \<Rightarrow> admin_request \<Rightarrow> db \<times> admin_reply" where
  "admin_operation encrypt d ListAccounts =
     (d, admin_reply_of 200 AccountsBody (lift_admin (list_account_responses d)))"
| "admin_operation encrypt d (ListJobs endpoint status limit offset) =
     (d, admin_reply_of 200 JobsBody (lift_admin (list_jobs d endpoint status (nat limit) (nat offset))))"
| "admin_operation encrypt d (ListLogs endpoint status limit offset) =
     (d, admin_reply_of 200 LogsBody (lift_admin (list_logs d endpoint status (nat limit) (nat offset))))"
| "admin_operation encrypt d Overview = (d, AdminOk 200 (OverviewBody (get_overview d)))"
| "admin_operation encrypt d (CreateAccount p) =
     map_prod id (admin_reply_of 201 AccountBody) (create_account d p)"
| "admin_operation encrypt d (GetAccount i) = (d, admin_reply_of 200 AccountBody (get_account d i))"
| "admin_operation encrypt d (UpdateAccount i p) =
     map_prod id (admin_reply_of 200 AccountBody) (update_account d i p)"
| "admin_operation encrypt d (CreateCredential i p) =
     map_prod id (admin_reply_of 201 CredentialBody) (create_credential encrypt d i p)"
| "admin_operation encrypt d (UpdateCredential i j p) =
     map_prod id (admin_reply_of 200 CredentialBody) (update_credential d i j p)"

text \<open>The admin check runs first (\<open>Some m\<close>: it raised), then the declared constraints, then the operation.\<close>

definition handle_admin :: "(string \<Rightarrow> string) \<Rightarrow> string option \<Rightarrow> db \<Rightarrow> admin_request \<Rightarrow> db \<times> admin_reply" where
  "handle_admin encrypt denied d request =
     (case denied of
        Some message \<Rightarrow> (d, AdminUnauthorized message)
      | None \<Rightarrow> if valid_request request then admin_operation encrypt d request else (d, AdminInvalid))"

section \<open>Stored statuses\<close>

text \<open>Every stored status and job endpoint is one the schemas admit.\<close>

definition wf_status :: "db \<Rightarrow> bool" where
  "wf_status d \<longleftrightarrow>
     (\<forall>a\<in>set (db_accounts d). ACCOUNT_STATUS_PATTERN (ar_status a)) \<and>
     (\<forall>c\<in>set (db_credentials d). CREDENTIAL_STATUS_PATTERN (cr_status c)) \<and>
     (\<forall>j\<in>set (db_jobs d). JOB_ENDPOINT_PATTERN (jr_endpoint j))"

lemmas status_patterns = ACCOUNT_STATUS_PATTERN_def CREDENTIAL_STATUS_PATTERN_def

lemma status_put_account:
  "wf_status d \<Longrightarrow> ACCOUNT_STATUS_PATTERN (ar_status a) \<Longrightarrow> wf_status (put_account d a)"
  using all_row_put [of "db_accounts d" "\<lambda>a. ACCOUNT_STATUS_PATTERN (ar_status a)" a ar_id]
  by (simp add: wf_status_def put_account_def)

lemma status_put_credential:
  "wf_status d \<Longrightarrow> CREDENTIAL_STATUS_PATTERN (cr_status c) \<Longrightarrow> wf_status (put_credential d c)"
  using all_row_put [of "db_credentials d" "\<lambda>c. CREDENTIAL_STATUS_PATTERN (cr_status c)" c cr_id]
  by (simp add: wf_status_def put_credential_def)

lemma status_put_job:
  "wf_status d \<Longrightarrow> JOB_ENDPOINT_PATTERN (jr_endpoint j) \<Longrightarrow> wf_status (put_job d j)"
  using all_row_put [of "db_jobs d" "\<lambda>j. JOB_ENDPOINT_PATTERN (jr_endpoint j)" j jr_id]
  by (simp add: wf_status_def put_job_def)

lemma status_modify_account:
  assumes "wf_status d" "\<And>a. ACCOUNT_STATUS_PATTERN (ar_status a) \<Longrightarrow> ACCOUNT_STATUS_PATTERN (ar_status (f a))"
  shows "wf_status (modify get_account_record put_account d k f)"
  using assms
  by (auto simp: modify_def get_account_record_def split: option.split dest!: row_get_mem
      intro!: status_put_account) (simp add: wf_status_def)

lemma status_outcome_effect: "wf_status d \<Longrightarrow> wf_status (outcome_effect w d acc cred resp used settle)"
  unfolding outcome_effect_def apply_success_def mark_account_credit_exhausted_def
    mark_account_rate_limited_def mark_credential_invalid_def
  by (auto intro!: status_modify_account status_put_credential simp: charge_status status_patterns
      modify_def [of get_credential_record] split: sum.split option.split)

lemma status_record_request: "wf_status (record_request d l) = wf_status d"
  by (simp add: wf_status_def record_request_def)

lemma status_add_job: "wf_status d \<Longrightarrow> JOB_ENDPOINT_PATTERN (jr_endpoint j) \<Longrightarrow> wf_status (add_job_record d j)"
  by (simp add: wf_status_def add_job_record_def)

lemma status_apply_success: "wf_status d \<Longrightarrow> wf_status (apply_success d k n)"
  unfolding apply_success_def by (rule status_modify_account) (auto simp: charge_status status_patterns)

lemma status_settle:
  assumes "wf_status d" "JOB_ENDPOINT_PATTERN (jr_endpoint j)"
  shows "wf_status (settle_job_once d j s n t)"
  using assms by (auto simp: settle_job_once_def Let_def status_put_job status_apply_success split: option.split)

lemma status_proxy:
  assumes "wf_status d" "proxy w d e payload params = Inr (d', response)"
  shows "wf_status d'"
  using assms(2) by (rule proxy_Inr) (simp add: assms(1) status_outcome_effect status_record_request)

lemma status_submit_job:
  assumes "wf_status d" "submit_job w d e path payload params = Inr (d', response)" "JOB_ENDPOINT_PATTERN e"
  shows "wf_status d'"
  using assms(2)
  by (rule submit_job_Inr)
    (use assms(1,3) in \<open>simp add: status_outcome_effect status_record_request status_add_job new_job_def Let_def split: option.split\<close>)

lemma status_job_operation:
  assumes "wf_status d" "proxy_job_operation w d e path jid meth = Inr (d', r)"
  shows "wf_status d'"
  using assms(2)
proof (cases rule: proxy_job_operation_Inr)
  case (sent j c key response)
  have "j \<in> set (db_jobs d)" using sent(1) unfolding get_job_record_Some
    by (metis filter_is_subset in_mono list.set_intros(1))
  then have "JOB_ENDPOINT_PATTERN (jr_endpoint j)" using assms(1) by (simp add: wf_status_def)
  with assms(1) show ?thesis
    by (auto simp: sent(5) apply_job_response_def Let_def split: option.split
        intro!: status_put_job status_settle)
qed (simp add: assms(1))

lemma status_handle_route:
  assumes "wf_status d" shows "wf_status (fst (handle_route w d route body q))"
proof -
  have r: "wf_status (fst (service_reply d x))" if "\<And>d' u. x = Inr (d', u) \<Longrightarrow> wf_status d'" for x
    using assms that by (auto simp: service_reply_def split: sum.split select_error.split)
  have p: "wf_status (fst (proxy_firecrawl_request w d e body q))" for e
    using r [OF status_proxy [OF assms]] assms
    by (simp add: proxy_firecrawl_request_def split: sum.split json.split)
  have s: "wf_status (fst (submit_firecrawl_job w d e path body q))" if "JOB_ENDPOINT_PATTERN e" for e path
    using r [OF status_submit_job [OF assms _ that]] assms
    by (simp add: submit_firecrawl_job_def split: sum.split json.split)
  have o: "wf_status (fst (proxy_firecrawl_job_operation w d e path jid m))" for e path jid m
    using assms status_job_operation
    by (fastforce simp: proxy_firecrawl_job_operation_def split: sum.split option.split)
  show ?thesis by (cases route) (simp_all add: p s o JOB_ENDPOINT_PATTERN_def)
qed

lemma status_serve: "wf_status d \<Longrightarrow> wf_status (serve d requests)"
  by (induction d requests rule: serve.induct) (simp_all add: status_handle_route)

section \<open>Admin operations\<close>

lemma apply_updates_keeps [simp]:
  "ar_id (apply_updates p a) = ar_id a" "ar_team_label (apply_updates p a) = ar_team_label a"
  by (simp_all add: apply_updates_def set_field_def split: option.split)

lemma apply_updates_status:
  "ar_status (apply_updates p a) = (case aur_status p of Some (Some s) \<Rightarrow> s | _ \<Rightarrow> ar_status a)"
  by (simp add: apply_updates_def set_field_def split: option.split)

lemma create_account_store:
  assumes "wf_db d" "wf_status d" "create_account d p = (d', r)"
  shows "wf_db d' \<and> wf_status d'"
proof -
  have "wf_db (add_account_record d (new_account p))" if "commit_ok (add_account_record d (new_account p))"
    using that assms(1) by (auto simp: wf_db_def commit_ok_def add_account_record_def)
  moreover have "wf_status (add_account_record d (new_account p))"
    using assms(2) by (simp add: wf_status_def add_account_record_def new_account_def status_patterns)
  ultimately show ?thesis using assms by (auto simp: create_account_def Let_def split: if_splits)
qed

lemma update_account_store:
  assumes "wf_db d" "wf_status d" "valid_account_update p" "update_account d i p = (d', r)"
  shows "wf_db d' \<and> wf_status d'"
proof (cases "get_account_record d i")
  case (Some a)
  then have a: "a \<in> set (db_accounts d)" "ar_id a = i"
    by (auto simp: get_account_record_def dest: row_get_mem row_get_key)
  have "wf_db (put_account d (apply_updates p a))"
    using assms(1) Some a(2) by (intro wf_put_account) simp_all
  moreover have "ACCOUNT_STATUS_PATTERN (ar_status (apply_updates p a))"
    using assms(2,3) a(1)
    by (auto simp: apply_updates_status valid_account_update_def field_ok_def wf_status_def split: option.splits)
  ultimately show ?thesis
    using assms Some status_put_account by (auto simp: update_account_def Let_def split: if_splits)
qed (use assms in \<open>simp add: update_account_def\<close>)

lemma create_credential_store:
  assumes "wf_db d" "wf_status d" "valid_credential_create p" "create_credential encrypt d i p = (d', r)"
  shows "wf_db d' \<and> wf_status d'"
proof -
  let ?d = "add_credential_record d (new_credential encrypt i p)"
  have "wf_db ?d" if "commit_ok ?d" "get_account_record d i = Some a" for a
  proof -
    have "i \<in> ar_id ` set (db_accounts d)" using that(2) row_get_None [of ar_id "db_accounts d" i]
      by (auto simp: get_account_record_def)
    then show ?thesis using that(1) assms(1)
      by (auto simp: wf_db_def commit_ok_def add_credential_record_def new_credential_def)
  qed
  moreover have "wf_status ?d" using assms(2,3)
    by (auto simp: wf_status_def add_credential_record_def new_credential_def valid_credential_create_def)
  ultimately show ?thesis using assms by (auto simp: create_credential_def Let_def split: if_splits)
qed

lemma update_credential_store:
  assumes "wf_db d" "wf_status d" "valid_credential_update p" "update_credential d i k p = (d', r)"
  shows "wf_db d' \<and> wf_status d'"
proof (cases "get_credential_record d k")
  case (Some c)
  then have c: "cr_id c = k" by (auto simp: get_credential_record_def dest: row_get_key)
  have "wf_db (put_credential d (c\<lparr>cr_status := cur_status p\<rparr>))"
    using assms(1) Some c by (intro wf_put_credential) simp_all
  moreover have "wf_status (put_credential d (c\<lparr>cr_status := cur_status p\<rparr>))"
    using assms(2,3) by (intro status_put_credential) (simp_all add: valid_credential_update_def)
  ultimately show ?thesis using assms Some
    by (auto simp: update_credential_def Let_def split: if_splits)
qed (use assms in \<open>auto simp: update_credential_def split: if_splits\<close>)

lemma admin_operation_store:
  assumes "wf_db d" "wf_status d" "valid_request request"
  shows "wf_db (fst (admin_operation encrypt d request)) \<and> wf_status (fst (admin_operation encrypt d request))"
proof (cases request)
  case (CreateAccount p)
  then show ?thesis using create_account_store [OF assms(1,2)] by (cases "create_account d p") auto
next
  case (UpdateAccount i p)
  then show ?thesis using update_account_store [OF assms(1,2)] assms(3) by (cases "update_account d i p") auto
next
  case (CreateCredential i p)
  then show ?thesis using create_credential_store [OF assms(1,2)] assms(3)
    by (cases "create_credential encrypt d i p") auto
next
  case (UpdateCredential i k p)
  then show ?thesis using update_credential_store [OF assms(1,2)] assms(3)
    by (cases "update_credential d i k p") auto
qed (use assms in simp_all)

lemma handle_admin_store:
  assumes "wf_db d" "wf_status d"
  shows "wf_db (fst (handle_admin encrypt denied d request)) \<and> wf_status (fst (handle_admin encrypt denied d request))"
  using assms admin_operation_store [OF assms] by (auto simp: handle_admin_def split: option.split)

text \<open>A mixed run: proxied requests and admin requests in any order.\<close>

datatype step = ProxyStep request | AdminStep "string \<Rightarrow> string" "string option" admin_request

fun run_steps :: "db \<Rightarrow> step list \<Rightarrow> db" where
  "run_steps d [] = d"
| "run_steps d (ProxyStep r # steps) = run_steps (serve d [r]) steps"
| "run_steps d (AdminStep encrypt denied request # steps) =
     run_steps (fst (handle_admin encrypt denied d request)) steps"

lemma wf_serve: "wf_db d \<Longrightarrow> wf_db (serve d requests)"
  by (induction d requests rule: serve.induct) (simp_all add: wf_handle_route)

lemma run_steps_store:
  assumes "wf_db d" "wf_status d"
  shows "wf_db (run_steps d steps) \<and> wf_status (run_steps d steps)"
  using assms
  by (induction d steps rule: run_steps.induct)
    (simp_all add: wf_serve status_serve handle_admin_store del: serve.simps)

lemma res_map_total: "(\<And>x. x \<in> set xs \<Longrightarrow> \<exists>y. f x = Inr y) \<Longrightarrow> \<exists>ys. res_map f xs = Inr ys"
  by (induction xs) fastforce+

lemma account_response_total:
  assumes "wf_status d" "a \<in> set (db_accounts d)"
  shows "\<exists>r. account_response_of a (account_credentials d k) = Inr r"
proof -
  have "\<exists>cs. res_map credential_response_of (account_credentials d k) = Inr cs"
    using assms(1) by (intro res_map_total) (auto simp: account_credentials_def wf_status_def credential_response_of_def)
  with assms show ?thesis by (auto simp: account_response_of_def wf_status_def)
qed

text \<open>
  C12: over any sequence of proxied requests and admin requests, in any order and with any
  upstream answers, the store keeps its key constraints and holds only statuses and job endpoints
  that the schemas admit; so listing the accounts and listing the jobs never fails validation.
\<close>

theorem admin_listing_total:
  assumes "wf_db d" "wf_status d"
  shows "wf_db (run_steps d steps) \<and> (\<exists>as. list_account_responses (run_steps d steps) = Inr as) \<and>
    (\<exists>js. list_jobs (run_steps d steps) endpoint status limit offset = Inr js)"
proof -
  let ?d = "run_steps d steps"
  have ok: "wf_db ?d" "wf_status ?d" using run_steps_store [OF assms] by auto
  have "\<exists>as. list_account_responses ?d = Inr as"
    unfolding list_account_responses_def using ok(2)
    by (intro res_map_total account_response_total) (simp_all add: list_account_records_def)
  moreover have "\<exists>js. list_jobs ?d endpoint status limit offset = Inr js"
    unfolding list_jobs_def using ok(2)
    by (intro res_map_total)
      (auto simp: list_job_records_def job_response_of_def wf_status_def dest!: in_set_takeD in_set_dropD)
  ultimately show ?thesis using ok(1) by blast
qed

theorem admin_listing_total_witness:
  "\<exists>as. list_account_responses (run_steps sample_db
     [ProxyStep (sample_world (sample_answer 402 JNull []), MapUrls, Inr (JObj []), []), AdminStep id None Overview]) = Inr as"
  using admin_listing_total [OF sample_db_wf, of "[ProxyStep (sample_world (sample_answer 402 JNull []), MapUrls, Inr (JObj []), []), AdminStep id None Overview]"]
  by (auto simp: wf_status_def sample_db_def sample_row_def sample_key_row_def status_patterns)

lemma res_map_raises: "x \<in> set xs \<Longrightarrow> f x = Inl e \<Longrightarrow> \<exists>e'. res_map f xs = Inl e'"
proof (induction xs)
  case (Cons a xs)
  show ?case
  proof (cases "f a")
    case (Inr b)
    with Cons show ?thesis by auto
  qed simp
qed simp

lemma list_logs_invalid:
  assumes "l \<in> set (list_request_logs d endpoint status limit offset)" "\<not> REQUEST_LOG_ENDPOINT_PATTERN (lr_endpoint l)"
  shows "list_logs d endpoint status limit offset = Inl ValidationError"
proof -
  have "request_log_response_of l = Inl ValidationError" using assms(2) by (simp add: request_log_response_of_def)
  from res_map_raises [where f = request_log_response_of, OF assms(1) this] obtain e where e: "list_logs d endpoint status limit offset = Inl e"
    by (auto simp: list_logs_def)
  have "e = ValidationError" if "res_map request_log_response_of xs = Inl e" for xs
    using that by (induction xs) (auto simp: res_bind_eq_Inl request_log_response_of_def split: if_splits)
  with e show ?thesis by (simp add: list_logs_def)
qed

lemma submit_job_log:
  assumes "submit_job w d e path payload params = Inr (d', response)"
  shows "\<exists>l. db_request_logs d' = db_request_logs d @ [l] \<and> lr_endpoint l = e"
proof -
  from assms obtain sel used d1 where s:
    "record_outcome w d (a_id (sel_account sel)) (c_id (sel_credential sel)) e response
       (request_status (ur_status response)) (sel_estimated_credits sel) used False = Inr d1"
    "d' = (case upstream_job_id (ur_json_body response) of
             None \<Rightarrow> d1
           | Some job_id \<Rightarrow> if success_status (ur_status response)
               then add_job_record d1 (new_job w sel e job_id) else d1)"
    by (auto simp: submit_job_def res_bind_eq_Inr Let_def)
  then have "db_request_logs d' = db_request_logs d1" by (simp add: frame_simps split: option.split)
  with s(1) have s: "record_outcome w d (a_id (sel_account sel)) (c_id (sel_credential sel)) e response
       (request_status (ur_status response)) (sel_estimated_credits sel) used False = Inr d1"
    "db_request_logs d' = db_request_logs d1" by simp_all
  from s(1) obtain l where "d1 = outcome_effect w (record_request d l) (a_id (sel_account sel))
      (c_id (sel_credential sel)) response used False" "lr_endpoint l = e" by (rule record_outcome_Inr)
  with s(2) show ?thesis by (simp add: frame_simps)
qed



text \<open>
  a key that an admin stores is the key that requests are sent with. When Fernet decryption
  inverts encryption, a credential created over the admin API is stored under its account, and
  reading that account gives it back with the original key and the requested status; other
  accounts and credentials stay.
\<close>

lemma created_credential_roundtrip:
  assumes fernet: "\<And>x. decrypt (encrypt x) = Inr x"
    and created: "handle_admin encrypt None d (CreateCredential i p) = (d', AdminOk 201 body)"
  shows "\<exists>row cred. db_credentials d' = db_credentials d @ [row] \<and> cr_account_id row = i \<and>
    account_credentials d' i = account_credentials d i @ [row] \<and>
    to_domain_credential decrypt column row = Inr cred \<and> c_id cred = ccr_id p \<and>
    c_api_key cred = ccr_api_key p \<and> credential_status_value (c_status cred) = ccr_status p \<and>
    db_accounts d' = db_accounts d"
proof -
  have v: "valid_credential_create p" and op: "admin_operation encrypt d (CreateCredential i p) = (d', AdminOk 201 body)"
    using created by (auto simp: handle_admin_def split: if_splits)
  have d': "d' = add_credential_record d (new_credential encrypt i p)"
    using op by (auto simp: create_credential_def Let_def admin_reply_of_def split: if_splits)
  obtain st where st: "credential_status_of (ccr_status p) = Inr st" "credential_status_value st = ccr_status p"
    using v by (auto simp: valid_credential_create_def CREDENTIAL_STATUS_PATTERN_def credential_status_of_def)
  show ?thesis
    using fernet st
    by (auto simp: d' add_credential_record_def account_credentials_def new_credential_def to_domain_credential_def)
qed

lemma created_credential_roundtrip_example:
  "\<exists>d' row. handle_admin id None sample_db (CreateCredential ''a'' \<lparr>ccr_id = ''k2'', ccr_name = None, ccr_api_key = ''fc-2'', ccr_status = ''active''\<rparr>) =
     (d', AdminOk 201 (CredentialBody \<lparr>crs_id = ''k2'', crs_name = None, crs_status = ''active''\<rparr>)) \<and>
     db_credentials d' = [sample_key_row, row] \<and> cr_account_id row = ''a''"
proof -
  let ?p = "\<lparr>ccr_id = ''k2'', ccr_name = None, ccr_api_key = ''fc-2'', ccr_status = ''active''\<rparr>"
  let ?d = "add_credential_record sample_db (new_credential id ''a'' ?p)"
  have h: "handle_admin id None sample_db (CreateCredential ''a'' ?p) =
     (?d, AdminOk 201 (CredentialBody \<lparr>crs_id = ''k2'', crs_name = None, crs_status = ''active''\<rparr>))"
    by (simp add: handle_admin_def valid_credential_create_def status_patterns create_credential_def
        get_account_record_def get_credential_record_def sample_db_def row_get_def sample_row_def sample_key_row_def
        commit_ok_def add_credential_record_def new_credential_def admin_reply_of_def lift_admin_def
        credential_response_of_def Let_def)
  from created_credential_roundtrip [where decrypt = Inr, OF _ h, of id] h show ?thesis
    by (auto simp: sample_db_def)
qed

lemma map_of_zero_counts: "map_of (zero_counts ks) k = (if k \<in> set ks then Some 0 else None)"
  by (induction ks) (auto simp: zero_counts_def)

lemma count_by_endpoint_get:
  "map_of counts k = Some n \<Longrightarrow> dict_get (count_by_endpoint counts es) k 0 = n + count_list es k"
proof (induction counts es arbitrary: n rule: count_by_endpoint.induct)
  case (1 counts)
  then show ?case by (simp add: dict_get_def)
next
  case (2 counts e es)
  show ?case
  proof (cases "k = e")
    case True
    have "dict_get counts k 0 = n" using 2(2) by (simp add: dict_get_def)
    with 2 True show ?thesis by simp
  next
    case False
    with 2 show ?thesis by simp
  qed
qed

lemma zero_counts_get:
  "k \<in> set ks \<Longrightarrow> dict_get (count_by_endpoint (zero_counts ks) es) k 0 = count_list es k"
  using count_by_endpoint_get [of "zero_counts ks" k 0 es] by (simp add: map_of_zero_counts)

lemma count_list_sort: "count_list (map f (sort_key g xs)) k = count_list (map f xs) k"
proof -
  have c: "count_list (map f ys) k = length (filter (\<lambda>x. f x = k) ys)" for ys
    by (induction ys) auto
  have "length (filter (\<lambda>x. f x = k) (sort_key g xs)) = length (filter (\<lambda>x. f x = k) xs)"
    by (simp add: filter_sort)
  then show ?thesis by (simp add: c)
qed

text \<open>
  The overview counts what the tables hold: all accounts, the accounts of each of the four
  listed statuses (an invalid account is in the total only), and the remaining credits of all of
  them, absent values as zero.
\<close>

lemma overview_counts:
  "let ov = get_overview d in
   ov_total_accounts ov = length (db_accounts d) \<and>
   ov_active_accounts ov = count_list (map ar_status (db_accounts d)) ''active'' \<and>
   abs_rate_limited (ov_accounts_by_status ov) = count_list (map ar_status (db_accounts d)) ''rate_limited'' \<and>
   abs_credit_exhausted (ov_accounts_by_status ov) = count_list (map ar_status (db_accounts d)) ''credit_exhausted'' \<and>
   abs_paused (ov_accounts_by_status ov) = count_list (map ar_status (db_accounts d)) ''paused'' \<and>
   ov_total_remaining_credits ov = (\<Sum>a\<leftarrow>db_accounts d. int_or (ar_remaining_credits_live a) 0)"
proof -
  have sum: "(\<Sum>a\<leftarrow>sort_key ar_id xs. f a) = (\<Sum>a\<leftarrow>xs. f a)" for f :: "account_record \<Rightarrow> int" and xs
  proof (induction xs)
    case (Cons x xs)
    have "(\<Sum>a\<leftarrow>insort_key ar_id x ys. f a) = f x + (\<Sum>a\<leftarrow>ys. f a)" for ys by (induction ys) auto
    with Cons show ?case by simp
  qed simp
  show ?thesis
    by (simp add: get_overview_def Let_def ACCOUNT_STATUSES_def zero_counts_get list_account_records_def
        count_list_sort sum)
qed

end
