(* ===== verification/Refresh.thy ===== *)
theory Refresh
  imports ProxyService
begin

text \<open>
  The usage refresh of \<open>src/app/modules/firecrawl/refresh.py\<close>: one pass over all accounts
  (\<open>FirecrawlRefreshService.refresh_once\<close>), the readers of the upstream's usage and queue
  documents, and the scheduler that repeats the pass. Parameters of the model, besides those of
  \<open>world\<close>, are the date parser \<open>datetime.fromisoformat\<close> (local microseconds and an optional UTC
  offset, or a \<open>ValueError\<close>) and \<open>str(exc)\<close> of the exceptions the HTTP library raises.
\<close>

record refresh_world = world +
  w_fromisoformat :: "string \<Rightarrow> (int \<times> int option) option"
  w_exc_str :: "pyexc \<Rightarrow> string"
  w_exc_class :: "pyexc \<Rightarrow> string"

section \<open>Reading the upstream documents\<close>

record credit_usage =
  cu_remaining_credits :: "int option"
  cu_plan_credits :: "int option"
  cu_billing_period_start :: "py_datetime option"
  cu_billing_period_end :: "py_datetime option"

record queue_status =
  qs_active_jobs :: "int option"
  qs_max_concurrency :: "int option"

datatype refresh_error = Labelled string | Raised pyexc

definition require_success_json :: "upstream_response \<Rightarrow> string \<Rightarrow> refresh_error + jobj" where
  "require_success_json response label =
     (if ur_status response < 200 \<or> 300 \<le> ur_status response then Inl (Labelled label)
      else (case ur_json_body response of None \<Rightarrow> Inl (Labelled label) | Some ob \<Rightarrow> Inr ob))"

definition nested_data :: "jobj \<Rightarrow> jobj" where
  "nested_data payload = (case jget payload ''data'' of JObj data \<Rightarrow> data | _ \<Rightarrow> payload)"

fun int_from_keys :: "jobj \<Rightarrow> string list \<Rightarrow> int option" where
  "int_from_keys payload [] = None"
| "int_from_keys payload (key # keys) =
     (case jget payload key of
        JInt n \<Rightarrow> Some n
      | JFloat f \<Rightarrow> (case float_as_int f of Some n \<Rightarrow> Some n | None \<Rightarrow> int_from_keys payload keys)
      | _ \<Rightarrow> int_from_keys payload keys)"

text \<open>\<open>astimezone(UTC)\<close> overflows when the UTC value is out of the calendar.\<close>

definition parse_datetime :: "(string \<Rightarrow> (int \<times> int option) option) \<Rightarrow> string \<Rightarrow> py_datetime option res" where
  "parse_datetime fromisoformat value =
     (case fromisoformat (str_replace ''Z'' ''+00:00'' value) of
        None \<Rightarrow> Inr None
      | Some (t, None) \<Rightarrow> Inr (Some (Naive t))
      | Some (t, Some offset) \<Rightarrow>
          if dt_min \<le> t - offset \<and> t - offset \<le> dt_max then Inr (Some (Naive (t - offset)))
          else Inl OverflowError)"

fun datetime_from_keys ::
  "(string \<Rightarrow> (int \<times> int option) option) \<Rightarrow> jobj \<Rightarrow> string list \<Rightarrow> py_datetime option res" where
  "datetime_from_keys fromisoformat payload [] = Inr None"
| "datetime_from_keys fromisoformat payload (key # keys) =
     (case jget payload key of
        JStr value \<Rightarrow> parse_datetime fromisoformat value
      | _ \<Rightarrow> datetime_from_keys fromisoformat payload keys)"

definition parse_credit_usage ::
  "(string \<Rightarrow> (int \<times> int option) option) \<Rightarrow> jobj \<Rightarrow> credit_usage res" where
  "parse_credit_usage fromisoformat payload =
     (let data = nested_data payload in
      res_bind (datetime_from_keys fromisoformat data
                  [''billingPeriodStart'', ''billing_period_start'', ''periodStart'']) (\<lambda>start.
      res_bind (datetime_from_keys fromisoformat data
                  [''billingPeriodEnd'', ''billing_period_end'', ''periodEnd'']) (\<lambda>stop.
        Inr \<lparr>cu_remaining_credits = int_from_keys data [''remaining'', ''remainingCredits'', ''remaining_credits''],
             cu_plan_credits = int_from_keys data [''plan'', ''planCredits'', ''plan_credits'', ''totalCredits''],
             cu_billing_period_start = start, cu_billing_period_end = stop\<rparr>)))"

definition parse_queue_status :: "jobj \<Rightarrow> queue_status" where
  "parse_queue_status payload =
     (let data = nested_data payload in
      \<lparr>qs_active_jobs = int_from_keys data [''active'', ''activeJobs'', ''active_jobs'', ''queueActiveJobs''],
       qs_max_concurrency = int_from_keys data [''maxConcurrency'', ''max_concurrency'', ''concurrency'']\<rparr>)"

definition redact :: "string \<Rightarrow> string" where
  "redact message = take 500 (str_replace ''fc-'' ''[redacted]-'' (str_replace ''Bearer '' [] message))"

definition safe_error_message :: "'a refresh_world_scheme \<Rightarrow> refresh_error \<Rightarrow> string" where
  "safe_error_message w exc =
     redact (case exc of
        Labelled label \<Rightarrow> if label \<noteq> [] then label else ''ValueError''
      | Raised e \<Rightarrow> if w_exc_str w e \<noteq> [] then w_exc_str w e else w_exc_class w e)"

section \<open>One pass\<close>

definition lift_raise :: "'a res \<Rightarrow> refresh_error + 'a" where
  "lift_raise r = (case r of Inl e \<Rightarrow> Inl (Raised e) | Inr x \<Rightarrow> Inr x)"

text \<open>The two requests and their readers: the body of the \<open>try\<close> block.\<close>

definition fetch_usage :: "'a refresh_world_scheme \<Rightarrow> string \<Rightarrow> refresh_error + (credit_usage \<times> queue_status)" where
  "fetch_usage w api_key =
     res_bind (lift_raise (client_request (w_http w) default_base_url ''GET'' ''/v2/team/credit-usage'' api_key None None)) (\<lambda>usage_response.
     res_bind (lift_raise (client_request (w_http w) default_base_url ''GET'' ''/v2/team/queue-status'' api_key None None)) (\<lambda>queue_response.
     res_bind (require_success_json usage_response ''credit usage refresh failed'') (\<lambda>usage_json.
     res_bind (lift_raise (parse_credit_usage (w_fromisoformat w) usage_json)) (\<lambda>usage.
     res_bind (require_success_json queue_response ''queue status refresh failed'') (\<lambda>queue_json.
       Inr (usage, parse_queue_status queue_json))))))"

definition refresh_account :: "'a refresh_world_scheme \<Rightarrow> db \<Rightarrow> account_record \<Rightarrow> db res" where
  "refresh_account w d account =
     (case find (\<lambda>c. cr_status c = ''active'') (account_credentials d (ar_id account)) of
        None \<Rightarrow> Inr d
      | Some credential \<Rightarrow>
          res_bind (w_decrypt w (cr_api_key_encrypted credential)) (\<lambda>api_key.
            case fetch_usage w api_key of
              Inr (usage, queue) \<Rightarrow>
                Inr (update_account_refresh_success d account (cu_remaining_credits usage) (cu_plan_credits usage)
                       (cu_billing_period_start usage) (cu_billing_period_end usage)
                       (qs_active_jobs queue) (qs_max_concurrency queue) (drop_tz (w_now w)))
            | Inl exc \<Rightarrow> Inr (mark_account_refresh_error d account (safe_error_message w exc) (drop_tz (w_now w)))))"

fun refresh_loop :: "'a refresh_world_scheme \<Rightarrow> db \<Rightarrow> account_record list \<Rightarrow> db res" where
  "refresh_loop w d [] = Inr d"
| "refresh_loop w d (account # accounts) =
     res_bind (refresh_account w d account) (\<lambda>d'. refresh_loop w d' accounts)"

definition refresh_once :: "'a refresh_world_scheme \<Rightarrow> db \<Rightarrow> db res" where
  "refresh_once w d = refresh_loop w d (list_account_records d)"

section \<open>The scheduler\<close>

record refresh_scheduler =
  rs_interval_seconds :: int
  rs_enabled :: bool
  rs_running :: bool

definition build_firecrawl_refresh_scheduler :: "bool \<Rightarrow> int \<Rightarrow> refresh_scheduler" where
  "build_firecrawl_refresh_scheduler enabled interval_seconds =
     \<lparr>rs_interval_seconds = interval_seconds, rs_enabled = enabled, rs_running = False\<rparr>"

definition start :: "refresh_scheduler \<Rightarrow> refresh_scheduler" where
  "start s = (if \<not> rs_enabled s \<or> rs_running s then s else s\<lparr>rs_running := True\<rparr>)"

definition stop :: "refresh_scheduler \<Rightarrow> refresh_scheduler" where
  "stop s = (if \<not> rs_running s then s else s\<lparr>rs_running := False\<rparr>)"

text \<open>The loop of \<open>_run\<close> up to a cancellation: a pass that raises is logged and rolled back.\<close>

fun run_passes :: "db \<Rightarrow> 'a refresh_world_scheme list \<Rightarrow> db" where
  "run_passes d [] = d"
| "run_passes d (w # ws) = run_passes (case refresh_once w d of Inl _ \<Rightarrow> d | Inr d' \<Rightarrow> d') ws"

section \<open>What a pass does to a row\<close>

text \<open>The specification of a pass, row by row.\<close>

definition refreshed_row :: "'a refresh_world_scheme \<Rightarrow> db \<Rightarrow> account_record \<Rightarrow> account_record" where
  "refreshed_row w d a =
     (case find (\<lambda>c. cr_status c = ''active'') (account_credentials d (ar_id a)) of
        None \<Rightarrow> a
      | Some c \<Rightarrow>
          (case fetch_usage w (projr (w_decrypt w (cr_api_key_encrypted c))) of
             Inl exc \<Rightarrow> a\<lparr>ar_last_refresh_error_at := Some (drop_tz (w_now w)),
                          ar_last_refresh_error_message := Some (safe_error_message w exc)\<rparr>
           | Inr (usage, queue) \<Rightarrow>
               a\<lparr>ar_remaining_credits_live := keep_or (cu_remaining_credits usage) (ar_remaining_credits_live a),
                 ar_plan_credits_live := keep_or (cu_plan_credits usage) (ar_plan_credits_live a),
                 ar_billing_period_start := keep_or (cu_billing_period_start usage) (ar_billing_period_start a),
                 ar_billing_period_end := keep_or (cu_billing_period_end usage) (ar_billing_period_end a),
                 ar_queue_active_jobs := keep_or (qs_active_jobs queue) (ar_queue_active_jobs a),
                 ar_queue_max_concurrency := keep_or (qs_max_concurrency queue) (ar_queue_max_concurrency a),
                 ar_last_usage_refresh_at := Some (drop_tz (w_now w)),
                 ar_last_queue_refresh_at := Some (drop_tz (w_now w)),
                 ar_last_refresh_error_at := None, ar_last_refresh_error_message := None\<rparr>))"

lemma refreshed_row_keeps [simp]:
  "ar_id (refreshed_row w d a) = ar_id a" "ar_team_label (refreshed_row w d a) = ar_team_label a"
  "ar_status (refreshed_row w d a) = ar_status a" "ar_cooldown_until (refreshed_row w d a) = ar_cooldown_until a"
  by (simp_all add: refreshed_row_def split: option.split sum.split)

lemma refreshed_row_cong: "db_credentials d = db_credentials d' \<Longrightarrow> refreshed_row w d = refreshed_row w d'"
  by (simp add: refreshed_row_def fun_eq_iff account_credentials_def)

lemma put_account_same:
  assumes "distinct (map ar_id (db_accounts d))" "get_account_record d (ar_id a) = Some a"
  shows "put_account d a = d"
proof -
  have "(if ar_id r = ar_id a then a else r) = r" if "r \<in> set (db_accounts d)" for r
    using assms row_get_distinct [OF assms(1) that] by (auto simp: get_account_record_def)
  then have "row_put ar_id (db_accounts d) a = db_accounts d"
    by (simp add: row_put_def map_idI)
  then show ?thesis by (simp add: put_account_def)
qed

lemma refresh_account_Inr:
  assumes "wf_db d" "get_account_record d (ar_id a) = Some a" "refresh_account w d a = Inr d'"
  shows "d' = put_account d (refreshed_row w d a)"
proof (cases "find (\<lambda>c. cr_status c = ''active'') (account_credentials d (ar_id a))")
  case None
  with assms show ?thesis by (simp add: refresh_account_def refreshed_row_def put_account_same wf_db_def)
next
  case (Some c)
  with assms(3) obtain key where key: "w_decrypt w (cr_api_key_encrypted c) = Inr key"
    by (auto simp: refresh_account_def res_bind_eq_Inr)
  show ?thesis
  proof (cases "fetch_usage w key")
    case (Inl exc)
    with assms(3) Some key show ?thesis
      by (simp add: refresh_account_def refreshed_row_def mark_account_refresh_error_def)
  next
    case (Inr p)
    with assms(3) Some key show ?thesis
      by (cases p) (auto simp: refresh_account_def refreshed_row_def update_account_refresh_success_def)
  qed
qed

lemma refresh_loop_rows:
  assumes "wf_db d" "distinct (map ar_id accs)" "\<forall>a\<in>set accs. get_account_record d (ar_id a) = Some a"
    "refresh_loop w d accs = Inr d'"
  shows "wf_db d' \<and> db_credentials d' = db_credentials d \<and> db_jobs d' = db_jobs d \<and>
    db_request_logs d' = db_request_logs d \<and>
    (\<forall>k. get_account_record d' k =
       (if k \<in> ar_id ` set accs then map_option (refreshed_row w d) (get_account_record d k) else get_account_record d k))"
  using assms
proof (induction accs arbitrary: d)
  case (Cons a accs)
  let ?d = "put_account d (refreshed_row w d a)"
  have a: "get_account_record d (ar_id a) = Some a" using Cons.prems(3) by simp
  from Cons.prems(4) obtain d1 where "refresh_account w d a = Inr d1" "refresh_loop w d1 accs = Inr d'"
    by (auto simp: res_bind_eq_Inr)
  with refresh_account_Inr [OF Cons.prems(1) a] have step: "refresh_loop w ?d accs = Inr d'" by blast
  have wf: "wf_db ?d" using Cons.prems(1) a by (intro wf_put_account) simp_all
  have get: "get_account_record ?d k = (if k = ar_id a then Some (refreshed_row w d a) else get_account_record d k)" for k
    using a by (simp add: accounts.get_put)
  have other: "ar_id b \<noteq> ar_id a" if "b \<in> set accs" for b
    using Cons.prems(2) that by (auto simp: image_iff)
  from Cons.IH [OF wf _ _ step] Cons.prems(2,3) other get a
  show ?case
    using refreshed_row_cong [of ?d d w] by (auto simp: put_simps image_iff)
qed simp

lemma refresh_once_rows:
  assumes "wf_db d" "refresh_once w d = Inr d'"
  shows "wf_db d' \<and> db_credentials d' = db_credentials d \<and> db_jobs d' = db_jobs d \<and>
    db_request_logs d' = db_request_logs d \<and>
    (\<forall>k. get_account_record d' k = map_option (refreshed_row w d) (get_account_record d k))"
proof -
  have "distinct (map ar_id (list_account_records d))"
    using assms(1) by (simp add: list_account_records_def wf_db_def distinct_map)
  moreover have "\<forall>a\<in>set (list_account_records d). get_account_record d (ar_id a) = Some a"
    using assms(1) by (auto simp: list_account_records_def get_account_record_def wf_db_def row_get_distinct)
  moreover have "get_account_record d k = None" if "k \<notin> ar_id ` set (list_account_records d)" for k
    using that by (simp add: list_account_records_def get_account_record_def row_get_None)
  ultimately show ?thesis
    using refresh_loop_rows [OF assms(1) _ _ assms(2) [unfolded refresh_once_def]] by force
qed

lemma refresh_loop_total:
  assumes "\<forall>c\<in>set (db_credentials d). \<exists>key. w_decrypt w (cr_api_key_encrypted c) = Inr key"
  shows "\<exists>d'. refresh_loop w d accs = Inr d'"
  using assms
proof (induction accs arbitrary: d)
  case (Cons a accs)
  have "\<exists>d1. refresh_account w d a = Inr d1 \<and> db_credentials d1 = db_credentials d"
  proof (cases "find (\<lambda>c. cr_status c = ''active'') (account_credentials d (ar_id a))")
    case (Some c)
    then have "c \<in> set (db_credentials d)" by (auto simp: account_credentials_def dest: find_Some_first)
    with Cons.prems Some show ?thesis
      by (auto simp: refresh_account_def update_account_refresh_success_def mark_account_refresh_error_def
          put_simps split: sum.split)
  qed (simp add: refresh_account_def)
  then obtain d1 where "refresh_account w d a = Inr d1" "db_credentials d1 = db_credentials d" by blast
  with Cons show ?case by auto
qed simp

section \<open>Redaction\<close>

lemma starts_Cons: "startswith (c # s) (p # ps) \<longleftrightarrow> c = p \<and> startswith s ps"
  by (simp add: startswith_def)

lemma replaced_starts:
  assumes "startswith (str_replace ''fc-'' ''[redacted]-'' s) (p # ps)" "p \<noteq> CHR ''[''"
  shows "\<exists>s'. s = p # s' \<and> startswith (str_replace ''fc-'' ''[redacted]-'' s') ps"
  using assms str_replace.simps [of "''fc-''" "''[redacted]-''" s]
  by (cases s) (auto simp: starts_Cons startswith_def [of "[]"] split: if_splits)

lemma replaced_free: "\<not> str_in ''fc-'' (str_replace ''fc-'' ''[redacted]-'' s)"
proof (induction "length s" arbitrary: s rule: less_induct)
  case less
  note eq = str_replace.simps [of "''fc-''" "''[redacted]-''" s]
  consider "s = []" | "s \<noteq> []" "startswith s ''fc-''" | "s \<noteq> []" "\<not> startswith s ''fc-''" by blast
  then show ?case
  proof cases
    case 1
    with eq show ?thesis by simp
  next
    case 2
    with less [of "drop (Suc (Suc (Suc 0))) s"] eq show ?thesis by (simp add: starts_Cons)
  next
    case 3
    then obtain c s' where s: "s = c # s'" by (cases s) auto
    have "\<not> startswith (c # str_replace ''fc-'' ''[redacted]-'' s') ''fc-''"
    proof
      assume "startswith (c # str_replace ''fc-'' ''[redacted]-'' s') ''fc-''"
      then have "c = CHR ''f''" "startswith (str_replace ''fc-'' ''[redacted]-'' s') ''c-''" by (simp_all add: starts_Cons)
      then obtain s2 where "s' = CHR ''c'' # s2" "startswith (str_replace ''fc-'' ''[redacted]-'' s2) ''-''"
        using replaced_starts by force
      moreover from this(2) obtain s3 where "s2 = CHR ''-'' # s3" using replaced_starts by force
      ultimately show False using 3(2) s \<open>c = CHR ''f''\<close> by (simp add: starts_Cons startswith_def)
    qed
    with 3 eq less [of s'] s show ?thesis by simp
  qed
qed

lemma str_in_take: "str_in sub (take n s) \<Longrightarrow> str_in sub s"
proof (induction s arbitrary: n)
  case (Cons c s)
  show ?case
  proof (cases n)
    case 0
    with Cons.prems show ?thesis by (simp add: startswith_def)
  next
    case (Suc m)
    have "startswith (c # s) sub" if "startswith (c # take m s) sub"
    proof -
      from that have "take (length sub) (take n (c # s)) = sub" by (simp add: startswith_def Suc)
      then have "sub = take (min (length sub) n) (c # s)" by simp
      then show ?thesis unfolding startswith_def by (metis length_take min.commute min_def take_all take_take)
    qed
    with Cons Suc show ?thesis by auto
  qed
qed simp

section \<open>Properties\<close>

text \<open>
  C11: a refresh pass treats every account on its own: each row becomes its refreshed row (fields
  the upstream did not report keep their values, a failed request only records its error), whatever
  happens to the other accounts; credentials, jobs and logs stay. The pass succeeds whenever the
  stored keys decrypt.
\<close>

theorem refresh_pass_rows:
  assumes "wf_db d" "\<forall>c\<in>set (db_credentials d). \<exists>key. w_decrypt w (cr_api_key_encrypted c) = Inr key"
  shows "\<exists>d'. refresh_once w d = Inr d' \<and> wf_db d' \<and> db_credentials d' = db_credentials d \<and>
    db_jobs d' = db_jobs d \<and> db_request_logs d' = db_request_logs d \<and>
    (\<forall>k. get_account_record d' k = map_option (refreshed_row w d) (get_account_record d k))"
  using refresh_loop_total [OF assms(2)] refresh_once_rows [OF assms(1)] by (metis refresh_once_def)

definition sample_refresh_world :: refresh_world where
  "sample_refresh_world = world.extend (sample_world (sample_answer 200 (JObj [(''remaining'', JInt 7)]) []))
     \<lparr>w_fromisoformat = (\<lambda>_. None), w_exc_str = (\<lambda>_. []), w_exc_class = (\<lambda>_. ''Exception'')\<rparr>"

theorem refresh_pass_rows_witness:
  "\<exists>d'. refresh_once sample_refresh_world sample_db = Inr d' \<and>
     (\<exists>a. get_account_record d' ''a'' = Some a \<and> ar_remaining_credits_live a = Some 7)"
proof -
  have dec: "w_decrypt sample_refresh_world = Inr"
    by (simp add: sample_refresh_world_def sample_world_def world.defs)
  have row: "ar_remaining_credits_live (refreshed_row sample_refresh_world sample_db sample_row) = Some 7"
    by (simp add: refreshed_row_def account_credentials_def sample_db_def sample_key_row_def sample_row_def dec
        fetch_usage_def lift_raise_def client_request_def sample_refresh_world_def sample_world_def world.defs
        sample_answer_def is_json_sample require_success_json_def parse_credit_usage_def nested_data_def
        parse_queue_status_def keep_or_def Let_def)
  have "get_account_record sample_db ''a'' = Some sample_row"
    by (simp add: get_account_record_def sample_db_def sample_row_def row_get_def)
  then show ?thesis
    using refresh_pass_rows [OF sample_db_wf, of sample_refresh_world] dec row by auto
qed

text \<open>
  Refreshing never puts an account back into rotation or takes it out: over any number of
  passes, failed ones included, the status and the cooldown of every account stay as they are.
\<close>

lemma refresh_keeps_status:
  assumes "wf_db d" "get_account_record d k = Some a"
  shows "\<exists>a'. get_account_record (run_passes d ws) k = Some a' \<and> ar_status a' = ar_status a \<and>
    ar_cooldown_until a' = ar_cooldown_until a"
  using assms
proof (induction d ws arbitrary: a rule: run_passes.induct)
  case (2 d w ws)
  show ?case
  proof (cases "refresh_once w d")
    case (Inl e)
    with 2 show ?thesis by simp
  next
    case (Inr d')
    with refresh_once_rows [OF "2.prems"(1) Inr] "2.prems"(2)
    have "wf_db d'" "get_account_record d' k = Some (refreshed_row w d a)" by auto
    with "2.IH" [of "refreshed_row w d a"] Inr show ?thesis by simp
  qed
qed simp

lemma refresh_keeps_status_example:
  "\<exists>a'. get_account_record (run_passes sample_db [sample_refresh_world]) ''a'' = Some a' \<and> ar_status a' = ''active''"
proof -
  have "get_account_record sample_db ''a'' = Some sample_row"
    by (simp add: get_account_record_def sample_db_def sample_row_def row_get_def)
  from refresh_keeps_status [OF sample_db_wf this, of "[sample_refresh_world]"] show ?thesis
    by (auto simp: sample_row_def)
qed

text \<open>
  a stored refresh error has at most 500 characters and never contains the key prefix
  \<open>fc-\<close>; but the redaction replaces only that prefix, so the secret part of a key that an
  exception text quotes is kept.
\<close>

lemma error_message_redaction:
  "length (safe_error_message w exc) \<le> 500 \<and> \<not> str_in ''fc-'' (safe_error_message w exc) \<and>
   safe_error_message w (Labelled ''Bearer fc-s3cret'') = ''[redacted]-s3cret''"
proof -
  have "safe_error_message w (Labelled ''Bearer fc-s3cret'') = ''[redacted]-s3cret''"
    by (simp add: safe_error_message_def redact_def str_replace.simps startswith_def)
  moreover have "length (redact m) \<le> 500 \<and> \<not> str_in ''fc-'' (redact m)" for m
    using str_in_take [of "''fc-''" 500] replaced_free by (metis redact_def length_take min.cobounded2)
  ultimately show ?thesis by (simp add: safe_error_message_def)
qed

end
