(* ===== verification/JsonCodec.thy ===== *)
theory JsonCodec
  imports Json
begin

text \<open>
  Python's \<open>json.dumps\<close> and \<open>json.loads\<close>, which the session tokens and the audit log use. The
  strings of the model are Latin-1, so an escape beyond code point 255 has no value here and is
  rejected; a negative zero is read as zero. The parser takes fuel: at most two nested calls are made
  per character, so more than twice as much fuel as characters is enough (\<open>dumps_parse\<close> shows it
  for every printed value).
\<close>

section \<open>Printing\<close>

fun nat_digits :: "nat \<Rightarrow> string" where
  "nat_digits n = (if n < 10 then [char_of (48 + n)] else nat_digits (n div 10) @ [char_of (48 + n mod 10)])"

declare nat_digits.simps [simp del]

definition py_str_int :: "int \<Rightarrow> string" where
  "py_str_int n = (if n < 0 then ''-'' @ nat_digits (nat (- n)) else nat_digits (nat n))"

definition hex_char :: "nat \<Rightarrow> char" where
  "hex_char n = (if n < 10 then char_of (48 + n) else char_of (87 + n))"

text \<open>\<open>ensure_ascii\<close>: printable ASCII characters stand for themselves, the others are escaped.\<close>

definition escape_char :: "char \<Rightarrow> string" where
  "escape_char c = (let n = of_char c :: nat in
     if n = 34 then [CHR 92, CHR 34]
     else if n = 92 then [CHR 92, CHR 92]
     else if n = 8 then [CHR 92, CHR ''b'']
     else if n = 12 then [CHR 92, CHR ''f'']
     else if n = 10 then [CHR 92, CHR ''n'']
     else if n = 13 then [CHR 92, CHR ''r'']
     else if n = 9 then [CHR 92, CHR ''t'']
     else if 32 \<le> n \<and> n \<le> 126 then [c]
     else [CHR 92, CHR ''u'', CHR ''0'', CHR ''0'', hex_char (n div 16), hex_char (n mod 16)])"

definition dumps_str :: "string \<Rightarrow> string" where
  "dumps_str s = [CHR 34] @ concat (map escape_char s) @ [CHR 34]"

fun join :: "string \<Rightarrow> string list \<Rightarrow> string" where
  "join sep [] = []"
| "join sep [w] = w"
| "join sep (w # w' # ws) = w @ sep @ join sep (w' # ws)"

text \<open>\<open>dumps\<close> with the separators \<open>isep\<close> and \<open>ksep\<close>; \<open>fr\<close> is \<open>float.__repr__\<close> of finite floats.\<close>

fun dumps :: "(rat \<Rightarrow> string) \<Rightarrow> string \<Rightarrow> string \<Rightarrow> json \<Rightarrow> string" where
  "dumps fr isep ksep JNull = ''null''"
| "dumps fr isep ksep (JBool b) = (if b then ''true'' else ''false'')"
| "dumps fr isep ksep (JInt n) = py_str_int n"
| "dumps fr isep ksep (JFloat (Fin q)) = fr q"
| "dumps fr isep ksep (JFloat PosInf) = ''Infinity''"
| "dumps fr isep ksep (JFloat NegInf) = ''-Infinity''"
| "dumps fr isep ksep (JFloat NaN) = ''NaN''"
| "dumps fr isep ksep (JStr s) = dumps_str s"
| "dumps fr isep ksep (JArr xs) = ''['' @ join isep (map (dumps fr isep ksep) xs) @ '']''"
| "dumps fr isep ksep (JObj kvs) =
     ''{'' @ join isep (map (\<lambda>(k, v). dumps_str k @ ksep @ dumps fr isep ksep v) kvs) @ ''}''"

section \<open>Parsing\<close>

definition json_ws :: "char \<Rightarrow> bool" where
  "json_ws c = (c \<in> {CHR 32, CHR 9, CHR 10, CHR 13})"

definition skip_ws :: "string \<Rightarrow> string" where
  "skip_ws s = dropWhile json_ws s"

definition hex_val :: "char \<Rightarrow> nat option" where
  "hex_val c = (let n = of_char c :: nat in
     if 48 \<le> n \<and> n \<le> 57 then Some (n - 48)
     else if 97 \<le> n \<and> n \<le> 102 then Some (n - 87)
     else if 65 \<le> n \<and> n \<le> 70 then Some (n - 55) else None)"

fun hex4 :: "string \<Rightarrow> nat option" where
  "hex4 [a, b, c, d] =
     (case (hex_val a, hex_val b, hex_val c, hex_val d) of
        (Some w, Some x, Some y, Some z) \<Rightarrow> Some (4096 * w + 256 * x + 16 * y + z)
      | _ \<Rightarrow> None)"
| "hex4 _ = None"

definition unescape :: "char \<Rightarrow> char option" where
  "unescape e =
     map_of [(CHR 34, CHR 34), (CHR 92, CHR 92), (CHR ''/'', CHR ''/''), (CHR ''b'', CHR 8),
       (CHR ''f'', CHR 12), (CHR ''n'', CHR 10), (CHR ''r'', CHR 13), (CHR ''t'', CHR 9)] e"

definition cons_fst :: "char \<Rightarrow> (string \<times> string) option \<Rightarrow> (string \<times> string) option" where
  "cons_fst c r = map_option (\<lambda>(t, rest). (c # t, rest)) r"

fun str_body :: "string \<Rightarrow> (string \<times> string) option" where
  "str_body [] = None"
| "str_body (c # s) =
     (if c = CHR 34 then Some ([], s)
      else if c = CHR 92 then
        (case s of
           [] \<Rightarrow> None
         | e # s' \<Rightarrow>
             if e = CHR ''u'' then
               (case hex4 (take 4 s') of
                  None \<Rightarrow> None
                | Some n \<Rightarrow> if n < 256 then cons_fst (char_of n) (str_body (drop 4 s')) else None)
             else (case unescape e of None \<Rightarrow> None | Some ch \<Rightarrow> cons_fst ch (str_body s')))
      else if (of_char c :: nat) < 32 then None
      else cons_fst c (str_body s))"

text \<open>
  Numbers: an integer part without leading zeros, then an optional fraction and an optional
  exponent; with either of them the value is a \<open>float\<close>.
\<close>

definition read_digits :: "string \<Rightarrow> string \<times> string" where
  "read_digits s = (takeWhile is_dec s, dropWhile is_dec s)"

definition read_frac :: "string \<Rightarrow> string \<times> string" where
  "read_frac s =
     (case s of
        c # s' \<Rightarrow> if c = CHR ''.'' \<and> fst (read_digits s') \<noteq> [] then read_digits s' else ([], s)
      | [] \<Rightarrow> ([], s))"

definition read_exp :: "string \<Rightarrow> int option \<times> string" where
  "read_exp s =
     (case s of
        c # s' \<Rightarrow>
          if c = CHR ''e'' \<or> c = CHR ''E'' then
            (let neg = (s' \<noteq> [] \<and> hd s' = CHR ''-'');
                 body = (if s' \<noteq> [] \<and> (hd s' = CHR ''-'' \<or> hd s' = CHR ''+'') then tl s' else s');
                 (ds, rest) = read_digits body
             in if ds = [] then (None, s) else (Some (if neg then - dec_value ds else dec_value ds), rest))
          else (None, s)
      | [] \<Rightarrow> (None, s))"

definition float_of_rat :: "rat \<Rightarrow> pyfloat" where
  "float_of_rat q = (let x = fl q in
     if float_max_exp \<le> x then PosInf else if x \<le> - float_max_exp then NegInf else Fin x)"

text \<open>\<open>sys.get_int_max_str_digits()\<close>.\<close>

definition int_max_str_digits :: nat where "int_max_str_digits = 4300"

definition read_int :: "string \<Rightarrow> string \<times> string" where
  "read_int body = (if body \<noteq> [] \<and> hd body = CHR ''0'' then (''0'', tl body) else read_digits body)"

definition number_value :: "bool \<Rightarrow> string \<Rightarrow> string \<Rightarrow> (json \<times> string) option" where
  "number_value neg ds r1 =
     (let (fs, r2) = read_frac r1; (ex, r3) = read_exp r2; sign = (if neg then -1 else 1)
      in if fs = [] \<and> ex = None
         then (if length ds \<le> int_max_str_digits then Some (JInt (sign * dec_value ds), r3) else None)
         else Some (JFloat (float_of_rat (of_int (sign * dec_value (ds @ fs)) *
                10 powi ((case ex of None \<Rightarrow> 0 | Some e \<Rightarrow> e) - int (length fs)))), r3))"

definition parse_number :: "string \<Rightarrow> (json \<times> string) option" where
  "parse_number s =
     (let neg = (s \<noteq> [] \<and> hd s = CHR ''-'')
      in case read_int (if neg then tl s else s) of
           (ds, r1) \<Rightarrow> if ds = [] then None else number_value neg ds r1)"

definition parse_atom :: "string \<Rightarrow> (json \<times> string) option" where
  "parse_atom s =
     (if startswith s ''null'' then Some (JNull, drop 4 s)
      else if startswith s ''true'' then Some (JBool True, drop 4 s)
      else if startswith s ''false'' then Some (JBool False, drop 5 s)
      else if startswith s ''NaN'' then Some (JFloat NaN, drop 3 s)
      else if startswith s ''Infinity'' then Some (JFloat PosInf, drop 8 s)
      else if startswith s ''-Infinity'' then Some (JFloat NegInf, drop 9 s)
      else parse_number s)"

text \<open>A repeated key keeps its last value.\<close>

fun parse_value :: "nat \<Rightarrow> string \<Rightarrow> (json \<times> string) option"
  and parse_elems :: "nat \<Rightarrow> string \<Rightarrow> (json list \<times> string) option"
  and parse_members :: "nat \<Rightarrow> string \<Rightarrow> ((string \<times> json) list \<times> string) option" where
  "parse_value 0 s = None"
| "parse_value (Suc n) s =
     (case s of
        [] \<Rightarrow> None
      | c # s' \<Rightarrow>
          if c = CHR 34 then map_option (\<lambda>(t, r). (JStr t, r)) (str_body s')
          else if c = CHR ''['' then
            (case skip_ws s' of
               [] \<Rightarrow> None
             | d # r \<Rightarrow> if d = CHR '']'' then Some (JArr [], r)
                        else map_option (\<lambda>(xs, r). (JArr xs, r)) (parse_elems n (d # r)))
          else if c = CHR ''{'' then
            (case skip_ws s' of
               [] \<Rightarrow> None
             | d # r \<Rightarrow> if d = CHR ''}'' then Some (JObj [], r)
                        else map_option (\<lambda>(kvs, r). (JObj (foldl (\<lambda>d (k, v). dict_set k v d) [] kvs), r))
                               (parse_members n (d # r)))
          else parse_atom s)"
| "parse_elems 0 s = None"
| "parse_elems (Suc n) s =
     (case parse_value n s of
        None \<Rightarrow> None
      | Some (v, r) \<Rightarrow>
          (case skip_ws r of
             [] \<Rightarrow> None
           | c # r' \<Rightarrow> if c = CHR '']'' then Some ([v], r')
                       else if c = CHR '','' then map_option (\<lambda>(vs, r). (v # vs, r)) (parse_elems n (skip_ws r'))
                       else None))"
| "parse_members 0 s = None"
| "parse_members (Suc n) s =
     (case s of
        [] \<Rightarrow> None
      | q # s' \<Rightarrow>
          if q \<noteq> CHR 34 then None
          else (case str_body s' of
                  None \<Rightarrow> None
                | Some (k, r) \<Rightarrow>
                    (case skip_ws r of
                       [] \<Rightarrow> None
                     | c # r' \<Rightarrow>
                         if c \<noteq> CHR '':'' then None
                         else (case parse_value n (skip_ws r') of
                                 None \<Rightarrow> None
                               | Some (v, r2) \<Rightarrow>
                                   (case skip_ws r2 of
                                      [] \<Rightarrow> None
                                    | d # r3 \<Rightarrow>
                                        if d = CHR ''}'' then Some ([(k, v)], r3)
                                        else if d = CHR '','' then
                                          map_option (\<lambda>(kvs, r). ((k, v) # kvs, r)) (parse_members n (skip_ws r3))
                                        else None)))))"

definition loads :: "string \<Rightarrow> json res" where
  "loads s =
     (case parse_value (2 * length s + 1) (skip_ws s) of
        None \<Rightarrow> Inl ValueError
      | Some (v, r) \<Rightarrow> if skip_ws r = [] then Inr v else Inl ValueError)"

section \<open>Printing and parsing are inverse\<close>

lemma hex_val_hex_char [simp]: "k < 16 \<Longrightarrow> hex_val (hex_char k) = Some k"
  by (auto simp: hex_val_def hex_char_def Let_def)

lemma of_char_less_256 [simp]: "(of_char c :: nat) < 256"
  by (cases c) (simp add: of_char_def)

lemma char_eq_of_nat: "c = d \<longleftrightarrow> (of_char c :: nat) = of_char d"
  by simp

lemma cons_fst_Some [simp]: "cons_fst c (Some (t, r)) = Some (c # t, r)"
  by (simp add: cons_fst_def)

lemma str_body_escape: "str_body (escape_char c @ t) = cons_fst c (str_body t)"
proof -
  let ?n = "of_char c :: nat"
  have hex: "hex4 [CHR ''0'', CHR ''0'', hex_char (?n div 16), hex_char (?n mod 16)] = Some ?n"
  proof -
    have "hex_val (CHR ''0'') = Some 0" by (simp add: hex_val_def)
    moreover have "?n div 16 < 16" using of_char_less_256 [of c] by linarith
    ultimately show ?thesis by simp
  qed
  consider "?n \<in> {34, 92, 8, 12, 10, 13, 9}" | "?n \<notin> {34, 92}" "32 \<le> ?n" "?n \<le> 126"
    | "?n \<notin> {34, 92, 8, 12, 10, 13, 9}" "\<not> (32 \<le> ?n \<and> ?n \<le> 126)"
    by blast
  then show ?thesis
  proof cases
    case 1
    then have "c = CHR 34 \<or> c = CHR 92 \<or> c = CHR 8 \<or> c = CHR 12 \<or> c = CHR 10 \<or> c = CHR 13 \<or> c = CHR 9"
      unfolding char_eq_of_nat by simp
    then show ?thesis by (elim disjE) (simp_all add: escape_char_def unescape_def)
  next
    case 2
    then have "c \<noteq> CHR 34" "c \<noteq> CHR 92" unfolding char_eq_of_nat by simp_all
    with 2 show ?thesis by (simp add: escape_char_def Let_def)
  next
    case 3
    then have "escape_char c = [CHR 92, CHR ''u'', CHR ''0'', CHR ''0'', hex_char (?n div 16), hex_char (?n mod 16)]"
      by (simp add: escape_char_def Let_def)
    with hex show ?thesis by simp
  qed
qed

lemma str_body_dumps: "str_body (concat (map escape_char s) @ CHR 34 # rest) = Some (s, rest)"
  by (induction s) (simp_all add: str_body_escape del: str_body.simps, simp)

lemma is_dec_char_of [simp]: "k < 10 \<Longrightarrow> is_dec (char_of (48 + k :: nat))"
  by (simp add: is_dec_def)

lemma nat_digits_is_dec: "list_all is_dec (nat_digits n)"
  by (induction n rule: nat_digits.induct) (subst nat_digits.simps, auto)

lemma int_of_char_of [simp]: "(of_char (char_of (k :: nat)) :: int) = int (k mod 256)"
  by (metis of_char_of of_nat_of_char)

lemma dec_value_snoc: "is_dec c \<Longrightarrow> dec_value (s @ [c]) = 10 * dec_value s + (of_char c - 48)"
  by (simp add: dec_value_def)

lemma nat_digits_value: "dec_value (nat_digits n) = int n"
proof (induction n rule: nat_digits.induct)
  case (1 n)
  show ?case
  proof (cases "n < 10")
    case True
    then show ?thesis
      using dec_value_snoc [of "char_of (48 + n)" "[]"]
      by (simp add: nat_digits.simps [of n] dec_value_def)
  next
    case False
    have "10 * int (n div 10) + int (n mod 10) = int n" by (simp add: zdiv_int zmod_int)
    with False 1 show ?thesis
      using dec_value_snoc [of "char_of (48 + n mod 10)" "nat_digits (n div 10)"]
      by (simp add: nat_digits.simps [of n])
  qed
qed

lemma nat_digits_shape: "\<exists>c t. nat_digits n = c # t \<and> is_dec c \<and> (c = CHR ''0'' \<longrightarrow> n = 0 \<and> t = [])"
proof (induction n rule: nat_digits.induct)
  case (1 n)
  show ?case
  proof (cases "n < 10")
    case True
    then have "char_of (48 + n) = CHR ''0'' \<longleftrightarrow> n = 0" unfolding char_eq_of_nat by simp
    with True show ?thesis by (simp add: nat_digits.simps [of n])
  next
    case False
    with 1 show ?thesis by (auto simp: nat_digits.simps [of n])
  qed
qed

lemma nat_digits_length_Suc: "n < 10 ^ Suc k \<Longrightarrow> length (nat_digits n) \<le> Suc k"
proof (induction k arbitrary: n)
  case 0
  then show ?case by (simp add: nat_digits.simps)
next
  case (Suc k)
  show ?case
  proof (cases "n < 10")
    case False
    have "n div 10 < 10 ^ Suc k" using Suc.prems by (simp add: less_mult_imp_div_less mult.commute)
    with Suc.IH [of "n div 10"] False show ?thesis by (simp add: nat_digits.simps [of n])
  qed (simp add: nat_digits.simps)
qed

lemma nat_digits_length: "0 < k \<Longrightarrow> n < 10 ^ k \<Longrightarrow> length (nat_digits n) \<le> k"
  using nat_digits_length_Suc [of n "k - 1"] by (cases k) simp_all

text \<open>What may follow a number so that the number ends there.\<close>

definition number_stop :: "string \<Rightarrow> bool" where
  "number_stop r = (case r of [] \<Rightarrow> True | c # _ \<Rightarrow> \<not> is_dec c \<and> c \<notin> {CHR ''.'', CHR ''e'', CHR ''E''})"

lemma read_stop:
  assumes "number_stop r"
  shows "read_frac r = ([], r)" "read_exp r = (None, r)" "takeWhile is_dec r = []" "dropWhile is_dec r = r"
  using assms by (cases r; simp add: number_stop_def read_frac_def read_exp_def)+

lemma read_digits_nat:
  assumes "number_stop r"
  shows "read_digits (nat_digits n @ r) = (nat_digits n, r)"
  using nat_digits_is_dec [of n] read_stop [OF assms]
  by (simp add: read_digits_def list_all_iff takeWhile_append2 dropWhile_append2)

lemma parse_number_int:
  assumes "number_stop r" "\<bar>n\<bar> < 10 ^ int_max_str_digits"
  shows "parse_number (py_str_int n @ r) = Some (JInt n, r)"
proof -
  let ?ds = "nat_digits (nat \<bar>n\<bar>)"
  obtain c t where shape: "?ds = c # t" "is_dec c" "c = CHR ''0'' \<longrightarrow> nat \<bar>n\<bar> = 0 \<and> t = []"
    using nat_digits_shape by blast
  have c: "c \<noteq> CHR ''-''" using shape(2) by (auto simp: is_dec_def)
  have "nat \<bar>n\<bar> < 10 ^ int_max_str_digits" using assms(2) by (simp add: nat_less_iff)
  then have len: "length ?ds \<le> int_max_str_digits" by (rule nat_digits_length [rotated]) (simp add: int_max_str_digits_def)
  have ds: "read_int (?ds @ r) = (?ds, r)"
    using shape read_digits_nat [OF assms(1), of "nat \<bar>n\<bar>"] by (auto simp: read_int_def)
  have val: "number_value (n < 0) ?ds r = Some (JInt n, r)"
    using len read_stop [OF assms(1)] by (simp add: number_value_def nat_digits_value)
  show ?thesis
  proof (cases "n < 0")
    case True
    then have "py_str_int n @ r = CHR ''-'' # ?ds @ r" by (simp add: py_str_int_def)
    with ds val True shape show ?thesis by (simp add: parse_number_def)
  next
    case False
    then have p: "py_str_int n @ r = ?ds @ r" by (simp add: py_str_int_def)
    have "hd (?ds @ r) \<noteq> CHR ''-''" using c shape by simp
    with ds val False shape show ?thesis unfolding parse_number_def p by simp
  qed
qed

lemma parse_atom_int:
  assumes "number_stop r" "\<bar>n\<bar> < 10 ^ int_max_str_digits"
  shows "parse_atom (py_str_int n @ r) = Some (JInt n, r)"
proof -
  obtain c t where shape: "nat_digits (nat \<bar>n\<bar>) = c # t" "is_dec c" using nat_digits_shape by blast
  have "c \<notin> {CHR ''n'', CHR ''t'', CHR ''f'', CHR ''N'', CHR ''I'', CHR ''-''}"
    using shape(2) by (auto simp: is_dec_def)
  with shape have "\<not> startswith (py_str_int n @ r) w"
    if "w \<in> {''null'', ''true'', ''false'', ''NaN'', ''Infinity'', ''-Infinity''}" for w
    using that by (auto simp: py_str_int_def startswith_def)
  with parse_number_int [OF assms] show ?thesis by (simp add: parse_atom_def)
qed

fun json_plain :: "json \<Rightarrow> bool" where
  "json_plain (JInt n) = (\<bar>n\<bar> < 10 ^ int_max_str_digits)"
| "json_plain (JFloat f) = False"
| "json_plain (JArr xs) = list_all json_plain xs"
| "json_plain (JObj kvs) = (distinct (map fst kvs) \<and> list_all (\<lambda>(k, v). json_plain v) kvs)"
| "json_plain _ = True"

lemma dumps_start:
  assumes "json_plain v"
  shows "\<exists>c t. dumps fr isep ksep v = c # t \<and> \<not> json_ws c \<and> c \<notin> {CHR '']'', CHR ''}''}"
proof (cases v)
  case (JInt n)
  obtain c t where "nat_digits (nat \<bar>n\<bar>) = c # t" "is_dec c" using nat_digits_shape by blast
  moreover from this(2) have "\<not> json_ws c \<and> c \<notin> {CHR '']'', CHR ''}''}"
    by (auto simp: is_dec_def json_ws_def)
  ultimately show ?thesis using JInt by (cases "n < 0") (auto simp: py_str_int_def json_ws_def)
qed (use assms in \<open>auto simp: json_ws_def dumps_str_def\<close>)

lemma skip_ws_start: "\<not> json_ws c \<Longrightarrow> skip_ws (c # t) = c # t"
  by (simp add: skip_ws_def)

lemma skip_ws_append: "list_all json_ws w \<Longrightarrow> skip_ws (w @ t) = skip_ws t"
  by (simp add: skip_ws_def list_all_iff dropWhile_append2)

lemma skip_ws_dumps: "json_plain v \<Longrightarrow> skip_ws (dumps fr isep ksep v @ r) = dumps fr isep ksep v @ r"
  using dumps_start [of v fr isep ksep] by (auto simp: skip_ws_def)

lemma foldl_dict_set_distinct:
  assumes "distinct (map fst (acc @ kvs))"
  shows "foldl (\<lambda>d (k, v). dict_set k v d) acc kvs = acc @ kvs"
  using assms
proof (induction kvs arbitrary: acc)
  case (Cons p kvs)
  obtain k v where p: "p = (k, v)" by force
  have "dict_set k v acc = acc @ [(k, v)]" if "k \<notin> fst ` set acc" for acc :: "('a \<times> 'b) list"
    using that by (induction acc) auto
  with Cons p show ?case by auto
qed simp

text \<open>
  The separators the program uses: a comma or a colon, and white space. With enough fuel the
  parser reads back what was printed and leaves the rest.
\<close>

definition printed :: "(rat \<Rightarrow> string) \<Rightarrow> string \<Rightarrow> string \<Rightarrow> json \<Rightarrow> bool" where
  "printed fr isep ksep v = (\<forall>n r. number_stop r \<longrightarrow> 2 * length (dumps fr isep ksep v) < n \<longrightarrow>
     parse_value n (dumps fr isep ksep v @ r) = Some (v, r))"

lemma number_stop_sep [simp]:
  "number_stop (CHR '','' # s)" "number_stop (CHR '']'' # s)" "number_stop (CHR ''}'' # s)" "number_stop []"
  by (simp_all add: number_stop_def is_dec_def)

lemma parse_elems_printed:
  assumes "xs \<noteq> []" "list_all json_plain xs" "list_all (printed fr isep ksep) xs"
    "isep = CHR '','' # w" "list_all json_ws w"
    "2 * length (join isep (map (dumps fr isep ksep) xs)) + 1 < n"
  shows "parse_elems n (join isep (map (dumps fr isep ksep) xs) @ CHR '']'' # r) = Some (xs, r)"
  using assms(1-3,6)
proof (induction xs arbitrary: n)
  case (Cons x xs)
  let ?D = "dumps fr isep ksep"
  obtain m where n: "n = Suc m" using Cons.prems(4) by (cases n) auto
  show ?case
  proof (cases xs)
    case Nil
    have "parse_value m (?D x @ CHR '']'' # r) = Some (x, CHR '']'' # r)"
      using Cons.prems n Nil by (simp add: printed_def)
    with Nil n show ?thesis by (simp add: skip_ws_def json_ws_def)
  next
    case (Cons y ys)
    let ?rest = "join isep (map ?D xs) @ CHR '']'' # r"
    have "parse_value m (?D x @ CHR '','' # w @ ?rest) = Some (x, CHR '','' # w @ ?rest)"
      using Cons.prems n by (simp add: printed_def Cons)
    moreover have "skip_ws (w @ ?rest) = ?rest"
      using Cons.prems(2) skip_ws_dumps [of y fr isep ksep] assms(5)
      by (cases ys) (simp_all add: skip_ws_append Cons)
    moreover have "parse_elems m ?rest = Some (xs, r)"
      using Cons.IH [of m] Cons.prems n assms(4) by (simp add: Cons)
    ultimately show ?thesis using n assms(4) by (simp add: Cons skip_ws_start json_ws_def)
  qed
qed simp

lemma parse_members_printed:
  assumes "kvs \<noteq> []" "list_all (\<lambda>(k, v). json_plain v) kvs" "list_all (\<lambda>(k, v). printed fr isep ksep v) kvs"
    "isep = CHR '','' # w" "list_all json_ws w" "ksep = CHR '':'' # w'" "list_all json_ws w'"
    "2 * length (join isep (map (\<lambda>(k, v). dumps_str k @ ksep @ dumps fr isep ksep v) kvs)) + 1 < n"
  shows "parse_members n (join isep (map (\<lambda>(k, v). dumps_str k @ ksep @ dumps fr isep ksep v) kvs) @ CHR ''}'' # r) =
    Some (kvs, r)"
  using assms(1-3,8)
proof (induction kvs arbitrary: n)
  case (Cons p kvs)
  let ?D = "dumps fr isep ksep" and ?E = "\<lambda>(k, v). dumps_str k @ ksep @ dumps fr isep ksep v"
  obtain m where n: "n = Suc m" using Cons.prems(4) by (cases n) auto
  obtain k v where p: "p = (k, v)" by force
  have key: "parse_members n (?E p @ s) =
      (case parse_value m (?D v @ s) of
         None \<Rightarrow> None
       | Some (v, r2) \<Rightarrow>
           (case skip_ws r2 of
              [] \<Rightarrow> None
            | d # r3 \<Rightarrow>
                if d = CHR ''}'' then Some ([(k, v)], r3)
                else if d = CHR '','' then map_option (\<lambda>(kvs, r). ((k, v) # kvs, r)) (parse_members m (skip_ws r3))
                else None))" for s
    using Cons.prems(2) assms(6,7) n skip_ws_dumps [of v fr isep ksep s]
    by (simp add: p dumps_str_def str_body_dumps skip_ws_start json_ws_def skip_ws_append del: str_body.simps)
  show ?case
  proof (cases kvs)
    case Nil
    have "parse_value m (?D v @ CHR ''}'' # r) = Some (v, CHR ''}'' # r)"
      using Cons.prems n Nil p assms(6) by (simp add: printed_def)
    with Nil key show ?thesis by (simp add: p skip_ws_start json_ws_def)
  next
    case (Cons q kvs')
    let ?rest = "join isep (map ?E kvs) @ CHR ''}'' # r"
    have "parse_value m (?D v @ CHR '','' # w @ ?rest) = Some (v, CHR '','' # w @ ?rest)"
      using Cons.prems n p by (simp add: printed_def Cons)
    moreover have "skip_ws (w @ ?rest) = ?rest"
      using assms(5) by (cases kvs') (simp_all add: skip_ws_append skip_ws_start Cons dumps_str_def json_ws_def split: prod.split)
    moreover have "parse_members m ?rest = Some (kvs, r)"
      using Cons.IH [of m] Cons.prems n assms(4) by (simp add: Cons p)
    moreover have "join isep (map ?E (p # kvs)) @ CHR ''}'' # r = ?E p @ CHR '','' # w @ ?rest"
      using assms(4) by (simp add: Cons)
    ultimately show ?thesis using key by (simp add: p skip_ws_start json_ws_def)
  qed
qed simp

lemma parse_value_atom:
  assumes "0 < n" "s \<noteq> []" "hd s \<notin> {CHR 34, CHR ''['', CHR ''{''}"
  shows "parse_value n s = parse_atom s"
  using assms by (cases n; cases s) auto

lemma printed_scalars:
  "printed fr isep ksep JNull" "printed fr isep ksep (JBool b)" "printed fr isep ksep (JStr t)"
  "\<bar>i\<bar> < 10 ^ int_max_str_digits \<Longrightarrow> printed fr isep ksep (JInt i)"
proof -
  show "printed fr isep ksep JNull" "printed fr isep ksep (JBool b)"
    by (auto simp: printed_def parse_value_atom parse_atom_def startswith_def)
  show "printed fr isep ksep (JStr t)"
    unfolding printed_def
  proof (intro allI impI)
    fix n r assume "2 * length (dumps fr isep ksep (JStr t)) < n"
    then obtain m where "n = Suc m" by (cases n) auto
    then show "parse_value n (dumps fr isep ksep (JStr t) @ r) = Some (JStr t, r)"
      by (simp add: dumps_str_def str_body_dumps del: str_body.simps)
  qed
  assume i: "\<bar>i\<bar> < 10 ^ int_max_str_digits"
  obtain c u where shape: "nat_digits (nat \<bar>i\<bar>) = c # u" "is_dec c" using nat_digits_shape by blast
  have "c \<notin> {CHR 34, CHR ''['', CHR ''{''}" using shape(2) by (auto simp: is_dec_def)
  then have "py_str_int i @ r \<noteq> [] \<and> hd (py_str_int i @ r) \<notin> {CHR 34, CHR ''['', CHR ''{''}" for r
    using shape(1) by (auto simp: py_str_int_def)
  with parse_atom_int [OF _ i] show "printed fr isep ksep (JInt i)"
    by (simp add: printed_def parse_value_atom)
qed

lemma dumps_parse:
  assumes "isep = CHR '','' # w" "list_all json_ws w" "ksep = CHR '':'' # w'" "list_all json_ws w'"
  shows "json_plain v \<Longrightarrow> printed fr isep ksep v"
proof (induction v)
  case (JArr xs)
  have "parse_value n (dumps fr isep ksep (JArr xs) @ r) = Some (JArr xs, r)"
    if n: "2 * length (dumps fr isep ksep (JArr xs)) < n" for n r
  proof (cases xs)
    case Nil
    with n show ?thesis by (cases n) (simp_all add: skip_ws_start json_ws_def)
  next
    case (Cons y ys)
    let ?b = "join isep (map (dumps fr isep ksep) xs)"
    obtain m where m: "n = Suc m" "2 * length ?b + 1 < m" using n by (cases n) auto
    have "parse_elems m (?b @ CHR '']'' # r) = Some (xs, r)"
      using JArr Cons m assms by (intro parse_elems_printed) (auto simp: list_all_iff)
    moreover obtain c t where "?b @ CHR '']'' # r = c # t" "\<not> json_ws c" "c \<noteq> CHR '']''"
      using JArr Cons dumps_start [of y fr isep ksep] by (cases ys) (auto simp: )
    ultimately show ?thesis using m(1) by (simp add: skip_ws_start)
  qed
  then show ?case by (simp add: printed_def)
next
  case (JObj kvs)
  have "parse_value n (dumps fr isep ksep (JObj kvs) @ r) = Some (JObj kvs, r)"
    if n: "2 * length (dumps fr isep ksep (JObj kvs)) < n" for n r
  proof (cases kvs)
    case Nil
    with n show ?thesis by (cases n) (simp_all add: skip_ws_start json_ws_def)
  next
    case (Cons y ys)
    let ?b = "join isep (map (\<lambda>(k, v). dumps_str k @ ksep @ dumps fr isep ksep v) kvs)"
    obtain m where m: "n = Suc m" "2 * length ?b + 1 < m" using n by (cases n) auto
    have pr: "list_all (\<lambda>(k, v). printed fr isep ksep v) kvs"
      using JObj by (auto simp: list_all_iff)
    have "parse_members m (?b @ CHR ''}'' # r) = Some (kvs, r)"
      using JObj.prems Cons m pr by (intro parse_members_printed [OF _ _ pr assms]) simp_all
    moreover obtain t where "?b @ CHR ''}'' # r = CHR 34 # t"
      using Cons by (cases y; cases ys) (auto simp: dumps_str_def)
    moreover have "foldl (\<lambda>d (k, v). dict_set k v d) [] kvs = kvs"
      using foldl_dict_set_distinct [of "[]" kvs] JObj.prems by simp
    ultimately show ?thesis using m(1) by (simp add: skip_ws_start json_ws_def)
  qed
  then show ?case by (simp add: printed_def)
qed (simp_all add: printed_scalars)

theorem loads_dumps:
  assumes "json_plain v" "isep = CHR '','' # w" "list_all json_ws w" "ksep = CHR '':'' # w'" "list_all json_ws w'"
  shows "loads (dumps fr isep ksep v) = Inr v"
proof -
  let ?d = "dumps fr isep ksep v"
  have "parse_value (2 * length ?d + 1) (?d @ []) = Some (v, [])"
    using dumps_parse [OF assms(2-5,1), of fr] unfolding printed_def by (metis less_add_one number_stop_sep(4))
  moreover have "skip_ws ?d = ?d" using skip_ws_dumps [OF assms(1), of fr isep ksep "[]"] by simp
  ultimately show ?thesis by (simp add: loads_def skip_ws_def del: parse_value.simps)
qed

end
