(* ===== verification/Caches.thy ===== *)
theory Caches
  imports Complex_Main Prelude
begin

text \<open>
  The in-process caches: \<open>SettingsCache\<close> (\<open>src/app/core/config/settings_cache.py\<close>),
  \<open>FirewallIPCache\<close> (\<open>src/app/core/middleware/firewall_cache.py\<close>) and the cross-process
  invalidation of \<open>src/app/core/cache/invalidation.py\<close>. Times are values of \<open>time.monotonic()\<close>.
\<close>

section \<open>The settings cache\<close>

record 'v settings_cache =
  sc_ttl_seconds :: rat
  sc_cached_settings :: "'v option"
  sc_cached_at :: rat

definition new_settings_cache :: "rat \<Rightarrow> 'v settings_cache res" where
  "new_settings_cache ttl_seconds =
     (if ttl_seconds \<le> 0 then Inl ValueError
      else Inr \<lparr>sc_ttl_seconds = ttl_seconds, sc_cached_settings = None, sc_cached_at = 0\<rparr>)"

definition fresh_settings :: "rat \<Rightarrow> 'v settings_cache \<Rightarrow> 'v option" where
  "fresh_settings now c =
     (case sc_cached_settings c of
        Some v \<Rightarrow> if now - sc_cached_at c < sc_ttl_seconds c then Some v else None
      | None \<Rightarrow> None)"

text \<open>
  \<open>get\<close>: the check before the lock, the check under the lock at a later time, and the load from
  the database, whose result is stored with the time read under the lock.
\<close>

definition settings_get :: "rat \<Rightarrow> rat \<Rightarrow> 'v \<Rightarrow> 'v settings_cache \<Rightarrow> 'v settings_cache \<times> 'v" where
  "settings_get now locked_now loaded c =
     (case fresh_settings now c of
        Some v \<Rightarrow> (c, v)
      | None \<Rightarrow>
          (case fresh_settings locked_now c of
             Some v \<Rightarrow> (c, v)
           | None \<Rightarrow> (c\<lparr>sc_cached_settings := Some loaded, sc_cached_at := locked_now\<rparr>, loaded)))"

definition settings_invalidate :: "'v settings_cache \<Rightarrow> 'v settings_cache" where
  "settings_invalidate c = c\<lparr>sc_cached_settings := None, sc_cached_at := 0\<rparr>"

section \<open>The firewall cache\<close>

record cached_decision =
  cd_allowed :: bool
  cd_expires_at :: rat

record firewall_cache =
  fc_ttl_seconds :: rat
  fc_cache :: "(string \<times> cached_decision) list"
  fc_version :: int

definition DEFAULT_FIREWALL_IP_CACHE_TTL_SECONDS :: rat where
  "DEFAULT_FIREWALL_IP_CACHE_TTL_SECONDS = 30"

definition new_firewall_cache :: "rat \<Rightarrow> firewall_cache res" where
  "new_firewall_cache ttl_seconds =
     (if ttl_seconds \<le> 0 then Inl ValueError
      else Inr \<lparr>fc_ttl_seconds = ttl_seconds, fc_cache = [], fc_version = 0\<rparr>)"

definition is_allowed :: "rat \<Rightarrow> string \<Rightarrow> firewall_cache \<Rightarrow> bool option" where
  "is_allowed now ip c =
     (case map_of (fc_cache c) ip of
        None \<Rightarrow> None
      | Some entry \<Rightarrow> if cd_expires_at entry \<le> now then None else Some (cd_allowed entry))"

definition cache_set :: "rat \<Rightarrow> string \<Rightarrow> bool \<Rightarrow> int option \<Rightarrow> firewall_cache \<Rightarrow> firewall_cache" where
  "cache_set now ip allowed if_version c =
     (if if_version \<noteq> None \<and> if_version \<noteq> Some (fc_version c) then c
      else c\<lparr>fc_cache := dict_set ip \<lparr>cd_allowed = allowed, cd_expires_at = now + fc_ttl_seconds c\<rparr> (fc_cache c)\<rparr>)"

definition invalidate_all :: "firewall_cache \<Rightarrow> firewall_cache" where
  "invalidate_all c = c\<lparr>fc_cache := [], fc_version := fc_version c + 1\<rparr>"

definition get_firewall_ip_cache :: "firewall_cache option \<Rightarrow> rat option \<Rightarrow> firewall_cache res" where
  "get_firewall_ip_cache global configured =
     (case global of
        Some c \<Rightarrow> Inr c
      | None \<Rightarrow> new_firewall_cache (case configured of None \<Rightarrow> DEFAULT_FIREWALL_IP_CACHE_TTL_SECONDS | Some n \<Rightarrow> n))"

section \<open>Caches that expire\<close>

text \<open>
  The common contract: what a cache returns at a time was stored at an earlier time, less than the
  time to live ago, and nothing is returned after an invalidation until it is stored again.
\<close>

locale ttl_cache =
  fixes lookup :: "rat \<Rightarrow> 'k \<Rightarrow> 'c \<Rightarrow> 'v option"
    and store :: "rat \<Rightarrow> 'k \<Rightarrow> 'v \<Rightarrow> 'c \<Rightarrow> 'c"
    and invalidate :: "'c \<Rightarrow> 'c"
    and ttl :: "'c \<Rightarrow> rat"
  assumes lookup_store: "lookup now k (store t k' v c) =
      (if k = k' then (if now - t < ttl c then Some v else None) else lookup now k c)"
    and lookup_invalidate: "lookup now k (invalidate c) = None"
    and ttl_store: "ttl (store t k v c) = ttl c"
    and ttl_invalidate: "ttl (invalidate c) = ttl c"
begin

text \<open>A history of writes: stores and invalidations.\<close>

fun after :: "'c \<Rightarrow> (rat \<times> 'k \<times> 'v) option list \<Rightarrow> 'c" where
  "after c [] = c"
| "after c (None # ws) = after (invalidate c) ws"
| "after c (Some (t, k, v) # ws) = after (store t k v c) ws"

lemma ttl_after [simp]: "ttl (after c ws) = ttl c"
  by (induction c ws rule: after.induct) (simp_all add: ttl_store ttl_invalidate)

lemma after_append: "after c (ws @ ws') = after (after c ws) ws'"
  by (induction c ws rule: after.induct) simp_all

lemma lookup_after:
  assumes "lookup now k (after c ws) = Some v" "\<And>t. lookup t k c = None"
  shows "\<exists>t pre post. ws = pre @ Some (t, k, v) # post \<and> now - t < ttl c \<and> None \<notin> set post"
  using assms
proof (induction ws rule: rev_induct)
  case (snoc w ws)
  show ?case
  proof (cases w)
    case None
    with snoc.prems(1) show ?thesis by (simp add: after_append lookup_invalidate)
  next
    case (Some p)
    then obtain t k' v' where w: "w = Some (t, k', v')" by (cases p) auto
    show ?thesis
    proof (cases "k = k'")
      case True
      with snoc.prems(1) w show ?thesis
        by (fastforce simp: after_append lookup_store split: if_splits)
    next
      case False
      with snoc.prems w have "lookup now k (after c ws) = Some v" by (simp add: after_append lookup_store)
      from snoc.IH [OF this snoc.prems(2)] obtain t0 pre post where
        "ws = pre @ Some (t0, k, v) # post" "now - t0 < ttl c" "None \<notin> set post" by auto
      with w show ?thesis by (intro exI [of _ t0] exI [of _ pre] exI [of _ "post @ [w]"]) auto
    qed
  qed
qed simp

end

interpretation settings: ttl_cache "\<lambda>now (_ :: unit). fresh_settings now"
  "\<lambda>t _ v c. c\<lparr>sc_cached_settings := Some v, sc_cached_at := t\<rparr>" settings_invalidate sc_ttl_seconds
  by unfold_locales (auto simp: fresh_settings_def settings_invalidate_def)

interpretation firewall: ttl_cache is_allowed "\<lambda>t ip v. cache_set t ip v None" invalidate_all fc_ttl_seconds
  by unfold_locales (auto simp: is_allowed_def cache_set_def invalidate_all_def algebra_simps)

section \<open>Invalidation across processes\<close>

text \<open>The table \<open>cache_invalidations\<close> is a dictionary from namespaces to versions.
  The three dialects of \<open>bump\<close> have the same effect. \<open>fails\<close> is an exception of the database: it is
  logged and the bump is lost.\<close>

definition bump :: "bool \<Rightarrow> string \<Rightarrow> (string \<times> int) list \<Rightarrow> (string \<times> int) list" where
  "bump fails namespace table =
     (if fails then table
      else case map_of table namespace of
             None \<Rightarrow> dict_set namespace 1 table
           | Some version \<Rightarrow> dict_set namespace (version + 1) table)"

record poller =
  po_known_versions :: "(string \<times> int) list"
  po_callbacks :: "(string \<times> nat) list"
  po_poll_initialized :: bool

definition new_poller :: poller where
  "new_poller = \<lparr>po_known_versions = [], po_callbacks = [], po_poll_initialized = False\<rparr>"

text \<open>Callbacks are named by numbers; a callback that raises is logged, so it counts as called.\<close>

definition on_invalidation :: "string \<Rightarrow> nat \<Rightarrow> poller \<Rightarrow> poller" where
  "on_invalidation namespace callback p = p\<lparr>po_callbacks := po_callbacks p @ [(namespace, callback)]\<rparr>"

definition callbacks_of :: "poller \<Rightarrow> string \<Rightarrow> nat list" where
  "callbacks_of p namespace = map snd (filter (\<lambda>(n, cb). n = namespace) (po_callbacks p))"

definition must_notify :: "poller \<Rightarrow> string \<Rightarrow> int \<Rightarrow> bool" where
  "must_notify p namespace version =
     (case map_of (po_known_versions p) namespace of
        Some prev \<Rightarrow> version \<noteq> prev
      | None \<Rightarrow> po_poll_initialized p \<and> 0 < version)"

fun poll_rows :: "poller \<Rightarrow> (string \<times> int) list \<Rightarrow> poller \<times> nat list" where
  "poll_rows p [] = (p, [])"
| "poll_rows p ((namespace, version) # rows) =
     (let called = (if must_notify p namespace version then callbacks_of p namespace else []);
          p' = p\<lparr>po_known_versions := dict_set namespace version (po_known_versions p)\<rparr>
      in case poll_rows p' rows of (p'', cs) \<Rightarrow> (p'', called @ cs))"

text \<open>One poll; \<open>None\<close> rows are a failed query. Gives the callbacks it called.\<close>

definition poll_once :: "(string \<times> int) list option \<Rightarrow> poller \<Rightarrow> poller \<times> nat list" where
  "poll_once rows p =
     (case rows of
        None \<Rightarrow> (p, [])
      | Some rows \<Rightarrow>
          (case poll_rows p rows of (p', called) \<Rightarrow> (p'\<lparr>po_poll_initialized := True\<rparr>, called)))"

lemma poll_rows_callbacks [simp]:
  "po_callbacks (fst (poll_rows p rows)) = po_callbacks p"
  "po_poll_initialized (fst (poll_rows p rows)) = po_poll_initialized p"
  by (induction p rows rule: poll_rows.induct) (auto simp: Let_def split: prod.splits)

lemma poll_rows_known:
  "distinct (map fst rows) \<Longrightarrow>
   map_of (po_known_versions (fst (poll_rows p rows))) n =
     (case map_of rows n of Some v \<Rightarrow> Some v | None \<Rightarrow> map_of (po_known_versions p) n)"
proof (induction p rows rule: poll_rows.induct)
  case (2 p ns v rows)
  then have "map_of rows ns = None" by (simp add: map_of_eq_None_iff)
  with 2 show ?case by (auto simp: Let_def split: prod.splits option.splits)
qed simp

lemma poll_rows_called:
  assumes "distinct (map fst rows)" "map_of rows n = Some v" "must_notify p n v" "cb \<in> set (callbacks_of p n)"
  shows "cb \<in> set (snd (poll_rows p rows))"
  using assms
proof (induction p rows rule: poll_rows.induct)
  case (2 p ns ver rows)
  show ?case
  proof (cases "ns = n")
    case True
    with 2 show ?thesis by (auto simp: Let_def split: prod.splits)
  next
    case False
    let ?p = "p\<lparr>po_known_versions := dict_set ns ver (po_known_versions p)\<rparr>"
    have "must_notify ?p n v = must_notify p n v" using False by (simp add: must_notify_def split: option.split)
    moreover have "callbacks_of ?p n = callbacks_of p n" by (simp add: callbacks_of_def)
    ultimately have "cb \<in> set (snd (poll_rows ?p rows))" using 2 False by auto
    then show ?thesis by (auto simp: Let_def split: prod.splits)
  qed
qed simp

lemma bump_map_of: "map_of (bump False n table) k = (if k = n then Some (case map_of table n of None \<Rightarrow> 1 | Some v \<Rightarrow> v + 1) else map_of table k)"
  by (auto simp: bump_def split: option.split)

text \<open>The bumps that succeeded, in order.\<close>

fun bumps :: "string list \<Rightarrow> (string \<times> int) list \<Rightarrow> (string \<times> int) list" where
  "bumps [] table = table"
| "bumps (n # ns) table = bumps ns (bump False n table)"

lemma bumps_version:
  assumes "map_of table n = Some v"
  shows "map_of (bumps ns table) n = Some (v + int (count_list ns n))"
  using assms by (induction ns arbitrary: table v) (auto simp: bump_map_of)

lemma bumps_new:
  assumes "map_of table n = None" "n \<in> set ns"
  shows "\<exists>v. map_of (bumps ns table) n = Some v \<and> 0 < v"
  using assms
proof (induction ns arbitrary: table)
  case (Cons m ns)
  show ?case
  proof (cases "m = n")
    case True
    with Cons.prems bumps_version [of "bump False m table" n 1 ns] show ?thesis by (auto simp: bump_map_of)
  next
    case False
    with Cons show ?thesis by (auto simp: bump_map_of)
  qed
qed simp

lemma dict_set_distinct: "distinct (map fst d) \<Longrightarrow> distinct (map fst (dict_set k v d))"
proof (induction d)
  case (Cons p d)
  have "fst ` set (dict_set k v d) = insert k (fst ` set d)"
    unfolding dom_map_of_conv_image_fst [symmetric] by auto
  with Cons show ?case by (cases p) auto
qed simp

lemma bumps_distinct: "distinct (map fst table) \<Longrightarrow> distinct (map fst (bumps ns table))"
  by (induction ns arbitrary: table) (auto simp: bump_def dict_set_distinct split: option.split)

text \<open>
  An invalidation reaches every process. A poller that has polled once calls all callbacks of a
  namespace at its next successful poll when the namespace was successfully bumped at least once in between, by
  whatever process and together with whatever other bumps.
\<close>

lemma invalidation_reaches:
  assumes "distinct (map fst table)" "namespace \<in> set bumped" "cb \<in> set (callbacks_of p namespace)"
    and "map_of (po_known_versions p) namespace \<noteq> None \<Longrightarrow> map_of table namespace \<noteq> None"
  shows "cb \<in> set (snd (poll_once (Some (bumps bumped table)) (fst (poll_once (Some table) p))))"
proof -
  let ?p = "fst (poll_once (Some table) p)"
  have p: "?p = (fst (poll_rows p table))\<lparr>po_poll_initialized := True\<rparr>"
    by (simp add: poll_once_def split: prod.split)
  have known: "map_of (po_known_versions ?p) namespace = map_of table namespace"
    using poll_rows_known [OF assms(1), of p namespace] assms(4)
    by (cases "map_of (po_known_versions p) namespace"; cases "map_of table namespace") (simp_all add: p)
  obtain v where v: "map_of (bumps bumped table) namespace = Some v" "must_notify ?p namespace v"
  proof (cases "map_of table namespace")
    case None
    with bumps_new [OF None assms(2)] known that show ?thesis by (auto simp: must_notify_def p)
  next
    case (Some v0)
    have "0 < count_list bumped namespace" using assms(2) by (induction bumped) auto
    with bumps_version [OF Some, of bumped] known Some that show ?thesis by (auto simp: must_notify_def)
  qed
  have "cb \<in> set (callbacks_of ?p namespace)" using assms(3) by (simp add: p callbacks_of_def)
  from poll_rows_called [OF bumps_distinct [OF assms(1)] v this]
  show ?thesis by (auto simp: poll_once_def split: prod.splits)
qed

text \<open>
  The settings cache is never staler than its time to live. Whatever was stored and invalidated
  before, a value that \<open>get\<close> answers without loading was stored less than the time to live ago and
  not invalidated since; otherwise \<open>get\<close> loads, and stores, the current value.
\<close>

theorem settings_get_fresh:
  assumes "sc_cached_settings c = None"
    "settings_get now locked_now loaded (settings.after c ws) = (c', v)" "now \<le> locked_now"
  shows "(v = loaded \<and> fresh_settings locked_now c' = (if 0 < sc_ttl_seconds c then Some loaded else None)) \<or>
    (\<exists>t pre post. ws = pre @ Some (t, (), v) # post \<and> now - t < sc_ttl_seconds c \<and> None \<notin> set post)"
proof -
  have none: "fresh_settings t c = None" for t using assms(1) by (simp add: fresh_settings_def)
  have hit: "\<exists>t pre post. ws = pre @ Some (t, (), v) # post \<and> now' - t < sc_ttl_seconds c \<and> None \<notin> set post"
    if "fresh_settings now' (settings.after c ws) = Some v" for now'
    using settings.lookup_after [OF that none] by simp
  show ?thesis
  proof (cases "fresh_settings now (settings.after c ws) = Some v")
    case True
    with hit show ?thesis by blast
  next
    case False
    show ?thesis
    proof (cases "fresh_settings locked_now (settings.after c ws) = Some v \<and> fresh_settings now (settings.after c ws) = None")
      case True
      then have "fresh_settings now (settings.after c ws) = Some v"
        using assms(3) by (auto simp: fresh_settings_def split: option.splits if_splits)
      with True show ?thesis by simp
    next
      case not_locked: False
      have "fresh_settings now (settings.after c ws) = None" "fresh_settings locked_now (settings.after c ws) = None"
        using assms(2) False not_locked by (auto simp: settings_get_def split: option.splits)
      then have "v = loaded" "c' = (settings.after c ws)\<lparr>sc_cached_settings := Some loaded, sc_cached_at := locked_now\<rparr>"
        using assms(2) by (auto simp: settings_get_def)
      then show ?thesis using settings.ttl_after [of c ws] by (simp add: fresh_settings_def)
    qed
  qed
qed

end
