(* ===== verification/Limiters.thy ===== *)
theory Limiters
  imports Complex_Main Prelude
begin

text \<open>
  Sliding-window limits: the retry budget of \<open>src/app/core/resilience/retry_budget.py\<close>, a queue of
  time stamps in memory, and \<open>DatabaseRateLimiter\<close> of
  \<open>src/app/core/rate_limiter/db_rate_limiter.py\<close>, rows of the table \<open>rate_limit_attempts\<close>.
  Their common contract is the locale \<open>sliding_window\<close>. Times of the retry budget are values of
  \<open>time.monotonic()\<close>; times of the limiter are UTC microseconds (the source normalizes naive values
  to UTC before it computes with them).
\<close>

section \<open>The contract\<close>

text \<open>
  An attempt at a time is granted exactly when fewer than the limit of the stamps lie in the
  window that ends at that time; a grant adds its own stamp to the window, a refusal leaves the
  window as it was. \<open>ok now s\<close> is what the representation needs of a state at a time.
\<close>

locale sliding_window =
  fixes stamps :: "'s \<Rightarrow> 't :: linordered_idom list"
    and acquire :: "'t \<Rightarrow> 's \<Rightarrow> 's \<times> bool"
    and ok :: "'t \<Rightarrow> 's \<Rightarrow> bool"
    and window :: 't
    and limit :: int
  assumes grant: "ok now s \<Longrightarrow> acquire now s = (s', True) \<Longrightarrow>
      int (length (filter ((\<le>) (now - window)) (stamps s))) < limit \<and>
      filter ((\<le>) (now - window)) (stamps s') = filter ((\<le>) (now - window)) (stamps s) @ [now]"
    and refuse: "ok now s \<Longrightarrow> acquire now s = (s', False) \<Longrightarrow>
      limit \<le> int (length (filter ((\<le>) (now - window)) (stamps s))) \<and>
      filter ((\<le>) (now - window)) (stamps s') = filter ((\<le>) (now - window)) (stamps s)"
    and ok_step: "ok now s \<Longrightarrow> acquire now s = (s', b) \<Longrightarrow> ok now s'"
    and ok_later: "ok now s \<Longrightarrow> now \<le> later \<Longrightarrow> ok later s"
    and window_nonneg: "0 \<le> window"
begin

text \<open>The times at which a run of attempts was granted.\<close>

fun granted :: "'s \<Rightarrow> 't list \<Rightarrow> 't list" where
  "granted s [] = []"
| "granted s (t # ts) = (case acquire t s of (s', b) \<Rightarrow> (if b then [t] else []) @ granted s' ts)"

lemma filter_later:
  assumes "a \<le> b" "filter ((\<le>) a) xs = filter ((\<le>) a) ys"
  shows "filter ((\<le>) b) xs = filter ((\<le>) b) (ys :: 't list)"
proof -
  have "filter ((\<le>) b) xs = filter ((\<le>) b) (filter ((\<le>) a) xs)" for xs :: "'t list"
    using assms(1) by (auto simp: intro!: filter_cong)
  with assms(2) show ?thesis by metis
qed

lemma granted_bounded_past:
  assumes "sorted (now # ts)" "ok now s"
    "\<And>t. now \<le> t \<Longrightarrow> filter ((\<le>) (t - window)) past = filter ((\<le>) (t - window)) (stamps s)"
    "\<And>a. int (length (filter (\<lambda>x. a \<le> x \<and> x \<le> a + window) past)) \<le> limit"
  shows "int (length (filter (\<lambda>x. a \<le> x \<and> x \<le> a + window) (past @ granted s ts))) \<le> limit"
  using assms
proof (induction s ts arbitrary: now past rule: granted.induct)
  case (1 s)
  then show ?case by simp
next
  case (2 s t ts)
  obtain s' b where acq: "acquire t s = (s', b)" by fastforce
  have le: "now \<le> t" "sorted (t # ts)" using "2.prems"(1) by auto
  have ok: "ok t s" using ok_later [OF "2.prems"(2) le(1)] .
  have past: "filter ((\<le>) (t - window)) past = filter ((\<le>) (t - window)) (stamps s)"
    using "2.prems"(3) [OF le(1)] .
  let ?past = "past @ (if b then [t] else [])"
  have same: "filter ((\<le>) (t' - window)) ?past = filter ((\<le>) (t' - window)) (stamps s')" if "t \<le> t'" for t'
  proof (rule filter_later [of "t - window"])
    show "t - window \<le> t' - window" using that by simp
    show "filter ((\<le>) (t - window)) ?past = filter ((\<le>) (t - window)) (stamps s')"
      using grant [OF ok] refuse [OF ok] acq past window_nonneg by (cases b) auto
  qed
  have bound: "int (length (filter (\<lambda>x. c \<le> x \<and> x \<le> c + window) ?past)) \<le> limit" for c
  proof (cases "b \<and> c \<le> t \<and> t \<le> c + window")
    case True
    then have "t - window \<le> c" by (simp add: algebra_simps)
    then have "length (filter (\<lambda>x. c \<le> x \<and> x \<le> c + window) past) \<le> length (filter ((\<le>) (t - window)) past)"
      by (induction past) auto
    moreover have "int (length (filter ((\<le>) (t - window)) (stamps s))) < limit"
      using grant [OF ok, of s'] acq True by simp
    ultimately show ?thesis using True past by simp
  next
    case False
    with "2.prems"(4) [of c] show ?thesis by auto
  qed
  from "2.IH" [OF acq [symmetric] le(2) ok_step [OF ok acq] same bound]
  show ?case using acq by simp
qed

text \<open>No window of the given length, anywhere, holds more grants than the limit.\<close>

lemma granted_bounded:
  assumes "sorted (now # ts)" "ok now s" "stamps s = []" "0 \<le> limit"
  shows "int (length (filter (\<lambda>x. a \<le> x \<and> x \<le> a + window) (granted s ts))) \<le> limit"
  using granted_bounded_past [OF assms(1,2), of "[]" a] assms(3,4) by simp

end

section \<open>The retry budget\<close>

record retry_budget =
  rb_max_retries :: int
  rb_window_seconds :: rat
  rb_retry_timestamps :: "rat list"

definition new_retry_budget :: "int \<Rightarrow> rat \<Rightarrow> retry_budget" where
  "new_retry_budget max_retries_per_window window_seconds =
     \<lparr>rb_max_retries = max_retries_per_window, rb_window_seconds = window_seconds, rb_retry_timestamps = []\<rparr>"

definition try_acquire :: "rat \<Rightarrow> retry_budget \<Rightarrow> retry_budget \<times> bool" where
  "try_acquire now rb =
     (let cutoff = now - rb_window_seconds rb;
          rb = rb\<lparr>rb_retry_timestamps := dropWhile (\<lambda>t. t < cutoff) (rb_retry_timestamps rb)\<rparr>
      in if rb_max_retries rb \<le> int (length (rb_retry_timestamps rb)) then (rb, False)
         else (rb\<lparr>rb_retry_timestamps := rb_retry_timestamps rb @ [now]\<rparr>, True))"

definition remaining :: "rat \<Rightarrow> retry_budget \<Rightarrow> int" where
  "remaining now rb =
     (let cutoff = now - rb_window_seconds rb;
          recent = int (length (filter (\<lambda>t. cutoff \<le> t) (rb_retry_timestamps rb)))
      in max 0 (rb_max_retries rb - recent))"

definition get_retry_budget :: "retry_budget option \<Rightarrow> retry_budget" where
  "get_retry_budget global = (case global of None \<Rightarrow> new_retry_budget 100 60 | Some rb \<Rightarrow> rb)"

lemma dropWhile_sorted:
  "sorted xs \<Longrightarrow> dropWhile (\<lambda>t. t < c) xs = filter ((\<le>) (c :: rat)) xs"
proof (induction xs)
  case (Cons x xs)
  show ?case
  proof (cases "x < c")
    case False
    then have "\<forall>y\<in>set (x # xs). c \<le> y" using Cons.prems by fastforce
    then show ?thesis using False by (simp add: filter_True)
  qed (use Cons in auto)
qed simp

definition rb_ok :: "int \<Rightarrow> rat \<Rightarrow> rat \<Rightarrow> retry_budget \<Rightarrow> bool" where
  "rb_ok n w now rb \<longleftrightarrow> rb_max_retries rb = n \<and> rb_window_seconds rb = w \<and>
     sorted (rb_retry_timestamps rb) \<and> (\<forall>t\<in>set (rb_retry_timestamps rb). t \<le> now)"

lemma try_acquire_eq:
  assumes "rb_ok n w now rb"
  shows "try_acquire now rb =
    (let live = filter ((\<le>) (now - w)) (rb_retry_timestamps rb)
     in if n \<le> int (length live) then (rb\<lparr>rb_retry_timestamps := live\<rparr>, False)
        else (rb\<lparr>rb_retry_timestamps := live @ [now]\<rparr>, True))"
  using assms by (simp add: try_acquire_def rb_ok_def Let_def dropWhile_sorted)

lemma sorted_snoc: "sorted xs \<Longrightarrow> \<forall>x\<in>set xs. x \<le> y \<Longrightarrow> sorted (xs @ [y])"
  by (simp add: sorted_append)

lemma retry_budget_window:
  assumes "0 \<le> w"
  shows "sliding_window rb_retry_timestamps try_acquire (rb_ok n w) w n"
proof
  fix now s s' b assume ok: "rb_ok n w now s"
  note eq = try_acquire_eq [OF ok]
  show "try_acquire now s = (s', True) \<Longrightarrow> int (length (filter ((\<le>) (now - w)) (rb_retry_timestamps s))) < n \<and>
      filter ((\<le>) (now - w)) (rb_retry_timestamps s') = filter ((\<le>) (now - w)) (rb_retry_timestamps s) @ [now]"
    using eq assms by (auto simp: Let_def split: if_splits)
  show "try_acquire now s = (s', False) \<Longrightarrow> n \<le> int (length (filter ((\<le>) (now - w)) (rb_retry_timestamps s))) \<and>
      filter ((\<le>) (now - w)) (rb_retry_timestamps s') = filter ((\<le>) (now - w)) (rb_retry_timestamps s)"
    using eq by (auto simp: Let_def split: if_splits)
  show "try_acquire now s = (s', b) \<Longrightarrow> rb_ok n w now s'"
    using eq ok by (auto simp: Let_def rb_ok_def sorted_append intro!: sorted_filter [where f = id, simplified] split: if_splits)
  show "now \<le> later \<Longrightarrow> rb_ok n w later s" for later
    using ok by (auto simp: rb_ok_def)
qed (rule assms)

interpretation rb: sliding_window rb_retry_timestamps try_acquire "rb_ok n (max 0 w)" "max 0 w" n for n w
  by (rule retry_budget_window) simp

section \<open>The database rate limiter\<close>

record attempt =
  at_key :: string
  at_type :: string
  at_time :: int

record rate_limiter =
  dl_max_attempts :: int
  dl_window_seconds :: int
  dl_type :: string

definition new_rate_limiter :: "int \<Rightarrow> int \<Rightarrow> string \<Rightarrow> rate_limiter res" where
  "new_rate_limiter max_attempts window_seconds type =
     (if max_attempts \<le> 0 then Inl ValueError
      else if window_seconds \<le> 0 then Inl ValueError
      else Inr \<lparr>dl_max_attempts = max_attempts, dl_window_seconds = window_seconds, dl_type = type\<rparr>)"

abbreviation seconds :: "int \<Rightarrow> int" where
  "seconds n \<equiv> 1000000 * n"

definition attempts_since :: "rate_limiter \<Rightarrow> string \<Rightarrow> int \<Rightarrow> attempt list \<Rightarrow> int list" where
  "attempts_since rl key window_start table =
     map at_time (filter (\<lambda>a. at_key a = key \<and> at_type a = dl_type rl \<and> window_start \<le> at_time a) table)"

text \<open>\<open>ORDER BY attempted_at LIMIT 1\<close>, and the number of whole seconds until that attempt leaves the window.\<close>

definition retry_after :: "rate_limiter \<Rightarrow> int \<Rightarrow> int list \<Rightarrow> int" where
  "retry_after rl now attempts =
     (case sort attempts of
        [] \<Rightarrow> dl_window_seconds rl
      | oldest # _ \<Rightarrow> max 1 ((oldest + seconds (dl_window_seconds rl) - now) div 1000000))"

text \<open>\<open>Inl n\<close> is \<open>DashboardRateLimitError\<close> with \<open>retry_after = n\<close>. The clock is read a second time on refusal.\<close>

definition check :: "rate_limiter \<Rightarrow> int \<Rightarrow> int \<Rightarrow> string \<Rightarrow> attempt list \<Rightarrow> int + unit" where
  "check rl now now' key table =
     (let live = attempts_since rl key (now - seconds (dl_window_seconds rl)) table
      in if dl_max_attempts rl \<le> int (length live) then Inl (retry_after rl now' live) else Inr ())"

definition check_and_increment :: "rate_limiter \<Rightarrow> string \<Rightarrow> int \<Rightarrow> attempt list \<Rightarrow> attempt list \<times> (int + unit)" where
  "check_and_increment rl key now table =
     (let live = attempts_since rl key (now - seconds (dl_window_seconds rl)) table
      in if int (length live) < dl_max_attempts rl
         then (table @ [\<lparr>at_key = key, at_type = dl_type rl, at_time = now\<rparr>], Inr ())
         else (table, Inl (retry_after rl now live)))"

definition limiter_record_failure :: "rate_limiter \<Rightarrow> string \<Rightarrow> int \<Rightarrow> attempt list \<Rightarrow> attempt list \<times> (int + unit)" where
  "limiter_record_failure rl key now table =
     (let table = table @ [\<lparr>at_key = key, at_type = dl_type rl, at_time = now\<rparr>];
          live = attempts_since rl key (now - seconds (dl_window_seconds rl)) table
      in (table, if dl_max_attempts rl < int (length live) then Inl (retry_after rl now live) else Inr ()))"

definition clear_for_key :: "rate_limiter \<Rightarrow> string \<Rightarrow> attempt list \<Rightarrow> attempt list" where
  "clear_for_key rl key table = filter (\<lambda>a. \<not> (at_key a = key \<and> at_type a = dl_type rl)) table"

definition check_and_record :: "rate_limiter \<Rightarrow> string \<Rightarrow> int \<Rightarrow> attempt list \<Rightarrow> attempt list \<times> (int + unit)" where
  "check_and_record rl key now table =
     (let live = attempts_since rl key (now - seconds (dl_window_seconds rl)) table
      in (table @ [\<lparr>at_key = key, at_type = dl_type rl, at_time = now\<rparr>],
          if dl_max_attempts rl \<le> int (length live) then Inl (retry_after rl now live) else Inr ()))"

definition cleanup :: "int \<Rightarrow> int \<Rightarrow> attempt list \<Rightarrow> attempt list" where
  "cleanup older_than_seconds now table = filter (\<lambda>a. now - seconds older_than_seconds \<le> at_time a) table"

definition key_stamps :: "rate_limiter \<Rightarrow> string \<Rightarrow> attempt list \<Rightarrow> int list" where
  "key_stamps rl key table = map at_time (filter (\<lambda>a. at_key a = key \<and> at_type a = dl_type rl) table)"

lemma attempts_since_stamps: "attempts_since rl key c table = filter ((\<le>) c) (key_stamps rl key table)"
  by (induction table) (auto simp: attempts_since_def key_stamps_def)

lemma key_stamps_append [simp]:
  "key_stamps rl key (table @ [\<lparr>at_key = k, at_type = ty, at_time = t\<rparr>]) =
     key_stamps rl key table @ (if k = key \<and> ty = dl_type rl then [t] else [])"
  by (simp add: key_stamps_def)

definition limiter_acquire :: "rate_limiter \<Rightarrow> string \<Rightarrow> int \<Rightarrow> attempt list \<Rightarrow> attempt list \<times> bool" where
  "limiter_acquire rl key now table = map_prod id (\<lambda>r. r = Inr ()) (check_and_increment rl key now table)"

definition limiter_window :: "rate_limiter \<Rightarrow> int" where
  "limiter_window rl = seconds (max 0 (dl_window_seconds rl))"

definition nonneg_window :: "rate_limiter \<Rightarrow> rate_limiter" where
  "nonneg_window rl = rl\<lparr>dl_window_seconds := max 0 (dl_window_seconds rl)\<rparr>"

interpretation dl: sliding_window "key_stamps (nonneg_window rl) key" "limiter_acquire (nonneg_window rl) key"
  "\<lambda>_ _. True" "limiter_window rl" "dl_max_attempts rl" for rl key
  by unfold_locales
    (auto simp: limiter_acquire_def check_and_increment_def attempts_since_stamps limiter_window_def
      nonneg_window_def Let_def split: if_splits)

lemma new_rate_limiter_nonneg:
  "new_rate_limiter n w ty = Inr rl \<Longrightarrow> nonneg_window rl = rl \<and> limiter_window rl = seconds w \<and>
     dl_max_attempts rl = n \<and> 0 < n \<and> 0 < w"
  by (auto simp: new_rate_limiter_def nonneg_window_def limiter_window_def split: if_splits)

section \<open>Properties\<close>

text \<open>
  the login limiter holds. Of attempts on a key made one after the other, in no window of
  the configured length, wherever it is placed, are more than \<open>max_attempts\<close> let through by
  \<open>check_and_increment\<close>.
\<close>

lemma limiter_window_bound:
  assumes rl: "new_rate_limiter max_attempts window_seconds type = Inr rl" and moments: "sorted moments"
  shows "int (length (filter (\<lambda>t. a \<le> t \<and> t \<le> a + seconds window_seconds) (dl.granted rl key [] moments))) \<le> max_attempts"
proof (cases moments)
  case (Cons t ts)
  note l = new_rate_limiter_nonneg [OF rl]
  have "sorted (t # moments)" using moments Cons by auto
  from dl.granted_bounded [OF this, of rl key "[]" a] l show ?thesis by (simp add: key_stamps_def)
next
  case Nil
  have "dl.granted rl key [] [] = []" by simp
  with Nil new_rate_limiter_nonneg [OF rl] show ?thesis by simp
qed

lemma limiter_window_bound_example:
  "int (length (filter (\<lambda>t. 0 \<le> t \<and> t \<le> 0 + seconds 60)
     (dl.granted \<lparr>dl_max_attempts = 2, dl_window_seconds = 60, dl_type = ''login''\<rparr> ''ip'' [] [0, 1, 2, 3]))) \<le> 2"
  by (rule limiter_window_bound [where type = "''login''"]) (simp_all add: new_rate_limiter_def)

text \<open>
  The retry budget holds. Over any non-decreasing sequence of times, in no window of the
  configured length are more than \<open>max_retries_per_window\<close> retries granted; and \<open>remaining\<close> tells
  exactly whether the next attempt is granted.
\<close>

theorem retry_budget_bound:
  assumes "sorted moments" "0 \<le> window_seconds" "0 \<le> max_retries"
  shows "int (length (filter (\<lambda>t. a \<le> t \<and> t \<le> a + window_seconds)
      (rb.granted (new_retry_budget max_retries window_seconds) moments))) \<le> max_retries"
proof (cases moments)
  case (Cons t ts)
  have "sorted (t # moments)" using assms(1) Cons by auto
  moreover have "rb_ok max_retries (max 0 window_seconds) t (new_retry_budget max_retries window_seconds)"
    using assms(2) by (simp add: rb_ok_def new_retry_budget_def)
  ultimately show ?thesis
    using rb.granted_bounded [of t moments max_retries window_seconds "new_retry_budget max_retries window_seconds" a] assms
    by (simp add: new_retry_budget_def)
qed (use assms in simp)

theorem retry_budget_bound_witness:
  "int (length (filter (\<lambda>t. 0 \<le> t \<and> t \<le> 0 + 60) (rb.granted (new_retry_budget 1 60) [0, 1, 61]))) \<le> 1"
  by (rule retry_budget_bound) simp_all

lemma remaining_predicts:
  assumes "rb_ok n w now rb"
  shows "snd (try_acquire now rb) \<longleftrightarrow> 0 < remaining now rb"
  using assms by (auto simp: try_acquire_eq [OF assms] remaining_def rb_ok_def Let_def)

lemma length_filter_mono: "\<forall>x\<in>set xs. P x \<longrightarrow> Q x \<Longrightarrow> length (filter P xs) \<le> length (filter Q xs)"
  by (induction xs) auto

text \<open>
  A refused client that waits exactly the seconds it was told is refused again, unless less than
  a second was left: the limit counts attempts on the edge of the window, and the remaining time
  is rounded down.
\<close>

lemma retry_after_too_early:
  assumes "check_and_increment rl key now table = (table', Inl n)"
    "\<forall>t\<in>set (key_stamps rl key table). now - seconds (dl_window_seconds rl) \<le> t \<longrightarrow>
       now + 1000000 \<le> t + seconds (dl_window_seconds rl)"
    "0 < dl_max_attempts rl"
  shows "\<exists>m. check_and_increment rl key (now + seconds n) table = (table, Inl m)"
proof -
  let ?live = "\<lambda>now. attempts_since rl key (now - seconds (dl_window_seconds rl)) table"
  have full: "dl_max_attempts rl \<le> int (length (?live now))" and n: "n = retry_after rl now (?live now)"
    using assms(1) by (auto simp: check_and_increment_def Let_def split: if_splits)
  obtain x xs where s: "sort (?live now) = x # xs" using full assms(3)
    by (metis length_0_conv length_sort list.exhaust of_nat_0 order_less_le_trans less_irrefl)
  have x: "x \<in> set (?live now)" "\<forall>t\<in>set (?live now). x \<le> t"
    using s by (metis list.set_intros(1) set_sort, metis sorted_wrt.simps(2) sorted_sort set_sort set_ConsD order_refl)
  have "now + 1000000 \<le> x + seconds (dl_window_seconds rl)"
    using x(1) assms(2) by (auto simp: attempts_since_stamps)
  then have nx: "n = (x + seconds (dl_window_seconds rl) - now) div 1000000"
    using n s by (simp add: retry_after_def max_def)
  then have "now + seconds n - seconds (dl_window_seconds rl) \<le> x" by linarith
  then have "\<forall>t\<in>set (?live now). now + seconds n - seconds (dl_window_seconds rl) \<le> t" using x(2) by auto
  then have "length (?live now) \<le> length (?live (now + seconds n))"
    unfolding attempts_since_stamps by (intro length_filter_mono) auto
  then show ?thesis using full by (auto simp: check_and_increment_def Let_def)
qed

end
