(* ===== verification/IpAddress.thy ===== *)
theory IpAddress
  imports Main Prelude
begin

text \<open>
  What the source uses of Python's module \<open>ipaddress\<close>: parsing an address (dotted quads without
  leading zeros; IPv6 with one \<open>::\<close>, an embedded dotted quad and a scope), printing it in its
  canonical form (compressed, IPv4-mapped addresses with a dotted quad), the loopback test, and
  membership in a network, which is given by its version, network address and prefix length.
\<close>

datatype ip = IPv4 int | IPv6 int "string option"

record ip_net =
  net_v6 :: bool
  net_address :: int
  net_prefix :: nat

section \<open>Parsing\<close>

definition parse_octet :: "string \<Rightarrow> int option" where
  "parse_octet s =
     (if s = [] \<or> \<not> list_all is_dec s \<or> 3 < length s \<or> (s \<noteq> ''0'' \<and> hd s = CHR ''0'') then None
      else let n = dec_value s in if 255 < n then None else Some n)"

definition opt_map :: "('a \<Rightarrow> 'b option) \<Rightarrow> 'a list \<Rightarrow> 'b list option" where
  "opt_map f xs = (if list_all (\<lambda>x. f x \<noteq> None) xs then Some (map (\<lambda>x. the (f x)) xs) else None)"

definition from_digits :: "int \<Rightarrow> int list \<Rightarrow> int" where
  "from_digits base ds = foldl (\<lambda>acc d. acc * base + d) 0 ds"

definition parse_ipv4 :: "string \<Rightarrow> int option" where
  "parse_ipv4 s =
     (let octets = split_on (CHR ''.'') s
      in if s = [] \<or> length octets \<noteq> 4 then None else map_option (from_digits 256) (opt_map parse_octet octets))"

definition hex_digit :: "char \<Rightarrow> int option" where
  "hex_digit c = (let n = of_char c :: int in
     if 48 \<le> n \<and> n \<le> 57 then Some (n - 48)
     else if 97 \<le> n \<and> n \<le> 102 then Some (n - 87)
     else if 65 \<le> n \<and> n \<le> 70 then Some (n - 55) else None)"

text \<open>\<open>int('', 16)\<close> raises, so an empty hextet is an error.\<close>

definition parse_hextet :: "string \<Rightarrow> int option" where
  "parse_hextet s = (if s = [] \<or> 4 < length s then None else map_option (from_digits 16) (opt_map hex_digit s))"

fun hex_char :: "int \<Rightarrow> char" where
  "hex_char d = char_of (nat (if d < 10 then 48 + d else 87 + d))"

function to_base :: "int \<Rightarrow> int \<Rightarrow> int list" where
  "to_base b n = (if n < b \<or> b \<le> 1 then [n] else to_base b (n div b) @ [n mod b])"
  by pat_completeness auto
termination
  by (relation "measure (\<lambda>(b, n). nat n)") (auto simp: nat_less_eq_zless intro!: int_div_less_self)

declare to_base.simps [simp del]

definition hex_of :: "int \<Rightarrow> string" where
  "hex_of n = map hex_char (to_base 16 n)"

definition dec_of :: "int \<Rightarrow> string" where
  "dec_of n = map hex_char (to_base 10 n)"

definition split_scope_id :: "string \<Rightarrow> (string \<times> string option) option" where
  "split_scope_id s =
     (case dropWhile (\<lambda>c. c \<noteq> CHR ''%'') s of
        [] \<Rightarrow> Some (s, None)
      | _ # scope \<Rightarrow>
          if scope = [] \<or> CHR ''%'' \<in> set scope then None
          else Some (takeWhile (\<lambda>c. c \<noteq> CHR ''%'') s, Some scope))"

text \<open>The positions of empty parts that are not at an end.\<close>

definition skip_indices :: "string list \<Rightarrow> nat list" where
  "skip_indices parts = filter (\<lambda>i. parts ! i = []) [1..<length parts - 1]"

definition hextets_of :: "string list \<Rightarrow> nat \<Rightarrow> nat \<Rightarrow> nat \<Rightarrow> int option" where
  "hextets_of parts hi lo skipped =
     (case (opt_map parse_hextet (take hi parts), opt_map parse_hextet (drop (length parts - lo) parts)) of
        (Some hs, Some ls) \<Rightarrow> Some (from_digits 65536 (hs @ replicate skipped 0 @ ls))
      | _ \<Rightarrow> None)"

definition ipv4_suffix :: "string list \<Rightarrow> string list option" where
  "ipv4_suffix parts =
     (if CHR ''.'' \<in> set (last parts)
      then (case parse_ipv4 (last parts) of
              None \<Rightarrow> None
            | Some v \<Rightarrow> Some (butlast parts @ [hex_of (v div 65536), hex_of (v mod 65536)]))
      else Some parts)"

definition ipv6_parts :: "string list \<Rightarrow> int option" where
  "ipv6_parts parts =
     (if 9 < length parts then None
      else case skip_indices parts of
             [] \<Rightarrow>
               if length parts \<noteq> 8 \<or> hd parts = [] \<or> last parts = [] then None
               else hextets_of parts 8 0 0
           | [skip] \<Rightarrow>
               (let hi = (if hd parts = [] then skip - 1 else skip);
                    lo = (if last parts = [] then length parts - skip - 2 else length parts - skip - 1)
                in if hd parts = [] \<and> hi \<noteq> 0 \<or> last parts = [] \<and> lo \<noteq> 0 \<or> 8 < hi + lo + 1 then None
                   else hextets_of parts hi lo (8 - (hi + lo)))
           | _ \<Rightarrow> None)"

definition parse_ipv6 :: "string \<Rightarrow> int option" where
  "parse_ipv6 s =
     (let parts = split_on (CHR '':'') s
      in if s = [] \<or> length parts < 3 then None
         else case ipv4_suffix parts of None \<Rightarrow> None | Some parts \<Rightarrow> ipv6_parts parts)"

definition ip_address :: "string \<Rightarrow> ip option" where
  "ip_address s =
     (if CHR ''/'' \<in> set s then None
      else case parse_ipv4 s of
             Some n \<Rightarrow> Some (IPv4 n)
           | None \<Rightarrow>
               (case split_scope_id s of
                  None \<Rightarrow> None
                | Some (addr, scope) \<Rightarrow> map_option (\<lambda>n. IPv6 n scope) (parse_ipv6 addr)))"

section \<open>Printing\<close>

fun join_with :: "string \<Rightarrow> string list \<Rightarrow> string" where
  "join_with sep [] = []"
| "join_with sep [w] = w"
| "join_with sep (w # ws) = w @ sep @ join_with sep ws"

definition octets :: "int \<Rightarrow> int list" where
  "octets n = [n div 16777216, n div 65536 mod 256, n div 256 mod 256, n mod 256]"

definition print_ipv4 :: "int \<Rightarrow> string" where
  "print_ipv4 n = join_with ''.'' (map dec_of (octets n))"

text \<open>The first longest run of zero hextets: its start and its length.\<close>

fun zero_run :: "int list \<Rightarrow> nat" where
  "zero_run (h # hs) = (if h = 0 then Suc (zero_run hs) else 0)"
| "zero_run [] = 0"

fun best_run :: "nat \<Rightarrow> int list \<Rightarrow> nat \<times> nat \<Rightarrow> nat \<times> nat" where
  "best_run i [] best = best"
| "best_run i (h # hs) best =
     best_run (Suc i) hs (if snd best < zero_run (h # hs) then (i, zero_run (h # hs)) else best)"

definition compress_hextets :: "int list \<Rightarrow> string list" where
  "compress_hextets hs =
     (case best_run 0 hs (0, 0) of (start, len) \<Rightarrow>
        if 1 < len
        then (if start = 0 then [[]] else []) @ map hex_of (take start hs) @ [[]] @
             map hex_of (drop (start + len) hs) @ (if start + len = length hs then [[]] else [])
        else map hex_of hs)"

definition hextets :: "int \<Rightarrow> int list" where
  "hextets n = map (\<lambda>i. n div 2 ^ (16 * i) mod 65536) [7, 6, 5, 4, 3, 2, 1, 0]"

definition ipv4_mapped :: "int \<Rightarrow> int option" where
  "ipv4_mapped n = (if n div 2 ^ 32 = 65535 then Some (n mod 2 ^ 32) else None)"

definition print_ipv6 :: "int \<Rightarrow> string option \<Rightarrow> string" where
  "print_ipv6 n scope =
     (case ipv4_mapped n of
        Some v4 \<Rightarrow> ''::ffff:'' @ print_ipv4 v4
      | None \<Rightarrow> join_with '':'' (compress_hextets (hextets n))) @
     (case scope of None \<Rightarrow> [] | Some s \<Rightarrow> ''%'' @ s)"

fun print_ip :: "ip \<Rightarrow> string" where
  "print_ip (IPv4 n) = print_ipv4 n"
| "print_ip (IPv6 n scope) = print_ipv6 n scope"

section \<open>Classification\<close>

fun is_loopback :: "ip \<Rightarrow> bool" where
  "is_loopback (IPv4 n) = (n div 16777216 = 127)"
| "is_loopback (IPv6 n scope) =
     (case ipv4_mapped n of Some v4 \<Rightarrow> v4 div 16777216 = 127 | None \<Rightarrow> n = 1)"

fun in_network :: "ip \<Rightarrow> ip_net \<Rightarrow> bool" where
  "in_network (IPv4 n) net =
     (\<not> net_v6 net \<and> n div 2 ^ (32 - net_prefix net) = net_address net div 2 ^ (32 - net_prefix net))"
| "in_network (IPv6 n scope) net =
     (net_v6 net \<and> n div 2 ^ (128 - net_prefix net) = net_address net div 2 ^ (128 - net_prefix net))"

lemma ip_examples:
  "ip_address ''10.0.0.1'' = Some (IPv4 167772161)" "ip_address ''010.0.0.1'' = None"
  "ip_address ''::1'' = Some (IPv6 1 None)" "ip_address ''1::2::3'' = None"
  "ip_address ''::ffff:10.0.0.1'' = Some (IPv6 281470849515521 None)"
  "print_ip (IPv6 1 None) = ''::1''" "print_ip (IPv6 0 (Some ''eth0'')) = ''::%eth0''"
  "print_ip (IPv4 167772161) = ''10.0.0.1''"
  by code_simp+

end
