(* ===== verification/Admission.thy ===== *)
theory Admission
  imports Complex_Main Json
begin

text \<open>
  Local admission control: the error envelopes of \<open>src/app/core/errors.py\<close> and
  \<open>src/app/core/resilience/overload.py\<close>, the middlewares \<open>backpressure.py\<close> and \<open>bulkhead.py\<close>,
  the memory monitor, the degradation manager, and the in-flight counting and draining of
  \<open>src/app/core/middleware/inflight.py\<close> and \<open>src/app/core/shutdown.py\<close>. A middleware is split at
  the \<open>await\<close> of the wrapped application into what happens when a request arrives and what happens
  when it leaves, so that requests may interleave. An \<open>asyncio.Semaphore\<close> is its value: the code
  acquires it only when it is not locked, with no \<open>await\<close> in between, so nothing ever waits.
\<close>

section \<open>Errors\<close>

definition api_error :: "string \<Rightarrow> string \<Rightarrow> string \<Rightarrow> json" where
  "api_error code message error_type =
     JObj [(''error'', JObj [(''message'', JStr message), (''type'', JStr error_type), (''code'', JStr code)])]"

definition dashboard_error :: "string \<Rightarrow> string \<Rightarrow> json" where
  "dashboard_error code message = JObj [(''error'', JObj [(''code'', JStr code), (''message'', JStr message)])]"

definition LOCAL_OVERLOAD_CODE :: string where "LOCAL_OVERLOAD_CODE = ''proxy_overloaded''"

definition LOCAL_OVERLOAD_CODES :: "string set" where
  "LOCAL_OVERLOAD_CODES = {LOCAL_OVERLOAD_CODE, ''account_response_create_cap'', ''account_stream_cap'',
     ''response_create_gate_timeout'', ''global_admission_timeout'', ''capacity_exhausted_active_sessions''}"

definition local_overload_error :: "string \<Rightarrow> json" where
  "local_overload_error message = api_error LOCAL_OVERLOAD_CODE message ''rate_limit_error''"

definition local_unavailable_error :: "string \<Rightarrow> json" where
  "local_unavailable_error message = api_error ''proxy_unavailable'' message ''server_error''"

definition is_local_overload_error_code :: "string option \<Rightarrow> bool" where
  "is_local_overload_error_code code = (case code of None \<Rightarrow> False | Some c \<Rightarrow> c \<in> LOCAL_OVERLOAD_CODES)"

definition merge_retry_after_headers :: "(string \<times> string) list \<Rightarrow> string \<Rightarrow> (string \<times> string) list" where
  "merge_retry_after_headers headers retry_after =
     (if map_of headers ''Retry-After'' \<noteq> None then headers else headers @ [(''Retry-After'', retry_after)])"

definition is_proxy_path :: "string \<Rightarrow> bool" where
  "is_proxy_path path = (path = ''/v2'' \<or> startswith path ''/v2/'')"

datatype asgi_message =
    ResponseStart string int "(string \<times> string) list"
  | ResponseBody string json

definition encoded_headers :: "(string \<times> string) list \<Rightarrow> (string \<times> string) list" where
  "encoded_headers headers = (''content-type'', ''application/json'') # map (\<lambda>(k, v). (lower k, v)) headers"

definition send_json_http_response :: "int \<Rightarrow> json \<Rightarrow> (string \<times> string) list \<Rightarrow> asgi_message list" where
  "send_json_http_response status_code payload headers =
     [ResponseStart ''http.response.start'' status_code (encoded_headers headers),
      ResponseBody ''http.response.body'' payload]"

text \<open>\<open>received\<close> is the type of the first event, \<open>None\<close> when receiving it raised.\<close>

definition deny_websocket_with_http_response ::
  "string option \<Rightarrow> int \<Rightarrow> json \<Rightarrow> (string \<times> string) list \<Rightarrow> asgi_message list" where
  "deny_websocket_with_http_response received status_code payload headers =
     (if received = Some ''websocket.connect''
      then [ResponseStart ''websocket.http.response.start'' status_code (encoded_headers headers),
            ResponseBody ''websocket.http.response.body'' payload]
      else [])"

definition reject :: "string \<Rightarrow> string option \<Rightarrow> int \<Rightarrow> json \<Rightarrow> asgi_message list" where
  "reject scope_type received status_code payload =
     (if scope_type = ''websocket''
      then deny_websocket_with_http_response received status_code payload (merge_retry_after_headers [] ''5'')
      else send_json_http_response status_code payload (merge_retry_after_headers [] ''5''))"

text \<open>What a middleware decides when a request arrives.\<close>

datatype decision = PassThrough | Admitted | Rejected "asgi_message list"

section \<open>Backpressure\<close>

record request_scope =
  rs_type :: string
  rs_path :: string
  rs_received :: "string option"

definition overload_payload :: "string \<Rightarrow> string \<Rightarrow> json" where
  "overload_payload path message =
     (if is_proxy_path path then local_overload_error message else JObj [(''detail'', JStr message)])"

definition backpressure_arrive :: "request_scope \<Rightarrow> nat \<Rightarrow> nat \<times> decision" where
  "backpressure_arrive s sem =
     (if rs_type s \<notin> {''http'', ''websocket''} \<or> startswith (rs_path s) ''/health'' then (sem, PassThrough)
      else if sem = 0
      then (sem, Rejected (reject (rs_type s) (rs_received s) 429
             (overload_payload (rs_path s) ''firecrawl-lb is temporarily overloaded by local backpressure'')))
      else (sem - 1, Admitted))"

definition backpressure_leave :: "nat \<Rightarrow> nat" where
  "backpressure_leave sem = sem + 1"

section \<open>Memory\<close>

record memory_thresholds =
  mt_warning_bytes :: int
  mt_reject_bytes :: int

definition configure :: "int \<Rightarrow> int \<Rightarrow> memory_thresholds" where
  "configure warning_threshold_mb reject_threshold_mb =
     \<lparr>mt_warning_bytes = warning_threshold_mb * 1024 * 1024, mt_reject_bytes = reject_threshold_mb * 1024 * 1024\<rparr>"

text \<open>The providers of the resident set size, each absent when it does not apply or fails.\<close>

record rss_sources =
  rss_psutil :: "int option"
  rss_linux :: bool
  rss_statm_pages :: "int option"
  rss_page_size :: int
  rss_windows :: "int option"
  rss_maxrss :: "int option"
  rss_darwin :: bool

definition get_resource_rss_bytes :: "rss_sources \<Rightarrow> int option" where
  "get_resource_rss_bytes src =
     map_option (\<lambda>maxrss. if rss_darwin src then maxrss else maxrss * 1024) (rss_maxrss src)"

definition get_rss_bytes :: "rss_sources \<Rightarrow> int" where
  "get_rss_bytes src =
     (case rss_psutil src of
        Some n \<Rightarrow> n
      | None \<Rightarrow>
          if rss_linux src \<and> rss_statm_pages src \<noteq> None then the (rss_statm_pages src) * rss_page_size src
          else (case rss_windows src of
                  Some n \<Rightarrow> n
                | None \<Rightarrow> (case get_resource_rss_bytes src of Some n \<Rightarrow> n | None \<Rightarrow> 0)))"

definition is_memory_pressure :: "memory_thresholds \<Rightarrow> rss_sources \<Rightarrow> bool" where
  "is_memory_pressure mt src = (if mt_reject_bytes mt \<le> 0 then False else mt_reject_bytes mt \<le> get_rss_bytes src)"

definition is_memory_warning :: "memory_thresholds \<Rightarrow> rss_sources \<Rightarrow> bool" where
  "is_memory_warning mt src = (if mt_warning_bytes mt \<le> 0 then False else mt_warning_bytes mt \<le> get_rss_bytes src)"

section \<open>Bulkheads\<close>

text \<open>A lane without a limit has no semaphore.\<close>

record bulkhead =
  bh_proxy_http :: "nat option"
  bh_dashboard :: "nat option"
  bh_background :: "nat option"

definition lane_of_limit :: "int \<Rightarrow> nat option" where
  "lane_of_limit limit = (if 0 < limit then Some (nat limit) else None)"

definition new_bulkhead :: "int option \<Rightarrow> int \<Rightarrow> int \<Rightarrow> int option \<Rightarrow> bulkhead" where
  "new_bulkhead proxy_limit dashboard_limit background_limit proxy_http_limit =
     (let resolved_proxy_limit = (case proxy_limit of None \<Rightarrow> 200 | Some n \<Rightarrow> n);
          resolved_proxy_http_limit = (case proxy_http_limit of None \<Rightarrow> resolved_proxy_limit | Some n \<Rightarrow> n)
      in \<lparr>bh_proxy_http = lane_of_limit resolved_proxy_http_limit, bh_dashboard = lane_of_limit dashboard_limit,
          bh_background = lane_of_limit background_limit\<rparr>)"

datatype lane = ProxyHttp | Dashboard

definition get_lane :: "string \<Rightarrow> string \<Rightarrow> lane" where
  "get_lane scope_type path = (if scope_type = ''http'' \<and> is_proxy_path path then ProxyHttp else Dashboard)"

fun lane_name :: "lane \<Rightarrow> string" where
  "lane_name ProxyHttp = ''proxy_http''"
| "lane_name Dashboard = ''dashboard''"

fun get_semaphore :: "lane \<Rightarrow> bulkhead \<Rightarrow> nat option" where
  "get_semaphore ProxyHttp b = bh_proxy_http b"
| "get_semaphore Dashboard b = bh_dashboard b"

fun set_semaphore :: "lane \<Rightarrow> nat \<Rightarrow> bulkhead \<Rightarrow> bulkhead" where
  "set_semaphore ProxyHttp n b = b\<lparr>bh_proxy_http := Some n\<rparr>"
| "set_semaphore Dashboard n b = b\<lparr>bh_dashboard := Some n\<rparr>"

definition bulkhead_arrive :: "bool \<Rightarrow> request_scope \<Rightarrow> bulkhead \<Rightarrow> bulkhead \<times> decision" where
  "bulkhead_arrive memory_pressure s b =
     (if rs_type s \<notin> {''http'', ''websocket''} \<or> startswith (rs_path s) ''/health'' then (b, PassThrough)
      else if memory_pressure
      then (b, Rejected (reject (rs_type s) (rs_received s) 503
             (let message = ''firecrawl-lb is temporarily unavailable due to local memory pressure''
              in if is_proxy_path (rs_path s) then local_unavailable_error message else JObj [(''detail'', JStr message)])))
      else let lane = get_lane (rs_type s) (rs_path s)
           in case get_semaphore lane b of
                None \<Rightarrow> (b, PassThrough)
              | Some sem \<Rightarrow>
                  if sem = 0
                  then (b, Rejected (reject (rs_type s) (rs_received s) 429
                         (overload_payload (rs_path s)
                           (''firecrawl-lb is temporarily overloaded in the '' @ lane_name lane @ '' lane''))))
                  else (set_semaphore lane (sem - 1) b, Admitted))"

definition bulkhead_leave :: "request_scope \<Rightarrow> bulkhead \<Rightarrow> bulkhead" where
  "bulkhead_leave s b =
     (let lane = get_lane (rs_type s) (rs_path s)
      in case get_semaphore lane b of None \<Rightarrow> b | Some sem \<Rightarrow> set_semaphore lane (sem + 1) b)"

text \<open>The log of memory warnings is limited to one in thirty seconds.\<close>

definition memory_warning_log :: "bool \<Rightarrow> rat \<Rightarrow> rat \<Rightarrow> rat \<times> bool" where
  "memory_warning_log warning now last_log =
     (if warning \<and> 30 \<le> now - last_log then (now, True) else (last_log, False))"

section \<open>Draining\<close>

record shutdown_state =
  sd_draining :: bool
  sd_in_flight :: int

definition shutdown_reset :: shutdown_state where
  "shutdown_reset = \<lparr>sd_draining = False, sd_in_flight = 0\<rparr>"

definition set_draining :: "bool \<Rightarrow> shutdown_state \<Rightarrow> shutdown_state" where
  "set_draining val s = s\<lparr>sd_draining := val\<rparr>"

definition increment_in_flight :: "shutdown_state \<Rightarrow> shutdown_state" where
  "increment_in_flight s = s\<lparr>sd_in_flight := sd_in_flight s + 1\<rparr>"

definition decrement_in_flight :: "shutdown_state \<Rightarrow> shutdown_state" where
  "decrement_in_flight s = s\<lparr>sd_in_flight := max 0 (sd_in_flight s - 1)\<rparr>"

definition DRAIN_ALLOWED_HTTP_PATHS :: "string set" where
  "DRAIN_ALLOWED_HTTP_PATHS = {''/health/live'', ''/internal/drain/start'', ''/internal/drain/stop'',
     ''/internal/drain/status'', ''/internal/bridge/responses''}"

definition IN_FLIGHT_EXCLUDED_HTTP_PATHS :: "string set" where
  "IN_FLIGHT_EXCLUDED_HTTP_PATHS = {''/health/live'', ''/health/ready'', ''/health/startup'',
     ''/internal/drain/start'', ''/internal/drain/stop'', ''/internal/drain/status''}"

definition inflight_arrive :: "request_scope \<Rightarrow> shutdown_state \<Rightarrow> shutdown_state \<times> decision" where
  "inflight_arrive r s =
     (if rs_type r \<noteq> ''http'' then (s, PassThrough)
      else if sd_draining s \<and> rs_path r \<notin> DRAIN_ALLOWED_HTTP_PATHS
      then (s, Rejected [ResponseStart ''http.response.start'' 503 [(''content-type'', ''application/json'')],
             ResponseBody ''http.response.body'' (JObj [(''error'', JObj [(''type'', JStr ''service_unavailable''),
               (''message'', JStr ''Server is draining'')])])])
      else if rs_path r \<in> IN_FLIGHT_EXCLUDED_HTTP_PATHS then (s, PassThrough)
      else (increment_in_flight s, Admitted))"

text \<open>
  \<open>wait_for_in_flight_drain\<close> on what it observes: the count and the clock at each poll. \<open>None\<close>:
  the observations are used up and it is still waiting.
\<close>

fun wait_for_in_flight_drain :: "rat \<Rightarrow> (int \<times> rat) list \<Rightarrow> bool option" where
  "wait_for_in_flight_drain deadline [] = None"
| "wait_for_in_flight_drain deadline ((n, now) # obs) =
     (if 0 < n \<and> now < deadline then wait_for_in_flight_drain deadline obs else Some (n = 0))"

section \<open>Degradation\<close>

datatype degradation_level = NORMAL | DEGRADED | CRITICAL

record degradation_manager =
  dm_level :: degradation_level
  dm_reason :: "string option"

definition new_degradation_manager :: degradation_manager where
  "new_degradation_manager = \<lparr>dm_level = NORMAL, dm_reason = None\<rparr>"

definition set_degraded :: "string option \<Rightarrow> degradation_manager \<Rightarrow> degradation_manager" where
  "set_degraded reason m = m\<lparr>dm_level := DEGRADED, dm_reason := reason\<rparr>"

definition set_normal :: "degradation_manager \<Rightarrow> degradation_manager" where
  "set_normal m = m\<lparr>dm_level := NORMAL, dm_reason := None\<rparr>"

definition is_degraded :: "degradation_manager \<Rightarrow> bool" where
  "is_degraded m = (dm_level m \<noteq> NORMAL)"

fun degradation_level_value :: "degradation_level \<Rightarrow> string" where
  "degradation_level_value NORMAL = ''normal''"
| "degradation_level_value DEGRADED = ''degraded''"
| "degradation_level_value CRITICAL = ''critical''"

definition get_status :: "degradation_manager \<Rightarrow> (string \<times> string option) list" where
  "get_status m = [(''level'', Some (degradation_level_value (dm_level m))), (''reason'', dm_reason m)]"

section \<open>Gates\<close>

text \<open>
  What the middlewares have in common: a gate counts free slots; a request that is admitted takes
  one, a request that leaves gives it back, everything else leaves the count alone, and a request
  is turned away only when no slot is free.
\<close>

locale gate =
  fixes free :: "'s \<Rightarrow> 'l \<Rightarrow> nat"
    and slot :: "'r \<Rightarrow> 'l"
    and arrive :: "'r \<Rightarrow> 's \<Rightarrow> 's \<times> decision"
    and leave :: "'r \<Rightarrow> 's \<Rightarrow> 's"
    and good :: "'s \<Rightarrow> 'l \<Rightarrow> bool"
  assumes admitted: "arrive r s = (s', Admitted) \<Longrightarrow> good s l \<Longrightarrow>
      good s' l \<and> (if slot r = l then free s l = Suc (free s' l) else free s' l = free s l)"
    and not_admitted: "arrive r s = (s', dec) \<Longrightarrow> dec \<noteq> Admitted \<Longrightarrow> s' = s"
    and leave_slot: "good s l \<Longrightarrow> good (leave r s) l \<and>
      free (leave r s) l = (if slot r = l then Suc (free s l) else free s l)"
begin

text \<open>A run: requests arrive, and requests that were admitted leave.\<close>

inductive run :: "'s \<Rightarrow> 's \<Rightarrow> 'r list \<Rightarrow> bool" for s0 where
  start: "run s0 s0 []"
| arrive_in: "run s0 s rs \<Longrightarrow> arrive r s = (s', Admitted) \<Longrightarrow> run s0 s' (r # rs)"
| arrive_out: "run s0 s rs \<Longrightarrow> arrive r s = (s', dec) \<Longrightarrow> dec \<noteq> Admitted \<Longrightarrow> run s0 s' rs"
| leaves: "run s0 s (rs @ r # rs') \<Longrightarrow> run s0 (leave r s) (rs @ rs')"

lemma run_slots:
  assumes "run s0 s rs" "good s0 l"
  shows "good s l \<and> free s l + length (filter (\<lambda>r. slot r = l) rs) = free s0 l"
  using assms
proof (induction rule: run.induct)
  case start
  then show ?case by simp
next
  case (arrive_in s rs r s')
  with admitted [OF arrive_in.hyps(2)] show ?case by (auto split: if_splits)
next
  case (arrive_out s rs r s' dec)
  with not_admitted [OF arrive_out.hyps(2,3)] show ?case by simp
next
  case (leaves s rs r rs')
  with leave_slot [of s l r] show ?case by (auto split: if_splits)
qed

lemma run_bound:
  assumes "run s0 s rs" "good s0 l"
  shows "length (filter (\<lambda>r. slot r = l) rs) \<le> free s0 l \<and> (rs = [] \<longrightarrow> free s l = free s0 l)"
  using run_slots [OF assms] by auto

end

interpretation bp: gate "\<lambda>sem (_ :: unit). sem" "\<lambda>_. ()" backpressure_arrive "\<lambda>_. backpressure_leave" "\<lambda>_ _. True"
  by unfold_locales (auto simp: backpressure_arrive_def backpressure_leave_def split: if_splits)

definition lane_free :: "bulkhead \<Rightarrow> lane \<Rightarrow> nat" where
  "lane_free b l = (case get_semaphore l b of None \<Rightarrow> 0 | Some n \<Rightarrow> n)"

abbreviation request_lane :: "request_scope \<Rightarrow> lane" where
  "request_lane s \<equiv> get_lane (rs_type s) (rs_path s)"

lemma get_set_semaphore [simp]:
  "get_semaphore l (set_semaphore l' n b) = (if l = l' then Some n else get_semaphore l b)"
  by (cases l; cases l') simp_all

text \<open>An arrival at the bulkhead comes with the memory pressure of its moment.\<close>

interpretation bh: gate lane_free "\<lambda>(pressure, s). request_lane s" "\<lambda>(pressure, s). bulkhead_arrive pressure s"
  "\<lambda>(pressure, s). bulkhead_leave s" "\<lambda>b l. get_semaphore l b \<noteq> None"
  by unfold_locales
    (auto simp: bulkhead_arrive_def bulkhead_leave_def lane_free_def Let_def split: if_splits option.splits)

text \<open>The in-flight counter is a gate that never turns away for lack of slots; it has its own run.\<close>

datatype drain_event = Arrive request_scope | Leave | SetDraining bool

fun drain_run :: "shutdown_state \<Rightarrow> nat \<Rightarrow> drain_event list \<Rightarrow> shutdown_state \<times> nat" where
  "drain_run s n [] = (s, n)"
| "drain_run s n (Arrive r # es) =
     (case inflight_arrive r s of
        (s', Admitted) \<Rightarrow> drain_run s' (Suc n) es
      | (s', _) \<Rightarrow> drain_run s' n es)"
| "drain_run s n (Leave # es) =
     (if n = 0 then drain_run s n es else drain_run (decrement_in_flight s) (n - 1) es)"
| "drain_run s n (SetDraining v # es) = drain_run (set_draining v s) n es"

lemma inflight_arrive_count:
  "inflight_arrive r s = (s', dec) \<Longrightarrow>
   sd_in_flight s' = (if dec = Admitted then sd_in_flight s + 1 else sd_in_flight s) \<and> sd_draining s' = sd_draining s"
  by (auto simp: inflight_arrive_def increment_in_flight_def split: if_splits)

lemma drain_run_count:
  "sd_in_flight s = int n \<Longrightarrow> sd_in_flight (fst (drain_run s n es)) = int (snd (drain_run s n es))"
proof (induction s n es rule: drain_run.induct)
  case (2 s n r es)
  then show ?case
    by (cases "inflight_arrive r s") (auto dest: inflight_arrive_count split: decision.split)
next
  case (3 s n es)
  then show ?case by (auto simp: decrement_in_flight_def)
qed (simp_all add: set_draining_def)

section \<open>Properties\<close>

text \<open>
  Backpressure never lets more requests run at once than its limit, whatever the order of
  arrivals and departures, and loses no slot: with nothing in flight all slots are free again, and
  a request is turned away (with 429 and a \<open>Retry-After\<close>) only when as many as the limit are in
  flight. Health checks are never turned away.
\<close>

lemma backpressure_bound:
  assumes "bp.run limit sem in_flight" "backpressure_arrive r sem = (sem', dec)"
  shows "length in_flight \<le> limit \<and> sem + length in_flight = limit \<and>
    ((\<exists>ms. dec = Rejected ms) \<longrightarrow> length in_flight = limit \<and> \<not> startswith (rs_path r) ''/health'')"
  using bp.run_slots [OF assms(1), of "()"] assms(2)
  by (auto simp: backpressure_arrive_def split: if_splits)

lemma backpressure_bound_reached:
  "\<exists>sem r. bp.run 1 sem [r] \<and> (\<exists>ms. snd (backpressure_arrive r sem) = Rejected ms) \<and> sem = 0"
proof -
  let ?r = "\<lparr>rs_type = ''http'', rs_path = ''/v2/scrape'', rs_received = None\<rparr>"
  have "backpressure_arrive ?r 1 = (0, Admitted)" by (simp add: backpressure_arrive_def startswith_def)
  from bp.arrive_in [OF bp.start this] have run: "bp.run 1 0 [?r]" .
  obtain ms where "backpressure_arrive ?r 0 = (0, Rejected ms)" by (simp add: backpressure_arrive_def startswith_def)
  with backpressure_bound [OF run this] run show ?thesis by auto
qed

lemma proxy_path_no_health: "is_proxy_path path \<Longrightarrow> \<not> startswith path ''/health''"
proof
  assume p: "is_proxy_path path" and h: "startswith path ''/health''"
  have "path ! 1 = CHR ''v''"
  proof (cases "path = ''/v2''")
    case False
    with p have "take 4 path = ''/v2/''" by (simp add: is_proxy_path_def startswith_def eval_nat_numeral)
    then have "take 4 path ! 1 = CHR ''v''" by simp
    then show ?thesis by simp
  qed simp
  moreover have "take 7 path ! 1 = CHR ''h''" using h by (simp add: startswith_def eval_nat_numeral)
  ultimately show False by simp
qed

text \<open>
  C17: the bulkhead keeps its lanes apart. In every run the requests in flight in a lane are at
  most its limit; under no memory pressure a proxy request over HTTP is turned away only when its
  own lane is full, however loaded the dashboard lane is; and no slot is lost.
\<close>

theorem bulkhead_isolation:
  assumes "bh.run (new_bulkhead pl dl bl (Some limit)) b in_flight" "0 < limit"
    "rs_type s = ''http''" "is_proxy_path (rs_path s)" "bulkhead_arrive False s b = (b', dec)"
  shows "length (filter (\<lambda>(p, r). request_lane r = ProxyHttp) in_flight) \<le> nat limit \<and>
    ((\<exists>ms. dec = Rejected ms) \<longleftrightarrow>
       length (filter (\<lambda>(p, r). request_lane r = ProxyHttp) in_flight) = nat limit) \<and>
    (in_flight = [] \<longrightarrow> dec = Admitted)"
proof -
  let ?b = "new_bulkhead pl dl bl (Some limit)"
  have sem: "get_semaphore ProxyHttp ?b = Some (nat limit)"
    using assms(2) by (simp add: new_bulkhead_def lane_of_limit_def Let_def)
  have eq: "(case r of (p, r) \<Rightarrow> request_lane r) = ProxyHttp \<longleftrightarrow> (case r of (p, r) \<Rightarrow> request_lane r = ProxyHttp)"
    for r :: "bool \<times> request_scope" by (cases r) simp
  have slots: "get_semaphore ProxyHttp b \<noteq> None"
    "lane_free b ProxyHttp + length (filter (\<lambda>(p, r). request_lane r = ProxyHttp) in_flight) = nat limit"
    using bh.run_slots [OF assms(1), of ProxyHttp] sem by (simp_all add: lane_free_def eq)
  then obtain n where n: "get_semaphore ProxyHttp b = Some n" by blast
  have "\<not> startswith (rs_path s) ''/health''"
    using assms(4) by (rule proxy_path_no_health)
  then show ?thesis
    using assms(3,4,5) slots n assms(2)
    by (auto simp: bulkhead_arrive_def get_lane_def lane_free_def Let_def split: if_splits)
qed

theorem bulkhead_isolation_witness:
  "\<exists>ms b. bulkhead_arrive False \<lparr>rs_type = ''http'', rs_path = ''/v2/scrape'', rs_received = None\<rparr> b = (b, Rejected ms) \<and>
     get_semaphore ProxyHttp b = Some 0 \<and> get_semaphore Dashboard b = Some 5"
proof -
  let ?r = "\<lparr>rs_type = ''http'', rs_path = ''/v2/scrape'', rs_received = None\<rparr>"
  let ?init = "new_bulkhead None 5 10 (Some 1)" let ?b = "?init\<lparr>bh_proxy_http := Some 0\<rparr>"
  have path: "is_proxy_path ''/v2/scrape''" by (simp add: is_proxy_path_def startswith_def)
  have a: "(\<lambda>(p, s). bulkhead_arrive p s) (False, ?r) ?init = (?b, Admitted)"
    by (simp add: bulkhead_arrive_def startswith_def get_lane_def path new_bulkhead_def lane_of_limit_def Let_def)
  from bh.arrive_in [OF bh.start a] have run: "bh.run ?init ?b [(False, ?r)]" .
  obtain b' dec where arr: "bulkhead_arrive False ?r ?b = (b', dec)" by (meson surj_pair)
  from bulkhead_isolation [OF run _ _ _ arr] path have "\<exists>ms. dec = Rejected ms" by (simp add: get_lane_def)
  moreover from arr this have "b' = ?b" using bh.not_admitted [of "(False, ?r)" ?b b' dec] by auto
  moreover have "get_semaphore ProxyHttp ?b = Some 0 \<and> get_semaphore Dashboard ?b = Some 5"
    by (simp add: new_bulkhead_def lane_of_limit_def Let_def)
  ultimately show ?thesis using arr by blast
qed

text \<open>
  The in-flight count is exact: it equals the number of admitted requests that have not left,
  after any sequence of arrivals, departures and drain switches, and while draining only the
  allowed paths are let through. The drain wait returns true only when that count is zero.
\<close>

lemma drain_count_exact:
  "sd_in_flight (fst (drain_run shutdown_reset 0 es)) = int (snd (drain_run shutdown_reset 0 es)) \<and>
   (\<forall>r s. (sd_draining s \<and> rs_type r = ''http'' \<and> rs_path r \<notin> DRAIN_ALLOWED_HTTP_PATHS) =
      (\<exists>ms. inflight_arrive r s = (s, Rejected ms)))"
  by (auto simp: drain_run_count shutdown_reset_def inflight_arrive_def increment_in_flight_def)

end
