(* ===== verification/Firewall.thy ===== *)
theory Firewall
  imports IpAddress Caches Admission Clock
begin

text \<open>
  The API firewall: the allowlist (\<open>src/app/modules/firewall/service.py\<close>, \<open>repository.py\<close>,
  \<open>api.py\<close>), the middleware that applies it and resolves the client address behind trusted proxies
  (\<open>src/app/core/middleware/api_firewall.py\<close>), and the locality test of
  \<open>src/app/core/request_locality.py\<close>.
\<close>

section \<open>The allowlist\<close>

record allowlist_row =
  al_ip_address :: string
  al_created_at :: int

datatype firewall_error = FirewallValidationError string | FirewallIpAlreadyExistsError string

datatype firewall_mode = AllowAll | AllowlistActive

definition normalize_ip_address :: "string \<Rightarrow> firewall_error + string" where
  "normalize_ip_address value =
     (let raw = strip value
      in if raw = [] then Inl (FirewallValidationError ''IP address is required'')
         else case ip_address raw of
                Some a \<Rightarrow> Inr (print_ip a)
              | None \<Rightarrow> Inl (FirewallValidationError ''Invalid IP address''))"

definition list_entries :: "allowlist_row list \<Rightarrow> allowlist_row list" where
  "list_entries rows = sort_key (\<lambda>r. (al_created_at r, al_ip_address r)) rows"

definition list_ip_addresses :: "allowlist_row list \<Rightarrow> string set" where
  "list_ip_addresses rows = al_ip_address ` set rows"

definition ip_exists :: "string \<Rightarrow> allowlist_row list \<Rightarrow> bool" where
  "ip_exists ip rows = (row_get al_ip_address rows ip \<noteq> None)"

definition list_ips :: "allowlist_row list \<Rightarrow> firewall_mode \<times> allowlist_row list" where
  "list_ips rows =
     (let entries = list_entries rows in (if entries = [] then AllowAll else AllowlistActive, entries))"

definition add_ip :: "int \<Rightarrow> string \<Rightarrow> allowlist_row list \<Rightarrow> firewall_error + (allowlist_row list \<times> allowlist_row)" where
  "add_ip now value rows =
     res_bind (normalize_ip_address value) (\<lambda>normalized.
       if ip_exists normalized rows then Inl (FirewallIpAlreadyExistsError ''IP address already exists'')
       else let row = \<lparr>al_ip_address = normalized, al_created_at = now\<rparr> in Inr (rows @ [row], row))"

definition remove_ip :: "string \<Rightarrow> allowlist_row list \<Rightarrow> firewall_error + (allowlist_row list \<times> bool)" where
  "remove_ip value rows =
     res_bind (normalize_ip_address value) (\<lambda>normalized.
       if ip_exists normalized rows
       then Inr (filter (\<lambda>r. al_ip_address r \<noteq> normalized) rows, True) else Inr (rows, False))"

definition is_ip_allowed :: "allowlist_row list \<Rightarrow> string option \<Rightarrow> bool" where
  "is_ip_allowed rows ip =
     (if list_ip_addresses rows = {} then True
      else case ip of
             None \<Rightarrow> False
           | Some value \<Rightarrow>
               (case normalize_ip_address value of
                  Inl _ \<Rightarrow> False
                | Inr normalized \<Rightarrow> normalized \<in> list_ip_addresses rows))"

section \<open>The client address\<close>

definition is_trusted_proxy_source :: "ip_net list \<Rightarrow> string \<Rightarrow> bool" where
  "is_trusted_proxy_source networks host =
     (case ip_address host of None \<Rightarrow> False | Some a \<Rightarrow> list_ex (in_network a) networks)"

definition is_valid_ip :: "string \<Rightarrow> bool" where
  "is_valid_ip value = (ip_address value \<noteq> None)"

definition xff_hops :: "string \<Rightarrow> string list" where
  "xff_hops forwarded_for = map strip (split_on (CHR '','') forwarded_for)"

text \<open>The loop over the chain, nearest hop first: stop at the first hop that is not a trusted proxy.\<close>

fun walk_chain :: "ip_net list \<Rightarrow> string \<Rightarrow> string list \<Rightarrow> string" where
  "walk_chain networks current [] = current"
| "walk_chain networks current (previous # rest) =
     (if \<not> is_trusted_proxy_source networks current then current else walk_chain networks previous rest)"

text \<open>\<open>None\<close> stands for an invalid chain: the middleware returns \<open>None\<close>, the locality test raises.\<close>

definition resolve_client_ip_from_xff_chain :: "ip_net list \<Rightarrow> string \<Rightarrow> string \<Rightarrow> string option" where
  "resolve_client_ip_from_xff_chain networks socket_ip forwarded_for =
     (let hops = xff_hops forwarded_for
      in if list_ex (\<lambda>h. \<not> is_valid_ip h) hops then None
         else Some (walk_chain networks socket_ip (rev hops)))"

definition truthy_str :: "string option \<Rightarrow> bool" where
  "truthy_str s = (case s of None \<Rightarrow> False | Some v \<Rightarrow> v \<noteq> [])"

definition firewall_client_ip ::
  "bool \<Rightarrow> ip_net list \<Rightarrow> (string \<times> string) list \<Rightarrow> string option \<Rightarrow> string option" where
  "firewall_client_ip trust networks headers socket_ip =
     (case socket_ip of
        Some sock \<Rightarrow>
          if trust \<and> sock \<noteq> [] \<and> is_trusted_proxy_source networks sock \<and> truthy_str (map_of headers ''x-forwarded-for'')
          then (case resolve_client_ip_from_xff_chain networks sock (the (map_of headers ''x-forwarded-for'')) of
                  Some ip \<Rightarrow> Some ip
                | None \<Rightarrow> Some sock)
          else Some sock
      | None \<Rightarrow> None)"

section \<open>The middleware\<close>

definition is_protected_api_path :: "string \<Rightarrow> bool" where
  "is_protected_api_path path = (path = ''/v2'' \<or> startswith path ''/v2/'')"

datatype firewall_reply = CallNext | Forbidden json

text \<open>Without interleaving: look up, or read the allowlist and remember the decision.\<close>

definition api_firewall ::
  "rat \<Rightarrow> allowlist_row list \<Rightarrow> string \<Rightarrow> string option \<Rightarrow> firewall_cache \<Rightarrow> firewall_cache \<times> firewall_reply" where
  "api_firewall now rows path client_ip c =
     (if \<not> is_protected_api_path path then (c, CallNext)
      else let (c', allowed) =
                 (case (case client_ip of None \<Rightarrow> None | Some ip \<Rightarrow> is_allowed now ip c) of
                    Some a \<Rightarrow> (c, a)
                  | None \<Rightarrow>
                      let a = is_ip_allowed rows client_ip
                      in (case client_ip of None \<Rightarrow> c | Some ip \<Rightarrow> cache_set now ip a (Some (fc_version c)) c, a))
           in (c', if allowed then CallNext
                   else Forbidden (api_error ''ip_forbidden'' ''Access denied for client IP'' ''access_error'')))"

section \<open>Admin routes\<close>

datatype firewall_api_reply =
    Created allowlist_row | Deleted | BadRequest string | Conflict string | NotFound string

text \<open>The poller of the process, if it has one, with whether its bump fails.\<close>

definition bump_firewall :: "bool option \<Rightarrow> (string \<times> int) list \<Rightarrow> (string \<times> int) list" where
  "bump_firewall poller versions =
     (case poller of None \<Rightarrow> versions | Some fails \<Rightarrow> bump fails ''firewall'' versions)"

definition add_firewall_ip ::
  "int \<Rightarrow> bool option \<Rightarrow> string \<Rightarrow> allowlist_row list \<times> firewall_cache \<times> (string \<times> int) list
   \<Rightarrow> (allowlist_row list \<times> firewall_cache \<times> (string \<times> int) list) \<times> firewall_api_reply" where
  "add_firewall_ip now poller value st =
     (case st of (rows, c, versions) \<Rightarrow>
        (case add_ip now value rows of
           Inl (FirewallValidationError m) \<Rightarrow> (st, BadRequest m)
         | Inl (FirewallIpAlreadyExistsError m) \<Rightarrow> (st, Conflict m)
         | Inr (rows', row) \<Rightarrow>
             ((rows', invalidate_all c, bump_firewall poller versions), Created row)))"

definition delete_firewall_ip ::
  "bool option \<Rightarrow> string \<Rightarrow> allowlist_row list \<times> firewall_cache \<times> (string \<times> int) list
   \<Rightarrow> (allowlist_row list \<times> firewall_cache \<times> (string \<times> int) list) \<times> firewall_api_reply" where
  "delete_firewall_ip poller value st =
     (case st of (rows, c, versions) \<Rightarrow>
        (case remove_ip value rows of
           Inl (FirewallValidationError m) \<Rightarrow> (st, BadRequest m)
         | Inl (FirewallIpAlreadyExistsError m) \<Rightarrow> (st, Conflict m)
         | Inr (rows', deleted) \<Rightarrow>
             if \<not> deleted then (st, NotFound ''IP address not found'')
             else ((rows', invalidate_all c, bump_firewall poller versions), Deleted)))"

section \<open>Locality\<close>

definition LOCAL_HOSTS :: "string set" where
  "LOCAL_HOSTS = {'''', ''localhost'', ''127.0.0.1'', ''::1'', ''[::1]''}"

definition is_local_host :: "string option \<Rightarrow> bool" where
  "is_local_host host = (case host of None \<Rightarrow> False | Some h \<Rightarrow> lower (strip h) \<in> LOCAL_HOSTS)"

fun first_header :: "(string \<times> string) list \<Rightarrow> string list \<Rightarrow> string option" where
  "first_header headers [] = None"
| "first_header headers (name # names) =
     (if truthy_str (map_of headers name) then map_of headers name else first_header headers names)"

definition strip_quotes :: "string \<Rightarrow> string" where
  "strip_quotes s = rev (dropWhile (\<lambda>c. c = CHR 0x22) (rev (dropWhile (\<lambda>c. c = CHR 0x22) s)))"

text \<open>The first \<open>for=\<close> item of a \<open>Forwarded\<close> header decides.\<close>

fun forwarded_items :: "string list \<Rightarrow> string option" where
  "forwarded_items [] = None"
| "forwarded_items (part # parts) =
     (let item = strip part
      in if \<not> startswith (lower item) ''for='' then forwarded_items parts
         else let candidate = strip_quotes (strip (drop 4 item));
                  candidate = (if startswith candidate ''['' \<and> endswith candidate '']''
                               then butlast (tl candidate) else candidate)
              in if startswith candidate ''_'' then None
                 else if is_valid_ip candidate then Some candidate else None)"

definition resolve_forwarded_header_ip :: "string \<Rightarrow> string option" where
  "resolve_forwarded_header_ip forwarded =
     forwarded_items (concat (map (split_on (CHR '';'')) (split_on (CHR '','') forwarded)))"

definition locality_client_ip ::
  "bool \<Rightarrow> ip_net list \<Rightarrow> (string \<times> string) list \<Rightarrow> string option \<Rightarrow> string option" where
  "locality_client_ip trust networks headers socket_ip =
     (case socket_ip of
        None \<Rightarrow> None
      | Some sock \<Rightarrow>
          if trust \<and> sock \<noteq> [] \<and> is_trusted_proxy_source networks sock
          then (if truthy_str (map_of headers ''x-forwarded-for'')
                then resolve_client_ip_from_xff_chain networks sock (the (map_of headers ''x-forwarded-for''))
                else (case first_header headers [''x-real-ip'', ''true-client-ip'', ''cf-connecting-ip''] of
                        Some v \<Rightarrow> if is_valid_ip (strip v) then Some (strip v) else None
                      | None \<Rightarrow>
                          if truthy_str (map_of headers ''forwarded'')
                          then resolve_forwarded_header_ip (the (map_of headers ''forwarded'')) else None))
          else Some sock)"

definition has_forwarded_client_ip_hint :: "(string \<times> string) list \<Rightarrow> bool" where
  "has_forwarded_client_ip_hint headers =
     list_ex (\<lambda>h. truthy_str (map_of headers h))
       [''x-forwarded-for'', ''forwarded'', ''x-real-ip'', ''true-client-ip'', ''cf-connecting-ip'']"

definition parse_host_header_hostname :: "string option \<Rightarrow> string option" where
  "parse_host_header_hostname host_header =
     (case host_header of
        None \<Rightarrow> None
      | Some raw \<Rightarrow>
          let value = strip raw
          in if value = [] then None
             else if hd value = CHR ''[''
             then (if CHR '']'' \<in> set value then Some (takeWhile (\<lambda>c. c \<noteq> CHR '']'') value @ '']'') else Some value)
             else if count_list value (CHR '':'') = 1 then Some (strip (takeWhile (\<lambda>c. c \<noteq> CHR '':'') value))
             else Some value)"

record connection =
  cn_server_host :: "string option"
  cn_client_host :: "string option"
  cn_headers :: "(string \<times> string) list"

record firewall_settings =
  fs_trust_proxy_headers :: bool
  fs_trusted_networks :: "ip_net list"

definition is_test_server_request :: "connection \<Rightarrow> bool" where
  "is_test_server_request cn =
     (case cn_server_host cn of None \<Rightarrow> False | Some h \<Rightarrow> lower (strip h) \<in> {''testserver'', ''testclient''})"

definition resolve_request_client_host :: "firewall_settings \<Rightarrow> connection \<Rightarrow> string option" where
  "resolve_request_client_host s cn =
     locality_client_ip (fs_trust_proxy_headers s) (fs_trusted_networks s) (cn_headers cn) (cn_client_host cn)"

definition is_local_request :: "firewall_settings \<Rightarrow> connection \<Rightarrow> bool" where
  "is_local_request s cn =
     (if is_test_server_request cn then True
      else case resolve_request_client_host s cn of
             None \<Rightarrow> False
           | Some host \<Rightarrow>
               if host = [] then False
               else (case ip_address host of
                       None \<Rightarrow> False
                     | Some address \<Rightarrow>
                         if is_loopback address
                         then (let host_name = parse_host_header_hostname (map_of (cn_headers cn) ''host'')
                               in if fs_trust_proxy_headers s
                                  then is_local_host host_name \<and> has_forwarded_client_ip_hint (cn_headers cn)
                                  else is_local_host host_name \<and> \<not> has_forwarded_client_ip_hint (cn_headers cn))
                         else False))"

section \<open>Interleaved lookups and changes\<close>

text \<open>
  A look-up that misses the cache reads the version, then the allowlist, then stores its decision;
  an admin change commits, then invalidates the cache. Other requests may run between any two of
  these. \<open>fw_dirty\<close> says that a change was committed since the last invalidation.
\<close>

record fw_system =
  fw_rows :: "allowlist_row list"
  fw_dirty :: bool
  fw_cache :: firewall_cache
  fw_lookups :: "(string \<times> int \<times> bool option) list"

inductive fw_step :: "fw_system \<Rightarrow> fw_system \<Rightarrow> bool" where
  commit: "fw_step s (s\<lparr>fw_rows := rows', fw_dirty := True\<rparr>)"
| invalidate: "fw_step s (s\<lparr>fw_dirty := False, fw_cache := invalidate_all (fw_cache s)\<rparr>)"
| begin_lookup: "fw_step s (s\<lparr>fw_lookups := (ip, fc_version (fw_cache s), None) # fw_lookups s\<rparr>)"
| read_rows: "fw_lookups s = ls @ (ip, v, None) # ls' \<Longrightarrow>
    fw_step s (s\<lparr>fw_lookups := ls @ (ip, v, Some (is_ip_allowed (fw_rows s) (Some ip))) # ls'\<rparr>)"
| finish_lookup: "fw_lookups s = ls @ (ip, v, Some a) # ls' \<Longrightarrow>
    fw_step s (s\<lparr>fw_lookups := ls @ ls', fw_cache := cache_set now ip a (Some v) (fw_cache s)\<rparr>)"

inductive fw_reachable :: "fw_system \<Rightarrow> fw_system \<Rightarrow> bool" for s0 where
  fw_init: "fw_reachable s0 s0"
| fw_more: "fw_reachable s0 s \<Longrightarrow> fw_step s s' \<Longrightarrow> fw_reachable s0 s'"

definition fw_inv :: "fw_system \<Rightarrow> bool" where
  "fw_inv s \<longleftrightarrow> (\<forall>(ip, v, a)\<in>set (fw_lookups s). v \<le> fc_version (fw_cache s)) \<and>
     (\<not> fw_dirty s \<longrightarrow>
       (\<forall>ip e. map_of (fc_cache (fw_cache s)) ip = Some e \<longrightarrow> cd_allowed e = is_ip_allowed (fw_rows s) (Some ip)) \<and>
       (\<forall>(ip, v, a)\<in>set (fw_lookups s). v = fc_version (fw_cache s) \<longrightarrow> a \<noteq> None \<longrightarrow>
          a = Some (is_ip_allowed (fw_rows s) (Some ip))))"

lemma fw_step_inv:
  assumes "fw_step s s'" "fw_inv s"
  shows "fw_inv s'"
  using assms
proof (cases rule: fw_step.cases)
  case (commit rows')
  with assms(2) show ?thesis by (auto simp: fw_inv_def)
next
  case invalidate
  with assms(2) show ?thesis by (fastforce simp: fw_inv_def invalidate_all_def)
next
  case (begin_lookup ip)
  with assms(2) show ?thesis by (auto simp: fw_inv_def)
next
  case (read_rows ls ip v ls')
  with assms(2) show ?thesis by (auto simp: fw_inv_def)
next
  case (finish_lookup ls ip v a ls' now)
  then have a: "\<not> fw_dirty s \<Longrightarrow> v = fc_version (fw_cache s) \<Longrightarrow> a = is_ip_allowed (fw_rows s) (Some ip)"
    using assms(2) by (auto simp: fw_inv_def)
  have ver: "fc_version (cache_set now ip a (Some v) c) = fc_version c" for c by (simp add: cache_set_def)
  show ?thesis
    using assms(2) finish_lookup a unfolding fw_inv_def
    by (auto simp: ver) (auto simp: cache_set_def split: if_splits)
qed

section \<open>Properties\<close>

text \<open>
  C20: the firewall cache is coherent. However look-ups and changes of the allowlist interleave, as
  soon as the cache has been invalidated after the last change, every decision it answers is the
  decision the current allowlist gives: a look-up that read the list before the change cannot
  store its stale decision after the invalidation.
\<close>

theorem firewall_cache_coherent:
  assumes "fw_reachable s0 s" "fc_cache (fw_cache s0) = []" "fw_lookups s0 = []"
    "\<not> fw_dirty s" "is_allowed now ip (fw_cache s) = Some a"
  shows "a = is_ip_allowed (fw_rows s) (Some ip)"
proof -
  have "fw_inv s"
    using assms(1)
  proof (induction rule: fw_reachable.induct)
    case fw_init
    with assms(2,3) show ?case by (simp add: fw_inv_def)
  next
    case (fw_more s s')
    then show ?case using fw_step_inv by blast
  qed
  with assms(4,5) show ?thesis by (auto simp: fw_inv_def is_allowed_def split: option.splits if_splits)
qed

theorem firewall_cache_coherent_witness:
  "\<exists>s :: fw_system. fw_rows s = [\<lparr>al_ip_address = ''10.0.0.1'', al_created_at = 0\<rparr>] \<and>
     is_allowed 1 ''10.0.0.9'' (fw_cache s) = Some (is_ip_allowed (fw_rows s) (Some ''10.0.0.9''))"
proof -
  let ?rows = "[\<lparr>al_ip_address = ''10.0.0.1'', al_created_at = 0\<rparr>]"
  let ?c = "\<lparr>fc_ttl_seconds = 30, fc_cache = [], fc_version = 0\<rparr>"
  let ?s = "\<lambda>ls c. \<lparr>fw_rows = ?rows, fw_dirty = False, fw_cache = c, fw_lookups = ls\<rparr>"
  let ?a = "is_ip_allowed ?rows (Some ''10.0.0.9'')"
  let ?c' = "cache_set 0 ''10.0.0.9'' ?a (Some 0) ?c"
  have r1: "fw_reachable (?s [] ?c) (?s [(''10.0.0.9'', 0, None)] ?c)"
    using fw_more [OF fw_init begin_lookup [of "?s [] ?c" "''10.0.0.9''"]] by simp
  have r2: "fw_reachable (?s [] ?c) (?s [(''10.0.0.9'', 0, Some ?a)] ?c)"
    using fw_more [OF r1 read_rows [of _ "[]" "''10.0.0.9''" 0 "[]"]] by simp
  have r3: "fw_reachable (?s [] ?c) (?s [] ?c')"
    using fw_more [OF r2 finish_lookup [of _ "[]" "''10.0.0.9''" 0 ?a "[]" 0]] by simp
  obtain b where b: "is_allowed 1 ''10.0.0.9'' ?c' = Some b" by (simp add: is_allowed_def cache_set_def)
  have "b = ?a"
    using firewall_cache_coherent [OF r3 _ _ _, of 1 "''10.0.0.9''" b] b by simp
  with b show ?thesis
    by (intro exI [of _ "?s [] ?c'"] conjI) simp_all
qed

lemma walk_chain_trusted:
  assumes "is_trusted_proxy_source nets current" "list_all (is_trusted_proxy_source nets) proxies"
    "\<not> is_trusted_proxy_source nets origin"
  shows "walk_chain nets current (proxies @ origin # rest) = origin"
  using assms
proof (induction proxies arbitrary: current)
  case Nil
  then show ?case by (cases rest) simp_all
qed simp



text \<open>
  Adding and removing addresses has the expected effect on decisions; an empty list allows all.
\<close>

lemma add_ip_decision:
  assumes "add_ip now v rows = Inr (rows', row)"
  shows "is_ip_allowed rows' (Some u) \<longleftrightarrow>
    (\<exists>n. normalize_ip_address u = Inr n \<and> n \<in> insert (al_ip_address row) (list_ip_addresses rows))"
  using assms
  by (auto simp: add_ip_def res_bind_eq_Inr is_ip_allowed_def list_ip_addresses_def Let_def split: sum.splits if_splits)

lemma remove_ip_decision:
  assumes "remove_ip v rows = Inr (rows', True)"
  shows "\<exists>n. normalize_ip_address v = Inr n \<and> list_ip_addresses rows' = list_ip_addresses rows - {n} \<and>
    is_ip_allowed rows' (Some v) = (list_ip_addresses rows \<subseteq> {n})"
  using assms
  by (auto simp: remove_ip_def res_bind_eq_Inr is_ip_allowed_def list_ip_addresses_def filter_empty_conv image_subset_iff
      split: sum.splits if_splits)

text \<open>
  Without trusted proxies, a request is local only over a loopback connection, with a local
  \<open>Host\<close> (so a page of another site cannot rebind its name), and without forwarding headers.
\<close>

lemma is_local_request_direct:
  assumes "\<not> fs_trust_proxy_headers s" "\<not> is_test_server_request cn" "is_local_request s cn"
  shows "\<exists>sock a. cn_client_host cn = Some sock \<and> ip_address sock = Some a \<and> is_loopback a \<and>
    is_local_host (parse_host_header_hostname (map_of (cn_headers cn) ''host'')) \<and>
    \<not> has_forwarded_client_ip_hint (cn_headers cn)"
  using assms
  by (auto simp: is_local_request_def resolve_request_client_host_def locality_client_ip_def Let_def
      split: option.splits if_splits)

end
