(* ===== verification/Totp.thy ===== *)
theory Totp
  imports Prelude
begin

text \<open>
  Time-based one-time passwords, \<open>src/app/core/auth/totp.py\<close>. The package \<open>pyotp\<close> is a parameter:
  \<open>at_time secret t\<close> is \<open>pyotp.TOTP(secret).at(t)\<close>. \<open>base64.b32decode\<close>, \<open>str.upper\<close>,
  \<open>str.isdigit\<close> and \<open>hmac.compare_digest\<close> are those of the Python library; comparing strings that
  are not ASCII raises \<open>TypeError\<close>.
\<close>

definition TOTP_PERIOD_SECONDS :: int where "TOTP_PERIOD_SECONDS = 30"
definition TOTP_DIGITS :: nat where "TOTP_DIGITS = 6"

record totp_verification =
  tv_is_valid :: bool
  tv_matched_step :: "int option"

text \<open>
  \<open>str.upper\<close> on Latin-1. The sharp s becomes two letters; the micro sign and the y with diaeresis
  have capitals outside Latin-1 and are kept, which no caller can tell apart: neither form is ASCII.
\<close>

definition upper_char :: "char \<Rightarrow> string" where
  "upper_char c = (let n = code_point c :: nat in
     if 97 \<le> n \<and> n \<le> 122 \<or> 224 \<le> n \<and> n \<le> 254 \<and> n \<noteq> 247 then [char_of (n - 32)]
     else if n = 223 then ''SS'' else [c])"

definition upper :: "string \<Rightarrow> string" where
  "upper s = concat (map upper_char s)"

text \<open>Whether \<open>base64.b32decode(s, casefold=True)\<close> succeeds, for a string without small letters.\<close>

definition b32_char :: "char \<Rightarrow> bool" where
  "b32_char c = (let n = code_point c :: nat in 65 \<le> n \<and> n \<le> 90 \<or> 50 \<le> n \<and> n \<le> 55)"

definition b32_decodable :: "string \<Rightarrow> bool" where
  "b32_decodable s =
     (let body = rev (dropWhile ((=) CHR ''='') (rev s))
      in length s mod 8 = 0 \<and> list_all b32_char body \<and> length s - length body \<in> {0, 1, 3, 4, 6})"

definition normalize_secret :: "string \<Rightarrow> string res" where
  "normalize_secret secret =
     (let compact = upper (concat (split_ws secret)); missing = nat ((- int (length compact)) mod 8)
      in if compact = [] then Inl ValueError
         else if b32_decodable (compact @ replicate missing CHR ''='') then Inr compact
         else Inl ValueError)"

definition py_isdigit :: "char \<Rightarrow> bool" where
  "py_isdigit c = (let n = code_point c :: nat in 48 \<le> n \<and> n \<le> 57 \<or> n = 178 \<or> n = 179 \<or> n = 185)"

definition normalize_code :: "string \<Rightarrow> string" where
  "normalize_code code = filter py_isdigit code"

definition time_step :: "int \<Rightarrow> int" where
  "time_step timestamp = timestamp div 30"

definition is_ascii :: "string \<Rightarrow> bool" where
  "is_ascii s = list_all (\<lambda>c. (code_point c :: nat) < 128) s"

definition compare_digest :: "string \<Rightarrow> string \<Rightarrow> bool res" where
  "compare_digest a b = (if is_ascii a \<and> is_ascii b then Inr (a = b) else Inl TypeError)"

definition generate_totp_secret :: "(nat \<Rightarrow> string) \<Rightarrow> int \<Rightarrow> string res" where
  "generate_totp_secret random_base32 bytes_length =
     (if bytes_length \<le> 0 then Inl ValueError
      else Inr (random_base32 (nat (max 32 ((bytes_length * 8 + 4) div 5)))))"

definition build_otpauth_uri :: "(string \<Rightarrow> string \<Rightarrow> string \<Rightarrow> string) \<Rightarrow> string \<Rightarrow> string \<Rightarrow> string \<Rightarrow> string res" where
  "build_otpauth_uri provisioning_uri secret account_name issuer =
     res_bind (normalize_secret secret) (\<lambda>normalized_secret. Inr (provisioning_uri normalized_secret account_name issuer))"

text \<open>The loop over the offsets, as the list of steps that are left to try.\<close>

fun try_steps :: "(int \<Rightarrow> string) \<Rightarrow> string \<Rightarrow> int option \<Rightarrow> int list \<Rightarrow> totp_verification res" where
  "try_steps expected code last_step [] = Inr \<lparr>tv_is_valid = False, tv_matched_step = None\<rparr>"
| "try_steps expected code last_step (step # steps) =
     (if (case last_step of None \<Rightarrow> False | Some l \<Rightarrow> step \<le> l) then try_steps expected code last_step steps
      else res_bind (compare_digest (expected (step * TOTP_PERIOD_SECONDS)) code) (\<lambda>equal.
        if equal then Inr \<lparr>tv_is_valid = True, tv_matched_step = Some step\<rparr>
        else try_steps expected code last_step steps))"

definition verify_totp_code ::
  "(string \<Rightarrow> int \<Rightarrow> string) \<Rightarrow> string \<Rightarrow> string \<Rightarrow> int \<Rightarrow> int \<Rightarrow> int option \<Rightarrow> totp_verification res" where
  "verify_totp_code at_time secret code window now last_verified_step =
     (if window < 0 then Inl ValueError
      else res_bind (normalize_secret secret) (\<lambda>normalized_secret.
        let normalized_code = normalize_code code
        in if length normalized_code \<noteq> TOTP_DIGITS then Inr \<lparr>tv_is_valid = False, tv_matched_step = None\<rparr>
           else let current_step = time_step now
                in try_steps (at_time normalized_secret) normalized_code last_verified_step
                     (map (\<lambda>offset. current_step + offset) [- window..window])))"

section \<open>Properties\<close>

lemma compare_digest_Inr [simp]: "compare_digest a b = Inr e \<longleftrightarrow> is_ascii a \<and> is_ascii b \<and> e = (a = b)"
  by (auto simp: compare_digest_def)

lemma try_steps_valid:
  assumes "try_steps expected code l steps = Inr v" "tv_is_valid v"
  shows "\<exists>step\<in>set steps. tv_matched_step v = Some step \<and> expected (step * TOTP_PERIOD_SECONDS) = code \<and>
    (\<forall>m. l = Some m \<longrightarrow> m < step)"
  using assms
  by (induction expected code l steps rule: try_steps.induct)
     (auto simp: res_bind_eq_Inr split: if_splits option.splits)

lemma try_steps_first:
  assumes "is_ascii code" "\<forall>step\<in>set (pre @ [step]). is_ascii (expected (step * TOTP_PERIOD_SECONDS))"
    "expected (step * TOTP_PERIOD_SECONDS) = code" "\<forall>m. l = Some m \<longrightarrow> m < step"
    "\<forall>s\<in>set pre. expected (s * TOTP_PERIOD_SECONDS) \<noteq> code"
  shows "try_steps expected code l (pre @ step # steps) = Inr \<lparr>tv_is_valid = True, tv_matched_step = Some step\<rparr>"
  using assms by (induction pre) (auto simp: compare_digest_def split: option.split)

text \<open>
  An accepted code is the code of a step of the window that is later than the last accepted step.
\<close>

lemma verify_totp_code_sound:
  assumes "verify_totp_code at_time secret code window now l = Inr v" "tv_is_valid v"
  shows "\<exists>step key. tv_matched_step v = Some step \<and> normalize_secret secret = Inr key \<and>
    time_step now - window \<le> step \<and> step \<le> time_step now + window \<and>
    at_time key (step * TOTP_PERIOD_SECONDS) = normalize_code code \<and> (\<forall>m. l = Some m \<longrightarrow> m < step)"
  using assms try_steps_valid
  by (fastforce simp: verify_totp_code_def res_bind_eq_Inr Let_def split: if_splits)

lemma verify_totp_code_invalid_step:
  "verify_totp_code at_time secret code window now l = Inr v \<Longrightarrow> \<not> tv_is_valid v \<Longrightarrow> tv_matched_step v = None"
proof -
  have "try_steps expected c l steps = Inr v \<Longrightarrow> \<not> tv_is_valid v \<Longrightarrow> tv_matched_step v = None"
    for expected c steps
    by (induction expected c l steps rule: try_steps.induct) (auto simp: res_bind_eq_Inr split: if_splits)
  then show "verify_totp_code at_time secret code window now l = Inr v \<Longrightarrow> \<not> tv_is_valid v \<Longrightarrow>
      tv_matched_step v = None"
    by (auto simp: verify_totp_code_def res_bind_eq_Inr Let_def split: if_splits)
qed

text \<open>
  The current code is accepted when no step of the window has been used and the two other codes of
  the window differ from it.
\<close>

lemma verify_totp_code_complete:
  assumes "normalize_secret secret = Inr key" "\<And>t. is_ascii (at_time key t)"
    "at_time key (time_step now * TOTP_PERIOD_SECONDS) = normalize_code code" "length (normalize_code code) = TOTP_DIGITS"
    "\<forall>m. l = Some m \<longrightarrow> m < time_step now"
    "at_time key ((time_step now - 1) * TOTP_PERIOD_SECONDS) \<noteq> normalize_code code"
  shows "verify_totp_code at_time secret code 1 now l =
    Inr \<lparr>tv_is_valid = True, tv_matched_step = Some (time_step now)\<rparr>"
proof -
  have "[- 1..1] = [-1, 0, 1 :: int]" by (simp add: upto.simps)
  moreover have "is_ascii (normalize_code code)" using assms(2,3) by metis
  ultimately show ?thesis
    using try_steps_first [of "normalize_code code" "[time_step now - 1]" "time_step now" "at_time key" l
        "[time_step now + 1]"] assms
    by (simp add: verify_totp_code_def)
qed

text \<open>
  A code with a superscript digit passes the digit filter and makes the comparison raise, so the
  check fails with an exception instead of rejecting the code.
\<close>

lemma verify_totp_code_superscript:
  "verify_totp_code at_time ''JBSWY3DP'' [CHR 178, CHR ''1'', CHR ''2'', CHR ''3'', CHR ''4'', CHR ''5''] 1 now None =
    Inl TypeError"
proof -
  have "normalize_secret ''JBSWY3DP'' = Inr ''JBSWY3DP''" by code_simp
  moreover have "normalize_code [CHR 178, CHR ''1'', CHR ''2'', CHR ''3'', CHR ''4'', CHR ''5''] =
      [CHR 178, CHR ''1'', CHR ''2'', CHR ''3'', CHR ''4'', CHR ''5'']" by code_simp
  moreover have "\<not> is_ascii [CHR 178, CHR ''1'', CHR ''2'', CHR ''3'', CHR ''4'', CHR ''5'']" by code_simp
  moreover have "[- 1..1] = [-1, 0, 1 :: int]" by (simp add: upto.simps)
  ultimately show ?thesis by (simp add: verify_totp_code_def TOTP_DIGITS_def compare_digest_def)
qed

end
