(* ===== verification/ErrorHandlers.thy ===== *)
theory ErrorHandlers
  imports JsonCodec Admission
begin

text \<open>
  The domain exceptions of \<open>src/app/core/exceptions.py\<close> and the exception handlers of
  \<open>src/app/core/handlers/exceptions.py\<close>. What the two default handlers of FastAPI answer is the
  constructor \<open>FrameworkDefault\<close>. Log lines are not modelled.
\<close>

datatype error_class = ProxyAuthError | ProxyModelNotAllowed | ProxyRateLimitError | ProxyUpstreamError
  | DashboardAuthError | DashboardNotFoundError | DashboardConflictError | DashboardBadRequestError
  | DashboardValidationError | DashboardRateLimitError

fun error_status_code :: "error_class \<Rightarrow> int" where
  "error_status_code ProxyAuthError = 401"
| "error_status_code ProxyModelNotAllowed = 403"
| "error_status_code ProxyRateLimitError = 429"
| "error_status_code ProxyUpstreamError = 503"
| "error_status_code DashboardAuthError = 401"
| "error_status_code DashboardNotFoundError = 404"
| "error_status_code DashboardConflictError = 409"
| "error_status_code DashboardBadRequestError = 400"
| "error_status_code DashboardValidationError = 422"
| "error_status_code DashboardRateLimitError = 429"

fun error_default_code :: "error_class \<Rightarrow> string" where
  "error_default_code ProxyAuthError = ''invalid_api_key''"
| "error_default_code ProxyModelNotAllowed = ''model_not_allowed''"
| "error_default_code ProxyRateLimitError = ''rate_limit_exceeded''"
| "error_default_code ProxyUpstreamError = ''upstream_error''"
| "error_default_code DashboardAuthError = ''authentication_required''"
| "error_default_code DashboardNotFoundError = ''not_found''"
| "error_default_code DashboardConflictError = ''conflict''"
| "error_default_code DashboardBadRequestError = ''bad_request''"
| "error_default_code DashboardValidationError = ''validation_error''"
| "error_default_code DashboardRateLimitError = ''rate_limited''"

fun error_type_of :: "error_class \<Rightarrow> string" where
  "error_type_of ProxyAuthError = ''authentication_error''"
| "error_type_of ProxyModelNotAllowed = ''permission_error''"
| "error_type_of ProxyRateLimitError = ''rate_limit_error''"
| "error_type_of _ = ''server_error''"

record app_error =
  ae_class :: error_class
  ae_code :: string
  ae_message :: string
  ae_retry_after :: "int option"

text \<open>\<open>AppError.__init__\<close>: an empty message is replaced, a code overrides the default.\<close>

definition new_app_error :: "error_class \<Rightarrow> string \<Rightarrow> string option \<Rightarrow> app_error" where
  "new_app_error cls message code =
     \<lparr>ae_class = cls, ae_code = (case code of None \<Rightarrow> error_default_code cls | Some c \<Rightarrow> c),
      ae_message = (if message = [] then ''Unexpected error'' else message), ae_retry_after = None\<rparr>"

definition new_rate_limit_error :: "string \<Rightarrow> int \<Rightarrow> string option \<Rightarrow> app_error" where
  "new_rate_limit_error message retry_after code =
     (new_app_error DashboardRateLimitError message code)\<lparr>ae_retry_after := Some retry_after\<rparr>"

definition is_api_error :: "error_class \<Rightarrow> bool" where
  "is_api_error cls = (cls \<in> {ProxyAuthError, ProxyModelNotAllowed, ProxyRateLimitError, ProxyUpstreamError})"

datatype error_reply = ErrorReply int json "(string \<times> string) list" | FrameworkDefault

definition api_domain_handler :: "app_error \<Rightarrow> error_reply" where
  "api_domain_handler e =
     ErrorReply (error_status_code (ae_class e)) (api_error (ae_code e) (ae_message e) (error_type_of (ae_class e))) []"

definition dashboard_domain_handler :: "app_error \<Rightarrow> error_reply" where
  "dashboard_domain_handler e =
     ErrorReply (error_status_code (ae_class e)) (dashboard_error (ae_code e) (ae_message e))
       (case ae_retry_after e of None \<Rightarrow> [] | Some n \<Rightarrow> [(''Retry-After'', py_str_int n)])"

definition handle_app_error :: "app_error \<Rightarrow> error_reply" where
  "handle_app_error e = (if is_api_error (ae_class e) then api_domain_handler e else dashboard_domain_handler e)"

definition error_format :: "string option \<Rightarrow> string \<Rightarrow> string option" where
  "error_format marker path =
     (case marker of
        Some fmt \<Rightarrow> Some fmt
      | None \<Rightarrow>
          if startswith path ''/api/'' then Some ''dashboard''
          else if startswith path ''/v2/admin/'' then None
          else if path = ''/v2'' \<or> startswith path ''/v2/'' then Some ''api''
          else None)"

text \<open>
  A validation error lists, per problem, a message and the location of the value, whose parts are
  strings and integers; only the first problem is looked at.
\<close>

datatype loc_part = LocName string | LocIndex int

fun loc_str :: "loc_part \<Rightarrow> string" where
  "loc_str (LocName s) = s"
| "loc_str (LocIndex n) = py_str_int n"

definition validation_param :: "loc_part list list \<Rightarrow> string" where
  "validation_param locs =
     (case locs of [] \<Rightarrow> [] | loc # _ \<Rightarrow> join ''.'' (map loc_str (filter (\<lambda>p. p \<noteq> LocName ''body'') loc)))"

definition validation_error_handler :: "string option \<Rightarrow> string \<Rightarrow> loc_part list list \<Rightarrow> error_reply" where
  "validation_error_handler marker path locs =
     (let fmt = error_format marker path in
      if fmt = Some ''dashboard''
      then ErrorReply 422 (dashboard_error ''validation_error'' ''Invalid request payload'') []
      else if fmt = Some ''api''
      then ErrorReply 400
             (JObj [(''error'', JObj ([(''message'', JStr ''Invalid request payload''),
                (''type'', JStr ''invalid_request_error''), (''code'', JStr ''invalid_request_error'')] @
                (if validation_param locs = [] then [] else [(''param'', JStr (validation_param locs))])))]) []
      else FrameworkDefault)"

definition http_error_kind :: "int \<Rightarrow> string \<times> string" where
  "http_error_kind status =
     (if status = 401 then (''authentication_error'', ''invalid_api_key'')
      else if status = 403 then (''permission_error'', ''insufficient_permissions'')
      else if status = 404 then (''invalid_request_error'', ''not_found'')
      else if status = 429 then (''rate_limit_error'', ''rate_limit_exceeded'')
      else if 500 \<le> status then (''server_error'', ''server_error'')
      else (''invalid_request_error'', ''invalid_request_error''))"

definition http_error_handler :: "string option \<Rightarrow> string \<Rightarrow> int \<Rightarrow> string option \<Rightarrow> error_reply" where
  "http_error_handler marker path status detail =
     (let fmt = error_format marker path; text = (case detail of Some d \<Rightarrow> d | None \<Rightarrow> ''Request failed'') in
      if fmt = Some ''dashboard''
      then ErrorReply status (dashboard_error (''http_'' @ py_str_int status) text) []
      else if fmt = Some ''api''
      then (case http_error_kind status of (error_type, code) \<Rightarrow> ErrorReply status (api_error code text error_type) [])
      else FrameworkDefault)"

definition unhandled_error_handler :: "string option \<Rightarrow> string \<Rightarrow> error_reply" where
  "unhandled_error_handler marker path =
     (let fmt = error_format marker path in
      if fmt = Some ''dashboard'' then ErrorReply 500 (dashboard_error ''internal_error'' ''Unexpected error'') []
      else if fmt = Some ''api'' then ErrorReply 500 (api_error ''server_error'' ''Internal server error'' ''server_error'') []
      else ErrorReply 500 (JObj [(''detail'', JStr ''Internal Server Error'')]) [])"

section \<open>Envelopes\<close>

text \<open>The two envelopes a client can rely on: an object \<open>error\<close> with a code and a message.\<close>

definition envelope_code :: "json \<Rightarrow> string option" where
  "envelope_code content =
     (case content of JObj ob \<Rightarrow> (case jget ob ''error'' of JObj detail \<Rightarrow> json_str (jget detail ''code'') | _ \<Rightarrow> None) | _ \<Rightarrow> None)"

lemma envelope_code_simps [simp]:
  "envelope_code (api_error c m t) = Some c" "envelope_code (dashboard_error c m) = Some c"
  by (simp_all add: envelope_code_def api_error_def dashboard_error_def)

text \<open>
  Every error of a request to the API or to the dashboard, whichever way it arose, is answered in
  an envelope with a code, and an unhandled exception never shows its own text.
\<close>

lemma errors_have_envelopes:
  assumes "error_format marker path \<in> {Some ''dashboard'', Some ''api''}"
  shows "\<exists>st c h code. handle_app_error e = ErrorReply st c h \<and> envelope_code c = Some code"
    "\<exists>st c h code. validation_error_handler marker path locs = ErrorReply st c h \<and> envelope_code c = Some code"
    "\<exists>st c h code. http_error_handler marker path status detail = ErrorReply st c h \<and> envelope_code c = Some code"
    "\<exists>c code. unhandled_error_handler marker path = ErrorReply 500 c [] \<and> envelope_code c = Some code"
  using assms
  by (auto simp: handle_app_error_def api_domain_handler_def dashboard_domain_handler_def
      validation_error_handler_def http_error_handler_def unhandled_error_handler_def envelope_code_def
      api_error_def dashboard_error_def split: prod.split)

end
