(* ===== verification/DashboardState.thy ===== *)
theory DashboardState
  imports JsonCodec Caches Limiters Firewall Totp ErrorHandlers
begin

text \<open>
  The state behind the dashboard login and the operations on it: the settings row
  (\<open>src/app/db/models.py\<close>, \<open>src/app/modules/settings/repository.py\<close>), the repository of
  \<open>src/app/modules/dashboard_auth/repository.py\<close>, the session tokens (\<open>DashboardSessionStore\<close> of
  \<open>src/app/modules/dashboard_auth/service.py\<close>), the authentication mode
  (\<open>src/app/core/auth/dashboard_mode.py\<close>), the header sanitizer
  (\<open>src/app/core/middleware/dashboard_auth_proxy.py\<close>), the access check
  (\<open>src/app/core/auth/dependencies.py\<close>) and the bootstrap token (\<open>src/app/core/bootstrap.py\<close>).

  An operation is a function of the state to the new state and a result or an exception; what it
  has committed stays when it raises. Fernet, bcrypt, SHA-256, \<open>pyotp\<close>, \<open>segno\<close>, the random
  sources and the clocks are the fields of \<open>auth_world\<close>, so each request may have its own. The n-th
  read of a clock within a request is \<open>aw_clock w n\<close> (\<open>int(time())\<close>) or \<open>aw_mono w n\<close>
  (\<open>time.monotonic()\<close>). Byte strings are strings of their bytes.
\<close>

section \<open>State and operations\<close>

record dashboard_settings =
  ds_session_ttl_seconds :: int
  ds_totp_required_on_login :: bool
  ds_password_hash :: "string option"
  ds_bootstrap_token_encrypted :: "string option"
  ds_bootstrap_token_hash :: "string option"
  ds_totp_secret_encrypted :: "string option"
  ds_totp_last_verified_step :: "int option"

record audit_entry =
  au_action :: string
  au_actor_ip :: "string option"
  au_details :: "(string \<times> json) list"

record auth_state =
  as_settings :: "dashboard_settings option"
  as_cache :: "dashboard_settings settings_cache"
  as_attempts :: "attempt list"
  as_audit :: "audit_entry list"

datatype auth_mode = STANDARD | TRUSTED_HEADER | DISABLED

record app_settings =
  ap_auth_mode :: auth_mode
  ap_proxy_header :: string
  ap_bootstrap_token :: "string option"
  ap_firewall :: firewall_settings

record auth_world =
  aw_settings :: app_settings
  aw_encrypt :: "string \<Rightarrow> string"
  aw_decrypt :: "string \<Rightarrow> string res"
  aw_hashpw :: "string \<Rightarrow> string res"
  aw_checkpw :: "string \<Rightarrow> string \<Rightarrow> bool res"
  aw_sha256 :: "string \<Rightarrow> string"
  aw_totp_at :: "string \<Rightarrow> int \<Rightarrow> string"
  aw_random_base32 :: "nat \<Rightarrow> string"
  aw_provisioning_uri :: "string \<Rightarrow> string \<Rightarrow> string \<Rightarrow> string"
  aw_qr_svg_data_uri :: "string \<Rightarrow> string"
  aw_token_urlsafe :: string
  aw_clock :: "nat \<Rightarrow> int"
  aw_mono :: "nat \<Rightarrow> rat"
  aw_utc :: int

type_synonym ('e, 'a) act = "auth_state \<Rightarrow> auth_state \<times> ('e + 'a)"

definition ret :: "'a \<Rightarrow> ('e, 'a) act" where
  "ret x = (\<lambda>s. (s, Inr x))"

definition raise :: "'e \<Rightarrow> ('e, 'a) act" where
  "raise e = (\<lambda>s. (s, Inl e))"

definition bind :: "('e, 'a) act \<Rightarrow> ('a \<Rightarrow> ('e, 'b) act) \<Rightarrow> ('e, 'b) act" where
  "bind m f = (\<lambda>s. case m s of (s', Inl e) \<Rightarrow> (s', Inl e) | (s', Inr x) \<Rightarrow> f x s')"

text \<open>\<open>try\<close> with its \<open>except\<close> clauses.\<close>

definition handle :: "('e, 'a) act \<Rightarrow> ('e \<Rightarrow> ('f, 'a) act) \<Rightarrow> ('f, 'a) act" where
  "handle m h = (\<lambda>s. case m s of (s', Inl e) \<Rightarrow> h e s' | (s', Inr x) \<Rightarrow> (s', Inr x))"

definition lift_res :: "('x \<Rightarrow> 'e) \<Rightarrow> 'x + 'a \<Rightarrow> ('e, 'a) act" where
  "lift_res f r = (\<lambda>s. (s, map_sum f id r))"

definition modify :: "(auth_state \<Rightarrow> auth_state) \<Rightarrow> ('e, unit) act" where
  "modify f = (\<lambda>s. (f s, Inr ()))"

lemma ret_apply [simp]: "ret x s = (s, Inr x)"
  by (simp add: ret_def)

lemma raise_apply [simp]: "raise e s = (s, Inl e)"
  by (simp add: raise_def)

lemma modify_apply [simp]: "modify f s = (f s, Inr ())"
  by (simp add: modify_def)

lemma lift_res_apply [simp]: "lift_res f (Inl e) s = (s, Inl (f e))" "lift_res f (Inr x) s = (s, Inr x)"
  by (simp_all add: lift_res_def)

text \<open>Inversion of a run: how a sequence of operations ended.\<close>

lemma bind_Inr: "bind m f s = (s', Inr y) \<longleftrightarrow> (\<exists>s1 x. m s = (s1, Inr x) \<and> f x s1 = (s', Inr y))"
  by (auto simp: bind_def split: prod.splits sum.splits)

lemma bind_Inl: "bind m f s = (s', Inl e) \<longleftrightarrow>
    m s = (s', Inl e) \<or> (\<exists>s1 x. m s = (s1, Inr x) \<and> f x s1 = (s', Inl e))"
  by (auto simp: bind_def split: prod.splits sum.splits)

lemma handle_Inr: "handle m h s = (s', Inr y) \<longleftrightarrow>
    m s = (s', Inr y) \<or> (\<exists>s1 e. m s = (s1, Inl e) \<and> h e s1 = (s', Inr y))"
  by (auto simp: handle_def split: prod.splits sum.splits)

lemma lift_res_Inr: "lift_res f r s = (s', Inr x) \<longleftrightarrow> r = Inr x \<and> s' = s"
  by (cases r) auto

lemma bind_eq: "m s = (s1, Inr x) \<Longrightarrow> bind m f s = f x s1" "m s = (s1, Inl e) \<Longrightarrow> bind m f s = (s1, Inl e)"
  by (simp_all add: bind_def)

lemma handle_eq: "m s = (s1, Inr x) \<Longrightarrow> handle m h s = (s1, Inr x)" "m s = (s1, Inl e) \<Longrightarrow> handle m h s = h e s1"
  by (simp_all add: handle_def)

named_theorems act_inv \<open>inversion of successful runs\<close>

lemmas [act_inv] = bind_Inr handle_Inr lift_res_Inr

text \<open>
  A relation between the states before and after an operation, whether it raises or not.
\<close>

definition keeps :: "(auth_state \<Rightarrow> auth_state \<Rightarrow> bool) \<Rightarrow> ('e, 'a) act \<Rightarrow> bool" where
  "keeps R m = (\<forall>s. R s (fst (m s)))"

lemma keepsD: "keeps R m \<Longrightarrow> m s = (s', r) \<Longrightarrow> R s s'"
  by (metis fst_conv keeps_def)

lemma keeps_cases:
  "(c \<Longrightarrow> keeps R m) \<Longrightarrow> (\<not> c \<Longrightarrow> keeps R m') \<Longrightarrow> keeps R (if c then m else m')"
  "(x = None \<Longrightarrow> keeps R m) \<Longrightarrow> (\<And>y. x = Some y \<Longrightarrow> keeps R (f y)) \<Longrightarrow> keeps R (case x of None \<Rightarrow> m | Some y \<Rightarrow> f y)"
  "(\<And>a b. p = (a, b) \<Longrightarrow> keeps R (g a b)) \<Longrightarrow> keeps R (case p of (a, b) \<Rightarrow> g a b)"
  by (simp, cases x, simp_all) (cases p, simp)

fun run_all :: "('e, 'a) act list \<Rightarrow> auth_state \<Rightarrow> auth_state" where
  "run_all [] s = s"
| "run_all (m # ms) s = run_all ms (fst (m s))"

text \<open>
  What a reflexive and transitive relation needs to hold of a program is that it holds of the
  operations that write the state.
\<close>

locale kept =
  fixes R :: "auth_state \<Rightarrow> auth_state \<Rightarrow> bool"
  assumes kept_refl: "R s s"
    and kept_trans: "R s s1 \<Longrightarrow> R s1 s2 \<Longrightarrow> R s s2"
begin

lemma keeps_pure: "keeps R (ret x)" "keeps R (raise e)" "keeps R (lift_res f r)"
  by (simp_all add: keeps_def lift_res_def kept_refl)

lemma keeps_bind:
  assumes "keeps R m" "\<And>x. keeps R (f x)"
  shows "keeps R (bind m f)"
proof -
  have "R s (fst (bind m f s))" for s
  proof (cases "m s")
    case (Pair s1 r)
    have "R s s1" "R s1 (fst (f x s1))" for x using keepsD [OF assms(1) Pair] assms(2) by (simp_all add: keeps_def)
    with Pair show ?thesis by (cases r) (auto simp: bind_def intro: kept_trans)
  qed
  then show ?thesis by (simp add: keeps_def)
qed

lemma keeps_handle:
  assumes "keeps R m" "\<And>e. keeps R (h e)"
  shows "keeps R (handle m h)"
proof -
  have "R s (fst (handle m h s))" for s
  proof (cases "m s")
    case (Pair s1 r)
    have "R s s1" "R s1 (fst (h e s1))" for e using keepsD [OF assms(1) Pair] assms(2) by (simp_all add: keeps_def)
    with Pair show ?thesis by (cases r) (auto simp: handle_def intro: kept_trans)
  qed
  then show ?thesis by (simp add: keeps_def)
qed

lemmas keeps_rules = keeps_pure keeps_bind keeps_handle keeps_cases

lemma keeps_run: "(\<And>m. m \<in> set ms \<Longrightarrow> keeps R m) \<Longrightarrow> R s (run_all ms s)"
proof (induction ms arbitrary: s)
  case (Cons m ms)
  have "R s (fst (m s))" using Cons.prems [of m] by (simp add: keeps_def)
  with Cons show ?case by (auto intro: kept_trans)
qed (simp add: kept_refl)

end

section \<open>The settings row\<close>

definition default_settings :: dashboard_settings where
  "default_settings =
     \<lparr>ds_session_ttl_seconds = 43200, ds_totp_required_on_login = False, ds_password_hash = None,
      ds_bootstrap_token_encrypted = None, ds_bootstrap_token_hash = None,
      ds_totp_secret_encrypted = None, ds_totp_last_verified_step = None\<rparr>"

definition row_of :: "auth_state \<Rightarrow> dashboard_settings" where
  "row_of s = (case as_settings s of Some row \<Rightarrow> row | None \<Rightarrow> default_settings)"

definition get_or_create :: "('e, dashboard_settings) act" where
  "get_or_create =
     (\<lambda>s. case as_settings s of
            Some row \<Rightarrow> (s, Inr row)
          | None \<Rightarrow> (s\<lparr>as_settings := Some default_settings\<rparr>, Inr default_settings))"

lemma get_or_create_apply: "get_or_create s = (s\<lparr>as_settings := Some (row_of s)\<rparr>, Inr (row_of s))"
  by (cases s) (auto simp: get_or_create_def row_of_def split: option.split)

definition write_row :: "(dashboard_settings \<Rightarrow> dashboard_settings) \<Rightarrow> ('e, dashboard_settings) act" where
  "write_row f = bind get_or_create (\<lambda>row. bind (modify (\<lambda>s. s\<lparr>as_settings := Some (f row)\<rparr>)) (\<lambda>_. ret (f row)))"

text \<open>\<open>UPDATE ... WHERE guard ... RETURNING id\<close>: whether the row was updated.\<close>

definition update_where ::
  "(dashboard_settings \<Rightarrow> bool) \<Rightarrow> (dashboard_settings \<Rightarrow> dashboard_settings) \<Rightarrow> ('e, bool) act" where
  "update_where guard f =
     bind get_or_create (\<lambda>row.
       if guard row then bind (modify (\<lambda>s. s\<lparr>as_settings := Some (f row)\<rparr>)) (\<lambda>_. ret True) else ret False)"

definition get_settings :: "('e, dashboard_settings) act" where
  "get_settings = get_or_create"

definition set_totp_secret :: "string option \<Rightarrow> ('e, dashboard_settings) act" where
  "set_totp_secret secret_encrypted =
     write_row (\<lambda>row.
       let row = row\<lparr>ds_totp_secret_encrypted := secret_encrypted, ds_totp_last_verified_step := None\<rparr>
       in if secret_encrypted = None then row\<lparr>ds_totp_required_on_login := False\<rparr> else row)"

definition set_password_hash :: "string \<Rightarrow> ('e, dashboard_settings) act" where
  "set_password_hash password_hash =
     write_row (\<lambda>row. row\<lparr>ds_password_hash := Some password_hash, ds_bootstrap_token_encrypted := None,
       ds_bootstrap_token_hash := None\<rparr>)"

definition try_set_password_hash :: "string \<Rightarrow> ('e, bool) act" where
  "try_set_password_hash password_hash =
     update_where (\<lambda>row. ds_password_hash row = None)
       (\<lambda>row. row\<lparr>ds_password_hash := Some password_hash, ds_bootstrap_token_encrypted := None,
          ds_bootstrap_token_hash := None\<rparr>)"

definition get_password_hash :: "('e, string option) act" where
  "get_password_hash = bind get_or_create (\<lambda>row. ret (ds_password_hash row))"

definition clear_password_and_totp :: "('e, dashboard_settings) act" where
  "clear_password_and_totp =
     write_row (\<lambda>row. row\<lparr>ds_password_hash := None, ds_bootstrap_token_encrypted := None,
       ds_bootstrap_token_hash := None, ds_totp_required_on_login := False,
       ds_totp_secret_encrypted := None, ds_totp_last_verified_step := None\<rparr>)"

definition store_bootstrap_token_if_absent :: "string \<Rightarrow> string \<Rightarrow> ('e, bool) act" where
  "store_bootstrap_token_if_absent token_encrypted token_hash =
     update_where (\<lambda>row. ds_password_hash row = None \<and> ds_bootstrap_token_hash row = None)
       (\<lambda>row. row\<lparr>ds_bootstrap_token_encrypted := Some token_encrypted, ds_bootstrap_token_hash := Some token_hash\<rparr>)"

definition clear_bootstrap_token :: "('e, bool) act" where
  "clear_bootstrap_token =
     update_where (\<lambda>row. ds_bootstrap_token_hash row \<noteq> None)
       (\<lambda>row. row\<lparr>ds_bootstrap_token_encrypted := None, ds_bootstrap_token_hash := None\<rparr>)"

definition try_advance_totp_last_verified_step :: "int \<Rightarrow> ('e, bool) act" where
  "try_advance_totp_last_verified_step step =
     update_where (\<lambda>row. case ds_totp_last_verified_step row of None \<Rightarrow> True | Some l \<Rightarrow> l < step)
       (\<lambda>row. row\<lparr>ds_totp_last_verified_step := Some step\<rparr>)"

text \<open>The settings through the cache, which is read twice (before and under its lock).\<close>

definition cached_settings :: "rat \<Rightarrow> rat \<Rightarrow> ('e, dashboard_settings) act" where
  "cached_settings t t' =
     (\<lambda>s. case fresh_settings t (as_cache s) of
            Some row \<Rightarrow> (s, Inr row)
          | None \<Rightarrow>
              (case fresh_settings t' (as_cache s) of
                 Some row \<Rightarrow> (s, Inr row)
               | None \<Rightarrow>
                   bind get_or_create (\<lambda>row.
                     bind (modify (\<lambda>s. s\<lparr>as_cache := fst (settings_get t t' row (as_cache s))\<rparr>)) (\<lambda>_. ret row)) s))"

definition invalidate_settings :: "('e, unit) act" where
  "invalidate_settings = modify (\<lambda>s. s\<lparr>as_cache := settings_invalidate (as_cache s)\<rparr>)"

definition log_async :: "string \<Rightarrow> string option \<Rightarrow> (string \<times> json) list \<Rightarrow> ('e, unit) act" where
  "log_async action actor_ip details =
     modify (\<lambda>s. s\<lparr>as_audit := as_audit s @ [\<lparr>au_action = action, au_actor_ip = actor_ip, au_details = details\<rparr>]\<rparr>)"

section \<open>Session tokens\<close>

record session_state =
  ss_expires_at :: int
  ss_password_verified :: bool
  ss_totp_verified :: bool

definition session_payload :: "int \<Rightarrow> bool \<Rightarrow> bool \<Rightarrow> string" where
  "session_payload expiry pw tv =
     dumps (\<lambda>_. []) '','' '':'' (JObj [(''exp'', JInt expiry), (''pw'', JBool pw), (''tv'', JBool tv)])"

definition session_create :: "auth_world \<Rightarrow> int \<Rightarrow> bool \<Rightarrow> bool \<Rightarrow> int \<Rightarrow> string" where
  "session_create w now password_verified totp_verified ttl_seconds =
     aw_encrypt w (session_payload (now + ttl_seconds) password_verified totp_verified)"

text \<open>\<open>isinstance(v, int)\<close>, which holds of booleans too, as the number it is.\<close>

fun json_int :: "json \<Rightarrow> int option" where
  "json_int (JInt n) = Some n"
| "json_int (JBool b) = Some (if b then 1 else 0)"
| "json_int _ = None"

definition session_of_data :: "int \<Rightarrow> jobj \<Rightarrow> session_state option" where
  "session_of_data now data =
     (case (json_int (jget data ''exp''), jget data ''pw'', jget data ''tv'') of
        (Some expiry, JBool pw, JBool tv) \<Rightarrow>
          if expiry < now then None
          else Some \<lparr>ss_expires_at = expiry, ss_password_verified = pw, ss_totp_verified = tv\<rparr>
      | _ \<Rightarrow> None)"

text \<open>Every failure to decrypt or to parse is no session; a payload that is not an object raises.\<close>

definition session_get :: "auth_world \<Rightarrow> int \<Rightarrow> string option \<Rightarrow> session_state option res" where
  "session_get w now session_id =
     (case session_id of
        None \<Rightarrow> Inr None
      | Some sid \<Rightarrow>
          if strip sid = [] then Inr None
          else if \<not> is_ascii (strip sid) then Inr None
          else (case aw_decrypt w (strip sid) of
                  Inl _ \<Rightarrow> Inr None
                | Inr raw \<Rightarrow>
                    (case loads raw of
                       Inl _ \<Rightarrow> Inr None
                     | Inr (JObj data) \<Rightarrow> Inr (session_of_data now data)
                     | Inr _ \<Rightarrow> Inl AttributeError)))"

definition is_password_verified :: "auth_world \<Rightarrow> int \<Rightarrow> string option \<Rightarrow> bool res" where
  "is_password_verified w now session_id =
     res_bind (session_get w now session_id) (\<lambda>st. Inr (case st of None \<Rightarrow> False | Some st \<Rightarrow> ss_password_verified st))"

definition is_totp_verified :: "auth_world \<Rightarrow> int \<Rightarrow> string option \<Rightarrow> bool res" where
  "is_totp_verified w now session_id =
     res_bind (session_get w now session_id) (\<lambda>st. Inr (case st of None \<Rightarrow> False | Some st \<Rightarrow> ss_totp_verified st))"

section \<open>The authentication mode of a request\<close>

record dash_request =
  dr_connection :: connection
  dr_cookie :: "string option"
  dr_https :: bool

record request_auth =
  ra_mode :: auth_mode
  ra_actor :: "string option"

definition get_trusted_header_auth :: "app_settings \<Rightarrow> connection \<Rightarrow> request_auth option" where
  "get_trusted_header_auth ap cn =
     (case cn_client_host cn of
        None \<Rightarrow> None
      | Some client_host \<Rightarrow>
          if client_host = [] \<or> \<not> fs_trust_proxy_headers (ap_firewall ap) then None
          else if \<not> is_trusted_proxy_source (fs_trusted_networks (ap_firewall ap)) client_host then None
          else (case map_of (cn_headers cn) (lower (ap_proxy_header ap)) of
                  None \<Rightarrow> None
                | Some raw_actor \<Rightarrow>
                    if strip raw_actor = [] then None
                    else Some \<lparr>ra_mode = TRUSTED_HEADER, ra_actor = Some (strip raw_actor)\<rparr>))"

definition get_dashboard_request_auth :: "app_settings \<Rightarrow> dash_request \<Rightarrow> request_auth option" where
  "get_dashboard_request_auth ap req =
     (case ap_auth_mode ap of
        DISABLED \<Rightarrow> Some \<lparr>ra_mode = DISABLED, ra_actor = None\<rparr>
      | TRUSTED_HEADER \<Rightarrow> get_trusted_header_auth ap (dr_connection req)
      | STANDARD \<Rightarrow> None)"

definition password_management_enabled :: "auth_mode \<Rightarrow> bool" where
  "password_management_enabled mode = (mode \<noteq> DISABLED)"

text \<open>The characters of an HTTP header name, and the names the setting may not take.\<close>

definition header_name_char :: "char \<Rightarrow> bool" where
  "header_name_char c = (let n = code_point c :: nat in
     48 \<le> n \<and> n \<le> 57 \<or> 65 \<le> n \<and> n \<le> 90 \<or> 97 \<le> n \<and> n \<le> 122 \<or>
     n \<in> {33, 35, 36, 37, 38, 39, 42, 43, 45, 46, 94, 95, 96, 124, 126})"

definition FORBIDDEN_PROXY_AUTH_HEADERS :: "string list" where
  "FORBIDDEN_PROXY_AUTH_HEADERS =
     [''authorization'', ''connection'', ''content-length'', ''cookie'', ''forwarded'', ''host'', ''keep-alive'',
      ''proxy-authenticate'', ''proxy-authorization'', ''te'', ''trailer'', ''transfer-encoding'', ''upgrade'',
      ''x-forwarded-for'', ''x-forwarded-host'', ''x-forwarded-proto'']"

definition normalize_dashboard_auth_proxy_header :: "string \<Rightarrow> string res" where
  "normalize_dashboard_auth_proxy_header value =
     (let header = strip value
      in if header = [] then Inl ValueError
         else if \<not> list_all header_name_char header then Inl ValueError
         else if lower header \<in> set FORBIDDEN_PROXY_AUTH_HEADERS then Inl ValueError
         else Inr header)"

text \<open>The sanitizer removes the trusted header from requests that do not come from a trusted proxy.\<close>

definition filter_headers :: "(string \<times> string) list \<Rightarrow> string \<Rightarrow> (string \<times> string) list" where
  "filter_headers headers target = filter (\<lambda>(name, value). lower name \<noteq> target) headers"

definition sanitize_headers :: "app_settings \<Rightarrow> connection \<Rightarrow> connection" where
  "sanitize_headers ap cn =
     (if ap_auth_mode ap \<noteq> TRUSTED_HEADER then cn
      else if (case cn_client_host cn of
                 None \<Rightarrow> False
               | Some host \<Rightarrow> fs_trust_proxy_headers (ap_firewall ap) \<and> host \<noteq> [] \<and>
                   is_trusted_proxy_source (fs_trusted_networks (ap_firewall ap)) host)
      then cn
      else if \<not> list_ex (\<lambda>(name, value). lower name = lower (ap_proxy_header ap)) (cn_headers cn) then cn
      else cn\<lparr>cn_headers := filter_headers (cn_headers cn) (lower (ap_proxy_header ap))\<rparr>)"

section \<open>The access check\<close>

datatype route_exc = App app_error | Unhandled pyexc

definition auth_error :: "string \<Rightarrow> string option \<Rightarrow> route_exc" where
  "auth_error message code = App (new_app_error DashboardAuthError message code)"

definition bad_request :: "string \<Rightarrow> string \<Rightarrow> route_exc" where
  "bad_request message code = App (new_app_error DashboardBadRequestError message (Some code))"

definition validate_dashboard_session :: "auth_world \<Rightarrow> dash_request \<Rightarrow> (route_exc, unit) act" where
  "validate_dashboard_session w req =
     (if get_dashboard_request_auth (aw_settings w) req \<noteq> None then ret ()
      else bind (cached_settings (aw_mono w 0) (aw_mono w 1)) (\<lambda>settings.
        let password_required = truthy_str (ds_password_hash settings);
            requires_auth = (password_required \<or> ds_totp_required_on_login settings)
        in if ap_auth_mode (aw_settings w) = TRUSTED_HEADER \<and> \<not> requires_auth
           then raise (auth_error ''Reverse proxy authentication is required'' (Some ''proxy_auth_required''))
           else if \<not> requires_auth
           then (if \<not> is_local_request (ap_firewall (aw_settings w)) (dr_connection req)
                 then raise (auth_error ''Remote bootstrap is required before dashboard access is allowed''
                        (Some ''bootstrap_required''))
                 else ret ())
           else bind (lift_res Unhandled (session_get w (aw_clock w 0) (dr_cookie req))) (\<lambda>st.
             case st of
               None \<Rightarrow> raise (auth_error ''Authentication is required'' None)
             | Some st \<Rightarrow>
                 if password_required \<and> \<not> ss_password_verified st
                 then raise (auth_error ''Authentication is required'' None)
                 else if ds_totp_required_on_login settings \<and> \<not> ss_totp_verified st
                 then raise (auth_error ''TOTP verification is required for dashboard access'' (Some ''totp_required''))
                 else ret ())))"

definition require_firecrawl_admin :: "auth_world \<Rightarrow> dash_request \<Rightarrow> (route_exc, unit) act" where
  "require_firecrawl_admin w req =
     bind (validate_dashboard_session w req) (\<lambda>_.
       if get_dashboard_request_auth (aw_settings w) req = None \<and> \<not> truthy_str (dr_cookie req)
       then raise (auth_error ''Authentication is required'' None) else ret ())"

section \<open>The bootstrap token\<close>

definition get_manual_bootstrap_token :: "app_settings \<Rightarrow> string option" where
  "get_manual_bootstrap_token ap =
     (case ap_bootstrap_token ap of None \<Rightarrow> None | Some t \<Rightarrow> if strip t = [] then None else Some (strip t))"

definition has_active_bootstrap_token :: "auth_world \<Rightarrow> ('e, bool) act" where
  "has_active_bootstrap_token w =
     (if get_manual_bootstrap_token (aw_settings w) \<noteq> None then ret True
      else bind get_settings (\<lambda>row. ret (ds_password_hash row = None \<and> ds_bootstrap_token_hash row \<noteq> None)))"

definition validate_bootstrap_token :: "auth_world \<Rightarrow> string \<Rightarrow> ('e, bool) act" where
  "validate_bootstrap_token w submitted =
     (case get_manual_bootstrap_token (aw_settings w) of
        Some manual \<Rightarrow> ret (submitted = manual)
      | None \<Rightarrow>
          bind get_settings (\<lambda>row.
            ret (ds_password_hash row = None \<and> ds_bootstrap_token_hash row = Some (aw_sha256 w submitted))))"

datatype bootstrap_status = Valid | Invalid | Unavailable | PasswordAlreadyConfigured

definition get_bootstrap_validation_status :: "auth_world \<Rightarrow> string \<Rightarrow> ('e, bootstrap_status) act" where
  "get_bootstrap_validation_status w submitted =
     (case get_manual_bootstrap_token (aw_settings w) of
        Some manual \<Rightarrow> ret (if submitted = manual then Valid else Invalid)
      | None \<Rightarrow>
          bind get_settings (\<lambda>row.
            ret (case ds_bootstrap_token_hash row of
                   None \<Rightarrow> if ds_password_hash row \<noteq> None then PasswordAlreadyConfigured else Unavailable
                 | Some h \<Rightarrow>
                     if aw_sha256 w submitted = h then Valid
                     else if ds_password_hash row \<noteq> None then PasswordAlreadyConfigured else Invalid)))"

definition ensure_auto_bootstrap_token :: "auth_world \<Rightarrow> ('e, string option) act" where
  "ensure_auto_bootstrap_token w =
     bind get_settings (\<lambda>row.
       if get_manual_bootstrap_token (aw_settings w) \<noteq> None \<or> ds_password_hash row \<noteq> None
       then (if ds_bootstrap_token_hash row \<noteq> None
             then bind clear_bootstrap_token (\<lambda>_. bind invalidate_settings (\<lambda>_. ret None))
             else ret None)
       else if ds_bootstrap_token_hash row \<noteq> None
       then (case ds_bootstrap_token_encrypted row of
               None \<Rightarrow> ret None
             | Some encrypted \<Rightarrow>
                 (case aw_decrypt w encrypted of Inl _ \<Rightarrow> ret None | Inr token \<Rightarrow> ret (Some token)))
       else let token = aw_token_urlsafe w
            in bind (store_bootstrap_token_if_absent (aw_encrypt w token) (aw_sha256 w token)) (\<lambda>stored.
                 bind invalidate_settings (\<lambda>_. ret (if stored then Some token else None))))"

definition clear_auto_generated_token :: "('e, unit) act" where
  "clear_auto_generated_token =
     bind clear_bootstrap_token (\<lambda>cleared. if cleared then invalidate_settings else ret ())"

section \<open>Lemmas\<close>

lemma session_payload_loads:
  assumes "\<bar>expiry\<bar> < 10 ^ int_max_str_digits"
  shows "loads (session_payload expiry pw tv) = Inr (JObj [(''exp'', JInt expiry), (''pw'', JBool pw), (''tv'', JBool tv)])"
  unfolding session_payload_def using assms by (intro loads_dumps [where w = "[]" and w' = "[]"]) simp_all

lemma session_of_payload:
  "session_of_data now [(''exp'', JInt expiry), (''pw'', JBool pw), (''tv'', JBool tv)] =
    (if expiry < now then None else Some \<lparr>ss_expires_at = expiry, ss_password_verified = pw, ss_totp_verified = tv\<rparr>)"
  by (simp add: session_of_data_def)

lemma session_get_issued:
  assumes "aw_decrypt w (strip sid) = Inr (session_payload expiry pw tv)" "\<bar>expiry\<bar> < 10 ^ int_max_str_digits"
    "session_get w now (Some sid) = Inr (Some st)"
  shows "st = \<lparr>ss_expires_at = expiry, ss_password_verified = pw, ss_totp_verified = tv\<rparr> \<and> now \<le> expiry"
  using assms session_payload_loads [OF assms(2), of pw tv]
  by (auto simp: session_get_def session_of_payload split: if_splits)

lemma session_get_Some:
  assumes "session_get w now sid = Inr (Some st)"
  shows "\<exists>c raw. sid = Some c \<and> strip c \<noteq> [] \<and> aw_decrypt w (strip c) = Inr raw"
  using assms by (auto simp: session_get_def split: option.splits if_splits sum.splits)

end
