(* ===== verification/DashboardAuth.thy ===== *)
theory DashboardAuth
  imports DashboardState
begin

text \<open>
  The dashboard login: \<open>DashboardAuthService\<close> of \<open>src/app/modules/dashboard_auth/service.py\<close> and the
  routes of \<open>src/app/modules/dashboard_auth/api.py\<close>, one definition per method and per route, over
  the state of theory \<open>DashboardState\<close>. The numbers passed to \<open>aw_clock\<close> and \<open>aw_mono\<close> count the
  reads of the clocks in the order the route makes them.
\<close>

section \<open>The service\<close>

datatype auth_exc = TotpAlreadyConfiguredError | TotpNotConfiguredError | TotpInvalidCodeError
  | TotpInvalidSetupError | PasswordAlreadyConfiguredError | PasswordNotConfiguredError
  | InvalidCredentialsError | PasswordSessionRequiredError string | Raised pyexc

fun auth_message :: "auth_exc \<Rightarrow> string" where
  "auth_message TotpAlreadyConfiguredError = ''TOTP is already configured. Disable it before setting a new secret''"
| "auth_message TotpNotConfiguredError = ''TOTP is not configured''"
| "auth_message TotpInvalidCodeError = ''Invalid TOTP code''"
| "auth_message TotpInvalidSetupError = ''Invalid TOTP setup payload''"
| "auth_message PasswordAlreadyConfiguredError = ''Password is already configured''"
| "auth_message PasswordNotConfiguredError = ''Password is not configured''"
| "auth_message InvalidCredentialsError = ''Invalid credentials''"
| "auth_message (PasswordSessionRequiredError message) = message"
| "auth_message (Raised e) = []"

record session_response =
  sr_authenticated :: bool
  sr_password_required :: bool
  sr_totp_required_on_login :: bool
  sr_totp_configured :: bool
  sr_bootstrap_required :: bool
  sr_bootstrap_token_configured :: bool
  sr_auth_mode :: auth_mode
  sr_password_management_enabled :: bool
  sr_password_session_active :: bool

definition get_session_state :: "auth_world \<Rightarrow> int \<Rightarrow> string option \<Rightarrow> (auth_exc, session_response) act" where
  "get_session_state w now session_id =
     bind get_settings (\<lambda>settings.
       let password_required = (ds_password_hash settings \<noteq> None);
           totp_required = (password_required \<and> ds_totp_required_on_login settings)
       in bind (if password_required then lift_res Raised (session_get w now session_id) else ret None) (\<lambda>state.
            let password_authenticated = (case state of None \<Rightarrow> False | Some st \<Rightarrow> ss_password_verified st);
                totp_authenticated = (case state of None \<Rightarrow> False | Some st \<Rightarrow> ss_totp_verified st)
            in ret \<lparr>sr_authenticated =
                      (if \<not> password_required then True
                       else if totp_required then password_authenticated \<and> totp_authenticated
                       else password_authenticated),
                    sr_password_required = password_required,
                    sr_totp_required_on_login = (totp_required \<and> password_authenticated),
                    sr_totp_configured = (ds_totp_secret_encrypted settings \<noteq> None),
                    sr_bootstrap_required = False, sr_bootstrap_token_configured = False,
                    sr_auth_mode = STANDARD, sr_password_management_enabled = True,
                    sr_password_session_active = False\<rparr>))"

definition check_password :: "auth_world \<Rightarrow> string \<Rightarrow> string \<Rightarrow> bool res" where
  "check_password w password password_hash =
     (case aw_checkpw w password password_hash of Inl ValueError \<Rightarrow> Inr False | r \<Rightarrow> r)"

definition svc_setup_password :: "auth_world \<Rightarrow> string \<Rightarrow> (auth_exc, unit) act" where
  "svc_setup_password w password =
     bind (lift_res Raised (aw_hashpw w password)) (\<lambda>h.
     bind (try_set_password_hash h) (\<lambda>setup_ok.
       if setup_ok then ret () else raise PasswordAlreadyConfiguredError))"

definition verify_password :: "auth_world \<Rightarrow> string \<Rightarrow> string option \<Rightarrow> (auth_exc, unit) act" where
  "verify_password w password actor_ip =
     bind get_password_hash (\<lambda>current.
       case current of
         None \<Rightarrow> raise PasswordNotConfiguredError
       | Some h \<Rightarrow>
           bind (lift_res Raised (check_password w password h)) (\<lambda>ok.
             if \<not> ok
             then bind (log_async ''login_failed'' actor_ip [(''method'', JStr ''password'')])
                    (\<lambda>_. raise InvalidCredentialsError)
             else bind get_settings (\<lambda>settings.
               if \<not> ds_totp_required_on_login settings \<or> ds_totp_secret_encrypted settings = None
               then log_async ''login_success'' actor_ip [(''method'', JStr ''password'')]
               else ret ())))"

definition svc_change_password :: "auth_world \<Rightarrow> string \<Rightarrow> string \<Rightarrow> (auth_exc, unit) act" where
  "svc_change_password w current_password new_password =
     bind (verify_password w current_password None) (\<lambda>_.
     bind (lift_res Raised (aw_hashpw w new_password)) (\<lambda>h.
     bind (set_password_hash h) (\<lambda>_. ret ())))"

definition svc_remove_password :: "auth_world \<Rightarrow> string \<Rightarrow> (auth_exc, unit) act" where
  "svc_remove_password w password =
     bind (verify_password w password None) (\<lambda>_. bind clear_password_and_totp (\<lambda>_. ret ()))"

definition require_active_password_session ::
  "auth_world \<Rightarrow> int \<Rightarrow> string option \<Rightarrow> (auth_exc, dashboard_settings \<times> session_state) act" where
  "require_active_password_session w now session_id =
     bind get_settings (\<lambda>settings.
       if ds_password_hash settings = None
       then raise (PasswordSessionRequiredError ''Password-authenticated session is required'')
       else bind (lift_res Raised (session_get w now session_id)) (\<lambda>session.
         case session of
           None \<Rightarrow> raise (PasswordSessionRequiredError ''Password-authenticated session is required'')
         | Some st \<Rightarrow>
             if \<not> ss_password_verified st
             then raise (PasswordSessionRequiredError ''Password-authenticated session is required'')
             else ret (settings, st)))"

definition require_totp_verified_session ::
  "auth_world \<Rightarrow> int \<Rightarrow> int \<Rightarrow> string option \<Rightarrow> (auth_exc, dashboard_settings) act" where
  "require_totp_verified_session w now now' session_id =
     bind (require_active_password_session w now session_id) (\<lambda>(settings, _).
     bind (lift_res Raised (session_get w now' session_id)) (\<lambda>session.
       case session of
         None \<Rightarrow> raise (PasswordSessionRequiredError ''TOTP-verified session is required'')
       | Some st \<Rightarrow>
           if \<not> ss_totp_verified st
           then raise (PasswordSessionRequiredError ''TOTP-verified session is required'')
           else ret settings))"

definition svc_start_totp_setup ::
  "auth_world \<Rightarrow> int \<Rightarrow> string option \<Rightarrow> (auth_exc, string \<times> string \<times> string) act" where
  "svc_start_totp_setup w now session_id =
     bind (require_active_password_session w now session_id) (\<lambda>(settings, _).
       if ds_totp_secret_encrypted settings \<noteq> None then raise TotpAlreadyConfiguredError
       else bind (lift_res Raised (generate_totp_secret (aw_random_base32 w) 20)) (\<lambda>secret.
            bind (lift_res Raised (build_otpauth_uri (aw_provisioning_uri w) secret ''dashboard'' ''firecrawl-lb''))
              (\<lambda>otpauth_uri. ret (secret, otpauth_uri, aw_qr_svg_data_uri w otpauth_uri))))"

definition svc_confirm_totp_setup ::
  "auth_world \<Rightarrow> int \<Rightarrow> int \<Rightarrow> string option \<Rightarrow> string \<Rightarrow> string \<Rightarrow> string option \<Rightarrow> (auth_exc, unit) act" where
  "svc_confirm_totp_setup w now now' session_id secret code actor_ip =
     bind (require_active_password_session w now session_id) (\<lambda>(current, _).
       if ds_totp_secret_encrypted current \<noteq> None then raise TotpAlreadyConfiguredError
       else case verify_totp_code (aw_totp_at w) secret code 1 now' None of
              Inl ValueError \<Rightarrow> raise TotpInvalidSetupError
            | Inl e \<Rightarrow> raise (Raised e)
            | Inr verification \<Rightarrow>
                if \<not> tv_is_valid verification then raise TotpInvalidCodeError
                else bind (set_totp_secret (Some (aw_encrypt w secret))) (\<lambda>_. log_async ''totp_enabled'' actor_ip []))"

text \<open>The check of a code against the stored secret and the last accepted step, and its advance.\<close>

definition check_stored_totp :: "auth_world \<Rightarrow> int \<Rightarrow> dashboard_settings \<Rightarrow> string \<Rightarrow> (auth_exc, bool) act" where
  "check_stored_totp w now settings code =
     (case ds_totp_secret_encrypted settings of
        None \<Rightarrow> raise TotpNotConfiguredError
      | Some secret_encrypted \<Rightarrow>
          bind (lift_res Raised (aw_decrypt w secret_encrypted)) (\<lambda>secret.
          bind (lift_res Raised (verify_totp_code (aw_totp_at w) secret code 1 now (ds_totp_last_verified_step settings)))
            (\<lambda>verification.
               case tv_matched_step verification of
                 Some step \<Rightarrow> if tv_is_valid verification then try_advance_totp_last_verified_step step else ret False
               | None \<Rightarrow> ret False)))"

definition svc_verify_totp ::
  "auth_world \<Rightarrow> (nat \<Rightarrow> int) \<Rightarrow> string option \<Rightarrow> string \<Rightarrow> string option \<Rightarrow> (auth_exc, string \<times> int) act" where
  "svc_verify_totp w clock session_id code actor_ip =
     bind (require_active_password_session w (clock 0) session_id) (\<lambda>(settings, existing_state).
     bind (check_stored_totp w (clock 1) settings code) (\<lambda>updated.
       if \<not> updated
       then bind (log_async ''login_failed'' actor_ip [(''method'', JStr ''totp'')]) (\<lambda>_. raise TotpInvalidCodeError)
       else bind (log_async ''login_success'' actor_ip [(''method'', JStr ''totp'')]) (\<lambda>_.
         let inherited_ttl = max 1 (ss_expires_at existing_state - clock 2)
         in ret (session_create w (clock 3) True True inherited_ttl, inherited_ttl))))"

definition svc_disable_totp ::
  "auth_world \<Rightarrow> (nat \<Rightarrow> int) \<Rightarrow> string option \<Rightarrow> string \<Rightarrow> string option \<Rightarrow> (auth_exc, unit) act" where
  "svc_disable_totp w clock session_id code actor_ip =
     bind (require_totp_verified_session w (clock 0) (clock 1) session_id) (\<lambda>settings.
     bind (check_stored_totp w (clock 2) settings code) (\<lambda>updated.
       if \<not> updated then raise TotpInvalidCodeError
       else bind (set_totp_secret None) (\<lambda>_. log_async ''totp_disabled'' actor_ip [])))"

section \<open>The routes\<close>

datatype auth_reply =
    SessionReply session_response
  | LoginReply session_response string int bool
  | StatusOk
  | StatusOkDeleteCookie
  | TotpSetupReply string string string

text \<open>\<open>LoginReply\<close> sets the session cookie: its value, \<open>max_age\<close> and \<open>secure\<close>.\<close>

definition to_route :: "(auth_exc \<Rightarrow> route_exc option) \<Rightarrow> auth_exc \<Rightarrow> route_exc" where
  "to_route clauses e =
     (case clauses e of
        Some r \<Rightarrow> r
      | None \<Rightarrow> (case e of Raised x \<Rightarrow> Unhandled x | _ \<Rightarrow> Unhandled ValueError))"

definition excepting :: "(auth_exc \<Rightarrow> route_exc option) \<Rightarrow> (auth_exc, 'a) act \<Rightarrow> (route_exc, 'a) act" where
  "excepting clauses m = handle m (\<lambda>e. raise (to_route clauses e))"

definition password_clauses :: "auth_exc \<Rightarrow> route_exc option" where
  "password_clauses e =
     (case e of
        PasswordNotConfiguredError \<Rightarrow> Some (bad_request (auth_message e) ''password_not_configured'')
      | InvalidCredentialsError \<Rightarrow> Some (auth_error (auth_message e) (Some ''invalid_credentials''))
      | _ \<Rightarrow> None)"

definition totp_setup_clauses :: "auth_exc \<Rightarrow> route_exc option" where
  "totp_setup_clauses e =
     (case e of
        PasswordSessionRequiredError m \<Rightarrow> Some (auth_error m None)
      | TotpInvalidCodeError \<Rightarrow> Some (bad_request (auth_message e) ''invalid_totp_code'')
      | TotpInvalidSetupError \<Rightarrow> Some (bad_request (auth_message e) ''invalid_totp_setup'')
      | TotpAlreadyConfiguredError \<Rightarrow> Some (bad_request (auth_message e) ''invalid_totp_setup'')
      | _ \<Rightarrow> None)"

definition totp_clauses :: "auth_exc \<Rightarrow> route_exc option" where
  "totp_clauses e =
     (case e of
        PasswordSessionRequiredError m \<Rightarrow> Some (auth_error m None)
      | TotpInvalidCodeError \<Rightarrow> Some (bad_request (auth_message e) ''invalid_totp_code'')
      | TotpNotConfiguredError \<Rightarrow> Some (bad_request (auth_message e) ''invalid_totp_code'')
      | _ \<Rightarrow> None)"

definition no_clauses :: "auth_exc \<Rightarrow> route_exc option" where
  "no_clauses e = None"

definition session_client_key :: "dash_request \<Rightarrow> string \<Rightarrow> string" where
  "session_client_key req prefix =
     prefix @ '':'' @ (case cn_client_host (dr_connection req) of None \<Rightarrow> ''unknown'' | Some host \<Rightarrow> host)"

definition totp_rate_limiter :: rate_limiter where
  "totp_rate_limiter = \<lparr>dl_max_attempts = 8, dl_window_seconds = 60, dl_type = ''totp''\<rparr>"

definition password_rate_limiter :: rate_limiter where
  "password_rate_limiter = \<lparr>dl_max_attempts = 8, dl_window_seconds = 60, dl_type = ''password''\<rparr>"

definition limit_attempts :: "auth_world \<Rightarrow> rate_limiter \<Rightarrow> string \<Rightarrow> string \<Rightarrow> (route_exc, unit) act" where
  "limit_attempts w rl key code =
     (\<lambda>s. case check_and_increment rl key (aw_utc w) (as_attempts s) of
            (table, Inr _) \<Rightarrow> (s\<lparr>as_attempts := table\<rparr>, Inr ())
          | (table, Inl n) \<Rightarrow>
              (s\<lparr>as_attempts := table\<rparr>,
               Inl (App (new_rate_limit_error (''Too many attempts. Try again in '' @ py_str_int n @ '' seconds.'') n
                      (Some code)))))"

definition clear_attempts :: "rate_limiter \<Rightarrow> string \<Rightarrow> ('e, unit) act" where
  "clear_attempts rl key = modify (\<lambda>s. s\<lparr>as_attempts := clear_for_key rl key (as_attempts s)\<rparr>)"

definition create_dashboard_session ::
  "auth_world \<Rightarrow> rat \<Rightarrow> rat \<Rightarrow> int \<Rightarrow> bool \<Rightarrow> bool \<Rightarrow> (route_exc, string \<times> int) act" where
  "create_dashboard_session w t t' now password_verified totp_verified =
     bind (cached_settings t t') (\<lambda>settings.
       ret (session_create w now password_verified totp_verified (ds_session_ttl_seconds settings),
            ds_session_ttl_seconds settings))"

definition decorate_session_response ::
  "auth_world \<Rightarrow> int \<Rightarrow> dash_request \<Rightarrow> session_response \<Rightarrow> bool \<Rightarrow> string option \<Rightarrow> (route_exc, session_response) act" where
  "decorate_session_response w now req response force_authenticated password_session_id =
     (let request_auth = get_dashboard_request_auth (aw_settings w) req;
          auth_mode = ap_auth_mode (aw_settings w);
          sid = (if truthy_str password_session_id then password_session_id else dr_cookie req)
      in bind (if truthy_str sid then lift_res Unhandled (session_get w now sid) else ret None) (\<lambda>state.
           let has_pwd = (case state of None \<Rightarrow> False | Some st \<Rightarrow> ss_password_verified st);
               tv = (case state of None \<Rightarrow> False | Some st \<Rightarrow> ss_totp_verified st);
               totp_pending = (has_pwd \<and> sr_totp_required_on_login response \<and> \<not> tv);
               fully_authorized = (has_pwd \<and> \<not> totp_pending \<and> sr_password_required response)
           in ret (case request_auth of
                     None \<Rightarrow>
                       response\<lparr>sr_auth_mode := auth_mode,
                         sr_password_management_enabled := password_management_enabled auth_mode,
                         sr_password_session_active := fully_authorized,
                         sr_authenticated :=
                           (if auth_mode = TRUSTED_HEADER \<and> \<not> sr_password_required response \<and>
                               \<not> sr_totp_required_on_login response then False
                            else sr_authenticated response)\<rparr>
                   | Some ra \<Rightarrow>
                       response\<lparr>sr_authenticated := (force_authenticated \<or> sr_authenticated response),
                         sr_totp_required_on_login := totp_pending, sr_auth_mode := ra_mode ra,
                         sr_password_management_enabled := password_management_enabled (ra_mode ra),
                         sr_password_session_active := fully_authorized\<rparr>)))"

definition has_active_password_session :: "auth_world \<Rightarrow> int \<Rightarrow> dash_request \<Rightarrow> (route_exc, bool) act" where
  "has_active_password_session w now req =
     bind get_settings (\<lambda>settings.
       if ds_password_hash settings = None then ret False
       else lift_res Unhandled (is_password_verified w now (dr_cookie req)))"

definition ensure_password_management_enabled :: "auth_world \<Rightarrow> dash_request \<Rightarrow> (route_exc, unit) act" where
  "ensure_password_management_enabled w req =
     (case get_dashboard_request_auth (aw_settings w) req of
        Some ra \<Rightarrow>
          if \<not> password_management_enabled (ra_mode ra)
          then raise (bad_request ''Password and TOTP management is disabled while dashboard auth is bypassed''
                 ''password_management_disabled'')
          else ret ()
      | None \<Rightarrow> ret ())"

definition validate_password_management_session :: "auth_world \<Rightarrow> dash_request \<Rightarrow> (route_exc, unit) act" where
  "validate_password_management_session w req =
     bind (ensure_password_management_enabled w req) (\<lambda>_.
     bind (lift_res Unhandled (session_get w (aw_clock w 0) (dr_cookie req))) (\<lambda>state.
       case state of
         None \<Rightarrow> raise (auth_error ''Authentication is required'' None)
       | Some st \<Rightarrow>
           if \<not> ss_password_verified st then raise (auth_error ''Authentication is required'' None)
           else bind (cached_settings (aw_mono w 0) (aw_mono w 1)) (\<lambda>settings.
             if ds_totp_required_on_login settings \<and> \<not> ss_totp_verified st
             then raise (auth_error ''TOTP verification is required for dashboard access'' (Some ''totp_required''))
             else ret ())))"

definition utf8_length :: "string \<Rightarrow> nat" where
  "utf8_length s = sum_list (map (\<lambda>c. if (code_point c :: nat) < 128 then 1 else 2) s)"

definition validate_password_length :: "string \<Rightarrow> (route_exc, unit) act" where
  "validate_password_length password =
     (if length password < 8
      then raise (App (new_app_error DashboardValidationError ''Password must be at least 8 characters'' None))
      else if 72 < utf8_length password
      then raise (App (new_app_error DashboardValidationError
             (''Password must be at most 72 bytes when encoded as UTF-8. '' @
              ''Note that multi-byte characters (e.g. emoji, non-ASCII letters) count for more than one byte.'')
             (Some ''password_too_long'')))
      else ret ())"

text \<open>The common end of the routes that log a session in.\<close>

definition login_reply :: "auth_world \<Rightarrow> (nat \<Rightarrow> int) \<Rightarrow> dash_request \<Rightarrow> string \<Rightarrow> int \<Rightarrow> (route_exc, auth_reply) act" where
  "login_reply w clock req session_id max_age =
     bind (excepting no_clauses (get_session_state w (clock 0) (Some session_id))) (\<lambda>state.
     bind (decorate_session_response w (clock 1) req state False (Some session_id)) (\<lambda>response.
       ret (LoginReply response session_id max_age (dr_https req))))"

definition get_dashboard_auth_session :: "auth_world \<Rightarrow> dash_request \<Rightarrow> (route_exc, auth_reply) act" where
  "get_dashboard_auth_session w req =
     bind (excepting no_clauses (get_session_state w (aw_clock w 0) (dr_cookie req))) (\<lambda>response.
     bind (decorate_session_response w (aw_clock w 1) req response True None) (\<lambda>decorated.
       if sr_auth_mode decorated \<noteq> STANDARD then ret (SessionReply decorated)
       else if sr_password_required decorated \<or> is_local_request (ap_firewall (aw_settings w)) (dr_connection req)
       then ret (SessionReply decorated)
       else bind (has_active_bootstrap_token w) (\<lambda>configured.
         ret (SessionReply (decorated\<lparr>sr_authenticated := False, sr_bootstrap_required := True,
           sr_bootstrap_token_configured := configured\<rparr>)))))"

definition check_bootstrap :: "auth_world \<Rightarrow> string option \<Rightarrow> (route_exc, unit) act" where
  "check_bootstrap w token =
     bind (get_bootstrap_validation_status w (strip (case token of None \<Rightarrow> [] | Some t \<Rightarrow> t))) (\<lambda>status.
       case status of
         Unavailable \<Rightarrow>
           raise (auth_error ''Remote bootstrap is disabled until FIRECRAWL_LB_DASHBOARD_BOOTSTRAP_TOKEN is configured.''
             (Some ''bootstrap_unavailable''))
       | PasswordAlreadyConfigured \<Rightarrow>
           raise (App (new_app_error DashboardConflictError ''Password is already configured''
             (Some ''password_already_configured'')))
       | Invalid \<Rightarrow> raise (auth_error ''Invalid dashboard bootstrap token.'' (Some ''invalid_bootstrap_token''))
       | Valid \<Rightarrow> ret ())"

definition setup_password :: "auth_world \<Rightarrow> dash_request \<Rightarrow> string \<Rightarrow> string option \<Rightarrow> (route_exc, auth_reply) act" where
  "setup_password w req password bootstrap_token =
     bind get_settings (\<lambda>current.
       if ap_auth_mode (aw_settings w) = DISABLED
       then raise (bad_request ''Password management is disabled while dashboard auth is bypassed''
              ''password_management_disabled'')
       else if ap_auth_mode (aw_settings w) = TRUSTED_HEADER \<and>
               get_dashboard_request_auth (aw_settings w) req = None \<and> ds_password_hash current = None
       then raise (auth_error ''Reverse proxy authentication is required'' (Some ''proxy_auth_required''))
       else bind (if ds_password_hash current = None \<and> ap_auth_mode (aw_settings w) \<noteq> TRUSTED_HEADER \<and>
                     \<not> is_local_request (ap_firewall (aw_settings w)) (dr_connection req)
                  then check_bootstrap w bootstrap_token else ret ()) (\<lambda>_.
            bind (validate_password_length (strip password)) (\<lambda>_.
            bind (excepting (\<lambda>e. case e of
                      PasswordAlreadyConfiguredError \<Rightarrow>
                        Some (App (new_app_error DashboardConflictError (auth_message e) (Some ''password_already_configured'')))
                    | _ \<Rightarrow> None) (svc_setup_password w (strip password))) (\<lambda>_.
            bind invalidate_settings (\<lambda>_.
            bind (create_dashboard_session w (aw_mono w 0) (aw_mono w 1) (aw_clock w 0) True False) (\<lambda>(session_id, ttl).
              login_reply w (\<lambda>i. aw_clock w (1 + i)) req session_id ttl))))))"

definition login_password :: "auth_world \<Rightarrow> dash_request \<Rightarrow> string \<Rightarrow> (route_exc, auth_reply) act" where
  "login_password w req password =
     (if ap_auth_mode (aw_settings w) = DISABLED
      then raise (bad_request ''Password login is disabled while dashboard auth is bypassed'' ''password_management_disabled'')
      else bind (cached_settings (aw_mono w 0) (aw_mono w 1)) (\<lambda>settings.
        if ds_password_hash settings = None
        then raise (bad_request ''Password is not configured'' ''password_not_configured'')
        else let rate_key = session_client_key req ''password_login''
             in bind (limit_attempts w password_rate_limiter rate_key ''password_rate_limited'') (\<lambda>_.
                bind (handle (verify_password w password (cn_client_host (dr_connection req))) (\<lambda>e.
                        if e = PasswordNotConfiguredError
                        then bind (clear_attempts password_rate_limiter rate_key) (\<lambda>_. raise (to_route password_clauses e))
                        else raise (to_route password_clauses e))) (\<lambda>_.
                bind (clear_attempts password_rate_limiter rate_key) (\<lambda>_.
                bind (create_dashboard_session w (aw_mono w 2) (aw_mono w 3) (aw_clock w 0) True False) (\<lambda>(session_id, ttl).
                  login_reply w (\<lambda>i. aw_clock w (1 + i)) req session_id ttl))))))"

definition change_password :: "auth_world \<Rightarrow> dash_request \<Rightarrow> string \<Rightarrow> string \<Rightarrow> (route_exc, auth_reply) act" where
  "change_password w req current_password new_password =
     bind (validate_password_management_session w req) (\<lambda>_.
     bind (validate_password_length (strip new_password)) (\<lambda>_.
     bind (excepting password_clauses (svc_change_password w current_password (strip new_password))) (\<lambda>_.
     bind invalidate_settings (\<lambda>_. ret StatusOk))))"

definition remove_password :: "auth_world \<Rightarrow> dash_request \<Rightarrow> string \<Rightarrow> (route_exc, auth_reply) act" where
  "remove_password w req password =
     bind (validate_password_management_session w req) (\<lambda>_.
     bind (excepting password_clauses (svc_remove_password w password)) (\<lambda>_.
     bind invalidate_settings (\<lambda>_.
     bind (ensure_auto_bootstrap_token w) (\<lambda>_. ret StatusOkDeleteCookie))))"

definition start_totp_setup :: "auth_world \<Rightarrow> dash_request \<Rightarrow> (route_exc, auth_reply) act" where
  "start_totp_setup w req =
     bind (ensure_password_management_enabled w req) (\<lambda>_.
     bind (has_active_password_session w (aw_clock w 0) req) (\<lambda>active.
       if \<not> active then raise (auth_error ''Authentication is required'' None)
       else bind (excepting totp_setup_clauses (svc_start_totp_setup w (aw_clock w 1) (dr_cookie req)))
              (\<lambda>(secret, uri, qr). ret (TotpSetupReply secret uri qr))))"

definition confirm_totp_setup :: "auth_world \<Rightarrow> dash_request \<Rightarrow> string \<Rightarrow> string \<Rightarrow> (route_exc, auth_reply) act" where
  "confirm_totp_setup w req secret code =
     bind (ensure_password_management_enabled w req) (\<lambda>_.
     bind (has_active_password_session w (aw_clock w 0) req) (\<lambda>active.
       if \<not> active then raise (auth_error ''Authentication is required'' None)
       else let rate_key = session_client_key req ''totp_setup_confirm''
            in bind (limit_attempts w totp_rate_limiter rate_key ''totp_rate_limited'') (\<lambda>_.
               bind (excepting totp_setup_clauses (svc_confirm_totp_setup w (aw_clock w 1) (aw_clock w 2) (dr_cookie req)
                       secret code (cn_client_host (dr_connection req)))) (\<lambda>_.
               bind (clear_attempts totp_rate_limiter rate_key) (\<lambda>_.
               bind invalidate_settings (\<lambda>_. ret StatusOk))))))"

definition verify_totp :: "auth_world \<Rightarrow> dash_request \<Rightarrow> string \<Rightarrow> (route_exc, auth_reply) act" where
  "verify_totp w req code =
     bind (ensure_password_management_enabled w req) (\<lambda>_.
     let rate_key = session_client_key req ''totp_verify''
     in bind (excepting totp_clauses (require_active_password_session w (aw_clock w 0) (dr_cookie req))) (\<lambda>_.
        bind (limit_attempts w totp_rate_limiter rate_key ''totp_rate_limited'') (\<lambda>_.
        bind (cached_settings (aw_mono w 0) (aw_mono w 1)) (\<lambda>_.
        bind (excepting totp_clauses (svc_verify_totp w (\<lambda>i. aw_clock w (1 + i)) (dr_cookie req) code
                (cn_client_host (dr_connection req)))) (\<lambda>(session_id, applied_ttl).
        bind (clear_attempts totp_rate_limiter rate_key) (\<lambda>_.
          login_reply w (\<lambda>i. aw_clock w (5 + i)) req session_id applied_ttl))))))"

definition disable_totp :: "auth_world \<Rightarrow> dash_request \<Rightarrow> string \<Rightarrow> (route_exc, auth_reply) act" where
  "disable_totp w req code =
     bind (ensure_password_management_enabled w req) (\<lambda>_.
     let rate_key = session_client_key req ''totp_disable''
     in bind (excepting totp_clauses (require_totp_verified_session w (aw_clock w 0) (aw_clock w 1) (dr_cookie req))) (\<lambda>_.
        bind (limit_attempts w totp_rate_limiter rate_key ''totp_rate_limited'') (\<lambda>_.
        bind (excepting totp_clauses (svc_disable_totp w (\<lambda>i. aw_clock w (2 + i)) (dr_cookie req) code
                (cn_client_host (dr_connection req)))) (\<lambda>_.
        bind (clear_attempts totp_rate_limiter rate_key) (\<lambda>_.
        bind invalidate_settings (\<lambda>_. ret StatusOk))))))"

definition logout_dashboard :: "(route_exc, auth_reply) act" where
  "logout_dashboard = ret StatusOkDeleteCookie"

datatype auth_route = GetSession | SetupPassword string "string option" | LoginPassword string
  | ChangePassword string string | RemovePassword string | StartTotpSetup | ConfirmTotpSetup string string
  | VerifyTotp string | DisableTotp string | Logout

fun handle_auth :: "auth_world \<Rightarrow> dash_request \<Rightarrow> auth_route \<Rightarrow> (route_exc, auth_reply) act" where
  "handle_auth w req GetSession = get_dashboard_auth_session w req"
| "handle_auth w req (SetupPassword password token) = setup_password w req password token"
| "handle_auth w req (LoginPassword password) = login_password w req password"
| "handle_auth w req (ChangePassword current_password new_password) = change_password w req current_password new_password"
| "handle_auth w req (RemovePassword password) = remove_password w req password"
| "handle_auth w req StartTotpSetup = start_totp_setup w req"
| "handle_auth w req (ConfirmTotpSetup secret code) = confirm_totp_setup w req secret code"
| "handle_auth w req (VerifyTotp code) = verify_totp w req code"
| "handle_auth w req (DisableTotp code) = disable_totp w req code"
| "handle_auth w req Logout = logout_dashboard"

end
