(* ===== verification/DashboardSecurity.thy ===== *)
theory DashboardSecurity
  imports DashboardAuth
begin

text \<open>
  What the dashboard login guarantees: who is admitted, how a session comes to exist, that a
  one-time code is accepted once, and that the password is set up once. Runs are sequences of
  requests, each with its own world (clock, random sources).
\<close>

section \<open>What the operations leave unchanged\<close>

interpretation same_row: kept "\<lambda>s s'. row_of s' = row_of s"
  by unfold_locales simp_all

lemma same_row_ops:
  "keeps (\<lambda>s s'. row_of s' = row_of s) get_settings"
  "keeps (\<lambda>s s'. row_of s' = row_of s) get_or_create"
  "keeps (\<lambda>s s'. row_of s' = row_of s) get_password_hash"
  "keeps (\<lambda>s s'. row_of s' = row_of s) (cached_settings t t')"
  "keeps (\<lambda>s s'. row_of s' = row_of s) invalidate_settings"
  "keeps (\<lambda>s s'. row_of s' = row_of s) (log_async action ip details)"
  "keeps (\<lambda>s s'. row_of s' = row_of s) (limit_attempts w rl key code)"
  "keeps (\<lambda>s s'. row_of s' = row_of s) (clear_attempts rl key)"
  by (auto simp: keeps_def get_settings_def get_or_create_apply get_password_hash_def cached_settings_def
      invalidate_settings_def log_async_def limit_attempts_def clear_attempts_def bind_def row_of_def
      split: option.splits prod.splits sum.splits)

lemmas same_row_rules = same_row_ops same_row.keeps_rules

lemma get_settings_Inr: "get_settings s = (s', Inr row) \<longleftrightarrow> row = row_of s \<and> s' = s\<lparr>as_settings := Some (row_of s)\<rparr>"
  by (auto simp: get_settings_def get_or_create_apply)

lemma row_of_set [simp]: "row_of (s\<lparr>as_settings := Some row\<rparr>) = row"
  by (simp add: row_of_def)

lemma row_of_other [simp]:
  "row_of (s\<lparr>as_cache := c\<rparr>) = row_of s" "row_of (s\<lparr>as_attempts := a\<rparr>) = row_of s" "row_of (s\<lparr>as_audit := l\<rparr>) = row_of s"
  by (simp_all add: row_of_def)

text \<open>The cache holds nothing or the current row.\<close>

definition cache_coherent :: "auth_state \<Rightarrow> bool" where
  "cache_coherent s = (\<forall>row. sc_cached_settings (as_cache s) = Some row \<longrightarrow> row = row_of s)"

lemma cached_settings_coherent:
  assumes "cache_coherent s"
  shows "\<exists>s'. cached_settings t t' s = (s', Inr (row_of s)) \<and> row_of s' = row_of s"
  using assms
  by (auto simp: cache_coherent_def cached_settings_def fresh_settings_def get_or_create_apply bind_def
      split: option.splits)

section \<open>Admission\<close>


text \<open>
  A world in which one session token and one TOTP secret were encrypted, a state with a password
  and the secret, and a request.
\<close>

definition sample_auth_world :: auth_world where
  "sample_auth_world =
     \<lparr>aw_settings = \<lparr>ap_auth_mode = STANDARD, ap_proxy_header = ''remote-user'', ap_bootstrap_token = None,
        ap_firewall = \<lparr>fs_trust_proxy_headers = False, fs_trusted_networks = []\<rparr>\<rparr>,
      aw_encrypt = id,
      aw_decrypt = (\<lambda>c. if c = session_payload 100 True True \<or> c = ''JBSWY3DP'' then Inr c else Inl InvalidToken),
      aw_hashpw = Inr, aw_checkpw = (\<lambda>p h. Inr (p = h)), aw_sha256 = id,
      aw_totp_at = (\<lambda>key t. ''123456''), aw_random_base32 = (\<lambda>n. ''JBSWY3DP''),
      aw_provisioning_uri = (\<lambda>key name issuer. key), aw_qr_svg_data_uri = id, aw_token_urlsafe = ''token'',
      aw_clock = (\<lambda>i. 50), aw_mono = (\<lambda>i. 1), aw_utc = 0\<rparr>"

definition sample_auth_state :: auth_state where
  "sample_auth_state =
     \<lparr>as_settings = Some (default_settings\<lparr>ds_session_ttl_seconds := 100, ds_password_hash := Some ''secret-pw'', ds_totp_required_on_login := True,
        ds_totp_secret_encrypted := Some ''JBSWY3DP''\<rparr>),
      as_cache = \<lparr>sc_ttl_seconds = 5, sc_cached_settings = None, sc_cached_at = 0\<rparr>,
      as_attempts = [], as_audit = []\<rparr>"

definition sample_auth_request :: dash_request where
  "sample_auth_request =
     \<lparr>dr_connection = \<lparr>cn_server_host = None, cn_client_host = Some ''10.0.0.1'', cn_headers = []\<rparr>,
      dr_cookie = Some (session_payload 100 True True), dr_https = True\<rparr>"

lemma small_digits: "\<bar>n\<bar> < 1000 \<Longrightarrow> \<bar>n :: int\<bar> < 10 ^ int_max_str_digits"
proof -
  have "(10 :: int) ^ 3 \<le> 10 ^ int_max_str_digits" by (rule power_increasing) (simp_all add: int_max_str_digits_def)
  then show "\<bar>n\<bar> < 1000 \<Longrightarrow> \<bar>n\<bar> < 10 ^ int_max_str_digits" by simp
qed

lemma sample_session_get:
  "session_get sample_auth_world 50 (Some (session_payload 100 True True)) =
     Inr (Some \<lparr>ss_expires_at = 100, ss_password_verified = True, ss_totp_verified = True\<rparr>)"
proof -
  have "strip (session_payload 100 True True) = session_payload 100 True True"
    "session_payload 100 True True \<noteq> []" "is_ascii (session_payload 100 True True)" by code_simp+
  then show ?thesis
    by (simp add: session_get_def sample_auth_world_def session_payload_loads [OF small_digits] session_of_payload)
qed

lemma sample_admitted: "\<exists>s'. require_firecrawl_admin sample_auth_world sample_auth_request sample_auth_state = (s', Inr ())"
proof -
  have coherent: "cache_coherent sample_auth_state" by (simp add: cache_coherent_def sample_auth_state_def)
  obtain s1 where s1: "cached_settings (aw_mono sample_auth_world 0) (aw_mono sample_auth_world 1) sample_auth_state =
      (s1, Inr (row_of sample_auth_state) :: route_exc + _)"
    using cached_settings_coherent [OF coherent] by blast
  have "get_dashboard_request_auth (aw_settings sample_auth_world) sample_auth_request = None"
    "aw_clock sample_auth_world 0 = 50" "dr_cookie sample_auth_request = Some (session_payload 100 True True)"
    "truthy_str (ds_password_hash (row_of sample_auth_state))"
    "truthy_str (Some (session_payload 100 True True))"
    by (simp_all add: get_dashboard_request_auth_def sample_auth_world_def sample_auth_request_def truthy_str_def
        sample_auth_state_def row_of_def session_payload_def dumps_str_def)
  then show ?thesis
    by (auto simp: require_firecrawl_admin_def validate_dashboard_session_def bind_def s1 [simplified] sample_session_get)
qed


section \<open>How a session comes to exist\<close>

lemma check_password_True: "check_password w p h = Inr True \<longleftrightarrow> aw_checkpw w p h = Inr True"
  by (auto simp: check_password_def split: sum.splits pyexc.splits)

lemma login_reply_Inr:
  "login_reply w clock req sid age s = (s', Inr r) \<Longrightarrow> \<exists>resp. r = LoginReply resp sid age (dr_https req)"
  by (auto simp: login_reply_def bind_Inr)

lemma same_row_login_reply: "keeps (\<lambda>s s'. row_of s' = row_of s) (login_reply w clock req token ttl)"
  unfolding login_reply_def excepting_def get_session_state_def decorate_session_response_def Let_def
  by (intro same_row_rules)

lemma same_row_D: "keeps (\<lambda>s s'. row_of s' = row_of s) m \<Longrightarrow> m s = (s', r) \<Longrightarrow> row_of s' = row_of s"
  by (auto simp: keeps_def dest: spec [of _ s])

lemmas row_dests = same_row_ops [THEN same_row_D]

lemma excepting_Inr: "excepting clauses m s = (s', Inr x) \<longleftrightarrow> m s = (s', Inr x)"
  by (auto simp: excepting_def handle_Inr)

lemma verify_password_Inr:
  assumes "verify_password w p ip s = (s', Inr ())"
  shows "\<exists>h. ds_password_hash (row_of s) = Some h \<and> aw_checkpw w p h = Inr True \<and> row_of s' = row_of s"
proof -
  have "keeps (\<lambda>s s'. row_of s' = row_of s) (verify_password w p ip)"
    unfolding verify_password_def by (intro same_row_rules)
  with assms have "row_of s' = row_of s" by (rule same_row_D [rotated])
  with assms show ?thesis
    by (auto simp: verify_password_def get_password_hash_def get_or_create_apply bind_Inr lift_res_Inr check_password_True
        split: option.splits if_splits)
qed

lemma create_session_Inr:
  "create_dashboard_session w t t' now pw tv s = (s', Inr (sid, ttl)) \<Longrightarrow>
    sid = aw_encrypt w (session_payload (now + ttl) pw tv) \<and> row_of s' = row_of s"
  by (auto simp: create_dashboard_session_def bind_Inr session_create_def dest: row_dests(4))

lemma require_active_Inr:
  assumes "require_active_password_session w now sid s = (s', Inr (row, st))"
  shows "row = row_of s \<and> ds_password_hash (row_of s) \<noteq> None \<and> session_get w now sid = Inr (Some st) \<and>
    ss_password_verified st \<and> row_of s' = row_of s"
  using assms
  by (auto simp: require_active_password_session_def bind_Inr lift_res_Inr get_settings_Inr split: if_splits option.splits)

lemma check_stored_totp_Inr:
  assumes "check_stored_totp w now (row_of s) code s = (s', Inr True)"
  shows "\<exists>enc secret key step. ds_totp_secret_encrypted (row_of s) = Some enc \<and> aw_decrypt w enc = Inr secret \<and>
    normalize_secret secret = Inr key \<and> aw_totp_at w key (step * TOTP_PERIOD_SECONDS) = normalize_code code \<and>
    (\<forall>m. ds_totp_last_verified_step (row_of s) = Some m \<longrightarrow> m < step) \<and>
    row_of s' = (row_of s)\<lparr>ds_totp_last_verified_step := Some step\<rparr>"
proof -
  obtain enc secret v step where v: "ds_totp_secret_encrypted (row_of s) = Some enc" "aw_decrypt w enc = Inr secret"
    "verify_totp_code (aw_totp_at w) secret code 1 now (ds_totp_last_verified_step (row_of s)) = Inr v"
    "tv_is_valid v" "tv_matched_step v = Some step" "try_advance_totp_last_verified_step step s = (s', Inr True :: auth_exc + _)"
    using assms by (auto simp: check_stored_totp_def bind_Inr lift_res_Inr split: option.splits if_splits)
  have "row_of s' = (row_of s)\<lparr>ds_totp_last_verified_step := Some step\<rparr>"
    using v(6) by (auto simp: try_advance_totp_last_verified_step_def update_where_def get_or_create_apply bind_Inr split: if_splits)
  with v verify_totp_code_sound [OF v(3,4)] show ?thesis by auto
qed

text \<open>
  The grounds on which a request may be given a session: the right password; the first set-up of a
  password, locally, behind the trusted proxy or with the bootstrap token; or a fresh one-time
  code in a session of a verified password.
\<close>

definition bootstrap_token_valid :: "auth_world \<Rightarrow> dashboard_settings \<Rightarrow> string option \<Rightarrow> bool" where
  "bootstrap_token_valid w row token =
     (let submitted = strip (case token of None \<Rightarrow> [] | Some t \<Rightarrow> t)
      in case get_manual_bootstrap_token (aw_settings w) of
           Some manual \<Rightarrow> submitted = manual
         | None \<Rightarrow> ds_bootstrap_token_hash row = Some (aw_sha256 w submitted))"

definition grounds :: "auth_world \<Rightarrow> dash_request \<Rightarrow> dashboard_settings \<Rightarrow> auth_route \<Rightarrow> int \<Rightarrow> bool \<Rightarrow> bool" where
  "grounds w req row route expiry tv =
     (case route of
        LoginPassword password \<Rightarrow>
          \<not> tv \<and> (\<exists>h. ds_password_hash row = Some h \<and> aw_checkpw w password h = Inr True)
      | SetupPassword password token \<Rightarrow>
          \<not> tv \<and> ds_password_hash row = None \<and>
          (if ap_auth_mode (aw_settings w) = TRUSTED_HEADER then get_dashboard_request_auth (aw_settings w) req \<noteq> None
           else is_local_request (ap_firewall (aw_settings w)) (dr_connection req) \<or> bootstrap_token_valid w row token)
      | VerifyTotp code \<Rightarrow>
          tv \<and> ds_password_hash row \<noteq> None \<and>
          (\<exists>st enc secret key step. session_get w (aw_clock w 1) (dr_cookie req) = Inr (Some st) \<and> ss_password_verified st \<and>
             expiry = aw_clock w 4 + max 1 (ss_expires_at st - aw_clock w 3) \<and>
             ds_totp_secret_encrypted row = Some enc \<and> aw_decrypt w enc = Inr secret \<and> normalize_secret secret = Inr key \<and>
             aw_totp_at w key (step * TOTP_PERIOD_SECONDS) = normalize_code code \<and>
             (\<forall>m. ds_totp_last_verified_step row = Some m \<longrightarrow> m < step))
      | _ \<Rightarrow> False)"

lemma check_bootstrap_Inr:
  assumes "check_bootstrap w token s = (s', Inr ())"
  shows "bootstrap_token_valid w (row_of s) token \<and> row_of s' = row_of s"
  using assms
  by (auto simp: check_bootstrap_def get_bootstrap_validation_status_def bind_Inr get_settings_Inr bootstrap_token_valid_def Let_def
      split: option.splits bootstrap_status.splits if_splits)

lemma svc_setup_password_Inr:
  assumes "svc_setup_password w password s = (s', Inr ())"
  shows "ds_password_hash (row_of s) = None \<and> (\<exists>h. aw_hashpw w password = Inr h \<and>
    row_of s' = (row_of s)\<lparr>ds_password_hash := Some h, ds_bootstrap_token_encrypted := None, ds_bootstrap_token_hash := None\<rparr>)"
  using assms
  by (auto simp: svc_setup_password_def bind_Inr lift_res_Inr try_set_password_hash_def update_where_def get_or_create_apply
      split: if_splits)

lemma login_password_Inr:
  assumes "login_password w req password s = (s', Inr r)"
  shows "\<exists>resp ttl. r = LoginReply resp (aw_encrypt w (session_payload (aw_clock w 0 + ttl) True False)) ttl (dr_https req) \<and>
    grounds w req (row_of s) (LoginPassword password) (aw_clock w 0 + ttl) False"
proof -
  obtain row s1 s2 s3 s4 s5 sid ttl where run:
    "cached_settings (aw_mono w 0) (aw_mono w 1) s = (s1, Inr row :: route_exc + _)"
    "limit_attempts w password_rate_limiter (session_client_key req ''password_login'') ''password_rate_limited'' s1 = (s2, Inr ())"
    "verify_password w password (cn_client_host (dr_connection req)) s2 = (s3, Inr ())"
    "clear_attempts password_rate_limiter (session_client_key req ''password_login'') s3 = (s4, Inr () :: route_exc + _)"
    "create_dashboard_session w (aw_mono w 2) (aw_mono w 3) (aw_clock w 0) True False s4 = (s5, Inr (sid, ttl))"
    "login_reply w (\<lambda>i. aw_clock w (1 + i)) req sid ttl s5 = (s', Inr r)"
    using assms by (auto simp: login_password_def Let_def bind_Inr handle_Inr split: if_splits)
  have "row_of s2 = row_of s" using row_dests(4) [OF run(1)] row_dests(7) [OF run(2)] by simp
  with verify_password_Inr [OF run(3)] create_session_Inr [OF run(5)] login_reply_Inr [OF run(6)]
  show ?thesis by (auto simp: grounds_def)
qed

lemma setup_password_Inr:
  assumes "setup_password w req password token s = (s', Inr r)"
  shows "\<exists>resp ttl. r = LoginReply resp (aw_encrypt w (session_payload (aw_clock w 0 + ttl) True False)) ttl (dr_https req) \<and>
    grounds w req (row_of s) (SetupPassword password token) (aw_clock w 0 + ttl) False \<and>
    (\<exists>h. aw_hashpw w (strip password) = Inr h \<and> row_of s' =
      (row_of s)\<lparr>ds_password_hash := Some h, ds_bootstrap_token_encrypted := None, ds_bootstrap_token_hash := None\<rparr>)"
proof -
  let ?s1 = "s\<lparr>as_settings := Some (row_of s)\<rparr>"
  let ?remote = "ds_password_hash (row_of s) = None \<and> ap_auth_mode (aw_settings w) \<noteq> TRUSTED_HEADER \<and>
    \<not> is_local_request (ap_firewall (aw_settings w)) (dr_connection req)"
  obtain s2 s3 s4 s5 s6 sid ttl where run:
    "\<not> (ap_auth_mode (aw_settings w) = TRUSTED_HEADER \<and>
        get_dashboard_request_auth (aw_settings w) req = None \<and> ds_password_hash (row_of s) = None)"
    "(if ?remote then check_bootstrap w token else ret ()) ?s1 = (s2, Inr ())"
    "validate_password_length (strip password) s2 = (s3, Inr ())"
    "svc_setup_password w (strip password) s3 = (s4, Inr ())"
    "invalidate_settings s4 = (s5, Inr () :: route_exc + _)"
    "create_dashboard_session w (aw_mono w 0) (aw_mono w 1) (aw_clock w 0) True False s5 = (s6, Inr (sid, ttl))"
    "login_reply w (\<lambda>i. aw_clock w (1 + i)) req sid ttl s6 = (s', Inr r)"
    using assms by (auto simp: setup_password_def bind_Inr get_settings_Inr excepting_Inr simp del: split_paired_Ex split: if_splits)
  have "s3 = s2" using run(3) by (auto simp: validate_password_length_def split: if_splits)
  moreover have "row_of s2 = row_of s \<and> (?remote \<longrightarrow> bootstrap_token_valid w (row_of s) token)"
    using run(2) check_bootstrap_Inr [of w token ?s1 s2] by (auto split: if_splits)
  moreover have "row_of s' = row_of s4"
    using same_row_login_reply [THEN same_row_D, OF run(7)] create_session_Inr [OF run(6)] row_dests(5) [OF run(5)] by simp
  ultimately show ?thesis
    using run(1) svc_setup_password_Inr [OF run(4)] create_session_Inr [OF run(6)] login_reply_Inr [OF run(7)]
    by (auto simp: grounds_def)
qed

lemma svc_verify_totp_Inr:
  assumes "svc_verify_totp w clock sid code ip s = (s', Inr (token, ttl))"
  shows "\<exists>st s1 s2. session_get w (clock 0) sid = Inr (Some st) \<and> ss_password_verified st \<and>
    ds_password_hash (row_of s) \<noteq> None \<and> row_of s1 = row_of s \<and>
    check_stored_totp w (clock 1) (row_of s1) code s1 = (s2, Inr True) \<and> row_of s' = row_of s2 \<and>
    ttl = max 1 (ss_expires_at st - clock 2) \<and> token = aw_encrypt w (session_payload (clock 3 + ttl) True True)"
proof -
  obtain s1 row st s2 where run: "require_active_password_session w (clock 0) sid s = (s1, Inr (row, st))"
    "check_stored_totp w (clock 1) row code s1 = (s2, Inr True)"
    and rest: "bind (log_async ''login_success'' ip [(''method'', JStr ''totp'')]) (\<lambda>_.
      let inherited_ttl = max 1 (ss_expires_at st - clock 2)
      in ret (session_create w (clock 3) True True inherited_ttl, inherited_ttl)) s2 = (s', Inr (token, ttl) :: auth_exc + _)"
    using assms by (auto simp: svc_verify_totp_def bind_Inr split: if_splits)
  from rest have "row_of s' = row_of s2" "ttl = max 1 (ss_expires_at st - clock 2)"
    "token = aw_encrypt w (session_payload (clock 3 + ttl) True True)"
    by (auto simp: bind_Inr Let_def session_create_def dest: row_dests(6))
  with require_active_Inr [OF run(1)] run(2) show ?thesis by auto
qed

lemma verify_totp_Inr:
  assumes "verify_totp w req code s = (s', Inr r)"
  shows "\<exists>resp token ttl s1 s2. r = LoginReply resp token ttl (dr_https req) \<and> row_of s1 = row_of s \<and> row_of s' = row_of s2 \<and>
    svc_verify_totp w (\<lambda>i. aw_clock w (1 + i)) (dr_cookie req) code (cn_client_host (dr_connection req)) s1 = (s2, Inr (token, ttl))"
proof -
  obtain s1 s2 s3 s4 s5 s6 x y token ttl where run:
    "ensure_password_management_enabled w req s = (s1, Inr ())"
    "require_active_password_session w (aw_clock w 0) (dr_cookie req) s1 = (s2, Inr x)"
    "limit_attempts w totp_rate_limiter (session_client_key req ''totp_verify'') ''totp_rate_limited'' s2 = (s3, Inr ())"
    "cached_settings (aw_mono w 0) (aw_mono w 1) s3 = (s4, Inr y :: route_exc + _)"
    "svc_verify_totp w (\<lambda>i. aw_clock w (1 + i)) (dr_cookie req) code (cn_client_host (dr_connection req)) s4 = (s5, Inr (token, ttl))"
    "clear_attempts totp_rate_limiter (session_client_key req ''totp_verify'') s5 = (s6, Inr () :: route_exc + _)"
    "login_reply w (\<lambda>i. aw_clock w (5 + i)) req token ttl s6 = (s', Inr r)"
    using assms by (auto simp: verify_totp_def Let_def bind_Inr excepting_Inr simp del: split_paired_Ex)
  have "s1 = s" using run(1) by (auto simp: ensure_password_management_enabled_def split: option.splits if_splits)
  moreover have "row_of s2 = row_of s1" using run(2) require_active_Inr [of w _ _ s1 s2 "fst x" "snd x"] by simp
  moreover have "row_of s' = row_of s5"
    using same_row_D [OF same_row_login_reply run(7)] row_dests(8) [OF run(6)] by simp
  ultimately show ?thesis
    using row_dests(7) [OF run(3)] row_dests(4) [OF run(4)] run(5) login_reply_Inr [OF run(7)]
    by (elim exE) (rule exI, rule exI [of _ token], rule exI [of _ ttl], rule exI [of _ s4], rule exI [of _ s5], simp)
qed

text \<open>
  C23: a session is issued on sufficient grounds only. Whatever route a request takes, a reply that
  sets the session cookie sets a token whose payload says that a password was verified, and the
  request gave the right password, or set the first password while entitled to, or gave, in a
  live session of a verified password, a one-time code of a step later than every accepted one.
  Only the last marks the session as verified by code, and it keeps the expiry of the session.
\<close>

theorem sessions_issued_on_grounds:
  assumes "handle_auth w req route s = (s', Inr (LoginReply resp token max_age secure))"
  shows "\<exists>expiry tv. token = aw_encrypt w (session_payload expiry True tv) \<and> grounds w req (row_of s) route expiry tv"
proof (cases route)
  case (SetupPassword password t)
  with assms setup_password_Inr [of w req password t s s'] show ?thesis by fastforce
next
  case (LoginPassword password)
  with assms login_password_Inr [of w req password s s'] show ?thesis by fastforce
next
  case (VerifyTotp code)
  with assms obtain s1 s2 where v: "row_of s1 = row_of s"
    "svc_verify_totp w (\<lambda>i. aw_clock w (1 + i)) (dr_cookie req) code (cn_client_host (dr_connection req)) s1 =
      (s2, Inr (token, max_age))"
    using verify_totp_Inr [of w req code s s'] by fastforce
  then obtain st s3 s4 where c: "session_get w (aw_clock w 1) (dr_cookie req) = Inr (Some st)" "ss_password_verified st"
    "ds_password_hash (row_of s) \<noteq> None" "row_of s3 = row_of s"
    "check_stored_totp w (aw_clock w 2) (row_of s3) code s3 = (s4, Inr True)"
    "max_age = max 1 (ss_expires_at st - aw_clock w 3)"
    "token = aw_encrypt w (session_payload (aw_clock w 4 + max_age) True True)"
    using svc_verify_totp_Inr [OF v(2)] by (auto simp: eval_nat_numeral)
  with VerifyTotp check_stored_totp_Inr [OF c(5)] show ?thesis by (fastforce simp: grounds_def)
qed (use assms in \<open>auto simp: get_dashboard_auth_session_def change_password_def remove_password_def start_totp_setup_def
    confirm_totp_setup_def disable_totp_def logout_dashboard_def bind_Inr Let_def split: if_splits prod.splits\<close>)

lemma sample_login:
  "case handle_auth sample_auth_world sample_auth_request (LoginPassword ''secret-pw'') sample_auth_state of
     (s', Inr (LoginReply resp token max_age secure)) \<Rightarrow> token = session_payload 150 True False
   | _ \<Rightarrow> False"
  by code_simp

theorem sessions_issued_on_grounds_witness:
  "grounds sample_auth_world sample_auth_request (row_of sample_auth_state) (LoginPassword ''secret-pw'') 150 False"
proof -
  obtain s' resp max_age secure where
    "handle_auth sample_auth_world sample_auth_request (LoginPassword ''secret-pw'') sample_auth_state =
       (s', Inr (LoginReply resp (session_payload 150 True False) max_age secure))"
    using sample_login by (auto split: prod.splits sum.splits auth_reply.splits)
  from sessions_issued_on_grounds [OF this] show ?thesis by (auto simp: grounds_def)
qed

section \<open>Relations that runs of requests keep\<close>

lemma keeps_mono: "keeps R m \<Longrightarrow> (\<And>s s'. R s s' \<Longrightarrow> Q s s') \<Longrightarrow> keeps Q m"
  by (simp add: keeps_def)

text \<open>What neither touches the settings row nor the attempts.\<close>

definition login_same :: "auth_state \<Rightarrow> auth_state \<Rightarrow> bool" where
  "login_same s s' = (row_of s' = row_of s \<and> as_attempts s' = as_attempts s)"

lemma login_same_ops:
  "keeps login_same get_settings"
  "keeps login_same get_or_create"
  "keeps login_same get_password_hash"
  "keeps login_same (cached_settings t t')"
  "keeps login_same invalidate_settings"
  "keeps login_same (log_async action ip details)"
  by (auto simp: keeps_def login_same_def get_settings_def get_or_create_apply get_password_hash_def cached_settings_def
      invalidate_settings_def log_async_def bind_def row_of_def
      split: option.splits prod.splits sum.splits)

text \<open>
  A relation on the settings rows and the attempts that the limiter of one-time codes keeps: it holds of
  a route when it holds of the writes of the row that the route makes.
\<close>

locale kept_login = kept R for R +
  assumes login_same: "login_same s s' \<Longrightarrow> R s s'"
    and limited: "R s (s\<lparr>as_attempts := fst (check_and_increment totp_rate_limiter key now (as_attempts s))\<rparr>)"
    and cleared: "R s (s\<lparr>as_attempts := clear_for_key totp_rate_limiter key (as_attempts s)\<rparr>)"
begin

lemma keeps_same: "keeps login_same m \<Longrightarrow> keeps R m"
  by (erule keeps_mono) (rule login_same)

lemma keeps_totp_limiter:
  "keeps R (limit_attempts w totp_rate_limiter key code)" "keeps R (clear_attempts totp_rate_limiter key)"
  using limited [of _ key "aw_utc w"] cleared [of _ key]
  by (auto simp: keeps_def limit_attempts_def clear_attempts_def split: prod.splits sum.splits)
     (metis fst_conv)+

lemmas row_rules = login_same_ops [THEN keeps_same] keeps_totp_limiter keeps_rules

lemma keeps_parts:
  "keeps R (ensure_password_management_enabled w req)"
  "keeps R (has_active_password_session w now req)"
  "keeps R (validate_password_management_session w req)"
  "keeps R (validate_password_length p)"
  "keeps R (login_reply w clock req sid age)"
  "keeps R (verify_password w p ip)"
  "keeps R (require_active_password_session w now cookie)"
  "keeps R (require_totp_verified_session w now now' cookie)"
  "keeps R (create_dashboard_session w t t' now pw tv)"
  "keeps R (svc_start_totp_setup w now cookie)"
  unfolding ensure_password_management_enabled_def has_active_password_session_def validate_password_management_session_def
    validate_password_length_def login_reply_def verify_password_def require_active_password_session_def
    require_totp_verified_session_def create_dashboard_session_def svc_start_totp_setup_def
    excepting_def get_session_state_def decorate_session_response_def Let_def
  by (intro row_rules)+

lemmas route_rules = keeps_parts row_rules

lemma keeps_check_bootstrap: "keeps R (check_bootstrap w token)"
proof -
  have "keeps R (case st of Unavailable \<Rightarrow> raise a | PasswordAlreadyConfigured \<Rightarrow> raise b | Invalid \<Rightarrow> raise c | Valid \<Rightarrow> ret ())"
    for st and a b c :: route_exc by (cases st) (simp_all add: keeps_pure)
  then show ?thesis
    unfolding check_bootstrap_def get_bootstrap_validation_status_def by (intro route_rules)
qed

lemma keeps_reading_routes:
  "keeps R (get_dashboard_auth_session w req)" "keeps R (start_totp_setup w req)" "keeps R logout_dashboard"
  unfolding get_dashboard_auth_session_def start_totp_setup_def logout_dashboard_def Let_def
    excepting_def get_session_state_def decorate_session_response_def has_active_bootstrap_token_def
  by (intro route_rules)+

lemma keeps_login_password:
  assumes "keeps R (limit_attempts w password_rate_limiter (session_client_key req ''password_login'') ''password_rate_limited'')"
    "keeps R (clear_attempts password_rate_limiter (session_client_key req ''password_login'') :: (route_exc, unit) act)"
  shows "keeps R (login_password w req p)"
  unfolding login_password_def Let_def by (intro assms route_rules)

lemma keeps_setup_password:
  assumes "\<And>h. keeps R (try_set_password_hash h :: (auth_exc, bool) act)"
  shows "keeps R (setup_password w req p token)"
  unfolding setup_password_def svc_setup_password_def excepting_def Let_def
  by (intro assms keeps_check_bootstrap route_rules)

lemma keeps_change_password:
  assumes "\<And>h. keeps R (set_password_hash h :: (auth_exc, dashboard_settings) act)"
  shows "keeps R (change_password w req p p')"
  unfolding change_password_def svc_change_password_def excepting_def by (intro assms route_rules)

lemma keeps_check_stored_totp:
  assumes "\<And>step. keeps R (try_advance_totp_last_verified_step step :: (auth_exc, bool) act)"
  shows "keeps R (check_stored_totp w now row code)"
  unfolding check_stored_totp_def by (intro assms route_rules)

lemma keeps_verify_totp:
  assumes "\<And>step. keeps R (try_advance_totp_last_verified_step step :: (auth_exc, bool) act)"
  shows "keeps R (verify_totp w req code)"
  unfolding verify_totp_def svc_verify_totp_def excepting_def Let_def
  by (intro keeps_check_stored_totp [OF assms] route_rules)

lemma keeps_disable_totp:
  assumes "\<And>step. keeps R (try_advance_totp_last_verified_step step :: (auth_exc, bool) act)"
    "keeps R (set_totp_secret None :: (auth_exc, dashboard_settings) act)"
  shows "keeps R (disable_totp w req code)"
  unfolding disable_totp_def svc_disable_totp_def excepting_def Let_def
  by (intro assms(2) keeps_check_stored_totp [OF assms(1)] route_rules)

lemma keeps_confirm_totp_setup:
  assumes "\<And>e. keeps R (set_totp_secret (Some e) :: (auth_exc, dashboard_settings) act)"
  shows "keeps R (confirm_totp_setup w req secret code)"
proof -
  have outcome: "keeps R (case r of Inl ValueError \<Rightarrow> raise TotpInvalidSetupError | Inl e \<Rightarrow> raise (Raised e) | Inr v \<Rightarrow> f v)"
    if "\<And>v. keeps R (f v)" for r and f :: "totp_verification \<Rightarrow> (auth_exc, unit) act"
    using that by (auto split: sum.split pyexc.split simp: keeps_pure)
  show ?thesis
    unfolding confirm_totp_setup_def svc_confirm_totp_setup_def excepting_def Let_def
    by (intro outcome assms route_rules)
qed

end

text \<open>A relation on the settings rows only.\<close>

locale kept_row = kept R for R +
  assumes same: "row_of s' = row_of s \<Longrightarrow> R s s'"

sublocale kept_row < kept_login R
  by unfold_locales (simp_all add: same login_same_def)

context kept_row begin

lemma keeps_any_login: "keeps R (login_password w req p)"
  by (intro keeps_login_password same_row_ops [THEN keeps_mono] same)

end

text \<open>The secret stays and the last accepted step never decreases; a password that is set stays set.\<close>

definition steps_advance :: "auth_state \<Rightarrow> auth_state \<Rightarrow> bool" where
  "steps_advance s s' =
     (ds_totp_secret_encrypted (row_of s') = ds_totp_secret_encrypted (row_of s) \<and>
      (\<forall>m. ds_totp_last_verified_step (row_of s) = Some m \<longrightarrow>
        (\<exists>m'. ds_totp_last_verified_step (row_of s') = Some m' \<and> m \<le> m')))"

definition password_stays :: "auth_state \<Rightarrow> auth_state \<Rightarrow> bool" where
  "password_stays s s' = (ds_password_hash (row_of s) \<noteq> None \<longrightarrow> ds_password_hash (row_of s') \<noteq> None)"

interpretation totp: kept_row steps_advance
  by unfold_locales (force simp: steps_advance_def)+

interpretation password: kept_row password_stays
  by unfold_locales (simp_all add: password_stays_def)

lemmas row_write_defs = write_row_def update_where_def get_or_create_apply bind_def set_totp_secret_def set_password_hash_def
  try_set_password_hash_def try_advance_totp_last_verified_step_def keeps_def

lemma steps_advance_ops:
  "keeps steps_advance (set_password_hash h)" "keeps steps_advance (try_set_password_hash h)"
  "keeps steps_advance (try_advance_totp_last_verified_step step)"
  by (auto simp: row_write_defs steps_advance_def split: option.split)

lemma password_stays_ops:
  "keeps password_stays (set_password_hash h)" "keeps password_stays (try_set_password_hash h)"
  "keeps password_stays (try_advance_totp_last_verified_step step)" "keeps password_stays (set_totp_secret e)"
  by (auto simp: row_write_defs password_stays_def Let_def split: option.split)

fun resets_totp :: "auth_route \<Rightarrow> bool" where
  "resets_totp (RemovePassword p) = True"
| "resets_totp (ConfirmTotpSetup secret code) = True"
| "resets_totp (DisableTotp code) = True"
| "resets_totp _ = False"

lemma steps_advance_route: "\<not> resets_totp route \<Longrightarrow> keeps steps_advance (handle_auth w req route)"
  by (cases route)
     (simp_all add: totp.keeps_reading_routes totp.keeps_any_login totp.keeps_setup_password totp.keeps_change_password totp.keeps_verify_totp
        steps_advance_ops)

lemma password_stays_route: "(\<forall>p. route \<noteq> RemovePassword p) \<Longrightarrow> keeps password_stays (handle_auth w req route)"
  by (cases route)
     (simp_all add: password.keeps_reading_routes password.keeps_any_login password.keeps_setup_password password.keeps_change_password
        password.keeps_verify_totp password.keeps_confirm_totp_setup password.keeps_disable_totp password_stays_ops)

section \<open>Properties of runs\<close>

abbreviation auth_run :: "(auth_world \<times> dash_request \<times> auth_route) list \<Rightarrow> auth_state \<Rightarrow> auth_state" where
  "auth_run requests \<equiv> run_all (map (\<lambda>(w, req, route). handle_auth w req route) requests)"

lemma verify_totp_step:
  assumes "handle_auth w req (VerifyTotp code) s = (s', Inr r)"
  shows "\<exists>enc secret key step. ds_totp_secret_encrypted (row_of s) = Some enc \<and> aw_decrypt w enc = Inr secret \<and>
    normalize_secret secret = Inr key \<and> aw_totp_at w key (step * TOTP_PERIOD_SECONDS) = normalize_code code \<and>
    (\<forall>m. ds_totp_last_verified_step (row_of s) = Some m \<longrightarrow> m < step) \<and>
    ds_totp_last_verified_step (row_of s') = Some step \<and> ds_totp_secret_encrypted (row_of s') = Some enc"
proof -
  obtain resp token ttl s1 s2 where v: "row_of s1 = row_of s" "row_of s' = row_of s2"
    "svc_verify_totp w (\<lambda>i. aw_clock w (1 + i)) (dr_cookie req) code (cn_client_host (dr_connection req)) s1 = (s2, Inr (token, ttl))"
    using assms verify_totp_Inr [of w req code s s' r] by auto
  obtain s3 s4 where c: "row_of s3 = row_of s1" "row_of s2 = row_of s4"
    "check_stored_totp w (aw_clock w 2) (row_of s3) code s3 = (s4, Inr True)"
    using svc_verify_totp_Inr [OF v(3)] by (auto simp: eval_nat_numeral)
  from check_stored_totp_Inr [OF c(3)] c v show ?thesis by auto
qed

text \<open>
  C24: a one-time code is accepted once. When a code was accepted at a step, and whatever requests
  follow that neither set up nor remove the secret, a code accepted later is the code of a later
  step, however the clock runs.
\<close>

theorem totp_step_accepted_once:
  assumes "handle_auth w req (VerifyTotp code) s = (s1, Inr r)"
    "\<forall>(w, req, route)\<in>set requests. \<not> resets_totp route"
    "handle_auth w' req' (VerifyTotp code') (auth_run requests s1) = (s2, Inr r')"
  shows "\<exists>enc secret key step step'. ds_totp_secret_encrypted (row_of s) = Some enc \<and> aw_decrypt w enc = Inr secret \<and>
    normalize_secret secret = Inr key \<and> aw_totp_at w key (step * TOTP_PERIOD_SECONDS) = normalize_code code \<and>
    step < step' \<and> (\<exists>secret' key'. aw_decrypt w' enc = Inr secret' \<and> normalize_secret secret' = Inr key' \<and>
      aw_totp_at w' key' (step' * TOTP_PERIOD_SECONDS) = normalize_code code')"
proof -
  obtain enc secret key step where a: "ds_totp_secret_encrypted (row_of s) = Some enc" "aw_decrypt w enc = Inr secret"
    "normalize_secret secret = Inr key" "aw_totp_at w key (step * TOTP_PERIOD_SECONDS) = normalize_code code"
    "ds_totp_last_verified_step (row_of s1) = Some step" "ds_totp_secret_encrypted (row_of s1) = Some enc"
    using verify_totp_step [OF assms(1)] by metis
  have "steps_advance s1 (auth_run requests s1)"
    using assms(2) steps_advance_route by (intro totp.keeps_run) auto
  then obtain m where m: "ds_totp_last_verified_step (row_of (auth_run requests s1)) = Some m" "step \<le> m"
    "ds_totp_secret_encrypted (row_of (auth_run requests s1)) = Some enc"
    using a(5,6) by (auto simp: steps_advance_def)
  obtain secret' key' step' where b: "aw_decrypt w' enc = Inr secret'" "normalize_secret secret' = Inr key'"
    "aw_totp_at w' key' (step' * TOTP_PERIOD_SECONDS) = normalize_code code'" "m < step'"
    using verify_totp_step [OF assms(3)] m(1,3) by (metis option.inject)
  with m(2) have "step < step'" by simp
  with a b show ?thesis by blast
qed

theorem totp_step_accepted_once_witness:
  "\<exists>step step'. aw_totp_at sample_auth_world ''JBSWY3DP'' (step * TOTP_PERIOD_SECONDS) = ''123456'' \<and> step < step'"
proof -
  let ?verify = "handle_auth sample_auth_world sample_auth_request (VerifyTotp ''123456'')"
  have ok: "case ?verify sample_auth_state of
      (s1, Inr r) \<Rightarrow> (case ?verify s1 of (s2, Inr r') \<Rightarrow> True | _ \<Rightarrow> False) | _ \<Rightarrow> False"
    by code_simp
  obtain s1 r where "?verify sample_auth_state = (s1, Inr r)" using ok by (auto split: prod.splits sum.splits)
  moreover from this obtain s2 r' where "?verify s1 = (s2, Inr r')" using ok by (auto split: prod.splits sum.splits)
  moreover have "normalize_secret ''JBSWY3DP'' = Inr ''JBSWY3DP''" "normalize_code ''123456'' = ''123456''" by code_simp+
  ultimately show ?thesis
    using totp_step_accepted_once [of sample_auth_world sample_auth_request "''123456''" sample_auth_state s1 r "[]"
        sample_auth_world sample_auth_request "''123456''" s2 r']
    by (auto simp: sample_auth_world_def)
qed

text \<open>
  C25: the first password is set up once. After a set-up has succeeded, and whatever requests
  follow that do not remove the password, no further set-up succeeds, so a bootstrap token is of
  no use any more, and it has been erased.
\<close>

theorem password_set_up_once:
  assumes "handle_auth w req (SetupPassword p token) s = (s1, Inr r)"
    "\<forall>(w, req, route)\<in>set requests. \<forall>q. route \<noteq> RemovePassword q"
  shows "(\<exists>h. aw_hashpw w (strip p) = Inr h \<and> ds_password_hash (row_of s1) = Some h) \<and>
    ds_bootstrap_token_hash (row_of s1) = None \<and>
    (\<exists>e. snd (handle_auth w' req' (SetupPassword p' token') (auth_run requests s1)) = Inl e)"
proof -
  have effect: "(\<exists>h. aw_hashpw w (strip p) = Inr h \<and> ds_password_hash (row_of s1) = Some h) \<and>
      ds_bootstrap_token_hash (row_of s1) = None"
    using assms(1) setup_password_Inr [of w req p token s s1 r] by auto
  then have set: "ds_password_hash (row_of s1) \<noteq> None" by auto
  have "password_stays s1 (auth_run requests s1)"
    using assms(2) password_stays_route by (intro password.keeps_run) auto
  with set have "ds_password_hash (row_of (auth_run requests s1)) \<noteq> None" by (simp add: password_stays_def)
  then have "\<nexists>x. snd (setup_password w' req' p' token' (auth_run requests s1)) = Inr x"
    using setup_password_Inr [of w' req' p' token' "auth_run requests s1"] by (auto simp: grounds_def) (metis prod.collapse)
  with effect show ?thesis by (cases "snd (setup_password w' req' p' token' (auth_run requests s1))") auto
qed

theorem password_set_up_once_witness:
  "\<exists>s1. ds_password_hash (row_of s1) = Some ''long-password'' \<and>
    (\<exists>e. snd (handle_auth sample_auth_world sample_auth_request (SetupPassword ''other-password'' None) s1) = Inl e)"
proof -
  let ?w = "sample_auth_world\<lparr>aw_settings := (aw_settings sample_auth_world)\<lparr>ap_bootstrap_token := Some ''boot''\<rparr>\<rparr>"
  let ?first = "handle_auth ?w sample_auth_request (SetupPassword ''long-password'' (Some ''boot''))
    (sample_auth_state\<lparr>as_settings := Some (default_settings\<lparr>ds_session_ttl_seconds := 100\<rparr>)\<rparr>)"
  have ok: "case ?first of (s1, Inr r) \<Rightarrow> True | _ \<Rightarrow> False" by code_simp
  obtain s1 r where "?first = (s1, Inr r)" using ok by (auto split: prod.splits sum.splits)
  moreover have "strip ''long-password'' = ''long-password''" by code_simp
  ultimately show ?thesis
    using password_set_up_once [of ?w sample_auth_request "''long-password''" "Some ''boot''"
        "sample_auth_state\<lparr>as_settings := Some (default_settings\<lparr>ds_session_ttl_seconds := 100\<rparr>)\<rparr>" s1 r "[]" sample_auth_world sample_auth_request "''other-password''" None]
    by (auto simp: sample_auth_world_def)
qed

end
