(* ===== verification/LoginThrottle.thy ===== *)
theory LoginThrottle
  imports DashboardSecurity
begin

text \<open>
  How many passwords a client can try: the login route (\<open>src/app/modules/dashboard_auth/api.py\<close>) composed
  with the attempts table of the limiter (\<open>src/app/core/rate_limiter/db_rate_limiter.py\<close>), over any mix of
  requests of all clients.
\<close>

section \<open>The attempts of a client\<close>

abbreviation password_stamps :: "string \<Rightarrow> auth_state \<Rightarrow> int list" where
  "password_stamps key s \<equiv> key_stamps password_rate_limiter key (as_attempts s)"

lemma key_stamps_clear: "key_stamps rl key (clear_for_key rl' key' table) =
    (if key' = key \<and> dl_type rl' = dl_type rl then [] else key_stamps rl key table)"
  by (auto simp: key_stamps_def clear_for_key_def filter_empty_conv intro!: arg_cong [where f = "map at_time"] filter_cong)

lemma key_stamps_increment: "key_stamps rl key (fst (check_and_increment rl' key' now table)) =
    (if key' = key \<and> dl_type rl' = dl_type rl \<and> snd (check_and_increment rl' key' now table) = Inr ()
     then key_stamps rl key table @ [now] else key_stamps rl key table)"
  by (simp add: check_and_increment_def Let_def)

definition stamps_same :: "string \<Rightarrow> auth_state \<Rightarrow> auth_state \<Rightarrow> bool" where
  "stamps_same key s s' = (password_stamps key s' = password_stamps key s)"

interpretation stamps: kept_login "stamps_same key" for key
  by unfold_locales
    (simp_all add: stamps_same_def login_same_def key_stamps_clear key_stamps_increment totp_rate_limiter_def
      password_rate_limiter_def)

lemma stamps_same_writes:
  "keeps (stamps_same key) (set_password_hash h)" "keeps (stamps_same key) (try_set_password_hash h)"
  "keeps (stamps_same key) (try_advance_totp_last_verified_step step)" "keeps (stamps_same key) (set_totp_secret e)"
  "keeps (stamps_same key) clear_password_and_totp" "keeps (stamps_same key) clear_bootstrap_token"
  "keeps (stamps_same key) (store_bootstrap_token_if_absent te th)"
  by (auto simp: row_write_defs clear_password_and_totp_def clear_bootstrap_token_def store_bootstrap_token_if_absent_def
      stamps_same_def Let_def split: option.split)

lemma stamps_same_bootstrap: "keeps (stamps_same key) (ensure_auto_bootstrap_token w)"
proof -
  have "keeps (stamps_same key) (case d of Inl _ \<Rightarrow> ret None | Inr token \<Rightarrow> ret (Some token))" for d :: "'x + string"
    by (cases d) (simp_all add: stamps.keeps_pure)
  then show ?thesis
    unfolding ensure_auto_bootstrap_token_def Let_def by (intro stamps_same_writes stamps.row_rules)
qed

lemma stamps_same_removal: "keeps (stamps_same key) (remove_password w req p)"
  unfolding remove_password_def svc_remove_password_def excepting_def
  by (intro stamps_same_writes stamps_same_bootstrap stamps.route_rules)

lemma stamps_same_limiter:
  assumes "k \<noteq> key"
  shows "keeps (stamps_same key) (limit_attempts w password_rate_limiter k code)"
    "keeps (stamps_same key) (clear_attempts password_rate_limiter k)"
  using assms key_stamps_increment [of password_rate_limiter key password_rate_limiter k "aw_utc w"]
  by (auto simp: keeps_def stamps_same_def limit_attempts_def clear_attempts_def key_stamps_clear
      split: prod.splits sum.splits) (metis fst_conv)+

section \<open>How a login is refused\<close>

definition wrong_password :: route_exc where
  "wrong_password = to_route password_clauses InvalidCredentialsError"

definition too_many_attempts :: "route_exc \<Rightarrow> bool" where
  "too_many_attempts e = (case e of App a \<Rightarrow> ae_class a = DashboardRateLimitError | Unhandled _ \<Rightarrow> False)"

lemma lift_res_Inl: "lift_res f r s = (s', Inl e) \<longleftrightarrow> (\<exists>x. r = Inl x \<and> e = f x) \<and> s' = s"
  by (cases r) auto

lemma reads_succeed:
  "cached_settings t t' s \<noteq> (s', Inl e)" "get_settings s \<noteq> (s', Inl e)" "get_password_hash s \<noteq> (s', Inl e)"
  "log_async a ip d s \<noteq> (s', Inl e)"
  by (auto simp: cached_settings_def get_settings_def get_password_hash_def log_async_def get_or_create_apply bind_def
      split: option.splits)

lemma get_session_state_Inl: "get_session_state w now sid s = (s', Inl e) \<Longrightarrow> \<exists>x. e = Raised x"
  by (auto simp: get_session_state_def bind_Inl Let_def lift_res_Inl reads_succeed split: if_splits)

lemma login_reply_Inl: "login_reply w clock req sid age s = (s', Inl e) \<Longrightarrow> \<exists>x. e = Unhandled x"
  by (auto simp: login_reply_def excepting_def handle_def bind_Inl decorate_session_response_def Let_def lift_res_Inl
      to_route_def no_clauses_def dest!: get_session_state_Inl split: prod.splits sum.splits if_splits)

lemma create_session_Inl: "create_dashboard_session w t t' now pw tv s \<noteq> (s', Inl e)"
  by (auto simp: create_dashboard_session_def bind_Inl reads_succeed)

lemma verify_password_Inl:
  "verify_password w p ip s = (s', Inl e) \<Longrightarrow>
    e = PasswordNotConfiguredError \<or> e = InvalidCredentialsError \<or> (\<exists>x. e = Raised x)"
  by (auto simp: verify_password_def bind_Inl lift_res_Inl reads_succeed split: option.splits if_splits)

lemma stamps_sameD:
  assumes "keeps (stamps_same key) m" "m s = (s', r)"
  shows "password_stamps key s' = password_stamps key s"
  using keepsD [OF assms] by (simp add: stamps_same_def)

text \<open>The limiter in front of the comparison.\<close>

lemma limit_passwords:
  "limit_attempts w password_rate_limiter key code s = (s', Inr ()) \<Longrightarrow>
    length (filter ((\<le>) (aw_utc w - seconds 60)) (password_stamps key s)) < 8 \<and>
    password_stamps key s' = password_stamps key s @ [aw_utc w]"
  "limit_attempts w password_rate_limiter key code s = (s', Inl e) \<Longrightarrow>
    too_many_attempts e \<and> password_stamps key s' = password_stamps key s"
  by (auto simp: limit_attempts_def check_and_increment_def attempts_since_stamps Let_def password_rate_limiter_def
      too_many_attempts_def new_rate_limit_error_def new_app_error_def split: if_splits)

lemma login_password_refused:
  assumes "login_password w req p s = (s', Inl e)"
  defines "key \<equiv> session_client_key req ''password_login''"
  shows "e = wrong_password \<Longrightarrow>
      length (filter ((\<le>) (aw_utc w - seconds 60)) (password_stamps key s)) < 8 \<and>
      password_stamps key s' = password_stamps key s @ [aw_utc w]"
    "too_many_attempts e \<Longrightarrow> password_stamps key s' = password_stamps key s"
proof -
  have wp: "wrong_password = auth_error (auth_message InvalidCredentialsError) (Some ''invalid_credentials'')"
    by (simp add: wrong_password_def to_route_def password_clauses_def)
  have cl: "bad_request m c \<noteq> wrong_password" "\<not> too_many_attempts (bad_request m c)" "Unhandled x \<noteq> wrong_password"
    "\<not> too_many_attempts (Unhandled x)" "\<not> too_many_attempts wrong_password" for m c x
    by (simp_all add: wp bad_request_def auth_error_def new_app_error_def too_many_attempts_def)
  have tr: "to_route password_clauses PasswordNotConfiguredError = bad_request (auth_message PasswordNotConfiguredError) ''password_not_configured''"
    "to_route password_clauses (Raised x) = Unhandled x" for x
    by (simp_all add: to_route_def password_clauses_def)
  let ?limit = "limit_attempts w password_rate_limiter key ''password_rate_limited''"
  consider (early) m c where "e = bad_request m c" | (unhandled) x where "e = Unhandled x"
    | (limited) s1 where "password_stamps key s1 = password_stamps key s" "?limit s1 = (s', Inl e)"
    | (compared) s1 s2 where "password_stamps key s1 = password_stamps key s" "?limit s1 = (s2, Inr ())" "e = wrong_password"
        "password_stamps key s' = password_stamps key s2"
  proof (cases "ap_auth_mode (aw_settings w) = DISABLED")
    case True
    with assms(1) have "bad_request ''Password login is disabled while dashboard auth is bypassed'' ''password_management_disabled'' = e"
      by (simp add: login_password_def)
    with early show thesis by metis
  next
    case False
    obtain s1 settings where c: "cached_settings (aw_mono w 0) (aw_mono w 1) s = (s1, Inr settings :: route_exc + _)"
      using reads_succeed(1) [of "aw_mono w 0" "aw_mono w 1" s] by (metis prod.exhaust sum.exhaust)
    have k1: "password_stamps key s1 = password_stamps key s" using stamps_sameD [OF stamps.row_rules(4) c] .
    show thesis
    proof (cases "ds_password_hash settings")
      case None
      with assms(1) False c have "bad_request ''Password is not configured'' ''password_not_configured'' = e"
        by (simp add: login_password_def Let_def bind_eq)
      with early show thesis by metis
    next
      case (Some h)
      obtain s2 r where l: "?limit s1 = (s2, r)" by force
      show thesis
      proof (cases r)
        case (Inl e')
        with assms(1) False c Some l have "s2 = s'" "e' = e" by (auto simp: login_password_def Let_def bind_eq key_def)
        with limited k1 l Inl show thesis by blast
      next
        case (Inr u)
        obtain s3 v where v: "verify_password w p (cn_client_host (dr_connection req)) s2 = (s3, v)" by force
        have k3: "password_stamps key s3 = password_stamps key s2" using stamps_sameD [OF stamps.keeps_parts(6) v] .
        show thesis
        proof (cases v)
          case (Inl ve)
          consider "ve = PasswordNotConfiguredError" | "ve = InvalidCredentialsError" | x where "ve = Raised x"
            using verify_password_Inl v Inl by metis
          then show thesis
          proof cases
            case 1
            with assms(1) False c Some l \<open>r = Inr u\<close> v Inl have "e = to_route password_clauses PasswordNotConfiguredError"
              by (simp add: login_password_def Let_def bind_eq handle_eq key_def clear_attempts_def bind_def)
            with tr(1) early show thesis by metis
          next
            case 2
            with assms(1) False c Some l \<open>r = Inr u\<close> v Inl have "e = wrong_password" "s' = s3"
              by (simp_all add: login_password_def Let_def bind_eq handle_eq key_def wrong_password_def)
            with compared k1 k3 l \<open>r = Inr u\<close> show thesis by simp
          next
            case (3 x)
            with assms(1) False c Some l \<open>r = Inr u\<close> v Inl have "e = Unhandled x"
              by (simp add: login_password_def Let_def bind_eq handle_eq key_def tr)
            with unhandled show thesis by simp
          qed
        next
          case (Inr v')
          with assms(1) False c Some l \<open>r = Inr u\<close> v have
            "bind (create_dashboard_session w (aw_mono w 2) (aw_mono w 3) (aw_clock w 0) True False) (\<lambda>(session_id, ttl).
                  login_reply w (\<lambda>i. aw_clock w (1 + i)) req session_id ttl)
               (s3\<lparr>as_attempts := clear_for_key password_rate_limiter key (as_attempts s3)\<rparr>) = (s', Inl e)"
            by (simp add: login_password_def Let_def bind_eq handle_eq key_def clear_attempts_def bind_def [of "modify _"])
          then have "\<exists>x. e = Unhandled x" using login_reply_Inl by (fastforce simp: bind_Inl create_session_Inl)
          with unhandled show thesis by blast
        qed
      qed
    qed
  qed
  then have "(e = wrong_password \<longrightarrow>
      length (filter ((\<le>) (aw_utc w - seconds 60)) (password_stamps key s)) < 8 \<and>
      password_stamps key s' = password_stamps key s @ [aw_utc w]) \<and>
    (too_many_attempts e \<longrightarrow> password_stamps key s' = password_stamps key s)"
  proof cases
    case limited
    with limit_passwords(2) cl(5) show ?thesis by fastforce
  next
    case compared
    with limit_passwords(1) [OF compared(2)] cl(5) show ?thesis by auto
  qed (auto simp: cl)
  then show "e = wrong_password \<Longrightarrow>
      length (filter ((\<le>) (aw_utc w - seconds 60)) (password_stamps key s)) < 8 \<and>
      password_stamps key s' = password_stamps key s @ [aw_utc w]"
    "too_many_attempts e \<Longrightarrow> password_stamps key s' = password_stamps key s" by blast+
qed

section \<open>Runs of requests\<close>

text \<open>A login of the client that a limiter key stands for.\<close>

definition login_of :: "string \<Rightarrow> dash_request \<Rightarrow> auth_route \<Rightarrow> bool" where
  "login_of key req route =
     (case route of LoginPassword p \<Rightarrow> session_client_key req ''password_login'' = key | _ \<Rightarrow> False)"

text \<open>
  The times of the logins of the client that were answered as a wrong password, over a run of requests of
  all clients; and whether all its logins in the run were refused, as wrong or as too many.
\<close>

fun wrong_passwords :: "string \<Rightarrow> (auth_world \<times> dash_request \<times> auth_route) list \<Rightarrow> auth_state \<Rightarrow> int list" where
  "wrong_passwords key [] s = []"
| "wrong_passwords key ((w, req, route) # requests) s =
     (case handle_auth w req route s of (s', r) \<Rightarrow>
        (if login_of key req route \<and> r = Inl wrong_password then [aw_utc w] else []) @ wrong_passwords key requests s')"

fun all_refused :: "string \<Rightarrow> (auth_world \<times> dash_request \<times> auth_route) list \<Rightarrow> auth_state \<Rightarrow> bool" where
  "all_refused key [] s = True"
| "all_refused key ((w, req, route) # requests) s =
     (case handle_auth w req route s of (s', r) \<Rightarrow>
        (login_of key req route \<longrightarrow> (case r of Inl e \<Rightarrow> e = wrong_password \<or> too_many_attempts e | Inr _ \<Rightarrow> False)) \<and>
        all_refused key requests s')"

lemma other_requests_keep_stamps:
  assumes "\<not> login_of key req route"
  shows "keeps (stamps_same key) (handle_auth w req route)"
proof (cases route)
  case (LoginPassword p)
  with assms have "session_client_key req ''password_login'' \<noteq> key" by (simp add: login_of_def)
  with LoginPassword show ?thesis by (simp add: stamps.keeps_login_password stamps_same_limiter)
qed (simp_all add: stamps.keeps_reading_routes stamps.keeps_setup_password stamps.keeps_change_password
    stamps.keeps_verify_totp stamps.keeps_confirm_totp_setup stamps.keeps_disable_totp stamps_same_writes
    stamps_same_removal)

text \<open>Every wrong password is preceded by fewer than eight in its window.\<close>

lemma wrong_passwords_spaced:
  assumes "all_refused key requests s" "wrong_passwords key requests s = xs @ g # ys"
  shows "length (filter ((\<le>) (g - seconds 60)) (password_stamps key s @ xs)) < 8"
  using assms
proof (induction requests arbitrary: s xs)
  case (Cons request requests)
  obtain w req route where r: "request = (w, req, route)" by (cases request)
  obtain s' a where h: "handle_auth w req route s = (s', a)" by force
  have later: "all_refused key requests s'" using Cons.prems(1) r h by simp
  show ?case
  proof (cases "login_of key req route")
    case False
    have "password_stamps key s' = password_stamps key s"
      by (rule stamps_sameD [OF other_requests_keep_stamps [OF False] h])
    with Cons.IH [OF later] Cons.prems(2) r h False show ?thesis by simp
  next
    case True
    then obtain p where p: "route = LoginPassword p" "key = session_client_key req ''password_login''"
      by (auto simp: login_of_def split: auth_route.splits)
    obtain e where e: "a = Inl e" "e = wrong_password \<or> too_many_attempts e"
      using Cons.prems(1) r h True by (auto split: sum.splits)
    with h p have l: "login_password w req p s = (s', Inl e)" by simp
    show ?thesis
    proof (cases "e = wrong_password")
      case wrong: True
      note refused = login_password_refused(1) [OF l wrong, folded p(2)]
      from Cons.prems(2) r h True e wrong have "aw_utc w # wrong_passwords key requests s' = xs @ g # ys" by simp
      then consider "xs = []" "g = aw_utc w" | xs' where "xs = aw_utc w # xs'" "wrong_passwords key requests s' = xs' @ g # ys"
        by (cases xs) auto
      then show ?thesis
      proof cases
        case 1
        with refused show ?thesis by simp
      next
        case 2
        with Cons.IH [OF later 2(2)] refused show ?thesis by simp
      qed
    next
      case False
      with e have "password_stamps key s' = password_stamps key s" using login_password_refused(2) [OF l] p(2) by simp
      with Cons.IH [OF later] Cons.prems(2) r h False e show ?thesis by simp
    qed
  qed
qed simp

text \<open>
  C26: guessing is bounded. Over any run of requests of any clients, as long as the logins of a client are
  refused, as wrong or as too many, it is told at most eight times in any sixty seconds that a password is
  wrong: the limiter lets no further comparison through, and no other request, of this or another client,
  resets its count. This holds whatever the clock does between the requests.
\<close>

theorem password_guesses_bounded:
  assumes "all_refused key requests s"
  shows "length (filter (\<lambda>t. a \<le> t \<and> t \<le> a + seconds 60) (wrong_passwords key requests s)) \<le> 8"
proof (cases "filter (\<lambda>t. a \<le> t \<and> t \<le> a + seconds 60) (wrong_passwords key requests s) = []")
  case False
  let ?in = "\<lambda>t. a \<le> t \<and> t \<le> a + seconds 60"
  from False obtain g where "g \<in> set (wrong_passwords key requests s)" "?in g" by (auto simp: filter_empty_conv)
  then obtain xs g ys where g: "wrong_passwords key requests s = xs @ g # ys" "?in g" "\<forall>y\<in>set ys. \<not> ?in y"
    using split_list_last_prop [of "wrong_passwords key requests s" ?in] by blast
  have "length (filter ?in xs) \<le> length (filter ((\<le>) (g - seconds 60)) xs)"
    using g(2) by (intro length_filter_mono) auto
  also have "\<dots> \<le> length (filter ((\<le>) (g - seconds 60)) (password_stamps key s @ xs))" by simp
  also have "\<dots> < 8" by (rule wrong_passwords_spaced [OF assms g(1)])
  finally show ?thesis using g by (simp add: filter_empty_conv [THEN iffD2])
qed simp

definition sample_guesses :: "nat \<Rightarrow> (auth_world \<times> dash_request \<times> auth_route) list" where
  "sample_guesses n = replicate n (sample_auth_world, sample_auth_request, LoginPassword ''wrong'')"

lemma sample_guesses_refused: "all_refused ''password_login:10.0.0.1'' (sample_guesses 2) sample_auth_state"
  by code_simp

theorem password_guesses_bounded_witness:
  "length (filter (\<lambda>t. 0 \<le> t \<and> t \<le> 0 + seconds 60)
     (wrong_passwords ''password_login:10.0.0.1'' (sample_guesses 2) sample_auth_state)) \<le> 8"
  by (rule password_guesses_bounded [OF sample_guesses_refused])

text \<open>The bound is reached: of nine guesses at once eight are compared.\<close>

lemma eight_guesses: "wrong_passwords ''password_login:10.0.0.1'' (sample_guesses 9) sample_auth_state = replicate 8 0"
  by code_simp

end
