(* ===== verification/Leadership.thy ===== *)
theory Leadership
  imports Main Prelude
begin

text \<open>
  Leader election through the one-row table \<open>scheduler_leader\<close>
  (\<open>src/app/core/scheduling/leader_election.py\<close>). Times are UTC microseconds. The upsert and the
  update are the SQL statements of the source; \<open>fails\<close> is an exception of the database.
\<close>

record leader_row =
  lr_leader_id :: string
  lr_acquired_at :: int
  lr_expires_at :: int

record leader_settings =
  ls_enabled :: bool
  ls_database_url :: string
  ls_ttl_seconds :: int

record leader_process =
  lp_leader_id :: string
  lp_is_leader :: bool

definition uses_table :: "leader_settings \<Rightarrow> bool" where
  "uses_table s = (ls_enabled s \<and> \<not> str_in ''sqlite'' (lower (ls_database_url s)))"

text \<open>\<open>INSERT ... ON CONFLICT (id) DO UPDATE ... WHERE expires_at < now OR leader_id = me\<close>.\<close>

definition upsert_leader :: "string \<Rightarrow> int \<Rightarrow> int \<Rightarrow> leader_row option \<Rightarrow> leader_row option" where
  "upsert_leader leader_id now expires_at table =
     (let mine = Some \<lparr>lr_leader_id = leader_id, lr_acquired_at = now, lr_expires_at = expires_at\<rparr>
      in case table of
           None \<Rightarrow> mine
         | Some row \<Rightarrow> if lr_expires_at row < now \<or> lr_leader_id row = leader_id then mine else table)"

definition leader_try_acquire ::
  "leader_settings \<Rightarrow> int \<Rightarrow> bool \<Rightarrow> leader_process \<Rightarrow> leader_row option \<Rightarrow> leader_process \<times> leader_row option \<times> bool" where
  "leader_try_acquire s now fails p table =
     (if \<not> ls_enabled s then (p\<lparr>lp_is_leader := True\<rparr>, table, True)
      else if str_in ''sqlite'' (lower (ls_database_url s)) then (p\<lparr>lp_is_leader := True\<rparr>, table, True)
      else if fails then (p\<lparr>lp_is_leader := False\<rparr>, table, False)
      else let table' = upsert_leader (lp_leader_id p) now (now + 1000000 * ls_ttl_seconds s) table;
               won = (map_option lr_leader_id table' = Some (lp_leader_id p))
           in (p\<lparr>lp_is_leader := won\<rparr>, table', won))"

definition renew ::
  "leader_settings \<Rightarrow> int \<Rightarrow> bool \<Rightarrow> leader_process \<Rightarrow> leader_row option \<Rightarrow> leader_row option \<times> bool" where
  "renew s now fails p table =
     (if \<not> lp_is_leader p then (table, False)
      else if \<not> ls_enabled s then (table, True)
      else if str_in ''sqlite'' (lower (ls_database_url s)) then (table, True)
      else if fails then (table, False)
      else (case table of
              Some row \<Rightarrow> if lr_leader_id row = lp_leader_id p
                          then Some (row\<lparr>lr_expires_at := now + 1000000 * ls_ttl_seconds s\<rparr>) else table
            | None \<Rightarrow> None, True))"

section \<open>Runs\<close>

text \<open>
  Operations of several processes on the shared table, at non-decreasing times. The log records
  who was told it is the leader, when, and until when the lease it was given runs.
\<close>

datatype leader_op = Acquire | Renew

type_synonym leader_event = "int \<times> string \<times> leader_op \<times> bool"

definition leader_step ::
  "leader_settings \<Rightarrow> (string \<Rightarrow> bool) \<times> leader_row option \<Rightarrow> leader_event \<Rightarrow> (string \<Rightarrow> bool) \<times> leader_row option" where
  "leader_step s st e =
     (case (st, e) of ((flags, table), (now, me, op, fails)) \<Rightarrow>
        (case op of
           Acquire \<Rightarrow>
             (case leader_try_acquire s now fails \<lparr>lp_leader_id = me, lp_is_leader = flags me\<rparr> table of
                (p, table', won) \<Rightarrow> (flags(me := lp_is_leader p), table'))
         | Renew \<Rightarrow> (flags, fst (renew s now fails \<lparr>lp_leader_id = me, lp_is_leader = flags me\<rparr> table))))"

definition holds_lease :: "leader_row option \<Rightarrow> string \<Rightarrow> int \<Rightarrow> bool" where
  "holds_lease table me t = (case table of None \<Rightarrow> False | Some row \<Rightarrow> lr_leader_id row = me \<and> t \<le> lr_expires_at row)"

lemma acquire_wins_lease:
  assumes "uses_table s" "0 \<le> ls_ttl_seconds s" "leader_try_acquire s now fails p table = (p', table', True)"
  shows "holds_lease table' (lp_leader_id p) (now + 1000000 * ls_ttl_seconds s) \<and> lp_is_leader p'"
  using assms
  by (auto simp: leader_try_acquire_def uses_table_def upsert_leader_def holds_lease_def Let_def
      split: if_splits option.splits)

lemma step_keeps_lease:
  assumes "uses_table s" "holds_lease table me t" "who \<noteq> me" "now \<le> t"
  shows "holds_lease (snd (leader_step s (flags, table) (now, who, op, fails))) me t"
  using assms
  by (cases op; cases table)
    (auto simp: leader_step_def leader_try_acquire_def renew_def uses_table_def upsert_leader_def holds_lease_def
      Let_def split: if_splits option.splits)

lemma others_keep_lease:
  assumes "uses_table s" "holds_lease table me t" "\<forall>(now, who, op, fails)\<in>set es. who \<noteq> me \<and> now \<le> t"
  shows "holds_lease (snd (foldl (leader_step s) (flags, table) es)) me t"
  using assms
proof (induction es arbitrary: flags table)
  case (Cons e es)
  obtain now who op fails where e: "e = (now, who, op, fails)" by (cases e)
  let ?st = "leader_step s (flags, table) e"
  have "holds_lease (snd ?st) me t" using step_keeps_lease [OF Cons.prems(1,2)] Cons.prems(3) by (auto simp: e)
  with Cons.IH [of "snd ?st" "fst ?st"] Cons.prems show ?case by simp
qed simp

text \<open>
  C18: a lease is exclusive. Once a process has won the election, no other process wins before the
  lease has run out, whatever the others do and however their attempts fail: the database table
  grants it to nobody else.
\<close>

theorem lease_exclusive:
  assumes table: "uses_table s" "0 \<le> ls_ttl_seconds s"
    and won: "leader_try_acquire s t0 f p table = (p', table', True)"
    and others: "\<forall>(now, who, op, fails)\<in>set es. who \<noteq> lp_leader_id p \<and> now \<le> t0 + 1000000 * ls_ttl_seconds s"
    and q: "lp_leader_id q \<noteq> lp_leader_id p" "t \<le> t0 + 1000000 * ls_ttl_seconds s"
  shows "snd (snd (leader_try_acquire s t f' q (snd (foldl (leader_step s) (flags, table') es)))) = False"
proof -
  let ?t = "snd (foldl (leader_step s) (flags, table') es)"
  have "holds_lease ?t (lp_leader_id p) (t0 + 1000000 * ls_ttl_seconds s)"
    using others_keep_lease [OF table(1) _ others] acquire_wins_lease [OF table won] by blast
  with q table(1) show ?thesis
    by (auto simp: leader_try_acquire_def upsert_leader_def holds_lease_def uses_table_def Let_def split: option.splits)
qed

definition pg_settings :: leader_settings where
  "pg_settings = \<lparr>ls_enabled = True, ls_database_url = ''postgresql://db'', ls_ttl_seconds = 30\<rparr>"

lemma pg_uses_table: "uses_table pg_settings"
  by (simp add: uses_table_def pg_settings_def lower_def lower_char_def startswith_def)

theorem lease_exclusive_witness:
  "snd (snd (leader_try_acquire pg_settings 1000000 False \<lparr>lp_leader_id = ''b'', lp_is_leader = False\<rparr>
     (Some \<lparr>lr_leader_id = ''a'', lr_acquired_at = 0, lr_expires_at = 30000000\<rparr>))) = False"
proof -
  have w: "leader_try_acquire pg_settings 0 False \<lparr>lp_leader_id = ''a'', lp_is_leader = False\<rparr> None =
    (\<lparr>lp_leader_id = ''a'', lp_is_leader = True\<rparr>, Some \<lparr>lr_leader_id = ''a'', lr_acquired_at = 0, lr_expires_at = 30000000\<rparr>, True)"
    using pg_uses_table by (simp add: leader_try_acquire_def uses_table_def upsert_leader_def pg_settings_def)
  show ?thesis
    using lease_exclusive [OF pg_uses_table _ w, of "[]" "\<lparr>lp_leader_id = ''b'', lp_is_leader = False\<rparr>" 1000000]
    by (simp add: pg_settings_def)
qed

text \<open>
  A renewal does not look at what the update did: a process whose lease another process has taken
  over is still told that it is the leader.
\<close>

lemma renew_after_takeover:
  assumes "uses_table s" "lp_is_leader p" "lr_leader_id row \<noteq> lp_leader_id p"
  shows "renew s now False p (Some row) = (Some row, True)"
  using assms by (simp add: renew_def uses_table_def)

end
