(* ===== verification/AuditLog.thy ===== *)
theory AuditLog
  imports JsonCodec
begin

text \<open>
  The audit log: \<open>src/app/core/audit/service.py\<close> writes it, \<open>src/app/modules/audit/\<close> lists it. The
  details of an entry are stored as JSON text; times are UTC microseconds. \<open>fails\<close> is an exception
  of the database, which is logged and dropped.
\<close>

record audit_row =
  ar_audit_id :: int
  ar_timestamp :: int
  ar_action :: string
  ar_actor_ip :: "string option"
  ar_details :: "string option"
  ar_request_id :: "string option"

definition REDACTED_DETAIL_KEYS :: "string list" where
  "REDACTED_DETAIL_KEYS =
     [''access_token'', ''api_key'', ''authorization'', ''id_token'', ''key'', ''password'', ''refresh_token'',
      ''secret'', ''token'']"

definition sensitive_key :: "string \<Rightarrow> bool" where
  "sensitive_key key = (lower (strip key) \<in> set REDACTED_DETAIL_KEYS)"

definition sanitize_details :: "jobj option \<Rightarrow> jobj option" where
  "sanitize_details details =
     (case details of
        None \<Rightarrow> None
      | Some d \<Rightarrow>
          if d = [] then None
          else let sanitized = filter (\<lambda>(key, value). \<not> sensitive_key key) d
               in if sanitized = [] then None else Some sanitized)"

definition audit_dumps :: "jobj \<Rightarrow> string" where
  "audit_dumps d = dumps (\<lambda>_. []) '', '' '': '' (JObj d)"

definition next_audit_id :: "audit_row list \<Rightarrow> int" where
  "next_audit_id table = foldr (\<lambda>r m. max (ar_audit_id r) m) table 0 + 1"

definition write_audit_log ::
  "bool \<Rightarrow> int \<Rightarrow> string \<Rightarrow> string option \<Rightarrow> jobj option \<Rightarrow> string option \<Rightarrow> audit_row list \<Rightarrow> audit_row list" where
  "write_audit_log fails now action actor_ip details request_id table =
     (if fails then table
      else table @ [\<lparr>ar_audit_id = next_audit_id table, ar_timestamp = now, ar_action = action, ar_actor_ip = actor_ip,
             ar_details = map_option audit_dumps (sanitize_details details), ar_request_id = request_id\<rparr>])"

text \<open>\<open>log_async\<close> takes the request identifier of the context when none is given.\<close>

definition audit_log_async ::
  "bool \<Rightarrow> int \<Rightarrow> string option \<Rightarrow> string \<Rightarrow> string option \<Rightarrow> jobj option \<Rightarrow> string option \<Rightarrow> audit_row list \<Rightarrow> audit_row list" where
  "audit_log_async fails now context_id action actor_ip details request_id table =
     write_audit_log fails now action actor_ip details
       (case request_id of Some r \<Rightarrow> if r = [] then context_id else Some r | None \<Rightarrow> context_id) table"

section \<open>Listing\<close>

definition newest_first :: "audit_row list \<Rightarrow> audit_row list" where
  "newest_first rows = rev (sort_key (\<lambda>r. (ar_timestamp r, ar_audit_id r)) rows)"

definition audit_list_logs :: "string option \<Rightarrow> nat \<Rightarrow> nat \<Rightarrow> audit_row list \<Rightarrow> audit_row list" where
  "audit_list_logs action limit offset table =
     (let rows = newest_first table;
          rows = (case action of Some a \<Rightarrow> if a = [] then rows else filter (\<lambda>r. ar_action r = a) rows | None \<Rightarrow> rows);
          rows = (if offset \<noteq> 0 then drop offset rows else rows)
      in if limit \<noteq> 0 then take limit rows else rows)"

record audit_data =
  ad_id :: int
  ad_timestamp :: int
  ad_action :: string
  ad_actor_ip :: "string option"
  ad_details :: "jobj option"
  ad_request_id :: "string option"

definition to_audit_log_data :: "audit_row \<Rightarrow> audit_data res" where
  "to_audit_log_data row =
     res_bind (case ar_details row of
                 None \<Rightarrow> Inr None
               | Some text \<Rightarrow>
                   if text = [] then Inr None
                   else res_bind (loads text) (\<lambda>parsed. Inr (case parsed of JObj d \<Rightarrow> Some d | _ \<Rightarrow> None)))
       (\<lambda>details. Inr \<lparr>ad_id = ar_audit_id row, ad_timestamp = ar_timestamp row, ad_action = ar_action row,
          ad_actor_ip = ar_actor_ip row, ad_details = details, ad_request_id = ar_request_id row\<rparr>)"

text \<open>The response model: a detail is a scalar or a list of scalars.\<close>

fun audit_scalar :: "json \<Rightarrow> bool" where
  "audit_scalar (JArr xs) = False"
| "audit_scalar (JObj kvs) = False"
| "audit_scalar _ = True"

fun audit_value :: "json \<Rightarrow> bool" where
  "audit_value (JArr xs) = list_all audit_scalar xs"
| "audit_value (JObj kvs) = False"
| "audit_value _ = True"

definition audit_response_valid :: "audit_data \<Rightarrow> bool" where
  "audit_response_valid d = (case ad_details d of None \<Rightarrow> True | Some kvs \<Rightarrow> list_all (\<lambda>(k, v). audit_value v) kvs)"

definition list_audit_logs :: "string option \<Rightarrow> nat \<Rightarrow> nat \<Rightarrow> audit_row list \<Rightarrow> audit_data list res" where
  "list_audit_logs action limit offset table =
     res_bind (res_map to_audit_log_data (audit_list_logs action limit offset table)) (\<lambda>rows.
       if list_all audit_response_valid rows then Inr rows else Inl ValidationError)"

section \<open>Properties\<close>

lemma audit_dumps_loads:
  assumes "distinct (map fst d)" "list_all (\<lambda>(k, v). json_plain v) d"
  shows "loads (audit_dumps d) = Inr (JObj d)"
  unfolding audit_dumps_def using assms
  by (intro loads_dumps [where w = "'' ''" and w' = "'' ''"]) (simp_all add: json_ws_def)

lemma sanitize_details_Some:
  assumes "sanitize_details details = Some d"
  shows "\<exists>full. details = Some full \<and> d = filter (\<lambda>(key, value). \<not> sensitive_key key) full \<and> d \<noteq> []"
  using assms by (auto simp: sanitize_details_def Let_def split: option.splits if_splits)

lemma filter_keys_distinct: "distinct (map fst d) \<Longrightarrow> distinct (map fst (filter P d))"
  by (induction d) auto

text \<open>
  What is written is read back without the sensitive keys, so no value of a sensitive key is ever
  stored, and the entry satisfies the response model.
\<close>

lemma audit_entry_roundtrip:
  assumes "distinct (map fst full)" "list_all (\<lambda>(k, v). json_plain v \<and> audit_value v) full"
    "r = last (write_audit_log False now action ip (Some full) request_id table)"
  shows "\<exists>d. to_audit_log_data r = Inr d \<and> ad_action d = action \<and> ad_actor_ip d = ip \<and> ad_timestamp d = now \<and>
    ad_request_id d = request_id \<and> audit_response_valid d \<and>
    ad_details d = sanitize_details (Some full)"
proof (cases "sanitize_details (Some full)")
  case None
  with assms(3) show ?thesis by (simp add: write_audit_log_def to_audit_log_data_def audit_response_valid_def)
next
  case (Some d)
  then have d: "d = filter (\<lambda>(key, value). \<not> sensitive_key key) full" using sanitize_details_Some by fastforce
  have "loads (audit_dumps d) = Inr (JObj d)"
    using assms(1,2) by (intro audit_dumps_loads) (auto simp: d list_all_iff filter_keys_distinct)
  moreover have "audit_dumps d \<noteq> []" by (simp add: audit_dumps_def)
  moreover have "list_all (\<lambda>(k, v). audit_value v) d" using assms(2) by (auto simp: d list_all_iff)
  ultimately show ?thesis
    using Some assms(3) by (simp add: write_audit_log_def to_audit_log_data_def audit_response_valid_def)
qed

lemma no_sensitive_detail_stored:
  assumes "sanitize_details details = Some d"
  shows "\<forall>(key, value)\<in>set d. \<not> sensitive_key key"
  using sanitize_details_Some [OF assms] by auto

text \<open>Pages of a listing are consecutive pieces of one newest-first list.\<close>

lemma audit_pages:
  assumes "0 < k"
  shows "audit_list_logs action k n table @ audit_list_logs action m (n + k) table =
    (if m = 0 then drop n (audit_list_logs action 0 0 table) else take (k + m) (drop n (audit_list_logs action 0 0 table)))"
  using assms by (auto simp: audit_list_logs_def Let_def take_add add.commute split: option.split)
    (metis append_take_drop_id drop_drop add.commute)+

lemma newest_first_sorted:
  "sorted_wrt (\<lambda>r r'. (ar_timestamp r', ar_audit_id r') \<le> (ar_timestamp r, ar_audit_id r)) (newest_first rows)"
proof -
  have "sorted_wrt (\<lambda>r r'. (ar_timestamp r, ar_audit_id r) \<le> (ar_timestamp r', ar_audit_id r'))
      (sort_key (\<lambda>r. (ar_timestamp r, ar_audit_id r)) rows)"
    using sorted_sort_key [of "\<lambda>r. (ar_timestamp r, ar_audit_id r)" rows] by (simp add: sorted_wrt_map)
  then show ?thesis by (simp add: newest_first_def sorted_wrt_rev)
qed

end
