(* ===== verification/Config.thy ===== *)
theory Config
  imports DashboardState
begin

text \<open>
  The configuration of the process: the validators of \<open>src/app/core/config/settings.py\<close> and the
  command line of \<open>src/app/cli.py\<close>. The values that \<open>pydantic\<close> has read from the environment and
  coerced to the types of the fields are the input; the file system, the home directories of users
  and the environment variables read directly are a record of the host.
\<close>

section \<open>Networks\<close>

text \<open>\<open>ip_network(cidr, strict=False)\<close>: a prefix length, or for IPv4 a net mask or host mask.\<close>

definition prefix_from_string :: "nat \<Rightarrow> string \<Rightarrow> nat option" where
  "prefix_from_string max_prefix s =
     (if s = [] \<or> \<not> list_all is_dec s then None
      else case py_int s of Inl _ \<Rightarrow> None | Inr n \<Rightarrow> if n \<le> int max_prefix then Some (nat n) else None)"

definition prefix_from_mask :: "int \<Rightarrow> nat option" where
  "prefix_from_mask n = find (\<lambda>p. n = 2 ^ 32 - 2 ^ (32 - p)) [0..<33]"

definition ipv4_prefix :: "string \<Rightarrow> nat option" where
  "ipv4_prefix s =
     (case prefix_from_string 32 s of
        Some p \<Rightarrow> Some p
      | None \<Rightarrow>
          (case parse_ipv4 s of
             None \<Rightarrow> None
           | Some n \<Rightarrow>
               (case prefix_from_mask n of Some p \<Rightarrow> Some p | None \<Rightarrow> prefix_from_mask (2 ^ 32 - 1 - n))))"

definition ip_network :: "string \<Rightarrow> ip_net option" where
  "ip_network s =
     (case split_on (CHR ''/'') s of
        addr # netmask \<Rightarrow>
          if 1 < length netmask then None
          else (case ip_address addr of
                  Some (IPv4 n) \<Rightarrow>
                    map_option (\<lambda>p. \<lparr>net_v6 = False, net_address = n, net_prefix = p\<rparr>)
                      (case netmask of [] \<Rightarrow> Some 32 | m # _ \<Rightarrow> ipv4_prefix m)
                | Some (IPv6 n scope) \<Rightarrow>
                    map_option (\<lambda>p. \<lparr>net_v6 = True, net_address = n, net_prefix = p\<rparr>)
                      (case netmask of [] \<Rightarrow> Some 128 | m # _ \<Rightarrow> prefix_from_string 128 m)
                | None \<Rightarrow> None)
      | [] \<Rightarrow> None)"

lemma ip_network_examples:
  "ip_network ''127.0.0.1/32'' = Some \<lparr>net_v6 = False, net_address = 2130706433, net_prefix = 32\<rparr>"
  "ip_network ''10.0.0.0/255.0.0.0'' = Some \<lparr>net_v6 = False, net_address = 167772160, net_prefix = 8\<rparr>"
  "ip_network ''10.0.0.0/0.255.255.255'' = Some \<lparr>net_v6 = False, net_address = 167772160, net_prefix = 8\<rparr>"
  "ip_network ''::1/128'' = Some \<lparr>net_v6 = True, net_address = 1, net_prefix = 128\<rparr>"
  "ip_network ''10.0.0.0/33'' = None" "ip_network ''10.0.0.0/8/8'' = None"
  by code_simp+

section \<open>Paths\<close>

text \<open>\<open>str(Path(s))\<close> on a POSIX system.\<close>

definition path_parts :: "string \<Rightarrow> string list" where
  "path_parts s = filter (\<lambda>p. p \<noteq> [] \<and> p \<noteq> ''.'') (split_on (CHR ''/'') s)"

definition path_root :: "string \<Rightarrow> string" where
  "path_root s =
     (if startswith s ''//'' \<and> \<not> startswith s ''///'' then ''//''
      else if startswith s ''/'' then ''/'' else [])"

definition path_str :: "string \<Rightarrow> string" where
  "path_str s =
     (if path_root s = [] \<and> path_parts s = [] then ''.'' else path_root s @ join_with ''/'' (path_parts s))"

definition path_join :: "string \<Rightarrow> string \<Rightarrow> string" where
  "path_join base name = path_str (base @ ''/'' @ name)"

record host =
  ho_env :: "string \<Rightarrow> string option"
  ho_home :: string
  ho_exists :: "string \<Rightarrow> bool"
  ho_user_home :: "string \<Rightarrow> string option"

datatype settings_exc = InvalidSetting pyexc | NoHomeDirectory

text \<open>\<open>Path(s).expanduser()\<close>: only a first part that starts with a tilde is expanded.\<close>

definition expanduser :: "host \<Rightarrow> string \<Rightarrow> settings_exc + string" where
  "expanduser ho s =
     (if path_root s = [] \<and> path_parts s \<noteq> [] \<and> hd (hd (path_parts s)) = CHR ''~''
      then (case ho_user_home ho (hd (path_parts s)) of
              None \<Rightarrow> Inl NoHomeDirectory
            | Some home \<Rightarrow> Inr (path_str (join_with ''/'' (home # tl (path_parts s)))))
      else Inr (path_str s))"

definition in_container :: "host \<Rightarrow> bool" where
  "in_container ho = (ho_exists ho ''/.dockerenv'' \<or> ho_exists ho ''/run/.containerenv'')"

definition DOCKER_DATA_DIR :: string where
  "DOCKER_DATA_DIR = ''/var/lib/firecrawl-lb''"

definition default_home_dir :: "host \<Rightarrow> string" where
  "default_home_dir ho =
     (case ho_env ho ''FIRECRAWL_LB_DATA_DIR'' of
        Some env_dir \<Rightarrow> if strip env_dir \<noteq> [] then path_str (strip env_dir)
          else (let home_dir = path_join (ho_home ho) ''.firecrawl-lb''
                in if ho_exists ho home_dir then home_dir else if in_container ho then DOCKER_DATA_DIR else home_dir)
      | None \<Rightarrow> (let home_dir = path_join (ho_home ho) ''.firecrawl-lb''
                in if ho_exists ho home_dir then home_dir else if in_container ho then DOCKER_DATA_DIR else home_dir))"

definition configured_http_port :: "host \<Rightarrow> int" where
  "configured_http_port ho =
     (case ho_env ho ''PORT'' of
        Some raw \<Rightarrow>
          if raw = [] then 2465
          else (case py_int (strip raw) of Inl _ \<Rightarrow> 2465 | Inr port \<Rightarrow> if 0 < port then port else 2465)
      | None \<Rightarrow> 2465)"

section \<open>Validators\<close>

datatype string_list_input = NoStrings | CommaString string | StringList "string list" | OtherInput

definition normalize_cidr_list :: "string_list_input \<Rightarrow> settings_exc + string list" where
  "normalize_cidr_list value =
     (case value of
        NoStrings \<Rightarrow> Inr []
      | OtherInput \<Rightarrow> Inl (InvalidSetting TypeError)
      | CommaString s \<Rightarrow>
          (let cidrs = filter (\<lambda>e. e \<noteq> []) (map strip (split_on (CHR '','') s))
           in if list_all (\<lambda>c. ip_network c \<noteq> None) cidrs then Inr cidrs else Inl (InvalidSetting ValueError))
      | StringList es \<Rightarrow>
          (let cidrs = filter (\<lambda>e. e \<noteq> []) (map strip es)
           in if list_all (\<lambda>c. ip_network c \<noteq> None) cidrs then Inr cidrs else Inl (InvalidSetting ValueError)))"

text \<open>The trusted networks of the firewall and of the sanitizer.\<close>

definition parse_trusted_proxy_networks :: "string list \<Rightarrow> ip_net list res" where
  "parse_trusted_proxy_networks cidrs =
     res_map (\<lambda>c. case ip_network c of None \<Rightarrow> Inl ValueError | Some n \<Rightarrow> Inr n) cidrs"

definition expand_data_dir :: "host \<Rightarrow> string \<Rightarrow> settings_exc + string" where
  "expand_data_dir ho value =
     (let stripped = strip value in if stripped \<noteq> [] then expanduser ho stripped else Inr (default_home_dir ho))"

definition expand_database_url :: "host \<Rightarrow> string \<Rightarrow> settings_exc + string" where
  "expand_database_url ho value =
     (case find (\<lambda>p. startswith value p \<and> startswith (drop (length p) value) ''~'')
             [''sqlite+aiosqlite:///'', ''sqlite:///''] of
        None \<Rightarrow> Inr value
      | Some prefix \<Rightarrow> res_bind (expanduser ho (drop (length prefix) value)) (\<lambda>p. Inr (prefix @ p)))"

definition validate_proxy_header :: "string \<Rightarrow> settings_exc + string" where
  "validate_proxy_header value =
     (case normalize_dashboard_auth_proxy_header value of Inl e \<Rightarrow> Inl (InvalidSetting e) | Inr h \<Rightarrow> Inr h)"

section \<open>The settings\<close>

datatype check_mode = QuickCheck | FullCheck | NoCheck

record settings =
  st_data_dir :: string
  st_database_url :: string
  st_database_pool_size :: int
  st_database_max_overflow :: int
  st_database_background_pool_size :: "int option"
  st_database_background_max_overflow :: "int option"
  st_database_pool_timeout_seconds :: rat
  st_database_pool_recycle_seconds :: int
  st_database_migrate_on_startup :: bool
  st_database_sqlite_pre_migrate_backup_enabled :: bool
  st_database_sqlite_pre_migrate_backup_max_files :: int
  st_database_sqlite_startup_check_mode :: check_mode
  st_database_alembic_auto_remap_enabled :: bool
  st_database_migrations_fail_fast :: bool
  st_encryption_key_file :: string
  st_usage_refresh_enabled :: bool
  st_usage_refresh_interval_seconds :: int
  st_dashboard_auth_mode :: auth_mode
  st_dashboard_auth_proxy_header :: string
  st_dashboard_bootstrap_token :: "string option"
  st_firewall_trust_proxy_headers :: bool
  st_firewall_trusted_proxy_cidrs :: "string list"
  st_firewall_ip_cache_ttl_seconds :: int
  st_metrics_enabled :: bool
  st_metrics_port :: int
  st_log_format :: string
  st_otel_enabled :: bool
  st_otel_exporter_endpoint :: string
  st_leader_election_enabled :: bool
  st_leader_election_ttl_seconds :: int
  st_backpressure_max_concurrent_requests :: int
  st_bulkhead_proxy_limit :: int
  st_bulkhead_proxy_http_limit :: "int option"
  st_bulkhead_dashboard_limit :: int
  st_memory_warning_threshold_mb :: int
  st_memory_reject_threshold_mb :: int
  st_shutdown_drain_timeout_seconds :: int
  st_http_connector_limit :: int
  st_http_connector_limit_per_host :: int
  st_max_decompressed_body_bytes :: int
  st_max_decompressed_responses_body_bytes :: int

text \<open>What is imported once: the default home directory, and what is derived from it.\<close>

definition default_database_url :: "string \<Rightarrow> string" where
  "default_database_url home_dir = ''sqlite+aiosqlite:///'' @ path_join home_dir ''store.db''"

definition default_encryption_key_file :: "string \<Rightarrow> string" where
  "default_encryption_key_file home_dir = path_join home_dir ''encryption.key''"

definition settings_defaults :: "host \<Rightarrow> string \<Rightarrow> settings" where
  "settings_defaults ho home_dir =
     \<lparr>st_data_dir = default_home_dir ho, st_database_url = default_database_url home_dir,
      st_database_pool_size = 15, st_database_max_overflow = 10, st_database_background_pool_size = None,
      st_database_background_max_overflow = None, st_database_pool_timeout_seconds = 30,
      st_database_pool_recycle_seconds = 1800, st_database_migrate_on_startup = True,
      st_database_sqlite_pre_migrate_backup_enabled = True, st_database_sqlite_pre_migrate_backup_max_files = 5,
      st_database_sqlite_startup_check_mode = QuickCheck, st_database_alembic_auto_remap_enabled = False,
      st_database_migrations_fail_fast = True, st_encryption_key_file = default_encryption_key_file home_dir,
      st_usage_refresh_enabled = True, st_usage_refresh_interval_seconds = 60,
      st_dashboard_auth_mode = STANDARD, st_dashboard_auth_proxy_header = ''Remote-User'',
      st_dashboard_bootstrap_token = None, st_firewall_trust_proxy_headers = False,
      st_firewall_trusted_proxy_cidrs = [''127.0.0.1/32'', ''::1/128''], st_firewall_ip_cache_ttl_seconds = 30,
      st_metrics_enabled = False, st_metrics_port = 9090, st_log_format = ''text'', st_otel_enabled = False,
      st_otel_exporter_endpoint = [], st_leader_election_enabled = False, st_leader_election_ttl_seconds = 600,
      st_backpressure_max_concurrent_requests = 0, st_bulkhead_proxy_limit = 512, st_bulkhead_proxy_http_limit = None,
      st_bulkhead_dashboard_limit = 50, st_memory_warning_threshold_mb = 0, st_memory_reject_threshold_mb = 0,
      st_shutdown_drain_timeout_seconds = 30, st_http_connector_limit = 100, st_http_connector_limit_per_host = 50,
      st_max_decompressed_body_bytes = 32 * 1024 * 1024, st_max_decompressed_responses_body_bytes = 128 * 1024 * 1024\<rparr>"

text \<open>The constraints of the fields (\<open>gt\<close> and \<open>ge\<close>).\<close>

definition field_constraints :: "settings \<Rightarrow> bool" where
  "field_constraints s =
     (0 < st_database_pool_size s \<and> 0 \<le> st_database_max_overflow s \<and>
      (case st_database_background_pool_size s of None \<Rightarrow> True | Some n \<Rightarrow> 0 < n) \<and>
      (case st_database_background_max_overflow s of None \<Rightarrow> True | Some n \<Rightarrow> 0 \<le> n) \<and>
      0 < st_database_pool_timeout_seconds s \<and> 0 < st_database_pool_recycle_seconds s \<and>
      1 \<le> st_database_sqlite_pre_migrate_backup_max_files s \<and> 0 < st_usage_refresh_interval_seconds s \<and>
      0 < st_firewall_ip_cache_ttl_seconds s \<and> 0 \<le> st_bulkhead_proxy_limit s \<and>
      (case st_bulkhead_proxy_http_limit s of None \<Rightarrow> True | Some n \<Rightarrow> 0 \<le> n) \<and>
      0 \<le> st_bulkhead_dashboard_limit s \<and> 0 < st_max_decompressed_body_bytes s \<and>
      0 < st_max_decompressed_responses_body_bytes s)"

definition apply_data_dir_defaults :: "string \<Rightarrow> string set \<Rightarrow> settings \<Rightarrow> settings" where
  "apply_data_dir_defaults home_dir explicitly_set s =
     (if st_data_dir s = home_dir then s
      else let s = (if ''database_url'' \<notin> explicitly_set \<and> st_database_url s = default_database_url home_dir
                    then s\<lparr>st_database_url := ''sqlite+aiosqlite:///'' @ path_join (st_data_dir s) ''store.db''\<rparr> else s)
           in if ''encryption_key_file'' \<notin> explicitly_set \<and> st_encryption_key_file s = default_encryption_key_file home_dir
              then s\<lparr>st_encryption_key_file := path_join (st_data_dir s) ''encryption.key''\<rparr> else s)"

definition normalize_bulkhead_limits :: "settings \<Rightarrow> settings" where
  "normalize_bulkhead_limits s =
     (case st_bulkhead_proxy_http_limit s of
        None \<Rightarrow> s\<lparr>st_bulkhead_proxy_http_limit := Some (st_bulkhead_proxy_limit s)\<rparr>
      | Some _ \<Rightarrow> s)"

definition validate_metrics_port :: "host \<Rightarrow> settings \<Rightarrow> settings_exc + settings" where
  "validate_metrics_port ho s =
     (if st_metrics_port s = configured_http_port ho then Inl (InvalidSetting ValueError) else Inr s)"

definition validate_dashboard_auth_mode :: "settings \<Rightarrow> settings_exc + settings" where
  "validate_dashboard_auth_mode s =
     (if st_dashboard_auth_mode s \<noteq> TRUSTED_HEADER then Inr s
      else if \<not> st_firewall_trust_proxy_headers s then Inl (InvalidSetting ValueError)
      else if st_firewall_trusted_proxy_cidrs s = [] then Inl (InvalidSetting ValueError)
      else Inr s)"

text \<open>
  The values given for the fields that have a validator of their own; \<open>None\<close>: not given, the default
  is taken unvalidated. \<open>values\<close> has the other fields, \<open>home_dir\<close> is the default home directory
  when the module was imported.
\<close>

record settings_input =
  si_data_dir :: "string option"
  si_database_url :: "string option"
  si_encryption_key_file :: "string option"
  si_trusted_proxy_cidrs :: "string_list_input option"
  si_proxy_header :: "string option"
  si_values :: "settings"

definition given :: "'a option \<Rightarrow> ('a \<Rightarrow> settings_exc + 'b) \<Rightarrow> 'b \<Rightarrow> settings_exc + 'b" where
  "given value validator dflt = (case value of None \<Rightarrow> Inr dflt | Some v \<Rightarrow> validator v)"

definition explicitly_set :: "settings_input \<Rightarrow> string set" where
  "explicitly_set inp =
     (if si_database_url inp = None then {} else {''database_url''}) \<union>
     (if si_encryption_key_file inp = None then {} else {''encryption_key_file''})"

definition validate_settings :: "host \<Rightarrow> string \<Rightarrow> settings_input \<Rightarrow> settings_exc + settings" where
  "validate_settings ho home_dir inp =
     (let d = settings_defaults ho home_dir in
      res_bind (given (si_data_dir inp) (expand_data_dir ho) (st_data_dir d)) (\<lambda>data_dir.
      res_bind (given (si_database_url inp) (expand_database_url ho) (st_database_url d)) (\<lambda>database_url.
      res_bind (given (si_encryption_key_file inp) (expanduser ho) (st_encryption_key_file d)) (\<lambda>key_file.
      res_bind (given (si_trusted_proxy_cidrs inp) normalize_cidr_list (st_firewall_trusted_proxy_cidrs d)) (\<lambda>cidrs.
      res_bind (given (si_proxy_header inp) validate_proxy_header (st_dashboard_auth_proxy_header d)) (\<lambda>header.
        let s = (si_values inp)\<lparr>st_data_dir := data_dir, st_database_url := database_url,
                  st_encryption_key_file := key_file, st_firewall_trusted_proxy_cidrs := cidrs,
                  st_dashboard_auth_proxy_header := header\<rparr>
        in if \<not> field_constraints s then Inl (InvalidSetting ValueError)
           else res_bind (validate_metrics_port ho
                  (normalize_bulkhead_limits (apply_data_dir_defaults home_dir (explicitly_set inp) s)))
                  validate_dashboard_auth_mode))))))"

section \<open>The command line\<close>

record cli_args =
  ca_host :: string
  ca_port :: string
  ca_ssl_certfile :: "string option"
  ca_ssl_keyfile :: "string option"
  ca_timeout_keep_alive :: string

record server_run =
  sr_host :: string
  sr_port :: int
  sr_ssl_certfile :: "string option"
  sr_ssl_keyfile :: "string option"
  sr_timeout_keep_alive :: int

datatype cli_exit = SslPairRequired | PortNotInteger | TimeoutNotInteger

text \<open>The environment of the server process and the arguments it is run with.\<close>

definition cli_main :: "host \<Rightarrow> cli_args \<Rightarrow> cli_exit + (host \<times> server_run)" where
  "cli_main ho args =
     (if truthy_str (ca_ssl_certfile args) \<noteq> truthy_str (ca_ssl_keyfile args) then Inl SslPairRequired
      else case py_int (ca_port args) of
             Inl _ \<Rightarrow> Inl PortNotInteger
           | Inr port \<Rightarrow>
               (case py_int (ca_timeout_keep_alive args) of
                  Inl _ \<Rightarrow> Inl TimeoutNotInteger
                | Inr keep_alive \<Rightarrow>
                    Inr (ho\<lparr>ho_env := (ho_env ho)(''PORT'' := Some (py_str_int port))\<rparr>,
                      \<lparr>sr_host = ca_host args, sr_port = port, sr_ssl_certfile = ca_ssl_certfile args,
                       sr_ssl_keyfile = ca_ssl_keyfile args, sr_timeout_keep_alive = keep_alive\<rparr>)))"

section \<open>Properties\<close>

lemma py_int_py_str_int:
  assumes "0 \<le> n" "n < 10 ^ 10"
  shows "py_int (strip (py_str_int n)) = Inr n"
proof -
  let ?ds = "nat_digits (nat n)"
  have ds: "list_all is_dec ?ds" by (rule nat_digits_is_dec)
  obtain c t where shape: "?ds = c # t" "is_dec c" using nat_digits_shape [of "nat n"] by blast
  have nospace: "\<not> py_isspace d" if "is_dec d" for d
    using that by (auto simp: is_dec_def py_isspace_def Let_def)
  have keep: "strip x = x" if "list_all is_dec x" for x
  proof -
    have "dropWhile py_isspace y = y" if "list_all is_dec y" for y
      using that nospace by (cases y) auto
    with that show ?thesis by (simp add: strip_def lstrip_def rstrip_def list_all_rev)
  qed
  have "nat n < nat (10 ^ 10)" using assms by (subst nat_less_eq_zless) simp_all
  then have "nat n < 10 ^ 10" by simp
  then have "length ?ds \<le> 10" using nat_digits_length [of 10 "nat n"] by simp
  moreover have "dec_groups_ok True x" if "list_all is_dec x" for x using that by (induction x) auto
  then have "dec_groups_ok False ?ds" using shape ds by simp
  moreover have "filter is_dec ?ds = ?ds" using ds by (simp add: list_all_iff)
  moreover have "hd ?ds \<noteq> CHR ''-''" "hd ?ds \<noteq> CHR ''+''" using shape by (auto simp: is_dec_def)
  ultimately show ?thesis
    using assms(1) keep [OF ds] nat_digits_value [of "nat n"] by (simp add: py_str_int_def py_int_def Let_def)
qed

lemma cli_port_configured:
  assumes "cli_main ho args = Inr (ho', run)" "0 < sr_port run" "sr_port run \<le> 65535"
  shows "configured_http_port ho' = sr_port run"
proof -
  have ho': "ho_env ho' ''PORT'' = Some (py_str_int (sr_port run))"
    using assms(1) by (auto simp: cli_main_def split: if_splits sum.splits)
  have "py_str_int (sr_port run) \<noteq> []"
    using assms(2) nat_digits_shape [of "nat (sr_port run)"] by (auto simp: py_str_int_def)
  with ho' py_int_py_str_int [of "sr_port run"] assms(2,3) show ?thesis by (simp add: configured_http_port_def)
qed

lemma networks_parse:
  "list_all (\<lambda>c. ip_network c \<noteq> None) cidrs \<Longrightarrow>
    \<exists>nets. parse_trusted_proxy_networks cidrs = Inr nets \<and> length nets = length cidrs"
  unfolding parse_trusted_proxy_networks_def
proof (induction cidrs)
  case (Cons c cs)
  then show ?case by (cases "ip_network c") auto
qed simp

lemma normalize_cidr_list_valid:
  "normalize_cidr_list value = Inr cidrs \<Longrightarrow> list_all (\<lambda>c. ip_network c \<noteq> None) cidrs"
  by (auto simp: normalize_cidr_list_def Let_def split: string_list_input.splits if_splits)

definition header_valid :: "string \<Rightarrow> bool" where
  "header_valid h = (h \<noteq> [] \<and> list_all header_name_char h \<and> lower h \<notin> set FORBIDDEN_PROXY_AUTH_HEADERS)"

lemma validate_proxy_header_valid: "validate_proxy_header value = Inr h \<Longrightarrow> header_valid h"
  by (auto simp: validate_proxy_header_def normalize_dashboard_auth_proxy_header_def header_valid_def Let_def
      split: sum.splits if_splits)

lemma default_header_valid: "header_valid ''Remote-User''"
  by code_simp

lemma given_Inr: "given value f d = Inr x \<Longrightarrow> P d \<Longrightarrow> (\<And>v y. f v = Inr y \<Longrightarrow> P y) \<Longrightarrow> P x"
  by (auto simp: given_def split: option.splits)

lemma apply_data_dir_defaults_keeps:
  assumes "\<And>s u. f (s\<lparr>st_database_url := u\<rparr>) = f s" "\<And>s k. f (s\<lparr>st_encryption_key_file := k\<rparr>) = f s"
  shows "f (apply_data_dir_defaults home_dir es s) = f s"
  unfolding apply_data_dir_defaults_def Let_def by (simp add: assms)

lemma apply_data_dir_defaults_fields [simp]:
  "st_firewall_trusted_proxy_cidrs (apply_data_dir_defaults home_dir es s) = st_firewall_trusted_proxy_cidrs s"
  "st_dashboard_auth_proxy_header (apply_data_dir_defaults home_dir es s) = st_dashboard_auth_proxy_header s"
  "st_metrics_port (apply_data_dir_defaults home_dir es s) = st_metrics_port s"
  "st_dashboard_auth_mode (apply_data_dir_defaults home_dir es s) = st_dashboard_auth_mode s"
  "st_firewall_trust_proxy_headers (apply_data_dir_defaults home_dir es s) = st_firewall_trust_proxy_headers s"
  "st_bulkhead_proxy_limit (apply_data_dir_defaults home_dir es s) = st_bulkhead_proxy_limit s"
  "st_bulkhead_proxy_http_limit (apply_data_dir_defaults home_dir es s) = st_bulkhead_proxy_http_limit s"
  by (rule apply_data_dir_defaults_keeps; simp)+

lemma normalize_bulkhead_limits_fields [simp]:
  "st_firewall_trusted_proxy_cidrs (normalize_bulkhead_limits s) = st_firewall_trusted_proxy_cidrs s"
  "st_dashboard_auth_proxy_header (normalize_bulkhead_limits s) = st_dashboard_auth_proxy_header s"
  "st_metrics_port (normalize_bulkhead_limits s) = st_metrics_port s"
  "st_dashboard_auth_mode (normalize_bulkhead_limits s) = st_dashboard_auth_mode s"
  "st_firewall_trust_proxy_headers (normalize_bulkhead_limits s) = st_firewall_trust_proxy_headers s"
  by (simp_all add: normalize_bulkhead_limits_def split: option.split)

lemma field_constraints_paths:
  "field_constraints (s\<lparr>st_database_url := u\<rparr>) = field_constraints s"
  "field_constraints (s\<lparr>st_encryption_key_file := k\<rparr>) = field_constraints s"
  "field_constraints (s\<lparr>st_data_dir := d\<rparr>) = field_constraints s"
  "field_constraints (s\<lparr>st_dashboard_auth_mode := m\<rparr>) = field_constraints s"
  "field_constraints (s\<lparr>st_dashboard_auth_proxy_header := h\<rparr>) = field_constraints s"
  "field_constraints (s\<lparr>st_firewall_trust_proxy_headers := t\<rparr>) = field_constraints s"
  "field_constraints (s\<lparr>st_firewall_trusted_proxy_cidrs := c\<rparr>) = field_constraints s"
  unfolding field_constraints_def by simp_all

lemma apply_data_dir_defaults_constraints [simp]:
  "field_constraints (apply_data_dir_defaults home_dir es s) = field_constraints s"
  by (rule apply_data_dir_defaults_keeps) (simp_all add: field_constraints_paths)

lemma normalize_bulkhead_limits_constraints:
  assumes "field_constraints s"
  shows "field_constraints (normalize_bulkhead_limits s)"
    "\<exists>n. st_bulkhead_proxy_http_limit (normalize_bulkhead_limits s) = Some n \<and> 0 \<le> n"
proof -
  have limits: "0 \<le> st_bulkhead_proxy_limit s" "\<And>n. st_bulkhead_proxy_http_limit s = Some n \<Longrightarrow> 0 \<le> n"
    using assms by (simp_all add: field_constraints_def)
  show "\<exists>n. st_bulkhead_proxy_http_limit (normalize_bulkhead_limits s) = Some n \<and> 0 \<le> n"
    using limits by (cases "st_bulkhead_proxy_http_limit s") (simp_all add: normalize_bulkhead_limits_def)
  show "field_constraints (normalize_bulkhead_limits s)"
  proof (cases "st_bulkhead_proxy_http_limit s")
    case None
    then have eq: "normalize_bulkhead_limits s = s\<lparr>st_bulkhead_proxy_http_limit := Some (st_bulkhead_proxy_limit s)\<rparr>"
      by (simp add: normalize_bulkhead_limits_def)
    show ?thesis using assms unfolding eq field_constraints_def by simp
  next
    case (Some n)
    then have "normalize_bulkhead_limits s = s" by (simp add: normalize_bulkhead_limits_def)
    with assms show ?thesis by simp
  qed
qed

lemma after_validators:
  assumes "field_constraints s" "s' = normalize_bulkhead_limits (apply_data_dir_defaults home_dir es s)"
  shows "field_constraints s'" "\<exists>n. st_bulkhead_proxy_http_limit s' = Some n \<and> 0 \<le> n"
    "st_firewall_trusted_proxy_cidrs s' = st_firewall_trusted_proxy_cidrs s"
    "st_dashboard_auth_proxy_header s' = st_dashboard_auth_proxy_header s"
  using normalize_bulkhead_limits_constraints [of "apply_data_dir_defaults home_dir es s"] assms by simp_all

lemma validate_settings_Inr:
  assumes "validate_settings ho home_dir inp = Inr s"
  obtains s0 cidrs header where
    "given (si_trusted_proxy_cidrs inp) normalize_cidr_list [''127.0.0.1/32'', ''::1/128''] = Inr cidrs"
    "given (si_proxy_header inp) validate_proxy_header ''Remote-User'' = Inr header"
    "field_constraints s0" "st_firewall_trusted_proxy_cidrs s0 = cidrs" "st_dashboard_auth_proxy_header s0 = header"
    "res_bind (validate_metrics_port ho (normalize_bulkhead_limits (apply_data_dir_defaults home_dir (explicitly_set inp) s0)))
        validate_dashboard_auth_mode = Inr s"
proof -
  have d: "st_firewall_trusted_proxy_cidrs (settings_defaults ho home_dir) = [''127.0.0.1/32'', ''::1/128'']"
    "st_dashboard_auth_proxy_header (settings_defaults ho home_dir) = ''Remote-User''"
    by (simp_all add: settings_defaults_def)
  from assms obtain dd u k cidrs header where
    g: "given (si_trusted_proxy_cidrs inp) normalize_cidr_list [''127.0.0.1/32'', ''::1/128''] = Inr cidrs"
      "given (si_proxy_header inp) validate_proxy_header ''Remote-User'' = Inr header"
    and r: "(let s = (si_values inp)\<lparr>st_data_dir := dd, st_database_url := u,
                  st_encryption_key_file := k, st_firewall_trusted_proxy_cidrs := cidrs,
                  st_dashboard_auth_proxy_header := header\<rparr>
        in if \<not> field_constraints s then Inl (InvalidSetting ValueError)
           else res_bind (validate_metrics_port ho
                  (normalize_bulkhead_limits (apply_data_dir_defaults home_dir (explicitly_set inp) s)))
                  validate_dashboard_auth_mode) = Inr s"
    unfolding validate_settings_def Let_def res_bind_eq_Inr d by blast
  show thesis
    by (rule that [OF g, of "(si_values inp)\<lparr>st_data_dir := dd, st_database_url := u, st_encryption_key_file := k,
         st_firewall_trusted_proxy_cidrs := cidrs, st_dashboard_auth_proxy_header := header\<rparr>"])
      (use r in \<open>simp_all add: Let_def split: if_splits\<close>)
qed

text \<open>
  C31: settings that pass validation are well formed: every field is within its bounds, the limit of
  the proxy lane is resolved (the assertion in \<open>create_app\<close> holds), every trusted network parses, the
  trusted header is a legal name and none of the headers that would break a request, the trusted
  header mode has trusted proxies, and the metrics server does not take the port the command line
  starts the server on.
\<close>

theorem settings_well_formed:
  assumes "cli_main ho args = Inr (ho', run)" "0 < sr_port run" "sr_port run \<le> 65535"
    "validate_settings ho' home_dir inp = Inr s"
  shows "field_constraints s \<and> (\<exists>n. st_bulkhead_proxy_http_limit s = Some n \<and> 0 \<le> n) \<and>
    (\<exists>nets. parse_trusted_proxy_networks (st_firewall_trusted_proxy_cidrs s) = Inr nets \<and>
       (st_dashboard_auth_mode s = TRUSTED_HEADER \<longrightarrow> st_firewall_trust_proxy_headers s \<and> nets \<noteq> [])) \<and>
    header_valid (st_dashboard_auth_proxy_header s) \<and>
    st_metrics_port s \<noteq> sr_port run"
proof -
  obtain s0 cidrs header where c: "given (si_trusted_proxy_cidrs inp) normalize_cidr_list [''127.0.0.1/32'', ''::1/128''] = Inr cidrs"
    and h: "given (si_proxy_header inp) validate_proxy_header ''Remote-User'' = Inr header"
    and s0: "field_constraints s0" "st_firewall_trusted_proxy_cidrs s0 = cidrs" "st_dashboard_auth_proxy_header s0 = header"
    and v: "res_bind (validate_metrics_port ho' (normalize_bulkhead_limits (apply_data_dir_defaults home_dir (explicitly_set inp) s0)))
        validate_dashboard_auth_mode = Inr s"
    using validate_settings_Inr [OF assms(4)] .
  from v have s: "s = normalize_bulkhead_limits (apply_data_dir_defaults home_dir (explicitly_set inp) s0)"
    and port: "st_metrics_port s \<noteq> configured_http_port ho'"
    and mode: "st_dashboard_auth_mode s = TRUSTED_HEADER \<longrightarrow>
       st_firewall_trust_proxy_headers s \<and> st_firewall_trusted_proxy_cidrs s \<noteq> []"
    by (auto simp: res_bind_eq_Inr validate_metrics_port_def validate_dashboard_auth_mode_def split: if_splits)
  note after = after_validators [OF s0(1) s]
  have "list_all (\<lambda>c. ip_network c \<noteq> None) cidrs"
    using c by (rule given_Inr) (simp add: ip_network_examples, erule normalize_cidr_list_valid)
  then obtain nets where nets: "parse_trusted_proxy_networks (st_firewall_trusted_proxy_cidrs s) = Inr nets"
    "length nets = length (st_firewall_trusted_proxy_cidrs s)"
    using networks_parse [of cidrs] s0 after by auto
  have "header_valid header"
    using h by (rule given_Inr) (auto simp: default_header_valid validate_proxy_header_valid)
  with nets after s0 mode port cli_port_configured [OF assms(1-3)] show ?thesis by auto
qed

definition sample_host :: host where
  "sample_host = \<lparr>ho_env = (\<lambda>_. None), ho_home = ''/root'', ho_exists = (\<lambda>_. False),
     ho_user_home = (\<lambda>u. if u = ''~'' then Some ''/root'' else None)\<rparr>"

definition sample_args :: cli_args where
  "sample_args = \<lparr>ca_host = ''127.0.0.1'', ca_port = ''8080'', ca_ssl_certfile = None, ca_ssl_keyfile = None,
     ca_timeout_keep_alive = ''7200''\<rparr>"

definition sample_input :: settings_input where
  "sample_input = \<lparr>si_data_dir = Some ''~/data'', si_database_url = None, si_encryption_key_file = None,
     si_trusted_proxy_cidrs = Some (CommaString ''10.0.0.0/8, ::1''), si_proxy_header = Some ''X-User'',
     si_values = (settings_defaults sample_host ''/root/.firecrawl-lb'')
       \<lparr>st_dashboard_auth_mode := TRUSTED_HEADER, st_firewall_trust_proxy_headers := True\<rparr>\<rparr>"

lemma settings_defaults_constraints: "field_constraints (settings_defaults ho home_dir)"
  unfolding field_constraints_def settings_defaults_def settings.simps option.case
  by (intro conjI) simp_all

lemma sample_main:
  "cli_main sample_host sample_args =
     Inr (sample_host\<lparr>ho_env := (ho_env sample_host)(''PORT'' := Some (py_str_int 8080))\<rparr>,
       \<lparr>sr_host = ''127.0.0.1'', sr_port = 8080, sr_ssl_certfile = None, sr_ssl_keyfile = None, sr_timeout_keep_alive = 7200\<rparr>)"
proof -
  have "py_int ''8080'' = Inr 8080" "py_int ''7200'' = Inr 7200" by code_simp+
  then show ?thesis by (simp add: cli_main_def sample_args_def truthy_str_def)
qed

theorem settings_well_formed_witness:
  "\<exists>ho' run s. cli_main sample_host sample_args = Inr (ho', run) \<and>
     validate_settings ho' ''/root/.firecrawl-lb'' sample_input = Inr s \<and>
     st_bulkhead_proxy_http_limit s = Some 512 \<and> st_metrics_port s \<noteq> 8080"
proof -
  obtain ho' run where m: "cli_main sample_host sample_args = Inr (ho', run)" "sr_port run = 8080"
    "ho_user_home ho' = ho_user_home sample_host" using sample_main by simp
  have port: "configured_http_port ho' = 8080" using cli_port_configured [OF m(1)] m(2) by simp
  have c: "normalize_cidr_list (CommaString ''10.0.0.0/8, ::1'') = Inr [''10.0.0.0/8'', ''::1'']"
    "validate_proxy_header ''X-User'' = Inr ''X-User''" by code_simp+
  have e: "expand_data_dir ho' ''~/data'' = Inr ''/root/data''"
  proof -
    have "strip ''~/data'' = ''~/data''" "path_root ''~/data'' = []" "path_parts ''~/data'' = [''~'', ''data'']"
      "path_str (join_with ''/'' (''/root'' # tl [''~'', ''data''])) = ''/root/data''" by code_simp+
    then show ?thesis using m(3) by (simp add: expand_data_dir_def expanduser_def sample_host_def Let_def)
  qed
  let ?raw = "(settings_defaults sample_host ''/root/.firecrawl-lb'')
    \<lparr>st_dashboard_auth_mode := TRUSTED_HEADER, st_firewall_trust_proxy_headers := True, st_data_dir := ''/root/data'',
     st_firewall_trusted_proxy_cidrs := [''10.0.0.0/8'', ''::1''], st_dashboard_auth_proxy_header := ''X-User''\<rparr>"
  let ?s = "normalize_bulkhead_limits (apply_data_dir_defaults ''/root/.firecrawl-lb'' {} ?raw)"
  have fc: "field_constraints ?raw" by (simp only: field_constraints_paths settings_defaults_constraints)
  have after: "st_metrics_port ?s = 9090" "st_bulkhead_proxy_http_limit ?s = Some 512"
    "validate_dashboard_auth_mode ?s = Inr ?s"
    by (simp add: settings_defaults_def, simp add: normalize_bulkhead_limits_def settings_defaults_def,
        simp add: validate_dashboard_auth_mode_def)
  have input: "(si_values sample_input)\<lparr>st_data_dir := ''/root/data'',
      st_database_url := st_database_url (settings_defaults ho' ''/root/.firecrawl-lb''),
      st_encryption_key_file := st_encryption_key_file (settings_defaults ho' ''/root/.firecrawl-lb''),
      st_firewall_trusted_proxy_cidrs := [''10.0.0.0/8'', ''::1''], st_dashboard_auth_proxy_header := ''X-User''\<rparr> = ?raw"
    "explicitly_set sample_input = {}"
    unfolding sample_input_def settings_defaults_def explicitly_set_def by simp_all
  have g: "given (si_data_dir sample_input) (expand_data_dir ho') d = Inr ''/root/data''"
    "given (si_database_url sample_input) f u = Inr u" "given (si_encryption_key_file sample_input) f k = Inr k"
    "given (si_trusted_proxy_cidrs sample_input) normalize_cidr_list l = Inr [''10.0.0.0/8'', ''::1'']"
    "given (si_proxy_header sample_input) validate_proxy_header h = Inr ''X-User''" for d f u k l h
    by (simp_all add: given_def sample_input_def c e)
  have s: "validate_settings ho' ''/root/.firecrawl-lb'' sample_input = Inr ?s"
    unfolding validate_settings_def Let_def g res_bind_simps input
    using fc port after by (simp only: validate_metrics_port_def res_bind_simps) simp
  with settings_well_formed [OF m(1) _ _ s] m after(2) show ?thesis by auto
qed

end
