(* ===== verification/RequestBody.thy ===== *)
theory RequestBody
  imports ErrorHandlers
begin

text \<open>
  The middlewares around a request body and its headers: decompression with a size limit
  (\<open>src/app/core/middleware/request_decompression.py\<close>), the request identifier
  (\<open>request_id.py\<close> and \<open>src/app/core/utils/request_id.py\<close>) and the version header
  (\<open>app_version.py\<close>). The decompressors are parameters: a reader gives the next piece of output of at
  most the asked size, \<open>zlib\<close>'s decompressor gives its new state, the output and the unconsumed
  input. The loops of the deflate routine end only because of what \<open>zlib\<close> promises, so they are
  partial functions whose value \<open>None\<close> is a run that does not end.
\<close>

section \<open>Decompression\<close>

datatype body_exc = DecompressedBodyTooLarge int | BodyValueError | BodyError

record ('r, 'z) codecs =
  co_gzip_open :: "string \<Rightarrow> 'r"
  co_zstd_open :: "string \<Rightarrow> 'r"
  co_read :: "'r \<Rightarrow> int \<Rightarrow> body_exc + (string \<times> 'r)"
  co_zstd_decompress :: "string \<Rightarrow> int \<Rightarrow> body_exc + string"
  co_inflate_open :: 'z
  co_inflate :: "'z \<Rightarrow> string \<Rightarrow> int \<Rightarrow> body_exc + ('z \<times> string \<times> string)"
  co_inflate_eof :: "'z \<Rightarrow> bool"

definition CHUNK_SIZE :: int where "CHUNK_SIZE = 64 * 1024"

abbreviation len :: "'a list \<Rightarrow> int" where
  "len xs \<equiv> int (length xs)"

text \<open>
  The loop of \<open>_read_limited\<close>. It ends whatever the reader does: a piece that is not empty brings
  the total closer to the limit, and the limit ends the loop.
\<close>

function read_limited ::
  "('r \<Rightarrow> int \<Rightarrow> body_exc + (string \<times> 'r)) \<Rightarrow> int \<Rightarrow> 'r \<Rightarrow> int \<Rightarrow> string \<Rightarrow> body_exc + string" where
  "read_limited read max_size reader seen buffer =
     (case read reader CHUNK_SIZE of
        Inl e \<Rightarrow> Inl e
      | Inr (chunk, reader') \<Rightarrow>
          if chunk = [] then Inr buffer
          else if max_size < seen + len chunk then Inl (DecompressedBodyTooLarge max_size)
          else read_limited read max_size reader' (seen + len chunk) (buffer @ chunk))"
  by pat_completeness auto
termination
  by (relation "measure (\<lambda>(read, max_size, reader, seen, buffer). nat (max_size + 1 - seen))")
     (auto simp flip: length_greater_0_conv)

declare read_limited.simps [simp del]

definition decompress_gzip :: "('r, 'z) codecs \<Rightarrow> string \<Rightarrow> int \<Rightarrow> body_exc + string" where
  "decompress_gzip c data max_size = read_limited (co_read c) max_size (co_gzip_open c data) 0 []"

partial_function (option) inflate_chunk ::
  "('z \<Rightarrow> string \<Rightarrow> int \<Rightarrow> body_exc + ('z \<times> string \<times> string)) \<Rightarrow> int \<Rightarrow> string \<Rightarrow> 'z \<Rightarrow> string
   \<Rightarrow> (body_exc + ('z \<times> string)) option" where
  "inflate_chunk inflate max_size chunk z buffer =
     (if chunk = [] then Some (Inr (z, buffer))
      else let remaining = max_size - len buffer
           in if remaining = 0 then Some (Inl (DecompressedBodyTooLarge max_size))
              else let r = inflate z chunk remaining
                   in if isl r then Some (Inl (projl r))
                      else inflate_chunk inflate max_size (snd (snd (projr r))) (fst (projr r)) (buffer @ fst (snd (projr r))))"

text \<open>\<open>for start in range(0, len(data), chunk_size)\<close>: the pieces of the input.\<close>

function pieces :: "string \<Rightarrow> string list" where
  "pieces data = (if data = [] then [] else take (nat CHUNK_SIZE) data # pieces (drop (nat CHUNK_SIZE) data))"
  by pat_completeness auto
termination
  by (relation "measure length") (auto simp: CHUNK_SIZE_def)

declare pieces.simps [simp del]

fun inflate_chunks ::
  "('z \<Rightarrow> string \<Rightarrow> int \<Rightarrow> body_exc + ('z \<times> string \<times> string)) \<Rightarrow> int \<Rightarrow> string list \<Rightarrow> 'z \<Rightarrow> string
   \<Rightarrow> (body_exc + ('z \<times> string)) option" where
  "inflate_chunks inflate max_size [] z buffer = Some (Inr (z, buffer))"
| "inflate_chunks inflate max_size (chunk # chunks) z buffer =
     (case inflate_chunk inflate max_size chunk z buffer of
        None \<Rightarrow> None
      | Some (Inl e) \<Rightarrow> Some (Inl e)
      | Some (Inr (z', buffer')) \<Rightarrow> inflate_chunks inflate max_size chunks z' buffer')"

partial_function (option) inflate_drain ::
  "('z \<Rightarrow> string \<Rightarrow> int \<Rightarrow> body_exc + ('z \<times> string \<times> string)) \<Rightarrow> int \<Rightarrow> 'z \<Rightarrow> string
   \<Rightarrow> (body_exc + ('z \<times> string)) option" where
  "inflate_drain inflate max_size z buffer =
     (let remaining = max_size - len buffer
      in if remaining = 0 then Some (Inl (DecompressedBodyTooLarge max_size))
         else let r = inflate z [] remaining
              in if isl r then Some (Inl (projl r))
                 else if fst (snd (projr r)) = [] then Some (Inr (fst (projr r), buffer))
                 else inflate_drain inflate max_size (fst (projr r)) (buffer @ fst (snd (projr r))))"

definition decompress_deflate :: "('r, 'z) codecs \<Rightarrow> string \<Rightarrow> int \<Rightarrow> (body_exc + string) option" where
  "decompress_deflate c data max_size =
     (case inflate_chunks (co_inflate c) max_size (pieces data) (co_inflate_open c) [] of
        None \<Rightarrow> None
      | Some (Inl e) \<Rightarrow> Some (Inl e)
      | Some (Inr (z, buffer)) \<Rightarrow>
          (case inflate_drain (co_inflate c) max_size z buffer of
             None \<Rightarrow> None
           | Some (Inl e) \<Rightarrow> Some (Inl e)
           | Some (Inr (z', buffer')) \<Rightarrow>
               if co_inflate_eof c z' then Some (Inr buffer') else Some (Inl BodyError)))"

definition decompress_zstd :: "('r, 'z) codecs \<Rightarrow> string \<Rightarrow> int \<Rightarrow> body_exc + string" where
  "decompress_zstd c data max_size =
     (case co_zstd_decompress c data max_size of
        Inr decompressed \<Rightarrow>
          if max_size < len decompressed then Inl (DecompressedBodyTooLarge max_size) else Inr decompressed
      | Inl (DecompressedBodyTooLarge m) \<Rightarrow> Inl (DecompressedBodyTooLarge m)
      | Inl _ \<Rightarrow> read_limited (co_read c) max_size (co_zstd_open c data) 0 [])"

fun decompress_steps :: "('r, 'z) codecs \<Rightarrow> int \<Rightarrow> string list \<Rightarrow> string \<Rightarrow> (body_exc + string) option" where
  "decompress_steps c max_size [] result = Some (Inr result)"
| "decompress_steps c max_size (encoding # encodings) result =
     (case (if encoding = ''zstd'' then Some (decompress_zstd c result max_size)
            else if encoding = ''gzip'' then Some (decompress_gzip c result max_size)
            else if encoding = ''deflate'' then decompress_deflate c result max_size
            else Some (Inr result)) of
        None \<Rightarrow> None
      | Some (Inl e) \<Rightarrow> Some (Inl e)
      | Some (Inr r) \<Rightarrow> decompress_steps c max_size encodings r)"

definition decompress_body :: "('r, 'z) codecs \<Rightarrow> string \<Rightarrow> string list \<Rightarrow> int \<Rightarrow> (body_exc + string) option" where
  "decompress_body c data encodings max_size =
     (if list_ex (\<lambda>e. e \<notin> {''zstd'', ''gzip'', ''deflate'', ''identity''}) encodings then Some (Inl BodyValueError)
      else decompress_steps c max_size (rev encodings) data)"

section \<open>The middleware\<close>

record body_request =
  br_path :: string
  br_headers :: "(string \<times> string) list"
  br_body :: string

definition replace_request_body :: "body_request \<Rightarrow> string \<Rightarrow> body_request" where
  "replace_request_body req body =
     req\<lparr>br_body := body,
       br_headers := filter (\<lambda>(k, v). lower k \<notin> {''content-encoding'', ''content-length''}) (br_headers req) @
         [(''content-length'', py_str_int (len body))]\<rparr>"

definition rstrip_slash :: "string \<Rightarrow> string" where
  "rstrip_slash path = rev (dropWhile ((=) CHR ''/'') (rev path))"

definition max_decompressed_body_bytes_for_request :: "int \<Rightarrow> int \<Rightarrow> body_request \<Rightarrow> int" where
  "max_decompressed_body_bytes_for_request max_body max_responses req =
     (if startswith (rstrip_slash (br_path req)) ''/v2/'' then max max_body max_responses else max_body)"

datatype body_reply = NextCalled body_request | BodyRejected int json

definition request_decompression :: "('r, 'z) codecs \<Rightarrow> int \<Rightarrow> int \<Rightarrow> body_request \<Rightarrow> body_reply option" where
  "request_decompression c max_body max_responses req =
     (case map_of (map (\<lambda>(k, v). (lower k, v)) (br_headers req)) ''content-encoding'' of
        None \<Rightarrow> Some (NextCalled req)
      | Some content_encoding \<Rightarrow>
          let encodings = map (\<lambda>e. lower (strip e)) (filter (\<lambda>e. strip e \<noteq> []) (split_on (CHR '','') content_encoding));
              max_size = max_decompressed_body_bytes_for_request max_body max_responses req
          in if encodings = [] then Some (NextCalled req)
             else (case decompress_body c (br_body req) encodings max_size of
                     None \<Rightarrow> None
                   | Some (Inl (DecompressedBodyTooLarge _)) \<Rightarrow>
                       Some (BodyRejected 413 (dashboard_error ''payload_too_large'' ''Request body exceeds the maximum allowed size''))
                   | Some (Inl BodyValueError) \<Rightarrow>
                       Some (BodyRejected 400 (dashboard_error ''invalid_request'' ''Unsupported Content-Encoding''))
                   | Some (Inl BodyError) \<Rightarrow>
                       Some (BodyRejected 400 (dashboard_error ''invalid_request''
                         ''Request body is compressed but could not be decompressed''))
                   | Some (Inr decompressed) \<Rightarrow> Some (NextCalled (replace_request_body req decompressed))))"

section \<open>Size and termination\<close>

lemma read_limited_bound:
  assumes "read_limited read max_size reader seen buffer = Inr body" "seen = len buffer" "len buffer \<le> max_size"
  shows "len body \<le> max_size"
  using assms
proof (induction read max_size reader seen buffer rule: read_limited.induct)
  case (1 read max_size reader seen buffer)
  from "1.prems"(1) show ?case
    using "1.IH" "1.prems"(2,3)
    by (subst (asm) read_limited.simps) (auto split: sum.splits prod.splits if_splits)
qed

text \<open>
  What \<open>zlib\<close> documents of a decompressor with a positive limit: the output respects the limit,
  and input is left over only when the limit was reached.
\<close>

definition inflate_contract :: "('z \<Rightarrow> string \<Rightarrow> int \<Rightarrow> body_exc + ('z \<times> string \<times> string)) \<Rightarrow> bool" where
  "inflate_contract inflate = (\<forall>z data limit z' out rest. 0 < limit \<longrightarrow> inflate z data limit = Inr (z', out, rest) \<longrightarrow>
     len out \<le> limit \<and> (rest \<noteq> [] \<longrightarrow> len out = limit))"

lemma inflate_chunk_returns:
  assumes "inflate_contract inflate" "len buffer \<le> max_size"
  shows "\<exists>r. inflate_chunk inflate max_size chunk z buffer = Some r \<and>
    (\<forall>z' buffer'. r = Inr (z', buffer') \<longrightarrow> len buffer' \<le> max_size)"
proof -
  have at_limit: "\<exists>r. inflate_chunk inflate max_size rest z' b = Some r \<and> (\<forall>z'' b'. r = Inr (z'', b') \<longrightarrow> len b' \<le> max_size)"
    if "len b \<le> max_size" "rest \<noteq> [] \<longrightarrow> len b = max_size" for rest z' b
    using that by (subst inflate_chunk.simps) auto
  show ?thesis
  proof (cases "chunk = [] \<or> len buffer = max_size")
    case True
    with assms(2) show ?thesis by (intro at_limit) auto
  next
    case False
    then have rem: "0 < max_size - len buffer" using assms(2) by auto
    show ?thesis
    proof (cases "inflate z chunk (max_size - len buffer)")
      case (Inl e)
      with False rem show ?thesis by (subst inflate_chunk.simps) simp
    next
      case (Inr t)
      obtain z' out rest where t: "t = (z', out, rest)" by (cases t) auto
      with Inr assms(1) rem have "len out \<le> max_size - len buffer \<and> (rest \<noteq> [] \<longrightarrow> len out = max_size - len buffer)"
        unfolding inflate_contract_def by blast
      then have "len (buffer @ out) \<le> max_size" "rest \<noteq> [] \<longrightarrow> len (buffer @ out) = max_size" by auto
      from at_limit [OF this] False rem Inr t show ?thesis by (subst inflate_chunk.simps) simp
    qed
  qed
qed

lemma inflate_chunks_returns:
  assumes "inflate_contract inflate" "len buffer \<le> max_size"
  shows "\<exists>r. inflate_chunks inflate max_size chunks z buffer = Some r \<and>
    (\<forall>z' buffer'. r = Inr (z', buffer') \<longrightarrow> len buffer' \<le> max_size)"
  using assms(2)
proof (induction chunks arbitrary: z buffer)
  case (Cons chunk chunks)
  from inflate_chunk_returns [OF assms(1) Cons.prems, of chunk z]
  obtain r where r: "inflate_chunk inflate max_size chunk z buffer = Some r"
    "\<forall>z' buffer'. r = Inr (z', buffer') \<longrightarrow> len buffer' \<le> max_size" by blast
  show ?case
  proof (cases r)
    case (Inr p)
    with r Cons.IH show ?thesis by (cases p) auto
  qed (use r in auto)
qed simp

lemma inflate_drain_returns:
  assumes "inflate_contract inflate" "len buffer \<le> max_size"
  shows "\<exists>r. inflate_drain inflate max_size z buffer = Some r \<and>
    (\<forall>z' buffer'. r = Inr (z', buffer') \<longrightarrow> len buffer' < max_size)"
  using assms(2)
proof (induction "nat (max_size - len buffer)" arbitrary: z buffer rule: less_induct)
  case less
  show ?case
  proof (cases "max_size - len buffer = 0")
    case True
    then show ?thesis by (subst inflate_drain.simps) simp
  next
    case False
    then have rem: "0 < max_size - len buffer" using less.prems by auto
    show ?thesis
    proof (cases "inflate z [] (max_size - len buffer)")
      case (Inl e)
      with False show ?thesis by (subst inflate_drain.simps) simp
    next
      case (Inr t)
      obtain z' out rest where t: "t = (z', out, rest)" by (cases t) auto
      with Inr assms(1) rem have out: "len out \<le> max_size - len buffer" unfolding inflate_contract_def by blast
      show ?thesis
      proof (cases "out = []")
        case True
        with False rem Inr t show ?thesis by (subst inflate_drain.simps) simp
      next
        case nonempty: False
        then have "nat (max_size - len (buffer @ out)) < nat (max_size - len buffer)" "len (buffer @ out) \<le> max_size"
          using rem out by (auto simp flip: length_greater_0_conv)
        from less.hyps [OF this] False rem Inr t nonempty show ?thesis by (subst inflate_drain.simps) simp
      qed
    qed
  qed
qed

lemma decompress_deflate_returns:
  assumes "inflate_contract (co_inflate c)" "0 \<le> max_size"
  shows "\<exists>r. decompress_deflate c data max_size = Some r \<and> (\<forall>body. r = Inr body \<longrightarrow> len body < max_size)"
proof -
  obtain r where r: "inflate_chunks (co_inflate c) max_size (pieces data) (co_inflate_open c) [] = Some r"
    "\<forall>z' buffer'. r = Inr (z', buffer') \<longrightarrow> len buffer' \<le> max_size"
    using inflate_chunks_returns [OF assms(1), of "[]" max_size] assms(2) by fastforce
  show ?thesis
  proof (cases r)
    case (Inr p)
    obtain z buffer where p: "p = (z, buffer)" by force
    obtain r' where r': "inflate_drain (co_inflate c) max_size z buffer = Some r'"
      "\<forall>z' buffer'. r' = Inr (z', buffer') \<longrightarrow> len buffer' < max_size"
      using inflate_drain_returns [OF assms(1), of buffer max_size z] r(2) Inr p by blast
    then show ?thesis using r Inr p by (cases r') (auto simp: decompress_deflate_def split: prod.split)
  qed (use r in \<open>simp add: decompress_deflate_def\<close>)
qed

lemma decompress_steps_returns:
  assumes "inflate_contract (co_inflate c)" "0 \<le> max_size"
  shows "\<exists>r. decompress_steps c max_size encodings result = Some r \<and>
    (\<forall>body. r = Inr body \<longrightarrow> body = result \<or> len body \<le> max_size)"
proof (induction encodings arbitrary: result)
  case (Cons e encodings)
  let ?step = "if e = ''zstd'' then Some (decompress_zstd c result max_size)
    else if e = ''gzip'' then Some (decompress_gzip c result max_size)
    else if e = ''deflate'' then decompress_deflate c result max_size else Some (Inr result)"
  have reader: "read_limited (co_read c) max_size r 0 [] = Inr body \<Longrightarrow> len body \<le> max_size" for r body
    using read_limited_bound [of "co_read c" max_size r 0 "[]" body] assms(2) by simp
  have "\<exists>r. ?step = Some r \<and> (\<forall>body. r = Inr body \<longrightarrow> body = result \<or> len body \<le> max_size)"
  proof -
    have "decompress_zstd c result max_size = Inr body \<Longrightarrow> len body \<le> max_size" for body
      using reader by (auto simp: decompress_zstd_def split: sum.splits body_exc.splits if_splits)
    moreover have "decompress_gzip c result max_size = Inr body \<Longrightarrow> len body \<le> max_size" for body
      using reader by (simp add: decompress_gzip_def)
    ultimately show ?thesis using decompress_deflate_returns [OF assms, of result] by (auto dest: less_imp_le)
  qed
  then obtain r where r: "?step = Some r" "\<forall>body. r = Inr body \<longrightarrow> body = result \<or> len body \<le> max_size" by blast
  show ?case
  proof (cases r)
    case (Inl x)
    with r(1) have "decompress_steps c max_size (e # encodings) result = Some (Inl x)"
      by (simp only: decompress_steps.simps option.case sum.case)
    then show ?thesis by simp
  next
    case (Inr body)
    with r(1) have eq: "decompress_steps c max_size (e # encodings) result = decompress_steps c max_size encodings body"
      by (simp only: decompress_steps.simps option.case sum.case)
    from Cons.IH [of body] r(2) Inr show ?thesis unfolding eq by fastforce
  qed
qed simp

lemma decompression_returns:
  assumes "inflate_contract (co_inflate c)" "0 \<le> max_body"
  shows "\<exists>reply. request_decompression c max_body max_responses req = Some reply \<and>
    (\<forall>req'. reply = NextCalled req' \<longrightarrow> req' = req \<or>
      (br_body req' = br_body req \<or> len (br_body req') \<le> max_decompressed_body_bytes_for_request max_body max_responses req) \<and>
      (''content-length'', py_str_int (len (br_body req'))) \<in> set (br_headers req') \<and>
      (\<forall>(k, v)\<in>set (br_headers req'). lower k = ''content-length'' \<longrightarrow> v = py_str_int (len (br_body req'))))"
proof -
  let ?max = "max_decompressed_body_bytes_for_request max_body max_responses req"
  have max: "0 \<le> ?max" using assms(2) by (auto simp: max_decompressed_body_bytes_for_request_def)
  have body: "\<exists>r. decompress_body c (br_body req) encodings ?max = Some r \<and>
      (\<forall>b. r = Inr b \<longrightarrow> b = br_body req \<or> len b \<le> ?max)" for encodings
    using decompress_steps_returns [OF assms(1) max] by (simp add: decompress_body_def)
  show ?thesis
  proof (cases "map_of (map (\<lambda>(k, v). (lower k, v)) (br_headers req)) ''content-encoding''")
    case None
    then show ?thesis by (simp add: request_decompression_def)
  next
    case (Some ce)
    let ?encs = "map (\<lambda>e. lower (strip e)) (filter (\<lambda>e. strip e \<noteq> []) (split_on (CHR '','') ce))"
    obtain r where r: "decompress_body c (br_body req) ?encs ?max = Some r"
      "\<forall>b. r = Inr b \<longrightarrow> b = br_body req \<or> len b \<le> ?max" using body by blast
    show ?thesis
    proof (cases r)
      case (Inl e)
      with Some r(1) show ?thesis by (cases e) (simp_all add: request_decompression_def Let_def)
    next
      case (Inr b)
      with Some r show ?thesis by (auto simp: request_decompression_def Let_def replace_request_body_def)
    qed
  qed
qed

lemma decompression_bound:
  assumes "inflate_contract (co_inflate c)" "0 \<le> max_body"
    "request_decompression c max_body max_responses req = Some (NextCalled req')"
  shows "br_body req' = br_body req \<or> len (br_body req') \<le> max_decompressed_body_bytes_for_request max_body max_responses req"
  using decompression_returns [OF assms(1,2), of max_responses req] assms(3) by auto


text \<open>
  The limit is exclusive for deflate and inclusive for gzip: of two bodies that decompress to
  exactly the limit, the deflate one is rejected.
\<close>

lemma deflate_limit_exclusive:
  assumes "inflate_contract (co_inflate c)" "0 \<le> max_size" "decompress_deflate c data max_size = Some (Inr body)"
  shows "len body < max_size"
  using decompress_deflate_returns [OF assms(1,2), of data] assms(3) by auto

text \<open>Codecs that store the data as it is.\<close>

definition stored_codecs :: "(string, unit) codecs" where
  "stored_codecs =
     \<lparr>co_gzip_open = id, co_zstd_open = id, co_read = (\<lambda>r n. Inr (take (nat n) r, drop (nat n) r)),
      co_zstd_decompress = (\<lambda>data n. Inr data), co_inflate_open = (),
      co_inflate = (\<lambda>z data n. Inr (z, take (nat n) data, drop (nat n) data)), co_inflate_eof = (\<lambda>z. True)\<rparr>"

lemma stored_contract: "inflate_contract (co_inflate stored_codecs)"
  by (auto simp: inflate_contract_def stored_codecs_def)

lemma gzip_limit_inclusive: "decompress_gzip stored_codecs ''abc'' 3 = Inr ''abc''"
  by (simp add: decompress_gzip_def stored_codecs_def read_limited.simps CHUNK_SIZE_def)

definition sample_gzip_request :: body_request where
  "sample_gzip_request = \<lparr>br_path = ''/api/x'', br_headers = [(''Content-Encoding'', ''gzip'')], br_body = ''abc''\<rparr>"

lemma sample_gzip_reply:
  "request_decompression stored_codecs 3 3 sample_gzip_request =
     Some (NextCalled (replace_request_body sample_gzip_request ''abc''))"
proof -
  have enc: "map (\<lambda>e. lower (strip e)) (filter (\<lambda>e. strip e \<noteq> []) (split_on (CHR '','') ''gzip'')) = [''gzip'']"
    "lower ''Content-Encoding'' = ''content-encoding''" by code_simp+
  have max: "max_decompressed_body_bytes_for_request 3 3 sample_gzip_request = 3"
    by (simp add: max_decompressed_body_bytes_for_request_def)
  have "decompress_body stored_codecs ''abc'' [''gzip''] 3 = Some (Inr ''abc'')"
    by (simp add: decompress_body_def gzip_limit_inclusive)
  with enc max show ?thesis
    unfolding request_decompression_def by (simp add: Let_def sample_gzip_request_def)
qed


section \<open>Request identifier and version header\<close>

text \<open>\<open>response.headers.setdefault\<close> on a case-insensitive header list.\<close>

definition header_setdefault :: "string \<Rightarrow> string \<Rightarrow> (string \<times> string) list \<Rightarrow> (string \<times> string) list" where
  "header_setdefault name value headers =
     (if list_ex (\<lambda>(k, v). lower k = lower name) headers then headers else headers @ [(lower name, value)])"

definition first_nonempty :: "string option list \<Rightarrow> string option" where
  "first_nonempty xs = find (\<lambda>s. s \<noteq> []) (List.map_filter id xs)"

text \<open>
  The middleware sets the context variable for the application and resets it; \<open>app\<close> is the wrapped
  application: from the context identifier to its response headers or an exception.
\<close>

definition request_id_middleware ::
  "string \<Rightarrow> (string \<times> string) list \<Rightarrow> (string option \<Rightarrow> 'e + (string \<times> string) list) \<Rightarrow> string option
   \<Rightarrow> string option \<times> ('e + (string \<times> string) list)" where
  "request_id_middleware uuid headers app context =
     (let request_id = (case first_nonempty [map_of headers ''x-request-id'', map_of headers ''request-id''] of
                          Some r \<Rightarrow> r | None \<Rightarrow> uuid)
      in (context, map_sum id (header_setdefault ''x-request-id'' request_id) (app (Some request_id))))"

definition ensure_request_id :: "string \<Rightarrow> string option \<Rightarrow> string option \<Rightarrow> string option \<times> string" where
  "ensure_request_id uuid value context =
     (case first_nonempty [value] of
        Some v \<Rightarrow> (Some v, v)
      | None \<Rightarrow> (case first_nonempty [context] of Some c \<Rightarrow> (context, c) | None \<Rightarrow> (Some uuid, uuid)))"

definition app_version_middleware :: "string \<Rightarrow> int \<Rightarrow> (string \<times> string) list \<Rightarrow> (string \<times> string) list" where
  "app_version_middleware version status headers =
     (if 200 \<le> status \<and> status < 500 then header_setdefault ''X-App-Version'' version headers else headers)"

text \<open>The identifier the application runs under is the one the client can read in the response.\<close>

lemma request_id_visible:
  assumes "uuid \<noteq> []" "\<And>i. app (Some i) = Inr (response i)" "\<And>i. \<not> list_ex (\<lambda>(k, v). lower k = ''x-request-id'') (response i)"
  shows "\<exists>i. i \<noteq> [] \<and> request_id_middleware uuid headers app context = (context, Inr (response i @ [(''x-request-id'', i)]))"
proof -
  have low: "lower ''x-request-id'' = ''x-request-id''" by code_simp
  let ?i = "case first_nonempty [map_of headers ''x-request-id'', map_of headers ''request-id''] of Some r \<Rightarrow> r | None \<Rightarrow> uuid"
  have "?i \<noteq> []" using assms(1) by (auto simp: first_nonempty_def find_Some_iff split: option.split)
  moreover have "request_id_middleware uuid headers app context = (context, Inr (response ?i @ [(''x-request-id'', ?i)]))"
    using assms(2,3) by (simp add: request_id_middleware_def header_setdefault_def low Let_def)
  ultimately show ?thesis by blast
qed

end
