(* ===== verification/Application.thy ===== *)
theory Application
  imports Config RequestBody Admission Firewall
begin

text \<open>
  The application as \<open>create_app\<close> of \<open>src/app/main.py\<close> puts it together: the middleware stack and
  the health and drain routes (\<open>src/app/modules/health/api.py\<close>). Starlette runs the middleware
  that was added last first, so a request passes the bulkhead, backpressure, the API firewall, the
  request identifier, the decompression, the header sanitizer and the in-flight counter, in this
  order, before a route sees it. The version header, the metrics and the request identifier only
  touch the response and are left out here.
\<close>

section \<open>The application\<close>

record http_request =
  hr_scope :: request_scope
  hr_connection :: connection
  hr_body :: string

record app_state =
  as_bulkhead :: bulkhead
  as_backpressure :: "nat option"
  as_firewall :: firewall_cache
  as_shutdown :: shutdown_state

record app_config =
  ac_firewall :: firewall_settings
  ac_auth :: app_settings
  ac_max_body :: int
  ac_max_responses :: int

text \<open>\<open>None\<close>: the construction raises.\<close>

definition create_app :: "settings \<Rightarrow> (app_config \<times> app_state) option" where
  "create_app s =
     (case parse_trusted_proxy_networks (st_firewall_trusted_proxy_cidrs s) of
        Inl _ \<Rightarrow> None
      | Inr networks \<Rightarrow>
          (case (st_bulkhead_proxy_http_limit s, new_firewall_cache (of_int (st_firewall_ip_cache_ttl_seconds s))) of
             (Some proxy_http_limit, Inr cache) \<Rightarrow>
               let fs = \<lparr>fs_trust_proxy_headers = st_firewall_trust_proxy_headers s, fs_trusted_networks = networks\<rparr>
               in Some (\<lparr>ac_firewall = fs,
                    ac_auth = \<lparr>ap_auth_mode = st_dashboard_auth_mode s, ap_proxy_header = st_dashboard_auth_proxy_header s,
                      ap_bootstrap_token = st_dashboard_bootstrap_token s, ap_firewall = fs\<rparr>,
                    ac_max_body = st_max_decompressed_body_bytes s,
                    ac_max_responses = st_max_decompressed_responses_body_bytes s\<rparr>,
                  \<lparr>as_bulkhead = new_bulkhead None (st_bulkhead_dashboard_limit s) 10 (Some proxy_http_limit),
                   as_backpressure = (if 0 < st_backpressure_max_concurrent_requests s
                     then Some (nat (st_backpressure_max_concurrent_requests s)) else None),
                   as_firewall = cache,
                   as_shutdown = shutdown_reset\<rparr>)
           | _ \<Rightarrow> None))"

section \<open>A request on its way\<close>

text \<open>The slots a request holds; \<open>fl_pressure\<close> is the memory pressure it was admitted under.\<close>

record flight =
  fl_request :: http_request
  fl_pressure :: bool
  fl_bulkhead :: bool
  fl_backpressure :: bool
  fl_counted :: bool
  fl_seen :: "http_request option"

text \<open>The outer gates: there is no \<open>await\<close> between them.\<close>

definition leave_bulkhead :: "bool \<Rightarrow> http_request \<Rightarrow> app_state \<Rightarrow> app_state" where
  "leave_bulkhead held r st = (if held then st\<lparr>as_bulkhead := bulkhead_leave (hr_scope r) (as_bulkhead st)\<rparr> else st)"

definition enter_gates :: "bool \<Rightarrow> http_request \<Rightarrow> app_state \<Rightarrow> app_state \<times> (asgi_message list + flight)" where
  "enter_gates pressure r st =
     (case bulkhead_arrive pressure (hr_scope r) (as_bulkhead st) of
        (b, Rejected ms) \<Rightarrow> (st, Inl ms)
      | (b, d) \<Rightarrow>
          let st = st\<lparr>as_bulkhead := b\<rparr>;
              fli = \<lparr>fl_request = r, fl_pressure = pressure, fl_bulkhead = (d = Admitted), fl_backpressure = False,
                    fl_counted = False, fl_seen = None\<rparr>
          in (case as_backpressure st of
                None \<Rightarrow> (st, Inr fli)
              | Some sem \<Rightarrow>
                  (case backpressure_arrive (hr_scope r) sem of
                     (sem', Rejected ms) \<Rightarrow> (leave_bulkhead (d = Admitted) r st, Inl ms)
                   | (sem', d') \<Rightarrow> (st\<lparr>as_backpressure := Some sem'\<rparr>, Inr (fli\<lparr>fl_backpressure := (d' = Admitted)\<rparr>)))))"

definition leave_gates :: "flight \<Rightarrow> app_state \<Rightarrow> app_state" where
  "leave_gates fli st =
     leave_bulkhead (fl_bulkhead fli) (fl_request fli)
       (if fl_backpressure fli
        then st\<lparr>as_backpressure := map_option backpressure_leave (as_backpressure st)\<rparr> else st)"

text \<open>The inner layers of an HTTP request, down to the route.\<close>

datatype answer = Answer int json | InnerReject "asgi_message list" | Hangs

definition with_body :: "http_request \<Rightarrow> body_request \<Rightarrow> http_request" where
  "with_body r br =
     r\<lparr>hr_body := br_body br, hr_connection := (hr_connection r)\<lparr>cn_headers := br_headers br\<rparr>\<rparr>"

definition body_of :: "http_request \<Rightarrow> body_request" where
  "body_of r = \<lparr>br_path = rs_path (hr_scope r), br_headers = cn_headers (hr_connection r), br_body = hr_body r\<rparr>"

definition firewall_layer ::
  "app_config \<Rightarrow> rat \<Rightarrow> allowlist_row list \<Rightarrow> http_request \<Rightarrow> firewall_cache \<Rightarrow> firewall_cache \<times> firewall_reply" where
  "firewall_layer cfg now rows r c =
     api_firewall now rows (rs_path (hr_scope r))
       (firewall_client_ip (fs_trust_proxy_headers (ac_firewall cfg)) (fs_trusted_networks (ac_firewall cfg))
          (cn_headers (hr_connection r)) (cn_client_host (hr_connection r))) c"

definition body_layers :: "('r, 'z) codecs \<Rightarrow> app_config \<Rightarrow> http_request \<Rightarrow> answer + http_request" where
  "body_layers co cfg r =
     (case request_decompression co (ac_max_body cfg) (ac_max_responses cfg) (body_of r) of
        None \<Rightarrow> Inl Hangs
      | Some (BodyRejected status payload) \<Rightarrow> Inl (Answer status payload)
      | Some (NextCalled br) \<Rightarrow>
          let r = with_body r br in Inr (r\<lparr>hr_connection := sanitize_headers (ac_auth cfg) (hr_connection r)\<rparr>))"

definition enter_layers ::
  "('r, 'z) codecs \<Rightarrow> app_config \<Rightarrow> rat \<Rightarrow> allowlist_row list \<Rightarrow> flight \<Rightarrow> app_state \<Rightarrow> app_state \<times> (answer + flight)" where
  "enter_layers co cfg now rows fli st =
     (let r = fl_request fli
      in if rs_type (hr_scope r) \<noteq> ''http'' then (st, Inr (fli\<lparr>fl_seen := Some r\<rparr>))
         else case firewall_layer cfg now rows r (as_firewall st) of
                (c, Forbidden payload) \<Rightarrow> (st\<lparr>as_firewall := c\<rparr>, Inl (Answer 403 payload))
              | (c, CallNext) \<Rightarrow>
                  let st = st\<lparr>as_firewall := c\<rparr>
                  in (case body_layers co cfg r of
                        Inl a \<Rightarrow> (st, Inl a)
                      | Inr seen \<Rightarrow>
                          (case inflight_arrive (hr_scope seen) (as_shutdown st) of
                             (sd, Rejected ms) \<Rightarrow> (st, Inl (InnerReject ms))
                           | (sd, d) \<Rightarrow>
                               (st\<lparr>as_shutdown := sd\<rparr>, Inr (fli\<lparr>fl_counted := (d = Admitted), fl_seen := Some seen\<rparr>)))))"

definition leave_layers :: "flight \<Rightarrow> app_state \<Rightarrow> app_state" where
  "leave_layers fli st =
     leave_gates fli (if fl_counted fli then st\<lparr>as_shutdown := decrement_in_flight (as_shutdown st)\<rparr> else st)"

text \<open>
  The requests of a process interleave at the \<open>await\<close>s between the gates and the layers, in the
  layers and in the route. A request that is answered early, that fails or that is cancelled leaves
  through the same \<open>finally\<close> blocks. \<open>Hangs\<close> is a decompression that does not return.
\<close>

inductive app_step ::
  "('r, 'z) codecs \<Rightarrow> app_config \<Rightarrow> app_state \<times> flight list \<Rightarrow> app_state \<times> flight list \<Rightarrow> bool"
  for co :: "('r, 'z) codecs" and cfg :: app_config where
  turned_away: "enter_gates pressure r st = (st', Inl ms) \<Longrightarrow> app_step co cfg (st, fls) (st', fls)"
| let_in: "enter_gates pressure r st = (st', Inr fli) \<Longrightarrow> app_step co cfg (st, fls) (st', fli # fls)"
| answered: "fl_seen fli = None \<Longrightarrow> enter_layers co cfg now rows fli st = (st', Inl a) \<Longrightarrow> a \<noteq> Hangs \<Longrightarrow>
    app_step co cfg (st, fls @ fli # fls') (leave_gates fli st', fls @ fls')"
| reaches_route: "fl_seen fli = None \<Longrightarrow> enter_layers co cfg now rows fli st = (st', Inr fli') \<Longrightarrow>
    app_step co cfg (st, fls @ fli # fls') (st', fls @ fli' # fls')"
| leaves: "app_step co cfg (st, fls @ fli # fls') (leave_layers fli st, fls @ fls')"
| drains: "app_step co cfg (st, fls) (st\<lparr>as_shutdown := set_draining v (as_shutdown st)\<rparr>, fls)"
| cache_changes: "app_step co cfg (st, fls) (st\<lparr>as_firewall := c\<rparr>, fls)"

section \<open>Health and draining\<close>

datatype health_reply = HealthOk "(string \<times> string) list" | HealthError int string

definition is_internal_client_host :: "string option \<Rightarrow> bool" where
  "is_internal_client_host client_host =
     (if client_host = Some ''localhost'' then True
      else case client_host of
             None \<Rightarrow> False
           | Some h \<Rightarrow> (case ip_address h of None \<Rightarrow> False | Some a \<Rightarrow> is_loopback a))"

definition health_live :: health_reply where
  "health_live = HealthOk []"

text \<open>\<open>db_answers\<close>: whether a session can be opened and its query succeeds.\<close>

definition health_ready :: "bool \<Rightarrow> shutdown_state \<Rightarrow> health_reply" where
  "health_ready db_answers sd =
     (if sd_draining sd then HealthError 503 ''Service is draining''
      else if db_answers then HealthOk [(''database'', ''ok'')]
      else HealthError 503 ''Service unavailable'')"

definition start_internal_drain :: "string option \<Rightarrow> shutdown_state \<Rightarrow> shutdown_state \<times> health_reply" where
  "start_internal_drain client_host sd =
     (if \<not> is_internal_client_host client_host then (sd, HealthError 403 ''Internal access required'')
      else (set_draining True sd, HealthOk [(''draining'', ''ok'')]))"

definition stop_internal_drain :: "string option \<Rightarrow> shutdown_state \<Rightarrow> shutdown_state \<times> health_reply" where
  "stop_internal_drain client_host sd =
     (if \<not> is_internal_client_host client_host then (sd, HealthError 403 ''Internal access required'')
      else (set_draining False sd, HealthOk [(''draining'', ''false'')]))"

definition internal_drain_status :: "string option \<Rightarrow> shutdown_state \<Rightarrow> health_reply" where
  "internal_drain_status client_host sd =
     (if \<not> is_internal_client_host client_host then HealthError 403 ''Internal access required''
      else HealthOk [(''draining'', if sd_draining sd then ''true'' else ''false''),
        (''in_flight'', py_str_int (sd_in_flight sd))])"

text \<open>
  A drain that was started over the route is visible to the balancer whichever layer answers its
  readiness check: the in-flight counter turns the check away with 503, and so does the route.
\<close>

lemma draining_not_ready:
  assumes "start_internal_drain client_host sd = (sd', HealthOk checks)"
    "rs_type r = ''http''" "rs_path r = ''/health/ready''"
  shows "\<exists>payload hs. inflight_arrive r sd' = (sd', Rejected [ResponseStart ''http.response.start'' 503 hs, ResponseBody ''http.response.body'' payload])"
    "health_ready db_answers sd' = HealthError 503 ''Service is draining''"
  using assms
  by (auto simp: start_internal_drain_def set_draining_def inflight_arrive_def DRAIN_ALLOWED_HTTP_PATHS_def
      health_ready_def split: if_splits)

lemma drain_stop_restores:
  assumes "start_internal_drain (Some ''127.0.0.1'') sd = (sd', reply)"
  shows "stop_internal_drain (Some ''127.0.0.1'') sd' = (sd\<lparr>sd_draining := False\<rparr>, HealthOk [(''draining'', ''false'')])"
proof -
  have "is_internal_client_host (Some ''127.0.0.1'')" by code_simp
  with assms show ?thesis by (auto simp: start_internal_drain_def stop_internal_drain_def set_draining_def)
qed

section \<open>The dashboard files and the runtime settings\<close>

text \<open>\<open>lookup\<close> finds a regular file below the static directory (Starlette's \<open>lookup_path\<close>).\<close>

definition resolve_static_asset_path :: "(string \<Rightarrow> string option) \<Rightarrow> string \<Rightarrow> string option" where
  "resolve_static_asset_path lookup requested_path =
     (if path_root requested_path \<noteq> [] \<or> ''..'' \<in> set (path_parts requested_path) then None
      else lookup (path_str requested_path))"

definition lstrip_slash :: "string \<Rightarrow> string" where
  "lstrip_slash path = dropWhile ((=) CHR ''/'') path"

definition excluded_prefixes :: "string list" where
  "excluded_prefixes = [''api/'', ''v2/'', ''health'']"

definition is_static_asset_path :: "string \<Rightarrow> bool" where
  "is_static_asset_path path =
     (startswith path ''assets/'' \<or> CHR ''.'' \<in> set (last (split_on (CHR ''/'') path)))"

datatype spa_reply = AssetFile string | IndexHtml | SpaError int string

definition spa_fallback :: "(string \<Rightarrow> string option) \<Rightarrow> bool \<Rightarrow> string \<Rightarrow> spa_reply" where
  "spa_fallback lookup has_index path =
     (let normalized = lstrip_slash path;
          index = (if \<not> has_index
                   then SpaError 503 ''Frontend assets are missing. Run `cd frontend && bun run build`.'' else IndexHtml)
      in if normalized \<noteq> [] \<and> list_ex (\<lambda>p. normalized = rstrip_slash p \<or> startswith normalized p) excluded_prefixes
         then SpaError 404 ''Not Found''
         else if normalized \<noteq> []
         then (case resolve_static_asset_path lookup normalized of
                 Some f \<Rightarrow> AssetFile f
               | None \<Rightarrow> if is_static_asset_path normalized then SpaError 404 ''Not Found'' else index)
         else index)"

lemma path_parts_simple: "p \<in> set (path_parts s) \<Longrightarrow> p \<noteq> [] \<and> p \<noteq> ''.'' \<and> CHR ''/'' \<notin> set p"
proof -
  have "CHR ''/'' \<notin> set w" if "w \<in> set (split_on (CHR ''/'') t)" for w t
    using that by (induction "CHR ''/''" t arbitrary: w rule: split_on.induct) (auto split: if_splits list.splits)
  then show "p \<in> set (path_parts s) \<Longrightarrow> p \<noteq> [] \<and> p \<noteq> ''.'' \<and> CHR ''/'' \<notin> set p"
    by (auto simp: path_parts_def)
qed

text \<open>
  No request makes the server look above its static directory: what is looked up is a relative path
  whose parts are names, none of them a step up; and the paths of the API are never answered with a
  file.
\<close>

lemma spa_lookup_confined:
  assumes "spa_fallback lookup has_index path = AssetFile f"
  shows "\<exists>parts. lookup (if parts = [] then ''.'' else join_with ''/'' parts) = Some f \<and>
      (\<forall>p\<in>set parts. p \<noteq> [] \<and> p \<noteq> ''.'' \<and> p \<noteq> ''..'' \<and> CHR ''/'' \<notin> set p)"
    "\<not> startswith (lstrip_slash path) ''api/''" "\<not> startswith (lstrip_slash path) ''v2/''"
proof -
  let ?n = "lstrip_slash path"
  have r: "resolve_static_asset_path lookup ?n = Some f"
    "?n \<noteq> []" "\<not> list_ex (\<lambda>p. ?n = rstrip_slash p \<or> startswith ?n p) excluded_prefixes"
    using assms by (auto simp: spa_fallback_def Let_def split: if_splits option.splits)
  then show "\<not> startswith ?n ''api/''" "\<not> startswith ?n ''v2/''" by (auto simp: excluded_prefixes_def)
  have "path_root ?n = []" "''..'' \<notin> set (path_parts ?n)" "lookup (path_str ?n) = Some f"
    using r(1) by (auto simp: resolve_static_asset_path_def split: if_splits)
  then show "\<exists>parts. lookup (if parts = [] then ''.'' else join_with ''/'' parts) = Some f \<and>
      (\<forall>p\<in>set parts. p \<noteq> [] \<and> p \<noteq> ''.'' \<and> p \<noteq> ''..'' \<and> CHR ''/'' \<notin> set p)"
    using path_parts_simple [of _ ?n] by (intro exI [of _ "path_parts ?n"]) (auto simp: path_str_def)
qed

text \<open>\<open>url.split("://", 1)\<close> and \<open>rsplit("@", 1)\<close>; an unpacking error is \<open>ValueError\<close>.\<close>

fun split_scheme :: "string \<Rightarrow> (string \<times> string) option" where
  "split_scheme [] = None"
| "split_scheme (c # s) =
     (if startswith (c # s) ''://'' then Some ([], drop 3 (c # s))
      else map_option (\<lambda>(a, b). (c # a, b)) (split_scheme s))"

definition after_last_at :: "string \<Rightarrow> string option" where
  "after_last_at s = (if CHR ''@'' \<in> set s then Some (rev (takeWhile (\<lambda>c. c \<noteq> CHR ''@'') (rev s))) else None)"

definition mask_database_url :: "string \<Rightarrow> string res" where
  "mask_database_url database_url =
     (case split_scheme database_url of
        None \<Rightarrow> Inr database_url
      | Some (scheme, remainder) \<Rightarrow>
          if CHR ''@'' \<notin> set database_url then Inr database_url
          else case after_last_at remainder of
                 None \<Rightarrow> Inl ValueError
               | Some host_part \<Rightarrow> Inr (scheme @ ''://'' @ ''***@'' @ host_part))"

lemma split_scheme_append:
  "list_all (\<lambda>c. c \<noteq> CHR '':'') scheme \<Longrightarrow> split_scheme (scheme @ ''://'' @ rest) = Some (scheme, rest)"
  by (induction scheme) (auto simp: startswith_def)

text \<open>The masked URL does not depend on the credentials.\<close>

lemma mask_database_url_hides:
  assumes "list_all (\<lambda>c. c \<noteq> CHR '':'') scheme" "CHR ''@'' \<notin> set host_part"
  shows "mask_database_url (scheme @ ''://'' @ credentials @ ''@'' @ host_part) = Inr (scheme @ ''://***@'' @ host_part)"
proof -
  have "takeWhile (\<lambda>c. c \<noteq> CHR ''@'') (rev host_part @ CHR ''@'' # rev credentials) = rev host_part"
    using assms(2) by (subst takeWhile_append2) auto
  then have "after_last_at (credentials @ ''@'' @ host_part) = Some host_part" by (simp add: after_last_at_def)
  with split_scheme_append [OF assms(1), of "credentials @ ''@'' @ host_part"] show ?thesis
    by (simp add: mask_database_url_def)
qed

section \<open>Start and stop\<close>

datatype life_step =
    ResetShutdown | InvalidateSettings | InitTracing | InitDb | InitBackgroundDb | EnsureBootstrapToken
  | InitHttpClient | StartRefresh | StartMetrics | StartPoller | MarkStarted
  | DrainOn | WaitForDrain | StopMetrics | StopPoller | StopRefresh | CloseHttpClient
  | AwaitMetrics | MarkProcessDead | CloseDb

text \<open>A sequence of calls up to the first that raises.\<close>

fun run_steps :: "(life_step \<Rightarrow> bool) \<Rightarrow> life_step list \<Rightarrow> life_step list \<times> bool" where
  "run_steps raises [] = ([], True)"
| "run_steps raises (x # xs) =
     (if raises x then ([x], False) else case run_steps raises xs of (t, ok) \<Rightarrow> (x # t, ok))"

definition serves_metrics :: "settings \<Rightarrow> bool \<Rightarrow> bool" where
  "serves_metrics s prometheus_available = (st_metrics_enabled s \<and> prometheus_available)"

definition lifespan_start :: "settings \<Rightarrow> bool \<Rightarrow> life_step list" where
  "lifespan_start s prometheus_available =
     [ResetShutdown, InvalidateSettings] @ (if st_otel_enabled s then [InitTracing] else []) @
     [InitDb, InitBackgroundDb, EnsureBootstrapToken, InitHttpClient, StartRefresh] @
     (if serves_metrics s prometheus_available then [StartMetrics] else []) @ [StartPoller, MarkStarted]"

text \<open>
  The \<open>finally\<close> block after the application has served: the closing of the HTTP client has a
  \<open>finally\<close> of its own, in which the errors of the metrics server are caught.
\<close>

definition lifespan_stop :: "(life_step \<Rightarrow> bool) \<Rightarrow> bool \<Rightarrow> life_step list" where
  "lifespan_stop raises metrics =
     (case run_steps raises ([DrainOn, WaitForDrain] @ (if metrics then [StopMetrics] else []) @ [StopPoller, StopRefresh]) of
        (t, ok) \<Rightarrow>
          if \<not> ok then t
          else t @ [CloseHttpClient] @ (if metrics then [AwaitMetrics] else []) @
               fst (run_steps raises [ResetShutdown, MarkProcessDead, CloseDb]))"

definition lifespan :: "(life_step \<Rightarrow> bool) \<Rightarrow> settings \<Rightarrow> bool \<Rightarrow> life_step list" where
  "lifespan raises s prometheus_available =
     (case run_steps raises (lifespan_start s prometheus_available) of
        (t, ok) \<Rightarrow> if ok then t @ lifespan_stop raises (serves_metrics s prometheus_available) else t)"

lemma run_steps_ok: "\<forall>x\<in>set xs. \<not> raises x \<Longrightarrow> run_steps raises xs = (xs, True)"
  by (induction xs) auto

text \<open>
  A process that drained and stopped its schedulers closes its database last, even when the HTTP
  client cannot be closed; but a scheduler that fails to stop leaves both open.
\<close>

lemma lifespan_closes_db:
  assumes "\<forall>x\<in>{DrainOn, WaitForDrain, StopMetrics, StopPoller, StopRefresh, ResetShutdown, MarkProcessDead}. \<not> raises x"
  shows "last (lifespan_stop raises metrics) = CloseDb \<and> CloseHttpClient \<in> set (lifespan_stop raises metrics) \<and>
    hd (lifespan_stop raises metrics) = DrainOn"
  using assms by (auto simp: lifespan_stop_def)

lemma lifespan_stop_interrupted:
  assumes "raises StopPoller"
  shows "CloseDb \<notin> set (lifespan_stop raises metrics)" "CloseHttpClient \<notin> set (lifespan_stop raises metrics)"
  using assms by (auto simp: lifespan_stop_def)

text \<open>The path label of the metrics is one of finitely many prefixes or at most fifty characters long.\<close>

definition metrics_path :: "string \<Rightarrow> string" where
  "metrics_path path =
     (if startswith path ''/v2/'' then ''/v2/...''
      else if startswith path ''/api/'' then ''/api/...''
      else if startswith path ''/health/'' then ''/health/...''
      else if 50 < length path then take 50 path
      else if path = [] then ''/'' else path)"

lemma metrics_path_bounded: "metrics_path path \<noteq> [] \<and> length (metrics_path path) \<le> 50"
  by (auto simp: metrics_path_def)

section \<open>Runs\<close>

inductive app_run :: "('r, 'z) codecs \<Rightarrow> app_config \<Rightarrow> app_state \<Rightarrow> app_state \<Rightarrow> flight list \<Rightarrow> bool"
  for co :: "('r, 'z) codecs" and cfg :: app_config and st0 :: app_state where
  run_start: "app_run co cfg st0 st0 []"
| run_step: "app_run co cfg st0 st fls \<Longrightarrow> app_step co cfg (st, fls) (st', fls') \<Longrightarrow> app_run co cfg st0 st' fls'"

section \<open>Each gate sees a run of its own\<close>

text \<open>The requests that hold a slot of the bulkhead, of backpressure, and of the in-flight count.\<close>

definition in_bulkhead :: "flight list \<Rightarrow> (bool \<times> request_scope) list" where
  "in_bulkhead fls = map (\<lambda>fli. (fl_pressure fli, hr_scope (fl_request fli))) (filter fl_bulkhead fls)"

definition in_backpressure :: "flight list \<Rightarrow> request_scope list" where
  "in_backpressure fls = map (\<lambda>fli. hr_scope (fl_request fli)) (filter fl_backpressure fls)"

lemma in_gates_simps [simp]:
  "in_bulkhead [] = []" "in_bulkhead (fls @ fls') = in_bulkhead fls @ in_bulkhead fls'"
  "in_bulkhead (fli # fls) =
     (if fl_bulkhead fli then (fl_pressure fli, hr_scope (fl_request fli)) # in_bulkhead fls else in_bulkhead fls)"
  "in_backpressure [] = []" "in_backpressure (fls @ fls') = in_backpressure fls @ in_backpressure fls'"
  "in_backpressure (fli # fls) =
     (if fl_backpressure fli then hr_scope (fl_request fli) # in_backpressure fls else in_backpressure fls)"
  by (simp_all add: in_bulkhead_def in_backpressure_def)

lemma leave_gates_parts:
  "as_bulkhead (leave_gates fli st) =
     (if fl_bulkhead fli then bulkhead_leave (hr_scope (fl_request fli)) (as_bulkhead st) else as_bulkhead st)"
  "as_backpressure (leave_gates fli st) =
     (if fl_backpressure fli then map_option backpressure_leave (as_backpressure st) else as_backpressure st)"
  "as_shutdown (leave_gates fli st) = as_shutdown st"
  by (simp_all add: leave_gates_def leave_bulkhead_def)

lemma leave_layers_parts:
  "as_bulkhead (leave_layers fli st) = as_bulkhead (leave_gates fli st)"
  "as_backpressure (leave_layers fli st) = as_backpressure (leave_gates fli st)"
  "as_shutdown (leave_layers fli st) =
     (if fl_counted fli then decrement_in_flight (as_shutdown st) else as_shutdown st)"
  by (simp_all add: leave_layers_def leave_gates_parts)

lemma enter_layers_gates:
  assumes "enter_layers co cfg now rows fli st = (st', res)"
  shows "as_bulkhead st' = as_bulkhead st" "as_backpressure st' = as_backpressure st"
    "\<And>fli'. res = Inr fli' \<Longrightarrow> fl_request fli' = fl_request fli \<and> fl_pressure fli' = fl_pressure fli \<and>
       fl_bulkhead fli' = fl_bulkhead fli \<and> fl_backpressure fli' = fl_backpressure fli \<and> fl_seen fli' \<noteq> None"
  using assms
  by (auto simp: enter_layers_def Let_def split: if_splits prod.splits firewall_reply.splits sum.splits decision.splits)

lemma enter_layers_count:
  assumes "enter_layers co cfg now rows fli st = (st', res)" "\<not> fl_counted fli"
  shows "sd_in_flight (as_shutdown st') =
    sd_in_flight (as_shutdown st) + (case res of Inr fli' \<Rightarrow> if fl_counted fli' then 1 else 0 | Inl _ \<Rightarrow> 0)"
  using assms
  by (auto simp: enter_layers_def Let_def dest: inflight_arrive_count
      split: if_splits prod.splits firewall_reply.splits sum.splits decision.splits)

definition stack_inv :: "app_state \<Rightarrow> app_state \<Rightarrow> flight list \<Rightarrow> bool" where
  "stack_inv st0 st fls \<longleftrightarrow>
     bh.run (as_bulkhead st0) (as_bulkhead st) (in_bulkhead fls) \<and>
     (as_backpressure st0 = None \<longrightarrow> as_backpressure st = None \<and> in_backpressure fls = []) \<and>
     (\<forall>n. as_backpressure st0 = Some n \<longrightarrow>
        (\<exists>sem. as_backpressure st = Some sem \<and> bp.run n sem (in_backpressure fls))) \<and>
     sd_in_flight (as_shutdown st) = int (length (filter fl_counted fls)) \<and>
     (\<forall>fli\<in>set fls. fl_seen fli = None \<longrightarrow> \<not> fl_counted fli)"

lemma bh_admit: "bh.run b0 b rs \<Longrightarrow> bulkhead_arrive p s b = (b', Admitted) \<Longrightarrow> bh.run b0 b' ((p, s) # rs)"
  using bh.arrive_in [of b0 b rs "(p, s)" b'] by simp

lemma bh_pass: "bh.run b0 b rs \<Longrightarrow> bulkhead_arrive p s b = (b', d) \<Longrightarrow> d \<noteq> Admitted \<Longrightarrow> bh.run b0 b' rs"
  using bh.arrive_out [of b0 b rs "(p, s)" b' d] by simp

lemma bh_leave: "bh.run b0 b (rs @ (p, s) # rs') \<Longrightarrow> bh.run b0 (bulkhead_leave s b) (rs @ rs')"
  using bh.leaves [of b0 b rs "(p, s)" rs'] by simp

lemma bh_bounce:
  "bh.run b0 b rs \<Longrightarrow> bulkhead_arrive p s b = (b', d) \<Longrightarrow>
    bh.run b0 (if d = Admitted then bulkhead_leave s b' else b') rs"
  using bh_admit [of b0 b rs p s b'] bh_leave [of b0 b' "[]" p s rs] bh_pass [of b0 b rs p s b' d] by auto

lemma leave_gates_inv:
  assumes "stack_inv st0 st (fls @ fli # fls')" "as_bulkhead st' = as_bulkhead st" "as_backpressure st' = as_backpressure st"
    "sd_in_flight (as_shutdown st') = int (length (filter fl_counted (fls @ fls')))"
  shows "stack_inv st0 (leave_gates fli st') (fls @ fls')"
  using assms bh_leave [of "as_bulkhead st0" "as_bulkhead st" "in_bulkhead fls" "fl_pressure fli" "hr_scope (fl_request fli)" "in_bulkhead fls'"]
    bp.leaves [of _ _ "in_backpressure fls" "hr_scope (fl_request fli)" "in_backpressure fls'"]
  by (auto simp: stack_inv_def leave_gates_parts)

lemma enter_gates_bulkhead:
  assumes "enter_gates pressure r st = (st', res)" "bh.run b0 (as_bulkhead st) rs"
  shows "bh.run b0 (as_bulkhead st')
    (case res of Inl _ \<Rightarrow> rs | Inr fli \<Rightarrow> if fl_bulkhead fli then (fl_pressure fli, hr_scope (fl_request fli)) # rs else rs)"
  using assms bh_admit [OF assms(2)] bh_pass [OF assms(2)] bh_bounce [OF assms(2)]
  by (fastforce simp: enter_gates_def leave_bulkhead_def Let_def split: prod.splits decision.splits option.splits)

lemma enter_gates_backpressure:
  assumes "enter_gates pressure r st = (st', res)"
  shows "as_backpressure st = None \<Longrightarrow> as_backpressure st' = None \<and> (\<forall>fli. res = Inr fli \<longrightarrow> \<not> fl_backpressure fli)"
    "as_backpressure st = Some sem \<Longrightarrow> bp.run n sem rs \<Longrightarrow> \<exists>sem'. as_backpressure st' = Some sem' \<and>
      bp.run n sem' (case res of Inl _ \<Rightarrow> rs | Inr fli \<Rightarrow> if fl_backpressure fli then hr_scope (fl_request fli) # rs else rs)"
    "as_shutdown st' = as_shutdown st"
    "\<And>fli. res = Inr fli \<Longrightarrow> fl_seen fli = None \<and> \<not> fl_counted fli"
  using assms bp.arrive_in [of n sem rs] bp.arrive_out [of n sem rs]
  by (fastforce simp: enter_gates_def leave_bulkhead_def Let_def split: prod.splits decision.splits option.splits)+

lemma app_step_inv:
  assumes "app_step co cfg (st, fls) (st', fls')" "stack_inv st0 st fls"
  shows "stack_inv st0 st' fls'"
  using assms(1)
proof (cases rule: app_step.cases)
  case (turned_away pressure r ms)
  with assms(2) enter_gates_bulkhead [OF turned_away(2)] enter_gates_backpressure [OF turned_away(2)] show ?thesis
    by (fastforce simp: stack_inv_def)
next
  case (let_in pressure r fli)
  with assms(2) enter_gates_bulkhead [OF let_in(2)] enter_gates_backpressure [OF let_in(2)] show ?thesis
    by (fastforce simp: stack_inv_def)
next
  case (answered fli now rows st2 a fls1 fls2)
  have nc: "\<not> fl_counted fli" using assms(2) answered by (auto simp: stack_inv_def)
  from leave_gates_inv [of st0 st fls1 fli fls2 st2] assms(2) answered enter_layers_gates [OF answered(5)]
    enter_layers_count [OF answered(5) nc] nc show ?thesis by (auto simp: stack_inv_def)
next
  case (reaches_route fli now rows fli' fls1 fls2)
  have nc: "\<not> fl_counted fli" using assms(2) reaches_route by (auto simp: stack_inv_def)
  note g = enter_layers_gates(1,2) [OF reaches_route(4)] enter_layers_gates(3) [OF reaches_route(4) refl]
  have gates: "in_bulkhead fls' = in_bulkhead fls" "in_backpressure fls' = in_backpressure fls"
    using g(3) reaches_route(1,2) by simp_all
  have "sd_in_flight (as_shutdown st') = int (length (filter fl_counted fls'))"
    using enter_layers_count [OF reaches_route(4) nc] nc assms(2) reaches_route(1,2) by (simp add: stack_inv_def)
  moreover have "\<forall>fli\<in>set fls'. fl_seen fli = None \<longrightarrow> \<not> fl_counted fli"
    using assms(2) g(3) reaches_route(1,2) by (auto simp: stack_inv_def)
  ultimately show ?thesis using assms(2) unfolding stack_inv_def gates g(1,2) by simp
next
  case (leaves fls1 fli fls2)
  let ?st = "if fl_counted fli then st\<lparr>as_shutdown := decrement_in_flight (as_shutdown st)\<rparr> else st"
  have "leave_layers fli st = leave_gates fli ?st" by (simp add: leave_layers_def)
  with leaves leave_gates_inv [of st0 st fls1 fli fls2 ?st] assms(2) show ?thesis
    by (auto simp: stack_inv_def decrement_in_flight_def)
next
  case (drains v)
  with assms(2) show ?thesis by (simp add: stack_inv_def set_draining_def)
next
  case (cache_changes c)
  with assms(2) show ?thesis by (simp add: stack_inv_def)
qed

lemma app_run_inv:
  assumes "app_run co cfg st0 st fls" "sd_in_flight (as_shutdown st0) = 0"
  shows "stack_inv st0 st fls"
  using assms
proof (induction rule: app_run.induct)
  case run_start
  then show ?case by (auto simp: stack_inv_def intro: bh.start bp.start)
next
  case (run_step st fls st' fls')
  then show ?case using app_step_inv by blast
qed

section \<open>Properties\<close>

lemma create_app_state:
  assumes "create_app s = Some (cfg, st0)"
  shows "\<exists>limit. st_bulkhead_proxy_http_limit s = Some limit \<and>
      as_bulkhead st0 = new_bulkhead None (st_bulkhead_dashboard_limit s) 10 (Some limit)"
    "as_backpressure st0 = (if 0 < st_backpressure_max_concurrent_requests s
       then Some (nat (st_backpressure_max_concurrent_requests s)) else None)"
    "as_shutdown st0 = shutdown_reset"
  using assms by (auto simp: create_app_def Let_def split: sum.splits option.splits)

text \<open>The limit of a lane, and how many of the requests in flight are in it.\<close>

definition lane_limit :: "settings \<Rightarrow> lane \<Rightarrow> int" where
  "lane_limit s l = (case l of ProxyHttp \<Rightarrow> the (st_bulkhead_proxy_http_limit s) | Dashboard \<Rightarrow> st_bulkhead_dashboard_limit s)"

definition in_lane :: "lane \<Rightarrow> flight list \<Rightarrow> nat" where
  "in_lane l fls = length (filter (\<lambda>(p, r). request_lane r = l) (in_bulkhead fls))"

lemma lane_semaphore:
  assumes "create_app s = Some (cfg, st0)" "0 < lane_limit s l"
  shows "get_semaphore l (as_bulkhead st0) = Some (nat (lane_limit s l))"
  using create_app_state(1) [OF assms(1)] assms(2)
  by (cases l) (auto simp: lane_limit_def new_bulkhead_def lane_of_limit_def Let_def)

text \<open>
  C28: the middleware stack as a whole bounds the work in progress and loses no slot. In every
  interleaving of requests that are turned away, answered by an inner layer, served, failed or
  cancelled, the requests in flight in a lane are at most its limit and those behind backpressure at
  most its limit, and the in-flight count of the drain is the number of requests that passed the
  counter and have not left. Once the last request has left, every slot is free again and the count
  is zero, whatever was rejected on the way.
\<close>

theorem stack_bounded:
  assumes "create_app s = Some (cfg, st0)" "app_run co cfg st0 st fls"
  shows "(\<forall>l. 0 < lane_limit s l \<longrightarrow> int (in_lane l fls) \<le> lane_limit s l \<and>
      get_semaphore l (as_bulkhead st) = Some (nat (lane_limit s l) - in_lane l fls)) \<and>
    (0 < st_backpressure_max_concurrent_requests s \<longrightarrow>
      int (length (filter fl_backpressure fls)) \<le> st_backpressure_max_concurrent_requests s \<and>
      as_backpressure st = Some (nat (st_backpressure_max_concurrent_requests s) - length (filter fl_backpressure fls))) \<and>
    sd_in_flight (as_shutdown st) = int (length (filter fl_counted fls))"
proof -
  have inv: "stack_inv st0 st fls"
    using app_run_inv [OF assms(2)] create_app_state(3) [OF assms(1)] by (simp add: shutdown_reset_def)
  have lanes: "int (in_lane l fls) \<le> lane_limit s l \<and>
      get_semaphore l (as_bulkhead st) = Some (nat (lane_limit s l) - in_lane l fls)" if l: "0 < lane_limit s l" for l
  proof -
    have run: "bh.run (as_bulkhead st0) (as_bulkhead st) (in_bulkhead fls)" using inv by (simp add: stack_inv_def)
    have eq: "filter (\<lambda>r. (case r of (p, r) \<Rightarrow> request_lane r) = l) rs = filter (\<lambda>(p, r). request_lane r = l) rs"
      for rs :: "(bool \<times> request_scope) list" by (rule filter_cong) auto
    from bh.run_slots [OF run, of l] lane_semaphore [OF assms(1) l]
    have "get_semaphore l (as_bulkhead st) \<noteq> None" "lane_free (as_bulkhead st) l + in_lane l fls = nat (lane_limit s l)"
      by (simp_all add: lane_free_def in_lane_def eq)
    with l show ?thesis by (auto simp: lane_free_def)
  qed
  have "int (length (filter fl_backpressure fls)) \<le> st_backpressure_max_concurrent_requests s \<and>
      as_backpressure st = Some (nat (st_backpressure_max_concurrent_requests s) - length (filter fl_backpressure fls))"
    if b: "0 < st_backpressure_max_concurrent_requests s"
  proof -
    obtain sem where sem: "as_backpressure st = Some sem"
      "bp.run (nat (st_backpressure_max_concurrent_requests s)) sem (in_backpressure fls)"
      using inv create_app_state(2) [OF assms(1)] b by (auto simp: stack_inv_def)
    from bp.run_slots [OF sem(2), of "()"] have "sem + length (filter fl_backpressure fls) =
        nat (st_backpressure_max_concurrent_requests s)" by (simp add: in_backpressure_def)
    with sem b show ?thesis by auto
  qed
  with lanes inv show ?thesis by (simp add: stack_inv_def)
qed

definition sample_settings :: settings where
  "sample_settings = normalize_bulkhead_limits
     ((settings_defaults sample_host ''/data'')\<lparr>st_backpressure_max_concurrent_requests := 1, st_dashboard_auth_mode := TRUSTED_HEADER,
       st_firewall_trust_proxy_headers := True\<rparr>)"

definition sample_request :: http_request where
  "sample_request = \<lparr>hr_scope = \<lparr>rs_type = ''http'', rs_path = ''/v2/scrape'', rs_received = None\<rparr>,
     hr_connection = \<lparr>cn_server_host = None, cn_client_host = Some ''8.8.8.8'', cn_headers = [(''remote-user'', ''eve'')]\<rparr>,
     hr_body = ''x''\<rparr>"

definition sample_flight :: flight where
  "sample_flight = \<lparr>fl_request = sample_request, fl_pressure = False, fl_bulkhead = True, fl_backpressure = True,
     fl_counted = False, fl_seen = None\<rparr>"

lemma sample_app:
  "\<exists>cfg st0. create_app sample_settings = Some (cfg, st0) \<and> lane_limit sample_settings ProxyHttp = 512 \<and>
    st_backpressure_max_concurrent_requests sample_settings = 1 \<and> as_backpressure st0 = Some 1 \<and>
    bh_proxy_http (as_bulkhead st0) = Some 512"
proof -
  have s: "st_firewall_trusted_proxy_cidrs sample_settings = [''127.0.0.1/32'', ''::1/128'']"
    "st_bulkhead_proxy_http_limit sample_settings = Some 512" "st_firewall_ip_cache_ttl_seconds sample_settings = 30"
    "st_backpressure_max_concurrent_requests sample_settings = 1"
    by (simp_all add: sample_settings_def settings_defaults_def normalize_bulkhead_limits_def)
  show ?thesis
    by (simp add: create_app_def s parse_trusted_proxy_networks_def ip_network_examples new_firewall_cache_def Let_def
        lane_limit_def new_bulkhead_def lane_of_limit_def)
qed

lemma sample_entry:
  assumes "as_backpressure st = Some 1" "bh_proxy_http (as_bulkhead st) = Some 512"
  shows "enter_gates False sample_request st =
    (st\<lparr>as_bulkhead := (as_bulkhead st)\<lparr>bh_proxy_http := Some 511\<rparr>, as_backpressure := Some 0\<rparr>, Inr sample_flight)"
  using assms
  by (simp add: enter_gates_def bulkhead_arrive_def backpressure_arrive_def sample_request_def sample_flight_def
      get_lane_def is_proxy_path_def startswith_def Let_def)

theorem stack_bounded_witness:
  "\<exists>cfg st0 st. create_app sample_settings = Some (cfg, st0) \<and> app_run stored_codecs cfg st0 st [sample_flight] \<and>
     get_semaphore ProxyHttp (as_bulkhead st) = Some 511 \<and> as_backpressure st = Some 0"
proof -
  obtain cfg st0 where a: "create_app sample_settings = Some (cfg, st0)" "lane_limit sample_settings ProxyHttp = 512"
    "st_backpressure_max_concurrent_requests sample_settings = 1" "as_backpressure st0 = Some 1"
    "bh_proxy_http (as_bulkhead st0) = Some 512" using sample_app by blast
  from run_step [OF run_start let_in [OF sample_entry [OF a(4,5)]]]
  obtain st where run: "app_run stored_codecs cfg st0 st [sample_flight]" by blast
  have "in_lane ProxyHttp [sample_flight] = 1"
    by (simp add: in_lane_def sample_flight_def sample_request_def get_lane_def is_proxy_path_def startswith_def)
  moreover have "filter fl_backpressure [sample_flight] = [sample_flight]" by (simp add: sample_flight_def)
  ultimately have "get_semaphore ProxyHttp (as_bulkhead st) = Some 511" "as_backpressure st = Some 0"
    using stack_bounded [OF a(1) run, THEN conjunct1, THEN spec, of ProxyHttp]
      stack_bounded [OF a(1) run, THEN conjunct2, THEN conjunct1] a(2,3) by simp_all
  with a(1) run show ?thesis by blast
qed

text \<open>
  C29: what a route sees has been checked by every layer. A request over HTTP that reaches a route
  under \<open>/v2\<close> comes from an address that the allowlist (or its cache) admits, no request reaches a
  route while the process drains unless its path is exempt, its body is the body sent or within the
  configured limit, and in trusted-header mode it carries the identity header only if its peer is a
  trusted proxy.
\<close>

theorem route_guarded:
  assumes "enter_layers co cfg now rows fli st = (st', Inr fli')" "rs_type (hr_scope (fl_request fli)) = ''http''"
    "fl_seen fli' = Some seen" "inflate_contract (co_inflate co)" "0 \<le> ac_max_body cfg"
  defines "r \<equiv> fl_request fli"
  shows "hr_scope seen = hr_scope r \<and>
    (is_protected_api_path (rs_path (hr_scope r)) \<longrightarrow>
       snd (firewall_layer cfg now rows r (as_firewall st)) = CallNext) \<and>
    (sd_draining (as_shutdown st) \<longrightarrow> rs_path (hr_scope r) \<in> DRAIN_ALLOWED_HTTP_PATHS) \<and>
    (hr_body seen = hr_body r \<or> len (hr_body seen) \<le> max (ac_max_body cfg) (ac_max_responses cfg)) \<and>
    (ap_auth_mode (ac_auth cfg) = TRUSTED_HEADER \<and>
       (\<exists>(k, v)\<in>set (cn_headers (hr_connection seen)). lower k = lower (ap_proxy_header (ac_auth cfg))) \<longrightarrow>
       (\<exists>host. cn_client_host (hr_connection r) = Some host \<and>
          is_trusted_proxy_source (fs_trusted_networks (ap_firewall (ac_auth cfg))) host))"
proof -
  obtain br where fw: "snd (firewall_layer cfg now rows r (as_firewall st)) = CallNext"
    and dec: "request_decompression co (ac_max_body cfg) (ac_max_responses cfg) (body_of r) = Some (NextCalled br)"
    and seen: "seen = (with_body r br)\<lparr>hr_connection := sanitize_headers (ac_auth cfg) (hr_connection (with_body r br))\<rparr>"
    and drain: "\<nexists>ms sd. inflight_arrive (hr_scope r) (as_shutdown st) = (sd, Rejected ms)"
    using assms(1,2,3) unfolding r_def
    by (auto simp: enter_layers_def body_layers_def with_body_def Let_def
        split: prod.splits firewall_reply.splits sum.splits option.splits body_reply.splits decision.splits)
  have body: "br_body br = hr_body r \<or> len (br_body br) \<le> max (ac_max_body cfg) (ac_max_responses cfg)"
    using decompression_bound [OF assms(4,5) dec] by (auto simp: body_of_def max_decompressed_body_bytes_for_request_def split: if_splits)
  have "sd_draining (as_shutdown st) \<longrightarrow> rs_path (hr_scope r) \<in> DRAIN_ALLOWED_HTTP_PATHS"
  proof (rule impI, rule ccontr)
    assume "sd_draining (as_shutdown st)" "rs_path (hr_scope r) \<notin> DRAIN_ALLOWED_HTTP_PATHS"
    then have "\<exists>ms. inflight_arrive (hr_scope r) (as_shutdown st) = (as_shutdown st, Rejected ms)"
      using assms(2) unfolding r_def inflight_arrive_def by simp
    with drain show False by blast
  qed
  moreover have "\<exists>host. cn_client_host (hr_connection r) = Some host \<and>
      is_trusted_proxy_source (fs_trusted_networks (ap_firewall (ac_auth cfg))) host"
    if "ap_auth_mode (ac_auth cfg) = TRUSTED_HEADER"
      "\<exists>(k, v)\<in>set (cn_headers (hr_connection seen)). lower k = lower (ap_proxy_header (ac_auth cfg))"
    using that unfolding seen
    by (auto simp: sanitize_headers_def with_body_def filter_headers_def list_ex_iff split: if_splits option.splits)
  ultimately show ?thesis using fw body unfolding seen by (simp add: with_body_def)
qed

definition sample_config :: app_config where
  "sample_config =
     (let fs = \<lparr>fs_trust_proxy_headers = True, fs_trusted_networks = [\<lparr>net_v6 = False, net_address = 2130706433, net_prefix = 32\<rparr>]\<rparr>
      in \<lparr>ac_firewall = fs, ac_auth = \<lparr>ap_auth_mode = TRUSTED_HEADER, ap_proxy_header = ''Remote-User'',
            ap_bootstrap_token = None, ap_firewall = fs\<rparr>, ac_max_body = 100, ac_max_responses = 100\<rparr>)"

definition sample_state :: app_state where
  "sample_state = \<lparr>as_bulkhead = new_bulkhead None 50 10 (Some 512), as_backpressure = None,
     as_firewall = \<lparr>fc_ttl_seconds = 30, fc_cache = [], fc_version = 0\<rparr>, as_shutdown = shutdown_reset\<rparr>"

theorem route_guarded_witness:
  "\<exists>st' fli' seen. enter_layers stored_codecs sample_config 0 [] sample_flight sample_state = (st', Inr fli') \<and>
     fl_seen fli' = Some seen \<and> hr_scope seen = hr_scope sample_request \<and> cn_headers (hr_connection seen) = []"
proof -
  let ?seen = "sample_request\<lparr>hr_connection := (hr_connection sample_request)\<lparr>cn_headers := []\<rparr>\<rparr>"
  have ip: "ip_address ''8.8.8.8'' = Some (IPv4 134744072)" by code_simp
  have low: "lower ''remote-user'' = ''remote-user''" "lower ''Remote-User'' = ''remote-user''" by code_simp+
  have dec: "request_decompression stored_codecs 100 100 (body_of sample_request) = Some (NextCalled (body_of sample_request))"
    by (simp add: request_decompression_def body_of_def sample_request_def low)
  have san: "sanitize_headers (ac_auth sample_config) (hr_connection sample_request) = (hr_connection sample_request)\<lparr>cn_headers := []\<rparr>"
    by (simp add: sanitize_headers_def sample_config_def sample_request_def is_trusted_proxy_source_def ip low filter_headers_def Let_def)
  have body: "body_layers stored_codecs sample_config sample_request = Inr ?seen"
    using dec san by (simp add: body_layers_def with_body_def body_of_def sample_config_def Let_def)
  have "snd (firewall_layer sample_config 0 [] sample_request (as_firewall sample_state)) = CallNext"
    by (simp add: firewall_layer_def api_firewall_def sample_state_def sample_request_def is_allowed_def
        is_ip_allowed_def list_ip_addresses_def firewall_client_ip_def sample_config_def is_trusted_proxy_source_def ip Let_def)
  then obtain c where fw: "firewall_layer sample_config 0 [] sample_request (as_firewall sample_state) = (c, CallNext)"
    by (cases "firewall_layer sample_config 0 [] sample_request (as_firewall sample_state)") simp
  have "inflight_arrive (hr_scope ?seen) (as_shutdown sample_state) = (increment_in_flight shutdown_reset, Admitted)"
    by (simp add: inflight_arrive_def sample_state_def shutdown_reset_def sample_request_def IN_FLIGHT_EXCLUDED_HTTP_PATHS_def)
  with fw body have e: "\<exists>st'. enter_layers stored_codecs sample_config 0 [] sample_flight sample_state =
      (st', Inr (sample_flight\<lparr>fl_counted := True, fl_seen := Some ?seen\<rparr>))"
    by (simp add: enter_layers_def sample_flight_def Let_def) (simp add: sample_request_def)
  then obtain st' where e: "enter_layers stored_codecs sample_config 0 [] sample_flight sample_state =
      (st', Inr (sample_flight\<lparr>fl_counted := True, fl_seen := Some ?seen\<rparr>))" by blast
  have "rs_type (hr_scope (fl_request sample_flight)) = ''http''" "0 \<le> ac_max_body sample_config"
    by (simp_all add: sample_flight_def sample_request_def sample_config_def Let_def)
  from route_guarded [OF e this(1) _ stored_contract this(2), of ?seen]
  have "hr_scope ?seen = hr_scope (fl_request sample_flight)" by simp
  with e show ?thesis by (auto simp: sample_flight_def)
qed

end
