(* ===== verification/Database.thy ===== *)
theory Database
  imports Config
begin

text \<open>
  The start of the database: \<open>init_db\<close> and the helpers around it in \<open>src/app/db/session.py\<close>, the
  integrity check of \<open>sqlite_utils.py\<close>, the backups of \<open>backup.py\<close>, the state of the migrations in
  \<open>migrate.py\<close> and the recovery of \<open>recover.py\<close>. A directory is the list of its files with their
  contents. SQLite and Alembic are parameters: what the pragmas, the migration and the comparison of
  the schema give. The import of the project's own modules does not fail.
\<close>

section \<open>URLs\<close>

definition is_sqlite_url :: "string \<Rightarrow> bool" where
  "is_sqlite_url url = (startswith url ''sqlite+aiosqlite:///'' \<or> startswith url ''sqlite:///'')"

definition is_sqlite_memory_url :: "string \<Rightarrow> bool" where
  "is_sqlite_memory_url url = (is_sqlite_url url \<and> str_in '':memory:'' url)"

text \<open>The text after the first \<open>:///\<close>, up to a question mark and then up to a hash sign.\<close>

fun after_marker :: "string \<Rightarrow> string option" where
  "after_marker [] = None"
| "after_marker (c # s) = (if startswith (c # s) '':///'' then Some (drop 4 (c # s)) else after_marker s)"

definition url_path :: "string \<Rightarrow> string option" where
  "url_path url =
     (if \<not> (startswith url ''sqlite+aiosqlite:'' \<or> startswith url ''sqlite:'') then None
      else case after_marker url of
             None \<Rightarrow> None
           | Some s \<Rightarrow>
               let path = takeWhile (\<lambda>c. c \<noteq> CHR ''#'') (takeWhile (\<lambda>c. c \<noteq> CHR ''?'') s)
               in if path = [] \<or> path = '':memory:'' then None else Some path)"

definition sqlite_db_path_from_url :: "host \<Rightarrow> string \<Rightarrow> settings_exc + string option" where
  "sqlite_db_path_from_url ho url =
     (case url_path url of None \<Rightarrow> Inr None | Some p \<Rightarrow> res_bind (expanduser ho p) (\<lambda>p. Inr (Some p)))"

definition database_pool_size :: "settings \<Rightarrow> bool \<Rightarrow> int" where
  "database_pool_size s background =
     (if background
      then (case st_database_background_pool_size s of
              Some n \<Rightarrow> if n \<noteq> 0 then n else st_database_pool_size s
            | None \<Rightarrow> st_database_pool_size s)
      else st_database_pool_size s)"

definition database_max_overflow :: "settings \<Rightarrow> bool \<Rightarrow> int" where
  "database_max_overflow s background =
     (if background
      then (case st_database_background_max_overflow s of Some n \<Rightarrow> n | None \<Rightarrow> st_database_max_overflow s)
      else st_database_max_overflow s)"

section \<open>Integrity\<close>

record integrity_check =
  ic_ok :: bool
  ic_details :: "string option"

fun check_mode_value :: "check_mode \<Rightarrow> string" where
  "check_mode_value QuickCheck = ''quick''"
| "check_mode_value FullCheck = ''full''"
| "check_mode_value NoCheck = ''off''"

text \<open>\<open>pragma\<close>: the text of a database error, or the rows of the check.\<close>

definition check_sqlite_integrity :: "bool \<Rightarrow> check_mode \<Rightarrow> string + string list \<Rightarrow> integrity_check" where
  "check_sqlite_integrity file_exists mode pragma =
     (if \<not> file_exists then \<lparr>ic_ok = True, ic_details = None\<rparr>
      else case pragma of
             Inl exc \<Rightarrow> \<lparr>ic_ok = False, ic_details = Some exc\<rparr>
           | Inr rows \<Rightarrow>
               if rows = [''ok''] then \<lparr>ic_ok = True, ic_details = None\<rparr>
               else if rows = [] then \<lparr>ic_ok = False, ic_details = Some (check_mode_value mode @ ''_check returned no rows'')\<rparr>
               else \<lparr>ic_ok = False, ic_details = Some (join_with ''; '' rows)\<rparr>)"

section \<open>Backups\<close>

type_synonym directory = "(string \<times> string) list"

definition file_exists :: "directory \<Rightarrow> string \<Rightarrow> bool" where
  "file_exists dir name = (map_of dir name \<noteq> None)"

text \<open>\<open>Path.suffix\<close> and \<open>Path.stem\<close> of a file name.\<close>

definition name_suffix :: "string \<Rightarrow> string" where
  "name_suffix name =
     (let tail = takeWhile (\<lambda>c. c \<noteq> CHR ''.'') (rev name)
      in if CHR ''.'' \<notin> set name \<or> tail = [] \<or> length tail + 1 = length name then [] else CHR ''.'' # rev tail)"

definition name_stem :: "string \<Rightarrow> string" where
  "name_stem name = take (length name - length (name_suffix name)) name"

definition backup_prefix :: "string \<Rightarrow> string" where
  "backup_prefix source = name_stem source @ ''.pre-migrate-''"

definition backup_name :: "string \<Rightarrow> string \<Rightarrow> string" where
  "backup_name source timestamp = backup_prefix source @ timestamp @ name_suffix source"

definition sequenced_name :: "string \<Rightarrow> string \<Rightarrow> nat \<Rightarrow> string" where
  "sequenced_name source timestamp sequence =
     backup_prefix source @ timestamp @ ''-'' @ py_str_int (int sequence) @ name_suffix source"

lemma sequenced_name_inj: "sequenced_name source timestamp i = sequenced_name source timestamp j \<Longrightarrow> i = j"
proof -
  assume "sequenced_name source timestamp i = sequenced_name source timestamp j"
  then have "nat_digits i = nat_digits j" by (simp add: sequenced_name_def py_str_int_def)
  then have "dec_value (nat_digits i) = dec_value (nat_digits j)" by simp
  then show "i = j" by (simp only: nat_digits_value of_nat_eq_iff)
qed

text \<open>The loop over the sequence numbers ends because the directory has finitely many files.\<close>

definition taken_from :: "directory \<Rightarrow> string \<Rightarrow> string \<Rightarrow> nat \<Rightarrow> nat set" where
  "taken_from dir source timestamp k = {j. k \<le> j \<and> file_exists dir (sequenced_name source timestamp j)}"

lemma taken_from_finite: "finite (taken_from dir source timestamp k)"
proof (rule finite_imageD)
  show "finite (sequenced_name source timestamp ` taken_from dir source timestamp k)"
    by (rule finite_subset [of _ "fst ` set dir"])
      (auto simp: taken_from_def file_exists_def map_of_eq_None_iff)
  show "inj_on (sequenced_name source timestamp) (taken_from dir source timestamp k)"
    by (meson inj_onI sequenced_name_inj)
qed

function next_sequence :: "directory \<Rightarrow> string \<Rightarrow> string \<Rightarrow> nat \<Rightarrow> string" where
  "next_sequence dir source timestamp sequence =
     (if \<not> file_exists dir (sequenced_name source timestamp sequence) then sequenced_name source timestamp sequence
      else next_sequence dir source timestamp (sequence + 1))"
  by pat_completeness auto
termination
proof (relation "measure (\<lambda>(dir, source, timestamp, k). card (taken_from dir source timestamp k))")
  fix dir source timestamp sequence
  assume "\<not> \<not> file_exists dir (sequenced_name source timestamp sequence)"
  then have "sequence \<in> taken_from dir source timestamp sequence" by (simp add: taken_from_def)
  moreover have "taken_from dir source timestamp (sequence + 1) \<subseteq> taken_from dir source timestamp sequence - {sequence}"
    by (auto simp: taken_from_def)
  ultimately have "taken_from dir source timestamp (sequence + 1) \<subset> taken_from dir source timestamp sequence" by blast
  then show "((dir, source, timestamp, sequence + 1), dir, source, timestamp, sequence)
    \<in> measure (\<lambda>(dir, source, timestamp, k). card (taken_from dir source timestamp k))"
    using psubset_card_mono [OF taken_from_finite] by simp
qed simp

declare next_sequence.simps [simp del]

definition next_backup_path :: "directory \<Rightarrow> string \<Rightarrow> string \<Rightarrow> string" where
  "next_backup_path dir source timestamp =
     (if \<not> file_exists dir (backup_name source timestamp) then backup_name source timestamp
      else next_sequence dir source timestamp 1)"

text \<open>The pattern \<open>stem.pre-migrate-*suffix\<close>, for a name without wildcard characters.\<close>

definition is_backup_name :: "string \<Rightarrow> string \<Rightarrow> bool" where
  "is_backup_name source name =
     (startswith name (backup_prefix source) \<and>
      endswith (drop (length (backup_prefix source)) name) (name_suffix source))"

definition list_sqlite_pre_migration_backups :: "directory \<Rightarrow> string \<Rightarrow> string list" where
  "list_sqlite_pre_migration_backups dir source = sort (filter (is_backup_name source) (remdups (map fst dir)))"

datatype backup_exc = TooFewFiles | SourceNotFound

definition create_sqlite_pre_migration_backup ::
  "int \<Rightarrow> string \<Rightarrow> string \<Rightarrow> directory \<Rightarrow> backup_exc + (directory \<times> string)" where
  "create_sqlite_pre_migration_backup max_files timestamp source dir =
     (if max_files < 1 then Inl TooFewFiles
      else case map_of dir source of
             None \<Rightarrow> Inl SourceNotFound
           | Some content \<Rightarrow>
               let backup_path = next_backup_path dir source timestamp;
                   dir = dir @ [(backup_path, content)];
                   backups = list_sqlite_pre_migration_backups dir source;
                   excess = int (length backups) - max_files;
                   dir = (if 0 < excess then filter (\<lambda>(n, c). n \<notin> set (take (nat excess) backups)) dir else dir)
               in Inr (dir, backup_path))"

section \<open>What the backups keep\<close>

lemma next_sequence_free: "\<not> file_exists dir (next_sequence dir source timestamp k)"
proof (induction dir source timestamp k rule: next_sequence.induct)
  case (1 dir source timestamp k)
  then show ?case by (cases "file_exists dir (sequenced_name source timestamp k)") (simp_all add: next_sequence.simps [of _ _ _ k])
qed

lemma next_backup_path_free: "\<not> file_exists dir (next_backup_path dir source timestamp)"
  by (simp add: next_backup_path_def next_sequence_free)

lemma name_suffix_length: "length (name_suffix name) \<le> length name"
proof (cases "CHR ''.'' \<in> set name")
  case True
  then have "takeWhile (\<lambda>c. c \<noteq> CHR ''.'') (rev name) \<noteq> rev name" unfolding takeWhile_eq_all_conv by auto
  then have "dropWhile (\<lambda>c. c \<noteq> CHR ''.'') (rev name) \<noteq> []"
    using takeWhile_dropWhile_id [of "\<lambda>c. c \<noteq> CHR ''.''" "rev name"] by (metis append_Nil2)
  then have "length (takeWhile (\<lambda>c. c \<noteq> CHR ''.'') (rev name)) < length (rev name)"
    using takeWhile_dropWhile_id [of "\<lambda>c. c \<noteq> CHR ''.''" "rev name"] by (metis length_append length_greater_0_conv less_add_same_cancel1)
  then show ?thesis by (simp add: name_suffix_def Let_def)
qed (simp add: name_suffix_def)

lemma startswith_length: "startswith s p \<Longrightarrow> length p \<le> length s"
  unfolding startswith_def by (metis length_take min.cobounded1)

lemma source_no_backup: "\<not> is_backup_name source source"
proof
  assume "is_backup_name source source"
  then have "length (backup_prefix source) \<le> length source"
    "length (name_suffix source) \<le> length source - length (backup_prefix source)"
    using startswith_length by (auto simp: is_backup_name_def endswith_def)
  then show False using name_suffix_length [of source] by (simp add: backup_prefix_def name_stem_def)
qed

lemma backups_set: "set (list_sqlite_pre_migration_backups dir source) = {n \<in> fst ` set dir. is_backup_name source n}"
  by (auto simp: list_sqlite_pre_migration_backups_def)

lemma backups_distinct: "distinct (list_sqlite_pre_migration_backups dir source)"
  by (simp add: list_sqlite_pre_migration_backups_def)

lemma backups_length:
  "length (list_sqlite_pre_migration_backups dir source) = card {n \<in> fst ` set dir. is_backup_name source n}"
  using distinct_card [OF backups_distinct] backups_set by metis

lemma backups_after_removal:
  assumes "xs = list_sqlite_pre_migration_backups dir source"
  shows "length (list_sqlite_pre_migration_backups (filter (\<lambda>(n, c). n \<notin> set (take k xs)) dir) source) = length xs - k"
proof -
  let ?dir = "filter (\<lambda>(n, c). n \<notin> set (take k xs)) dir"
  have "{n \<in> fst ` set ?dir. is_backup_name source n} = set xs - set (take k xs)"
    using backups_set [of dir source] assms by force
  moreover have "set xs - set (take k xs) = set (drop k xs)"
    using backups_distinct [of dir source] assms set_take_disj_set_drop_if_distinct [of xs k k]
    by (metis Diff_cancel Diff_triv Un_Diff append_take_drop_id inf_commute order_refl set_append sup_bot_left)
  moreover have "card (set (drop k xs)) = length xs - k"
    using distinct_card [of "drop k xs"] backups_distinct [of dir source] assms by simp
  ultimately show ?thesis by (simp add: backups_length)
qed

lemma map_of_filter_key: "map_of (filter (\<lambda>(n, c). P n) dir) n = (if P n then map_of dir n else None)"
  by (induction dir) auto

lemma map_of_append_new: "map_of (dir @ [(p, c)]) n = (if map_of dir n = None \<and> n = p then Some c else map_of dir n)"
  by (auto simp: map_add_def split: option.splits)

text \<open>
  Backups are safe for the data: a backup never overwrites a file, the database and every file that
  is no backup stay as they were, what is kept keeps its contents, a backup that exists afterwards
  under the reported name has the contents of the database, and at most the configured number of
  backups remains.
\<close>

lemma backup_safe:
  assumes "create_sqlite_pre_migration_backup max_files timestamp source dir = Inr (dir', path)"
  shows "\<not> file_exists dir path" "int (length (list_sqlite_pre_migration_backups dir' source)) \<le> max_files"
    "\<not> is_backup_name source n \<Longrightarrow> n \<noteq> path \<Longrightarrow> map_of dir' n = map_of dir n"
    "map_of dir' source = map_of dir source"
    "file_exists dir n \<Longrightarrow> map_of dir' n = None \<or> map_of dir' n = map_of dir n"
    "file_exists dir' path \<Longrightarrow> map_of dir' path = map_of dir source"
proof -
  obtain content where c: "map_of dir source = Some content" "1 \<le> max_files"
    and path: "path = next_backup_path dir source timestamp"
    using assms by (auto simp: create_sqlite_pre_migration_backup_def Let_def split: if_splits option.splits)
  let ?dir = "dir @ [(path, content)]"
  let ?xs = "list_sqlite_pre_migration_backups ?dir source"
  let ?k = "nat (int (length ?xs) - max_files)"
  have dir': "dir' = filter (\<lambda>(n, c). n \<notin> set (take ?k ?xs)) ?dir"
    using assms c path by (auto simp: create_sqlite_pre_migration_backup_def Let_def split: if_splits)
  show new: "\<not> file_exists dir path" using next_backup_path_free path by simp
  have "length (list_sqlite_pre_migration_backups dir' source) = length ?xs - ?k"
    unfolding dir' by (rule backups_after_removal) simp
  then show "int (length (list_sqlite_pre_migration_backups dir' source)) \<le> max_files" using c(2) by linarith
  have look: "map_of dir' n = (if n \<in> set (take ?k ?xs) then None else if map_of dir n = None \<and> n = path then Some content else map_of dir n)" for n
    unfolding dir' using map_of_filter_key [of "\<lambda>n. n \<notin> set (take ?k ?xs)" ?dir n] map_of_append_new [of dir path content n] by simp
  have taken: "is_backup_name source n" if "n \<in> set (take ?k ?xs)" for n
    using that in_set_takeD backups_set [of ?dir source] by fastforce
  show "\<not> is_backup_name source n \<Longrightarrow> n \<noteq> path \<Longrightarrow> map_of dir' n = map_of dir n"
    using look [of n] taken [of n] by auto
  show "map_of dir' source = map_of dir source" using look [of source] taken [of source] source_no_backup c(1) by auto
  show "file_exists dir n \<Longrightarrow> map_of dir' n = None \<or> map_of dir' n = map_of dir n"
    using look [of n] by (auto simp: file_exists_def)
  show "file_exists dir' path \<Longrightarrow> map_of dir' path = map_of dir source"
    using look [of path] new c(1) by (auto simp: file_exists_def split: if_splits)
qed

text \<open>
  The order of the backups is the order of their names, in which a sequenced name of the same
  second comes before the plain one, so that with a limit of one the new backup is removed.
\<close>

lemma backup_of_same_second_removed:
  "\<exists>dir'. create_sqlite_pre_migration_backup 1 ''20250101T000000Z'' ''store.db''
     [(''store.db'', ''new''), (''store.pre-migrate-20250101T000000Z.db'', ''old'')] =
       Inr (dir', ''store.pre-migrate-20250101T000000Z-1.db'') \<and>
     \<not> file_exists dir' ''store.pre-migrate-20250101T000000Z-1.db''"
  by (rule exI [of _ "[(''store.db'', ''new''), (''store.pre-migrate-20250101T000000Z.db'', ''old'')]"]) code_simp

section \<open>The start-up\<close>

text \<open>
  What the database and Alembic give: the rows of a check, the current and the head revision
  (\<open>None\<close> when reading them raises), whether the upgrade succeeds, and the differences of the schema.
\<close>

record db_world =
  dw_pragma :: "check_mode \<Rightarrow> string + string list"
  dw_state :: "(string option \<times> string option) option"
  dw_upgrade :: bool
  dw_drift :: "string list"
  dw_timestamp :: string
  dw_name :: string

datatype init_exc =
    PathError settings_exc | IntegrityFailed bool | InspectFailed | SchemaBehind
  | BackupFailed backup_exc | MigrationFailed | SchemaDrift "string list"

datatype db_effect = BackupTaken string | MigrationRun

definition needs_upgrade :: "string option \<times> string option \<Rightarrow> bool" where
  "needs_upgrade state = (fst state \<noteq> snd state)"

definition startup_integrity :: "settings \<Rightarrow> db_world \<Rightarrow> bool \<Rightarrow> init_exc + unit" where
  "startup_integrity s w exists =
     (if st_database_sqlite_startup_check_mode s = NoCheck then Inr ()
      else let mode = st_database_sqlite_startup_check_mode s;
               integrity = check_sqlite_integrity exists mode (dw_pragma w mode)
           in if ic_ok integrity then Inr ()
              else Inl (IntegrityFailed (str_in ''locked''
                     (lower (case ic_details integrity of Some d \<Rightarrow> if d = [] then ''unknown error'' else d | None \<Rightarrow> ''unknown error'')))))"

definition pre_migration_backup ::
  "settings \<Rightarrow> db_world \<Rightarrow> bool \<Rightarrow> directory \<Rightarrow> init_exc + (db_effect list \<times> directory)" where
  "pre_migration_backup s w exists dir =
     (if st_database_sqlite_pre_migrate_backup_enabled s \<and> exists
      then (case dw_state w of
              None \<Rightarrow> Inl InspectFailed
            | Some state \<Rightarrow>
                if needs_upgrade state
                then (case create_sqlite_pre_migration_backup (st_database_sqlite_pre_migrate_backup_max_files s)
                             (dw_timestamp w) (dw_name w) dir of
                        Inl e \<Rightarrow> Inl (BackupFailed e)
                      | Inr (dir', path) \<Rightarrow> Inr ([BackupTaken path], dir'))
                else Inr ([], dir))
      else Inr ([], dir))"

definition startup_migration :: "db_world \<Rightarrow> init_exc + unit" where
  "startup_migration w =
     (if \<not> dw_upgrade w then Inl MigrationFailed
      else if dw_drift w \<noteq> [] then Inl (SchemaDrift (dw_drift w)) else Inr ())"

definition init_db :: "host \<Rightarrow> settings \<Rightarrow> db_world \<Rightarrow> directory \<Rightarrow> db_effect list \<times> directory \<times> (init_exc + unit)" where
  "init_db ho s w dir =
     (case sqlite_db_path_from_url ho (st_database_url s) of
        Inl e \<Rightarrow> ([], dir, Inl (PathError e))
      | Inr path \<Rightarrow>
          let exists = (path \<noteq> None \<and> file_exists dir (dw_name w))
          in case (if path \<noteq> None then startup_integrity s w exists else Inr ()) of
               Inl e \<Rightarrow> ([], dir, Inl e)
             | Inr _ \<Rightarrow>
                 if \<not> st_database_migrate_on_startup s
                 then (case dw_state w of
                         None \<Rightarrow> ([], dir, Inl InspectFailed)
                       | Some state \<Rightarrow> ([], dir, if needs_upgrade state then Inl SchemaBehind else Inr ()))
                 else (case pre_migration_backup s w exists dir of
                         Inl e \<Rightarrow> ([], dir, Inl e)
                       | Inr (effects, dir') \<Rightarrow>
                           (effects @ [MigrationRun], dir',
                            if st_database_migrations_fail_fast s then startup_migration w else Inr ())))"

text \<open>With validated settings the backup itself cannot be refused.\<close>

lemma backup_not_refused:
  assumes "field_constraints s" "file_exists dir (dw_name w)"
  shows "pre_migration_backup s w exists dir \<noteq> Inl (BackupFailed e)"
proof -
  have "1 \<le> st_database_sqlite_pre_migrate_backup_max_files s" using assms(1) by (simp add: field_constraints_def)
  then show ?thesis
    using assms(2) by (auto simp: pre_migration_backup_def create_sqlite_pre_migration_backup_def file_exists_def Let_def split: option.splits)
qed


definition sample_db_world :: db_world where
  "sample_db_world = \<lparr>dw_pragma = (\<lambda>_. Inr [''ok'']), dw_state = Some (Some ''1'', Some ''2''), dw_upgrade = True, dw_drift = [],
     dw_timestamp = ''20250101T000000Z'', dw_name = ''store.db''\<rparr>"


section \<open>Recovery\<close>

datatype recovery_exc = RecoverySourceMissing | RecoveryOutputExists | DumpFailed | WriteFailed

definition rename_file :: "string \<Rightarrow> string \<Rightarrow> directory \<Rightarrow> directory" where
  "rename_file source target dir =
     (case map_of dir source of
        None \<Rightarrow> dir
      | Some content \<Rightarrow> filter (\<lambda>(n, c). n \<noteq> source \<and> n \<noteq> target) dir @ [(target, content)])"

text \<open>
  \<open>dump\<close> gives the SQL text of the contents of a database, unless it cannot be read. \<open>written\<close> is the
  database made from a text; a text that fails in the middle can leave a file with what came before.
\<close>

definition load_dump :: "(string \<Rightarrow> string option) \<Rightarrow> string \<Rightarrow> directory \<Rightarrow> recovery_exc + string" where
  "load_dump dump source dir =
     (case Option.bind (map_of dir source) dump of None \<Rightarrow> Inl DumpFailed | Some sql \<Rightarrow> Inr sql)"

definition write_dump ::
  "(string \<Rightarrow> string option + string) \<Rightarrow> string \<Rightarrow> string \<Rightarrow> directory \<Rightarrow> directory \<times> (recovery_exc + unit)" where
  "write_dump written output_name sql dir =
     (case written sql of
        Inl None \<Rightarrow> (dir, Inl WriteFailed)
      | Inl (Some part) \<Rightarrow> (dir @ [(output_name, part)], Inl WriteFailed)
      | Inr db \<Rightarrow> (dir @ [(output_name, db)], Inr ()))"

text \<open>The integrity check of the source is only logged.\<close>

definition recover_sqlite_db ::
  "(string \<Rightarrow> string option) \<Rightarrow> (string \<Rightarrow> string option + string) \<Rightarrow> string \<Rightarrow> string \<Rightarrow> string \<Rightarrow> bool \<Rightarrow> directory
   \<Rightarrow> directory \<times> (recovery_exc + (string \<times> string \<times> bool))" where
  "recover_sqlite_db dump written timestamp source output_name replace dir =
     (if \<not> file_exists dir source then (dir, Inl RecoverySourceMissing)
      else if file_exists dir output_name then (dir, Inl RecoveryOutputExists)
      else case load_dump dump source dir of
             Inl e \<Rightarrow> (dir, Inl e)
           | Inr sql \<Rightarrow>
               (case write_dump written output_name sql dir of
                  (dir, Inl e) \<Rightarrow> (dir, Inl e)
                | (dir, Inr _) \<Rightarrow>
                    if replace
                    then let backup = source @ ''.corrupt-'' @ timestamp
                         in (rename_file output_name source (rename_file source backup dir), Inr (backup, source, True))
                    else (dir, Inr (source, output_name, False))))"

lemma rename_file_lookup:
  "map_of dir source = Some content \<Longrightarrow> source \<noteq> target \<Longrightarrow>
    map_of (rename_file source target dir) n = (if n = target then Some content else if n = source then None else map_of dir n)"
  using map_of_filter_key [of "\<lambda>n. n \<noteq> source \<and> n \<noteq> target" dir n]
  by (auto simp: rename_file_def map_add_def split: option.splits)

text \<open>The recovery never loses the old database: it is where it was, or under the reported name.\<close>

lemma recovery_keeps_source:
  assumes "recover_sqlite_db dump written timestamp source output_name replace dir = (dir', Inr (old, new, replaced))"
    "map_of dir source = Some content" "output_name \<noteq> source @ ''.corrupt-'' @ timestamp"
  shows "map_of dir' old = Some content" "\<exists>sql db. dump content = Some sql \<and> written sql = Inr db \<and> map_of dir' new = Some db"
proof -
  note defs = recover_sqlite_db_def load_dump_def write_dump_def file_exists_def Let_def
  obtain sql db where d: "dump content = Some sql" "written sql = Inr db" and fresh: "map_of dir output_name = None"
    using assms(1,2) by (auto simp: defs split: if_splits option.splits sum.splits)
  let ?dir = "dir @ [(output_name, db)]" and ?b = "source @ ''.corrupt-'' @ timestamp"
  have ne: "source \<noteq> output_name" "source \<noteq> ?b" using assms(2) fresh by auto
  have look: "map_of ?dir n = (if n = output_name then Some db else map_of dir n)" for n
    using map_of_append_new [of dir output_name db n] fresh by auto
  have r1: "map_of (rename_file source ?b ?dir) n = (if n = ?b then Some content else if n = source then None else map_of ?dir n)" for n
    using rename_file_lookup [of ?dir source content ?b n] look [of source] assms(2) ne by simp
  have r2: "map_of (rename_file output_name source (rename_file source ?b ?dir)) n =
      (if n = source then Some db else if n = output_name then None else map_of (rename_file source ?b ?dir) n)" for n
    using rename_file_lookup [of "rename_file source ?b ?dir" output_name db source n] r1 [of output_name] look ne assms(3) by simp
  show "map_of dir' old = Some content" "\<exists>sql db. dump content = Some sql \<and> written sql = Inr db \<and> map_of dir' new = Some db"
    using assms(1,2,3) d fresh look r1 r2 ne
    by (auto simp: defs split: if_splits)
qed

text \<open>
  A recovery that fails while it writes can leave the output behind, and the same command is then refused
  for ever: the file it stumbles over is its own.
\<close>

lemma failed_recovery_blocks_the_next:
  assumes "map_of dir source = Some content" and "map_of dir output_name = None"
    and "dump content = Some sql" and "written sql = Inl (Some part)"
  shows "\<exists>dir'. recover_sqlite_db dump written t1 source output_name r1 dir = (dir', Inl WriteFailed) \<and>
    recover_sqlite_db dump written t2 source output_name r2 dir' = (dir', Inl RecoveryOutputExists)"
proof -
  have "file_exists dir source" "\<not> file_exists dir output_name" using assms(1,2) by (simp_all add: file_exists_def)
  moreover have "file_exists (dir @ [(output_name, part)]) source" "file_exists (dir @ [(output_name, part)]) output_name"
    using assms(1,2) by (simp_all add: file_exists_def map_add_def)
  ultimately show ?thesis using assms by (simp add: recover_sqlite_db_def load_dump_def write_dump_def)
qed

end
