(* ===== verification/ReleaseVersions.thy ===== *)
theory ReleaseVersions
  imports JsonCodec
begin

text \<open>
  The version helpers of the release workflows (\<open>src/scripts/release_versions.py\<close>) and the guard
  of stable releases (\<open>src/scripts/guard_stable_release.py\<close>). The regular expressions are written
  out as the functions they stand for. The output of \<open>git\<close> and the event file are parameters; a project is
  the list of its version fields.
\<close>

section \<open>Versions\<close>

datatype channel = Stable | Alpha | Beta | Rc

fun channel_name :: "channel \<Rightarrow> string" where
  "channel_name Stable = ''stable''"
| "channel_name Alpha = ''alpha''"
| "channel_name Beta = ''beta''"
| "channel_name Rc = ''rc''"

record release_version =
  rv_version :: string
  rv_base :: string
  rv_channel :: channel
  rv_serial :: "int option"

definition all_digits :: "string \<Rightarrow> bool" where
  "all_digits s = (s \<noteq> [] \<and> list_all is_dec s)"

text \<open>\<open>\d+\.\d+\.\d+\<close> and \<open>[1-9]\d*\<close>.\<close>

definition base_ok :: "string \<Rightarrow> bool" where
  "base_ok s = (case split_on (CHR ''.'') s of [a, b, c] \<Rightarrow> all_digits a \<and> all_digits b \<and> all_digits c | _ \<Rightarrow> False)"

definition serial_ok :: "string \<Rightarrow> bool" where
  "serial_ok s = (all_digits s \<and> hd s \<noteq> CHR ''0'')"

definition channel_of :: "string \<Rightarrow> channel option" where
  "channel_of s = map_of [(''alpha'', Alpha), (''beta'', Beta), (''rc'', Rc)] s"

definition split_first :: "char \<Rightarrow> string \<Rightarrow> string \<times> string option" where
  "split_first sep s =
     (case dropWhile (\<lambda>c. c \<noteq> sep) s of
        [] \<Rightarrow> (s, None)
      | _ # rest \<Rightarrow> (takeWhile (\<lambda>c. c \<noteq> sep) s, Some rest))"

text \<open>The groups of the pattern of a version, if it matches.\<close>

definition match_version :: "string \<Rightarrow> (string \<times> (channel \<times> string) option) option" where
  "match_version version =
     (case split_first (CHR ''-'') version of
        (base, None) \<Rightarrow> if base_ok base then Some (base, None) else None
      | (base, Some suffix) \<Rightarrow>
          (case split_first (CHR ''.'') suffix of
             (name, Some serial) \<Rightarrow>
               (case channel_of name of
                  Some ch \<Rightarrow> if base_ok base \<and> serial_ok serial then Some (base, Some (ch, serial)) else None
                | None \<Rightarrow> None)
           | (name, None) \<Rightarrow> None))"

definition parse_version :: "string \<Rightarrow> release_version res" where
  "parse_version version =
     (case match_version version of
        None \<Rightarrow> Inl ValueError
      | Some (base, None) \<Rightarrow> Inr \<lparr>rv_version = version, rv_base = base, rv_channel = Stable, rv_serial = None\<rparr>
      | Some (base, Some (ch, serial)) \<Rightarrow>
          res_bind (py_int serial) (\<lambda>n.
            Inr \<lparr>rv_version = version, rv_base = base, rv_channel = ch, rv_serial = Some n\<rparr>))"

definition parse_tag :: "string \<Rightarrow> release_version res" where
  "parse_tag tag =
     (case tag of
        c # version \<Rightarrow> if c = CHR ''v'' \<and> match_version version \<noteq> None then parse_version version else Inl ValueError
      | [] \<Rightarrow> Inl ValueError)"

definition is_prerelease :: "release_version \<Rightarrow> bool" where
  "is_prerelease r = (rv_channel r \<noteq> Stable)"

definition release_tag :: "release_version \<Rightarrow> string" where
  "release_tag r = CHR ''v'' # rv_version r"

text \<open>\<open>f"{serial}"\<close> of \<open>None\<close> is \<open>"None"\<close>.\<close>

definition serial_str :: "int option \<Rightarrow> string" where
  "serial_str n = (case n of None \<Rightarrow> ''None'' | Some n \<Rightarrow> py_str_int n)"

definition pypi_version :: "release_version \<Rightarrow> string" where
  "pypi_version r =
     (case rv_channel r of
        Stable \<Rightarrow> rv_version r
      | Alpha \<Rightarrow> rv_base r @ ''a'' @ serial_str (rv_serial r)
      | Beta \<Rightarrow> rv_base r @ ''b'' @ serial_str (rv_serial r)
      | Rc \<Rightarrow> rv_base r @ ''rc'' @ serial_str (rv_serial r))"

definition pep440_channel :: "string \<Rightarrow> channel option" where
  "pep440_channel s = map_of [(''a'', Alpha), (''b'', Beta), (''rc'', Rc)] s"

definition base_char :: "char \<Rightarrow> bool" where
  "base_char c = (is_dec c \<or> c = CHR ''.'')"

definition canonical_release_version :: "string \<Rightarrow> string" where
  "canonical_release_version value =
     (let base = takeWhile base_char value; rest = dropWhile base_char value;
          name = takeWhile (\<lambda>c. \<not> is_dec c) rest; serial = dropWhile (\<lambda>c. \<not> is_dec c) rest
      in case pep440_channel name of
           Some ch \<Rightarrow> if base_ok base \<and> serial_ok serial then base @ ''-'' @ channel_name ch @ ''.'' @ serial else value
         | None \<Rightarrow> value)"

definition canonical_release_version_for_file :: "string \<Rightarrow> string \<Rightarrow> string" where
  "canonical_release_version_for_file name value = (if name = ''uv.lock'' then canonical_release_version value else value)"

section \<open>The version fields of a project\<close>

text \<open>
  The version fields that \<open>read_project_versions\<close> collects, and the value that
  \<open>update_project_versions\<close> puts in each of them: the specification that the rewriting of the text files
  is proved to meet in the theory of the version files.
\<close>

definition version_fields :: "string list" where
  "version_fields = [''pyproject.toml'', ''app/__init__.py'', ''frontend/package.json'',
     ''deploy/helm/firecrawl-lb/Chart.yaml version'', ''deploy/helm/firecrawl-lb/Chart.yaml appVersion'', ''uv.lock'']"

definition written_versions :: "string \<Rightarrow> (string \<times> string) list res" where
  "written_versions version =
     res_bind (parse_version version) (\<lambda>release.
       Inr (map (\<lambda>f. (f, if f = ''uv.lock'' then pypi_version release else version)) version_fields))"

definition version_mismatches :: "(string \<times> string) list \<Rightarrow> string \<Rightarrow> (string \<times> string) list" where
  "version_mismatches versions expected_version =
     (let expected = canonical_release_version expected_version
      in filter (\<lambda>(name, actual). canonical_release_version_for_file name actual \<noteq>
           canonical_release_version_for_file name expected) versions)"

definition assert_project_versions :: "(string \<times> string) list \<Rightarrow> string \<Rightarrow> unit res" where
  "assert_project_versions versions expected_version =
     (if version_mismatches versions expected_version = [] then Inr () else Inl ValueError)"

section \<open>Commits and tags\<close>

record commit_message =
  cm_sha :: string
  cm_subject :: string
  cm_body :: string

text \<open>
  \<open>[a-z][a-z0-9-]*\<close>, an optional scope in parentheses, an optional exclamation mark, a colon, a
  blank and a description that is not empty and has no line break: type and breaking mark.
\<close>

definition type_char :: "char \<Rightarrow> bool" where
  "type_char c = (let n = code_point c :: nat in 97 \<le> n \<and> n \<le> 122 \<or> 48 \<le> n \<and> n \<le> 57 \<or> n = 45)"

definition lower_letter :: "char \<Rightarrow> bool" where
  "lower_letter c = (let n = code_point c :: nat in 97 \<le> n \<and> n \<le> 122)"

definition drop_scope :: "string \<Rightarrow> string option" where
  "drop_scope s =
     (case s of
        c # r \<Rightarrow>
          if c = CHR ''('' then
            (case split_first (CHR '')'') r of
               (scope, Some rest) \<Rightarrow> if scope = [] then None else Some rest
             | (scope, None) \<Rightarrow> None)
          else Some s
      | [] \<Rightarrow> Some s)"

definition conventional_subject :: "string \<Rightarrow> (string \<times> bool) option" where
  "conventional_subject s =
     (let ty = takeWhile type_char s
      in if ty = [] \<or> \<not> lower_letter (hd ty) then None
         else case drop_scope (dropWhile type_char s) of
                None \<Rightarrow> None
              | Some r \<Rightarrow>
                  let breaking = (r \<noteq> [] \<and> hd r = CHR ''!''); r = (if breaking then tl r else r)
                  in if startswith r '': '' \<and> drop 2 r \<noteq> [] \<and> CHR 10 \<notin> set (drop 2 r) then Some (ty, breaking) else None)"

definition is_releasable_conventional_commit :: "string \<Rightarrow> string \<Rightarrow> bool" where
  "is_releasable_conventional_commit subject body =
     (case conventional_subject (strip subject) of
        None \<Rightarrow> False
      | Some (ty, breaking) \<Rightarrow>
          breaking \<or> str_in ''BREAKING CHANGE:'' body \<or> str_in ''BREAKING-CHANGE:'' body \<or>
          ty \<in> {''deps'', ''feat'', ''fix'', ''perf'', ''revert''})"

definition releasable_commits :: "commit_message list \<Rightarrow> commit_message list" where
  "releasable_commits commits = filter (\<lambda>c. is_releasable_conventional_commit (cm_subject c) (cm_body c)) commits"

definition format_beta_changelog :: "string \<Rightarrow> commit_message list \<Rightarrow> string" where
  "format_beta_changelog ref commits =
     (let releasable = releasable_commits commits
      in if releasable = [] then ''No releasable Conventional Commits since `'' @ ref @ ''`.''
         else join [CHR 10] (map (\<lambda>c. ''- '' @ cm_subject c @ '' ('' @ take 7 (cm_sha c) @ '')'') releasable))"

definition latest_stable_tag :: "string list \<Rightarrow> string option" where
  "latest_stable_tag tags = find (\<lambda>t. t \<noteq> [] \<and> hd t = CHR ''v'' \<and> base_ok (tl t)) tags"

fun latest_beta :: "string \<Rightarrow> string list \<Rightarrow> release_version option \<Rightarrow> release_version option" where
  "latest_beta base_version [] latest = latest"
| "latest_beta base_version (tag # tags) latest =
     latest_beta base_version tags
       (case parse_tag (strip tag) of
          Inl _ \<Rightarrow> latest
        | Inr parsed \<Rightarrow>
            if rv_base parsed \<noteq> base_version \<or> rv_channel parsed \<noteq> Beta \<or> rv_serial parsed = None then latest
            else (case latest of
                    None \<Rightarrow> Some parsed
                  | Some l \<Rightarrow>
                      if (case rv_serial l of None \<Rightarrow> 0 | Some n \<Rightarrow> n) < the (rv_serial parsed) then Some parsed else latest))"

definition latest_beta_tag :: "string \<Rightarrow> string list \<Rightarrow> release_version option res" where
  "latest_beta_tag base_version tags = res_bind (parse_version base_version) (\<lambda>_. Inr (latest_beta base_version tags None))"

definition next_beta_number :: "string \<Rightarrow> string list \<Rightarrow> int res" where
  "next_beta_number base_version tags =
     res_bind (latest_beta_tag base_version tags) (\<lambda>latest.
       Inr (case latest of
              Some l \<Rightarrow> (case rv_serial l of Some n \<Rightarrow> n + 1 | None \<Rightarrow> 1)
            | None \<Rightarrow> 1))"

section \<open>The guard of stable releases\<close>

definition canonical_versions :: "(string \<times> string) list \<Rightarrow> (string \<times> string) list" where
  "canonical_versions versions = map (\<lambda>(name, v). (name, canonical_release_version_for_file name v)) versions"

definition changed_version_fields :: "(string \<times> string) list \<Rightarrow> (string \<times> string) list \<Rightarrow> string list" where
  "changed_version_fields base_versions current_versions =
     sort (map fst (filter (\<lambda>(name, v). map_of (canonical_versions base_versions) name \<noteq> Some v)
       (canonical_versions current_versions)))"

definition require_consistent_current_versions :: "(string \<times> string) list \<Rightarrow> string option" where
  "require_consistent_current_versions versions =
     (case remdups (map snd (canonical_versions versions)) of [v] \<Rightarrow> Some v | _ \<Rightarrow> None)"

definition RELEASE_PLEASE_BRANCH :: string where
  "RELEASE_PLEASE_BRANCH = ''release-please--branches--main''"

datatype guard_result = GuardPassed | GuardError | GuardRaised pyexc

text \<open>
  \<open>pr\<close> is the pull request of the event, if any, as the name of its head branch; \<open>canonical_head\<close>
  is whether its head repository is the canonical one (\<open>guard_beta_release.py\<close>).
\<close>

definition guard_stable_pull_request ::
  "(string \<times> string) list \<Rightarrow> (string \<times> string) list \<Rightarrow> string option \<Rightarrow> bool \<Rightarrow> string \<Rightarrow> guard_result" where
  "guard_stable_pull_request base_versions current_versions pr canonical_head head_ref =
     (let head_ref = (case pr of None \<Rightarrow> head_ref | Some r \<Rightarrow> if head_ref = [] then r else head_ref);
          changed = changed_version_fields base_versions current_versions
      in if ''pyproject.toml'' \<notin> set changed then GuardPassed
         else case parse_version (case map_of current_versions ''pyproject.toml'' of Some v \<Rightarrow> v | None \<Rightarrow> []) of
                Inl e \<Rightarrow> GuardRaised e
              | Inr release \<Rightarrow>
                  if rv_channel release \<noteq> Stable then GuardPassed
                  else if head_ref \<noteq> [] \<and> head_ref \<noteq> RELEASE_PLEASE_BRANCH then GuardError
                  else if head_ref = [] \<and> pr \<noteq> None then GuardError
                  else if pr \<noteq> None \<and> \<not> canonical_head then GuardError
                  else if require_consistent_current_versions current_versions = None then GuardError
                  else if changed \<noteq> sort (map fst current_versions) then GuardError
                  else GuardPassed)"

section \<open>Printing and parsing\<close>

lemma digit_code: "is_dec c \<longleftrightarrow> 48 \<le> (of_char c :: nat) \<and> (of_char c :: nat) \<le> 57"
  by (simp add: is_dec_def Let_def)

lemma of_char_int: "(of_char c :: int) = int (of_char c)"
  by (rule of_nat_of_char [symmetric])

lemma digit_code_int: "is_dec c \<Longrightarrow> 48 \<le> (of_char c :: int) \<and> (of_char c :: int) \<le> 57"
  unfolding digit_code using of_char_int [of c] by linarith

lemma digit_not_space: "is_dec c \<Longrightarrow> \<not> py_isspace c"
  by (auto simp: digit_code py_isspace_def Let_def)

lemma char_of_digit: "is_dec c \<Longrightarrow> char_of (48 + nat (of_char c - 48 :: int)) = c"
proof -
  assume c: "is_dec c"
  have "48 + nat (of_char c - 48 :: int) = (of_char c :: nat)"
    using c of_char_int [of c] unfolding digit_code by linarith
  then show "char_of (48 + nat (of_char c - 48 :: int)) = c" by (metis char_of_char)
qed

lemma dec_value_nonneg: "list_all is_dec s \<Longrightarrow> 0 \<le> dec_value s"
proof (induction s rule: rev_induct)
  case (snoc c s)
  have "(48 :: int) \<le> of_char c" using snoc.prems digit_code_int by simp
  with snoc show ?case by (simp add: dec_value_snoc)
qed (simp add: dec_value_def)

lemma dec_value_pos: "serial_ok s \<Longrightarrow> 0 < dec_value s"
proof (induction s rule: rev_induct)
  case (snoc c s)
  have c: "is_dec c" "(48 :: int) \<le> of_char c" using snoc.prems digit_code_int by (simp_all add: serial_ok_def all_digits_def)
  show ?case
  proof (cases "s = []")
    case True
    have "c \<noteq> CHR ''0''" using snoc.prems True by (simp add: serial_ok_def)
    then have "of_char c \<noteq> (48 :: nat)" unfolding char_eq_of_nat by simp
    then have "(of_char c :: int) \<noteq> 48" using of_char_int [of c] by linarith
    with c True show ?thesis using dec_value_snoc [of c "[]"] by (simp add: dec_value_def)
  next
    case False
    with snoc have "0 < dec_value s" by (simp add: serial_ok_def all_digits_def)
    with c show ?thesis by (simp add: dec_value_snoc)
  qed
qed (simp add: serial_ok_def all_digits_def)

lemma nat_digits_dec_value: "serial_ok s \<Longrightarrow> nat_digits (nat (dec_value s)) = s"
proof (induction s rule: rev_induct)
  case (snoc c s)
  let ?d = "nat (of_char c - 48 :: int)"
  have c: "is_dec c" using snoc.prems by (simp add: serial_ok_def all_digits_def)
  then have d: "?d < 10" "int ?d = of_char c - 48" using digit_code_int by fastforce+
  show ?case
  proof (cases "s = []")
    case True
    with c d char_of_digit [OF c] show ?thesis
      using dec_value_snoc [of c "[]"] by (simp add: nat_digits.simps dec_value_def)
  next
    case False
    with snoc.prems have s: "serial_ok s" by (simp add: serial_ok_def all_digits_def)
    with snoc.IH have ih: "nat_digits (nat (dec_value s)) = s" by simp
    have "nat (dec_value (s @ [c])) = 10 * nat (dec_value s) + ?d"
      using dec_value_pos [OF s] digit_code_int [OF c] dec_value_snoc [OF c, of s] by linarith
    moreover have "\<not> 10 * nat (dec_value s) + ?d < 10" using dec_value_pos [OF s] by simp
    ultimately show ?thesis
      using ih d(1) char_of_digit [OF c] by (simp add: nat_digits.simps [of "10 * nat (dec_value s) + ?d"])
  qed
qed (simp add: serial_ok_def all_digits_def)

lemma serial_print: "serial_ok s \<Longrightarrow> py_str_int (dec_value s) = s"
  using dec_value_pos [of s] nat_digits_dec_value [of s] by (simp add: py_str_int_def)

lemma strip_digits: "list_all is_dec s \<Longrightarrow> strip s = s"
proof -
  assume s: "list_all is_dec s"
  have keep: "dropWhile py_isspace t = t" if "list_all is_dec t" for t
    using that digit_not_space by (cases t) auto
  with s have "lstrip s = s" by (simp add: lstrip_def)
  moreover have "rstrip s = s" using keep [of "rev s"] s by (simp add: rstrip_def list_all_rev)
  ultimately show "strip s = s" by (simp add: strip_def)
qed

lemma py_int_serial: "serial_ok s \<Longrightarrow> py_int s = Inr n \<Longrightarrow> n = dec_value s"
proof -
  assume s: "serial_ok s" "py_int s = Inr n"
  then have d: "list_all is_dec s" "s \<noteq> []" by (simp_all add: serial_ok_def all_digits_def)
  then have "hd s \<noteq> CHR ''-''" "hd s \<noteq> CHR ''+''" by (cases s; auto simp: is_dec_def)+
  with s(2) strip_digits [OF d(1)] show "n = dec_value s"
    by (simp add: py_int_def Let_def split: if_splits)
qed

lemma split_first_Some: "split_first sep s = (a, Some b) \<Longrightarrow> s = a @ sep # b \<and> sep \<notin> set a"
proof -
  assume "split_first sep s = (a, Some b)"
  then obtain c where d: "dropWhile (\<lambda>c. c \<noteq> sep) s = c # b" "a = takeWhile (\<lambda>c. c \<noteq> sep) s"
    by (auto simp: split_first_def split: list.splits)
  then have "c = sep" using hd_dropWhile [of "\<lambda>c. c \<noteq> sep" s] by simp
  moreover have "s = a @ c # b" using d takeWhile_dropWhile_id [of "\<lambda>c. c \<noteq> sep" s] by simp
  moreover have "sep \<notin> set a" using d(2) set_takeWhileD by fastforce
  ultimately show "s = a @ sep # b \<and> sep \<notin> set a" by simp
qed

lemma split_first_None: "split_first sep s = (a, None) \<Longrightarrow> a = s \<and> sep \<notin> set s"
  by (auto simp: split_first_def dropWhile_eq_Nil_conv split: list.splits)

lemma split_on_chars: "c \<in> set s \<Longrightarrow> c = sep \<or> (\<exists>w\<in>set (split_on sep s). c \<in> set w)"
  by (induction sep s rule: split_on.induct) (auto split: list.splits if_splits)

lemma base_ok_chars:
  assumes "base_ok b"
  shows "list_all base_char b"
proof -
  obtain x y z where xyz: "split_on (CHR ''.'') b = [x, y, z]" "all_digits x" "all_digits y" "all_digits z"
    using assms by (auto simp: base_ok_def split: list.splits)
  have "base_char c" if "c \<in> set b" for c
    using split_on_chars [OF that, of "CHR ''.''"] xyz by (auto simp: base_char_def all_digits_def list_all_iff)
  then show ?thesis by (simp add: list_all_iff)
qed

lemma match_version_Some:
  "match_version v = Some (base, Some (ch, serial)) \<Longrightarrow>
    v = base @ ''-'' @ channel_name ch @ ''.'' @ serial \<and> base_ok base \<and> serial_ok serial \<and> ch \<noteq> Stable"
  "match_version v = Some (base, None) \<Longrightarrow> v = base \<and> base_ok base"
  by (auto simp: match_version_def channel_of_def dest!: split_first_Some split_first_None
      split: prod.splits option.splits if_splits)

lemma parse_version_Inr:
  assumes "parse_version v = Inr r"
  shows "(rv_channel r = Stable \<and> rv_version r = v \<and> rv_base r = v \<and> rv_serial r = None \<and> base_ok v) \<or>
    (\<exists>serial. rv_channel r \<noteq> Stable \<and> rv_version r = v \<and> base_ok (rv_base r) \<and> serial_ok serial \<and>
      rv_serial r = Some (dec_value serial) \<and>
      v = rv_base r @ ''-'' @ channel_name (rv_channel r) @ ''.'' @ serial)"
proof (cases "match_version v")
  case None
  with assms show ?thesis by (simp add: parse_version_def)
next
  case (Some m)
  obtain base k where m: "m = (base, k)" by force
  show ?thesis
  proof (cases k)
    case None
    with assms Some m match_version_Some(2) [of v base] show ?thesis by (auto simp: parse_version_def)
  next
    case (Some cs)
    obtain ch serial where cs: "cs = (ch, serial)" by force
    have mv: "match_version v = Some (base, Some (ch, serial))"
      using \<open>match_version v = Some m\<close> m Some cs by simp
    note parts = match_version_Some(1) [OF mv]
    obtain n where n: "py_int serial = Inr n"
      "r = \<lparr>rv_version = v, rv_base = base, rv_channel = ch, rv_serial = Some n\<rparr>"
      using assms mv by (cases "py_int serial") (auto simp: parse_version_def)
    have "n = dec_value serial" using py_int_serial [OF _ n(1)] parts by simp
    with n parts show ?thesis by (intro disjI2 exI [of _ serial]) simp
  qed
qed

lemma base_char_not_letter: "\<not> base_char (CHR ''a'')" "\<not> base_char (CHR ''b'')" "\<not> base_char (CHR ''r'')"
  by (simp_all add: base_char_def is_dec_def)

lemma canonical_pep440:
  assumes "base_ok base" "serial_ok serial" "pep440_channel name = Some ch"
  shows "canonical_release_version (base @ name @ serial) = base @ ''-'' @ channel_name ch @ ''.'' @ serial"
proof -
  obtain d ds where serial: "serial = d # ds" "is_dec d"
    using assms(2) by (cases serial) (auto simp: serial_ok_def all_digits_def)
  have name: "name = ''a'' \<or> name = ''b'' \<or> name = ''rc''"
    using assms(3) by (auto simp: pep440_channel_def split: if_splits)
  have base: "list_all base_char base" using assms(1) by (rule base_ok_chars)
  have tw: "takeWhile base_char (base @ name @ serial) = base" "dropWhile base_char (base @ name @ serial) = name @ serial"
    using base name base_char_not_letter by (auto simp: list_all_iff takeWhile_append2 dropWhile_append2)
  have "takeWhile (\<lambda>c. \<not> is_dec c) (name @ serial) = name" "dropWhile (\<lambda>c. \<not> is_dec c) (name @ serial) = serial"
    using name serial by (auto simp: is_dec_def Let_def)
  with tw assms show ?thesis by (simp add: canonical_release_version_def Let_def)
qed

lemma canonical_no_letter:
  assumes "list_all base_char s"
  shows "canonical_release_version s = s"
proof -
  have rest: "dropWhile base_char s = []" using assms by (auto simp: list_all_iff)
  show ?thesis unfolding canonical_release_version_def rest Let_def pep440_channel_def by simp
qed

lemma canonical_pypi:
  assumes "parse_version v = Inr r"
  shows "canonical_release_version (pypi_version r) = v"
  using parse_version_Inr [OF assms]
proof (elim disjE exE)
  assume "rv_channel r = Stable \<and> rv_version r = v \<and> rv_base r = v \<and> rv_serial r = None \<and> base_ok v"
  then show ?thesis using canonical_no_letter [OF base_ok_chars] by (simp add: pypi_version_def)
next
  fix serial
  assume r: "rv_channel r \<noteq> Stable \<and> rv_version r = v \<and> base_ok (rv_base r) \<and> serial_ok serial \<and>
      rv_serial r = Some (dec_value serial) \<and> v = rv_base r @ ''-'' @ channel_name (rv_channel r) @ ''.'' @ serial"
  then have "serial_str (rv_serial r) = serial" by (simp add: serial_str_def serial_print)
  with r canonical_pep440 [of "rv_base r" serial "''a''" Alpha] canonical_pep440 [of "rv_base r" serial "''b''" Beta]
    canonical_pep440 [of "rv_base r" serial "''rc''" Rc] show ?thesis
    by (cases "rv_channel r") (simp_all add: pypi_version_def pep440_channel_def)
qed

section \<open>Version fields, beta numbers and the stable guard\<close>

lemma canonical_of_version: "parse_version v = Inr r \<Longrightarrow> canonical_release_version v = v"
proof (drule parse_version_Inr, elim disjE exE)
  assume "rv_channel r = Stable \<and> rv_version r = v \<and> rv_base r = v \<and> rv_serial r = None \<and> base_ok v"
  then show ?thesis using canonical_no_letter [OF base_ok_chars] by simp
next
  fix serial
  assume r: "rv_channel r \<noteq> Stable \<and> rv_version r = v \<and> base_ok (rv_base r) \<and> serial_ok serial \<and>
      rv_serial r = Some (dec_value serial) \<and> v = rv_base r @ ''-'' @ channel_name (rv_channel r) @ ''.'' @ serial"
  then have base: "list_all base_char (rv_base r)" using base_ok_chars by simp
  have dash: "\<not> base_char (CHR ''-'')" "\<not> is_dec (CHR ''-'')" by (simp_all add: base_char_def is_dec_def)
  have "dropWhile base_char v = ''-'' @ channel_name (rv_channel r) @ ''.'' @ serial"
    using r base dash by (simp add: list_all_iff dropWhile_append2)
  moreover have "hd (takeWhile (\<lambda>c. \<not> is_dec c) (''-'' @ s)) = CHR ''-''" for s using dash by simp
  ultimately have "hd (takeWhile (\<lambda>c. \<not> is_dec c) (dropWhile base_char v)) = CHR ''-''" by metis
  then have "pep440_channel (takeWhile (\<lambda>c. \<not> is_dec c) (dropWhile base_char v)) = None"
    by (auto simp: pep440_channel_def)
  then show ?thesis by (simp add: canonical_release_version_def Let_def)
qed

lemma update_assert:
  assumes "written_versions v = Inr written"
  shows "assert_project_versions written v = Inr ()"
proof -
  obtain r where r: "parse_version v = Inr r"
    "written = map (\<lambda>f. (f, if f = ''uv.lock'' then pypi_version r else v)) version_fields"
    using assms by (cases "parse_version v") (auto simp: written_versions_def)
  have "canonical_release_version (pypi_version r) = v"
    by (rule canonical_pypi [OF r(1)])
  with r canonical_of_version [OF r(1)] show ?thesis
    by (auto simp: assert_project_versions_def version_mismatches_def canonical_release_version_for_file_def
        filter_empty_conv)
qed

definition beta_of :: "string \<Rightarrow> string \<Rightarrow> int option" where
  "beta_of base tag = (case parse_tag (strip tag) of
     Inr r \<Rightarrow> if rv_base r = base \<and> rv_channel r = Beta then rv_serial r else None | Inl _ \<Rightarrow> None)"

lemma latest_beta_upper:
  assumes "latest_beta base tags l = l'" "\<And>r. l = Some r \<Longrightarrow> rv_serial r \<noteq> None"
  shows "(\<forall>r. l = Some r \<longrightarrow> (\<exists>r'. l' = Some r' \<and> the (rv_serial r) \<le> the (rv_serial r'))) \<and>
    (\<forall>t\<in>set tags. \<forall>n. beta_of base t = Some n \<longrightarrow> (\<exists>r'. l' = Some r' \<and> n \<le> the (rv_serial r'))) \<and>
    (\<forall>r. l' = Some r \<longrightarrow> rv_serial r \<noteq> None)"
  using assms
proof (induction tags arbitrary: l)
  case (Cons t ts)
  define m where "m = (case parse_tag (strip t) of
          Inl _ \<Rightarrow> l
        | Inr parsed \<Rightarrow>
            if rv_base parsed \<noteq> base \<or> rv_channel parsed \<noteq> Beta \<or> rv_serial parsed = None then l
            else (case l of
                    None \<Rightarrow> Some parsed
                  | Some l' \<Rightarrow>
                      if (case rv_serial l' of None \<Rightarrow> 0 | Some n \<Rightarrow> n) < the (rv_serial parsed) then Some parsed else l))"
  have m: "latest_beta base ts m = l'" "\<And>r. m = Some r \<Longrightarrow> rv_serial r \<noteq> None"
    "\<And>r. l = Some r \<Longrightarrow> \<exists>r'. m = Some r' \<and> the (rv_serial r) \<le> the (rv_serial r')"
    "\<And>n. beta_of base t = Some n \<Longrightarrow> \<exists>r'. m = Some r' \<and> n \<le> the (rv_serial r')"
    using Cons.prems
    by (auto simp: m_def beta_of_def split: sum.splits option.splits if_splits)
  show ?case using Cons.IH [OF m(1,2)] m(3,4) by (fastforce intro: order_trans)
qed simp

lemma next_beta_number_fresh:
  assumes "next_beta_number base tags = Inr n" "t \<in> set tags" "beta_of base t = Some k"
  shows "k < n"
proof -
  have n: "n = (case latest_beta base tags None of
              Some l \<Rightarrow> (case rv_serial l of Some n \<Rightarrow> n + 1 | None \<Rightarrow> 1) | None \<Rightarrow> 1)"
    using assms(1) by (auto simp: next_beta_number_def latest_beta_tag_def res_bind_def split: sum.splits)
  with latest_beta_upper [OF refl, of None base tags] assms(2,3) show ?thesis
    by (fastforce split: option.splits)
qed

lemma stable_guard:
  assumes "guard_stable_pull_request base_versions current_versions (Some r) canonical_head head_ref = GuardPassed"
    "''pyproject.toml'' \<in> set (changed_version_fields base_versions current_versions)"
    "map_of current_versions ''pyproject.toml'' = Some v" "parse_version v = Inr rel" "rv_channel rel = Stable"
  shows "(if head_ref = [] then r else head_ref) = RELEASE_PLEASE_BRANCH" "canonical_head"
    "changed_version_fields base_versions current_versions = sort (map fst current_versions)"
    "\<exists>u. \<forall>f w. (f, w) \<in> set current_versions \<longrightarrow> canonical_release_version_for_file f w = u"
proof -
  have g: "(if head_ref = [] then r else head_ref) = RELEASE_PLEASE_BRANCH \<and> canonical_head \<and>
      require_consistent_current_versions current_versions \<noteq> None \<and>
      changed_version_fields base_versions current_versions = sort (map fst current_versions)"
    using assms by (auto simp: guard_stable_pull_request_def Let_def split: if_splits)
  then show "(if head_ref = [] then r else head_ref) = RELEASE_PLEASE_BRANCH" "canonical_head"
    "changed_version_fields base_versions current_versions = sort (map fst current_versions)" by simp_all
  obtain u where "remdups (map snd (canonical_versions current_versions)) = [u]"
    using g by (auto simp: require_consistent_current_versions_def split: list.splits)
  then have "snd ` set (canonical_versions current_versions) = {u}" by (metis list.set(1,2) set_map set_remdups)
  then show "\<exists>u. \<forall>f w. (f, w) \<in> set current_versions \<longrightarrow> canonical_release_version_for_file f w = u"
    by (intro exI [of _ u]) (force simp: canonical_versions_def)
qed

lemma tag_roundtrip: "parse_version v = Inr r \<Longrightarrow> parse_tag (release_tag r) = Inr r"
proof -
  assume v: "parse_version v = Inr r"
  then have "match_version v \<noteq> None" by (cases "match_version v") (simp_all add: parse_version_def)
  moreover have "rv_version r = v" using parse_version_Inr [OF v] by blast
  ultimately show "parse_tag (release_tag r) = Inr r" using v by (simp add: parse_tag_def release_tag_def)
qed

text \<open>
  The spellings of a release version agree: for every version that parses, the spelling of PyPI
  written to \<open>uv.lock\<close> is read back as the version itself, the version is its own canonical
  spelling, and its tag parses to the same release.
\<close>

lemma release_version_roundtrip:
  assumes "parse_version v = Inr r"
  shows "canonical_release_version (pypi_version r) = v \<and> canonical_release_version v = v \<and>
    parse_tag (release_tag r) = Inr r"
  using canonical_pypi [OF assms] canonical_of_version [OF assms] tag_roundtrip [OF assms] by blast

lemma release_version_roundtrip_example:
  "parse_version ''1.20.3-beta.14'' = Inr \<lparr>rv_version = ''1.20.3-beta.14'', rv_base = ''1.20.3'', rv_channel = Beta, rv_serial = Some 14\<rparr> \<and>
   canonical_release_version (pypi_version \<lparr>rv_version = ''1.20.3-beta.14'', rv_base = ''1.20.3'', rv_channel = Beta, rv_serial = Some 14\<rparr>)
     = ''1.20.3-beta.14''"
proof -
  have "parse_version ''1.20.3-beta.14'' = Inr \<lparr>rv_version = ''1.20.3-beta.14'', rv_base = ''1.20.3'', rv_channel = Beta, rv_serial = Some 14\<rparr>"
    by code_simp
  with release_version_roundtrip [OF this] show ?thesis by blast
qed

end
