(* ===== verification/RuntimeVersion.thy ===== *)
theory RuntimeVersion
  imports ReleaseVersions
begin

text \<open>
  The update check of the dashboard (\<open>src/app/modules/runtime/service.py\<close>): version numbers with
  their precedence, the release read from GitHub and the cached answer. The HTTP client is a
  parameter: what the request for the latest release gives.
\<close>

section \<open>Version numbers\<close>

text \<open>\<open>0|[1-9]\d*\<close> and \<open>[0-9A-Za-z.-]+\<close>.\<close>

definition number_ok :: "string \<Rightarrow> bool" where
  "number_ok s = (s = ''0'' \<or> serial_ok s)"

definition prerelease_char :: "char \<Rightarrow> bool" where
  "prerelease_char c = (let n = code_point c :: nat in
     48 \<le> n \<and> n \<le> 57 \<or> 65 \<le> n \<and> n \<le> 90 \<or> 97 \<le> n \<and> n \<le> 122 \<or> n = 45 \<or> n = 46)"

definition match_runtime_version :: "string \<Rightarrow> (string \<times> string \<times> string \<times> string option) option" where
  "match_runtime_version value =
     (let s = (if value \<noteq> [] \<and> hd value = CHR ''v'' then tl value else value)
      in case split_first (CHR ''-'') s of
           (core, prerelease) \<Rightarrow>
             (case split_on (CHR ''.'') core of
                [major, minor, patch] \<Rightarrow>
                  if number_ok major \<and> number_ok minor \<and> number_ok patch \<and>
                     (case prerelease of None \<Rightarrow> True | Some p \<Rightarrow> p \<noteq> [] \<and> list_all prerelease_char p)
                  then Some (major, minor, patch, prerelease) else None
              | _ \<Rightarrow> None))"

definition normalize_version :: "string \<Rightarrow> string option" where
  "normalize_version value =
     (case match_runtime_version (strip value) of
        None \<Rightarrow> None
      | Some (major, minor, patch, prerelease) \<Rightarrow>
          let core = join ''.'' [major, minor, patch]
          in Some (case prerelease of None \<Rightarrow> core | Some p \<Rightarrow> core @ ''-'' @ p))"

record parsed_version =
  pv_major :: int
  pv_minor :: int
  pv_patch :: int
  pv_prerelease :: "string option"

definition parse_runtime_version :: "string \<Rightarrow> parsed_version option res" where
  "parse_runtime_version value =
     (case match_runtime_version (strip value) of
        None \<Rightarrow> Inr None
      | Some (major, minor, patch, prerelease) \<Rightarrow>
          res_bind (py_int major) (\<lambda>ma. res_bind (py_int minor) (\<lambda>mi. res_bind (py_int patch) (\<lambda>pa.
            Inr (Some \<lparr>pv_major = ma, pv_minor = mi, pv_patch = pa, pv_prerelease = prerelease\<rparr>)))))"

text \<open>The loop over the parts, and the comparison of their number when it runs to its end.\<close>

fun compare_parts :: "string list \<Rightarrow> string list \<Rightarrow> int res" where
  "compare_parts (c # cs) (d # ds) =
     (if c = d then compare_parts cs ds
      else if all_digits c \<and> all_digits d
      then res_bind (py_int c) (\<lambda>m. res_bind (py_int d) (\<lambda>n.
             if m \<noteq> n then Inr (if n < m then 1 else -1) else compare_parts cs ds))
      else if all_digits c then Inr (-1)
      else if all_digits d then Inr 1
      else Inr (if d < c then 1 else -1))"
| "compare_parts [] [] = Inr 0"
| "compare_parts (c # cs) [] = Inr 1"
| "compare_parts [] (d # ds) = Inr (-1)"

definition compare_prerelease :: "string option \<Rightarrow> string option \<Rightarrow> int res" where
  "compare_prerelease candidate current =
     (case (candidate, current) of
        (None, None) \<Rightarrow> Inr 0
      | (None, Some _) \<Rightarrow> Inr 1
      | (Some _, None) \<Rightarrow> Inr (-1)
      | (Some c, Some d) \<Rightarrow> compare_parts (split_on (CHR ''.'') c) (split_on (CHR ''.'') d))"

definition version_core :: "parsed_version \<Rightarrow> int \<times> int \<times> int" where
  "version_core v = (pv_major v, pv_minor v, pv_patch v)"

definition is_newer_version :: "string \<Rightarrow> string \<Rightarrow> bool res" where
  "is_newer_version candidate current =
     res_bind (parse_runtime_version candidate) (\<lambda>cv. res_bind (parse_runtime_version current) (\<lambda>dv.
       case (cv, dv) of
         (Some c, Some d) \<Rightarrow>
           if version_core c \<noteq> version_core d then Inr (version_core d < version_core c)
           else if pv_prerelease c = None \<and> pv_prerelease d \<noteq> None then Inr True
           else if pv_prerelease c \<noteq> None \<and> pv_prerelease d = None then Inr False
           else if pv_prerelease c = None \<and> pv_prerelease d = None then Inr False
           else res_bind (compare_prerelease (pv_prerelease c) (pv_prerelease d)) (\<lambda>k. Inr (0 < k))
       | _ \<Rightarrow> Inr False))"

section \<open>The cached answer\<close>

record version_snapshot =
  sn_current_version :: string
  sn_latest_version :: "string option"
  sn_update_available :: bool
  sn_checked_at :: int
  sn_source :: "string option"

record version_service =
  vs_current_version :: string
  vs_ttl_seconds :: rat
  vs_failure_ttl_seconds :: rat
  vs_cached_snapshot :: "version_snapshot option"
  vs_cached_at :: rat

definition new_version_service :: "string \<Rightarrow> version_service" where
  "new_version_service current_version =
     \<lparr>vs_current_version = current_version, vs_ttl_seconds = 21600, vs_failure_ttl_seconds = 900,
      vs_cached_snapshot = None, vs_cached_at = 0\<rparr>"

text \<open>The headers of the request; a token of white space counts as none.\<close>

definition release_request_headers :: "string \<Rightarrow> string option \<Rightarrow> (string \<times> string) list" where
  "release_request_headers current_version token_env =
     (let github_token = strip (case token_env of None \<Rightarrow> [] | Some t \<Rightarrow> t)
      in [(''Accept'', ''application/vnd.github+json''), (''User-Agent'', ''firecrawl-lb/'' @ current_version)] @
         (if github_token \<noteq> [] then [(''Authorization'', ''Bearer '' @ github_token)] else []))"

lemma release_request_authorized:
  "map_of (release_request_headers v env) ''Authorization'' \<noteq> None \<longleftrightarrow> (\<exists>t. env = Some t \<and> strip t \<noteq> [])"
  by (cases env) (auto simp: release_request_headers_def strip_def lstrip_def rstrip_def)

text \<open>
  The response of GitHub: \<open>None\<close> when the request or its decoding raises, otherwise the status and
  the document. \<open>None\<close> as a result: an exception, caught by the caller.
\<close>

definition fetch_latest_release_version :: "(int \<times> json) option \<Rightarrow> string option" where
  "fetch_latest_release_version response =
     (case response of
        None \<Rightarrow> None
      | Some (status, data) \<Rightarrow>
          if status \<noteq> 200 then None
          else (case (case data of JObj kvs \<Rightarrow> jget kvs ''tag_name'' | _ \<Rightarrow> JNull) of
                  JStr raw_version \<Rightarrow> normalize_version raw_version
                | _ \<Rightarrow> None))"

definition fetch_snapshot :: "version_service \<Rightarrow> int \<Rightarrow> (int \<times> json) option \<Rightarrow> version_snapshot res" where
  "fetch_snapshot vs checked_at response =
     (case fetch_latest_release_version response of
        None \<Rightarrow> Inr \<lparr>sn_current_version = vs_current_version vs, sn_latest_version = None, sn_update_available = False,
                  sn_checked_at = checked_at, sn_source = None\<rparr>
      | Some latest \<Rightarrow>
          res_bind (is_newer_version latest (vs_current_version vs)) (\<lambda>update_available.
            Inr \<lparr>sn_current_version = vs_current_version vs, sn_latest_version = Some latest,
                 sn_update_available = update_available, sn_checked_at = checked_at, sn_source = Some ''github''\<rparr>))"

definition cache_ttl_for :: "version_service \<Rightarrow> version_snapshot \<Rightarrow> rat" where
  "cache_ttl_for vs sn = (if sn_source sn = None then vs_failure_ttl_seconds vs else vs_ttl_seconds vs)"

definition cached_answer :: "version_service \<Rightarrow> rat \<Rightarrow> version_snapshot option" where
  "cached_answer vs now =
     (case vs_cached_snapshot vs of
        None \<Rightarrow> None
      | Some sn \<Rightarrow> if now - vs_cached_at vs < cache_ttl_for vs sn then Some sn else None)"

text \<open>
  \<open>now\<close>, \<open>now2\<close> and \<open>now3\<close> are the clock before the lock, under it and after the request; the
  second result is whether a request was made.
\<close>

definition get_version_status ::
  "version_service \<Rightarrow> rat \<Rightarrow> rat \<Rightarrow> rat \<Rightarrow> int \<Rightarrow> (int \<times> json) option \<Rightarrow> version_service \<times> bool \<times> version_snapshot res" where
  "get_version_status vs now now2 now3 checked_at response =
     (case cached_answer vs now of
        Some sn \<Rightarrow> (vs, False, Inr sn)
      | None \<Rightarrow>
          (case cached_answer vs now2 of
             Some sn \<Rightarrow> (vs, False, Inr sn)
           | None \<Rightarrow>
               (case fetch_snapshot vs checked_at response of
                  Inl e \<Rightarrow> (vs, True, Inl e)
                | Inr sn \<Rightarrow> (vs\<lparr>vs_cached_snapshot := Some sn, vs_cached_at := now3\<rparr>, True, Inr sn))))"

definition vs_invalidate :: "version_service \<Rightarrow> version_service" where
  "vs_invalidate vs = vs\<lparr>vs_cached_snapshot := None, vs_cached_at := 0\<rparr>"

section \<open>Precedence\<close>

text \<open>
  The order of the Semantic Versioning specification: numbers, then a release above its
  prereleases, then the identifiers left to right, numeric ones below the others, and a longer list
  above its prefixes.
\<close>

definition identifier_key :: "string \<Rightarrow> int \<times> int \<times> string" where
  "identifier_key s = (if all_digits s then (0, dec_value s, []) else (1, 0, s))"

definition precedence :: "parsed_version \<Rightarrow> (int \<times> int \<times> int) \<times> int \<times> (int \<times> int \<times> string) list" where
  "precedence v = (version_core v,
     case pv_prerelease v of None \<Rightarrow> (1, []) | Some p \<Rightarrow> (0, map identifier_key (split_on (CHR ''.'') p)))"

lemma py_int_digits: "all_digits s \<Longrightarrow> py_int s = Inr n \<Longrightarrow> n = dec_value s"
proof -
  assume s: "all_digits s" "py_int s = Inr n"
  then have d: "list_all is_dec s" "s \<noteq> []" by (simp_all add: all_digits_def)
  then have "hd s \<noteq> CHR ''-''" "hd s \<noteq> CHR ''+''" by (cases s; auto simp: is_dec_def)+
  with s(2) strip_digits [OF d(1)] show "n = dec_value s" by (simp add: py_int_def Let_def split: if_splits)
qed

lemma compare_parts_order:
  "compare_parts cs ds = Inr k \<Longrightarrow>
    (0 < k \<longleftrightarrow> map identifier_key ds < map identifier_key cs) \<and> (k = 0 \<longleftrightarrow> map identifier_key ds = map identifier_key cs)"
proof (induction cs ds arbitrary: k rule: compare_parts.induct)
  case (1 c cs d ds)
  show ?case
  proof (cases "c = d")
    case True
    with 1 show ?thesis by simp
  next
    case ne: False
    show ?thesis
    proof (cases "all_digits c \<and> all_digits d")
      case True
      with ne "1.prems" obtain m n where mn: "py_int c = Inr m" "py_int d = Inr n"
        "(if m \<noteq> n then Inr (if n < m then 1 else -1) else compare_parts cs ds) = Inr k"
        by (auto simp: res_bind_eq_Inr)
      with True have "m = dec_value c" "n = dec_value d" using py_int_digits by blast+
      with mn True ne "1.IH"(2) [OF ne True] show ?thesis
        by (auto simp: identifier_key_def split: if_splits)
    next
      case False
      with ne "1.prems" show ?thesis by (auto simp: identifier_key_def split: if_splits)
    qed
  qed
qed auto

text \<open>
  C32: the update check implements the precedence of Semantic Versioning: whenever both versions
  parse and the comparison returns, a version is newer exactly when it has the higher precedence.
  So it is a strict order on versions, and prereleases never appear newer than their release.
\<close>

theorem is_newer_version_precedence:
  assumes "parse_runtime_version candidate = Inr (Some c)" "parse_runtime_version current = Inr (Some d)"
    "is_newer_version candidate current = Inr newer"
  shows "newer \<longleftrightarrow> precedence d < precedence c"
proof (cases "version_core c = version_core d")
  case False
  with assms show ?thesis by (auto simp: is_newer_version_def precedence_def)
next
  case True
  show ?thesis
  proof (cases "pv_prerelease c = None \<or> pv_prerelease d = None")
    case none: True
    with True assms show ?thesis by (auto simp: is_newer_version_def precedence_def split: if_splits option.splits)
  next
    case False
    then obtain p q where pq: "pv_prerelease c = Some p" "pv_prerelease d = Some q" by auto
    with True assms obtain k where k: "compare_parts (split_on (CHR ''.'') p) (split_on (CHR ''.'') q) = Inr k" "newer = (0 < k)"
      by (auto simp: is_newer_version_def compare_prerelease_def res_bind_eq_Inr)
    with compare_parts_order [OF k(1)] True pq show ?thesis by (simp add: precedence_def)
  qed
qed

theorem is_newer_version_precedence_witness:
  "\<exists>c d. parse_runtime_version ''v1.2.0-beta.10'' = Inr (Some c) \<and> parse_runtime_version ''1.2.0-beta.9'' = Inr (Some d) \<and>
     precedence d < precedence c"
proof -
  let ?c = "\<lparr>pv_major = 1, pv_minor = 2, pv_patch = 0, pv_prerelease = Some ''beta.10''\<rparr>"
  let ?d = "\<lparr>pv_major = 1, pv_minor = 2, pv_patch = 0, pv_prerelease = Some ''beta.9''\<rparr>"
  have "parse_runtime_version ''v1.2.0-beta.10'' = Inr (Some ?c)" "parse_runtime_version ''1.2.0-beta.9'' = Inr (Some ?d)"
    "is_newer_version ''v1.2.0-beta.10'' ''1.2.0-beta.9'' = Inr True" by code_simp+
  with is_newer_version_precedence [OF this] show ?thesis by blast
qed

text \<open>
  An answer is kept: after a request no other is made before its time to live has passed, six hours
  after a success and fifteen minutes after a failure.
\<close>

lemma version_status_cached:
  assumes "get_version_status vs now now2 now3 checked_at response = (vs', True, Inr sn)"
    "later - now3 < cache_ttl_for vs' sn"
  shows "get_version_status vs' later l2 l3 checked_at' response' = (vs', False, Inr sn)"
  using assms
  by (auto simp: get_version_status_def cached_answer_def split: option.splits sum.splits if_splits)

text \<open>A failed request is not an error of the route, and does not announce an update.\<close>

lemma version_status_failure:
  assumes "fetch_latest_release_version response = None" "cached_answer vs now = None" "cached_answer vs now2 = None"
  shows "\<exists>vs' sn. get_version_status vs now now2 now3 checked_at response = (vs', True, Inr sn) \<and>
    sn_latest_version sn = None \<and> \<not> sn_update_available sn \<and> cache_ttl_for vs' sn = vs_failure_ttl_seconds vs"
  using assms by (simp add: get_version_status_def fetch_snapshot_def cache_ttl_for_def)

text \<open>
  The comparison is made outside the \<open>try\<close>: a tag with a number of more digits than \<open>int\<close> reads
  is an error of the route, and nothing is cached.
\<close>

lemma version_status_unhandled:
  assumes "fetch_latest_release_version response = Some latest" "parse_runtime_version latest = Inl e"
    "cached_answer vs now = None" "cached_answer vs now2 = None"
  shows "get_version_status vs now now2 now3 checked_at response = (vs, True, Inl e)"
  using assms by (simp add: get_version_status_def fetch_snapshot_def is_newer_version_def)

end
