(* ===== verification/BetaRelease.thy ===== *)
theory BetaRelease
  imports ReleaseVersions
begin

text \<open>
  The guard of beta releases (\<open>src/scripts/guard_beta_release.py\<close>), the preparation of a beta
  (\<open>prepare_beta_release.py\<close>), the clean-up of superseded pull requests
  (\<open>cleanup_superseded_beta_prs.py\<close>) and the check and metadata of a release
  (\<open>verify_release_version.py\<close>, \<open>release_metadata.py\<close>). Events and pull requests are the JSON
  documents of GitHub; what \<open>git\<close>, the environment and the version files say is an argument.
  Regular expressions are written out as functions. A failed guard carries the name of the check
  that failed, where the script has a longer message.
\<close>

section \<open>Python text\<close>

text \<open>\<open>str.splitlines\<close> on Latin-1: carriage return and line feed together are one break.\<close>

definition line_break :: "char \<Rightarrow> bool" where
  "line_break c = (let n = code_point c :: nat in (10 \<le> n \<and> n \<le> 13) \<or> (28 \<le> n \<and> n \<le> 30) \<or> n = 133)"

function split_lines :: "string \<Rightarrow> string list" where
  "split_lines s =
     (case s of
        [] \<Rightarrow> []
      | c # r \<Rightarrow>
          if line_break c then [] # split_lines (if c = CHR 13 \<and> r \<noteq> [] \<and> hd r = CHR 10 then tl r else r)
          else (case split_lines r of [] \<Rightarrow> [[c]] | w # ws \<Rightarrow> (c # w) # ws))"
  by pat_completeness auto
termination
  by (relation "measure length") auto

declare split_lines.simps [simp del]

text \<open>\<open>str.casefold\<close> on the Latin-1 code points other than the micro sign: the sharp s is two letters.\<close>

definition casefold :: "string \<Rightarrow> string" where
  "casefold s = concat (map (\<lambda>c. if (code_point c :: nat) = 223 then ''ss'' else [lower_char c]) s)"

text \<open>\<open>str(x or "")\<close> of a JSON value; \<open>pstr\<close> prints the values that are neither text nor empty.\<close>

definition str_or_empty :: "(json \<Rightarrow> string) \<Rightarrow> json \<Rightarrow> string" where
  "str_or_empty pstr v =
     (if \<not> truthy v then []
      else case v of JStr s \<Rightarrow> s | JInt n \<Rightarrow> py_str_int n | _ \<Rightarrow> pstr v)"

definition object_of :: "json \<Rightarrow> (string \<times> json) list" where
  "object_of v = (case v of JObj kvs \<Rightarrow> kvs | _ \<Rightarrow> [])"

definition is_object :: "json \<Rightarrow> bool" where
  "is_object v = (case v of JObj _ \<Rightarrow> True | _ \<Rightarrow> False)"

section \<open>Repositories\<close>

datatype guard_exc = GuardFailed string | OtherError pyexc

definition pull_request :: "(string \<times> json) list \<Rightarrow> (string \<times> json) list option" where
  "pull_request event = (case jget event ''pull_request'' of JObj pr \<Rightarrow> Some pr | _ \<Rightarrow> None)"

fun nonempty_str :: "json \<Rightarrow> string option" where
  "nonempty_str (JStr s) = (if s = [] then None else Some s)"
| "nonempty_str _ = None"

definition repo_full_name :: "json \<Rightarrow> string" where
  "repo_full_name v =
     (if \<not> is_object v then []
      else let repo = object_of v
           in case nonempty_str (jget repo ''full_name'') of
                Some full_name \<Rightarrow> full_name
              | None \<Rightarrow>
                  (case (nonempty_str (jget (object_of (jget repo ''owner'')) ''login''), nonempty_str (jget repo ''name'')) of
                     (Some owner_login, Some name) \<Rightarrow> owner_login @ ''/'' @ name
                   | _ \<Rightarrow> []))"

definition canonical_repository :: "string \<Rightarrow> (string \<times> json) list \<Rightarrow> (string \<times> json) list \<Rightarrow> string" where
  "canonical_repository env_repository event pr =
     (let base_repo = (if is_object (jget pr ''base'') then repo_full_name (jget (object_of (jget pr ''base'')) ''repo'') else [])
      in if base_repo \<noteq> [] then base_repo
         else if repo_full_name (jget event ''repository'') \<noteq> [] then repo_full_name (jget event ''repository'')
         else strip env_repository)"

definition require_canonical_head_repository ::
  "string \<Rightarrow> (string \<times> json) list \<Rightarrow> (string \<times> json) list \<Rightarrow> guard_exc + unit" where
  "require_canonical_head_repository env_repository event pr =
     (let head_repo = (if is_object (jget pr ''head'') then repo_full_name (jget (object_of (jget pr ''head'')) ''repo'') else []);
          expected_repo = canonical_repository env_repository event pr
      in if expected_repo = [] then Inl (GuardFailed ''canonical repository unknown'')
         else if head_repo = [] then Inl (GuardFailed ''head repository unknown'')
         else if casefold head_repo \<noteq> casefold expected_repo then Inl (GuardFailed ''head repository'')
         else Inr ())"

section \<open>Validation evidence\<close>

definition REQUIRED_EVIDENCE_LABELS :: "string list" where
  "REQUIRED_EVIDENCE_LABELS = [''backend/unit/integration gates'', ''frontend tests/build'', ''wheel/package validation'',
     ''docker/container smoke'']"

definition LIVE_SMOKE_ACCEPTED_LABELS :: "string list" where
  "LIVE_SMOKE_ACCEPTED_LABELS = [''live upstream/account smoke'', ''live upstream/account smoke not required'']"

text \<open>
  A heading: at most three blanks, between \<open>lo\<close> and six hash signs, and at least one blank; the rest
  of the line after the blanks.
\<close>

definition heading :: "nat \<Rightarrow> string \<Rightarrow> string option" where
  "heading lo line =
     (let blanks = takeWhile py_isspace line; s = dropWhile py_isspace line;
          marks = takeWhile ((=) CHR ''#'') s; r = dropWhile ((=) CHR ''#'') s
      in if length blanks \<le> 3 \<and> lo \<le> length marks \<and> length marks \<le> 6 \<and> r \<noteq> [] \<and> py_isspace (hd r)
         then Some (dropWhile py_isspace r) else None)"

definition validation_heading :: "string \<Rightarrow> bool" where
  "validation_heading line =
     (case heading 2 line of
        None \<Rightarrow> False
      | Some title \<Rightarrow>
          lower (take 28 title) = ''release-candidate validation'' \<and>
          dropWhile py_isspace (dropWhile ((=) CHR ''#'') (dropWhile py_isspace (drop 28 title))) = [])"

fun validation_section :: "string list \<Rightarrow> string list option" where
  "validation_section [] = None"
| "validation_section (line # rest) =
     (if validation_heading line then Some (takeWhile (\<lambda>l. heading 1 l = None) rest) else validation_section rest)"

definition release_candidate_validation_section :: "string \<Rightarrow> string option" where
  "release_candidate_validation_section body = map_option (join [CHR 10]) (validation_section (split_lines body))"

text \<open>
  The candidate line at the start of a line: \<open>\s*\<close> may run over line breaks, and after the forty
  digits only blanks may follow up to an end of line.
\<close>

definition hex_char_ci :: "char \<Rightarrow> bool" where
  "hex_char_ci c = (let n = code_point c :: nat in 48 \<le> n \<and> n \<le> 57 \<or> 97 \<le> n \<and> n \<le> 102 \<or> 65 \<le> n \<and> n \<le> 70)"

definition candidate_at :: "string \<Rightarrow> string option" where
  "candidate_at s =
     (let t = dropWhile py_isspace s; u = dropWhile py_isspace (drop 20 t); sha = take 40 u; r = drop 40 u;
          blanks = takeWhile py_isspace r
      in if lower (take 20 t) = ''validated candidate:'' \<and> length sha = 40 \<and> list_all hex_char_ci sha \<and>
            (CHR 10 \<in> set blanks \<or> blanks = r)
         then Some sha else None)"

text \<open>The first match over the starts of lines, as a search with the multi-line flag finds it.\<close>

fun candidate_search :: "bool \<Rightarrow> string \<Rightarrow> string option" where
  "candidate_search at_start [] = (if at_start then candidate_at [] else None)"
| "candidate_search at_start (c # s) =
     (case (if at_start then candidate_at (c # s) else None) of
        Some sha \<Rightarrow> Some sha
      | None \<Rightarrow> candidate_search (c = CHR 10) s)"

text \<open>\<open>- \[x\] [^\n]*label\<close>, ignoring case, anywhere in the body.\<close>

fun checked_item :: "string \<Rightarrow> string \<Rightarrow> bool" where
  "checked_item label [] = False"
| "checked_item label (c # s) =
     (if lower (take 6 (c # s)) = ''- [x] '' \<and> str_in (lower label) (lower (takeWhile (\<lambda>c. c \<noteq> CHR 10) (drop 6 (c # s))))
      then True else checked_item label s)"

definition missing_evidence :: "string \<Rightarrow> string \<Rightarrow> string list" where
  "missing_evidence body expected_sha =
     (let sec = release_candidate_validation_section body;
          candidate = (case candidate_search True (case sec of None \<Rightarrow> [] | Some t \<Rightarrow> t) of
                         None \<Rightarrow> [] | Some sha \<Rightarrow> lower sha)
      in (if sec = None then [''a `Release-candidate validation` section''] else []) @
         (if candidate \<noteq> lower expected_sha then [''the exact validated candidate SHA `'' @ expected_sha @ ''`''] else []) @
         map (\<lambda>label. ''checked evidence item `'' @ label @ ''`'')
           (filter (\<lambda>label. \<not> checked_item label body) REQUIRED_EVIDENCE_LABELS) @
         (if \<not> list_ex (\<lambda>label. checked_item label body) LIVE_SMOKE_ACCEPTED_LABELS
          then [''checked evidence item for live upstream/account smoke, or an explicit not-required entry''] else []))"

definition require_validation_evidence :: "string \<Rightarrow> string \<Rightarrow> guard_exc + unit" where
  "require_validation_evidence body expected_sha =
     (if missing_evidence body expected_sha = [] then Inr ()
      else Inl (GuardFailed (join [CHR 10] (map (\<lambda>m. ''- '' @ m) (missing_evidence body expected_sha)))))"

section \<open>The guard of pull requests\<close>

text \<open>What the guard reads: the event, the environment, \<open>git\<close> and the version files.\<close>

record guard_inputs =
  gi_event :: "(string \<times> json) list"
  gi_event_name :: string
  gi_repository :: string
  gi_body :: string
  gi_git_head :: string
  gi_current :: "(string \<times> string) list"
  gi_base_file :: "string \<Rightarrow> string option"
  gi_base :: "(string \<times> string) list"
  gi_pstr :: "json \<Rightarrow> string"

definition changed_release_version_files :: "(string \<times> string) list \<Rightarrow> (string \<Rightarrow> string option) \<Rightarrow> string list" where
  "changed_release_version_files current base_file =
     map fst (filter (\<lambda>(name, v). base_file name \<noteq> Some v) current)"

definition read_consistent_release_version :: "(string \<times> string) list \<Rightarrow> guard_exc + release_version" where
  "read_consistent_release_version current =
     (case remdups (map snd (canonical_versions current)) of
        [v] \<Rightarrow> (case parse_version v of Inl e \<Rightarrow> Inl (OtherError e) | Inr r \<Rightarrow> Inr r)
      | _ \<Rightarrow> Inl (GuardFailed ''versions disagree''))"

text \<open>\<open>pr.get("head", {}).get(key)\<close>.\<close>

definition head_get :: "(string \<times> json) list \<Rightarrow> string \<Rightarrow> guard_exc + json" where
  "head_get pr key =
     (case map_of pr ''head'' of
        None \<Rightarrow> Inr JNull
      | Some (JObj head) \<Rightarrow> Inr (jget head key)
      | Some _ \<Rightarrow> Inl (OtherError AttributeError))"

definition beta_prefix :: string where "beta_prefix = ''release/beta-''"

definition release_from_head :: "string \<Rightarrow> release_version option" where
  "release_from_head head_ref =
     (if startswith head_ref beta_prefix
      then (case parse_version (drop (length beta_prefix) head_ref) of Inl _ \<Rightarrow> None | Inr r \<Rightarrow> Some r)
      else None)"

definition is_canonical_beta_pr :: "string \<Rightarrow> (string \<times> string) list \<Rightarrow> bool" where
  "is_canonical_beta_pr head_ref current =
     (case release_from_head head_ref of
        None \<Rightarrow> False
      | Some r \<Rightarrow> rv_channel r = Beta \<and> list_all (\<lambda>(name, v). v = rv_version r) (canonical_versions current))"

datatype guard_pass = NoPullRequest | NoVersionChange | MetadataUnchanged | NotBeta | Validated string string

definition pr_context :: "guard_inputs \<Rightarrow> string \<Rightarrow> guard_exc + (string \<times> string \<times> string)" where
  "pr_context gi head_ref =
     (case pull_request (gi_event gi) of
        None \<Rightarrow> Inr (head_ref, gi_git_head gi, gi_body gi)
      | Some pr \<Rightarrow>
          res_bind (if head_ref \<noteq> [] then Inr head_ref else res_bind (head_get pr ''ref'') (\<lambda>v. Inr (str_or_empty (gi_pstr gi) v))) (\<lambda>ref.
          res_bind (head_get pr ''sha'') (\<lambda>sha.
            Inr (ref, str_or_empty (gi_pstr gi) sha, str_or_empty (gi_pstr gi) (jget pr ''body'')))))"

definition guard_pull_request :: "guard_inputs \<Rightarrow> string \<Rightarrow> guard_exc + guard_pass" where
  "guard_pull_request gi head_ref =
     (let pr = pull_request (gi_event gi); is_merge_group = (gi_event_name gi = ''merge_group'')
      in if pr = None \<and> gi_event_name gi \<noteq> [] \<and> \<not> is_merge_group then Inr NoPullRequest
         else res_bind (pr_context gi head_ref) (\<lambda>(head_ref, expected_sha, body).
           let canonical_beta = is_canonical_beta_pr head_ref (gi_current gi);
               changed = changed_release_version_files (gi_current gi) (gi_base_file gi)
           in if changed = [] \<and> \<not> canonical_beta then Inr NoVersionChange
              else if canonical_versions (gi_current gi) = canonical_versions (gi_base gi) \<and> \<not> canonical_beta then Inr MetadataUnchanged
              else res_bind (read_consistent_release_version (gi_current gi)) (\<lambda>release.
                let canonical_branch = beta_prefix @ rv_version release
                in if rv_channel release \<noteq> Beta then Inr NotBeta
                   else if pr = None \<and> is_merge_group \<and> (head_ref = [] \<or> body = []) then Inl (GuardFailed ''merge group evidence'')
                   else if head_ref \<noteq> canonical_branch then Inl (GuardFailed ''head branch'')
                   else res_bind (case pr of None \<Rightarrow> Inr ()
                                   | Some pr \<Rightarrow> require_canonical_head_repository (gi_repository gi) (gi_event gi) pr) (\<lambda>_.
                     if expected_sha = [] then Inl (GuardFailed ''head SHA unknown'')
                     else res_bind (require_validation_evidence body expected_sha) (\<lambda>_.
                       Inr (Validated canonical_branch expected_sha))))))"

section \<open>The guard of publishing\<close>

text \<open>
  \<open>rev_tree fetched commit\<close> is the tree of a commit, before and after the fetch; \<open>fetch\<close> whether
  the fetch succeeds.
\<close>

definition commit_tree :: "(bool \<Rightarrow> string \<Rightarrow> string option) \<Rightarrow> (string \<Rightarrow> bool) \<Rightarrow> string \<Rightarrow> guard_exc + string" where
  "commit_tree rev_tree fetch commit =
     (case rev_tree False commit of
        Some tree \<Rightarrow> Inr tree
      | None \<Rightarrow>
          if \<not> fetch commit then Inl (GuardFailed ''fetch'')
          else (case rev_tree True commit of Some tree \<Rightarrow> Inr tree | None \<Rightarrow> Inl (GuardFailed ''tree'')))"

definition require_published_tree_matches_validated_candidate ::
  "(bool \<Rightarrow> string \<Rightarrow> string option) \<Rightarrow> (string \<Rightarrow> bool) \<Rightarrow> string \<Rightarrow> string \<Rightarrow> guard_exc + unit" where
  "require_published_tree_matches_validated_candidate rev_tree fetch published_sha validated_sha =
     res_bind (commit_tree rev_tree fetch published_sha) (\<lambda>published_tree.
     res_bind (commit_tree rev_tree fetch validated_sha) (\<lambda>validated_tree.
       if published_tree \<noteq> validated_tree then Inl (GuardFailed ''tree differs'') else Inr ()))"

datatype publish_pass = NotMerged | Published string string string

definition guard_publish ::
  "(bool \<Rightarrow> string \<Rightarrow> string option) \<Rightarrow> (string \<Rightarrow> bool) \<Rightarrow> string \<Rightarrow> guard_inputs \<Rightarrow> guard_exc + publish_pass" where
  "guard_publish rev_tree fetch pyproject_version gi =
     (case pull_request (gi_event gi) of
        None \<Rightarrow> Inl (GuardFailed ''pull request required'')
      | Some pr \<Rightarrow>
          if jget pr ''merged'' \<noteq> JBool True then Inr NotMerged
          else let head = object_of (jget pr ''head'');
                   head_ref = str_or_empty (gi_pstr gi) (jget head ''ref'');
                   head_sha = str_or_empty (gi_pstr gi) (jget head ''sha'');
                   body = str_or_empty (gi_pstr gi) (jget pr ''body'');
                   merge_sha = str_or_empty (gi_pstr gi) (jget pr ''merge_commit_sha'');
                   published_sha = (if merge_sha \<noteq> [] then merge_sha else gi_git_head gi)
               in case parse_version pyproject_version of
                    Inl e \<Rightarrow> Inl (OtherError e)
                  | Inr release \<Rightarrow>
                      if rv_channel release \<noteq> Beta then Inl (GuardFailed ''not beta'')
                      else if head_ref \<noteq> beta_prefix @ rv_version release then Inl (GuardFailed ''head branch'')
                      else res_bind (require_canonical_head_repository (gi_repository gi) (gi_event gi) pr) (\<lambda>_.
                        if head_sha = [] then Inl (GuardFailed ''head SHA unknown'')
                        else res_bind (require_validation_evidence body head_sha) (\<lambda>_.
                          res_bind (require_published_tree_matches_validated_candidate rev_tree fetch published_sha head_sha) (\<lambda>_.
                            Inr (Published head_ref head_sha published_sha)))))"

section \<open>Preparing a beta\<close>

record beta_outputs =
  bo_should_create :: bool
  bo_base_version :: string
  bo_beta_number :: int
  bo_version :: string
  bo_tag :: string
  bo_pypi_version :: string
  bo_branch :: string
  bo_previous_tag :: string

text \<open>The outcome of a new beta; exits of the script are \<open>ValueError\<close>.\<close>

definition create_beta ::
  "(string \<Rightarrow> commit_message list) \<Rightarrow> string list \<Rightarrow> release_version \<Rightarrow> int \<Rightarrow> string option
   \<Rightarrow> (beta_outputs \<times> ((string \<times> string) list \<times> string) option) res" where
  "create_beta commits beta_tags base beta_number previous_tag =
     res_bind (if beta_number \<noteq> 0 then Inr beta_number else next_beta_number (rv_version base) beta_tags) (\<lambda>n.
       if n < 1 then Inl ValueError
       else res_bind (parse_version (rv_version base @ ''-beta.'' @ py_str_int n)) (\<lambda>release.
         res_bind (written_versions (rv_version release)) (\<lambda>versions.
           Inr (\<lparr>bo_should_create = True, bo_base_version = rv_version base, bo_beta_number = n,
                 bo_version = rv_version release, bo_tag = release_tag release, bo_pypi_version = pypi_version release,
                 bo_branch = beta_prefix @ rv_version release,
                 bo_previous_tag = (case previous_tag of None \<Rightarrow> [] | Some t \<Rightarrow> t)\<rparr>,
             Some (versions, case previous_tag of
                     None \<Rightarrow> ''Initial beta prerelease for this stable train.''
                   | Some t \<Rightarrow> format_beta_changelog t (commits t))))))"

text \<open>
  \<open>commits ref\<close> are the commits since a tag, \<open>project\<close> the version fields of the working tree; the
  result carries the versions written, if any, and the change log.
\<close>

definition prepare_beta_release ::
  "(string \<Rightarrow> commit_message list) \<Rightarrow> string list \<Rightarrow> string list \<Rightarrow> (string \<times> string) list \<Rightarrow> string \<Rightarrow> int
   \<Rightarrow> (beta_outputs \<times> ((string \<times> string) list \<times> string) option) res" where
  "prepare_beta_release commits beta_tags merged_tags project base_version beta_number =
     res_bind (parse_version base_version) (\<lambda>base.
       if is_prerelease base then Inl ValueError
       else res_bind (latest_beta_tag (rv_version base) beta_tags) (\<lambda>latest.
         let previous_tag = (case latest of Some l \<Rightarrow> Some (release_tag l) | None \<Rightarrow> latest_stable_tag merged_tags)
         in case latest of
              Some l \<Rightarrow>
                if beta_number = 0 \<and> releasable_commits (commits (release_tag l)) = []
                then res_bind (assert_project_versions project (rv_version l)) (\<lambda>_.
                       Inr (\<lparr>bo_should_create = False, bo_base_version = rv_version base,
                             bo_beta_number = (case rv_serial l of None \<Rightarrow> 0 | Some n \<Rightarrow> n), bo_version = rv_version l,
                             bo_tag = release_tag l, bo_pypi_version = pypi_version l,
                             bo_branch = beta_prefix @ rv_version l, bo_previous_tag = release_tag l\<rparr>, None))
                else create_beta commits beta_tags base beta_number previous_tag
            | None \<Rightarrow> create_beta commits beta_tags base beta_number previous_tag))"

section \<open>Superseded pull requests\<close>

record cleanup_action =
  cl_pr_number :: int
  cl_head_ref :: string
  cl_comment :: string
  cl_delete_ref_api_path :: string

definition PROTECTED_LABELS :: "string list" where
  "PROTECTED_LABELS = [''pinned'', ''security'', ''in-progress'']"

definition label_names :: "json \<Rightarrow> string list" where
  "label_names labels =
     (case labels of
        JArr ls \<Rightarrow> List.map_filter (\<lambda>l. case l of
            JStr s \<Rightarrow> Some s
          | JObj kvs \<Rightarrow> (case jget kvs ''name'' of JStr s \<Rightarrow> Some s | _ \<Rightarrow> None)
          | _ \<Rightarrow> None) ls
      | _ \<Rightarrow> [])"

definition head_owner :: "(string \<times> json) list \<Rightarrow> string" where
  "head_owner pr =
     (case jget (object_of (jget pr ''headRepositoryOwner'')) ''login'' of JStr s \<Rightarrow> s | _ \<Rightarrow> [])"

text \<open>The title \<open>chore: release vX.Y.Z-beta.N\<close>, and the sentence the automation leaves in the body.\<close>

definition beta_release_title :: "string \<Rightarrow> bool" where
  "beta_release_title title =
     (startswith title ''chore: release v'' \<and>
      (case split_first (CHR ''-'') (drop 16 title) of
         (base, Some rest) \<Rightarrow> base_ok base \<and> startswith rest ''beta.'' \<and> all_digits (drop 5 rest)
       | (base, None) \<Rightarrow> False))"

definition sentinel :: string where
  "sentinel = ''Synced automatically from release-please PR #''"

fun automation_sentinel :: "string \<Rightarrow> bool" where
  "automation_sentinel [] = False"
| "automation_sentinel (c # s) =
     (startswith (c # s) sentinel \<and> drop (length sentinel) (c # s) \<noteq> [] \<and> is_dec (hd (drop (length sentinel) (c # s))) \<or>
      automation_sentinel s)"

definition is_cleanup_candidate :: "string \<Rightarrow> string \<Rightarrow> (string \<times> json) list \<Rightarrow> bool" where
  "is_cleanup_candidate current_branch repo_owner pr =
     (case (jget pr ''headRefName'', jget pr ''title'', jget pr ''body'') of
        (JStr head_ref, JStr title, JStr body) \<Rightarrow>
          head_ref \<noteq> current_branch \<and> startswith head_ref beta_prefix \<and> head_owner pr = repo_owner \<and>
          beta_release_title title \<and> automation_sentinel body \<and>
          list_all (\<lambda>l. l \<notin> set PROTECTED_LABELS) (label_names (jget pr ''labels''))
      | _ \<Rightarrow> False)"

text \<open>A Python boolean is an integer.\<close>

definition pr_number :: "json \<Rightarrow> int option" where
  "pr_number v = (case v of JInt n \<Rightarrow> Some n | JBool b \<Rightarrow> Some (of_bool b) | _ \<Rightarrow> None)"

definition superseded_comment :: "string \<Rightarrow> string \<Rightarrow> string" where
  "superseded_comment current_tag release_pr =
     ''Superseded by the current beta release train `'' @ current_tag @ ''` from release-please PR #'' @ release_pr @
     ''. Closing this automation-managed beta PR to avoid publishing an obsolete train.''"

definition cleanup_plan :: "string \<Rightarrow> string \<Rightarrow> string \<Rightarrow> string \<Rightarrow> string \<Rightarrow> (string \<times> json) list list \<Rightarrow> cleanup_action list" where
  "cleanup_plan current_branch current_tag repo repo_owner release_pr prs =
     List.map_filter (\<lambda>pr.
       if \<not> is_cleanup_candidate current_branch repo_owner pr then None
       else case (pr_number (jget pr ''number''), jget pr ''headRefName'') of
              (Some n, JStr head_ref) \<Rightarrow>
                Some \<lparr>cl_pr_number = n, cl_head_ref = head_ref, cl_comment = superseded_comment current_tag release_pr,
                  cl_delete_ref_api_path = ''repos/'' @ repo @ ''/git/refs/heads/'' @ head_ref\<rparr>
            | _ \<Rightarrow> None) prs"

section \<open>Checking a release\<close>

definition verify_release_version :: "(string \<times> string) list \<Rightarrow> string \<Rightarrow> string \<Rightarrow> channel option \<Rightarrow> release_version res" where
  "verify_release_version project pyproject_version tag require_channel =
     res_bind (if tag \<noteq> [] then parse_tag tag else parse_version pyproject_version) (\<lambda>release.
       if require_channel \<noteq> None \<and> require_channel \<noteq> Some (rv_channel release) then Inl ValueError
       else res_bind (assert_project_versions project (rv_version release)) (\<lambda>_. Inr release))"

definition make_latest :: "string \<Rightarrow> string res" where
  "make_latest tag =
     (if tag = [] then Inl ValueError
      else res_bind (parse_tag tag) (\<lambda>release. Inr (if is_prerelease release then ''false'' else ''legacy'')))"

section \<open>Properties\<close>

lemma evidence_complete:
  "require_validation_evidence body sha = Inr u \<longleftrightarrow>
     (\<exists>sec. release_candidate_validation_section body = Some sec \<and>
        (lower sha = (case candidate_search True sec of None \<Rightarrow> [] | Some c \<Rightarrow> lower c))) \<and>
     (\<forall>label\<in>set REQUIRED_EVIDENCE_LABELS. checked_item label body) \<and>
     (\<exists>label\<in>set LIVE_SMOKE_ACCEPTED_LABELS. checked_item label body)"
  by (cases "release_candidate_validation_section body")
    (auto simp: require_validation_evidence_def missing_evidence_def Let_def filter_empty_conv list_ex_iff)

lemma canonical_repository_required:
  "require_canonical_head_repository env event pr = Inr u \<Longrightarrow>
     casefold (repo_full_name (jget (object_of (jget pr ''head'')) ''repo'')) = casefold (canonical_repository env event pr)"
  by (auto simp: require_canonical_head_repository_def Let_def split: if_splits)

lemma published_tree:
  "require_published_tree_matches_validated_candidate rev_tree fetch p v = Inr u \<Longrightarrow>
     \<exists>t. commit_tree rev_tree fetch p = Inr t \<and> commit_tree rev_tree fetch v = Inr t"
  by (auto simp: require_published_tree_matches_validated_candidate_def res_bind_eq_Inr split: if_splits)

lemma split_first_append: "sep \<notin> set a \<Longrightarrow> split_first sep (a @ sep # b) = (a, Some b)"
proof -
  assume a: "sep \<notin> set a"
  have "dropWhile (\<lambda>c. c \<noteq> sep) (a @ sep # b) = sep # b" "takeWhile (\<lambda>c. c \<noteq> sep) (a @ sep # b) = a"
    using a by (induction a) auto
  then show "split_first sep (a @ sep # b) = (a, Some b)" by (simp add: split_first_def)
qed

lemma serial_ok_digits: "0 < n \<Longrightarrow> serial_ok (nat_digits n)"
  using nat_digits_shape [of n] nat_digits_is_dec [of n] by (auto simp: serial_ok_def all_digits_def)

lemma parse_beta:
  assumes "base_ok base" "1 \<le> n" "parse_version (base @ ''-beta.'' @ py_str_int n) = Inr r"
  shows "rv_base r = base" "rv_channel r = Beta" "rv_serial r = Some n" "rv_version r = base @ ''-beta.'' @ py_str_int n"
proof -
  let ?ds = "nat_digits (nat n)"
  have n: "py_str_int n = ?ds" "serial_ok ?ds" "dec_value ?ds = n"
    using assms(2) serial_ok_digits [of "nat n"] nat_digits_value [of "nat n"] by (simp_all add: py_str_int_def)
  have "CHR ''-'' \<notin> set base"
    using base_ok_chars [OF assms(1)] by (auto simp: list_all_iff base_char_def is_dec_def)
  then have "split_first (CHR ''-'') (base @ ''-beta.'' @ ?ds) = (base, Some (''beta.'' @ ?ds))"
    using split_first_append [of "CHR ''-''" base "''beta.'' @ ?ds"] by simp
  moreover have "split_first (CHR ''.'') (''beta.'' @ ?ds) = (''beta'', Some ?ds)"
    using split_first_append [of "CHR ''.''" "''beta''" ?ds] by simp
  moreover have "channel_of ''beta'' = Some Beta" by (simp add: channel_of_def)
  ultimately have "match_version (base @ ''-beta.'' @ ?ds) = Some (base, Some (Beta, ?ds))"
    using assms(1) n(2) by (simp add: match_version_def)
  with assms(3) n(1) obtain k where k: "py_int ?ds = Inr k"
    "r = \<lparr>rv_version = base @ ''-beta.'' @ ?ds, rv_base = base, rv_channel = Beta, rv_serial = Some k\<rparr>"
    by (cases "py_int ?ds") (auto simp: parse_version_def)
  with py_int_serial [OF n(2) k(1)] n
  show "rv_base r = base" "rv_channel r = Beta" "rv_serial r = Some n" "rv_version r = base @ ''-beta.'' @ py_str_int n"
    by simp_all
qed

lemma create_beta_fresh:
  assumes "create_beta commits beta_tags base 0 previous = Inr (outs, files)"
    "parse_version (rv_version base) = Inr base" "rv_channel base = Stable"
  shows "bo_version outs = rv_version base @ ''-beta.'' @ py_str_int (bo_beta_number outs) \<and>
    (\<forall>t\<in>set beta_tags. \<forall>k. beta_of (rv_version base) t = Some k \<longrightarrow> k < bo_beta_number outs) \<and>
    bo_tag outs \<notin> strip ` set beta_tags"
proof -
  obtain n r where n: "next_beta_number (rv_version base) beta_tags = Inr n" "1 \<le> n"
    and r: "parse_version (rv_version base @ ''-beta.'' @ py_str_int n) = Inr r"
    and outs: "bo_beta_number outs = n" "bo_version outs = rv_version r" "bo_tag outs = release_tag r"
    using assms(1) by (auto simp: create_beta_def res_bind_eq_Inr split: if_splits)
  have "base_ok (rv_version base)" using parse_version_Inr [OF assms(2)] assms(3) by auto
  note pb = parse_beta [OF this n(2) r]
  have fresh: "k < n" if "t \<in> set beta_tags" "beta_of (rv_version base) t = Some k" for t k
    using next_beta_number_fresh [OF n(1) that] .
  have "release_tag r \<notin> strip ` set beta_tags"
  proof
    assume "release_tag r \<in> strip ` set beta_tags"
    then obtain t where t: "t \<in> set beta_tags" "release_tag r = strip t" by blast
    have "parse_tag (release_tag r) = Inr r" using tag_roundtrip [OF r] .
    with t pb have "beta_of (rv_version base) t = Some n" by (simp add: beta_of_def)
    with fresh [OF t(1)] show False by blast
  qed
  with fresh outs pb show ?thesis by auto
qed

text \<open>
  A beta that the preparation creates with an automatic number never reuses a tag: its number
  exceeds every existing beta of that base version, its version is spelled from both, and its tag is
  not among the existing ones.
\<close>

lemma prepared_beta_fresh:
  assumes "prepare_beta_release commits beta_tags merged_tags project base_version 0 = Inr (outs, Some files)"
  shows "bo_version outs = base_version @ ''-beta.'' @ py_str_int (bo_beta_number outs) \<and>
    (\<forall>t\<in>set beta_tags. \<forall>k. beta_of base_version t = Some k \<longrightarrow> k < bo_beta_number outs) \<and>
    bo_tag outs \<notin> strip ` set beta_tags"
proof -
  obtain base where base: "parse_version base_version = Inr base" "rv_channel base = Stable"
    using assms by (auto simp: prepare_beta_release_def res_bind_eq_Inr is_prerelease_def split: if_splits)
  then have v: "rv_version base = base_version" using parse_version_Inr [OF base(1)] by auto
  obtain previous where "create_beta commits beta_tags base 0 previous = Inr (outs, Some files)"
    using assms base
    by (auto simp: prepare_beta_release_def res_bind_eq_Inr is_prerelease_def Let_def split: if_splits option.splits)
  from create_beta_fresh [OF this] base v show ?thesis by simp
qed

lemma prepared_beta_example:
  "\<exists>outs files. prepare_beta_release (\<lambda>_. []) [''v1.2.0-alpha.7''] [] [] ''1.2.0'' 0 = Inr (outs, Some files) \<and>
     bo_tag outs \<notin> {''v1.2.0-alpha.7''} \<and> bo_tag outs = ''v1.2.0-beta.1''"
proof -
  have "map_sum id (\<lambda>(outs, files). (bo_tag outs, files \<noteq> None))
      (prepare_beta_release (\<lambda>_. []) [''v1.2.0-alpha.7''] [] [] ''1.2.0'' 0) = Inr (''v1.2.0-beta.1'', True)"
    by code_simp
  then obtain outs files where r: "prepare_beta_release (\<lambda>_. []) [''v1.2.0-alpha.7''] [] [] ''1.2.0'' 0 = Inr (outs, Some files)"
    "bo_tag outs = ''v1.2.0-beta.1''"
    by (cases "prepare_beta_release (\<lambda>_. []) [''v1.2.0-alpha.7''] [] [] ''1.2.0'' 0") auto
  from prepared_beta_fresh [OF r(1)] r show ?thesis by auto
qed


definition sample_sha :: string where "sample_sha = replicate 40 (CHR ''a'')"

definition sample_body :: string where
  "sample_body = join [CHR 10] [''## Release-candidate validation'', ''Validated candidate: '' @ sample_sha, ''## Checks'', []] @
     concat (map (\<lambda>l. ''- [x] '' @ l @ [CHR 10]) (REQUIRED_EVIDENCE_LABELS @ [''live upstream/account smoke'']))"

lemma checked_item_suffix: "checked_item label s \<Longrightarrow> checked_item label (p @ s)"
  by (induction p) simp_all

lemma str_in_refl: "str_in s s"
  by (cases s) (simp_all add: startswith_def)

lemma checked_item_here: "CHR 10 \<notin> set label \<Longrightarrow> checked_item label (''- [x] '' @ label @ CHR 10 # r)"
proof -
  assume l: "CHR 10 \<notin> set label"
  have "takeWhile (\<lambda>c. c \<noteq> CHR 10) (label @ CHR 10 # r) = label"
    using l by (subst takeWhile_append2) auto
  moreover have "lower ''- [x] '' = ''- [x] ''" by code_simp
  ultimately show "checked_item label (''- [x] '' @ label @ CHR 10 # r)" by (simp add: str_in_refl)
qed

lemma checked_item_listed:
  assumes "l \<in> set ls" "CHR 10 \<notin> set l"
  shows "checked_item l (p @ concat (map (\<lambda>l. ''- [x] '' @ l @ [CHR 10]) ls))"
proof -
  obtain xs ys where ls: "ls = xs @ l # ys" using assms(1) by (meson split_list)
  have "checked_item l (''- [x] '' @ l @ CHR 10 # concat (map (\<lambda>l. ''- [x] '' @ l @ [CHR 10]) ys))"
    using assms(2) by (rule checked_item_here)
  from checked_item_suffix [OF this, of "p @ concat (map (\<lambda>l. ''- [x] '' @ l @ [CHR 10]) xs)"]
  show ?thesis by (simp add: ls)
qed

definition sample_inputs :: guard_inputs where
  "sample_inputs = \<lparr>gi_event = [(''pull_request'', JObj [(''merged'', JBool True), (''body'', JStr sample_body),
       (''base'', JObj [(''repo'', JObj [(''full_name'', JStr ''o/r'')])]),
       (''head'', JObj [(''ref'', JStr ''release/beta-1.2.0-beta.1''), (''sha'', JStr sample_sha),
          (''repo'', JObj [(''full_name'', JStr ''O/R'')])])])],
     gi_event_name = ''pull_request'', gi_repository = [], gi_body = [], gi_git_head = ''b'', gi_current = [],
     gi_base_file = (\<lambda>_. None), gi_base = [], gi_pstr = (\<lambda>_. [])\<rparr>"

lemma sample_evidence: "require_validation_evidence sample_body sample_sha = Inr ()"
proof -
  have "map_option (\<lambda>t. candidate_search True t = Some sample_sha) (release_candidate_validation_section sample_body) = Some True"
    by code_simp
  moreover have "\<forall>label\<in>set (REQUIRED_EVIDENCE_LABELS @ [''live upstream/account smoke'']). checked_item label sample_body"
    unfolding sample_body_def by (intro ballI checked_item_listed) (auto simp: REQUIRED_EVIDENCE_LABELS_def)
  ultimately show ?thesis
    unfolding evidence_complete by (auto simp only: option.map map_option_eq_Some LIVE_SMOKE_ACCEPTED_LABELS_def list.set set_append Un_iff insert_iff option.case)
qed


text \<open>
  A pull request that changes the version fields to a beta passes only with its evidence, from the
  branch of that version in the canonical repository.
\<close>

lemma pull_request_guard_sound:
  assumes "guard_pull_request gi head_ref = Inr res" "pull_request (gi_event gi) = Some pr"
    "changed_release_version_files (gi_current gi) (gi_base_file gi) \<noteq> []"
    "canonical_versions (gi_current gi) \<noteq> canonical_versions (gi_base gi)"
    "read_consistent_release_version (gi_current gi) = Inr rel" "rv_channel rel = Beta"
  shows "\<exists>sha. res = Validated (beta_prefix @ rv_version rel) sha \<and>
    require_validation_evidence (str_or_empty (gi_pstr gi) (jget pr ''body'')) sha = Inr () \<and>
    require_canonical_head_repository (gi_repository gi) (gi_event gi) pr = Inr ()"
  using assms
  by (auto simp: guard_pull_request_def pr_context_def res_bind_eq_Inr Let_def split: if_splits)

lemma cleanup_plan_action:
  assumes "act \<in> set (cleanup_plan current_branch current_tag repo repo_owner release_pr prs)"
  shows "\<exists>pr\<in>set prs. is_cleanup_candidate current_branch repo_owner pr \<and> jget pr ''headRefName'' = JStr (cl_head_ref act) \<and>
    cl_delete_ref_api_path act = ''repos/'' @ repo @ ''/git/refs/heads/'' @ cl_head_ref act"
proof -
  obtain pr where pr: "pr \<in> set prs" "is_cleanup_candidate current_branch repo_owner pr"
    and some: "(case (pr_number (jget pr ''number''), jget pr ''headRefName'') of
              (Some n, JStr head_ref) \<Rightarrow>
                Some \<lparr>cl_pr_number = n, cl_head_ref = head_ref, cl_comment = superseded_comment current_tag release_pr,
                  cl_delete_ref_api_path = ''repos/'' @ repo @ ''/git/refs/heads/'' @ head_ref\<rparr>
            | _ \<Rightarrow> None) = Some act"
    using assms by (auto simp: cleanup_plan_def List.map_filter_def split: if_splits)
  then have "jget pr ''headRefName'' = JStr (cl_head_ref act)"
    "cl_delete_ref_api_path act = ''repos/'' @ repo @ ''/git/refs/heads/'' @ cl_head_ref act"
    by (cases "pr_number (jget pr ''number'')"; cases "jget pr ''headRefName''"; auto)+
  with pr show ?thesis by blast
qed

lemma is_cleanup_candidate_parts:
  assumes "is_cleanup_candidate current_branch repo_owner pr" "jget pr ''headRefName'' = JStr head_ref"
  shows "\<exists>body. jget pr ''body'' = JStr body \<and> automation_sentinel body \<and> head_ref \<noteq> current_branch \<and>
    startswith head_ref beta_prefix \<and> head_owner pr = repo_owner \<and>
    list_all (\<lambda>l. l \<notin> set PROTECTED_LABELS) (label_names (jget pr ''labels''))"
  using assms
  by (cases "jget pr ''title''"; cases "jget pr ''body''") (simp_all add: is_cleanup_candidate_def)

lemma cleanup_safe:
  assumes "act \<in> set (cleanup_plan current_branch current_tag repo repo_owner release_pr prs)"
  shows "\<exists>pr\<in>set prs. \<exists>body. jget pr ''headRefName'' = JStr (cl_head_ref act) \<and> cl_head_ref act \<noteq> current_branch \<and>
    startswith (cl_head_ref act) ''release/beta-'' \<and> head_owner pr = repo_owner \<and>
    jget pr ''body'' = JStr body \<and> automation_sentinel body \<and>
    set (label_names (jget pr ''labels'')) \<inter> {''pinned'', ''security'', ''in-progress''} = {} \<and>
    cl_delete_ref_api_path act = ''repos/'' @ repo @ ''/git/refs/heads/'' @ cl_head_ref act"
proof -
  obtain pr where pr: "pr \<in> set prs" "is_cleanup_candidate current_branch repo_owner pr"
    "jget pr ''headRefName'' = JStr (cl_head_ref act)"
    "cl_delete_ref_api_path act = ''repos/'' @ repo @ ''/git/refs/heads/'' @ cl_head_ref act"
    using cleanup_plan_action [OF assms] by blast
  obtain body where body: "jget pr ''body'' = JStr body" "automation_sentinel body"
    "cl_head_ref act \<noteq> current_branch" "startswith (cl_head_ref act) beta_prefix" "head_owner pr = repo_owner"
    "list_all (\<lambda>l. l \<notin> set PROTECTED_LABELS) (label_names (jget pr ''labels''))"
    using is_cleanup_candidate_parts [OF pr(2,3)] by blast
  then have "set (label_names (jget pr ''labels'')) \<inter> {''pinned'', ''security'', ''in-progress''} = {}"
    by (auto simp: PROTECTED_LABELS_def list_all_iff)
  with pr body show ?thesis unfolding beta_prefix_def by blast
qed

end
