(* ===== verification/CodexReview.thy ===== *)
theory CodexReview
  imports BetaRelease Totp "HOL-Library.Sublist"
begin

text \<open>
  How the label automation of the repository (\<open>src/.github/scripts/sync_codex_ok_labels.py\<close>) reads
  a pull request: which texts are findings and which are a clean verdict, what the timeline and the
  review comments say of the current head, how the checks of a commit are classified. A timeline
  node is the JSON object GitHub returns; text is Latin-1, so the curly apostrophe the clean
  pattern also accepts does not occur. \<open>pstr\<close> is \<open>str\<close> on JSON values that are neither text nor
  integers. The calls to GitHub are in theory CodexLabels.
\<close>

section \<open>Constants\<close>

definition CODEX_REVIEW_AUTHORS :: "string list" where
  "CODEX_REVIEW_AUTHORS =
     [''chatgpt-codex-connector'', ''chatgpt-codex-connector[bot]'', ''openai-codex'', ''openai-codex[bot]'']"

definition SUCCESS_CHECK_STATES :: "string list" where
  "SUCCESS_CHECK_STATES = [''SUCCESS'', ''NEUTRAL'', ''SKIPPED'']"

definition FAIL_CHECK_STATES :: "string list" where
  "FAIL_CHECK_STATES = [''ACTION_REQUIRED'', ''CANCELLED'', ''ERROR'', ''FAILURE'', ''STALE'', ''TIMED_OUT'']"

definition PENDING_CHECK_STATES :: "string list" where
  "PENDING_CHECK_STATES = [''EXPECTED'', ''IN_PROGRESS'', ''PENDING'', ''QUEUED'', ''REQUESTED'', ''WAITING'']"

definition UNMERGEABLE_STATES :: "string list" where
  "UNMERGEABLE_STATES = [''DIRTY'', ''BLOCKED'']"

definition CODEX_LB_REQUIRED_CHECKS :: "string list" where
  "CODEX_LB_REQUIRED_CHECKS =
     [''Frontend lint (eslint)'', ''Frontend type check (tsc)'', ''Frontend tests (vitest + coverage)'',
      ''Frontend build (vite)'', ''Lint (ruff)'', ''Type check (ty)'', ''Tests (pytest, unit)'',
      ''Tests (pytest, integration-core)'', ''Tests (pytest, integration-bridge)'', ''Tests (pytest, e2e)'',
      ''Tests (pytest, PostgreSQL)'', ''Migration check (alembic)'', ''Migration check (alembic, PostgreSQL)'',
      ''Package (build)'', ''Docker build'', ''Helm lint + template + kubeconform'',
      ''Helm smoke install (kind)'', ''CI Required'']"

definition REQUIRED_CHECKS_BY_REPO :: "(string \<times> string list) list" where
  "REQUIRED_CHECKS_BY_REPO =
     [(''Soju06/codex-lb'', CODEX_LB_REQUIRED_CHECKS), (''Soju06/firecrawl-lb'', CODEX_LB_REQUIRED_CHECKS)]"

section \<open>Python values\<close>

text \<open>\<open>isinstance(v, int)\<close>, which a \<open>bool\<close> is, and the number it is as a key of a dictionary.\<close>

fun json_int :: "json \<Rightarrow> int option" where
  "json_int (JInt n) = Some n"
| "json_int (JBool b) = Some (of_bool b)"
| "json_int _ = None"

text \<open>The numeric value \<open>==\<close> compares; a not-a-number equals nothing.\<close>

datatype num_key = NumFin rat | NumPos | NumNeg

fun json_num :: "json \<Rightarrow> num_key option" where
  "json_num (JInt n) = Some (NumFin (of_int n))"
| "json_num (JBool b) = Some (NumFin (of_bool b))"
| "json_num (JFloat (Fin q)) = Some (NumFin q)"
| "json_num (JFloat PosInf) = Some NumPos"
| "json_num (JFloat NegInf) = Some NumNeg"
| "json_num _ = None"

text \<open>\<open>==\<close> of JSON values: numbers by value, lists by position, dictionaries by key.\<close>

fun json_eq :: "json \<Rightarrow> json \<Rightarrow> bool"
  and arr_eq :: "json list \<Rightarrow> json list \<Rightarrow> bool"
  and obj_sub :: "(string \<times> json) list \<Rightarrow> (string \<times> json) list \<Rightarrow> bool" where
  "json_eq JNull w = (w = JNull)"
| "json_eq (JStr s) w = (w = JStr s)"
| "json_eq (JArr xs) w = (case w of JArr ys \<Rightarrow> arr_eq xs ys | _ \<Rightarrow> False)"
| "json_eq (JObj a) w = (case w of JObj b \<Rightarrow> length a = length b \<and> obj_sub a b | _ \<Rightarrow> False)"
| "json_eq v w = (json_num v \<noteq> None \<and> json_num v = json_num w)"
| "arr_eq [] ys = (ys = [])"
| "arr_eq (x # xs) ys = (case ys of [] \<Rightarrow> False | y # ys' \<Rightarrow> json_eq x y \<and> arr_eq xs ys')"
| "obj_sub [] b = True"
| "obj_sub ((k, v) # a) b = ((case map_of b k of None \<Rightarrow> False | Some w \<Rightarrow> json_eq v w) \<and> obj_sub a b)"

text \<open>Iterating a value: the keys of a dictionary, the characters of a text; a scalar raises.\<close>

fun py_iter :: "json \<Rightarrow> json list res" where
  "py_iter (JArr xs) = Inr xs"
| "py_iter (JStr s) = Inr (map (\<lambda>c. JStr [c]) s)"
| "py_iter (JObj kvs) = Inr (map (JStr \<circ> fst) kvs)"
| "py_iter _ = Inl TypeError"

text \<open>\<open>v in names\<close> for a set of texts: a list or a dictionary has no hash.\<close>

fun in_str_set :: "json \<Rightarrow> string list \<Rightarrow> bool res" where
  "in_str_set (JStr s) names = Inr (s \<in> set names)"
| "in_str_set (JArr _) names = Inl TypeError"
| "in_str_set (JObj _) names = Inl TypeError"
| "in_str_set _ names = Inr False"

text \<open>\<open>payload.get(key, default)\<close>.\<close>

definition jget_or :: "jobj \<Rightarrow> string \<Rightarrow> json \<Rightarrow> json" where
  "jget_or ob key dflt = dict_get ob key dflt"

section \<open>Verdicts in a text\<close>

definition is_clean_codex_body :: "json \<Rightarrow> bool" where
  "is_clean_codex_body body =
     (case body of
        JStr s \<Rightarrow> str_in ''didn't find any major issues'' (lower s) \<or>
                  str_in ''no major issues found'' (lower s) \<or> str_in ''no major issues'' (lower s)
      | _ \<Rightarrow> False)"

text \<open>A word character of a regular expression, on Latin-1.\<close>

definition word_char :: "char \<Rightarrow> bool" where
  "word_char c = (let n = code_point c :: nat in
     48 \<le> n \<and> n \<le> 57 \<or> 65 \<le> n \<and> n \<le> 90 \<or> n = 95 \<or> 97 \<le> n \<and> n \<le> 122 \<or>
     n \<in> {170, 178, 179, 181, 185, 186, 188, 189, 190} \<or> 192 \<le> n \<and> n \<noteq> 215 \<and> n \<noteq> 247)"

definition at_word_end :: "string \<Rightarrow> bool" where
  "at_word_end r = (case r of [] \<Rightarrow> True | c # _ \<Rightarrow> \<not> word_char c)"

text \<open>A severity mark \<open>P[0-3]\<close> at the start of a text, and the rest of the text.\<close>

definition severity :: "string \<Rightarrow> string option" where
  "severity s = (case s of p # d # r \<Rightarrow> if p = CHR ''P'' \<and> d \<in> set ''0123'' then Some r else None | _ \<Rightarrow> None)"

text \<open>\<open>P[0-3]\s+Badge\b\<close>, \<open>badge/P[0-3]-\<close> and the mark that opens a line, each at the start of a text.\<close>

definition badge_words :: "string \<Rightarrow> bool" where
  "badge_words s =
     (case severity s of
        None \<Rightarrow> False
      | Some r \<Rightarrow>
          let t = dropWhile py_isspace r
          in t \<noteq> r \<and> startswith t ''Badge'' \<and> at_word_end (drop 5 t))"

definition badge_link :: "string \<Rightarrow> bool" where
  "badge_link s =
     (startswith s ''badge/'' \<and>
      (case severity (drop 6 s) of Some (c # _) \<Rightarrow> c = CHR ''-'' | _ \<Rightarrow> False))"

definition bracket_severity :: "string \<Rightarrow> bool" where
  "bracket_severity s =
     (startswith s ''['' \<and> (case severity (tl s) of Some (c # _) \<Rightarrow> c = CHR '']'' | _ \<Rightarrow> False))"

definition line_severity :: "string \<Rightarrow> bool" where
  "line_severity s =
     (let t = dropWhile py_isspace s; u = (if startswith t ''**'' then drop 2 t else t)
      in bracket_severity u \<or> (case severity u of None \<Rightarrow> False | Some r \<Rightarrow> at_word_end r))"

text \<open>The search of the finding pattern: \<open>prev\<close> is the character before the text, if any.\<close>

definition finding_at :: "char option \<Rightarrow> string \<Rightarrow> bool" where
  "finding_at prev s =
     ((case prev of None \<Rightarrow> True | Some c \<Rightarrow> \<not> word_char c) \<and> badge_words s \<or>
      badge_link s \<or>
      (prev = None \<or> prev = Some (CHR 10)) \<and> line_severity s \<or>
      (case s of c # r \<Rightarrow> c = CHR 10 \<and> line_severity r | [] \<Rightarrow> False))"

fun finding_search :: "char option \<Rightarrow> string \<Rightarrow> bool" where
  "finding_search prev [] = finding_at prev []"
| "finding_search prev (c # s) = (finding_at prev (c # s) \<or> finding_search (Some c) s)"

definition is_needs_work_codex_body :: "json \<Rightarrow> bool" where
  "is_needs_work_codex_body body = (case body of JStr s \<Rightarrow> finding_search None s | _ \<Rightarrow> False)"

definition body_mentions_head :: "json \<Rightarrow> string \<Rightarrow> bool" where
  "body_mentions_head body head_sha =
     (case body of
        JStr s \<Rightarrow> str_in head_sha s \<or> str_in (take 12 head_sha) s \<or> str_in (take 8 head_sha) s
      | _ \<Rightarrow> False)"

section \<open>Timeline nodes\<close>

definition author_login :: "(json \<Rightarrow> string) \<Rightarrow> jobj \<Rightarrow> string" where
  "author_login pstr item = (case jget item ''user'' of JObj user \<Rightarrow> str_or_empty pstr (jget user ''login'') | _ \<Rightarrow> [])"

text \<open>The \<open>oid\<close> of the commit object a node holds under a key, when it is a text.\<close>

definition commit_oid_at :: "string \<Rightarrow> jobj \<Rightarrow> string option" where
  "commit_oid_at key node = (case jget node key of JObj commit \<Rightarrow> json_str (jget commit ''oid'') | _ \<Rightarrow> None)"

definition review_node_commit_oid :: "jobj \<Rightarrow> string option" where
  "review_node_commit_oid node = commit_oid_at ''commit'' node"

definition review_node_database_id :: "jobj \<Rightarrow> int option" where
  "review_node_database_id node = json_int (jget node ''databaseId'')"

definition node_body :: "jobj \<Rightarrow> string" where
  "node_body node =
     (case jget node ''bodyText'' of
        JStr s \<Rightarrow> s
      | _ \<Rightarrow> (case jget node ''body'' of JStr s \<Rightarrow> s | _ \<Rightarrow> []))"

definition node_url :: "jobj \<Rightarrow> string option" where
  "node_url node =
     json_str (if truthy (jget node ''url'') then jget node ''url'' else jget node ''html_url'')"

definition node_author_login :: "(json \<Rightarrow> string) \<Rightarrow> jobj \<Rightarrow> string" where
  "node_author_login pstr node =
     (case (case jget node ''author'' of JObj author \<Rightarrow> jget author ''login'' | _ \<Rightarrow> JNull) of
        JStr login \<Rightarrow> login
      | _ \<Rightarrow> author_login pstr node)"

definition is_timeline_codex_author :: "(json \<Rightarrow> string) \<Rightarrow> jobj \<Rightarrow> string list \<Rightarrow> bool" where
  "is_timeline_codex_author pstr node allowed = (node_author_login pstr node \<in> set allowed)"

definition typename :: "jobj \<Rightarrow> json" where
  "typename node = jget node ''__typename''"

definition is_codex_review_request_comment :: "jobj \<Rightarrow> bool" where
  "is_codex_review_request_comment node =
     (typename node = JStr ''IssueComment'' \<and> casefold (strip (node_body node)) = ''@codex review'')"

definition reaction_user_login :: "(json \<Rightarrow> string) \<Rightarrow> jobj \<Rightarrow> string" where
  "reaction_user_login pstr node = (case jget node ''user'' of JObj user \<Rightarrow> str_or_empty pstr (jget user ''login'') | _ \<Rightarrow> [])"

text \<open>The review states, with the names the script compares and prints.\<close>

datatype review_state = ReviewNone | ReviewPending | ReviewNeedsWork | ReviewClean

fun review_state_name :: "review_state \<Rightarrow> string" where
  "review_state_name ReviewNone = ''none''"
| "review_state_name ReviewPending = ''pending''"
| "review_state_name ReviewNeedsWork = ''needs_work''"
| "review_state_name ReviewClean = ''clean''"

definition reaction_step :: "(json \<Rightarrow> string) \<Rightarrow> string list \<Rightarrow> review_state \<Rightarrow> json \<Rightarrow> review_state" where
  "reaction_step pstr allowed st v =
     (case v of
        JObj reaction \<Rightarrow>
          if reaction_user_login pstr reaction \<notin> set allowed then st
          else let content = upper (str_or_empty pstr (jget reaction ''content''))
               in if content \<in> {''THUMBS_UP'', ''+1''} then ReviewClean
                  else if content = ''EYES'' \<and> st = ReviewNone then ReviewPending
                  else st
      | _ \<Rightarrow> st)"

definition codex_request_reaction_state :: "(json \<Rightarrow> string) \<Rightarrow> string list \<Rightarrow> jobj \<Rightarrow> review_state" where
  "codex_request_reaction_state pstr allowed node =
     (if \<not> is_codex_review_request_comment node then ReviewNone
      else case (case jget node ''reactions'' of JObj r \<Rightarrow> jget r ''nodes'' | _ \<Rightarrow> JArr []) of
             JArr reaction_nodes \<Rightarrow> foldl (reaction_step pstr allowed) ReviewNone reaction_nodes
           | _ \<Rightarrow> ReviewNone)"

definition timeline_head_oid :: "jobj \<Rightarrow> string option" where
  "timeline_head_oid node =
     (if typename node = JStr ''PullRequestCommit'' then commit_oid_at ''commit'' node
      else if typename node = JStr ''HeadRefForcePushedEvent'' then commit_oid_at ''afterCommit'' node
      else None)"

definition timeline_node_timestamp :: "jobj \<Rightarrow> string option" where
  "timeline_node_timestamp node =
     (case List.map_filter (\<lambda>key. nonempty_str (jget node key)) [''createdAt'', ''submittedAt'', ''committedDate''] of
        [] \<Rightarrow> None
      | t # _ \<Rightarrow> Some t)"

section \<open>The state of the review of the current head\<close>

text \<open>The index of the last node that is the head, and the nodes after it.\<close>

definition head_index :: "string \<Rightarrow> jobj list \<Rightarrow> nat option" where
  "head_index head_sha nodes =
     foldl (\<lambda>acc (i, node). if timeline_head_oid node = Some head_sha then Some i else acc) None (List.enumerate 0 nodes)"

text \<open>A review or a review comment speaks of the head by its commit or by naming it.\<close>

definition about_head :: "string \<Rightarrow> jobj \<Rightarrow> bool" where
  "about_head head_sha node =
     (review_node_commit_oid node = Some head_sha \<or> body_mentions_head (JStr (node_body node)) head_sha)"

definition review_step ::
  "(json \<Rightarrow> string) \<Rightarrow> string \<Rightarrow> string list \<Rightarrow> review_state \<times> jobj option \<Rightarrow> jobj \<Rightarrow> review_state \<times> jobj option" where
  "review_step pstr head_sha allowed latest node =
     (let reaction = codex_request_reaction_state pstr allowed node
      in if reaction = ReviewClean then (ReviewClean, Some node)
         else if reaction = ReviewPending \<and> fst latest = ReviewNone then (ReviewPending, Some node)
         else if \<not> is_timeline_codex_author pstr node allowed then latest
         else if typename node = JStr ''PullRequestReview'' then
           (if \<not> about_head head_sha node then latest
            else if is_needs_work_codex_body (JStr (node_body node)) then (ReviewNeedsWork, Some node)
            else (ReviewClean, Some node))
         else if typename node = JStr ''PullRequestReviewComment'' then
           (if \<not> about_head head_sha node then latest
            else if is_needs_work_codex_body (JStr (node_body node)) then (ReviewNeedsWork, Some node)
            else latest)
         else if typename node = JStr ''IssueComment'' \<and> is_clean_codex_body (JStr (node_body node)) then
           (ReviewClean, Some node)
         else latest)"

definition find_current_head_codex_review_state ::
  "(json \<Rightarrow> string) \<Rightarrow> string \<Rightarrow> string list \<Rightarrow> jobj list \<Rightarrow> review_state \<times> jobj option" where
  "find_current_head_codex_review_state pstr head_sha allowed nodes =
     (case head_index head_sha nodes of
        None \<Rightarrow> (ReviewNone, None)
      | Some i \<Rightarrow> foldl (review_step pstr head_sha allowed) (ReviewNone, None) (drop (i + 1) nodes))"

definition find_current_head_clean_review :: "(json \<Rightarrow> string) \<Rightarrow> string \<Rightarrow> string list \<Rightarrow> jobj list \<Rightarrow> jobj option" where
  "find_current_head_clean_review pstr head_sha allowed nodes =
     (case find_current_head_codex_review_state pstr head_sha allowed nodes of
        (st, node) \<Rightarrow> if st = ReviewClean then node else None)"

definition is_codex_news :: "(json \<Rightarrow> string) \<Rightarrow> string \<Rightarrow> string list \<Rightarrow> jobj \<Rightarrow> bool" where
  "is_codex_news pstr head_sha allowed node =
     (is_codex_review_request_comment node \<or>
      is_timeline_codex_author pstr node allowed \<and>
      (typename node = JStr ''PullRequestReview'' \<and> about_head head_sha node \<or>
       typename node = JStr ''PullRequestReviewComment'' \<and> about_head head_sha node \<or>
       typename node = JStr ''IssueComment''))"

definition has_codex_news_after_current_head :: "(json \<Rightarrow> string) \<Rightarrow> string \<Rightarrow> string list \<Rightarrow> jobj list \<Rightarrow> bool" where
  "has_codex_news_after_current_head pstr head_sha allowed nodes =
     (case head_index head_sha nodes of
        None \<Rightarrow> False
      | Some i \<Rightarrow> list_ex (is_codex_news pstr head_sha allowed) (drop (i + 1) nodes))"

section \<open>Review comments and their place in the timeline\<close>

text \<open>
  The node made of a review comment, \<open>Inr None\<close> when the comment is skipped. Asking whether a list
  or a dictionary is in the set of unresolved addresses raises.
\<close>

definition review_comment_node :: "string \<Rightarrow> string list \<Rightarrow> jobj \<Rightarrow> jobj option res" where
  "review_comment_node head_sha unresolved_urls comment =
     (if json_str (jget comment ''body'') = None then Inr None
      else
        let body = jget comment ''body''; commit_id = jget comment ''commit_id'';
            original_commit_id = jget comment ''original_commit_id'';
            review_id = jget comment ''pull_request_review_id'';
            commit_matches_head = (commit_id = JStr head_sha);
            original_matches_head = (original_commit_id = JStr head_sha)
        in if \<not> commit_matches_head \<and> \<not> original_matches_head \<and> \<not> body_mentions_head body head_sha then Inr None
           else
             let effective_commit_id = (if original_matches_head then original_commit_id else commit_id);
                 effective_review_id = (if original_matches_head then review_id else JNull);
                 html_url = (if truthy (jget comment ''html_url'') then jget comment ''html_url'' else jget comment ''url'');
                 node =
                   [(''__typename'', JStr ''PullRequestReviewComment''),
                    (''author'',
                     case jget comment ''user'' of
                       JObj user \<Rightarrow>
                         (case jget user ''login'' of JStr login \<Rightarrow> JObj [(''login'', JStr login)] | _ \<Rightarrow> JNull)
                     | _ \<Rightarrow> JNull),
                    (''bodyText'', body),
                    (''createdAt'', jget comment ''created_at''),
                    (''url'', html_url),
                    (''commit'',
                     case effective_commit_id of JStr oid \<Rightarrow> JObj [(''oid'', JStr oid)] | _ \<Rightarrow> JNull),
                    (''pullRequestReviewDatabaseId'',
                     if json_int effective_review_id \<noteq> None then effective_review_id else JNull)]
             in if is_needs_work_codex_body body
                then res_bind (in_str_set html_url unresolved_urls) (\<lambda>known. Inr (if known then Some node else None))
                else Inr (Some node))"

definition review_comment_nodes :: "string \<Rightarrow> string list \<Rightarrow> jobj list \<Rightarrow> jobj list res" where
  "review_comment_nodes head_sha unresolved_urls comments =
     res_bind (res_map (review_comment_node head_sha unresolved_urls) comments)
       (\<lambda>nodes. Inr (List.map_filter id nodes))"

definition comment_review_id :: "jobj \<Rightarrow> int option" where
  "comment_review_id node = json_int (jget node ''pullRequestReviewDatabaseId'')"

text \<open>
  The comments, numbered, stand for the objects whose \<open>id\<close> the code records. A review is followed
  by its comments.
\<close>

definition place_comments :: "(nat \<times> jobj) list \<Rightarrow> jobj list \<times> nat list \<Rightarrow> jobj \<Rightarrow> jobj list \<times> nat list" where
  "place_comments comments acc node =
     (case acc of
        (merged, placed_ids) \<Rightarrow>
          if typename node \<noteq> JStr ''PullRequestReview'' then (merged @ [node], placed_ids)
          else case review_node_database_id node of
                 None \<Rightarrow> (merged @ [node], placed_ids)
               | Some review_id \<Rightarrow>
                   let own = filter (\<lambda>(i, c). comment_review_id c = Some review_id) comments
                   in (merged @ [node] @ map snd own, placed_ids @ map fst own))"

definition add_unplaced :: "nat list \<Rightarrow> jobj list \<Rightarrow> nat \<times> jobj \<Rightarrow> jobj list" where
  "add_unplaced placed_ids unplaced c =
     (if fst c \<notin> set placed_ids \<and> \<not> list_ex (\<lambda>u. json_eq (JObj u) (JObj (snd c))) unplaced
      then unplaced @ [snd c] else unplaced)"

text \<open>A comment of no known review goes before the first node that is later than it.\<close>

fun insert_before_later :: "string \<Rightarrow> jobj \<Rightarrow> jobj list \<Rightarrow> jobj list" where
  "insert_before_later timestamp node [] = [node]"
| "insert_before_later timestamp node (candidate # rest) =
     (case timeline_node_timestamp candidate of
        Some t \<Rightarrow> if timestamp < t then node # candidate # rest
                  else candidate # insert_before_later timestamp node rest
      | None \<Rightarrow> candidate # insert_before_later timestamp node rest)"

definition insert_unplaced :: "jobj list \<Rightarrow> jobj \<Rightarrow> jobj list" where
  "insert_unplaced merged node =
     (case timeline_node_timestamp node of
        None \<Rightarrow> merged @ [node]
      | Some timestamp \<Rightarrow> insert_before_later timestamp node merged)"

definition merge_review_comment_nodes :: "jobj list \<Rightarrow> jobj list \<Rightarrow> jobj list" where
  "merge_review_comment_nodes timeline_nodes comment_nodes =
     (if comment_nodes = [] then timeline_nodes
      else
        let comments = List.enumerate 0 comment_nodes;
            unplaced = filter (\<lambda>node. comment_review_id node = None) comment_nodes;
            (merged, placed_ids) = foldl (place_comments comments) ([], []) timeline_nodes
        in foldl insert_unplaced merged (foldl (add_unplaced placed_ids) unplaced comments))"

section \<open>Checks\<close>

datatype checks_state = ChecksNone | ChecksFailure | ChecksPending | ChecksSuccess | ChecksUnknown

fun checks_state_name :: "checks_state \<Rightarrow> string" where
  "checks_state_name ChecksNone = ''none''"
| "checks_state_name ChecksFailure = ''failure''"
| "checks_state_name ChecksPending = ''pending''"
| "checks_state_name ChecksSuccess = ''success''"
| "checks_state_name ChecksUnknown = ''unknown''"

text \<open>\<open>item.get(k1) or item.get(k2) or ...\<close>, as text.\<close>

definition first_field :: "(json \<Rightarrow> string) \<Rightarrow> jobj \<Rightarrow> string list \<Rightarrow> string" where
  "first_field pstr item keys =
     (case find (\<lambda>key. truthy (jget item key)) keys of None \<Rightarrow> [] | Some key \<Rightarrow> str_or_empty pstr (jget item key))"

definition check_run_recency_key :: "(json \<Rightarrow> string) \<Rightarrow> jobj \<Rightarrow> string \<times> string" where
  "check_run_recency_key pstr item =
     (first_field pstr item [''started_at'', ''startedAt'', ''created_at'', ''createdAt'', ''completed_at'', ''completedAt''],
      first_field pstr item [''completed_at'', ''completedAt''])"

text \<open>The latest run of each name, in the order the names first appear, and the runs without a name.\<close>

definition latest_run :: "(json \<Rightarrow> string) \<Rightarrow> (string \<times> jobj) list \<Rightarrow> jobj \<Rightarrow> (string \<times> jobj) list" where
  "latest_run pstr named item =
     (case jget item ''name'' of
        JStr name \<Rightarrow>
          (case map_of named name of
             None \<Rightarrow> dict_set name item named
           | Some previous \<Rightarrow>
               if check_run_recency_key pstr previous \<le> check_run_recency_key pstr item
               then dict_set name item named else named)
      | _ \<Rightarrow> named)"

definition named_check_runs :: "(json \<Rightarrow> string) \<Rightarrow> jobj list \<Rightarrow> (string \<times> jobj) list" where
  "named_check_runs pstr check_runs = foldl (latest_run pstr) [] check_runs"

definition unnamed_check_runs :: "jobj list \<Rightarrow> jobj list" where
  "unnamed_check_runs check_runs = filter (\<lambda>item. json_str (jget item ''name'') = None) check_runs"

definition check_run_state :: "(json \<Rightarrow> string) \<Rightarrow> jobj \<Rightarrow> string" where
  "check_run_state pstr item =
     (let conclusion = upper (str_or_empty pstr (jget item ''conclusion''));
          status = upper (str_or_empty pstr (jget item ''status''))
      in if conclusion \<noteq> [] then conclusion else if status \<noteq> [] then status else ''UNKNOWN'')"

definition status_states :: "(json \<Rightarrow> string) \<Rightarrow> jobj \<Rightarrow> string list res" where
  "status_states pstr combined_status =
     res_bind (py_iter (jget_or combined_status ''statuses'' (JArr [])))
       (\<lambda>items. Inr (List.map_filter (\<lambda>item. case item of
             JObj ob \<Rightarrow> Some (upper (str_or_empty pstr (jget ob ''state'')))
           | _ \<Rightarrow> None) items))"

definition overall_state :: "string list \<Rightarrow> string list \<Rightarrow> string list \<Rightarrow> checks_state" where
  "overall_state required seen states =
     (if states = [] then ChecksNone
      else if list_ex (\<lambda>st. st \<in> set FAIL_CHECK_STATES) states then ChecksFailure
      else if list_ex (\<lambda>st. st \<in> set PENDING_CHECK_STATES) states then ChecksPending
      else if required \<noteq> [] \<and> \<not> list_all (\<lambda>name. name \<in> set seen) required then ChecksPending
      else if list_all (\<lambda>st. st \<in> set SUCCESS_CHECK_STATES) states then ChecksSuccess
      else ChecksUnknown)"

definition classify_check_state :: "(json \<Rightarrow> string) \<Rightarrow> jobj list \<Rightarrow> jobj \<Rightarrow> string list \<Rightarrow> checks_state res" where
  "classify_check_state pstr check_runs combined_status required_check_names =
     (let named = named_check_runs pstr check_runs;
          runs = map snd named @ unnamed_check_runs check_runs
      in res_bind (status_states pstr combined_status)
           (\<lambda>statuses. Inr (overall_state required_check_names (map fst named)
                              (map (check_run_state pstr) runs @ statuses))))"

section \<open>Threads with findings\<close>

text \<open>
  A thread that is resolved or out of date is passed over; \<open>f\<close> is what a comment of an open thread
  adds to the list of addresses.
\<close>

definition open_thread_comments :: "json \<Rightarrow> jobj list" where
  "open_thread_comments v =
     (case v of
        JObj thread \<Rightarrow>
          if truthy (jget thread ''isResolved'') \<or> truthy (jget thread ''isOutdated'') then []
          else (case (case jget thread ''comments'' of JObj comments \<Rightarrow> jget comments ''nodes'' | _ \<Rightarrow> JArr []) of
                  JArr comment_nodes \<Rightarrow>
                    List.map_filter (\<lambda>c. case c of JObj comment \<Rightarrow> Some comment | _ \<Rightarrow> None) comment_nodes
                | _ \<Rightarrow> [])
      | _ \<Rightarrow> [])"

definition thread_comment_urls :: "json list \<Rightarrow> string list" where
  "thread_comment_urls nodes =
     List.map_filter (\<lambda>comment. json_str (jget comment ''url'')) (concat (map open_thread_comments nodes))"

definition codex_finding_url :: "string \<Rightarrow> string list \<Rightarrow> jobj \<Rightarrow> string option res" where
  "codex_finding_url head_sha allowed comment =
     (let login = (case jget comment ''author'' of JObj author \<Rightarrow> jget author ''login'' | _ \<Rightarrow> JNull)
      in res_bind (in_str_set login allowed) (\<lambda>known.
           if \<not> known then Inr None
           else if \<not> is_needs_work_codex_body (jget comment ''body'') then Inr None
           else if \<not> body_mentions_head (jget comment ''body'') head_sha \<and>
                   commit_oid_at ''commit'' comment \<noteq> Some head_sha \<and>
                   commit_oid_at ''originalCommit'' comment \<noteq> Some head_sha then Inr None
           else Inr (Some (case jget comment ''url'' of JStr url \<Rightarrow> url | _ \<Rightarrow> ''unresolved Codex review thread''))))"

definition codex_finding_urls :: "string \<Rightarrow> string list \<Rightarrow> json list \<Rightarrow> string list res" where
  "codex_finding_urls head_sha allowed nodes =
     res_bind (res_map (codex_finding_url head_sha allowed) (concat (map open_thread_comments nodes)))
       (\<lambda>urls. Inr (List.map_filter id urls))"

section \<open>Texts\<close>

lemma startswith_set: "startswith s p \<Longrightarrow> set p \<subseteq> set s"
  unfolding startswith_def by (metis set_take_subset)

lemma str_in_set: "str_in sub s \<Longrightarrow> set sub \<subseteq> set s"
proof (induction s)
  case (Cons c s)
  then show ?case using startswith_set [of "c # s" sub] by auto
qed simp

lemma set_dropWhile_neg: "x \<in> set xs \<Longrightarrow> \<not> P x \<Longrightarrow> x \<in> set (dropWhile P xs)"
  by (induction xs) auto

lemma set_strip: "c \<in> set s \<Longrightarrow> \<not> py_isspace c \<Longrightarrow> c \<in> set (strip s)"
  using set_dropWhile_neg [of c "rev (dropWhile py_isspace s)" py_isspace]
  by (simp add: strip_def rstrip_def lstrip_def set_dropWhile_neg)

lemma set_casefold: "c \<in> set s \<Longrightarrow> (of_char c :: nat) \<noteq> 223 \<Longrightarrow> lower_char c \<in> set (casefold s)"
  by (force simp: casefold_def)

text \<open>A request for a review is not a clean verdict.\<close>

lemma request_not_clean:
  assumes "is_codex_review_request_comment node"
  shows "\<not> is_clean_codex_body (JStr (node_body node))"
proof
  assume "is_clean_codex_body (JStr (node_body node))"
  then have "CHR ''j'' \<in> set (lower (node_body node))"
    by (auto simp: is_clean_codex_body_def dest!: str_in_set)
  then obtain c where c: "c \<in> set (node_body node)" "lower_char c = CHR ''j''"
    by (auto simp: lower_def)
  have "\<not> py_isspace c" "(of_char c :: nat) \<noteq> 223"
    using c(2) by (auto simp: lower_char_def py_isspace_def Let_def split: if_splits)
  then have "CHR ''j'' \<in> set (casefold (strip (node_body node)))"
    using set_casefold [of c "strip (node_body node)"] set_strip [OF c(1)] c(2) by simp
  with assms show False by (simp add: is_codex_review_request_comment_def)
qed

section \<open>The head in the timeline\<close>

text \<open>The nodes after the last one that is the head; nothing when the head does not occur.\<close>

definition after_head :: "string \<Rightarrow> jobj list \<Rightarrow> jobj list" where
  "after_head head_sha nodes =
     (if list_ex (\<lambda>node. timeline_head_oid node = Some head_sha) nodes
      then rev (takeWhile (\<lambda>node. timeline_head_oid node \<noteq> Some head_sha) (rev nodes)) else [])"

lemma enumerate_snoc: "List.enumerate k (xs @ [x]) = List.enumerate k xs @ [(k + length xs, x)]"
  by (simp add: enumerate_append_eq)

lemma head_index_snoc:
  "head_index sha (nodes @ [node]) =
     (if timeline_head_oid node = Some sha then Some (length nodes) else head_index sha nodes)"
  by (simp add: head_index_def enumerate_snoc)

lemma head_index_None: "head_index sha nodes = None \<longleftrightarrow> \<not> list_ex (\<lambda>node. timeline_head_oid node = Some sha) nodes"
  by (induction nodes rule: rev_induct) (auto simp: head_index_snoc, simp add: head_index_def)

lemma head_index_bound: "head_index sha nodes = Some i \<Longrightarrow> i < length nodes"
proof (induction nodes rule: rev_induct)
  case Nil
  then show ?case by (simp add: head_index_def)
qed (auto simp: head_index_snoc split: if_splits)

lemma head_index_drop: "head_index sha nodes = Some i \<Longrightarrow> drop (Suc i) nodes = after_head sha nodes"
proof (induction nodes rule: rev_induct)
  case Nil
  then show ?case by (simp add: head_index_def)
next
  case (snoc node nodes)
  show ?case
  proof (cases "timeline_head_oid node = Some sha")
    case True
    with snoc.prems show ?thesis by (simp add: head_index_snoc after_head_def)
  next
    case False
    with snoc.prems have i: "head_index sha nodes = Some i" by (simp add: head_index_snoc)
    have "list_ex (\<lambda>node. timeline_head_oid node = Some sha) nodes"
      using head_index_None [of sha nodes] i by auto
    with snoc.IH [OF i] head_index_bound [OF i] False show ?thesis by (simp add: after_head_def)
  qed
qed

lemma review_state_after_head:
  "find_current_head_codex_review_state pstr sha allowed nodes =
     foldl (review_step pstr sha allowed) (ReviewNone, None) (after_head sha nodes)"
proof (cases "head_index sha nodes")
  case None
  then show ?thesis using head_index_None [of sha nodes]
    by (simp add: find_current_head_codex_review_state_def after_head_def)
next
  case (Some i)
  then show ?thesis by (simp add: find_current_head_codex_review_state_def head_index_drop)
qed

lemma news_after_head:
  "has_codex_news_after_current_head pstr sha allowed nodes =
     list_ex (is_codex_news pstr sha allowed) (after_head sha nodes)"
proof (cases "head_index sha nodes")
  case None
  then show ?thesis using head_index_None [of sha nodes]
    by (simp add: has_codex_news_after_current_head_def after_head_def)
next
  case (Some i)
  then show ?thesis by (simp add: has_codex_news_after_current_head_def head_index_drop)
qed

section \<open>The last verdict decides\<close>

text \<open>
  What a node alone says of the head: a verdict of a review, a finding, a clean comment or a thumbs
  up on the request. The reference takes the last verdict and, without one, the first request that
  is acknowledged.
\<close>

definition verdict :: "(json \<Rightarrow> string) \<Rightarrow> string \<Rightarrow> string list \<Rightarrow> jobj \<Rightarrow> review_state option" where
  "verdict pstr sha allowed node =
     (if codex_request_reaction_state pstr allowed node = ReviewClean then Some ReviewClean
      else if \<not> is_timeline_codex_author pstr node allowed then None
      else if typename node = JStr ''PullRequestReview'' \<and> about_head sha node then
        Some (if is_needs_work_codex_body (JStr (node_body node)) then ReviewNeedsWork else ReviewClean)
      else if typename node = JStr ''PullRequestReviewComment'' \<and> about_head sha node \<and>
              is_needs_work_codex_body (JStr (node_body node)) then Some ReviewNeedsWork
      else if typename node = JStr ''IssueComment'' \<and> is_clean_codex_body (JStr (node_body node)) then Some ReviewClean
      else None)"

definition last_verdict :: "(json \<Rightarrow> string) \<Rightarrow> string \<Rightarrow> string list \<Rightarrow> jobj list \<Rightarrow> review_state \<times> jobj option" where
  "last_verdict pstr sha allowed nodes =
     (case find (\<lambda>node. verdict pstr sha allowed node \<noteq> None) (rev nodes) of
        Some node \<Rightarrow> (the (verdict pstr sha allowed node), Some node)
      | None \<Rightarrow>
          (case find (\<lambda>node. codex_request_reaction_state pstr allowed node = ReviewPending) nodes of
             Some node \<Rightarrow> (ReviewPending, Some node)
           | None \<Rightarrow> (ReviewNone, None)))"

lemma reaction_request:
  "codex_request_reaction_state pstr allowed node \<noteq> ReviewNone \<Longrightarrow> is_codex_review_request_comment node"
  by (rule ccontr) (simp add: codex_request_reaction_state_def)

lemma request_typename: "is_codex_review_request_comment node \<Longrightarrow> typename node = JStr ''IssueComment''"
  by (simp add: is_codex_review_request_comment_def)

text \<open>An acknowledged request carries no verdict.\<close>

lemma pending_no_verdict:
  assumes "codex_request_reaction_state pstr allowed node = ReviewPending"
  shows "verdict pstr sha allowed node = None"
proof -
  have req: "is_codex_review_request_comment node" using reaction_request [of pstr allowed node] assms by simp
  show ?thesis
    using assms request_not_clean [OF req] request_typename [OF req] by (simp add: verdict_def)
qed

lemma review_step_verdict:
  "review_step pstr sha allowed latest node =
     (case verdict pstr sha allowed node of
        Some st \<Rightarrow> (st, Some node)
      | None \<Rightarrow> if codex_request_reaction_state pstr allowed node = ReviewPending \<and> fst latest = ReviewNone
                then (ReviewPending, Some node) else latest)"
proof (cases "codex_request_reaction_state pstr allowed node = ReviewPending")
  case True
  then have "is_codex_review_request_comment node" using reaction_request [of pstr allowed node] by simp
  then show ?thesis
    using True pending_no_verdict [OF True, of sha] request_not_clean request_typename
    by (auto simp: review_step_def)
next
  case False
  then show ?thesis by (auto simp: review_step_def verdict_def Let_def)
qed

lemma verdict_not_none: "verdict pstr sha allowed node = Some st \<Longrightarrow> st \<in> {ReviewNeedsWork, ReviewClean}"
  by (auto simp: verdict_def split: if_splits)

lemma find_snoc: "find P (xs @ [x]) = (case find P xs of Some y \<Rightarrow> Some y | None \<Rightarrow> if P x then Some x else None)"
  by (induction xs) auto

lemma find_Some_holds: "find P xs = Some x \<Longrightarrow> x \<in> set xs \<and> P x"
  by (induction xs) (auto split: if_splits)

lemma last_verdict_none: "fst (last_verdict pstr sha allowed nodes) = ReviewNone \<longleftrightarrow>
    find (\<lambda>node. verdict pstr sha allowed node \<noteq> None) (rev nodes) = None \<and>
    find (\<lambda>node. codex_request_reaction_state pstr allowed node = ReviewPending) nodes = None"
  using verdict_not_none
  by (fastforce simp: last_verdict_def split: option.splits dest!: find_Some_holds)

lemma foldl_review_step:
  "foldl (review_step pstr sha allowed) (ReviewNone, None) nodes = last_verdict pstr sha allowed nodes"
proof (induction nodes rule: rev_induct)
  case Nil
  then show ?case by (simp add: last_verdict_def)
next
  case (snoc node nodes)
  then show ?case
    using last_verdict_none [of pstr sha allowed nodes] pending_no_verdict [of pstr allowed node sha]
    by (auto simp: review_step_verdict last_verdict_def find_snoc split: option.splits)
qed

text \<open>C38: The state of the Codex review of a pull request is the last verdict given after the head,
  whatever came before it, and an acknowledged request only when there is none: the loop with its
  running state computes the reference, which looks at each node alone.\<close>

theorem review_state_is_last_verdict:
  "find_current_head_codex_review_state pstr sha allowed nodes = last_verdict pstr sha allowed (after_head sha nodes)"
  by (simp add: review_state_after_head foldl_review_step)

section \<open>The merged timeline\<close>

lemma place_comments_step:
  "\<exists>own. place_comments comments (merged, placed) node = (merged @ node # map snd own, placed @ map fst own) \<and>
         set own \<subseteq> set comments"
proof (cases "typename node = JStr ''PullRequestReview''")
  case False
  then show ?thesis by (intro exI [of _ "[]"]) (simp add: place_comments_def)
next
  case True
  show ?thesis
  proof (cases "review_node_database_id node")
    case None
    with True show ?thesis by (intro exI [of _ "[]"]) (simp add: place_comments_def)
  next
    case (Some r)
    with True show ?thesis
      by (intro exI [of _ "filter (\<lambda>(i, c). comment_review_id c = Some r) comments"])
        (auto simp: place_comments_def Let_def)
  qed
qed

text \<open>The placed part: the timeline in its order, and the comments whose numbers were recorded.\<close>

lemma place_comments_fold:
  assumes "foldl (place_comments comments) (merged0, placed0) nodes = (merged, placed)"
  shows "\<exists>added placed_now. merged = merged0 @ added \<and> placed = placed0 @ placed_now \<and> subseq nodes added \<and>
           set added \<subseteq> set nodes \<union> snd ` set comments \<and>
           set placed_now \<subseteq> {i. \<exists>c. (i, c) \<in> set comments \<and> c \<in> set added}"
  using assms
proof (induction nodes arbitrary: merged0 placed0)
  case Nil
  then show ?case by auto
next
  case (Cons node nodes)
  obtain own where own: "place_comments comments (merged0, placed0) node =
      (merged0 @ node # map snd own, placed0 @ map fst own)" "set own \<subseteq> set comments"
    using place_comments_step by blast
  with Cons.prems have "foldl (place_comments comments) (merged0 @ node # map snd own, placed0 @ map fst own) nodes = (merged, placed)"
    by simp
  from Cons.IH [OF this] obtain added placed_now where IH:
    "merged = (merged0 @ node # map snd own) @ added" "placed = (placed0 @ map fst own) @ placed_now"
    "subseq nodes added" "set added \<subseteq> set nodes \<union> snd ` set comments"
    "set placed_now \<subseteq> {i. \<exists>c. (i, c) \<in> set comments \<and> c \<in> set added}" by blast
  let ?added = "node # map snd own @ added"
  have "subseq (node # nodes) ?added" using IH(3) by (simp add: subseq_drop_many)
  moreover have "set ?added \<subseteq> set (node # nodes) \<union> snd ` set comments" using IH(4) own(2) by auto
  moreover have "set (map fst own @ placed_now) \<subseteq> {i. \<exists>c. (i, c) \<in> set comments \<and> c \<in> set ?added}"
    using IH(5) own(2) by (force simp: image_iff)
  ultimately show ?case using IH(1,2)
    by (intro exI [of _ ?added] exI [of _ "map fst own @ placed_now"]) simp
qed

lemma insert_before_later_set [simp]: "set (insert_before_later t node xs) = insert node (set xs)"
  by (induction t node xs rule: insert_before_later.induct) (auto split: option.splits)

lemma insert_before_later_subseq: "subseq xs (insert_before_later t node xs)"
  by (induction t node xs rule: insert_before_later.induct) (auto split: option.splits)

lemma insert_unplaced_set [simp]: "set (insert_unplaced merged node) = insert node (set merged)"
  by (auto simp: insert_unplaced_def split: option.splits)

lemma insert_unplaced_subseq: "subseq merged (insert_unplaced merged node)"
  using insert_before_later_subseq by (auto simp: insert_unplaced_def split: option.splits)

lemma insert_all_set: "set (foldl insert_unplaced merged nodes) = set merged \<union> set nodes"
  by (induction nodes arbitrary: merged) auto

lemma insert_all_subseq: "subseq merged (foldl insert_unplaced merged nodes)"
  using insert_unplaced_subseq
  by (induction nodes arbitrary: merged) (auto intro: subseq_order.order_trans)

lemma add_unplaced_fold_mono: "set unplaced \<subseteq> set (foldl (add_unplaced placed) unplaced cs)"
  by (induction cs arbitrary: unplaced) (fastforce simp: add_unplaced_def)+

lemma add_unplaced_fold_sub: "set (foldl (add_unplaced placed) unplaced cs) \<subseteq> set unplaced \<union> snd ` set cs"
proof (induction cs arbitrary: unplaced)
  case (Cons c cs)
  have "set (add_unplaced placed unplaced c) \<subseteq> insert (snd c) (set unplaced)" by (auto simp: add_unplaced_def)
  with Cons [of "add_unplaced placed unplaced c"] show ?case by auto
qed simp

lemma add_unplaced_fold_all:
  assumes "(i, c) \<in> set cs"
  shows "i \<in> set placed \<or> c \<in> set (foldl (add_unplaced placed) unplaced cs) \<or>
         (\<exists>u\<in>set (foldl (add_unplaced placed) unplaced cs). json_eq (JObj u) (JObj c))"
  using assms
proof (induction cs arbitrary: unplaced)
  case (Cons p cs)
  let ?next = "add_unplaced placed unplaced p"
  show ?case
  proof (cases "p = (i, c)")
    case True
    then have "i \<in> set placed \<or> c \<in> set ?next \<or> (\<exists>u\<in>set ?next. json_eq (JObj u) (JObj c))"
      by (auto simp: add_unplaced_def list_ex_iff)
    then show ?thesis using add_unplaced_fold_mono [of ?next placed cs] by auto
  next
    case False
    with Cons show ?thesis by simp
  qed
qed simp

lemma enumerate_snd: "snd ` set (List.enumerate k xs) = set xs"
  by (metis map_snd_enumerate list.set_map)

lemma enumerate_key: "(i, c) \<in> set (List.enumerate k xs) \<Longrightarrow> (i, c') \<in> set (List.enumerate k xs) \<Longrightarrow> c = c'"
  by (auto simp: in_set_enumerate_eq)

text \<open>Merging the review comments into the timeline keeps the order of the timeline, adds nothing but
  comments, and loses no comment: each one is in the result, or one equal to it is.\<close>

lemma merge_review_comments_complete:
  "subseq timeline (merge_review_comment_nodes timeline comments) \<and>
   set (merge_review_comment_nodes timeline comments) \<subseteq> set timeline \<union> set comments \<and>
   set comments \<subseteq> {c. c \<in> set (merge_review_comment_nodes timeline comments) \<or>
                       (\<exists>u \<in> set (merge_review_comment_nodes timeline comments). json_eq (JObj u) (JObj c))}"
proof (cases "comments = []")
  case True
  then show ?thesis by (simp add: merge_review_comment_nodes_def)
next
  case False
  let ?cs = "List.enumerate 0 comments"
  let ?un = "filter (\<lambda>node. comment_review_id node = None) comments"
  obtain merged placed where mp: "foldl (place_comments ?cs) ([], []) timeline = (merged, placed)" by force
  let ?all = "foldl (add_unplaced placed) ?un ?cs"
  have res: "merge_review_comment_nodes timeline comments = foldl insert_unplaced merged ?all"
    using False mp by (simp add: merge_review_comment_nodes_def Let_def)
  from place_comments_fold [OF mp] have p: "subseq timeline merged" "set merged \<subseteq> set timeline \<union> set comments"
    "set placed \<subseteq> {i. \<exists>c. (i, c) \<in> set ?cs \<and> c \<in> set merged}"
    by (auto simp: enumerate_snd)
  have "c \<in> set merged \<union> set ?all \<or> (\<exists>u\<in>set merged \<union> set ?all. json_eq (JObj u) (JObj c))" if "c \<in> set comments" for c
  proof -
    from that obtain i where i: "(i, c) \<in> set ?cs" by (metis enumerate_snd imageE prod.collapse)
    show ?thesis using add_unplaced_fold_all [OF i, of placed ?un] p(3) enumerate_key [OF i] by blast
  qed
  moreover have "set ?all \<subseteq> set comments" using add_unplaced_fold_sub [of placed ?un ?cs] by (auto simp: enumerate_snd)
  ultimately show ?thesis
    using p(1,2) insert_all_subseq [of merged ?all] unfolding res insert_all_set
    by (auto intro: subseq_order.order_trans)
qed

section \<open>The latest run of a check\<close>

lemma latest_run_cases:
  "jget item ''name'' = JStr name \<Longrightarrow>
   latest_run pstr named item =
     (if (\<exists>previous. map_of named name = Some previous \<and>
                     \<not> check_run_recency_key pstr previous \<le> check_run_recency_key pstr item)
      then named else dict_set name item named)"
  by (auto simp: latest_run_def split: option.splits)

text \<open>What the loop keeps for a name is one of its runs, and none of its runs is later.\<close>

lemma named_check_runs_latest:
  "(case map_of (named_check_runs pstr runs) name of
      None \<Rightarrow> (\<forall>item \<in> set runs. jget item ''name'' \<noteq> JStr name)
    | Some item \<Rightarrow> item \<in> set runs \<and> jget item ''name'' = JStr name \<and>
        (\<forall>other \<in> set runs. jget other ''name'' = JStr name \<longrightarrow>
           check_run_recency_key pstr other \<le> check_run_recency_key pstr item))"
proof (induction runs rule: rev_induct)
  case Nil
  then show ?case by (simp add: named_check_runs_def)
next
  case (snoc run runs)
  have unfold: "named_check_runs pstr (runs @ [run]) = latest_run pstr (named_check_runs pstr runs) run"
    by (simp add: named_check_runs_def)
  show ?case
  proof (cases "jget run ''name'' = JStr name")
    case True
    then show ?thesis using snoc.IH unfolding unfold latest_run_cases [OF True]
      by (auto split: option.splits)
  next
    case False
    then have "map_of (latest_run pstr (named_check_runs pstr runs) run) name = map_of (named_check_runs pstr runs) name"
      by (auto simp: latest_run_def split: json.splits option.splits)
    with False snoc.IH show ?thesis unfolding unfold by (auto split: option.splits)
  qed
qed

text \<open>The checks of a commit count as green only when every required check has a run and its latest
  run, by its start and then its end, ended well.\<close>

lemma checks_success_sound:
  assumes "classify_check_state pstr runs combined required = Inr ChecksSuccess" "name \<in> set required"
  shows "\<exists>item \<in> set runs. jget item ''name'' = JStr name \<and> check_run_state pstr item \<in> set SUCCESS_CHECK_STATES \<and>
           (\<forall>other \<in> set runs. jget other ''name'' = JStr name \<longrightarrow>
              check_run_recency_key pstr other \<le> check_run_recency_key pstr item)"
proof -
  let ?named = "named_check_runs pstr runs"
  from assms(1) obtain statuses where o:
    "overall_state required (map fst ?named)
       (map (check_run_state pstr) (map snd ?named @ unnamed_check_runs runs) @ statuses) = ChecksSuccess"
    by (auto simp: classify_check_state_def Let_def res_bind_eq_Inr)
  have req: "list_all (\<lambda>name. name \<in> fst ` set ?named) required"
    and all: "list_all (\<lambda>st. st \<in> set SUCCESS_CHECK_STATES) (map (check_run_state pstr) (map snd ?named))"
    using o by (auto simp: overall_state_def list_all_iff split: if_splits)
  from req assms(2) have "name \<in> fst ` set ?named" by (simp add: list_all_iff)
  then obtain item where item: "map_of ?named name = Some item"
    by (metis map_of_eq_None_iff not_None_eq)
  then have "check_run_state pstr item \<in> set SUCCESS_CHECK_STATES"
    using all by (force simp: list_all_iff dest: map_of_SomeD)
  with item named_check_runs_latest [where pstr = pstr and runs = runs and name = name] show ?thesis by auto
qed

text \<open>Two runs of a required check, the second one later and green.\<close>

lemma checks_success_sound_example:
  "classify_check_state (\<lambda>_. [])
     [[(''name'', JStr ''b''), (''conclusion'', JStr ''failure''), (''started_at'', JStr ''1'')],
      [(''name'', JStr ''b''), (''conclusion'', JStr ''success''), (''started_at'', JStr ''2'')]] [] [''b''] = Inr ChecksSuccess \<and>
   list_ex (\<lambda>item. jget item ''name'' = JStr ''b'' \<and> check_run_state (\<lambda>_. []) item \<in> set SUCCESS_CHECK_STATES)
     [[(''name'', JStr ''b''), (''conclusion'', JStr ''failure''), (''started_at'', JStr ''1'')],
      [(''name'', JStr ''b''), (''conclusion'', JStr ''success''), (''started_at'', JStr ''2'')]]"
  (is "?ok \<and> list_ex ?P ?runs")
proof -
  have ok: ?ok by code_simp
  have "list_ex ?P ?runs" using checks_success_sound [OF ok, of "''b''"] by (auto simp: list_ex_iff)
  with ok show ?thesis by blast
qed

lemma last_verdict_clean:
  "fst (last_verdict pstr sha allowed nodes) = ReviewClean \<Longrightarrow>
   list_ex (\<lambda>n. verdict pstr sha allowed n = Some ReviewClean) nodes"
  by (auto simp: last_verdict_def list_ex_iff split: option.splits dest!: find_Some_holds)

end
