(* ===== verification/VersionFiles.thy ===== *)
theory VersionFiles
  imports CodexReview
begin

text \<open>
  The files that carry the version of the project and their rewriting
  (\<open>update_project_versions\<close> and \<open>read_project_versions\<close> in \<open>src/scripts/release_versions.py\<close>), the
  commits read from \<open>git log\<close>, the base version of the next train and the outputs of the workflows. The
  regular expressions are written out as functions on the text. \<open>package.json\<close> is its parsed document; the
  TOML parser and the answers of \<open>git\<close> are arguments. \<open>written_versions\<close> of the theory of versions is the
  specification of an update; the round trip below shows that the rewriting of the texts meets it.
\<close>

section \<open>One substitution in a text\<close>

text \<open>
  \<open>pre[^"]+post\<close>, where \<open>post\<close> begins with a double quote, at the start of a text: the characters between
  and what follows. With \<open>eol\<close> the match ends at the end of a line (\<open>$\<close>).
\<close>

definition not_quote :: "char \<Rightarrow> bool" where
  "not_quote c = (c \<noteq> CHR 34)"

definition at_line_end :: "string \<Rightarrow> bool" where
  "at_line_end s = (s = [] \<or> hd s = CHR 10)"

definition quoted_at :: "bool \<Rightarrow> string \<Rightarrow> string \<Rightarrow> string \<Rightarrow> (string \<times> string) option" where
  "quoted_at eol pre post s =
     (let r = drop (length pre) s; v = takeWhile not_quote r; rest = dropWhile not_quote r
      in if startswith s pre \<and> v \<noteq> [] \<and> startswith rest post \<and> (eol \<longrightarrow> at_line_end (drop (length post) rest))
         then Some (v, drop (length post) rest) else None)"

text \<open>
  The first match in a text: what is before it, the value and what is after it. A pattern that is
  \<open>anchored\<close> matches at the start of a line only; \<open>bol\<close> tells whether the text starts there.
\<close>

fun find_quoted :: "bool \<Rightarrow> bool \<Rightarrow> string \<Rightarrow> string \<Rightarrow> bool \<Rightarrow> string \<Rightarrow> (string \<times> string \<times> string) option" where
  "find_quoted anchored eol pre post bol [] =
     (if anchored \<longrightarrow> bol then map_option (\<lambda>(v, r). ([], v, r)) (quoted_at eol pre post []) else None)"
| "find_quoted anchored eol pre post bol (c # s) =
     (case (if anchored \<longrightarrow> bol then quoted_at eol pre post (c # s) else None) of
        Some (v, r) \<Rightarrow> Some ([], v, r)
      | None \<Rightarrow> map_option (\<lambda>(a, v, r). (c # a, v, r)) (find_quoted anchored eol pre post (c = CHR 10) s))"

definition replace_quoted :: "bool \<Rightarrow> bool \<Rightarrow> string \<Rightarrow> string \<Rightarrow> string \<Rightarrow> string \<Rightarrow> string res" where
  "replace_quoted anchored eol pre post value text =
     (case find_quoted anchored eol pre post True text of
        None \<Rightarrow> Inl ValueError
      | Some (a, _, r) \<Rightarrow> Inr (a @ pre @ value @ post @ r))"

definition search_quoted :: "bool \<Rightarrow> bool \<Rightarrow> string \<Rightarrow> string \<Rightarrow> string \<Rightarrow> string res" where
  "search_quoted anchored eol pre post text =
     (case find_quoted anchored eol pre post True text of
        None \<Rightarrow> Inl ValueError
      | Some (_, v, _) \<Rightarrow> Inr v)"

text \<open>
  \<open>^pre.*$\<close>: the first line with the prefix is replaced. \<open>^pre(.+)$\<close>: the rest of the first line with the
  prefix and something after it.
\<close>

fun set_line :: "string \<Rightarrow> string \<Rightarrow> string list \<Rightarrow> string list option" where
  "set_line pre value [] = None"
| "set_line pre value (l # ls) =
     (if startswith l pre then Some ((pre @ value) # ls) else map_option ((#) l) (set_line pre value ls))"

definition replace_line :: "string \<Rightarrow> string \<Rightarrow> string \<Rightarrow> string res" where
  "replace_line pre value text =
     (case set_line pre value (split_on (CHR 10) text) of None \<Rightarrow> Inl ValueError | Some ls \<Rightarrow> Inr (join [CHR 10] ls))"

definition line_value :: "string \<Rightarrow> string list \<Rightarrow> string option" where
  "line_value pre ls =
     map_option (drop (length pre)) (find (\<lambda>l. startswith l pre \<and> length pre < length l) ls)"

definition search_line :: "string \<Rightarrow> string \<Rightarrow> string res" where
  "search_line pre text = (case line_value pre (split_on (CHR 10) text) of None \<Rightarrow> Inl ValueError | Some v \<Rightarrow> Inr v)"

section \<open>The files\<close>

record version_files =
  vf_pyproject :: string
  vf_init :: string
  vf_package :: json
  vf_chart :: string
  vf_uv_lock :: string

definition dquote :: string where "dquote = [CHR 34]"

definition pyproject_pre :: string where "pyproject_pre = ''version = '' @ dquote"

definition init_pre :: string where "init_pre = ''__version__ = '' @ dquote"

definition uv_pre :: string where
  "uv_pre = ''[[package]]'' @ [CHR 10] @ ''name = '' @ dquote @ ''firecrawl-lb'' @ dquote @ [CHR 10] @ ''version = '' @ dquote"

definition uv_post :: string where
  "uv_post = dquote @ [CHR 10] @ ''source = { editable = '' @ dquote @ ''.'' @ dquote @ '' }''"

definition chart_version_pre :: string where "chart_version_pre = ''version: ''"

definition chart_app_version_pre :: string where "chart_app_version_pre = ''appVersion: ''"

text \<open>The five rewritings, each of one file, that \<open>update_project_versions\<close> does in this order.\<close>

definition write_pyproject :: "string \<Rightarrow> version_files \<Rightarrow> version_files res" where
  "write_pyproject version f =
     res_bind (replace_quoted True True pyproject_pre dquote version (vf_pyproject f)) (\<lambda>t. Inr (f\<lparr>vf_pyproject := t\<rparr>))"

definition write_init :: "string \<Rightarrow> version_files \<Rightarrow> version_files res" where
  "write_init version f =
     res_bind (replace_quoted True False init_pre dquote version (vf_init f)) (\<lambda>t. Inr (f\<lparr>vf_init := t\<rparr>))"

definition set_package_version :: "string \<Rightarrow> json \<Rightarrow> json res" where
  "set_package_version version data =
     (case data of JObj ob \<Rightarrow> Inr (JObj (dict_set ''version'' (JStr version) ob)) | _ \<Rightarrow> Inl TypeError)"

definition write_package :: "string \<Rightarrow> version_files \<Rightarrow> version_files res" where
  "write_package version f = res_bind (set_package_version version (vf_package f)) (\<lambda>d. Inr (f\<lparr>vf_package := d\<rparr>))"

definition set_chart_versions :: "string \<Rightarrow> string \<Rightarrow> string res" where
  "set_chart_versions version text =
     res_bind (replace_line chart_version_pre version text) (replace_line chart_app_version_pre version)"

definition write_chart :: "string \<Rightarrow> version_files \<Rightarrow> version_files res" where
  "write_chart version f = res_bind (set_chart_versions version (vf_chart f)) (\<lambda>t. Inr (f\<lparr>vf_chart := t\<rparr>))"

definition write_uv_lock :: "string \<Rightarrow> version_files \<Rightarrow> version_files res" where
  "write_uv_lock version f =
     res_bind (replace_quoted False False uv_pre uv_post version (vf_uv_lock f)) (\<lambda>t. Inr (f\<lparr>vf_uv_lock := t\<rparr>))"

text \<open>The writes one after the other: an error keeps the files written before it.\<close>

fun write_in_order :: "(version_files \<Rightarrow> version_files res) list \<Rightarrow> version_files \<Rightarrow> unit res \<times> version_files" where
  "write_in_order [] f = (Inr (), f)"
| "write_in_order (w # ws) f = (case w f of Inl e \<Rightarrow> (Inl e, f) | Inr f' \<Rightarrow> write_in_order ws f')"

definition update_project_versions :: "string \<Rightarrow> version_files \<Rightarrow> unit res \<times> version_files" where
  "update_project_versions version f =
     (case parse_version version of
        Inl e \<Rightarrow> (Inl e, f)
      | Inr release \<Rightarrow>
          write_in_order [write_pyproject version, write_init version, write_package version, write_chart version,
                     write_uv_lock (pypi_version release)] f)"

section \<open>Reading the versions\<close>

text \<open>\<open>toml\<close> is \<open>tomllib.loads\<close>.\<close>

definition read_pyproject_version_text :: "(string \<Rightarrow> jobj res) \<Rightarrow> string \<Rightarrow> string res" where
  "read_pyproject_version_text toml text =
     res_bind (toml text) (\<lambda>data.
       case jget data ''project'' of
         JObj project \<Rightarrow> (case nonempty_str (jget project ''version'') of Some v \<Rightarrow> Inr v | None \<Rightarrow> Inl ValueError)
       | _ \<Rightarrow> Inl ValueError)"

definition package_version :: "json \<Rightarrow> json res" where
  "package_version data =
     (case data of
        JObj ob \<Rightarrow> (case map_of ob ''version'' of Some v \<Rightarrow> Inr v | None \<Rightarrow> Inl KeyError)
      | _ \<Rightarrow> Inl TypeError)"

text \<open>The version of \<open>package.json\<close> is any JSON value; the others are strings.\<close>

definition read_project_versions :: "(string \<Rightarrow> jobj res) \<Rightarrow> version_files \<Rightarrow> (string \<times> json) list res" where
  "read_project_versions toml f =
     res_bind (read_pyproject_version_text toml (vf_pyproject f)) (\<lambda>p.
     res_bind (search_quoted True False init_pre dquote (vf_init f)) (\<lambda>i.
     res_bind (package_version (vf_package f)) (\<lambda>j.
     res_bind (search_line chart_version_pre (vf_chart f)) (\<lambda>c.
     res_bind (search_line chart_app_version_pre (vf_chart f)) (\<lambda>a.
     res_bind (search_quoted False False uv_pre uv_post (vf_uv_lock f)) (\<lambda>u.
       Inr [(''pyproject.toml'', JStr p), (''app/__init__.py'', JStr i), (''frontend/package.json'', j),
            (''deploy/helm/firecrawl-lb/Chart.yaml version'', JStr c),
            (''deploy/helm/firecrawl-lb/Chart.yaml appVersion'', JStr a), (''uv.lock'', JStr u)]))))))"

text \<open>A value that is not a string differs from every version, so it is a mismatch.\<close>

definition assert_file_versions :: "(string \<Rightarrow> jobj res) \<Rightarrow> version_files \<Rightarrow> string \<Rightarrow> unit res" where
  "assert_file_versions toml f expected_version =
     res_bind (read_project_versions toml f) (\<lambda>versions.
       if list_all (\<lambda>(_, v). case v of JStr _ \<Rightarrow> True | _ \<Rightarrow> False) versions
       then assert_project_versions (map (\<lambda>(name, v). (name, case v of JStr s \<Rightarrow> s | _ \<Rightarrow> [])) versions) expected_version
       else Inl ValueError)"

section \<open>Commits, base version and outputs\<close>

text \<open>
  The records of \<open>git log --reverse --format=%H%x00%s%x00%b%x1e\<close>, the output of which is the argument:
  trailing separators and line breaks are cut off, then the text is split at the separators.
\<close>

definition rstrip_of :: "char list \<Rightarrow> string \<Rightarrow> string" where
  "rstrip_of cs s = rev (dropWhile (\<lambda>c. c \<in> set cs) (rev s))"

definition parse_commit :: "string \<Rightarrow> commit_message res" where
  "parse_commit entry =
     (case split_first (CHR 0x00) entry of
        (sha, Some rest) \<Rightarrow>
          (case split_first (CHR 0x00) rest of
             (subject, Some body) \<Rightarrow> Inr \<lparr>cm_sha = sha, cm_subject = subject, cm_body = body\<rparr>
           | _ \<Rightarrow> Inl ValueError)
      | _ \<Rightarrow> Inl ValueError)"

definition commit_messages_since :: "string \<Rightarrow> commit_message list res" where
  "commit_messages_since out =
     res_map parse_commit
       (filter (\<lambda>entry. strip entry \<noteq> []) (split_on (CHR 30) (rstrip_of [CHR 30, CHR 10] out)))"

text \<open>The stable version on the branch of the release tool: \<open>git_show ref\<close> is the status and output of \<open>git git_show\<close>.\<close>

fun discover_from :: "(string \<Rightarrow> jobj res) \<Rightarrow> (string \<Rightarrow> int \<times> string) \<Rightarrow> string list \<Rightarrow> string res" where
  "discover_from toml git_show [] = Inl ValueError"
| "discover_from toml git_show (ref # refs) =
     (case git_show ref of (status, out) \<Rightarrow>
        if status \<noteq> 0 then discover_from toml git_show refs
        else res_bind (res_bind (read_pyproject_version_text toml out) parse_version) (\<lambda>release.
               if is_prerelease release then Inl ValueError else Inr (rv_version release)))"

definition discover_release_please_base_version :: "(string \<Rightarrow> jobj res) \<Rightarrow> (string \<Rightarrow> int \<times> string) \<Rightarrow> string res" where
  "discover_release_please_base_version toml git_show =
     discover_from toml git_show [''origin/release-please--branches--main'', ''release-please--branches--main'']"

text \<open>\<open>rev_parse\<close> is \<open>git rev-parse\<close>, without a value when the command fails, which raises.\<close>

definition tag_targets_head :: "(string \<Rightarrow> string option) \<Rightarrow> string \<Rightarrow> bool option" where
  "tag_targets_head rev_parse tag =
     Option.bind (rev_parse (tag @ ''^{commit}'')) (\<lambda>tag_sha.
       Option.bind (rev_parse ''HEAD'') (\<lambda>head_sha. Some (strip tag_sha = strip head_sha)))"

datatype output_value = OutStr string | OutInt int | OutBool bool

fun output_text :: "output_value \<Rightarrow> string" where
  "output_text (OutStr s) = s"
| "output_text (OutInt n) = py_str_int n"
| "output_text (OutBool b) = (if b then ''true'' else ''false'')"

text \<open>The lines are appended to the file that \<open>GITHUB_OUTPUT\<close> names; files are texts by path.\<close>

definition write_github_outputs :: "string \<Rightarrow> (string \<times> output_value) list \<Rightarrow> (string \<Rightarrow> string) \<Rightarrow> string \<Rightarrow> string" where
  "write_github_outputs output_path values files =
     (if output_path = [] then files
      else files(output_path := files output_path @ concat (map (\<lambda>(k, v). k @ ''='' @ output_text v @ [CHR 10]) values)))"

section \<open>A replaced value is found again\<close>

definition pattern_ok :: "string \<Rightarrow> string \<Rightarrow> bool" where
  "pattern_ok pre post =
     (pre \<noteq> [] \<and> last pre = CHR 34 \<and> post \<noteq> [] \<and> hd post = CHR 34 \<and> length post \<le> length pre \<and>
      list_all (\<lambda>k. endswith pre (take k post) \<longrightarrow> post ! k = CHR 10) [1..<length post])"

definition plain_value :: "string \<Rightarrow> bool" where
  "plain_value v = (v \<noteq> [] \<and> list_all (\<lambda>c. c \<noteq> CHR 34 \<and> c \<noteq> CHR 10) v)"

lemma quoted_at_iff:
  assumes "post \<noteq> []" "hd post = CHR 34"
  shows "quoted_at eol pre post s = Some (v, r) \<longleftrightarrow>
    s = pre @ v @ post @ r \<and> v \<noteq> [] \<and> list_all not_quote v \<and> (eol \<longrightarrow> at_line_end r)"
proof
  assume m: "quoted_at eol pre post s = Some (v, r)"
  then obtain t where t: "s = pre @ t" by (auto simp: quoted_at_def Let_def startswith_iff split: if_splits)
  with m have v: "v = takeWhile not_quote t" "v \<noteq> []" "startswith (dropWhile not_quote t) post"
    "r = drop (length post) (dropWhile not_quote t)" "eol \<longrightarrow> at_line_end r"
    by (auto simp: quoted_at_def Let_def split: if_splits)
  then have "dropWhile not_quote t = post @ r" by (auto simp: startswith_iff)
  moreover have "t = takeWhile not_quote t @ dropWhile not_quote t" by simp
  ultimately show "s = pre @ v @ post @ r \<and> v \<noteq> [] \<and> list_all not_quote v \<and> (eol \<longrightarrow> at_line_end r)"
    using t v by (auto simp: list_all_iff dest: set_takeWhileD)
next
  assume s: "s = pre @ v @ post @ r \<and> v \<noteq> [] \<and> list_all not_quote v \<and> (eol \<longrightarrow> at_line_end r)"
  obtain p where p: "post = CHR 34 # p" using assms by (cases post) auto
  have q: "takeWhile not_quote (v @ post @ r) = v" "dropWhile not_quote (v @ post @ r) = post @ r"
    using s p by (auto simp: list_all_iff not_quote_def takeWhile_append2 dropWhile_append2)
  show "quoted_at eol pre post s = Some (v, r)" using s q by (simp add: quoted_at_def Let_def)
qed

lemma find_quoted_Some:
  assumes "post \<noteq> []" "hd post = CHR 34" "find_quoted anchored eol pre post bol s = Some (a, v, r)"
  shows "s = a @ pre @ v @ post @ r \<and> v \<noteq> [] \<and> list_all not_quote v \<and> (eol \<longrightarrow> at_line_end r)"
  using assms(3)
proof (induction s arbitrary: a bol)
  case Nil
  then show ?case using quoted_at_iff [OF assms(1,2)] by (auto split: if_splits)
next
  case (Cons c s)
  show ?case
  proof (cases "if anchored \<longrightarrow> bol then quoted_at eol pre post (c # s) else None")
    case None
    with Cons.prems obtain a' where "find_quoted anchored eol pre post (c = CHR 10) s = Some (a', v, r)" "a = c # a'"
      by (auto split: if_splits)
    with Cons.IH show ?thesis by fastforce
  next
    case (Some m)
    with Cons.prems have "quoted_at eol pre post (c # s) = Some (v, r)" "a = []" by (auto split: if_splits)
    then show ?thesis using quoted_at_iff [OF assms(1,2), of eol pre "c # s" v r] by auto
  qed
qed

text \<open>A new value does not make an earlier place match.\<close>

lemma quoted_at_earlier:
  assumes ok: "pattern_ok pre post" and w: "plain_value w" and x: "x \<noteq> []"
    and old: "quoted_at eol pre post (x @ pre @ g @ post @ r) = None"
  shows "quoted_at eol pre post (x @ pre @ w @ post @ r) = None"
proof (rule ccontr)
  have p: "post \<noteq> []" "hd post = CHR 34" "pre \<noteq> []" "last pre = CHR 34" using ok by (auto simp: pattern_ok_def)
  assume "quoted_at eol pre post (x @ pre @ w @ post @ r) \<noteq> None"
  then obtain u rest where "quoted_at eol pre post (x @ pre @ w @ post @ r) = Some (u, rest)" by auto
  then have m: "x @ pre @ w @ post @ r = pre @ u @ post @ rest" "u \<noteq> []" "list_all not_quote u" "eol \<longrightarrow> at_line_end rest"
    using quoted_at_iff [OF p(1,2)] by auto
  define d where "d = drop (length pre) (x @ pre)"
  have d: "x @ pre = pre @ d"
  proof -
    have "take (length pre) (x @ pre) = take (length pre) (x @ pre @ w @ post @ r)" by (simp add: take_append)
    also have "\<dots> = pre" unfolding m(1) by simp
    finally show ?thesis unfolding d_def by (metis append_take_drop_id)
  qed
  have "length d = length x" using arg_cong [OF d, of length] by simp
  with x have ne: "d \<noteq> []" by auto
  have lastd: "last d = CHR 34" using arg_cong [OF d, of last] ne p by simp
  have eq: "d @ w @ post @ r = u @ post @ rest" using m(1) d by (metis append.assoc same_append_eq)
  obtain e where e: "d = u @ e" "e \<noteq> []"
  proof -
    have "length u < length d"
    proof (rule ccontr)
      assume "\<not> length u < length d"
      then have "take (length d) u = d" using arg_cong [OF eq, of "take (length d)"] by simp
      then have "CHR 34 \<in> set u" using lastd ne by (metis in_set_takeD last_in_set)
      with m(3) show False by (auto simp: list_all_iff not_quote_def)
    qed
    then have "take (length u) d = u" using arg_cong [OF eq, of "take (length u)"] by simp
    with \<open>length u < length d\<close> that [of "drop (length u) d"] show thesis by (metis append_take_drop_id drop_eq_Nil leD)
  qed
  have eq2: "e @ w @ post @ r = post @ rest" using eq e by simp
  have hdw: "w \<noteq> []" "hd w \<noteq> CHR 10" using w by (cases w; simp add: plain_value_def)+
  show False
  proof (cases "length post \<le> length e")
    case True
    then have "take (length post) e = post" using arg_cong [OF eq2, of "take (length post)"] by simp
    then obtain z where z: "e = post @ z" by (metis append_take_drop_id)
    have "eol \<longrightarrow> at_line_end (z @ g @ post @ r)"
      using m(4) eq2 z hdw by (cases z) (auto simp: at_line_end_def)
    moreover have "x @ pre @ g @ post @ r = pre @ u @ post @ (z @ g @ post @ r)" using d e z by (metis append.assoc)
    ultimately have "quoted_at eol pre post (x @ pre @ g @ post @ r) = Some (u, z @ g @ post @ r)"
      using quoted_at_iff [OF p(1,2)] m by blast
    with old show False by simp
  next
    case False
    define k where "k = length e"
    have k: "0 < k" "k < length post" using False e by (auto simp: k_def)
    have te: "take k post = e" using arg_cong [OF eq2, of "take k"] False by (simp add: k_def)
    have "w @ post @ r = drop k post @ rest" using arg_cong [OF eq2, of "drop k"] False by (simp add: k_def)
    then have hd: "hd w = post ! k" using hdw k by (metis append_is_Nil_conv drop_eq_Nil hd_append2 hd_drop_conv_nth leD)
    have le: "length e \<le> length pre" using False ok by (simp add: pattern_ok_def)
    have "x @ pre = (pre @ u) @ e" using d e by simp
    from arg_cong [OF this, of "\<lambda>t. drop (length t - length e) t"] le
    have "endswith pre e" by (simp add: endswith_def)
    with te k ok have "post ! k = CHR 10" by (auto simp: pattern_ok_def list_all_iff)
    with hd hdw show False by simp
  qed
qed

lemma find_quoted_replaced:
  assumes ok: "pattern_ok pre post" and w: "plain_value w"
    and found: "find_quoted anchored eol pre post bol s = Some (a, g, r)"
  shows "find_quoted anchored eol pre post bol (a @ pre @ w @ post @ r) = Some (a, w, r)"
proof -
  have p: "post \<noteq> []" "hd post = CHR 34" "pre \<noteq> []" using ok by (auto simp: pattern_ok_def)
  have q: "list_all not_quote w" "w \<noteq> []" using w by (auto simp: plain_value_def not_quote_def list_all_iff)
  have eol: "eol \<longrightarrow> at_line_end r" using find_quoted_Some [OF p(1,2) found] by simp
  from found show ?thesis
  proof (induction a arbitrary: s bol)
    case Nil
    have "anchored \<longrightarrow> bol" using Nil.prems by (cases s) (auto split: option.splits if_splits)
    moreover obtain c t where ct: "pre = c # t" using p(3) by (cases pre) auto
    moreover have "quoted_at eol pre post (pre @ w @ post @ r) = Some (w, r)"
      using quoted_at_iff [OF p(1,2)] q eol by simp
    ultimately show ?case by simp
  next
    case (Cons c a)
    obtain s' where s': "s = c # s'" "(if anchored \<longrightarrow> bol then quoted_at eol pre post (c # s') else None) = None"
      "find_quoted anchored eol pre post (c = CHR 10) s' = Some (a, g, r)"
      using Cons.prems by (cases s) (auto split: option.splits if_splits)
    have "c # s' = (c # a) @ pre @ g @ post @ r" using find_quoted_Some [OF p(1,2) s'(3)] by simp
    with s'(2) quoted_at_earlier [OF ok w, of "c # a" eol g r]
    have "(if anchored \<longrightarrow> bol then quoted_at eol pre post (c # a @ pre @ w @ post @ r) else None) = None" by (auto split: if_splits)
    with Cons.IH [OF s'(3)] show ?case by simp
  qed
qed

text \<open>The laws of a substitution: the value is read back, and a second one overwrites the first.\<close>

lemma replace_quoted_laws:
  assumes "pattern_ok pre post" "plain_value w" "replace_quoted anchored eol pre post w text = Inr t"
  shows "search_quoted anchored eol pre post t = Inr w"
    "replace_quoted anchored eol pre post w' t = replace_quoted anchored eol pre post w' text"
proof -
  from assms(3) obtain a g r where f: "find_quoted anchored eol pre post True text = Some (a, g, r)" "t = a @ pre @ w @ post @ r"
    by (auto simp: replace_quoted_def split: option.splits)
  note find_quoted_replaced [OF assms(1,2) f(1)]
  with f show "search_quoted anchored eol pre post t = Inr w"
    "replace_quoted anchored eol pre post w' t = replace_quoted anchored eol pre post w' text"
    by (simp_all add: search_quoted_def replace_quoted_def)
qed

section \<open>Lines\<close>

lemma split_on_no_sep: "l \<in> set (split_on sep s) \<Longrightarrow> sep \<notin> set l"
  by (induction sep s arbitrary: l rule: split_on.induct) (auto split: list.splits if_splits)

lemma split_on_word: "sep \<notin> set w \<Longrightarrow> split_on sep w = [w]"
  by (induction w) auto

lemma split_on_append: "sep \<notin> set w \<Longrightarrow> split_on sep (w @ sep # s) = w # split_on sep s"
  by (induction w) auto

lemma split_on_join: "ls \<noteq> [] \<Longrightarrow> list_all (\<lambda>l. sep \<notin> set l) ls \<Longrightarrow> split_on sep (join [sep] ls) = ls"
  by (induction "[sep]" ls rule: join.induct) (auto simp: split_on_word split_on_append)

lemma set_line_no_sep:
  "set_line pre value ls = Some ls' \<Longrightarrow> sep \<notin> set (pre @ value) \<Longrightarrow> list_all (\<lambda>l. sep \<notin> set l) ls \<Longrightarrow>
    ls' \<noteq> [] \<and> list_all (\<lambda>l. sep \<notin> set l) ls'"
  by (induction ls arbitrary: ls') (auto split: if_splits)

lemma set_line_read: "set_line pre value ls = Some ls' \<Longrightarrow> value \<noteq> [] \<Longrightarrow> line_value pre ls' = Some value"
  by (induction ls arbitrary: ls') (auto simp: line_value_def split: if_splits)

lemma set_line_twice: "set_line pre value ls = Some ls' \<Longrightarrow> set_line pre value' ls' = set_line pre value' ls"
  by (induction ls arbitrary: ls') (auto split: if_splits)

text \<open>Two prefixes that no line shares.\<close>

definition apart :: "string \<Rightarrow> string \<Rightarrow> bool" where
  "apart p q = (hd p \<noteq> hd q \<and> p \<noteq> [] \<and> q \<noteq> [])"

lemma apart_startswith: "apart p q \<Longrightarrow> startswith l p \<Longrightarrow> \<not> startswith l q"
  by (auto simp: apart_def startswith_iff) (metis hd_append2)

lemma set_line_other:
  "set_line p value ls = Some ls' \<Longrightarrow> apart p q \<Longrightarrow> line_value q ls' = line_value q ls"
proof (induction ls arbitrary: ls')
  case (Cons l ls)
  have "\<not> startswith (p @ value) q" using apart_startswith [OF Cons.prems(2)] startswith_append by blast
  with Cons show ?case using apart_startswith [OF Cons.prems(2), of l]
    by (auto simp: line_value_def split: if_splits)
qed simp

lemma set_lines_twice:
  assumes "apart p q" "Option.bind (set_line p v ls) (set_line q v) = Some ls'"
  shows "Option.bind (set_line p w ls') (set_line q w) = Option.bind (set_line p w ls) (set_line q w)"
  using assms(2)
proof (induction ls arbitrary: ls')
  case (Cons l ls)
  have pq: "\<not> startswith (p @ u) q" "\<not> startswith (q @ u) p" for u
    using apart_startswith [OF assms(1)] startswith_append by blast+
  consider "startswith l p" "\<not> startswith l q" | "\<not> startswith l p" "startswith l q" | "\<not> startswith l p" "\<not> startswith l q"
    using apart_startswith [OF assms(1)] by blast
  then show ?case
  proof cases
    case 1
    with Cons.prems pq obtain l2 where "set_line q v ls = Some l2" "ls' = (p @ v) # l2" by auto
    with 1 pq set_line_twice show ?thesis by (auto simp: set_line_twice)
  next
    case 2
    with Cons.prems pq obtain l1 where "set_line p v ls = Some l1" "ls' = (q @ v) # l1"
      by (auto simp: Option.bind_eq_Some_conv)
    with 2 pq show ?thesis by (cases "set_line p w ls") (auto simp: set_line_twice)
  next
    case 3
    with Cons.prems obtain l1 l2 where l: "set_line p v ls = Some l1" "set_line q v l1 = Some l2" "ls' = l # l2"
      by (auto simp: Option.bind_eq_Some_conv)
    with Cons.IH have "Option.bind (set_line p w l2) (set_line q w) = Option.bind (set_line p w ls) (set_line q w)" by simp
    with 3 l(3) show ?thesis by (cases "set_line p w l2"; cases "set_line p w ls") auto
  qed
qed simp

section \<open>Versions are plain values\<close>

lemma base_char_plain: "base_char c \<Longrightarrow> c \<noteq> CHR 34 \<and> c \<noteq> CHR 10"
  by (auto simp: base_char_def is_dec_def)

lemma is_dec_plain: "is_dec c \<Longrightarrow> c \<noteq> CHR 34 \<and> c \<noteq> CHR 10"
  by (auto simp: is_dec_def)

lemma plain_base: "base_ok b \<Longrightarrow> plain_value b"
proof -
  assume b: "base_ok b"
  then have "b \<noteq> []" by (auto simp: base_ok_def)
  with base_ok_chars [OF b] show "plain_value b" by (auto simp: plain_value_def list_all_iff dest: base_char_plain)
qed

lemma plain_append: "plain_value v \<Longrightarrow> list_all (\<lambda>c. c \<noteq> CHR 34 \<and> c \<noteq> CHR 10) w \<Longrightarrow> plain_value (v @ w)"
  by (simp add: plain_value_def)

lemma plain_serial: "serial_ok s \<Longrightarrow> list_all (\<lambda>c. c \<noteq> CHR 34 \<and> c \<noteq> CHR 10) s"
  by (auto simp: serial_ok_def all_digits_def list_all_iff dest: is_dec_plain)

lemma plain_version:
  assumes "parse_version v = Inr r"
  shows "plain_value v" "plain_value (pypi_version r)"
  using parse_version_Inr [OF assms]
proof (atomize (full), elim disjE exE conjE, goal_cases)
  case 1
  then show ?case by (auto simp: plain_base pypi_version_def)
next
  case (2 serial)
  then have "list_all (\<lambda>c. c \<noteq> CHR 34 \<and> c \<noteq> CHR 10) (''-'' @ channel_name (rv_channel r) @ ''.'' @ serial)"
    "serial_str (rv_serial r) = serial"
    using plain_serial [of serial] by (cases "rv_channel r"; simp add: serial_str_def serial_print)+
  with 2 show ?case using plain_base [of "rv_base r"] plain_serial [of serial]
    by (cases "rv_channel r") (auto simp: pypi_version_def plain_append)
qed

section \<open>The laws of the files\<close>

lemma patterns_ok: "pattern_ok pyproject_pre dquote" "pattern_ok init_pre dquote" "pattern_ok uv_pre uv_post"
  by code_simp+

lemma chart_prefixes: "apart chart_version_pre chart_app_version_pre" "apart chart_app_version_pre chart_version_pre"
  "CHR 10 \<notin> set chart_version_pre" "CHR 10 \<notin> set chart_app_version_pre"
  by (simp_all add: apart_def chart_version_pre_def chart_app_version_pre_def)

definition chart_lines :: "string \<Rightarrow> string list \<Rightarrow> string list option" where
  "chart_lines version ls = Option.bind (set_line chart_version_pre version ls) (set_line chart_app_version_pre version)"

lemma set_chart_lines:
  assumes "plain_value version"
  shows "set_chart_versions version text =
    (case chart_lines version (split_on (CHR 10) text) of None \<Rightarrow> Inl ValueError | Some ls \<Rightarrow> Inr (join [CHR 10] ls))"
proof -
  have v: "CHR 10 \<notin> set version" using assms by (auto simp: plain_value_def list_all_iff)
  show ?thesis
  proof (cases "set_line chart_version_pre version (split_on (CHR 10) text)")
    case None
    then show ?thesis by (simp add: set_chart_versions_def replace_line_def chart_lines_def)
  next
    case (Some ls)
    then have "ls \<noteq> []" "list_all (\<lambda>l. CHR 10 \<notin> set l) ls"
      using set_line_no_sep [OF Some, of "CHR 10"] v chart_prefixes(3) split_on_no_sep by (auto simp: list_all_iff)
    with Some show ?thesis
      by (simp add: set_chart_versions_def replace_line_def chart_lines_def split_on_join)
  qed
qed

lemma chart_lines_no_break:
  assumes "plain_value v" "chart_lines v (split_on (CHR 10) t) = Some ls"
  shows "split_on (CHR 10) (join [CHR 10] ls) = ls"
proof -
  have v: "CHR 10 \<notin> set v" using assms by (auto simp: plain_value_def list_all_iff)
  from assms(2) obtain l1 where l: "set_line chart_version_pre v (split_on (CHR 10) t) = Some l1"
    "set_line chart_app_version_pre v l1 = Some ls" by (auto simp: chart_lines_def Option.bind_eq_Some_conv)
  have "l1 \<noteq> [] \<and> list_all (\<lambda>l. CHR 10 \<notin> set l) l1"
    using set_line_no_sep [OF l(1), of "CHR 10"] v chart_prefixes(3) split_on_no_sep by (auto simp: list_all_iff)
  then show ?thesis
    using set_line_no_sep [OF l(2), of "CHR 10"] v chart_prefixes(4) split_on_join by auto
qed

lemma set_chart_laws:
  assumes "plain_value v" "set_chart_versions v text = Inr t"
  shows "search_line chart_version_pre t = Inr v" "search_line chart_app_version_pre t = Inr v"
    "plain_value v' \<Longrightarrow> set_chart_versions v' t = set_chart_versions v' text"
proof -
  obtain ls where ls: "chart_lines v (split_on (CHR 10) text) = Some ls" "t = join [CHR 10] ls"
    using assms by (auto simp: set_chart_lines split: option.splits)
  have sp: "split_on (CHR 10) t = ls" using chart_lines_no_break [OF assms(1) ls(1)] ls(2) by simp
  have v: "v \<noteq> []" using assms(1) by (simp add: plain_value_def)
  from ls(1) obtain l1 where l: "set_line chart_version_pre v (split_on (CHR 10) text) = Some l1"
    "set_line chart_app_version_pre v l1 = Some ls" by (auto simp: chart_lines_def Option.bind_eq_Some_conv)
  show "search_line chart_version_pre t = Inr v" "search_line chart_app_version_pre t = Inr v"
    using set_line_read [OF l(1) v] set_line_read [OF l(2) v] set_line_other [OF l(2) chart_prefixes(2)] sp
    by (simp_all add: search_line_def)
  show "set_chart_versions v' t = set_chart_versions v' text" if "plain_value v'"
    using that set_lines_twice [OF chart_prefixes(1) ls(1) [unfolded chart_lines_def], of v'] sp
    by (simp add: set_chart_lines chart_lines_def)
qed

text \<open>What the update amounts to: each file is written from its own old text.\<close>

definition update_files :: "string \<Rightarrow> string \<Rightarrow> version_files \<Rightarrow> version_files res" where
  "update_files version pypi f =
     res_bind (replace_quoted True True pyproject_pre dquote version (vf_pyproject f)) (\<lambda>p.
     res_bind (replace_quoted True False init_pre dquote version (vf_init f)) (\<lambda>i.
     res_bind (set_package_version version (vf_package f)) (\<lambda>j.
     res_bind (set_chart_versions version (vf_chart f)) (\<lambda>c.
     res_bind (replace_quoted False False uv_pre uv_post pypi (vf_uv_lock f)) (\<lambda>u.
       Inr (f\<lparr>vf_pyproject := p, vf_init := i, vf_package := j, vf_chart := c, vf_uv_lock := u\<rparr>))))))"

lemma update_project_versions_Inr:
  "update_project_versions version f = (Inr (), f') \<longleftrightarrow>
    (\<exists>r. parse_version version = Inr r \<and> update_files version (pypi_version r) f = Inr f')"
  by (simp add: update_project_versions_def update_files_def write_pyproject_def write_init_def write_package_def
      write_chart_def write_uv_lock_def res_bind_def split: sum.split)

text \<open>The version in the first version line of \<open>pyproject.toml\<close> is the version of the project, whatever it is.\<close>

definition project_version_line :: "(string \<Rightarrow> jobj res) \<Rightarrow> string \<Rightarrow> bool" where
  "project_version_line toml text =
     (\<forall>a g r v. find_quoted True True pyproject_pre dquote True text = Some (a, g, r) \<longrightarrow> plain_value v \<longrightarrow>
        read_pyproject_version_text toml (a @ pyproject_pre @ v @ dquote @ r) = Inr v)"

lemma update_files_read:
  assumes "update_files v pypi f = Inr f'" "plain_value v" "plain_value pypi" "project_version_line toml (vf_pyproject f)"
  shows "read_project_versions toml f' =
    Inr (map (\<lambda>n. (n, JStr (if n = ''uv.lock'' then pypi else v))) version_fields)"
proof -
  from assms(1) obtain p i j c u where w: "replace_quoted True True pyproject_pre dquote v (vf_pyproject f) = Inr p"
    "replace_quoted True False init_pre dquote v (vf_init f) = Inr i" "set_package_version v (vf_package f) = Inr j"
    "set_chart_versions v (vf_chart f) = Inr c" "replace_quoted False False uv_pre uv_post pypi (vf_uv_lock f) = Inr u"
    "f' = f\<lparr>vf_pyproject := p, vf_init := i, vf_package := j, vf_chart := c, vf_uv_lock := u\<rparr>"
    by (auto simp: update_files_def res_bind_eq_Inr)
  have "read_pyproject_version_text toml p = Inr v"
    using w(1) assms(2,4) by (auto simp: replace_quoted_def project_version_line_def split: option.splits)
  moreover have "package_version j = Inr (JStr v)"
    using w(3) by (auto simp: set_package_version_def package_version_def split: json.splits)
  ultimately show ?thesis
    using w(6) replace_quoted_laws(1) [OF patterns_ok(2) assms(2) w(2)] replace_quoted_laws(1) [OF patterns_ok(3) assms(3) w(5)]
      set_chart_laws(1,2) [OF assms(2) w(4)]
    by (simp add: read_project_versions_def version_fields_def)
qed

text \<open>Whether a substitution applies does not depend on the value.\<close>

lemma set_line_None: "set_line p v ls = None \<longleftrightarrow> (\<forall>l\<in>set ls. \<not> startswith l p)"
  by (induction ls) auto

lemma set_line_keeps_other:
  "set_line p v ls = Some ls' \<Longrightarrow> apart p q \<Longrightarrow> (\<exists>l\<in>set ls'. startswith l q) \<longleftrightarrow> (\<exists>l\<in>set ls. startswith l q)"
proof (induction ls arbitrary: ls')
  case (Cons l ls)
  have "\<not> startswith (p @ v) q" using apart_startswith [OF Cons.prems(2)] startswith_append by blast
  with Cons show ?case using apart_startswith [OF Cons.prems(2), of l] by (auto split: if_splits)
qed simp

lemma chart_lines_None:
  "chart_lines v ls = None \<longleftrightarrow>
    \<not> ((\<exists>l\<in>set ls. startswith l chart_version_pre) \<and> (\<exists>l\<in>set ls. startswith l chart_app_version_pre))"
proof (cases "set_line chart_version_pre v ls")
  case None
  then have "\<forall>l\<in>set ls. \<not> startswith l chart_version_pre" using set_line_None by blast
  with None show ?thesis by (auto simp: chart_lines_def)
next
  case (Some l1)
  then have "\<exists>l\<in>set ls. startswith l chart_version_pre" using set_line_None by (metis option.distinct(1))
  with Some set_line_keeps_other [OF Some chart_prefixes(1)] show ?thesis by (auto simp: chart_lines_def set_line_None)
qed

lemma update_files_any:
  assumes "update_files v pypi f = Inr f'" "plain_value v" "plain_value v'"
  shows "\<exists>f''. update_files v' pypi' f = Inr f''"
proof -
  have q: "\<exists>t. replace_quoted an e pre post y s = Inr t" if "replace_quoted an e pre post x s = Inr t0" for an e pre post x y s t0
    using that by (auto simp: replace_quoted_def split: option.splits)
  from assms(1) obtain p i j c u where w: "replace_quoted True True pyproject_pre dquote v (vf_pyproject f) = Inr p"
    "replace_quoted True False init_pre dquote v (vf_init f) = Inr i" "set_package_version v (vf_package f) = Inr j"
    "set_chart_versions v (vf_chart f) = Inr c" "replace_quoted False False uv_pre uv_post pypi (vf_uv_lock f) = Inr u"
    by (auto simp: update_files_def res_bind_eq_Inr)
  have "\<exists>c. set_chart_versions v' (vf_chart f) = Inr c"
  proof -
    have "chart_lines v (split_on (CHR 10) (vf_chart f)) \<noteq> None"
      using w(4) assms(2) by (auto simp: set_chart_lines split: option.splits)
    then have "chart_lines v' (split_on (CHR 10) (vf_chart f)) \<noteq> None" unfolding chart_lines_None by blast
    with assms(3) show ?thesis by (auto simp: set_chart_lines)
  qed
  moreover have "\<exists>j. set_package_version v' (vf_package f) = Inr j"
    using w(3) by (auto simp: set_package_version_def split: json.splits)
  ultimately show ?thesis
    using q [OF w(1)] q [OF w(2)] q [OF w(5)] unfolding update_files_def by (metis res_bind_simps(2))
qed

lemma dict_set_twice: "dict_set k v' (dict_set k v d) = dict_set k v' d"
  by (induction k v d rule: dict_set.induct) auto

lemma update_files_twice:
  assumes "update_files v pypi f = Inr f'" "plain_value v" "plain_value pypi" "plain_value v'"
  shows "update_files v' pypi' f' = update_files v' pypi' f"
proof -
  from assms(1) obtain p i j c u where w: "replace_quoted True True pyproject_pre dquote v (vf_pyproject f) = Inr p"
    "replace_quoted True False init_pre dquote v (vf_init f) = Inr i" "set_package_version v (vf_package f) = Inr j"
    "set_chart_versions v (vf_chart f) = Inr c" "replace_quoted False False uv_pre uv_post pypi (vf_uv_lock f) = Inr u"
    "f' = f\<lparr>vf_pyproject := p, vf_init := i, vf_package := j, vf_chart := c, vf_uv_lock := u\<rparr>"
    by (auto simp: update_files_def res_bind_eq_Inr)
  have "set_package_version v' j = set_package_version v' (vf_package f)"
    using w(3) by (auto simp: set_package_version_def dict_set_twice split: json.splits)
  then show ?thesis
    using w(6) replace_quoted_laws(2) [OF patterns_ok(1) assms(2) w(1)] replace_quoted_laws(2) [OF patterns_ok(2) assms(2) w(2)]
      replace_quoted_laws(2) [OF patterns_ok(3) assms(3) w(5)] set_chart_laws(3) [OF assms(2) w(4) assms(4)]
    by (simp add: update_files_def)
qed

text \<open>Reading back, and the check, after an update.\<close>

lemma update_then_read:
  assumes "update_project_versions version f = (Inr (), f')" "project_version_line toml (vf_pyproject f)"
  shows "\<exists>versions. written_versions version = Inr versions \<and>
    read_project_versions toml f' = Inr (map (\<lambda>(n, v). (n, JStr v)) versions)"
proof -
  obtain r where r: "parse_version version = Inr r" "update_files version (pypi_version r) f = Inr f'"
    using assms(1) update_project_versions_Inr by blast
  let ?vs = "map (\<lambda>n. (n, if n = ''uv.lock'' then pypi_version r else version)) version_fields"
  have "written_versions version = Inr ?vs" by (simp add: written_versions_def r(1))
  moreover have "read_project_versions toml f' = Inr (map (\<lambda>(n, v). (n, JStr v)) ?vs)"
    using update_files_read [OF r(2) plain_version [OF r(1)] assms(2)] by (simp add: comp_def)
  ultimately show ?thesis by blast
qed

lemma update_then_assert:
  assumes "update_project_versions version f = (Inr (), f')" "project_version_line toml (vf_pyproject f)"
  shows "assert_file_versions toml f' version = Inr ()"
proof -
  obtain vs where vs: "written_versions version = Inr vs"
    "read_project_versions toml f' = Inr (map (\<lambda>(n, v). (n, JStr v)) vs)"
    using update_then_read [OF assms] by blast
  have "map (\<lambda>(name, v). (name, case v of JStr s \<Rightarrow> s | _ \<Rightarrow> [])) (map (\<lambda>(n, v). (n, JStr v)) vs) = vs"
    by (induction vs) auto
  with vs(2) update_assert [OF vs(1)] show ?thesis
    by (simp add: assert_file_versions_def list_all_iff split_beta del: map_map)
qed

lemma update_again:
  assumes "update_project_versions version f = (Inr (), f')" "parse_version other = Inr s"
  shows "\<exists>f''. update_project_versions other f = (Inr (), f'') \<and> update_project_versions other f' = (Inr (), f'')"
proof -
  obtain r where r: "parse_version version = Inr r" "update_files version (pypi_version r) f = Inr f'"
    using assms(1) update_project_versions_Inr by blast
  note plain = plain_version [OF r(1)] and plain' = plain_version [OF assms(2)]
  obtain f'' where "update_files other (pypi_version s) f = Inr f''" using update_files_any [OF r(2) plain(1) plain'(1)] by blast
  with update_files_twice [OF r(2) plain plain'(1)] assms(2) show ?thesis using update_project_versions_Inr by metis
qed


text \<open>A parser that reads the version line, and files to update.\<close>

definition version_line_toml :: "string \<Rightarrow> jobj res" where
  "version_line_toml t =
     res_bind (search_quoted True True pyproject_pre dquote t) (\<lambda>v. Inr [(''project'', JObj [(''version'', JStr v)])])"

lemma version_line_toml_ok: "project_version_line version_line_toml t"
  unfolding project_version_line_def
proof (intro allI impI)
  fix a g r v
  assume a: "find_quoted True True pyproject_pre dquote True t = Some (a, g, r)" "plain_value v"
  from find_quoted_replaced [OF patterns_ok(1) a(2,1)] a(2)
  show "read_pyproject_version_text version_line_toml (a @ pyproject_pre @ v @ dquote @ r) = Inr v"
    by (simp add: read_pyproject_version_text_def version_line_toml_def search_quoted_def plain_value_def)
qed

definition sample_files :: version_files where
  "sample_files =
     \<lparr>vf_pyproject = ''[project]'' @ [CHR 10] @ ''name = '' @ dquote @ ''x'' @ dquote @ [CHR 10] @ pyproject_pre @ ''0.0.0'' @ dquote @ [CHR 10],
      vf_init = init_pre @ ''0.0.0'' @ dquote,
      vf_package = JObj [(''name'', JStr ''x''), (''version'', JStr ''0.0.0'')],
      vf_chart = ''name: x'' @ [CHR 10] @ ''version: 0.0.0'' @ [CHR 10] @ ''appVersion: 0.0.0'' @ [CHR 10],
      vf_uv_lock = uv_pre @ ''0.0.0'' @ uv_post @ [CHR 10]\<rparr>"

lemma sample_update: "fst (update_project_versions ''0.1.0-beta.1'' sample_files) = Inr ()"
  by code_simp


text \<open>An error part of the way keeps the files written before it, in order.\<close>

lemma write_in_order_stops:
  assumes "write_in_order ws f = (r, f')"
  shows "\<exists>k\<le>length ws. write_in_order (take k ws) f = (Inr (), f') \<and>
    (case r of Inr _ \<Rightarrow> k = length ws | Inl e \<Rightarrow> k < length ws \<and> (ws ! k) f' = Inl e)"
  using assms
proof (induction ws f rule: write_in_order.induct)
  case (2 w ws f)
  show ?case
  proof (cases "w f")
    case (Inl e)
    with 2 show ?thesis by (intro exI [of _ 0]) auto
  next
    case (Inr f1)
    with 2 obtain k where "k \<le> length ws" "write_in_order (take k ws) f1 = (Inr (), f')"
      "case r of Inr _ \<Rightarrow> k = length ws | Inl e \<Rightarrow> k < length ws \<and> (ws ! k) f' = Inl e" by fastforce
    with Inr show ?thesis by (intro exI [of _ "Suc k"]) (auto split: sum.splits)
  qed
qed auto

lemma update_half_done:
  "let f = sample_files\<lparr>vf_uv_lock := []\<rparr>; (r, f') = update_project_versions ''1.0.0'' f
   in r = Inl ValueError \<and> search_line chart_version_pre (vf_chart f') = Inr ''1.0.0'' \<and> vf_uv_lock f' = []"
  by code_simp

text \<open>Of two version lines only the first is changed, without an error.\<close>

lemma second_version_line_kept:
  "replace_line chart_version_pre ''2'' (''version: 1'' @ [CHR 10] @ ''version: 1'') = Inr (''version: 2'' @ [CHR 10] @ ''version: 1'')"
  by code_simp

section \<open>Commits are read with the line breaks between them\<close>

text \<open>
  What \<open>git log\<close> prints for the format: each entry is followed by its separator and, since the format is a
  terminated one, by a line break.
\<close>

definition entry_text :: "commit_message \<Rightarrow> string" where
  "entry_text c = cm_sha c @ CHR 0x00 # cm_subject c @ CHR 0x00 # cm_body c"

fun log_text :: "commit_message list \<Rightarrow> string" where
  "log_text [] = []"
| "log_text (c # cs) = entry_text c @ CHR 30 # CHR 10 # log_text cs"

text \<open>The commits that come out: all but the first have a line break in front of their id.\<close>

fun as_read :: "string \<Rightarrow> commit_message list \<Rightarrow> commit_message list" where
  "as_read p [] = []"
| "as_read p [c] = [c\<lparr>cm_sha := p @ cm_sha c, cm_body := rstrip_of [CHR 30, CHR 10] (cm_body c)\<rparr>]"
| "as_read p (c # d # cs) = c\<lparr>cm_sha := p @ cm_sha c\<rparr> # as_read [CHR 10] (d # cs)"

definition clean_commit :: "commit_message \<Rightarrow> bool" where
  "clean_commit c =
     (list_all (\<lambda>x. x \<noteq> CHR 0x00 \<and> x \<noteq> CHR 30) (cm_sha c @ cm_subject c) \<and> CHR 30 \<notin> set (cm_body c))"

lemma rstrip_of_append: "rstrip_of cs b \<noteq> [] \<Longrightarrow> rstrip_of cs (a @ b) = a @ rstrip_of cs b"
  by (auto simp: rstrip_of_def dropWhile_append dropWhile_eq_Nil_conv)

lemma rstrip_of_Cons: "c \<notin> set cs \<Longrightarrow> rstrip_of cs (c # b) = c # rstrip_of cs b"
  by (auto simp: rstrip_of_def dropWhile_append dropWhile_eq_Nil_conv)

lemma rstrip_of_subset: "set (rstrip_of cs s) \<subseteq> set s"
  by (auto simp: rstrip_of_def dest: set_dropWhileD)

lemma rstrip_of_last: "c \<in> set cs \<Longrightarrow> rstrip_of cs (s @ [c]) = rstrip_of cs s"
  by (simp add: rstrip_of_def)

definition cut :: "string \<Rightarrow> string" where "cut = rstrip_of [CHR 30, CHR 10]"

lemma cut_entry: "cut (entry_text c) = entry_text (c\<lparr>cm_body := cut (cm_body c)\<rparr>)"
proof -
  have "cut (CHR 0x00 # cm_body c) = CHR 0x00 # cut (cm_body c)" unfolding cut_def by (rule rstrip_of_Cons) simp
  then have "cut ((cm_sha c @ CHR 0x00 # cm_subject c) @ CHR 0x00 # cm_body c) =
      (cm_sha c @ CHR 0x00 # cm_subject c) @ CHR 0x00 # cut (cm_body c)"
    unfolding cut_def by (subst rstrip_of_append) simp_all
  then show ?thesis by (simp add: entry_text_def)
qed

lemma cut_log_one: "cut (log_text [c]) = entry_text (c\<lparr>cm_body := cut (cm_body c)\<rparr>)"
proof -
  have "cut (log_text [c]) = cut ((entry_text c @ [CHR 30]) @ [CHR 10])" by simp
  also have "\<dots> = cut (entry_text c)" unfolding cut_def
    using rstrip_of_last [of "CHR 10" "[CHR 30, CHR 10]" "entry_text c @ [CHR 30]"]
      rstrip_of_last [of "CHR 30" "[CHR 30, CHR 10]" "entry_text c"] by simp
  finally show ?thesis using cut_entry by simp
qed

lemma cut_log_ne: "cs \<noteq> [] \<Longrightarrow> cut (log_text cs) \<noteq> []"
  and cut_log_more: "cs \<noteq> [] \<Longrightarrow> cut (log_text (c # cs)) = entry_text c @ CHR 30 # CHR 10 # cut (log_text cs)"
proof (induction cs arbitrary: c)
  case (Cons d cs)
  have ne: "cut (log_text (d # cs)) \<noteq> []"
  proof (cases "cs = []")
    case True
    then show ?thesis using cut_log_one by (simp add: entry_text_def)
  next
    case False
    with Cons.IH(2) [of d] show ?thesis by (simp add: entry_text_def)
  qed
  {
    case 1
    show ?case by (rule ne)
  next
    case 2
    from ne have "cut ((entry_text c @ [CHR 30, CHR 10]) @ log_text (d # cs)) = (entry_text c @ [CHR 30, CHR 10]) @ cut (log_text (d # cs))"
      unfolding cut_def by (rule rstrip_of_append)
    then show ?case by simp
  }
qed simp_all

lemma split_first_at: "sep \<notin> set a \<Longrightarrow> split_first sep (a @ sep # b) = (a, Some b)"
  by (induction a) (auto simp: split_first_def split: list.splits)

lemma parse_entry:
  assumes "clean_commit c" "CHR 0x00 \<notin> set p"
  shows "parse_commit (p @ entry_text c) = Inr (c\<lparr>cm_sha := p @ cm_sha c\<rparr>)"
proof -
  have n: "CHR 0x00 \<notin> set (p @ cm_sha c)" "CHR 0x00 \<notin> set (cm_subject c)"
    using assms by (auto simp: clean_commit_def list_all_iff)
  have "p @ entry_text c = (p @ cm_sha c) @ CHR 0x00 # cm_subject c @ CHR 0x00 # cm_body c" by (simp add: entry_text_def)
  with split_first_at [OF n(1)] split_first_at [OF n(2)] show ?thesis by (simp add: parse_commit_def)
qed

lemma read_log:
  assumes "list_all clean_commit (c # cs)" "set p \<subseteq> {CHR 10}"
  shows "res_map parse_commit (filter (\<lambda>e. strip e \<noteq> []) (split_on (CHR 30) (p @ cut (log_text (c # cs))))) =
    Inr (as_read p (c # cs))"
  using assms
proof (induction cs arbitrary: c p)
  case Nil
  let ?c = "c\<lparr>cm_body := cut (cm_body c)\<rparr>"
  have c: "clean_commit ?c" using Nil.prems rstrip_of_subset by (auto simp: clean_commit_def cut_def)
  have p: "CHR 0x00 \<notin> set p" "CHR 30 \<notin> set p" using Nil.prems by auto
  have "CHR 30 \<notin> set (p @ entry_text ?c)" using c p by (auto simp: clean_commit_def entry_text_def list_all_iff)
  moreover have "strip (p @ entry_text ?c) \<noteq> []"
    using set_strip [of "CHR 0x00" "p @ entry_text ?c"] by (auto simp: entry_text_def py_isspace_def)
  ultimately show ?case using parse_entry [OF c p(1)] cut_log_one [of c] split_on_word
    by (simp add: cut_def)
next
  case (Cons d cs)
  have p: "CHR 0x00 \<notin> set p" "CHR 30 \<notin> set p" using Cons.prems by auto
  have c: "clean_commit c" using Cons.prems by simp
  have n: "CHR 30 \<notin> set (p @ entry_text c)" using c p by (auto simp: clean_commit_def entry_text_def list_all_iff)
  have s: "strip (p @ entry_text c) \<noteq> []"
    using set_strip [of "CHR 0x00" "p @ entry_text c"] by (auto simp: entry_text_def py_isspace_def)
  have "split_on (CHR 30) (p @ cut (log_text (c # d # cs))) =
      (p @ entry_text c) # split_on (CHR 30) ([CHR 10] @ cut (log_text (d # cs)))"
    using split_on_append [OF n] cut_log_more [of "d # cs" c] by simp
  with Cons.IH [of d "[CHR 10]"] Cons.prems s parse_entry [OF c p(1)] show ?case by simp
qed

text \<open>
  The ids of all commits but the first keep the line break that ends the entry before, and a line of the
  change log breaks inside the id.
\<close>

lemma commits_read_with_line_breaks:
  assumes "list_all clean_commit commits"
  shows "commit_messages_since (log_text commits) = Inr (as_read [] commits)"
proof (cases commits)
  case Nil
  then show ?thesis by (simp add: commit_messages_since_def rstrip_of_def strip_def lstrip_def rstrip_def)
next
  case (Cons c cs)
  with read_log [of c cs "[]"] assms show ?thesis by (simp add: commit_messages_since_def cut_def)
qed

lemma changelog_breaks_ids:
  "let log = log_text [\<lparr>cm_sha = ''1234567'', cm_subject = ''feat: a'', cm_body = []\<rparr>,
                       \<lparr>cm_sha = ''abcdefg'', cm_subject = ''fix: b'', cm_body = []\<rparr>]
   in res_bind (commit_messages_since log) (\<lambda>cs. Inr (format_beta_changelog ''v1'' cs)) =
        Inr (''- feat: a (1234567)'' @ [CHR 10] @ ''- fix: b ('' @ [CHR 10] @ ''abcdef)'')"
  by code_simp

text \<open>The base version is always a stable one.\<close>

lemma discovered_base_stable:
  "discover_from toml git_show refs = Inr v \<Longrightarrow> \<exists>r. parse_version v = Inr r \<and> rv_channel r = Stable"
proof (induction refs)
  case (Cons ref refs)
  show ?case
  proof (cases "fst (git_show ref) = 0")
    case True
    with Cons.prems obtain t r where "parse_version t = Inr r" "\<not> is_prerelease r" "v = rv_version r"
      by (auto simp: res_bind_eq_Inr split: prod.splits if_splits)
    moreover have "rv_version r = t" using parse_version_Inr [OF calculation(1)] by blast
    ultimately show ?thesis by (auto simp: is_prerelease_def)
  next
    case False
    with Cons show ?thesis by (auto split: prod.splits)
  qed
qed simp

end
