(* ===== verification/ReleaseRuns.thy ===== *)
theory ReleaseRuns
  imports VersionFiles
begin

text \<open>
  The release scripts as whole runs over the version files: \<open>prepare_beta_release.py\<close>,
  \<open>verify_release_version.py\<close>, \<open>release_metadata.py\<close> and \<open>cleanup_superseded_beta_prs.py\<close> in \<open>src/scripts\<close>.
  The answers of \<open>git\<close> and the GitHub command line are arguments; the options of the command lines are
  given. \<open>SystemExit\<close> with a message is \<open>ValueError\<close>, as both end the script with an error.
\<close>

section \<open>Preparing a beta\<close>

text \<open>What \<open>git\<close> prints: the tags of a base version, the merged tags, the log since a tag, and \<open>git show\<close>.\<close>

record git_answers =
  ga_beta_tags :: "string \<Rightarrow> string"
  ga_merged_tags :: string
  ga_log :: "string \<Rightarrow> string"
  ga_show :: "string \<Rightarrow> int \<times> string"

definition listed_tags :: "git_answers \<Rightarrow> release_version \<Rightarrow> string list" where
  "listed_tags git base = split_lines (ga_beta_tags git (rv_version base))"

definition prepared_base :: "(string \<Rightarrow> jobj res) \<Rightarrow> git_answers \<Rightarrow> string \<Rightarrow> release_version res" where
  "prepared_base toml git base_arg =
     res_bind (if strip base_arg \<noteq> [] then Inr (strip base_arg) else discover_release_please_base_version toml (ga_show git)) (\<lambda>v.
     res_bind (parse_version v) (\<lambda>base. if is_prerelease base then Inl ValueError else Inr base))"

text \<open>The beta that covers every releasable commit already, if there is one.\<close>

definition covering_beta :: "git_answers \<Rightarrow> int \<Rightarrow> release_version option \<Rightarrow> release_version option res" where
  "covering_beta git beta_number latest =
     (case latest of
        None \<Rightarrow> Inr None
      | Some l \<Rightarrow>
          if beta_number \<noteq> 0 then Inr None
          else res_bind (commit_messages_since (ga_log git (release_tag l))) (\<lambda>commits.
                 Inr (if releasable_commits commits = [] then Some l else None)))"

definition previous_tag :: "git_answers \<Rightarrow> release_version option \<Rightarrow> string option" where
  "previous_tag git latest =
     (case latest of Some l \<Rightarrow> Some (release_tag l) | None \<Rightarrow> latest_stable_tag (split_lines (ga_merged_tags git)))"

definition beta_changelog :: "git_answers \<Rightarrow> string option \<Rightarrow> string res" where
  "beta_changelog git previous =
     (case previous of
        None \<Rightarrow> Inr ''Initial beta prerelease for this stable train.''
      | Some tag \<Rightarrow> res_bind (commit_messages_since (ga_log git tag)) (\<lambda>commits. Inr (format_beta_changelog tag commits)))"

definition covered_outputs :: "release_version \<Rightarrow> release_version \<Rightarrow> (string \<times> output_value) list" where
  "covered_outputs base l =
     [(''should_create'', OutBool False),
      (''reason'', OutStr (release_tag l @ '' already covers all releasable commits'')),
      (''base_version'', OutStr (rv_version base)),
      (''beta_number'', OutInt (case rv_serial l of None \<Rightarrow> 0 | Some n \<Rightarrow> n)),
      (''version'', OutStr (rv_version l)), (''tag'', OutStr (release_tag l)),
      (''pypi_version'', OutStr (pypi_version l)), (''branch'', OutStr (beta_prefix @ rv_version l)),
      (''previous_tag'', OutStr (release_tag l))]"

definition created_outputs :: "release_version \<Rightarrow> int \<Rightarrow> release_version \<Rightarrow> string option \<Rightarrow> string \<Rightarrow> (string \<times> output_value) list" where
  "created_outputs base n release previous changelog_path =
     [(''base_version'', OutStr (rv_version base)), (''beta_number'', OutInt n),
      (''version'', OutStr (rv_version release)), (''tag'', OutStr (release_tag release)),
      (''pypi_version'', OutStr (pypi_version release)), (''branch'', OutStr (beta_prefix @ rv_version release)),
      (''previous_tag'', OutStr (case previous of None \<Rightarrow> [] | Some t \<Rightarrow> t)),
      (''changelog_path'', OutStr changelog_path)]"

datatype preparation = Covered release_version "(string \<times> output_value) list"
  | Created release_version "(string \<times> output_value) list" "(string \<times> string) option"

definition beta_number_of :: "git_answers \<Rightarrow> release_version \<Rightarrow> int \<Rightarrow> int res" where
  "beta_number_of git base beta_number =
     res_bind (if beta_number \<noteq> 0 then Inr beta_number else next_beta_number (rv_version base) (listed_tags git base)) (\<lambda>n.
       if n < 1 then Inl ValueError else Inr n)"

text \<open>
  The run: its result, with the change log file if one is written, and the version files after it. An
  error after the update leaves the files rewritten.
\<close>

definition prepare_main ::
  "(string \<Rightarrow> jobj res) \<Rightarrow> git_answers \<Rightarrow> string \<Rightarrow> int \<Rightarrow> string \<Rightarrow> version_files \<Rightarrow> preparation res \<times> version_files" where
  "prepare_main toml git base_arg beta_number changelog_arg f =
     (case res_bind (prepared_base toml git base_arg) (\<lambda>base.
             res_bind (latest_beta_tag (rv_version base) (listed_tags git base)) (\<lambda>latest.
             res_bind (covering_beta git beta_number latest) (\<lambda>covering. Inr (base, latest, covering)))) of
        Inl e \<Rightarrow> (Inl e, f)
      | Inr (base, latest, Some l) \<Rightarrow>
          (res_bind (assert_file_versions toml f (rv_version l)) (\<lambda>_. Inr (Covered l (covered_outputs base l))), f)
      | Inr (base, latest, None) \<Rightarrow>
          (case res_bind (beta_number_of git base beta_number) (\<lambda>n.
                  res_bind (parse_version (rv_version base @ ''-beta.'' @ py_str_int n)) (\<lambda>release. Inr (n, release))) of
             Inl e \<Rightarrow> (Inl e, f)
           | Inr (n, release) \<Rightarrow>
               (case update_project_versions (rv_version release) f of
                  (Inl e, f') \<Rightarrow> (Inl e, f')
                | (Inr _, f') \<Rightarrow>
                    (let previous = previous_tag git latest; path = strip changelog_arg
                     in (res_bind (beta_changelog git previous) (\<lambda>changelog.
                           Inr (Created release (created_outputs base n release previous path)
                                  (if path = [] then None else Some (path, changelog @ [CHR 10])))),
                         f')))))"

section \<open>Verifying a release\<close>

definition release_outputs :: "release_version \<Rightarrow> (string \<times> output_value) list" where
  "release_outputs release =
     [(''tag'', OutStr (release_tag release)), (''version'', OutStr (rv_version release)),
      (''base_version'', OutStr (rv_base release)), (''channel'', OutStr (channel_name (rv_channel release))),
      (''is_prerelease'', OutBool (is_prerelease release)), (''pypi_version'', OutStr (pypi_version release))]"

definition verify_main ::
  "(string \<Rightarrow> jobj res) \<Rightarrow> version_files \<Rightarrow> string \<Rightarrow> string \<Rightarrow> (string \<times> output_value) list res" where
  "verify_main toml f tag require_channel =
     res_bind (if tag \<noteq> [] then parse_tag tag
               else res_bind (read_pyproject_version_text toml (vf_pyproject f)) parse_version) (\<lambda>release.
       if require_channel \<noteq> [] \<and> channel_name (rv_channel release) \<noteq> require_channel then Inl ValueError
       else res_bind (assert_file_versions toml f (rv_version release)) (\<lambda>_. Inr (release_outputs release)))"

definition metadata_main :: "string \<Rightarrow> (string \<times> output_value) list res" where
  "metadata_main tag =
     (if tag = [] then Inl ValueError
      else res_bind (parse_tag tag) (\<lambda>release.
             Inr (release_outputs release @ [(''make_latest'', OutStr (if is_prerelease release then ''false'' else ''legacy''))])))"

section \<open>A prepared beta verifies\<close>

lemma prepared_base_stable:
  "prepared_base toml git arg = Inr base \<Longrightarrow> parse_version (rv_version base) = Inr base \<and> rv_channel base = Stable \<and> base_ok (rv_version base)"
proof -
  assume "prepared_base toml git arg = Inr base"
  then obtain v where v: "parse_version v = Inr base" "rv_channel base = Stable"
    by (auto simp: prepared_base_def res_bind_eq_Inr is_prerelease_def split: if_splits)
  with parse_version_Inr [OF v(1)] show ?thesis by auto
qed

lemma beta_number_fresh:
  assumes "beta_number_of git base 0 = Inr n" "t \<in> set (listed_tags git base)" "beta_of (rv_version base) t = Some k"
  shows "k < n"
  using assms next_beta_number_fresh by (auto simp: beta_number_of_def res_bind_eq_Inr split: if_splits)

text \<open>
  A beta that was prepared without an error can be released: the version files it leaves pass the
  check of the release for its tag and the beta channel, with the outputs of that release; its version is
  the next stable version with a serial above that of every listed beta of this version, so its tag is
  none of the listed ones.
\<close>

lemma prepared_beta_verifies:
  assumes "prepare_main toml git base_arg 0 changelog_arg f = (Inr (Created release outputs changelog), f')"
    "project_version_line toml (vf_pyproject f)"
  shows "verify_main toml f' (release_tag release) ''beta'' = Inr (release_outputs release) \<and>
    map_of outputs ''tag'' = Some (OutStr (release_tag release)) \<and>
    (\<exists>base n. prepared_base toml git base_arg = Inr base \<and> rv_channel base = Stable \<and>
      rv_version release = rv_version base @ ''-beta.'' @ py_str_int n \<and> rv_serial release = Some n \<and>
      (\<forall>t\<in>set (listed_tags git base). \<forall>k. beta_of (rv_version base) t = Some k \<longrightarrow> k < n) \<and>
      release_tag release \<notin> strip ` set (listed_tags git base))"
proof -
  obtain base latest n where run: "prepared_base toml git base_arg = Inr base"
    "beta_number_of git base 0 = Inr n" "parse_version (rv_version base @ ''-beta.'' @ py_str_int n) = Inr release"
    "update_project_versions (rv_version release) f = (Inr (), f')"
    "outputs = created_outputs base n release (previous_tag git latest) (strip changelog_arg)"
    using assms(1)
    by (auto simp: prepare_main_def res_bind_eq_Inr Let_def split: sum.splits prod.splits option.splits)
  note base = prepared_base_stable [OF run(1)]
  have n: "1 \<le> n" using run(2) by (auto simp: beta_number_of_def res_bind_eq_Inr split: if_splits)
  have r: "rv_channel release = Beta" "rv_serial release = Some n" "rv_version release = rv_version base @ ''-beta.'' @ py_str_int n"
    "rv_base release = rv_version base"
    using parse_beta [OF _ n run(3)] base by auto
  have tag: "parse_tag (release_tag release) = Inr release" by (rule tag_roundtrip [OF run(3)])
  have "assert_file_versions toml f' (rv_version release) = Inr ()"
    using update_then_assert [OF run(4) assms(2)] .
  then have "verify_main toml f' (release_tag release) ''beta'' = Inr (release_outputs release)"
    using tag r(1) by (simp add: verify_main_def release_tag_def)
  moreover have "release_tag release \<notin> strip ` set (listed_tags git base)"
  proof
    assume "release_tag release \<in> strip ` set (listed_tags git base)"
    then obtain t where t: "t \<in> set (listed_tags git base)" "strip t = release_tag release" by auto
    with tag r have "beta_of (rv_version base) t = Some n" by (simp add: beta_of_def)
    with beta_number_fresh [OF run(2) t(1)] show False by blast
  qed
  moreover have "map_of outputs ''tag'' = Some (OutStr (release_tag release))" by (simp add: run(5) created_outputs_def)
  ultimately show ?thesis using run(1) base r beta_number_fresh [OF run(2)] by blast
qed

text \<open>A repository with one beta of the next version and a commit to release since.\<close>

definition sample_git :: git_answers where
  "sample_git =
     \<lparr>ga_beta_tags = (\<lambda>base. ''v0.1.0-beta.1'' @ [CHR 10]), ga_merged_tags = [],
      ga_log = (\<lambda>ref. log_text [\<lparr>cm_sha = ''0123456789'', cm_subject = ''feat: x'', cm_body = []\<rparr>]),
      ga_show = (\<lambda>ref. (1, []))\<rparr>"

lemma sample_preparation:
  "case prepare_main version_line_toml sample_git ''0.1.0'' 0 [] sample_files of
     (Inr (Created release outputs changelog), f') \<Rightarrow> release_tag release = ''v0.1.0-beta.2'' \<and> changelog = None
   | _ \<Rightarrow> False"
  by code_simp

lemma prepared_beta_verifies_example:
  "\<exists>release outputs changelog f'. prepare_main version_line_toml sample_git ''0.1.0'' 0 [] sample_files =
      (Inr (Created release outputs changelog), f') \<and>
    verify_main version_line_toml f' ''v0.1.0-beta.2'' ''beta'' = Inr (release_outputs release)"
proof -
  obtain release outputs changelog f' where run: "prepare_main version_line_toml sample_git ''0.1.0'' 0 [] sample_files =
      (Inr (Created release outputs changelog), f')" "release_tag release = ''v0.1.0-beta.2''"
    using sample_preparation by (auto split: prod.splits sum.splits preparation.splits)
  from prepared_beta_verifies [OF run(1) version_line_toml_ok] run show ?thesis by auto
qed

text \<open>A version that is covered already leaves the files alone.\<close>

lemma covered_keeps_files:
  "prepare_main toml git base_arg n path f = (Inr (Covered l outputs), f') \<Longrightarrow> f' = f \<and> n = 0"
  by (auto simp: prepare_main_def covering_beta_def res_bind_eq_Inr Let_def split: sum.splits prod.splits option.splits if_splits)

section \<open>Closing superseded pull requests\<close>

datatype script_error = CommandFailed | ScriptError pyexc

text \<open>\<open>gh\<close> runs a command and gives its output, or nothing when it fails.\<close>

type_synonym 'w gh_runner = "string list \<Rightarrow> 'w \<Rightarrow> string option \<times> 'w"

definition list_command :: "string \<Rightarrow> string list" where
  "list_command repo =
     [''pr'', ''list'', ''--repo'', repo, ''--base'', ''main'', ''--state'', ''open'', ''--limit'', ''200'', ''--json'',
      ''number,title,headRefName,headRepositoryOwner,labels,body'']"

definition fetch_open_prs :: "'w gh_runner \<Rightarrow> string \<Rightarrow> 'w \<Rightarrow> (script_error + jobj list) \<times> 'w" where
  "fetch_open_prs gh repo w =
     (case gh (list_command repo) w of
        (None, w') \<Rightarrow> (Inl CommandFailed, w')
      | (Some out, w') \<Rightarrow>
          (case loads (if out = [] then ''[]'' else out) of
             Inl e \<Rightarrow> (Inl (ScriptError e), w')
           | Inr (JArr items) \<Rightarrow> (Inr (List.map_filter (\<lambda>v. case v of JObj ob \<Rightarrow> Some ob | _ \<Rightarrow> None) items), w')
           | Inr _ \<Rightarrow> (Inl (ScriptError ValueError), w')))"

definition cleanup_commands :: "string \<Rightarrow> cleanup_action \<Rightarrow> string list list" where
  "cleanup_commands repo action =
     [[''pr'', ''comment'', py_str_int (cl_pr_number action), ''--repo'', repo, ''--body'', cl_comment action],
      [''pr'', ''close'', py_str_int (cl_pr_number action), ''--repo'', repo],
      [''api'', ''-X'', ''DELETE'', cl_delete_ref_api_path action]]"

fun run_commands :: "'w gh_runner \<Rightarrow> string list list \<Rightarrow> 'w \<Rightarrow> (script_error + unit) \<times> 'w" where
  "run_commands gh [] w = (Inr (), w)"
| "run_commands gh (c # cs) w =
     (case gh c w of (None, w') \<Rightarrow> (Inl CommandFailed, w') | (Some _, w') \<Rightarrow> run_commands gh cs w')"

fun execute_cleanup :: "'w gh_runner \<Rightarrow> string \<Rightarrow> bool \<Rightarrow> cleanup_action list \<Rightarrow> 'w \<Rightarrow> (script_error + unit) \<times> 'w" where
  "execute_cleanup gh repo dry_run [] w = (Inr (), w)"
| "execute_cleanup gh repo dry_run (action # actions) w =
     (if dry_run then execute_cleanup gh repo dry_run actions w
      else case run_commands gh (cleanup_commands repo action) w of
             (Inl e, w') \<Rightarrow> (Inl e, w')
           | (Inr _, w') \<Rightarrow> execute_cleanup gh repo dry_run actions w')"

record cleanup_args =
  ca_repo :: string
  ca_repo_owner :: string
  ca_current_branch :: string
  ca_current_tag :: string
  ca_release_pr :: string
  ca_dry_run :: bool

definition planned_actions :: "cleanup_args \<Rightarrow> jobj list \<Rightarrow> cleanup_action list" where
  "planned_actions args prs =
     cleanup_plan (ca_current_branch args) (ca_current_tag args) (ca_repo args)
       (if ca_repo_owner args \<noteq> [] then ca_repo_owner args else fst (split_first (CHR ''/'') (ca_repo args)))
       (ca_release_pr args) prs"

definition cleanup_main :: "'w gh_runner \<Rightarrow> cleanup_args \<Rightarrow> 'w \<Rightarrow> (script_error + int) \<times> 'w" where
  "cleanup_main gh args w =
     (if ca_repo args = [] then (Inl (ScriptError ValueError), w)
      else case fetch_open_prs gh (ca_repo args) w of
             (Inl e, w') \<Rightarrow> (Inl e, w')
           | (Inr prs, w') \<Rightarrow>
               (case execute_cleanup gh (ca_repo args) (ca_dry_run args) (planned_actions args prs) w' of
                  (Inl e, w'') \<Rightarrow> (Inl e, w'')
                | (Inr _, w'') \<Rightarrow> (Inr 0, w'')))"

text \<open>
  The commands that are run: the listing and then, unless the run is a dry one, the commands of the planned
  actions in order, up to the first that fails. \<open>recorded\<close> is a runner that keeps the commands.
\<close>

definition recorded :: "'w gh_runner \<Rightarrow> ('w \<times> string list list) gh_runner" where
  "recorded gh c = (\<lambda>(w, calls). case gh c w of (out, w') \<Rightarrow> (out, w', calls @ [c]))"

lemma recorded_apply: "recorded gh c (w, calls) = (fst (gh c w), snd (gh c w), calls @ [c])"
  by (simp add: recorded_def split_beta)

lemma recorded_run:
  assumes "run_commands (recorded gh) cs (w, calls) = (r, w', calls')"
  shows "\<exists>k\<le>length cs. calls' = calls @ take k cs \<and> (r = Inr () \<longrightarrow> k = length cs)"
  using assms
proof (induction cs arbitrary: w calls)
  case (Cons c cs)
  obtain out w1 where g: "gh c w = (out, w1)" by force
  show ?case
  proof (cases out)
    case None
    with Cons.prems g show ?thesis by (intro exI [of _ 1]) (auto simp: recorded_apply)
  next
    case (Some t)
    with Cons.prems g have "run_commands (recorded gh) cs (w1, calls @ [c]) = (r, w', calls')" by (simp add: recorded_apply)
    from Cons.IH [OF this] obtain k where "k \<le> length cs" "calls' = (calls @ [c]) @ take k cs" "r = Inr () \<longrightarrow> k = length cs" by blast
    then show ?thesis by (intro exI [of _ "Suc k"]) auto
  qed
qed simp

lemma run_commands_append:
  "run_commands gh (cs @ ds) w =
     (case run_commands gh cs w of (Inl e, w') \<Rightarrow> (Inl e, w') | (Inr _, w') \<Rightarrow> run_commands gh ds w')"
  by (induction gh cs w rule: run_commands.induct) (auto split: option.splits prod.splits)

lemma execute_cleanup_commands:
  "execute_cleanup gh repo dry_run actions w =
     (if dry_run then (Inr (), w) else run_commands gh (concat (map (cleanup_commands repo) actions)) w)"
  by (induction gh repo dry_run actions w rule: execute_cleanup.induct) (auto simp: run_commands_append split: prod.splits sum.splits)

lemma cleanup_calls:
  assumes "cleanup_main (recorded gh) args (w, []) = (Inr status, w', calls)"
  shows "\<exists>prs. calls = list_command (ca_repo args) #
    (if ca_dry_run args then [] else concat (map (cleanup_commands (ca_repo args)) (planned_actions args prs)))"
proof -
  obtain prs w1 d1 where f: "fetch_open_prs (recorded gh) (ca_repo args) (w, []) = (Inr prs, w1, d1)"
    and e: "execute_cleanup (recorded gh) (ca_repo args) (ca_dry_run args) (planned_actions args prs) (w1, d1) = (Inr (), w', calls)"
    using assms by (auto simp: cleanup_main_def split: if_splits sum.splits prod.splits)
  have d1: "d1 = [list_command (ca_repo args)]"
    using f by (auto simp: fetch_open_prs_def recorded_apply split: option.splits prod.splits sum.splits json.splits)
  show ?thesis
  proof (cases "ca_dry_run args")
    case True
    with e d1 show ?thesis by (simp add: execute_cleanup_commands)
  next
    case False
    with e have "run_commands (recorded gh) (concat (map (cleanup_commands (ca_repo args)) (planned_actions args prs))) (w1, d1) =
        (Inr (), w', calls)" by (simp add: execute_cleanup_commands)
    from recorded_run [OF this] d1 False show ?thesis by auto
  qed
qed

end
