(* ===== verification/Infrastructure.thy ===== *)
theory Infrastructure
  imports Database
begin

text \<open>
  What the services stand on: the engines and the session scopes of \<open>src/app/db/session.py\<close>, the shared
  HTTP session of \<open>src/app/core/clients/http.py\<close> and the key file of \<open>src/app/core/crypto.py\<close>. SQLAlchemy
  sessions, aiohttp sessions and Fernet are parameters or the state that the source keeps of them; tasks
  that run at the same time are step relations that switch at the awaits.
\<close>

section \<open>Engines\<close>

datatype pool_class = QueuePool | NullPool

text \<open>The options of \<open>create_async_engine\<close>; \<open>None\<close> where the argument is not given.\<close>

record engine_options =
  eo_url :: string
  eo_connect_args :: "(string \<times> rat) list"
  eo_pool :: pool_class
  eo_pool_size :: "int option"
  eo_max_overflow :: "int option"
  eo_pool_timeout :: "rat option"
  eo_pool_pre_ping :: bool
  eo_pool_recycle :: "int option"
  eo_pragmas :: "string list"

text \<open>\<open>test_url\<close> is the variable \<open>FIRECRAWL_LB_TEST_DATABASE_URL\<close>, empty when it is not set.\<close>

definition postgres_async_connect_args :: "string \<Rightarrow> string \<Rightarrow> (string \<times> rat) list option" where
  "postgres_async_connect_args test_url url =
     (if \<not> startswith url ''postgresql+asyncpg://'' then None
      else if test_url = [] then None
      else Some [(''prepared_statement_cache_size'', 0)])"

definition postgres_engine :: "settings \<Rightarrow> string \<Rightarrow> string \<Rightarrow> bool \<Rightarrow> engine_options" where
  "postgres_engine s test_url url background =
     (let args = (case postgres_async_connect_args test_url url of None \<Rightarrow> [] | Some a \<Rightarrow> a)
      in if test_url \<noteq> [] \<and> startswith url ''postgresql+asyncpg://''
         then \<lparr>eo_url = url, eo_connect_args = args, eo_pool = NullPool, eo_pool_size = None, eo_max_overflow = None,
               eo_pool_timeout = None, eo_pool_pre_ping = False, eo_pool_recycle = None, eo_pragmas = []\<rparr>
         else \<lparr>eo_url = url, eo_connect_args = args, eo_pool = QueuePool,
               eo_pool_size = Some (database_pool_size s background),
               eo_max_overflow = Some (database_max_overflow s background),
               eo_pool_timeout = Some (st_database_pool_timeout_seconds s), eo_pool_pre_ping = True,
               eo_pool_recycle = Some (st_database_pool_recycle_seconds s), eo_pragmas = []\<rparr>)"

definition sqlite_pragmas :: "bool \<Rightarrow> string list" where
  "sqlite_pragmas enable_wal =
     (if enable_wal then [''PRAGMA journal_mode=WAL''] else []) @
     [''PRAGMA synchronous=NORMAL'', ''PRAGMA foreign_keys=ON'', ''PRAGMA busy_timeout=30000'']"

definition sqlite_memory_engine :: "string \<Rightarrow> engine_options" where
  "sqlite_memory_engine url =
     \<lparr>eo_url = url, eo_connect_args = [(''timeout'', 30)], eo_pool = QueuePool, eo_pool_size = None, eo_max_overflow = None,
      eo_pool_timeout = None, eo_pool_pre_ping = False, eo_pool_recycle = None, eo_pragmas = sqlite_pragmas False\<rparr>"

definition sqlite_file_engine :: "settings \<Rightarrow> string \<Rightarrow> bool \<Rightarrow> engine_options" where
  "sqlite_file_engine s url background =
     \<lparr>eo_url = url, eo_connect_args = [(''timeout'', 30)], eo_pool = QueuePool,
      eo_pool_size = Some (database_pool_size s background), eo_max_overflow = Some (database_max_overflow s background),
      eo_pool_timeout = Some (st_database_pool_timeout_seconds s), eo_pool_pre_ping = False, eo_pool_recycle = None,
      eo_pragmas = sqlite_pragmas True\<rparr>"

text \<open>The engine that the module creates, and what \<open>init_background_db\<close> sets.\<close>

definition main_engine :: "settings \<Rightarrow> string \<Rightarrow> engine_options" where
  "main_engine s test_url =
     (let url = st_database_url s
      in if is_sqlite_url url
         then if is_sqlite_memory_url url then sqlite_memory_engine url else sqlite_file_engine s url False
         else postgres_engine s test_url url False)"

datatype background_engine = ReuseMain | OwnEngine engine_options

definition init_background_db :: "settings \<Rightarrow> string \<Rightarrow> string option \<Rightarrow> background_engine" where
  "init_background_db s test_url url =
     (let db_url = (case url of None \<Rightarrow> st_database_url s | Some u \<Rightarrow> if u = [] then st_database_url s else u)
      in if is_sqlite_url db_url
         then if is_sqlite_memory_url db_url then ReuseMain else OwnEngine (sqlite_file_engine s db_url True)
         else OwnEngine (postgres_engine s test_url db_url True))"

text \<open>A background task never opens a second in-memory database; otherwise it uses a pool of its own on the same URL.\<close>

lemma background_shares_memory:
  "init_background_db s test_url None = ReuseMain \<longleftrightarrow> is_sqlite_memory_url (eo_url (main_engine s test_url))"
  by (auto simp: init_background_db_def main_engine_def Let_def sqlite_memory_engine_def sqlite_file_engine_def
      postgres_engine_def is_sqlite_memory_url_def)

lemma background_same_database:
  "init_background_db s test_url None = OwnEngine e \<Longrightarrow> eo_url e = eo_url (main_engine s test_url)"
  by (auto simp: init_background_db_def main_engine_def Let_def sqlite_file_engine_def sqlite_memory_engine_def
      postgres_engine_def is_sqlite_memory_url_def split: if_splits)

text \<open>The most connections that an engine opens.\<close>

definition engine_capacity :: "engine_options \<Rightarrow> int option" where
  "engine_capacity e =
     (case (eo_pool_size e, eo_max_overflow e) of (Some n, Some m) \<Rightarrow> Some (n + m) | _ \<Rightarrow> None)"

lemma pooled_engine_capacity:
  assumes "field_constraints s" "init_background_db s [] None = OwnEngine e"
  shows "\<exists>n m. engine_capacity (main_engine s []) = Some n \<and> engine_capacity e = Some m \<and> 1 \<le> n \<and> 1 \<le> m \<and>
    n = st_database_pool_size s + st_database_max_overflow s"
proof -
  have pos: "0 < st_database_pool_size s" "0 \<le> st_database_max_overflow s" "0 < database_pool_size s True"
    "0 \<le> database_max_overflow s True"
    using assms(1) by (auto simp: field_constraints_def database_pool_size_def database_max_overflow_def split: option.splits)
  have own: "\<not> is_sqlite_memory_url (st_database_url s)"
    using assms(2) by (auto simp: init_background_db_def Let_def is_sqlite_memory_url_def split: if_splits)
  have "engine_capacity (main_engine s []) = Some (st_database_pool_size s + st_database_max_overflow s)"
    using own by (simp add: main_engine_def Let_def engine_capacity_def sqlite_file_engine_def postgres_engine_def
        database_pool_size_def database_max_overflow_def)
  moreover have "engine_capacity e = Some (database_pool_size s True + database_max_overflow s True)"
    using assms(2) by (auto simp: init_background_db_def Let_def engine_capacity_def sqlite_file_engine_def
        postgres_engine_def split: if_splits)
  ultimately show ?thesis using pos by simp
qed

section \<open>Session scopes\<close>

text \<open>
  A session and the database behind it are a state; SQLAlchemy's operations on it are parameters: whether a
  transaction is open, and the roll-back and the closing with the exception they raise, if any.
\<close>

record ('s, 'e) session_ops =
  so_in_transaction :: "'s \<Rightarrow> bool"
  so_rollback :: "'s \<Rightarrow> 'e option \<times> 's"
  so_close :: "'s \<Rightarrow> 'e option \<times> 's"

definition safe_rollback :: "('s, 'e) session_ops \<Rightarrow> 's \<Rightarrow> 's" where
  "safe_rollback ops s = (if \<not> so_in_transaction ops s then s else snd (so_rollback ops s))"

definition safe_close :: "('s, 'e) session_ops \<Rightarrow> 's \<Rightarrow> 's" where
  "safe_close ops s = snd (so_close ops s)"

text \<open>
  \<open>get_session\<close> and \<open>get_background_session\<close> around the use of the session, which returns or raises.
\<close>

definition session_scope :: "('s, 'e) session_ops \<Rightarrow> ('s \<Rightarrow> ('e + 'a) \<times> 's) \<Rightarrow> 's \<Rightarrow> ('e + 'a) \<times> 's" where
  "session_scope ops body session =
     (case body session of (r, s1) \<Rightarrow>
        let s2 = (case r of Inl _ \<Rightarrow> safe_rollback ops s1 | Inr _ \<Rightarrow> s1);
            s3 = (if so_in_transaction ops s2 then safe_rollback ops s2 else s2)
        in (r, safe_close ops s3))"

text \<open>
  What is documented of the operations: neither changes what is committed, a roll-back that does not raise
  ends the transaction, and so does closing.
\<close>

definition session_contract :: "('s, 'e) session_ops \<Rightarrow> ('s \<Rightarrow> 'd) \<Rightarrow> bool" where
  "session_contract ops committed =
     (\<forall>s. committed (snd (so_rollback ops s)) = committed s \<and> committed (snd (so_close ops s)) = committed s \<and>
        (fst (so_rollback ops s) = None \<longrightarrow> \<not> so_in_transaction ops (snd (so_rollback ops s))) \<and>
        (fst (so_close ops s) = None \<longrightarrow> \<not> so_in_transaction ops (snd (so_close ops s))))"

text \<open>
  Whatever the body and the clean-up do, the outcome of the body is the outcome of the scope, and the
  database holds exactly what the body committed; if closing works, nothing is left open.
\<close>

lemma session_scope_outcome:
  assumes "session_contract ops committed" "body s = (r, s1)"
  shows "\<exists>s'. session_scope ops body s = (r, s') \<and> committed s' = committed s1 \<and>
    ((\<forall>s. fst (so_close ops s) = None) \<longrightarrow> \<not> so_in_transaction ops s')"
proof -
  have rb: "committed (safe_rollback ops t) = committed t" for t
    using assms(1) by (simp add: session_contract_def safe_rollback_def)
  have cl: "committed (safe_close ops t) = committed t"
    "(\<forall>s. fst (so_close ops s) = None) \<Longrightarrow> \<not> so_in_transaction ops (safe_close ops t)" for t
    using assms(1) by (auto simp: session_contract_def safe_close_def)
  show ?thesis using assms(2) rb cl by (cases r) (auto simp: session_scope_def Let_def)
qed

text \<open>A session over a database of any kind: what is committed and the working copy of an open transaction.\<close>

definition plain_session_ops :: "('d \<times> 'd option, 'e) session_ops" where
  "plain_session_ops =
     \<lparr>so_in_transaction = (\<lambda>(d, t). t \<noteq> None), so_rollback = (\<lambda>(d, t). (None, (d, None))),
      so_close = (\<lambda>(d, t). (None, (d, None)))\<rparr>"

lemma session_scope_example:
  "session_scope plain_session_ops (\<lambda>(d, t). (Inl ValueError, (d, Some (d + 1)))) (5 :: int, None) =
     (Inl ValueError :: unit res, (5, None))"
  "session_contract plain_session_ops (fst :: int \<times> int option \<Rightarrow> int)"
  by (simp_all add: session_scope_def plain_session_ops_def safe_rollback_def safe_close_def session_contract_def Let_def
      split_beta)

section \<open>The writer section\<close>

text \<open>
  \<open>sqlite_writer_section\<close>: the tasks inside, and the holder of the lock. The lock is taken only for a
  SQLite database in a file; a task that finds it taken waits, that is, makes no step.
\<close>

record writer_state =
  wr_inside :: "nat list"
  wr_holder :: "nat option"

definition needs_lock :: "string \<Rightarrow> bool" where
  "needs_lock url = (is_sqlite_url url \<and> \<not> is_sqlite_memory_url url)"

definition enter_writer :: "string \<Rightarrow> nat \<Rightarrow> writer_state \<Rightarrow> writer_state option" where
  "enter_writer url task st =
     (if \<not> needs_lock url then Some (st\<lparr>wr_inside := task # wr_inside st\<rparr>)
      else if wr_holder st \<noteq> None then None
      else Some (st\<lparr>wr_inside := task # wr_inside st, wr_holder := Some task\<rparr>))"

definition leave_writer :: "string \<Rightarrow> nat \<Rightarrow> writer_state \<Rightarrow> writer_state" where
  "leave_writer url task st =
     (if \<not> needs_lock url then st\<lparr>wr_inside := remove1 task (wr_inside st)\<rparr>
      else st\<lparr>wr_inside := remove1 task (wr_inside st), wr_holder := None\<rparr>)"

inductive writer_run :: "string \<Rightarrow> writer_state \<Rightarrow> bool" for url where
  start: "writer_run url \<lparr>wr_inside = [], wr_holder = None\<rparr>"
| enter: "writer_run url st \<Longrightarrow> enter_writer url task st = Some st' \<Longrightarrow> writer_run url st'"
| leave: "writer_run url st \<Longrightarrow> task \<in> set (wr_inside st) \<Longrightarrow> writer_run url (leave_writer url task st)"

text \<open>At most one task writes to a SQLite file, and the lock is held just while one is inside.\<close>

lemma one_writer:
  assumes "writer_run url st" "needs_lock url"
  shows "wr_inside st = (case wr_holder st of None \<Rightarrow> [] | Some task \<Rightarrow> [task])"
  using assms
proof (induction rule: writer_run.induct)
  case (leave st task)
  then show ?case by (auto simp: leave_writer_def split: option.splits)
qed (auto simp: enter_writer_def split: if_splits)

section \<open>The shared HTTP session\<close>

text \<open>
  The session that the module holds and the sessions that are open. A session counts as closed as soon as
  its closing starts; \<open>close_http_client\<close> awaits the rest and only then forgets the session.
\<close>

record http_state =
  ht_session :: "nat option"
  ht_open :: "nat list"
  ht_next :: nat

definition is_closed :: "http_state \<Rightarrow> bool" where
  "is_closed st = (case ht_session st of None \<Rightarrow> True | Some i \<Rightarrow> i \<notin> set (ht_open st))"

definition init_http_client :: "http_state \<Rightarrow> http_state \<times> nat" where
  "init_http_client st =
     (case ht_session st of
        Some i \<Rightarrow>
          if i \<in> set (ht_open st) then (st, i)
          else (st\<lparr>ht_session := Some (ht_next st), ht_open := ht_next st # ht_open st, ht_next := ht_next st + 1\<rparr>, ht_next st)
      | None \<Rightarrow> (st\<lparr>ht_session := Some (ht_next st), ht_open := ht_next st # ht_open st, ht_next := ht_next st + 1\<rparr>, ht_next st))"

text \<open>\<open>None\<close> is the \<open>RuntimeError\<close> of a client that is not initialized.\<close>

definition get_http_client :: "http_state \<Rightarrow> nat option" where
  "get_http_client st = (if is_closed st then None else ht_session st)"

definition close_begin :: "http_state \<Rightarrow> http_state" where
  "close_begin st = (case ht_session st of None \<Rightarrow> st | Some i \<Rightarrow> st\<lparr>ht_open := removeAll i (ht_open st)\<rparr>)"

definition close_end :: "http_state \<Rightarrow> http_state" where
  "close_end st = st\<lparr>ht_session := None\<rparr>"

definition close_http_client :: "http_state \<Rightarrow> http_state" where
  "close_http_client st = (if ht_session st = None then st else close_end (close_begin st))"

definition lease_http_session :: "nat option \<Rightarrow> http_state \<Rightarrow> http_state \<times> nat" where
  "lease_http_session session st = (case session of Some i \<Rightarrow> (st, i) | None \<Rightarrow> init_http_client st)"

definition http_ok :: "http_state \<Rightarrow> bool" where
  "http_ok st = ((\<forall>i\<in>set (ht_open st). ht_session st = Some i \<and> i < ht_next st) \<and> length (ht_open st) \<le> 1)"

text \<open>While closing is not interrupted there is at most one open session, the one the module holds.\<close>

lemma http_single_session:
  assumes "http_ok st"
  shows "http_ok (fst (init_http_client st))" "http_ok (close_http_client st)"
    "get_http_client (fst (init_http_client st)) = Some (snd (init_http_client st))"
    "ht_open (close_http_client st) = []"
proof -
  consider "ht_open st = []" | i where "ht_open st = [i]" "ht_session st = Some i" "i < ht_next st"
    using assms by (cases "ht_open st"; cases "tl (ht_open st)") (auto simp: http_ok_def)
  then show "http_ok (fst (init_http_client st))" "http_ok (close_http_client st)"
    "get_http_client (fst (init_http_client st)) = Some (snd (init_http_client st))"
    "ht_open (close_http_client st) = []"
    by (cases; auto simp: http_ok_def init_http_client_def close_http_client_def close_begin_def close_end_def
        get_http_client_def is_closed_def split: option.splits)+
qed

text \<open>
  A request that takes the client while it is being closed opens a session that nobody holds and nobody
  closes: the module forgets it when the closing ends.
\<close>

lemma session_lost_while_closing:
  "let st = \<lparr>ht_session = Some 0, ht_open = [0], ht_next = 1\<rparr>;
       (st', i) = init_http_client (close_begin st);
       st'' = close_end st'
   in i = 1 \<and> ht_open st'' = [1] \<and> ht_session st'' = None \<and> ht_open (close_http_client st'') = [1]"
  by code_simp

section \<open>The key file\<close>

text \<open>
  The key file with its mode (384 is octal 600), \<open>None\<close> when it does not exist; \<open>fresh\<close> is the key that
  Fernet generates.
\<close>

record key_file =
  kf_key :: string
  kf_mode :: nat

definition get_or_create_key :: "string \<Rightarrow> key_file option \<Rightarrow> string \<times> key_file option" where
  "get_or_create_key fresh file =
     (case file of
        Some f \<Rightarrow> (kf_key f, file)
      | None \<Rightarrow> (fresh, Some \<lparr>kf_key = fresh, kf_mode = 384\<rparr>))"

text \<open>\<open>TokenEncryptor.__init__\<close>: a key that is given and not empty, or the one of the file.\<close>

definition resolve_key :: "string option \<Rightarrow> string \<Rightarrow> key_file option \<Rightarrow> string \<times> key_file option" where
  "resolve_key key fresh file =
     (case key of
        Some k \<Rightarrow> if k \<noteq> [] then (k, file) else get_or_create_key fresh file
      | None \<Rightarrow> get_or_create_key fresh file)"

text \<open>One start after the other uses the same key, and a file that was there is not touched.\<close>

lemma key_is_stable:
  "get_or_create_key fresh file = (k, file') \<Longrightarrow> get_or_create_key fresh' file' = (k, file')"
  "get_or_create_key fresh (Some f) = (kf_key f, Some f)"
  by (auto simp: get_or_create_key_def Let_def split: option.splits)

text \<open>
  Two processes that start at the same time: each looks whether the file exists, and later writes its key.
\<close>

datatype key_step = Look nat | Write nat

text \<open>The state: the file, what each process decided to use, with its own fresh key.\<close>

fun key_steps :: "(nat \<Rightarrow> string) \<Rightarrow> key_step list \<Rightarrow> key_file option \<Rightarrow> (nat \<Rightarrow> string option)
    \<Rightarrow> key_file option \<times> (nat \<Rightarrow> string option)" where
  "key_steps fresh [] file keys = (file, keys)"
| "key_steps fresh (Look p # steps) file keys =
     key_steps fresh steps file (keys(p := (case file of Some f \<Rightarrow> Some (kf_key f) | None \<Rightarrow> None)))"
| "key_steps fresh (Write p # steps) file keys =
     (if keys p = None then key_steps fresh steps (Some \<lparr>kf_key = fresh p, kf_mode = 384\<rparr>) (keys(p := Some (fresh p)))
      else key_steps fresh steps file keys)"

lemma key_race:
  "let fresh = (\<lambda>p. if p = 0 then ''a'' else ''b'');
       (file, keys) = key_steps fresh [Look 0, Look 1, Write 0, Write 1] None (\<lambda>_. None)
   in keys 0 = Some ''a'' \<and> keys 1 = Some ''b'' \<and> map_option kf_key file = Some ''b''"
  by simp

end
