(* ===== verification/Paging.thy ===== *)
theory Paging
  imports Prelude
begin

text \<open>
  The \<open>while True\<close> loops of the repository scripts over the pages of a list
  (\<open>src/.github/scripts/\<close>). A loop runs over a state and a world: \<open>fetch\<close> asks for the page a state
  names, \<open>step\<close> takes it in and raises, goes on with a new state, or returns. Whether it ends is up to the
  server, so the value of a loop is \<open>None\<close> when it does not. The loop is characterised by its finite runs.
\<close>

partial_function (option) page_loop ::
  "('s \<Rightarrow> 'w \<Rightarrow> (('e + 'x) \<times> 'w) option) \<Rightarrow> ('s \<Rightarrow> 'x \<Rightarrow> 'e + ('s + 'b)) \<Rightarrow> 's \<Rightarrow> 'w \<Rightarrow> (('e + 'b) \<times> 'w) option" where
  "page_loop fetch step s w =
     (case fetch s w of
        None \<Rightarrow> None
      | Some (r, w') \<Rightarrow>
          (case res_bind r (step s) of
             Inl e \<Rightarrow> Some (Inl e, w')
           | Inr (Inl s') \<Rightarrow> page_loop fetch step s' w'
           | Inr (Inr b) \<Rightarrow> Some (Inr b, w')))"

text \<open>The finite runs.\<close>

inductive page_run ::
  "('s \<Rightarrow> 'w \<Rightarrow> (('e + 'x) \<times> 'w) option) \<Rightarrow> ('s \<Rightarrow> 'x \<Rightarrow> 'e + ('s + 'b)) \<Rightarrow> 's \<Rightarrow> 'w \<Rightarrow> ('e + 'b) \<times> 'w \<Rightarrow> bool"
  for fetch step where
  failed: "fetch s w = Some (r, w') \<Longrightarrow> res_bind r (step s) = Inl e \<Longrightarrow> page_run fetch step s w (Inl e, w')"
| returned: "fetch s w = Some (r, w') \<Longrightarrow> res_bind r (step s) = Inr (Inr b) \<Longrightarrow> page_run fetch step s w (Inr b, w')"
| next_page: "fetch s w = Some (r, w') \<Longrightarrow> res_bind r (step s) = Inr (Inl s') \<Longrightarrow>
    page_run fetch step s' w' out \<Longrightarrow> page_run fetch step s w out"

lemma page_run_if_loop:
  assumes "page_loop fetch step s w = Some out"
  shows "page_run fetch step s w out"
  using assms
proof (induction fetch step s w out rule: page_loop.raw_induct [rotated, consumes 1, case_names step])
  case (step loop fetch step s w out)
  from step.hyps obtain r w1 where f: "fetch s w = Some (r, w1)" by (auto split: option.splits)
  show ?case
  proof (cases "res_bind r (step s)")
    case (Inl e)
    with step.hyps f show ?thesis by (auto intro: page_run.failed)
  next
    case (Inr x)
    show ?thesis
    proof (cases x)
      case (Inl s')
      with Inr f step.hyps have "loop fetch step s' w1 = Some out" by simp
      then have "page_run fetch step s' w1 out" by (rule step.IH)
      with Inl Inr f show ?thesis by (auto intro: page_run.next_page)
    next
      case (Inr b)
      with \<open>res_bind r (step s) = Inr x\<close> f step.hyps show ?thesis by (auto intro: page_run.returned)
    qed
  qed
qed

lemma loop_if_page_run: "page_run fetch step s w out \<Longrightarrow> page_loop fetch step s w = Some out"
  by (induction rule: page_run.induct) (simp_all add: page_loop.simps)

text \<open>A loop returns just when it has a finite run, and with the outcome of that run.\<close>

lemma page_loop_iff_run: "page_loop fetch step s w = Some out \<longleftrightarrow> page_run fetch step s w out"
  by (rule iffI) (erule page_run_if_loop, erule loop_if_page_run)

text \<open>The rule for a state that every step keeps.\<close>

lemma page_loop_invariant:
  assumes "page_loop fetch step s w = Some (Inr b, w')" "I s"
    "\<And>s w x w' s'. I s \<Longrightarrow> fetch s w = Some (Inr x, w') \<Longrightarrow> step s x = Inr (Inl s') \<Longrightarrow> I s'"
    "\<And>s w x w' b. I s \<Longrightarrow> fetch s w = Some (Inr x, w') \<Longrightarrow> step s x = Inr (Inr b) \<Longrightarrow> Q b"
  shows "Q b"
proof -
  have "Q b" if "page_run fetch step s w out" "I s" "out = (Inr b, w')" for s w out
    using that
  proof (induction rule: page_run.induct)
    case (returned s w r w1 b)
    then show ?case using assms(4) by (cases r) auto
  next
    case (next_page s w r w1 s' out)
    then show ?case using assms(3) by (cases r) auto
  qed simp
  with page_run_if_loop [OF assms(1)] assms(2) show ?thesis by blast
qed

end
