(* ===== verification/CodexLabels.thy ===== *)
theory CodexLabels
  imports CodexReview Paging
begin

text \<open>
  The label automation of the repository (\<open>src/.github/scripts/sync_codex_ok_labels.py\<close>): the calls
  of the GitHub command line, the paging loops, the decision for a pull request, its application and
  the run over repositories. GitHub is a parameter: \<open>env_gh\<close> is what \<open>subprocess.run\<close> of \<open>gh\<close>
  does to an abstract world, \<open>env_print\<close> what a printed line does. A program is a function from a
  world to its outcome and the next world; its value is \<open>None\<close> when a paging loop does not end. The
  label names hold an emoji, which the Latin-1 text of the development cannot spell: they are
  parameters too.
\<close>

section \<open>Programs\<close>

datatype gh_exc = GhError string | OtherExc pyexc | StartError

type_synonym ('w, 'a) prog = "'w \<Rightarrow> ((gh_exc + 'a) \<times> 'w) option"

definition gh_ret :: "'a \<Rightarrow> ('w, 'a) prog" where
  "gh_ret x w = Some (Inr x, w)"

definition gh_raise :: "gh_exc \<Rightarrow> ('w, 'a) prog" where
  "gh_raise e w = Some (Inl e, w)"

definition gh_bind :: "('w, 'a) prog \<Rightarrow> ('a \<Rightarrow> ('w, 'b) prog) \<Rightarrow> ('w, 'b) prog" where
  "gh_bind m f w =
     (case m w of
        None \<Rightarrow> None
      | Some (Inl e, w') \<Rightarrow> Some (Inl e, w')
      | Some (Inr x, w') \<Rightarrow> f x w')"

text \<open>\<open>try: m except: h\<close>\<close>

definition gh_catch :: "('w, 'a) prog \<Rightarrow> (gh_exc \<Rightarrow> ('w, 'a) prog) \<Rightarrow> ('w, 'a) prog" where
  "gh_catch m h w =
     (case m w of
        None \<Rightarrow> None
      | Some (Inl e, w') \<Rightarrow> h e w'
      | Some (Inr x, w') \<Rightarrow> Some (Inr x, w'))"

definition gh_of :: "gh_exc + 'a \<Rightarrow> ('w, 'a) prog" where
  "gh_of r w = Some (r, w)"

text \<open>A built-in exception inside the script.\<close>

definition py_of :: "'a res \<Rightarrow> gh_exc + 'a" where
  "py_of r = map_sum OtherExc id r"

section \<open>The GitHub command line\<close>

datatype proc = Finished int string string | TimedOut | NotStarted

record 'w gh_env =
  env_gh :: "string list \<Rightarrow> string option \<Rightarrow> int \<Rightarrow> 'w \<Rightarrow> proc \<times> 'w"
  env_print :: "string \<Rightarrow> 'w \<Rightarrow> 'w"
  env_pstr :: "json \<Rightarrow> string"
  env_exc_text :: "gh_exc \<Rightarrow> string"
  CODEX_OK_LABEL :: string
  CODEX_NEEDS_WORK_LABEL :: string
  LEGACY_CODEX_LABELS :: "string list"

definition exc_text :: "('w, 'z) gh_env_scheme \<Rightarrow> gh_exc \<Rightarrow> string" where
  "exc_text env e = (case e of GhError m \<Rightarrow> m | _ \<Rightarrow> env_exc_text env e)"

text \<open>\<open>str(v)\<close>\<close>

definition py_str :: "('w, 'z) gh_env_scheme \<Rightarrow> json \<Rightarrow> string" where
  "py_str env v =
     (case v of
        JStr s \<Rightarrow> s | JInt n \<Rightarrow> py_str_int n | JNull \<Rightarrow> ''None''
      | JBool b \<Rightarrow> (if b then ''True'' else ''False'') | _ \<Rightarrow> env_pstr env v)"

text \<open>The input documents hold texts only, so the printing of floats does not matter.\<close>

definition gh_outcome :: "string list \<Rightarrow> int \<Rightarrow> proc \<Rightarrow> gh_exc + json" where
  "gh_outcome command timeout_seconds p =
     (case p of
        NotStarted \<Rightarrow> Inl StartError
      | TimedOut \<Rightarrow> Inl (GhError (join '' '' command @ '': timed out after '' @ py_str_int timeout_seconds @ ''s''))
      | Finished returncode stdout stderr \<Rightarrow>
          if returncode \<noteq> 0 then
            Inl (GhError (join '' '' command @ '': '' @ (if strip stderr \<noteq> [] then strip stderr else strip stdout)))
          else if strip stdout = [] then Inr JNull
          else py_of (loads (strip stdout)))"

definition run_gh :: "('w, 'z) gh_env_scheme \<Rightarrow> string list \<Rightarrow> json option \<Rightarrow> int \<Rightarrow> ('w, json) prog" where
  "run_gh env args input_json timeout_seconds w =
     (case env_gh env args (map_option (dumps (\<lambda>_. []) '', '' '': '') input_json) timeout_seconds w of
        (p, w') \<Rightarrow> Some (gh_outcome (''gh'' # args) timeout_seconds p, w'))"

definition gh_api :: "('w, 'z) gh_env_scheme \<Rightarrow> string \<Rightarrow> string \<Rightarrow> json option \<Rightarrow> ('w, json) prog" where
  "gh_api env path method input_json =
     (let path = (if startswith path ''/'' then path else ''/'' @ path)
      in run_gh env ([''api'', ''--method'', method, path] @ (if input_json \<noteq> None then [''--input'', ''-''] else []))
           input_json 30)"

definition graphql :: "('w, 'z) gh_env_scheme \<Rightarrow> string \<Rightarrow> (string \<times> string) list \<Rightarrow> ('w, jobj) prog" where
  "graphql env query flds =
     gh_bind (run_gh env ([''api'', ''graphql'', ''-f'', ''query='' @ query] @
                          concat (map (\<lambda>(key, value). [''-F'', key @ ''='' @ value]) flds)) None 30)
       (\<lambda>payload. case payload of
          JObj ob \<Rightarrow> gh_ret ob
        | _ \<Rightarrow> gh_raise (GhError ''gh api graphql returned a non-object payload''))"

section \<open>Paged lists\<close>

definition type_name :: "json \<Rightarrow> string" where
  "type_name v =
     (case v of
        JNull \<Rightarrow> ''NoneType'' | JBool _ \<Rightarrow> ''bool'' | JInt _ \<Rightarrow> ''int'' | JFloat _ \<Rightarrow> ''float''
      | JStr _ \<Rightarrow> ''str'' | JArr _ \<Rightarrow> ''list'' | JObj _ \<Rightarrow> ''dict'')"

text \<open>The items of a page, \<open>Inr None\<close> for an empty payload.\<close>

definition page_items :: "string \<Rightarrow> json \<Rightarrow> gh_exc + json list option" where
  "page_items path payload =
     (if \<not> truthy payload then Inr None
      else
        let items = (case payload of
                       JObj ob \<Rightarrow>
                         (case find (\<lambda>key. map_of ob key \<noteq> None) [''items'', ''check_runs'', ''workflow_runs''] of
                            None \<Rightarrow> JNull
                          | Some key \<Rightarrow> jget ob key)
                     | _ \<Rightarrow> payload)
        in case items of
             JArr xs \<Rightarrow> Inr (Some xs)
           | _ \<Rightarrow> Inl (GhError (path @ '': expected list payload, got '' @ type_name payload)))"

definition objects_of :: "json list \<Rightarrow> jobj list" where
  "objects_of xs = List.map_filter (\<lambda>v. case v of JObj ob \<Rightarrow> Some ob | _ \<Rightarrow> None) xs"

definition page_path :: "string \<Rightarrow> nat \<Rightarrow> string" where
  "page_path path page =
     path @ (if CHR ''?'' \<in> set path then ''&'' else ''?'') @ ''per_page=100&page='' @ py_str_int (int page)"

text \<open>The state is the number of the page and the items so far; a short page is the last.\<close>

definition paged_step :: "string \<Rightarrow> nat \<times> jobj list \<Rightarrow> json \<Rightarrow> gh_exc + (nat \<times> jobj list + jobj list)" where
  "paged_step path st payload =
     (case st of
        (page, items) \<Rightarrow>
          res_bind (page_items path payload) (\<lambda>r.
            Inr (case r of
                   None \<Rightarrow> Inr items
                 | Some xs \<Rightarrow>
                     if length xs < 100 then Inr (items @ objects_of xs)
                     else Inl (page + 1, items @ objects_of xs))))"

definition paged_api :: "('w, 'z) gh_env_scheme \<Rightarrow> string \<Rightarrow> ('w, jobj list) prog" where
  "paged_api env path =
     page_loop (\<lambda>(page, items). gh_api env (page_path path page) ''GET'' None) (paged_step path) (1, [])"

definition repo_path :: "string \<Rightarrow> string res" where
  "repo_path repo =
     (case split_on (CHR ''/'') (strip repo) of
        [owner, name] \<Rightarrow> if owner \<noteq> [] \<and> name \<noteq> [] then Inr (owner @ ''/'' @ name) else Inl ValueError
      | _ \<Rightarrow> Inl ValueError)"

definition list_open_pr_numbers :: "('w, 'z) gh_env_scheme \<Rightarrow> string \<Rightarrow> ('w, int list) prog" where
  "list_open_pr_numbers env repo =
     gh_bind (paged_api env (''/repos/'' @ repo @ ''/pulls?state=open''))
       (\<lambda>pulls. gh_ret (List.map_filter (\<lambda>pr. json_int (jget pr ''number'')) pulls))"

definition issue_path :: "string \<Rightarrow> int \<Rightarrow> string" where
  "issue_path repo number = ''/repos/'' @ repo @ ''/issues/'' @ py_str_int number"

definition issue_label_names :: "('w, 'z) gh_env_scheme \<Rightarrow> string \<Rightarrow> int \<Rightarrow> ('w, string list) prog" where
  "issue_label_names env repo number =
     gh_bind (paged_api env (issue_path repo number @ ''/labels''))
       (\<lambda>labels. gh_ret (List.map_filter (\<lambda>label. json_str (jget label ''name'')) labels))"

section \<open>GraphQL pages\<close>

definition PR_TIMELINE_QUERY :: string where
  "PR_TIMELINE_QUERY =
     join [CHR 10]
      [[],
       ''query($owner: String!, $name: String!, $number: Int!, $before: String) {'',
       ''  repository(owner: $owner, name: $name) {'',
       ''    pullRequest(number: $number) {'',
       ''      headRefOid'',
       ''      commits(last: 1) {'',
       ''        nodes {'',
       ''          commit {'',
       ''            oid'',
       ''          }'',
       ''        }'',
       ''      }'',
       ''      timelineItems('',
       ''        last: 100'',
       ''        before: $before'',
       ''        itemTypes: ['',
       ''          PULL_REQUEST_COMMIT'',
       ''          ISSUE_COMMENT'',
       ''          PULL_REQUEST_REVIEW'',
       ''          HEAD_REF_FORCE_PUSHED_EVENT'',
       ''        ]'',
       ''      ) {'',
       ''        pageInfo {'',
       ''          hasPreviousPage'',
       ''          startCursor'',
       ''        }'',
       ''        nodes {'',
       ''          __typename'',
       ''          ... on PullRequestCommit {'',
       ''            commit {'',
       ''              oid'',
       ''            }'',
       ''          }'',
       ''          ... on HeadRefForcePushedEvent {'',
       ''            afterCommit {'',
       ''              oid'',
       ''            }'',
       ''          }'',
       ''          ... on IssueComment {'',
       ''            author {'',
       ''              login'',
       ''            }'',
       ''            bodyText'',
       ''            createdAt'',
       ''            url'',
       ''            reactions(first: 100) {'',
       ''              nodes {'',
       ''                content'',
       ''                createdAt'',
       ''                user {'',
       ''                  login'',
       ''                }'',
       ''              }'',
       ''            }'',
       ''          }'',
       ''          ... on PullRequestReview {'',
       ''            databaseId'',
       ''            author {'',
       ''              login'',
       ''            }'',
       ''            bodyText'',
       ''            submittedAt'',
       ''            url'',
       ''            commit {'',
       ''              oid'',
       ''            }'',
       ''          }'',
       ''        }'',
       ''      }'',
       ''    }'',
       ''  }'',
       ''}'',
       []]"

definition PR_REVIEW_THREADS_QUERY :: string where
  "PR_REVIEW_THREADS_QUERY =
     join [CHR 10]
      [[],
       ''query($owner: String!, $name: String!, $number: Int!, $after: String) {'',
       ''  repository(owner: $owner, name: $name) {'',
       ''    pullRequest(number: $number) {'',
       ''      reviewThreads(first: 100, after: $after) {'',
       ''        pageInfo {'',
       ''          hasNextPage'',
       ''          endCursor'',
       ''        }'',
       ''        nodes {'',
       ''          isResolved'',
       ''          isOutdated'',
       ''          comments(first: 20) {'',
       ''            nodes {'',
       ''              author {'',
       ''                login'',
       ''              }'',
       ''              body'',
       ''              url'',
       ''              commit {'',
       ''                oid'',
       ''              }'',
       ''              originalCommit {'',
       ''                oid'',
       ''              }'',
       ''            }'',
       ''          }'',
       ''        }'',
       ''      }'',
       ''    }'',
       ''  }'',
       ''}'',
       []]"

text \<open>\<open>payload.get(key, {})\<close> followed by another \<open>get\<close>: a value that is no dictionary has none.\<close>

definition dict_of :: "json \<Rightarrow> gh_exc + jobj" where
  "dict_of v = (case v of JObj ob \<Rightarrow> Inr ob | _ \<Rightarrow> Inl (OtherExc AttributeError))"

definition pr_label :: "string \<Rightarrow> int \<Rightarrow> string" where
  "pr_label repo number = repo @ ''#'' @ py_str_int number"

definition pr_error :: "string \<Rightarrow> int \<Rightarrow> string \<Rightarrow> gh_exc + 'a" where
  "pr_error repo number what = Inl (GhError (pr_label repo number @ '': '' @ what))"

definition graphql_pr :: "string \<Rightarrow> int \<Rightarrow> jobj \<Rightarrow> gh_exc + jobj" where
  "graphql_pr repo number payload =
     res_bind (dict_of (jget_or payload ''data'' (JObj []))) (\<lambda>data.
     res_bind (dict_of (jget_or data ''repository'' (JObj []))) (\<lambda>repository.
       case jget repository ''pullRequest'' of
         JObj pr \<Rightarrow> Inr pr
       | _ \<Rightarrow> pr_error repo number ''GraphQL did not return a pull request''))"

text \<open>The nodes of a connection, and the cursor of the next page when there is one.\<close>

definition next_cursor :: "string \<Rightarrow> string \<Rightarrow> jobj \<Rightarrow> string option" where
  "next_cursor has_more cursor connection =
     (case jget connection ''pageInfo'' of
        JObj page_info \<Rightarrow>
          if truthy (jget page_info has_more) then nonempty_str (jget page_info cursor) else None
      | _ \<Rightarrow> None)"

definition review_threads_page :: "string \<Rightarrow> int \<Rightarrow> jobj \<Rightarrow> gh_exc + json list \<times> string option" where
  "review_threads_page repo number payload =
     res_bind (graphql_pr repo number payload) (\<lambda>pr.
       case jget pr ''reviewThreads'' of
         JObj threads \<Rightarrow>
           (case jget_or threads ''nodes'' (JArr []) of
              JArr nodes \<Rightarrow> Inr (nodes, next_cursor ''hasNextPage'' ''endCursor'' threads)
            | _ \<Rightarrow> pr_error repo number ''GraphQL did not return review thread nodes'')
       | _ \<Rightarrow> pr_error repo number ''GraphQL did not return review threads'')"

definition page_fields :: "string \<Rightarrow> string \<Rightarrow> int \<Rightarrow> string \<Rightarrow> string option \<Rightarrow> (string \<times> string) list" where
  "page_fields owner name number cursor_key cursor =
     [(''owner'', owner), (''name'', name), (''number'', py_str_int number)] @
     (case cursor of None \<Rightarrow> [] | Some c \<Rightarrow> [(cursor_key, c)])"

text \<open>
  The loop over the pages of review threads, which two functions of the script share in shape:
  \<open>take_page\<close> is what a page adds, the state the cursor and the addresses so far.
\<close>

definition threads_step ::
  "(json list \<Rightarrow> string list res) \<Rightarrow> string \<Rightarrow> int \<Rightarrow> string option \<times> string list \<Rightarrow> jobj \<Rightarrow>
    gh_exc + (string option \<times> string list + string list)" where
  "threads_step take_page repo number st payload =
     res_bind (review_threads_page repo number payload) (\<lambda>(nodes, cursor).
     res_bind (py_of (take_page nodes)) (\<lambda>found.
       Inr (case cursor of
              None \<Rightarrow> Inr (snd st @ found)
            | Some end_cursor \<Rightarrow> Inl (Some end_cursor, snd st @ found))))"

definition threads_loop ::
  "('w, 'z) gh_env_scheme \<Rightarrow> (json list \<Rightarrow> string list res) \<Rightarrow> string \<Rightarrow> int \<Rightarrow> string \<times> string \<Rightarrow> ('w, string list) prog" where
  "threads_loop env take_page repo number owner_name =
     page_loop (\<lambda>(after, urls). graphql env PR_REVIEW_THREADS_QUERY
                  (page_fields (fst owner_name) (snd owner_name) number ''after'' after))
       (threads_step take_page repo number) (None, [])"

text \<open>\<open>owner, name = repo.split("/", 1)\<close>\<close>

definition owner_and_name :: "string \<Rightarrow> gh_exc + string \<times> string" where
  "owner_and_name repo =
     (case split_first (CHR ''/'') repo of
        (owner, Some name) \<Rightarrow> Inr (owner, name)
      | (_, None) \<Rightarrow> Inl (OtherExc ValueError))"

definition unresolved_review_comment_urls :: "('w, 'z) gh_env_scheme \<Rightarrow> string \<Rightarrow> int \<Rightarrow> ('w, string list) prog" where
  "unresolved_review_comment_urls env repo number =
     gh_bind (gh_of (owner_and_name repo)) 
       (threads_loop env (\<lambda>nodes. Inr (thread_comment_urls nodes)) repo number)"

definition unresolved_codex_finding_thread_urls ::
  "('w, 'z) gh_env_scheme \<Rightarrow> string \<Rightarrow> int \<Rightarrow> string \<Rightarrow> string list \<Rightarrow> ('w, string list) prog" where
  "unresolved_codex_finding_thread_urls env repo number head_sha allowed =
     gh_bind (gh_of (owner_and_name repo)) 
       (threads_loop env (codex_finding_urls head_sha allowed) repo number)"

definition pull_review_comment_nodes ::
  "('w, 'z) gh_env_scheme \<Rightarrow> string \<Rightarrow> int \<Rightarrow> string \<Rightarrow> ('w, jobj list) prog" where
  "pull_review_comment_nodes env repo number head_sha =
     gh_bind (paged_api env (''/repos/'' @ repo @ ''/pulls/'' @ py_str_int number @ ''/comments'')) (\<lambda>comments.
     gh_bind (unresolved_review_comment_urls env repo number) (\<lambda>unresolved_urls.
       gh_of (py_of (review_comment_nodes head_sha unresolved_urls comments))))"

text \<open>\<open>commit_nodes[-1]\<close> of a value that is not empty.\<close>

definition last_node :: "json \<Rightarrow> gh_exc + jobj" where
  "last_node v =
     (case v of
        JArr xs \<Rightarrow> dict_of (last xs)
      | JStr _ \<Rightarrow> Inl (OtherExc AttributeError)
      | JObj _ \<Rightarrow> Inl (OtherExc KeyError)
      | _ \<Rightarrow> Inl (OtherExc TypeError))"

text \<open>One page of the timeline: the head it names, its nodes and the cursor of the page before.\<close>

definition timeline_page ::
  "('w, 'z) gh_env_scheme \<Rightarrow> string \<Rightarrow> int \<Rightarrow> string option \<Rightarrow> jobj \<Rightarrow> gh_exc + string \<times> jobj list \<times> string option" where
  "timeline_page env repo number head_sha payload =
     res_bind (graphql_pr repo number payload) (\<lambda>pr.
     res_bind (dict_of (jget_or pr ''commits'' (JObj []))) (\<lambda>commits.
       let commit_nodes = jget_or commits ''nodes'' (JArr [])
       in res_bind (if truthy commit_nodes
                    then res_bind (last_node commit_nodes) (\<lambda>ob. dict_of (jget_or ob ''commit'' (JObj [])))
                    else Inr []) (\<lambda>last_commit.
          let commit_sha = jget last_commit ''oid''
          in case nonempty_str (jget pr ''headRefOid'') of
               None \<Rightarrow> pr_error repo number ''GraphQL did not return headRefOid''
             | Some page_head_sha \<Rightarrow>
                 if commit_sha \<noteq> JStr page_head_sha then
                   pr_error repo number (''headRefOid '' @ page_head_sha @ '' disagrees with commits.last '' @ py_str env commit_sha)
                 else if head_sha \<noteq> None \<and> head_sha \<noteq> Some page_head_sha then
                   pr_error repo number ''headRefOid changed while paging timeline''
                 else
                   (case jget pr ''timelineItems'' of
                      JObj timeline \<Rightarrow>
                        (case jget_or timeline ''nodes'' (JArr []) of
                           JArr nodes \<Rightarrow>
                             Inr (page_head_sha, objects_of nodes, next_cursor ''hasPreviousPage'' ''startCursor'' timeline)
                         | _ \<Rightarrow> pr_error repo number ''GraphQL did not return timeline nodes'')
                    | _ \<Rightarrow> pr_error repo number ''GraphQL did not return timeline items''))))"

text \<open>
  The timeline is read from its end, until a page holds the head: the state is the cursor, the head
  and the nodes so far.
\<close>

definition timeline_step ::
  "('w, 'z) gh_env_scheme \<Rightarrow> string \<Rightarrow> int \<Rightarrow> string option \<times> string option \<times> jobj list \<Rightarrow> jobj \<Rightarrow>
    gh_exc + (string option \<times> string option \<times> jobj list + string \<times> jobj list)" where
  "timeline_step env repo number st payload =
     (case st of
        (before, head_sha, timeline_nodes) \<Rightarrow>
          res_bind (timeline_page env repo number head_sha payload) (\<lambda>(sha, page_nodes, cursor).
            Inr (if list_ex (\<lambda>node. timeline_head_oid node = Some sha) page_nodes
                 then Inr (sha, page_nodes @ timeline_nodes)
                 else case cursor of
                        None \<Rightarrow> Inr (sha, page_nodes @ timeline_nodes)
                      | Some start_cursor \<Rightarrow> Inl (Some start_cursor, Some sha, page_nodes @ timeline_nodes))))"

definition timeline_loop ::
  "('w, 'z) gh_env_scheme \<Rightarrow> string \<Rightarrow> int \<Rightarrow> string \<times> string \<Rightarrow> ('w, string \<times> jobj list) prog" where
  "timeline_loop env repo number owner_name =
     page_loop (\<lambda>(before, head_sha, timeline_nodes). graphql env PR_TIMELINE_QUERY
                  (page_fields (fst owner_name) (snd owner_name) number ''before'' before))
       (timeline_step env repo number) (None, None, [])"

definition pr_timeline_evidence :: "('w, 'z) gh_env_scheme \<Rightarrow> string \<Rightarrow> int \<Rightarrow> ('w, string \<times> jobj list) prog" where
  "pr_timeline_evidence env repo number =
     gh_bind (gh_bind (gh_of (owner_and_name repo)) (timeline_loop env repo number)) (\<lambda>(head_sha, timeline_nodes).
     gh_bind (pull_review_comment_nodes env repo number head_sha) (\<lambda>comment_nodes.
       gh_ret (head_sha, merge_review_comment_nodes timeline_nodes comment_nodes)))"

section \<open>Checks, merge state, approvals\<close>

definition commit_checks_state :: "('w, 'z) gh_env_scheme \<Rightarrow> string \<Rightarrow> string \<Rightarrow> ('w, checks_state) prog" where
  "commit_checks_state env repo head_sha =
     gh_bind (paged_api env (''/repos/'' @ repo @ ''/commits/'' @ head_sha @ ''/check-runs'')) (\<lambda>check_runs.
     gh_bind (gh_api env (''/repos/'' @ repo @ ''/commits/'' @ head_sha @ ''/status'') ''GET'' None) (\<lambda>combined_status.
       gh_of (py_of (classify_check_state (env_pstr env) check_runs (object_of combined_status)
                       (dict_get REQUIRED_CHECKS_BY_REPO repo [])))))"

definition pr_merge_state :: "('w, 'z) gh_env_scheme \<Rightarrow> string \<Rightarrow> int \<Rightarrow> ('w, string) prog" where
  "pr_merge_state env repo number =
     gh_bind (run_gh env [''pr'', ''view'', py_str_int number, ''--repo'', repo, ''--json'', ''mergeStateStatus,mergeable''] None 30)
       (\<lambda>payload. case payload of
          JObj ob \<Rightarrow>
            let mergeable = upper (str_or_empty (env_pstr env) (jget ob ''mergeable''));
                merge_state = upper (str_or_empty (env_pstr env) (jget ob ''mergeStateStatus''))
            in gh_ret (if mergeable = ''CONFLICTING'' then ''CONFLICTING''
                       else if merge_state \<noteq> [] then merge_state else ''UNKNOWN'')
        | _ \<Rightarrow> gh_of (pr_error repo number ''expected pull request object''))"

text \<open>The identifiers are kept as the values they are, a \<open>bool\<close> being an \<open>int\<close>.\<close>

definition workflow_runs_requiring_approval :: "('w, 'z) gh_env_scheme \<Rightarrow> string \<Rightarrow> string \<Rightarrow> ('w, json list) prog" where
  "workflow_runs_requiring_approval env repo head_sha =
     gh_bind (paged_api env (''/repos/'' @ repo @ ''/actions/runs?event=pull_request&head_sha='' @ head_sha)) (\<lambda>runs.
       gh_ret (List.map_filter (\<lambda>run.
         let status = lower (str_or_empty (env_pstr env) (jget run ''status''));
             conclusion = lower (str_or_empty (env_pstr env) (jget run ''conclusion''))
         in if json_int (jget run ''id'') = None then None
            else if status = ''action_required'' \<or> conclusion = ''action_required'' then Some (jget run ''id'')
            else None) runs))"

section \<open>The decision\<close>

datatype label_action = AddLabel | RemoveLabel | KeepLabel

fun action_name :: "label_action \<Rightarrow> string" where
  "action_name AddLabel = ''add''"
| "action_name RemoveLabel = ''remove''"
| "action_name KeepLabel = ''keep''"

record sync_decision =
  sd_repo :: string
  sd_number :: int
  sd_head_sha :: string
  has_ok_label :: bool
  wants_ok_label :: bool
  ok_action :: label_action
  has_needs_work_label :: bool
  wants_needs_work_label :: bool
  needs_work_action :: label_action
  legacy_labels :: "string list"
  reason :: string
  review_url :: "string option"
  sd_review_state :: review_state
  sd_checks_state :: checks_state
  sd_merge_state :: string
  sd_trigger_codex_review :: bool
  approve_workflow_run_ids :: "json list"

definition cannot_merge :: "string \<Rightarrow> bool" where
  "cannot_merge merge_state = (merge_state \<in> set (UNMERGEABLE_STATES @ [''CONFLICTING'']))"

definition action_for :: "bool \<Rightarrow> bool \<Rightarrow> label_action" where
  "action_for wants has =
     (if wants \<and> \<not> has then AddLabel else if \<not> wants \<and> has then RemoveLabel else KeepLabel)"

text \<open>What the reads of a pull request found.\<close>

record pr_evidence =
  ev_head_sha :: string
  ev_labels :: "string list"
  ev_checks :: checks_state
  ev_merge :: string
  ev_review :: "review_state \<times> jobj option"
  ev_findings :: "string list"
  ev_news :: bool

definition wants_ok :: "bool \<Rightarrow> bool \<Rightarrow> pr_evidence \<Rightarrow> bool" where
  "wants_ok ignore_checks has_ok ev =
     (fst (ev_review ev) = ReviewClean \<and> ev_findings ev = [] \<and>
      (ignore_checks \<or>
       ev_checks ev = ChecksSuccess \<and> \<not> cannot_merge (ev_merge ev) \<and> (ev_merge ev = ''UNKNOWN'' \<longrightarrow> has_ok)))"

definition wants_needs_work :: "pr_evidence \<Rightarrow> bool" where
  "wants_needs_work ev = (fst (ev_review ev) = ReviewNeedsWork \<or> ev_findings ev \<noteq> [])"

definition wants_trigger :: "pr_evidence \<Rightarrow> bool" where
  "wants_trigger ev =
     (fst (ev_review ev) = ReviewNone \<and> ev_checks ev = ChecksSuccess \<and> \<not> cannot_merge (ev_merge ev) \<and>
      ev_merge ev \<noteq> ''UNKNOWN'' \<and> \<not> ev_news ev)"

definition may_approve :: "pr_evidence \<Rightarrow> bool" where
  "may_approve ev =
     (fst (ev_review ev) = ReviewClean \<and> ev_findings ev = [] \<and> \<not> cannot_merge (ev_merge ev) \<and> ev_merge ev \<noteq> ''UNKNOWN'')"

definition reason_parts :: "('w, 'z) gh_env_scheme \<Rightarrow> bool \<Rightarrow> bool \<Rightarrow> pr_evidence \<Rightarrow> json list \<Rightarrow> string list" where
  "reason_parts env ignore_checks has_ok ev runs =
     [case fst (ev_review ev) of
        ReviewNone \<Rightarrow> ''no provable clean Codex review for current head''
      | ReviewPending \<Rightarrow> ''Codex review request is acknowledged but still pending''
      | ReviewNeedsWork \<Rightarrow> ''Codex raised current-head review issues''
      | ReviewClean \<Rightarrow> ''clean Codex review matches current head''] @
     (if ev_findings ev \<noteq> [] then [''unresolved Codex review threads: '' @ py_str_int (int (length (ev_findings ev)))] else []) @
     (if \<not> ignore_checks \<and> ev_checks ev \<noteq> ChecksSuccess then [''checks are '' @ checks_state_name (ev_checks ev)] else []) @
     (if \<not> ignore_checks \<and> cannot_merge (ev_merge ev) then [''merge state is '' @ lower (ev_merge ev)] else []) @
     (if \<not> ignore_checks \<and> ev_merge ev = ''UNKNOWN'' \<and> \<not> has_ok then [''merge state is still unknown''] else []) @
     (if wants_trigger ev then [''current-head CI is green and no Codex news exists after head''] else []) @
     (if runs \<noteq> [] then [''workflow runs need approval: '' @ join '','' (map (py_str env) runs)] else [])"

definition decision ::
  "('w, 'z) gh_env_scheme \<Rightarrow> bool \<Rightarrow> string \<Rightarrow> int \<Rightarrow> pr_evidence \<Rightarrow> json list \<Rightarrow> sync_decision" where
  "decision env ignore_checks repo number ev runs =
     (let has_ok = (CODEX_OK_LABEL env \<in> set (ev_labels ev));
          has_needs_work = (CODEX_NEEDS_WORK_LABEL env \<in> set (ev_labels ev))
      in \<lparr>sd_repo = repo, sd_number = number, sd_head_sha = ev_head_sha ev,
          has_ok_label = has_ok, wants_ok_label = wants_ok ignore_checks has_ok ev,
          ok_action = action_for (wants_ok ignore_checks has_ok ev) has_ok,
          has_needs_work_label = has_needs_work, wants_needs_work_label = wants_needs_work ev,
          needs_work_action = action_for (wants_needs_work ev) has_needs_work,
          legacy_labels = filter (\<lambda>label. label \<in> set (ev_labels ev)) (LEGACY_CODEX_LABELS env),
          reason = join ''; '' (reason_parts env ignore_checks has_ok ev runs),
          review_url = (case ev_findings ev of
                          url # _ \<Rightarrow> Some url
                        | [] \<Rightarrow> Option.bind (snd (ev_review ev)) node_url),
          sd_review_state = fst (ev_review ev), sd_checks_state = ev_checks ev, sd_merge_state = ev_merge ev,
          sd_trigger_codex_review = wants_trigger ev, approve_workflow_run_ids = runs\<rparr>)"

text \<open>The reads, in the order the script makes them.\<close>

definition read_evidence ::
  "('w, 'z) gh_env_scheme \<Rightarrow> string \<Rightarrow> int \<Rightarrow> string list \<Rightarrow> ('w, pr_evidence) prog" where
  "read_evidence env repo number allowed =
     gh_bind (pr_timeline_evidence env repo number) (\<lambda>(head_sha, timeline_nodes).
     gh_bind (issue_label_names env repo number) (\<lambda>labels.
     gh_bind (commit_checks_state env repo head_sha) (\<lambda>checks.
     gh_bind (pr_merge_state env repo number) (\<lambda>merge_state.
     gh_bind (unresolved_codex_finding_thread_urls env repo number head_sha allowed) (\<lambda>urls.
       gh_ret \<lparr>ev_head_sha = head_sha, ev_labels = labels, ev_checks = checks, ev_merge = merge_state,
               ev_review = find_current_head_codex_review_state (env_pstr env) head_sha allowed timeline_nodes,
               ev_findings = urls,
               ev_news = has_codex_news_after_current_head (env_pstr env) head_sha allowed timeline_nodes\<rparr>)))))"

definition decide_pr ::
  "('w, 'z) gh_env_scheme \<Rightarrow> string \<Rightarrow> int \<Rightarrow> string list \<Rightarrow> bool \<Rightarrow> ('w, sync_decision) prog" where
  "decide_pr env repo number allowed ignore_checks =
     gh_bind (read_evidence env repo number allowed) (\<lambda>ev.
     gh_bind (if may_approve ev then workflow_runs_requiring_approval env repo (ev_head_sha ev) else gh_ret []) (\<lambda>runs.
       gh_ret (decision env ignore_checks repo number ev runs)))"

section \<open>Writes\<close>

definition is_github_app_write_denial :: "string \<Rightarrow> bool" where
  "is_github_app_write_denial txt = (str_in ''Resource not accessible by integration'' txt \<and> str_in ''HTTP 403'' txt)"

definition write_warning :: "string \<Rightarrow> string \<Rightarrow> string" where
  "write_warning action txt =
     action @ '': skipped because the GitHub token cannot write this resource ('' @ txt @ '')''"

definition is_missing_issue_label :: "string \<Rightarrow> bool" where
  "is_missing_issue_label txt = (str_in ''HTTP 404'' txt \<and> str_in ''Label does not exist'' txt)"

text \<open>A failed write: passed over, turned into a warning, or raised again.\<close>

definition write_failure :: "bool \<Rightarrow> bool \<Rightarrow> string \<Rightarrow> gh_exc \<Rightarrow> ('w, string option) prog" where
  "write_failure tolerate_permission_errors tolerate_missing action e =
     (case e of
        GhError txt \<Rightarrow>
          if tolerate_missing \<and> is_missing_issue_label txt then gh_ret None
          else if tolerate_permission_errors \<and> is_github_app_write_denial txt then gh_ret (Some (write_warning action txt))
          else gh_raise e
      | _ \<Rightarrow> gh_raise e)"

definition gh_api_write ::
  "('w, 'z) gh_env_scheme \<Rightarrow> string \<Rightarrow> string \<Rightarrow> json option \<Rightarrow> bool \<Rightarrow> bool \<Rightarrow> string \<Rightarrow> ('w, string option) prog" where
  "gh_api_write env path method input_json tolerate_permission_errors tolerate_missing action =
     gh_catch (gh_bind (gh_api env path method input_json) (\<lambda>_. gh_ret None))
       (write_failure tolerate_permission_errors tolerate_missing action)"

definition run_gh_write :: "('w, 'z) gh_env_scheme \<Rightarrow> string list \<Rightarrow> int \<Rightarrow> bool \<Rightarrow> string \<Rightarrow> ('w, string option) prog" where
  "run_gh_write env args timeout_seconds tolerate_permission_errors action =
     gh_catch (gh_bind (run_gh env args None timeout_seconds) (\<lambda>_. gh_ret None))
       (write_failure tolerate_permission_errors False action)"

text \<open>\<open>urllib.parse.quote(s, safe="")\<close>: what is not unreserved becomes the hexadecimal of its UTF-8 bytes.\<close>

definition unreserved :: "char \<Rightarrow> bool" where
  "unreserved c = (let n = code_point c :: nat in
     48 \<le> n \<and> n \<le> 57 \<or> 65 \<le> n \<and> n \<le> 90 \<or> 97 \<le> n \<and> n \<le> 122 \<or> c \<in> set ''_.-~'')"

definition percent :: "nat \<Rightarrow> string" where
  "percent b = [CHR ''%'', ''0123456789ABCDEF'' ! (b div 16), ''0123456789ABCDEF'' ! (b mod 16)]"

definition quote :: "string \<Rightarrow> string" where
  "quote s = concat (map (\<lambda>c. let n = code_point c :: nat in
     if unreserved c then [c]
     else if n < 128 then percent n
     else percent (192 + n div 64) @ percent (128 + n mod 64)) s)"

definition ensure_label ::
  "('w, 'z) gh_env_scheme \<Rightarrow> string \<Rightarrow> string \<Rightarrow> string \<Rightarrow> string \<Rightarrow> bool \<Rightarrow> bool \<Rightarrow> ('w, string list) prog" where
  "ensure_label env repo label color description apply tolerate_permission_errors =
     (if \<not> apply then gh_ret []
      else
        let create =
              gh_catch
                (gh_bind (gh_api_write env (''/repos/'' @ repo @ ''/labels'') ''POST''
                            (Some (JObj [(''name'', JStr label), (''color'', JStr color), (''description'', JStr description)]))
                            tolerate_permission_errors False (''create label '' @ repo @ '':'' @ label))
                   (\<lambda>warning. gh_ret (case warning of None \<Rightarrow> [] | Some t \<Rightarrow> [t])))
                (\<lambda>e. case e of
                   GhError txt \<Rightarrow>
                     if str_in ''already_exists'' txt \<or> str_in ''already exists'' (lower txt) then gh_ret []
                     else gh_raise e
                 | _ \<Rightarrow> gh_raise e)
        in gh_bind
             (gh_catch
                (gh_bind (gh_api env (''/repos/'' @ repo @ ''/labels/'' @ quote label) ''GET'' None) (\<lambda>_. gh_ret True))
                (\<lambda>e. case e of
                   GhError txt \<Rightarrow> if str_in ''HTTP 404'' txt then gh_ret False else gh_raise e
                 | _ \<Rightarrow> gh_raise e))
             (\<lambda>found. if found then gh_ret [] else create))"

text \<open>One step of a list of writes, whose warnings are collected.\<close>

fun write_all :: "('w, string option) prog list \<Rightarrow> ('w, string list) prog" where
  "write_all [] = gh_ret []"
| "write_all (m # ms) =
     gh_bind m (\<lambda>warning. gh_bind (write_all ms) (\<lambda>ws. gh_ret (case warning of None \<Rightarrow> ws | Some t \<Rightarrow> t # ws)))"

definition add_label_write :: "('w, 'z) gh_env_scheme \<Rightarrow> bool \<Rightarrow> sync_decision \<Rightarrow> string \<Rightarrow> ('w, string option) prog" where
  "add_label_write env tolerate d label =
     gh_api_write env (issue_path (sd_repo d) (sd_number d) @ ''/labels'') ''POST''
       (Some (JObj [(''labels'', JArr [JStr label])])) tolerate False
       (''add '' @ label @ '' to '' @ pr_label (sd_repo d) (sd_number d))"

definition remove_label_write ::
  "('w, 'z) gh_env_scheme \<Rightarrow> bool \<Rightarrow> sync_decision \<Rightarrow> string \<Rightarrow> string \<Rightarrow> ('w, string option) prog" where
  "remove_label_write env tolerate d verb label =
     gh_api_write env (issue_path (sd_repo d) (sd_number d) @ ''/labels/'' @ quote label) ''DELETE'' None tolerate True
       (verb @ label @ '' from '' @ pr_label (sd_repo d) (sd_number d))"

definition action_writes ::
  "('w, 'z) gh_env_scheme \<Rightarrow> bool \<Rightarrow> sync_decision \<Rightarrow> label_action \<Rightarrow> string \<Rightarrow> ('w, string option) prog list" where
  "action_writes env tolerate d action label =
     (case action of
        AddLabel \<Rightarrow> [add_label_write env tolerate d label]
      | RemoveLabel \<Rightarrow> [remove_label_write env tolerate d ''remove '' label]
      | KeepLabel \<Rightarrow> [])"

definition apply_decision :: "('w, 'z) gh_env_scheme \<Rightarrow> sync_decision \<Rightarrow> bool \<Rightarrow> ('w, string list) prog" where
  "apply_decision env d tolerate =
     write_all
       (action_writes env tolerate d (ok_action d) (CODEX_OK_LABEL env) @
        action_writes env tolerate d (needs_work_action d) (CODEX_NEEDS_WORK_LABEL env) @
        map (remove_label_write env tolerate d ''remove legacy '') (legacy_labels d))"

definition trigger_codex_review :: "('w, 'z) gh_env_scheme \<Rightarrow> sync_decision \<Rightarrow> string \<Rightarrow> bool \<Rightarrow> ('w, string list) prog" where
  "trigger_codex_review env d body tolerate =
     write_all
       [run_gh_write env
          [''api'', ''--method'', ''POST'', issue_path (sd_repo d) (sd_number d) @ ''/comments'', ''-f'', ''body='' @ body]
          30 tolerate (''request Codex review on '' @ pr_label (sd_repo d) (sd_number d))]"

definition approve_workflow_runs :: "('w, 'z) gh_env_scheme \<Rightarrow> sync_decision \<Rightarrow> bool \<Rightarrow> ('w, string list) prog" where
  "approve_workflow_runs env d tolerate =
     write_all (map (\<lambda>run_id.
         gh_api_write env (''/repos/'' @ sd_repo d @ ''/actions/runs/'' @ py_str env run_id @ ''/approve'') ''POST'' None
           tolerate False
           (''approve workflow run '' @ py_str env run_id @ '' for '' @ pr_label (sd_repo d) (sd_number d)))
       (approve_workflow_run_ids d))"

section \<open>The run\<close>

text \<open>What \<open>argparse\<close> makes of the command line.\<close>

record sync_args =
  arg_repos :: "string list"
  arg_prs :: "int list"
  arg_all_open :: bool
  arg_apply :: bool
  arg_no_trigger_missing_codex :: bool
  arg_no_approve_workflow_runs :: bool
  arg_codex_review_command :: string
  arg_ignore_checks :: bool
  arg_tolerate_write_permission_errors :: bool
  arg_tolerate_read_errors :: bool
  arg_reviewer_logins :: "string list"

definition print_line :: "('w, 'z) gh_env_scheme \<Rightarrow> string \<Rightarrow> ('w, unit) prog" where
  "print_line env line w = Some (Inr (), env_print env line w)"

fun print_lines :: "('w, 'z) gh_env_scheme \<Rightarrow> string list \<Rightarrow> ('w, unit) prog" where
  "print_lines env [] = gh_ret ()"
| "print_lines env (l # ls) = gh_bind (print_line env l) (\<lambda>_. print_lines env ls)"

definition py_bool :: "bool \<Rightarrow> string" where
  "py_bool b = (if b then ''True'' else ''False'')"

definition or_dash :: "string \<Rightarrow> string" where
  "or_dash s = (if s \<noteq> [] then s else ''-'')"

definition report_line :: "('w, 'z) gh_env_scheme \<Rightarrow> sync_args \<Rightarrow> string \<Rightarrow> int \<Rightarrow> sync_decision \<Rightarrow> string" where
  "report_line env args repo number d =
     (if arg_apply args then ''apply'' else ''dry-run'') @ '' '' @ pr_label repo number @ '': '' @
     ''head='' @ take 12 (sd_head_sha d) @ '' checks='' @ checks_state_name (sd_checks_state d) @
     '' merge='' @ sd_merge_state d @ '' review='' @ review_state_name (sd_review_state d) @
     '' ok='' @ py_bool (has_ok_label d) @ ''->'' @ py_bool (wants_ok_label d) @ ''/'' @ action_name (ok_action d) @
     '' needs_work='' @ py_bool (has_needs_work_label d) @ ''->'' @ py_bool (wants_needs_work_label d) @ ''/'' @
     action_name (needs_work_action d) @
     '' legacy='' @ or_dash (join '','' (sort (legacy_labels d))) @
     '' approve_runs='' @ or_dash (join '','' (map (py_str env) (approve_workflow_run_ids d))) @
     '' trigger_codex='' @ py_bool (sd_trigger_codex_review d \<and> \<not> arg_no_trigger_missing_codex args) @
     '' reason='' @ reason d"

definition apply_writes :: "('w, 'z) gh_env_scheme \<Rightarrow> sync_args \<Rightarrow> sync_decision \<Rightarrow> ('w, string list) prog" where
  "apply_writes env args d =
     (let tolerate = arg_tolerate_write_permission_errors args
      in if \<not> arg_apply args then gh_ret []
         else
           gh_bind (apply_decision env d tolerate) (\<lambda>ws1.
           gh_bind (if approve_workflow_run_ids d \<noteq> [] \<and> \<not> arg_no_approve_workflow_runs args
                    then approve_workflow_runs env d tolerate else gh_ret []) (\<lambda>ws2.
           gh_bind (if sd_trigger_codex_review d \<and> \<not> arg_no_trigger_missing_codex args
                    then trigger_codex_review env d (arg_codex_review_command args) tolerate else gh_ret []) (\<lambda>ws3.
             gh_ret (ws1 @ ws2 @ ws3)))))"

text \<open>
  One pull request: whether it was classified, and whether an error counts. An error is printed and
  the run goes on; a read error counts unless read errors are tolerated.
\<close>

definition sync_pr :: "('w, 'z) gh_env_scheme \<Rightarrow> sync_args \<Rightarrow> string list \<Rightarrow> string \<Rightarrow> int \<Rightarrow> ('w, bool \<times> bool) prog" where
  "sync_pr env args allowed repo number =
     (let report = (\<lambda>e. print_line env (pr_label repo number @ '': '' @ exc_text env e))
      in gh_bind
           (gh_catch (gh_bind (decide_pr env repo number allowed (arg_ignore_checks args)) (\<lambda>d. gh_ret (Inr d)))
              (\<lambda>e. gh_bind (report e) (\<lambda>_. gh_ret (Inl (case e of GhError _ \<Rightarrow> \<not> arg_tolerate_read_errors args | _ \<Rightarrow> True)))))
           (\<lambda>r. case r of
              Inl counts \<Rightarrow> gh_ret (False, counts)
            | Inr d \<Rightarrow>
                gh_catch
                  (gh_bind (apply_writes env args d) (\<lambda>write_warnings.
                   gh_bind (print_lines env
                     (report_line env args repo number d #
                      (case review_url d of Some url \<Rightarrow> if url \<noteq> [] then [''  review_url='' @ url] else [] | None \<Rightarrow> []) @
                      map (\<lambda>t. ''  write_warning='' @ t) write_warnings)) (\<lambda>_.
                     gh_ret (True, False))))
                  (\<lambda>e. gh_bind (report e) (\<lambda>_. gh_ret (True, True)))))"

text \<open>The pull requests of a repository: how many were classified, and whether any error counts.\<close>

fun sync_prs ::
  "('w, 'z) gh_env_scheme \<Rightarrow> sync_args \<Rightarrow> string list \<Rightarrow> string \<Rightarrow> int list \<Rightarrow> ('w, nat \<times> bool) prog" where
  "sync_prs env args allowed repo [] = gh_ret (0, False)"
| "sync_prs env args allowed repo (n # ns) =
     gh_bind (sync_pr env args allowed repo n) (\<lambda>(classified, failed).
     gh_bind (sync_prs env args allowed repo ns) (\<lambda>(count, had_error).
       gh_ret (of_bool classified + count, failed \<or> had_error)))"

definition sync_repo :: "('w, 'z) gh_env_scheme \<Rightarrow> sync_args \<Rightarrow> string list \<Rightarrow> string \<Rightarrow> ('w, bool) prog" where
  "sync_repo env args allowed repo =
     (let tolerate = arg_tolerate_write_permission_errors args
      in gh_bind (ensure_label env repo (CODEX_OK_LABEL env) ''0e8a16''
                    ''Current PR head has green CI and a clean Codex review'' (arg_apply args) tolerate) (\<lambda>ws1.
         gh_bind (ensure_label env repo (CODEX_NEEDS_WORK_LABEL env) ''d93f0b''
                    ''Codex raised issues on the current PR head that still need work'' (arg_apply args) tolerate) (\<lambda>ws2.
         gh_bind (print_lines env (map (\<lambda>t. ''warning: '' @ t) (ws1 @ ws2))) (\<lambda>_.
         gh_bind (if arg_all_open args then list_open_pr_numbers env repo else gh_ret (arg_prs args)) (\<lambda>numbers.
           if numbers = [] then
             gh_bind (print_line env (repo @ '': no PRs selected; pass --pr or --all-open'')) (\<lambda>_. gh_ret True)
           else
             gh_bind (sync_prs env args allowed repo (sort (remdups numbers))) (\<lambda>(classified_count, had_error).
               if arg_tolerate_read_errors args \<and> classified_count = 0 then
                 gh_bind (print_line env
                   (repo @ '': all selected PRs failed classification; refusing a false-green tolerant run''))
                   (\<lambda>_. gh_ret True)
               else gh_ret had_error))))))"

fun sync_repos :: "('w, 'z) gh_env_scheme \<Rightarrow> sync_args \<Rightarrow> string list \<Rightarrow> string list \<Rightarrow> ('w, bool) prog" where
  "sync_repos env args allowed [] = gh_ret False"
| "sync_repos env args allowed (repo # repos) =
     gh_bind (sync_repo env args allowed repo) (\<lambda>e1.
     gh_bind (sync_repos env args allowed repos) (\<lambda>e2. gh_ret (e1 \<or> e2)))"

definition sync_main :: "('w, 'z) gh_env_scheme \<Rightarrow> sync_args \<Rightarrow> ('w, int) prog" where
  "sync_main env args =
     gh_bind (gh_of (py_of (res_map repo_path (arg_repos args)))) (\<lambda>repos.
     gh_bind (sync_repos env args (CODEX_REVIEW_AUTHORS @ arg_reviewer_logins args) repos) (\<lambda>had_error.
       gh_ret (if had_error then 1 else 0)))"

section \<open>Facts about programs\<close>

named_theorems prog_simps \<open>the outcome of a composed program\<close>
named_theorems prog_keeps_intros \<open>a relation between worlds that a program keeps\<close>

lemma gh_bind_Inr [prog_simps]:
  "gh_bind m f w = Some (Inr y, w2) \<longleftrightarrow> (\<exists>x w1. m w = Some (Inr x, w1) \<and> f x w1 = Some (Inr y, w2))"
  by (auto simp: gh_bind_def split: option.splits sum.splits)

lemma gh_ret_eq [prog_simps]: "gh_ret x w = Some (r, w') \<longleftrightarrow> r = Inr x \<and> w' = w"
  by (auto simp: gh_ret_def)

lemma gh_of_eq [prog_simps]: "gh_of r w = Some (r', w') \<longleftrightarrow> r' = r \<and> w' = w"
  by (auto simp: gh_of_def)

section \<open>The ok label\<close>

lemma decision_simps [simp]:
  "wants_ok_label (decision env ig repo number ev runs) = wants_ok ig (CODEX_OK_LABEL env \<in> set (ev_labels ev)) ev"
  "wants_needs_work_label (decision env ig repo number ev runs) = wants_needs_work ev"
  "has_ok_label (decision env ig repo number ev runs) \<longleftrightarrow> CODEX_OK_LABEL env \<in> set (ev_labels ev)"
  "ok_action (decision env ig repo number ev runs) =
     action_for (wants_ok ig (CODEX_OK_LABEL env \<in> set (ev_labels ev)) ev) (CODEX_OK_LABEL env \<in> set (ev_labels ev))"
  "needs_work_action (decision env ig repo number ev runs) =
     action_for (wants_needs_work ev) (CODEX_NEEDS_WORK_LABEL env \<in> set (ev_labels ev))"
  "legacy_labels (decision env ig repo number ev runs) =
     filter (\<lambda>label. label \<in> set (ev_labels ev)) (LEGACY_CODEX_LABELS env)"
  "sd_review_state (decision env ig repo number ev runs) = fst (ev_review ev)"
  "sd_checks_state (decision env ig repo number ev runs) = ev_checks ev"
  "sd_merge_state (decision env ig repo number ev runs) = ev_merge ev"
  "sd_head_sha (decision env ig repo number ev runs) = ev_head_sha ev"
  "sd_repo (decision env ig repo number ev runs) = repo"
  "sd_number (decision env ig repo number ev runs) = number"
  by (simp_all add: decision_def Let_def)

lemma decide_pr_evidence:
  assumes "decide_pr env repo number allowed ig w = Some (Inr d, w')"
  shows "\<exists>ev w1 runs. read_evidence env repo number allowed w = Some (Inr ev, w1) \<and> d = decision env ig repo number ev runs"
  using assms by (auto simp: decide_pr_def prog_simps)

lemma read_evidence_timeline:
  assumes "read_evidence env repo number allowed w = Some (Inr ev, w')"
  shows "\<exists>nodes w1. pr_timeline_evidence env repo number w = Some (Inr (ev_head_sha ev, nodes), w1) \<and>
           ev_review ev = last_verdict (env_pstr env) (ev_head_sha ev) allowed (after_head (ev_head_sha ev) nodes)"
  using assms by (fastforce simp: read_evidence_def prog_simps review_state_after_head foldl_review_step)

section \<open>Dry runs\<close>

text \<open>The calls that only read: a GET, one of the two GraphQL queries, a view of a pull request.\<close>

definition is_read_call :: "string list \<Rightarrow> bool" where
  "is_read_call args =
     (take 3 args = [''api'', ''--method'', ''GET''] \<or>
      take 3 args = [''api'', ''graphql'', ''-f''] \<and>
        (args ! 3 = ''query='' @ PR_TIMELINE_QUERY \<or> args ! 3 = ''query='' @ PR_REVIEW_THREADS_QUERY) \<or>
      take 2 args = [''pr'', ''view''])"

definition keeps :: "('w \<Rightarrow> 'w \<Rightarrow> bool) \<Rightarrow> ('w, 'a) prog \<Rightarrow> bool" where
  "keeps R m = (\<forall>w r w'. m w = Some (r, w') \<longrightarrow> R w w')"

text \<open>A preorder of worlds that reads and printed lines go up in.\<close>

definition reads_go_up :: "('w, 'z) gh_env_scheme \<Rightarrow> ('w \<Rightarrow> 'w \<Rightarrow> bool) \<Rightarrow> bool" where
  "reads_go_up env R =
     (reflp R \<and> transp R \<and>
      (\<forall>args inp t w. is_read_call args \<longrightarrow> R w (snd (env_gh env args inp t w))) \<and>
      (\<forall>line w. R w (env_print env line w)))"

lemma prog_keeps_ret [prog_keeps_intros]: "reflp R \<Longrightarrow> keeps R (gh_ret x)"
  by (auto simp: keeps_def prog_simps dest: reflpD)

lemma prog_keeps_of [prog_keeps_intros]: "reflp R \<Longrightarrow> keeps R (gh_of x)"
  by (auto simp: keeps_def prog_simps dest: reflpD)

lemma prog_keeps_raise [prog_keeps_intros]: "reflp R \<Longrightarrow> keeps R (gh_raise x)"
  by (auto simp: keeps_def gh_raise_def dest: reflpD)

lemma prog_keeps_bind [prog_keeps_intros]: "transp R \<Longrightarrow> keeps R m \<Longrightarrow> (\<And>x. keeps R (f x)) \<Longrightarrow> keeps R (gh_bind m f)"
  unfolding keeps_def gh_bind_def by (fastforce split: option.splits sum.splits dest: transpD)

lemma prog_keeps_catch [prog_keeps_intros]: "transp R \<Longrightarrow> keeps R m \<Longrightarrow> (\<And>e. keeps R (h e)) \<Longrightarrow> keeps R (gh_catch m h)"
  unfolding keeps_def gh_catch_def by (fastforce split: option.splits sum.splits dest: transpD)

lemma prog_keeps_run_gh: "reads_go_up env R \<Longrightarrow> is_read_call args \<Longrightarrow> keeps R (run_gh env args inp t)"
  unfolding keeps_def run_gh_def reads_go_up_def by (auto split: prod.splits) (metis snd_conv)

lemma prog_keeps_get [prog_keeps_intros]: "reads_go_up env R \<Longrightarrow> keeps R (gh_api env path ''GET'' inp)"
  unfolding gh_api_def Let_def by (rule prog_keeps_run_gh) (auto simp: is_read_call_def)

lemma prog_keeps_query [prog_keeps_intros]:
  assumes "reads_go_up env R" "query \<in> {PR_TIMELINE_QUERY, PR_REVIEW_THREADS_QUERY}"
  shows "keeps R (graphql env query flds)"
proof -
  have po: "reflp R" "transp R" using assms(1) by (auto simp: reads_go_up_def)
  have "is_read_call ([''api'', ''graphql'', ''-f'', ''query='' @ query] @ flags)" for flags
    using assms(2) by (auto simp: is_read_call_def)
  from prog_keeps_run_gh [OF assms(1) this] show ?thesis
    unfolding graphql_def using po by (auto intro!: prog_keeps_intros split: json.splits)
qed

text \<open>The paging loops: whatever number of pages they read.\<close>

lemma prog_keeps_page_loop [prog_keeps_intros]:
  assumes "reflp R" "transp R" "\<And>s. keeps R (fetch s)"
  shows "keeps R (page_loop fetch step s)"
proof -
  have "R w (snd out)" if "page_run fetch step s w out" for s w out
    using that
  proof (induction rule: page_run.induct)
    case (next_page s w r w1 s' out)
    then show ?case using assms(2,3) unfolding keeps_def by (meson transpD)
  qed (use assms(3) in \<open>auto simp: keeps_def\<close>)
  then show ?thesis unfolding keeps_def page_loop_iff_run by (metis snd_conv)
qed

lemma reads_refl [prog_keeps_intros]: "reads_go_up env R \<Longrightarrow> reflp R"
  by (simp add: reads_go_up_def)

lemma reads_trans [prog_keeps_intros]: "reads_go_up env R \<Longrightarrow> transp R"
  by (simp add: reads_go_up_def)

lemma prog_keeps_print [prog_keeps_intros]: "reads_go_up env R \<Longrightarrow> keeps R (print_line env line)"
  by (auto simp: keeps_def print_line_def reads_go_up_def)

lemma prog_keeps_prints [prog_keeps_intros]: "reads_go_up env R \<Longrightarrow> keeps R (print_lines env ls)"
  by (induction ls) (auto intro!: prog_keeps_intros)

text \<open>A failure and a case distinction on what was read, for the automation.\<close>

lemma prog_keeps_cases [prog_keeps_intros]:
  "keeps R (f (fst p) (snd p)) \<Longrightarrow> keeps R (case p of (x, y) \<Rightarrow> f x y)"
  "(b \<Longrightarrow> keeps R m) \<Longrightarrow> (\<not> b \<Longrightarrow> keeps R m') \<Longrightarrow> keeps R (if b then m else m')"
  by (simp_all add: case_prod_unfold)

lemma prog_keeps_paged [prog_keeps_intros]:
  assumes "reads_go_up env R"
  shows "keeps R (paged_api env path)"
  unfolding paged_api_def using assms by (intro prog_keeps_intros)

lemma prog_keeps_threads [prog_keeps_intros]:
  assumes "reads_go_up env R"
  shows "keeps R (threads_loop env take_page repo number owner_name)"
  unfolding threads_loop_def using assms by (intro prog_keeps_intros) simp_all

lemma prog_keeps_timeline [prog_keeps_intros]:
  assumes "reads_go_up env R"
  shows "keeps R (timeline_loop env repo number owner_name)"
  unfolding timeline_loop_def using assms by (intro prog_keeps_intros) simp_all

lemma prog_keeps_reads [prog_keeps_intros]:
  assumes "reads_go_up env R"
  shows "keeps R (list_open_pr_numbers env repo)" "keeps R (issue_label_names env repo number)"
    "keeps R (unresolved_review_comment_urls env repo number)"
    "keeps R (unresolved_codex_finding_thread_urls env repo number sha allowed)"
    "keeps R (commit_checks_state env repo sha)" "keeps R (workflow_runs_requiring_approval env repo sha)"
  unfolding list_open_pr_numbers_def issue_label_names_def unresolved_review_comment_urls_def
    unresolved_codex_finding_thread_urls_def commit_checks_state_def workflow_runs_requiring_approval_def
  using assms by (intro prog_keeps_intros; simp)+

lemma prog_keeps_comments [prog_keeps_intros]:
  "reads_go_up env R \<Longrightarrow> keeps R (pull_review_comment_nodes env repo number sha)"
  unfolding pull_review_comment_nodes_def by (intro prog_keeps_intros)

lemma prog_keeps_evidence [prog_keeps_intros]: "reads_go_up env R \<Longrightarrow> keeps R (pr_timeline_evidence env repo number)"
  unfolding pr_timeline_evidence_def by (intro prog_keeps_intros)

lemma prog_keeps_merge_state [prog_keeps_intros]:
  assumes "reads_go_up env R"
  shows "keeps R (pr_merge_state env repo number)"
proof -
  have "keeps R (run_gh env [''pr'', ''view'', py_str_int number, ''--repo'', repo, ''--json'', ''mergeStateStatus,mergeable''] None 30)"
    by (rule prog_keeps_run_gh [OF assms]) (simp add: is_read_call_def)
  then show ?thesis unfolding pr_merge_state_def Let_def
    by (intro prog_keeps_bind reads_trans [OF assms]) (auto split: json.splits intro!: prog_keeps_intros assms)
qed

lemma prog_keeps_read_evidence [prog_keeps_intros]: "reads_go_up env R \<Longrightarrow> keeps R (read_evidence env repo number allowed)"
  unfolding read_evidence_def by (intro prog_keeps_intros)

lemma prog_keeps_decide [prog_keeps_intros]: "reads_go_up env R \<Longrightarrow> keeps R (decide_pr env repo number allowed ig)"
  unfolding decide_pr_def by (intro prog_keeps_intros)

lemma prog_keeps_sync_pr [prog_keeps_intros]:
  assumes "reads_go_up env R" "\<not> arg_apply args"
  shows "keeps R (sync_pr env args allowed repo number)"
  unfolding sync_pr_def apply_writes_def Let_def using assms
  by (auto intro!: prog_keeps_intros split: sum.splits)

lemma prog_keeps_sync_prs [prog_keeps_intros]:
  assumes "reads_go_up env R" "\<not> arg_apply args"
  shows "keeps R (sync_prs env args allowed repo numbers)"
  by (induction numbers) (auto intro!: prog_keeps_intros assms)

lemma prog_keeps_sync_repo [prog_keeps_intros]:
  assumes "reads_go_up env R" "\<not> arg_apply args"
  shows "keeps R (sync_repo env args allowed repo)"
  unfolding sync_repo_def ensure_label_def Let_def using assms by (auto intro!: prog_keeps_intros)

lemma prog_keeps_sync_repos [prog_keeps_intros]:
  assumes "reads_go_up env R" "\<not> arg_apply args"
  shows "keeps R (sync_repos env args allowed repos)"
  by (induction repos) (auto intro!: prog_keeps_intros assms)

text \<open>Without \<open>--apply\<close> a run of the script makes no call that writes: whatever relation between worlds the
  reading calls and the printed lines go up in, the whole run goes up in it. With the log of the calls
  as the world this says that every call of a dry run is a read.\<close>

lemma dry_run_only_reads:
  assumes "reads_go_up env R" "\<not> arg_apply args" "sync_main env args w = Some (r, w')"
  shows "R w w'"
proof -
  have "keeps R (sync_main env args)"
    unfolding sync_main_def using assms(1,2) by (auto intro!: prog_keeps_intros)
  with assms(3) show ?thesis by (auto simp: keeps_def)
qed

text \<open>A GitHub that logs its calls and fails each of them, and a dry run on one pull request.\<close>

definition log_env :: "string list list gh_env" where
  "log_env = \<lparr>env_gh = (\<lambda>args _ _ w. (Finished 1 [] ''HTTP 500'', w @ [args])), env_print = (\<lambda>_ w. w),
              env_pstr = (\<lambda>_. []), env_exc_text = (\<lambda>_. []), CODEX_OK_LABEL = ''codex: ok'',
              CODEX_NEEDS_WORK_LABEL = ''codex: needs work'', LEGACY_CODEX_LABELS = [''codex-ok'']\<rparr>"

definition dry_args :: sync_args where
  "dry_args = \<lparr>arg_repos = [''o/r''], arg_prs = [1], arg_all_open = False, arg_apply = False,
     arg_no_trigger_missing_codex = False, arg_no_approve_workflow_runs = False,
     arg_codex_review_command = ''@codex review'', arg_ignore_checks = False,
     arg_tolerate_write_permission_errors = False, arg_tolerate_read_errors = False, arg_reviewer_logins = []\<rparr>"

lemma log_env_fails: "run_gh log_env args inp t w =
    Some (Inl (GhError (join '' '' (''gh'' # args) @ '': '' @ ''HTTP 500'')), w @ [args])"
proof -
  have "strip ''HTTP 500'' = ''HTTP 500''" by code_simp
  then show ?thesis by (simp add: run_gh_def log_env_def gh_outcome_def)
qed

lemma dry_run_outcome:
  "\<exists>log. sync_main log_env dry_args [] = Some (Inr 1, [log])"
proof -
  have print: "env_print log_env l w = w" for l w by (simp add: log_env_def)
  have path: "repo_path ''o/r'' = Inr ''o/r''" "owner_and_name ''o/r'' = Inr (''o'', ''r'')" by code_simp+
  show ?thesis
    by (simp add: sync_main_def dry_args_def path py_of_def gh_bind_def gh_of_def sync_repo_def ensure_label_def Let_def
        gh_ret_def sync_pr_def gh_catch_def decide_pr_def read_evidence_def pr_timeline_evidence_def timeline_loop_def
        page_loop.simps graphql_def log_env_fails print_line_def print)
qed

lemma dry_run_only_reads_example:
  "\<exists>log. sync_main log_env dry_args [] = Some (Inr 1, log) \<and> list_all is_read_call log \<and> log \<noteq> []"
proof -
  obtain log where run: "sync_main log_env dry_args [] = Some (Inr 1, [log])" using dry_run_outcome by blast
  let ?R = "\<lambda>a b. list_all is_read_call a \<longrightarrow> list_all is_read_call b"
  have "reads_go_up log_env ?R" by (auto simp: reads_go_up_def log_env_def reflp_def transp_def)
  from dry_run_only_reads [OF this _ run] have "list_all is_read_call [log]" by (simp add: dry_args_def)
  with run show ?thesis by blast
qed

end
