(* ===== verification/CodexRuns.thy ===== *)
theory CodexRuns
  imports CodexLabels
begin

text \<open>
  What runs of the label automation do: the labels a decision leaves on GitHub, paged lists read to
  their end, and the exit status of a run.
\<close>

section \<open>Labels after a run\<close>

text \<open>
  GitHub's labels of a pull request, as far as the script relies on them: adding a label adds it,
  deleting one removes it, and deleting one that is absent fails with the message for it.
\<close>

definition managed_labels :: "('w, 'z) gh_env_scheme \<Rightarrow> string list" where
  "managed_labels env = CODEX_OK_LABEL env # CODEX_NEEDS_WORK_LABEL env # LEGACY_CODEX_LABELS env"

definition label_server :: "('w, 'z) gh_env_scheme \<Rightarrow> string \<Rightarrow> int \<Rightarrow> ('w \<Rightarrow> string set) \<Rightarrow> bool" where
  "label_server env repo number labels =
     (\<forall>label \<in> set (managed_labels env). \<forall>w.
        (\<exists>v w1. gh_api env (issue_path repo number @ ''/labels'') ''POST'' (Some (JObj [(''labels'', JArr [JStr label])])) w =
                  Some (Inr v, w1) \<and> labels w1 = insert label (labels w)) \<and>
        (\<exists>r w1. gh_api env (issue_path repo number @ ''/labels/'' @ quote label) ''DELETE'' None w = Some (r, w1) \<and>
                labels w1 = labels w - {label} \<and>
                (case r of
                   Inr _ \<Rightarrow> label \<in> labels w
                 | Inl e \<Rightarrow> label \<notin> labels w \<and> (\<exists>txt. e = GhError txt \<and> is_missing_issue_label txt))))"

lemma add_label_effect:
  assumes "label_server env (sd_repo d) (sd_number d) labels" "label \<in> set (managed_labels env)"
  shows "\<exists>w1. add_label_write env tolerate d label w = Some (Inr None, w1) \<and> labels w1 = insert label (labels w)"
proof -
  from assms obtain v w1 where
    "gh_api env (issue_path (sd_repo d) (sd_number d) @ ''/labels'') ''POST'' (Some (JObj [(''labels'', JArr [JStr label])])) w =
       Some (Inr v, w1)" "labels w1 = insert label (labels w)"
    unfolding label_server_def by blast
  then show ?thesis by (simp add: add_label_write_def gh_api_write_def gh_catch_def gh_bind_def gh_ret_def)
qed

lemma remove_label_effect:
  assumes "label_server env (sd_repo d) (sd_number d) labels" "label \<in> set (managed_labels env)"
  shows "\<exists>w1. remove_label_write env tolerate d verb label w = Some (Inr None, w1) \<and> labels w1 = labels w - {label}"
proof -
  from assms obtain r w1 where
    "gh_api env (issue_path (sd_repo d) (sd_number d) @ ''/labels/'' @ quote label) ''DELETE'' None w = Some (r, w1)"
    "labels w1 = labels w - {label}"
    "case r of Inr _ \<Rightarrow> label \<in> labels w | Inl e \<Rightarrow> label \<notin> labels w \<and> (\<exists>txt. e = GhError txt \<and> is_missing_issue_label txt)"
    unfolding label_server_def by blast
  then show ?thesis
    by (cases r) (auto simp: remove_label_write_def gh_api_write_def gh_catch_def gh_bind_def gh_ret_def write_failure_def)
qed

lemma write_all_append:
  "write_all xs w = Some (Inr [], w1) \<Longrightarrow> write_all ys w1 = Some (Inr [], w2) \<Longrightarrow> write_all (xs @ ys) w = Some (Inr [], w2)"
proof (induction xs arbitrary: w)
  case (Cons m ms)
  from Cons.prems(1) obtain w0 where "m w = Some (Inr None, w0)" "write_all ms w0 = Some (Inr [], w1)"
    by (auto simp: prog_simps split: option.splits)
  with Cons.IH [OF this(2) Cons.prems(2)] show ?case by (simp add: gh_bind_def gh_ret_def)
qed (simp add: gh_ret_def)

lemma action_writes_effect:
  assumes "label_server env (sd_repo d) (sd_number d) labels" "label \<in> set (managed_labels env)"
  shows "\<exists>w1. write_all (action_writes env tolerate d (action_for wants (label \<in> labels w)) label) w = Some (Inr [], w1) \<and>
           labels w1 = (if wants then insert label (labels w) else labels w - {label})"
  using add_label_effect [OF assms, of tolerate w] remove_label_effect [OF assms, of tolerate "''remove ''" w]
  by (auto simp: action_writes_def action_for_def gh_bind_def gh_ret_def insert_absorb)

lemma legacy_writes_effect:
  assumes "label_server env (sd_repo d) (sd_number d) labels" "set ls \<subseteq> set (managed_labels env)"
  shows "\<exists>w1. write_all (map (remove_label_write env tolerate d verb) ls) w = Some (Inr [], w1) \<and> labels w1 = labels w - set ls"
  using assms(2)
proof (induction ls arbitrary: w)
  case (Cons l ls)
  obtain w0 where "remove_label_write env tolerate d verb l w = Some (Inr None, w0)" "labels w0 = labels w - {l}"
    using remove_label_effect [OF assms(1), of l tolerate verb w] Cons.prems by auto
  moreover obtain w1 where "write_all (map (remove_label_write env tolerate d verb) ls) w0 = Some (Inr [], w1)"
      "labels w1 = labels w0 - set ls"
    using Cons.IH [of w0] Cons.prems by auto
  ultimately show ?case by (auto simp: gh_bind_def gh_ret_def)
qed (simp add: gh_ret_def)

text \<open>What the labels are meant to be.\<close>

definition target_labels :: "('w, 'z) gh_env_scheme \<Rightarrow> bool \<Rightarrow> pr_evidence \<Rightarrow> string set" where
  "target_labels env ig ev =
     (set (ev_labels ev) - set (managed_labels env)) \<union>
     (if wants_ok ig (CODEX_OK_LABEL env \<in> set (ev_labels ev)) ev then {CODEX_OK_LABEL env} else {}) \<union>
     (if wants_needs_work ev then {CODEX_NEEDS_WORK_LABEL env} else {})"

lemma apply_decision_effect:
  assumes server: "label_server env repo number labels" and dist: "distinct (managed_labels env)"
    and start: "labels w = set (ev_labels ev)"
  shows "\<exists>w1. apply_decision env (decision env ig repo number ev runs) tolerate w = Some (Inr [], w1) \<and>
           labels w1 = target_labels env ig ev"
proof -
  let ?d = "decision env ig repo number ev runs"
  let ?ok = "CODEX_OK_LABEL env" and ?nw = "CODEX_NEEDS_WORK_LABEL env"
  let ?wants = "wants_ok ig (?ok \<in> set (ev_labels ev)) ev"
  have s: "label_server env (sd_repo ?d) (sd_number ?d) labels" using server by simp
  have ne: "?ok \<noteq> ?nw" and mem: "?ok \<in> set (managed_labels env)" "?nw \<in> set (managed_labels env)"
    using dist by (auto simp: managed_labels_def)
  obtain w1 where w1: "write_all (action_writes env tolerate ?d (ok_action ?d) ?ok) w = Some (Inr [], w1)"
      "labels w1 = (if ?wants then insert ?ok (labels w) else labels w - {?ok})"
    using action_writes_effect [OF s mem(1), of tolerate ?wants w] start by auto
  have "(?nw \<in> set (ev_labels ev)) = (?nw \<in> labels w1)" using w1(2) start ne by auto
  then obtain w2 where w2: "write_all (action_writes env tolerate ?d (needs_work_action ?d) ?nw) w1 = Some (Inr [], w2)"
      "labels w2 = (if wants_needs_work ev then insert ?nw (labels w1) else labels w1 - {?nw})"
    using action_writes_effect [OF s mem(2), of tolerate "wants_needs_work ev" w1] by auto
  obtain w3 where w3: "write_all (map (remove_label_write env tolerate ?d ''remove legacy '') (legacy_labels ?d)) w2 = Some (Inr [], w3)"
      "labels w3 = labels w2 - set (legacy_labels ?d)"
    using legacy_writes_effect [OF s, of "legacy_labels ?d" tolerate "''remove legacy ''" w2] by (auto simp: managed_labels_def)
  have "apply_decision env ?d tolerate w = Some (Inr [], w3)"
    unfolding apply_decision_def by (rule write_all_append [OF w1(1) write_all_append [OF w2(1) w3(1)]])
  moreover have "labels w3 = target_labels env ig ev"
    using w1(2) w2(2) w3(2) start dist by (auto simp: target_labels_def managed_labels_def split: if_splits)
  ultimately show ?thesis by blast
qed

text \<open>Once the labels are the meant ones, the same evidence asks for nothing more.\<close>

lemma target_labels_settled:
  assumes dist: "distinct (managed_labels env)" and next_labels: "set labels' = target_labels env ig ev"
  shows "ok_action (decision env ig repo number (ev\<lparr>ev_labels := labels'\<rparr>) runs) = KeepLabel"
    and "needs_work_action (decision env ig repo number (ev\<lparr>ev_labels := labels'\<rparr>) runs) = KeepLabel"
    and "legacy_labels (decision env ig repo number (ev\<lparr>ev_labels := labels'\<rparr>) runs) = []"
  using assms
  by (auto simp: action_for_def wants_ok_def wants_needs_work_def target_labels_def managed_labels_def filter_empty_conv
      split: if_splits)

text \<open>C39: Applying a decision leaves exactly the meant labels of the three the script manages and all others,
  without a warning; and deciding again on the same evidence with those labels keeps everything, so a
  second run writes no label.\<close>

theorem labels_settle:
  assumes "label_server env repo number labels" "distinct (managed_labels env)" "labels w = set (ev_labels ev)"
  shows "\<exists>w1. apply_decision env (decision env ig repo number ev runs) tolerate w = Some (Inr [], w1) \<and>
           labels w1 = target_labels env ig ev \<and>
           (\<forall>labels'. set labels' = labels w1 \<longrightarrow>
              apply_decision env (decision env ig repo number (ev\<lparr>ev_labels := labels'\<rparr>) runs) tolerate w1 = Some (Inr [], w1))"
proof -
  from apply_decision_effect [OF assms, of ig runs tolerate] obtain w1 where
    w1: "apply_decision env (decision env ig repo number ev runs) tolerate w = Some (Inr [], w1)"
      "labels w1 = target_labels env ig ev" by blast
  have "apply_decision env (decision env ig repo number (ev\<lparr>ev_labels := labels'\<rparr>) runs) tolerate w1 = Some (Inr [], w1)"
    if "set labels' = labels w1" for labels'
    using target_labels_settled [OF assms(2), of labels' ig ev repo number runs] that w1(2)
    by (simp add: apply_decision_def action_writes_def gh_ret_def del: decision_simps)
  with w1 show ?thesis by blast
qed

text \<open>A GitHub whose world is the labels of one pull request.\<close>

definition label_env :: "string set gh_env" where
  "label_env = \<lparr>env_gh = (\<lambda>args inp _ w.
       if args = [''api'', ''--method'', ''POST'', ''/repos/o/r/issues/1/labels'', ''--input'', ''-'']
       then (Finished 0 [] [],
             if inp = Some (dumps (\<lambda>_. []) '', '' '': '' (JObj [(''labels'', JArr [JStr ''ok''])])) then insert ''ok'' w
             else if inp = Some (dumps (\<lambda>_. []) '', '' '': '' (JObj [(''labels'', JArr [JStr ''bad''])])) then insert ''bad'' w
             else insert ''old'' w)
       else let label = drop 27 (args ! 3)
            in (if label \<in> w then Finished 0 [] [] else Finished 1 [] ''HTTP 404: Label does not exist'', w - {label})),
     env_print = (\<lambda>_ w. w), env_pstr = (\<lambda>_. []), env_exc_text = (\<lambda>_. []), CODEX_OK_LABEL = ''ok'',
     CODEX_NEEDS_WORK_LABEL = ''bad'', LEGACY_CODEX_LABELS = [''old'']\<rparr>"

lemma str_in_append: "str_in sub s \<Longrightarrow> str_in sub (p @ s)"
  by (induction p) auto

lemma label_env_server: "label_server label_env ''o/r'' 1 (\<lambda>w. w)"
proof -
  have path: "issue_path ''o/r'' 1 = ''/repos/o/r/issues/1''" by code_simp
  have quotes: "quote ''ok'' = ''ok''" "quote ''bad'' = ''bad''" "quote ''old'' = ''old''" by code_simp+
  have "str_in ''HTTP 404'' '': HTTP 404: Label does not exist''"
    "str_in ''Label does not exist'' '': HTTP 404: Label does not exist''" by code_simp+
  then have missing: "is_missing_issue_label (t @ '': HTTP 404: Label does not exist'')" for t
    by (simp add: is_missing_issue_label_def str_in_append)
  have strips: "strip ''HTTP 404: Label does not exist'' = ''HTTP 404: Label does not exist''" "strip [] = []" by code_simp+
  let ?doc = "\<lambda>label. dumps (\<lambda>_. []) '', '' '': '' (JObj [(''labels'', JArr [JStr label])])"
  have docs: "?doc ''ok'' \<noteq> ?doc ''bad''" "?doc ''old'' \<noteq> ?doc ''ok''" "?doc ''old'' \<noteq> ?doc ''bad''" by code_simp+
  have post: "gh_api label_env ''/repos/o/r/issues/1/labels'' ''POST'' (Some (JObj [(''labels'', JArr [JStr label])])) w =
      Some (Inr JNull, insert label w)" if "label \<in> {''ok'', ''bad'', ''old''}" for label w
    using that docs by (auto simp: gh_api_def Let_def startswith_def run_gh_def label_env_def gh_outcome_def strips
        simp del: dumps.simps)
  have delete: "\<exists>txt. is_missing_issue_label txt \<and>
      gh_api label_env (''/repos/o/r/issues/1/labels/'' @ label) ''DELETE'' None w =
        Some (if label \<in> w then Inr JNull else Inl (GhError txt), w - {label})" for label w
    by (rule exI, rule conjI, rule missing [of "join '' '' (''gh'' # [''api'', ''--method'', ''DELETE'', ''/repos/o/r/issues/1/labels/'' @ label])"])
      (simp add: gh_api_def Let_def startswith_def run_gh_def label_env_def gh_outcome_def strips)
  have names: "set (managed_labels label_env) = {''ok'', ''bad'', ''old''}"
    by (auto simp: managed_labels_def label_env_def)
  show ?thesis
    unfolding label_server_def path names
  proof (intro ballI allI conjI)
    fix label w assume l: "label \<in> {''ok'', ''bad'', ''old''}"
    have q: "quote label = label" using l quotes by auto
    show "\<exists>v w1. gh_api label_env (''/repos/o/r/issues/1'' @ ''/labels'') ''POST''
        (Some (JObj [(''labels'', JArr [JStr label])])) w = Some (Inr v, w1) \<and> w1 = insert label w"
      using post [OF l] by simp
    have eq: "''/repos/o/r/issues/1'' @ ''/labels/'' @ label = ''/repos/o/r/issues/1/labels/'' @ label" by simp
    from delete [of label w] obtain msg where d: "is_missing_issue_label msg \<and>
      gh_api label_env (''/repos/o/r/issues/1/labels/'' @ label) ''DELETE'' None w =
        Some (if label \<in> w then Inr JNull else Inl (GhError msg), w - {label})" by (rule exE)
    show "\<exists>r w1. gh_api label_env (''/repos/o/r/issues/1'' @ ''/labels/'' @ quote label) ''DELETE'' None w = Some (r, w1) \<and>
        w1 = w - {label} \<and>
        (case r of Inl e \<Rightarrow> label \<notin> w \<and> (\<exists>txt. e = GhError txt \<and> is_missing_issue_label txt) | Inr _ \<Rightarrow> label \<in> w)"
      unfolding q eq d [THEN conjunct2] using d [THEN conjunct1] by (cases "label \<in> w") simp_all
  qed
qed

text \<open>A pull request that still has the legacy label and the needs-work label, now with a clean review.\<close>

definition clean_evidence :: pr_evidence where
  "clean_evidence = \<lparr>ev_head_sha = ''abc'', ev_labels = [''bug'', ''old'', ''bad''], ev_checks = ChecksSuccess,
     ev_merge = ''CLEAN'', ev_review = (ReviewClean, None), ev_findings = [], ev_news = True\<rparr>"

theorem labels_settle_witness:
  "\<exists>w1. apply_decision label_env (decision label_env False ''o/r'' 1 clean_evidence []) False {''bug'', ''old'', ''bad''} =
          Some (Inr [], w1) \<and> w1 = {''bug'', ''ok''}"
proof -
  have start: "{''bug'', ''old'', ''bad''} = set (ev_labels clean_evidence)" by (simp add: clean_evidence_def)
  have dist: "distinct (managed_labels label_env)" by (simp add: managed_labels_def label_env_def)
  have target: "target_labels label_env False clean_evidence = {''bug'', ''ok''}"
    by (auto simp: target_labels_def managed_labels_def label_env_def clean_evidence_def wants_ok_def
        wants_needs_work_def cannot_merge_def UNMERGEABLE_STATES_def)
  show ?thesis
    using labels_settle [where labels = "\<lambda>w. w" and w = "{''bug'', ''old'', ''bad''}" and ev = clean_evidence
        and ig = False and runs = "[]" and tolerate = False, OF label_env_server dist start]
    unfolding target by (elim exE conjE) (rule exI, rule conjI)
qed

section \<open>A scripted GitHub\<close>

lemma objects_of_append [simp]: "objects_of (xs @ ys) = objects_of xs @ objects_of ys"
  by (simp add: objects_of_def List.map_filter_def)

lemma objects_of_Nil [simp]: "objects_of [] = []"
  by (simp add: objects_of_def List.map_filter_def)

text \<open>The world is the list of the documents still to be answered, one for each call.\<close>

definition script_env :: "json list gh_env" where
  "script_env = \<lparr>env_gh = (\<lambda>_ _ _ w. (Finished 0 (dumps (\<lambda>_. []) '', '' '': '' (hd w)) [], tl w)), env_print = (\<lambda>_ w. w),
     env_pstr = (\<lambda>_. []), env_exc_text = (\<lambda>_. []), CODEX_OK_LABEL = ''ok'', CODEX_NEEDS_WORK_LABEL = ''bad'',
     LEGACY_CODEX_LABELS = [''old'']\<rparr>"

definition document :: "json \<Rightarrow> bool" where
  "document v = (json_plain v \<and> (case v of JArr _ \<Rightarrow> True | JObj _ \<Rightarrow> True | _ \<Rightarrow> False))"

lemma strip_framed: "\<not> py_isspace c \<Longrightarrow> \<not> py_isspace d \<Longrightarrow> strip (c # m @ [d]) = c # m @ [d]"
  by (simp add: strip_def lstrip_def rstrip_def)

lemma gh_outcome_document:
  assumes "document v"
  shows "gh_outcome command t (Finished 0 (dumps fr '', '' '': '' v) err) = Inr v"
proof -
  have "\<exists>c m d. dumps fr '', '' '': '' v = c # m @ [d] \<and> \<not> py_isspace c \<and> \<not> py_isspace d"
    using assms by (auto simp: document_def py_isspace_def split: json.splits)
  then have "strip (dumps fr '', '' '': '' v) = dumps fr '', '' '': '' v \<and> dumps fr '', '' '': '' v \<noteq> []"
    using strip_framed by fastforce
  moreover have "loads (dumps fr '', '' '': '' v) = Inr v"
    using assms by (intro loads_dumps) (auto simp: document_def json_ws_def)
  ultimately show ?thesis by (simp add: gh_outcome_def py_of_def)
qed

lemma script_run [simp]: "document v \<Longrightarrow> run_gh script_env args inp t (v # w) = Some (Inr v, w)"
  by (simp add: run_gh_def script_env_def gh_outcome_document)

lemma script_api [simp]: "document v \<Longrightarrow> gh_api script_env path m inp (v # w) = Some (Inr v, w)"
  by (simp add: gh_api_def Let_def)

lemma script_graphql [simp]: "document (JObj ob) \<Longrightarrow> graphql script_env query flds (JObj ob # w) = Some (Inr ob, w)"
  by (simp add: graphql_def gh_bind_def gh_ret_def)

text \<open>
  A pull request with a clean review after its head, a green check and no open thread: the documents
  GitHub answers to the calls of a dry run, in their order.
\<close>

definition pr_document :: "jobj \<Rightarrow> jobj" where
  "pr_document pr = [(''data'', JObj [(''repository'', JObj [(''pullRequest'', JObj pr)])])]"

definition sample_nodes :: "jobj list" where
  "sample_nodes =
     [[(''__typename'', JStr ''PullRequestCommit''), (''commit'', JObj [(''oid'', JStr ''abc'')])],
      [(''__typename'', JStr ''PullRequestReview''), (''author'', JObj [(''login'', JStr ''openai-codex'')]),
       (''bodyText'', JStr ''fine''), (''commit'', JObj [(''oid'', JStr ''abc'')])]]"

definition sample_timeline :: jobj where
  "sample_timeline = pr_document
     [(''headRefOid'', JStr ''abc''),
      (''commits'', JObj [(''nodes'', JArr [JObj [(''commit'', JObj [(''oid'', JStr ''abc'')])]])]),
      (''timelineItems'', JObj [(''nodes'', JArr (map JObj sample_nodes))])]"

definition no_threads :: jobj where
  "no_threads = pr_document [(''reviewThreads'', JObj [(''nodes'', JArr [])])]"

definition sample_script :: "json list" where
  "sample_script =
     [JObj sample_timeline, JArr [], JObj no_threads, JArr [],
      JObj [(''check_runs'', JArr [JObj [(''name'', JStr ''b''), (''conclusion'', JStr ''success'')]])], JObj [],
      JObj [(''mergeable'', JStr ''MERGEABLE''), (''mergeStateStatus'', JStr ''CLEAN'')],
      JObj no_threads, JObj [(''workflow_runs'', JArr [])]]"

lemma gh_bind_ok: "m w = Some (Inr x, w1) \<Longrightarrow> gh_bind m f w = f x w1"
  by (simp add: gh_bind_def)

lemma gh_of_ok: "gh_of (Inr x) w = Some (Inr x, w)"
  by (simp add: gh_of_def)

text \<open>One page of a list, of review threads and of the timeline.\<close>

lemma script_list: "document (JArr xs) \<Longrightarrow> length xs < 100 \<Longrightarrow> paged_api script_env path (JArr xs # w) = Some (Inr (objects_of xs), w)"
  by (subst paged_api_def, subst page_loop.simps)
    (auto simp: paged_step_def page_items_def objects_of_def List.map_filter_def)

lemma script_named_list:
  assumes "document (JObj [(key, JArr xs)])" "length xs < 100" "key \<in> {''items'', ''check_runs'', ''workflow_runs''}"
  shows "paged_api script_env path (JObj [(key, JArr xs)] # w) = Some (Inr (objects_of xs), w)"
  using assms by (subst paged_api_def, subst page_loop.simps) (auto simp: paged_step_def page_items_def)

lemma sample_documents: "document (JObj sample_timeline)" "document (JObj no_threads)" "document (JArr [])" "document (JObj [])"
  "document (JObj [(''check_runs'', JArr [JObj [(''name'', JStr ''b''), (''conclusion'', JStr ''success'')]])])"
  "document (JObj [(''mergeable'', JStr ''MERGEABLE''), (''mergeStateStatus'', JStr ''CLEAN'')])"
  "document (JObj [(''workflow_runs'', JArr [])])"
  by (simp_all add: document_def sample_timeline_def no_threads_def pr_document_def sample_nodes_def)

lemma script_threads:
  assumes "take_page [] = Inr []"
  shows "threads_loop script_env take_page repo number on (JObj no_threads # w) = Some (Inr [], w)"
proof -
  have "review_threads_page repo number no_threads = Inr ([], None)"
    by (simp add: no_threads_def pr_document_def review_threads_page_def graphql_pr_def dict_of_def jget_or_def next_cursor_def)
  then have "threads_step take_page repo number (None, []) no_threads = Inr (Inr [])"
    using assms by (simp add: threads_step_def py_of_def)
  then show ?thesis
    by (subst threads_loop_def, subst page_loop.simps) (simp add: sample_documents)
qed

lemma script_timeline:
  "timeline_loop script_env ''o/r'' 1 on (JObj sample_timeline # w) = Some (Inr (''abc'', sample_nodes), w)"
proof -
  have "timeline_step script_env ''o/r'' 1 (None, None, []) sample_timeline = Inr (Inr (''abc'', sample_nodes))"
    by code_simp
  then show ?thesis
    by (subst timeline_loop_def, subst page_loop.simps) (simp add: sample_documents)
qed

definition sample_evidence :: pr_evidence where
  "sample_evidence = \<lparr>ev_head_sha = ''abc'', ev_labels = [], ev_checks = ChecksSuccess, ev_merge = ''CLEAN'',
     ev_review = (ReviewClean, Some (last sample_nodes)), ev_findings = [], ev_news = True\<rparr>"

lemma sample_read:
  "read_evidence script_env ''o/r'' 1 CODEX_REVIEW_AUTHORS (sample_script @ w) =
     Some (Inr sample_evidence, JObj [(''workflow_runs'', JArr [])] # w)"
proof -
  let ?checks = "JObj [(''check_runs'', JArr [JObj [(''name'', JStr ''b''), (''conclusion'', JStr ''success'')]])]"
  let ?merge = "JObj [(''mergeable'', JStr ''MERGEABLE''), (''mergeStateStatus'', JStr ''CLEAN'')]"
  have on: "owner_and_name ''o/r'' = Inr (''o'', ''r'')" by code_simp
  have finds: "codex_finding_urls ''abc'' CODEX_REVIEW_AUTHORS [] = Inr []" by code_simp
  have "pull_review_comment_nodes script_env ''o/r'' 1 ''abc'' (JArr [] # JObj no_threads # v) = Some (Inr [], v)" for v
    by (simp add: pull_review_comment_nodes_def unresolved_review_comment_urls_def gh_bind_ok script_list sample_documents
        on gh_of_ok script_threads thread_comment_urls_def List.map_filter_def review_comment_nodes_def py_of_def gh_of_def)
  then have t: "pr_timeline_evidence script_env ''o/r'' 1 (JObj sample_timeline # JArr [] # JObj no_threads # v) =
      Some (Inr (''abc'', sample_nodes), v)" for v
    by (simp add: pr_timeline_evidence_def gh_bind_ok on gh_of_ok script_timeline gh_ret_def merge_review_comment_nodes_def)
  have l: "issue_label_names script_env ''o/r'' 1 (JArr [] # v) = Some (Inr [], v)" for v
    by (simp add: issue_label_names_def gh_bind_ok script_list sample_documents gh_ret_def List.map_filter_def)
  have "classify_check_state (env_pstr script_env) [[(''name'', JStr ''b''), (''conclusion'', JStr ''success'')]]
      (object_of (JObj [])) (dict_get REQUIRED_CHECKS_BY_REPO ''o/r'' []) = Inr ChecksSuccess" by code_simp
  then have c: "commit_checks_state script_env ''o/r'' ''abc'' (?checks # JObj [] # v) = Some (Inr ChecksSuccess, v)" for v
    by (simp add: commit_checks_state_def gh_bind_ok script_named_list sample_documents gh_of_def py_of_def
        objects_of_def List.map_filter_def)
  have "upper (str_or_empty (env_pstr script_env) (JStr ''MERGEABLE'')) = ''MERGEABLE''"
    "upper (str_or_empty (env_pstr script_env) (JStr ''CLEAN'')) = ''CLEAN''" by code_simp+
  then have m: "pr_merge_state script_env ''o/r'' 1 (?merge # v) = Some (Inr ''CLEAN'', v)" for v
    by (simp add: pr_merge_state_def gh_bind_ok sample_documents gh_ret_def)
  have f: "unresolved_codex_finding_thread_urls script_env ''o/r'' 1 ''abc'' CODEX_REVIEW_AUTHORS (JObj no_threads # v) =
      Some (Inr [], v)" for v
    by (simp add: unresolved_codex_finding_thread_urls_def gh_bind_ok on gh_of_ok script_threads finds)
  have st: "find_current_head_codex_review_state (env_pstr script_env) ''abc'' CODEX_REVIEW_AUTHORS sample_nodes =
      (ReviewClean, Some (last sample_nodes))"
    "has_codex_news_after_current_head (env_pstr script_env) ''abc'' CODEX_REVIEW_AUTHORS sample_nodes" by code_simp+
  show ?thesis
    by (simp add: read_evidence_def gh_bind_ok sample_script_def t l c m f gh_ret_def sample_evidence_def st)
qed

lemma sample_decision:
  "decide_pr script_env ''o/r'' 1 CODEX_REVIEW_AUTHORS False (sample_script @ w) =
     Some (Inr (decision script_env False ''o/r'' 1 sample_evidence []), w)"
proof -
  have "may_approve sample_evidence" by code_simp
  then show ?thesis
    by (simp add: decide_pr_def gh_bind_ok sample_read workflow_runs_requiring_approval_def script_named_list sample_documents
        gh_ret_def List.map_filter_def)
qed



section \<open>Paging reads everything\<close>

lemma page_items_array: "page_items path (JArr xs) = Inr (if xs = [] then None else Some xs)"
  by (simp add: page_items_def)

lemma paged_step_array:
  "paged_step path (page, items) (JArr xs) =
     Inr (if length xs < 100 then Inr (items @ objects_of xs) else Inl (page + 1, items @ objects_of xs))"
  by (auto simp: paged_step_def page_items_array objects_of_def List.map_filter_def)

text \<open>GitHub answers a list page after page, from a world to another.\<close>

fun answers_pages :: "('w, 'z) gh_env_scheme \<Rightarrow> string \<Rightarrow> nat \<Rightarrow> 'w \<Rightarrow> json list list \<Rightarrow> 'w \<Rightarrow> bool" where
  "answers_pages env path page w [] w' = (w' = w)"
| "answers_pages env path page w (p # pages) w' =
     (case gh_api env (page_path path page) ''GET'' None w of
        Some (Inr v, w1) \<Rightarrow> v = JArr p \<and> answers_pages env path (page + 1) w1 pages w'
      | _ \<Rightarrow> False)"

lemma answers_pages_Cons:
  "answers_pages env path page w (p # pages) w' \<longleftrightarrow>
     (\<exists>w1. gh_api env (page_path path page) ''GET'' None w = Some (Inr (JArr p), w1) \<and>
           answers_pages env path (page + 1) w1 pages w')"
proof (cases "gh_api env (page_path path page) ''GET'' None w")
  case (Some rw)
  then show ?thesis by (cases rw; cases "fst rw") auto
qed simp

lemma paged_from:
  assumes "pages \<noteq> []" "list_all (\<lambda>p. 100 \<le> length p) (butlast pages)" "length (last pages) < 100"
    "answers_pages env path page w pages w'"
  shows "page_loop (\<lambda>(page, items). gh_api env (page_path path page) ''GET'' None) (paged_step path) (page, items) w =
           Some (Inr (items @ objects_of (concat pages)), w')"
  using assms
proof (induction pages arbitrary: page items w)
  case (Cons p pages)
  obtain w1 where call: "gh_api env (page_path path page) ''GET'' None w = Some (Inr (JArr p), w1)"
      and tail: "answers_pages env path (page + 1) w1 pages w'"
    using Cons.prems(4) unfolding answers_pages_Cons by blast
  show ?case
  proof (cases "pages = []")
    case True
    then show ?thesis
      using Cons.prems(3) call tail
      by (subst page_loop.simps) (auto simp: paged_step_array)
  next
    case False
    then have "100 \<le> length p" "p \<noteq> []" using Cons.prems(2) by auto
    with Cons.IH [OF False _ _ tail, of "items @ objects_of p"] Cons.prems(2,3) False call
    show ?thesis
      by (subst page_loop.simps) (simp add: paged_step_array)
  qed
qed simp

text \<open>A paged list is read to its end: when GitHub answers page after page, all full but the last, the loop
  returns, asks for each page once and in order, and gives the objects of all of them.\<close>

lemma paged_api_complete:
  assumes "pages \<noteq> []" "list_all (\<lambda>p. 100 \<le> length p) (butlast pages)" "length (last pages) < 100"
    "answers_pages env path 1 w pages w'"
  shows "paged_api env path w = Some (Inr (objects_of (concat pages)), w')"
  using paged_from [OF assms, of "[]"] by (simp add: paged_api_def)

lemma paged_api_complete_example:
  "paged_api script_env ''/repos/o/r/pulls?state=open'' [JArr (replicate 100 (JObj [])), JArr [JObj [(''title'', JStr ''x'')]]] =
     Some (Inr (replicate 100 [] @ [[(''title'', JStr ''x'')]]), [])"
proof -
  let ?full = "replicate 100 (JObj [])"
  let ?pages = "[?full, [JObj [(''title'', JStr ''x'')]]]"
  have docs: "document (JArr ?full)" "document (JArr [JObj [(''title'', JStr ''x'')]])"
    by (auto simp: document_def list_all_iff)
  have "objects_of ?full = replicate 100 []"
    unfolding objects_of_def List.map_filter_def by (simp only: filter_replicate map_replicate) simp
  then have res: "objects_of (concat ?pages) = replicate 100 [] @ [[(''title'', JStr ''x'')]]"
    by (simp only: concat.simps objects_of_append objects_of_Nil append_Nil2) (simp add: objects_of_def List.map_filter_def)
  have "answers_pages script_env ''/repos/o/r/pulls?state=open'' 1 (map JArr ?pages) ?pages []"
    using docs by (simp only: answers_pages.simps list.map script_api option.case prod.case sum.case)
  from paged_api_complete [OF _ _ _ this] res show ?thesis by simp
qed

section \<open>The exit status\<close>

lemma sync_pr_outcome:
  "sync_pr env args allowed repo n w = Some (Inr (classified, failed), w') \<Longrightarrow>
   classified \<or> failed \<or> arg_tolerate_read_errors args"
  by (auto simp: sync_pr_def Let_def gh_bind_def gh_catch_def gh_ret_def print_line_def
      split: option.splits sum.splits gh_exc.splits prod.splits)

text \<open>Without tolerance of read errors, a pass that fails nowhere has classified every pull request.\<close>

lemma sync_prs_outcome:
  "sync_prs env args allowed repo ns w = Some (Inr (count, False), w') \<Longrightarrow>
   count \<le> length ns \<and> (arg_tolerate_read_errors args \<or> count = length ns)"
proof (induction ns arbitrary: w count)
  case (Cons n ns)
  from Cons.prems obtain c w1 k where
    "sync_pr env args allowed repo n w = Some (Inr (c, False), w1)"
    "sync_prs env args allowed repo ns w1 = Some (Inr (k, False), w')" "count = of_bool c + k"
    by (auto simp: prog_simps)
  with Cons.IH [OF this(2)] sync_pr_outcome [of env args allowed repo n w c False w1] show ?case by auto
qed (simp add: prog_simps)

lemma sync_repo_outcome:
  assumes "sync_repo env args allowed repo w = Some (Inr False, w')"
  shows "\<exists>numbers w1 w2 count. numbers \<noteq> [] \<and>
           sync_prs env args allowed repo (sort (remdups numbers)) w1 = Some (Inr (count, False), w2) \<and>
           0 < count \<and> (arg_tolerate_read_errors args \<or> count = card (set numbers))"
proof -
  from assms obtain numbers w1 count w2 where n: "numbers \<noteq> []"
    "sync_prs env args allowed repo (sort (remdups numbers)) w1 = Some (Inr (count, False), w2)"
    "\<not> (arg_tolerate_read_errors args \<and> count = 0)"
    by (auto simp: sync_repo_def Let_def prog_simps split: if_splits)
  have "arg_tolerate_read_errors args \<or> count = card (set numbers)"
    using sync_prs_outcome [OF n(2)] by (simp add: card_set)
  moreover from this n(1,3) have "0 < count" by (auto simp: card_gt_0_iff)
  ultimately show ?thesis using n by blast
qed

text \<open>What a run with status 0 has done for a repository.\<close>

definition repo_synced :: "('w, 'z) gh_env_scheme \<Rightarrow> sync_args \<Rightarrow> string \<Rightarrow> bool" where
  "repo_synced env args repo =
     (\<exists>numbers w1 w2 count. numbers \<noteq> [] \<and>
        sync_prs env args (CODEX_REVIEW_AUTHORS @ arg_reviewer_logins args) repo (sort (remdups numbers)) w1 =
          Some (Inr (count, False), w2) \<and>
        0 < count \<and> (arg_tolerate_read_errors args \<or> count = card (set numbers)))"

lemma sync_repos_outcome:
  "sync_repos env args (CODEX_REVIEW_AUTHORS @ arg_reviewer_logins args) repos w = Some (Inr False, w') \<Longrightarrow>
   list_all (repo_synced env args) repos"
proof (induction repos arbitrary: w)
  case (Cons repo repos)
  from Cons.prems obtain w1 where
    "sync_repo env args (CODEX_REVIEW_AUTHORS @ arg_reviewer_logins args) repo w = Some (Inr False, w1)"
    "sync_repos env args (CODEX_REVIEW_AUTHORS @ arg_reviewer_logins args) repos w1 = Some (Inr False, w')"
    by (auto simp: prog_simps)
  with Cons.IH [OF this(2)] sync_repo_outcome [OF this(1)] show ?case by (simp add: repo_synced_def)
qed simp

text \<open>A run ends with status 0 only when every repository named had pull requests selected, at least one
  of them was classified, and without tolerance of read errors all of them were: a run in which GitHub
  could be read for no pull request is never green.\<close>

lemma exit_zero_means_classified:
  assumes "sync_main env args w = Some (Inr 0, w')"
  shows "\<exists>repos. res_map repo_path (arg_repos args) = Inr repos \<and> list_all (repo_synced env args) repos"
proof -
  from assms obtain repos w1 had_error where
    "gh_of (py_of (res_map repo_path (arg_repos args))) w = Some (Inr repos, w1)"
    "sync_repos env args (CODEX_REVIEW_AUTHORS @ arg_reviewer_logins args) repos w1 = Some (Inr had_error, w')"
    "0 = (if had_error then 1 else 0 :: int)"
    unfolding sync_main_def gh_bind_Inr gh_ret_eq by auto
  moreover from this(1) have "res_map repo_path (arg_repos args) = Inr repos"
    by (cases "res_map repo_path (arg_repos args)") (auto simp: gh_of_def py_of_def)
  ultimately show ?thesis using sync_repos_outcome [of env args repos w1 w'] by (auto split: if_splits)
qed

lemma exit_zero_means_classified_example:
  "sync_main script_env dry_args sample_script = Some (Inr 0, []) \<and>
   list_all (repo_synced script_env dry_args) [''o/r'']"
proof -
  have path: "repo_path ''o/r'' = Inr ''o/r''" by code_simp
  have print1: "print_line script_env l v = Some (Inr (), v)" for l v by (simp add: print_line_def script_env_def)
  have print: "print_lines script_env ls v = Some (Inr (), v)" for ls v
    by (induction ls) (auto simp: gh_ret_def gh_bind_def print_line_def script_env_def)
  have catch: "m v = Some (Inr x, v') \<Longrightarrow> gh_catch m h v = Some (Inr x, v')" for m :: "(json list, 'a) prog" and x v v' h
    by (simp add: gh_catch_def)
  have sel: "arg_repos dry_args = [''o/r'']" "arg_prs dry_args = [1]" "\<not> arg_all_open dry_args" "\<not> arg_apply dry_args"
    "\<not> arg_tolerate_read_errors dry_args" "arg_reviewer_logins dry_args = []" by (simp_all add: dry_args_def)
  let ?d = "decision script_env False ''o/r'' 1 sample_evidence []"
  have "sync_pr script_env dry_args CODEX_REVIEW_AUTHORS ''o/r'' 1 sample_script = Some (Inr (True, False), [])"
  proof -
    have "decide_pr script_env ''o/r'' 1 CODEX_REVIEW_AUTHORS (arg_ignore_checks dry_args) sample_script = Some (Inr ?d, [])"
      using sample_decision [of "[]"] by (simp add: dry_args_def)
    then have d: "gh_catch (gh_bind (decide_pr script_env ''o/r'' 1 CODEX_REVIEW_AUTHORS (arg_ignore_checks dry_args))
        (\<lambda>d. gh_ret (Inr d))) h sample_script = Some (Inr (Inr ?d :: bool + sync_decision), [])" for h
      by (intro catch) (simp add: gh_bind_ok gh_ret_def)
    show ?thesis
      unfolding sync_pr_def Let_def gh_bind_ok [where m = "gh_catch _ _", OF d]
      by (simp add: dry_args_def apply_writes_def) (rule catch, simp add: gh_bind_ok gh_ret_def print1 print)
  qed
  then have "sync_main script_env dry_args sample_script = Some (Inr 0, [])"
    by (simp add: sync_main_def sel path py_of_def gh_bind_def gh_of_def sync_repo_def ensure_label_def Let_def
        gh_ret_def print)
  with exit_zero_means_classified [OF this] show ?thesis by (simp add: dry_args_def path)
qed

end
