(* ===== verification/Contributors.thy ===== *)
theory Contributors
  imports CodexReview Paging
begin

text \<open>
  The check that everyone who contributed is listed (\<open>src/.github/scripts/check_all_contributors.py\<close>).
  The HTTP requests, \<open>git log\<close>, the event file and the configuration file are arguments: a request is
  a function from an address and a world to a page with its Link header.
\<close>

section \<open>Requests\<close>

datatype contrib_exc = SystemExit string | Crash pyexc

datatype http_page = HttpError int string | HttpPage json "string option"

text \<open>A world of requests: the answer to an address; \<open>NotReached\<close> is an error that is not handled.\<close>

type_synonym 'w http = "string \<Rightarrow> 'w \<Rightarrow> http_page \<times> 'w"

definition crash_of :: "'a res \<Rightarrow> contrib_exc + 'a" where
  "crash_of r = map_sum Crash id r"

text \<open>The address of the next page: the part of the header whose relation is next.\<close>

fun next_link_of :: "string list \<Rightarrow> string option" where
  "next_link_of [] = None"
| "next_link_of (part # parts) =
     (case split_on (CHR '';'') (strip part) of
        [url_part, rel_part] \<Rightarrow>
          if strip rel_part = ''rel='' @ [CHR 34] @ ''next'' @ [CHR 34] then Some (butlast (tl (strip url_part)))
          else next_link_of parts
      | _ \<Rightarrow> next_link_of parts)"

definition next_link :: "string option \<Rightarrow> string option" where
  "next_link link_header =
     (case link_header of
        None \<Rightarrow> None
      | Some h \<Rightarrow> if h = [] then None else next_link_of (split_on (CHR '','') h))"

section \<open>Logins\<close>

text \<open>The login of an account that is a person: \<open>None\<close> for a bot or a value without a login.\<close>

definition human_login :: "jobj \<Rightarrow> string option" where
  "human_login account =
     (case jget account ''login'' of
        JStr login \<Rightarrow>
          if jget account ''type'' = JStr ''Bot'' \<or> endswith login ''[bot]'' then None else Some (lower login)
      | _ \<Rightarrow> None)"

text \<open>A contributor is itself the account, a commit has it as its author.\<close>

definition contributor_login :: "json \<Rightarrow> string option res" where
  "contributor_login v = (case v of JObj ob \<Rightarrow> Inr (human_login ob) | _ \<Rightarrow> Inl AttributeError)"

definition commit_author_login :: "json \<Rightarrow> string option res" where
  "commit_author_login v =
     (case v of
        JObj ob \<Rightarrow> Inr (case jget ob ''author'' of JObj author \<Rightarrow> human_login author | _ \<Rightarrow> None)
      | _ \<Rightarrow> Inl AttributeError)"

definition page_logins :: "(json \<Rightarrow> string option res) \<Rightarrow> json \<Rightarrow> string list res" where
  "page_logins login_of payload =
     res_bind (py_iter payload) (\<lambda>items. res_bind (res_map login_of items) (\<lambda>ls. Inr (List.map_filter id ls)))"

text \<open>
  The loop over the pages, while there is an address: the state is the address and the logins so far.
  An address that is empty ends the loop like a missing one.
\<close>

definition logins_step ::
  "string \<Rightarrow> (json \<Rightarrow> string option res) \<Rightarrow> string \<times> string list \<Rightarrow> http_page \<Rightarrow> contrib_exc + (string \<times> string list + string list)" where
  "logins_step what login_of st answer =
     (case answer of
        HttpError code detail \<Rightarrow>
          Inl (SystemExit (''GitHub '' @ what @ '' request failed: HTTP '' @ py_str_int code @ '': '' @ detail))
      | HttpPage payload link \<Rightarrow>
          res_bind (crash_of (page_logins login_of payload)) (\<lambda>ls.
            Inr (case next_link link of
                   None \<Rightarrow> Inr (snd st @ ls)
                 | Some url \<Rightarrow> if url = [] then Inr (snd st @ ls) else Inl (url, snd st @ ls))))"

definition logins_loop ::
  "'w http \<Rightarrow> string \<Rightarrow> (json \<Rightarrow> string option res) \<Rightarrow> string \<Rightarrow> 'w \<Rightarrow> ((contrib_exc + string list) \<times> 'w) option" where
  "logins_loop http what login_of url =
     page_loop (\<lambda>(url, ls) w. case http url w of (answer, w') \<Rightarrow> Some (Inr answer, w')) (logins_step what login_of) (url, [])"

definition fetch_contributor_logins ::
  "'w http \<Rightarrow> string \<Rightarrow> 'w \<Rightarrow> ((contrib_exc + string list) \<times> 'w) option" where
  "fetch_contributor_logins http repository =
     logins_loop http ''contributors'' contributor_login
       (''https://api.github.com/repos/'' @ repository @ ''/contributors?per_page=100&anon=false'')"

section \<open>Local commits\<close>

text \<open>\<open>^(?:\d+\+)?([^@]+)@users\.noreply\.github\.com$\<close>: a leading number and plus sign go, unless nothing is left.\<close>

definition noreply_login :: "string \<Rightarrow> string option" where
  "noreply_login email =
     (let user = takeWhile (\<lambda>c. c \<noteq> CHR ''@'') email; domain = dropWhile (\<lambda>c. c \<noteq> CHR ''@'') email;
          digits = takeWhile is_dec user; rest = dropWhile is_dec user
      in if domain \<noteq> ''@users.noreply.github.com'' \<or> user = [] then None
         else if digits \<noteq> [] \<and> rest \<noteq> [] \<and> hd rest = CHR ''+'' \<and> tl rest \<noteq> [] then Some (tl rest)
         else Some user)"

definition email_login :: "string \<Rightarrow> string option" where
  "email_login email =
     (case noreply_login (strip email) of
        None \<Rightarrow> None
      | Some login \<Rightarrow> if endswith login ''[bot]'' then None else Some (lower login))"

text \<open>The output of \<open>git log --format=%ae\<close>, or the message of its failure.\<close>

definition local_commit_author_logins :: "string + string \<Rightarrow> contrib_exc + string list" where
  "local_commit_author_logins git_log =
     (case git_log of
        Inl stderr \<Rightarrow> Inl (SystemExit (''git log failed: '' @ stderr))
      | Inr out \<Rightarrow> Inr (List.map_filter email_login (split_lines out)))"

section \<open>The pull request of the event\<close>

text \<open>The parsed event file; \<open>None\<close> when no event path is set or the file is missing.\<close>

definition pull_request_event :: "json option \<Rightarrow> jobj option res" where
  "pull_request_event event =
     (case event of
        None \<Rightarrow> Inr None
      | Some (JObj ob) \<Rightarrow> Inr (case jget ob ''pull_request'' of JObj pr \<Rightarrow> Some pr | _ \<Rightarrow> None)
      | Some _ \<Rightarrow> Inl AttributeError)"

definition pull_request_author_login :: "json option \<Rightarrow> string list res" where
  "pull_request_author_login event =
     res_bind (pull_request_event event) (\<lambda>pr.
       Inr (case pr of
              None \<Rightarrow> []
            | Some ob \<Rightarrow>
                (case jget ob ''user'' of
                   JObj user \<Rightarrow> (case human_login user of None \<Rightarrow> [] | Some login \<Rightarrow> [login])
                 | _ \<Rightarrow> [])))"

definition too_many_commits :: string where
  "too_many_commits =
     ''Pull request has more than 250 commits; GitHub's PR commits endpoint is capped, so all-contributors coverage cannot be validated safely.''"

definition pull_request_commit_author_logins ::
  "'w http \<Rightarrow> json option \<Rightarrow> 'w \<Rightarrow> ((contrib_exc + string list) \<times> 'w) option" where
  "pull_request_commit_author_logins http event w =
     (case pull_request_event event of
        Inl e \<Rightarrow> Some (Inl (Crash e), w)
      | Inr None \<Rightarrow> Some (Inr [], w)
      | Inr (Some pr) \<Rightarrow>
          if (case json_int (jget pr ''commits'') of Some n \<Rightarrow> 250 < n | None \<Rightarrow> False)
          then Some (Inl (SystemExit too_many_commits), w)
          else (case nonempty_str (jget pr ''commits_url'') of
                  None \<Rightarrow> Some (Inr [], w)
                | Some url \<Rightarrow> logins_loop http ''PR commits'' commit_author_login (url @ ''?per_page=100'') w))"

section \<open>The check\<close>

definition load_all_contributors :: "json \<Rightarrow> string list res" where
  "load_all_contributors data =
     (case data of
        JObj ob \<Rightarrow>
          res_bind (py_iter (jget_or ob ''contributors'' (JArr []))) (\<lambda>items.
            Inr (List.map_filter (\<lambda>v. case v of
                JObj c \<Rightarrow> (case jget c ''login'' of JStr login \<Rightarrow> Some (lower login) | _ \<Rightarrow> None)
              | _ \<Rightarrow> None) items))
      | _ \<Rightarrow> Inl AttributeError)"

text \<open>The status and the missing logins, in order. \<open>config\<close> is the parsed configuration file.\<close>

definition contributors_main ::
  "'w http \<Rightarrow> string \<Rightarrow> string + string \<Rightarrow> json option \<Rightarrow> json \<Rightarrow> 'w \<Rightarrow> ((contrib_exc + int \<times> string list) \<times> 'w) option" where
  "contributors_main http repo git_log event config w =
     (case fetch_contributor_logins http repo w of
        None \<Rightarrow> None
      | Some (Inl e, w1) \<Rightarrow> Some (Inl e, w1)
      | Some (Inr fetched, w1) \<Rightarrow>
          (case res_bind (local_commit_author_logins git_log) (\<lambda>local.
                  res_bind (crash_of (pull_request_author_login event)) (\<lambda>author. Inr (local @ author))) of
             Inl e \<Rightarrow> Some (Inl e, w1)
           | Inr known \<Rightarrow>
               (case pull_request_commit_author_logins http event w1 of
                  None \<Rightarrow> None
                | Some (Inl e, w2) \<Rightarrow> Some (Inl e, w2)
                | Some (Inr commits, w2) \<Rightarrow>
                    (case load_all_contributors config of
                       Inl e \<Rightarrow> Some (Inl (Crash e), w2)
                     | Inr recorded \<Rightarrow>
                         let missing = sort (remdups (filter (\<lambda>login. login \<notin> set recorded) (fetched @ known @ commits)))
                         in Some (Inr (if missing = [] then 0 else 1, missing), w2)))))"

section \<open>Every page counts\<close>

text \<open>The server answers with the pages, each but the last linking to the next.\<close>

fun page_chain :: "'w http \<Rightarrow> string \<Rightarrow> 'w \<Rightarrow> json list \<Rightarrow> 'w \<Rightarrow> bool" where
  "page_chain http url w [] w' = False"
| "page_chain http url w (p # ps) w' =
     (\<exists>link w1. http url w = (HttpPage p link, w1) \<and>
        (if ps = [] then (next_link link = None \<or> next_link link = Some []) \<and> w' = w1
         else \<exists>url'. next_link link = Some url' \<and> url' \<noteq> [] \<and> page_chain http url' w1 ps w'))"

lemma logins_step_page:
  assumes "page_logins login_of p = Inr l"
  shows "logins_step what login_of (url, ls) (HttpPage p link) =
    Inr (case next_link link of
           None \<Rightarrow> Inr (ls @ l)
         | Some url' \<Rightarrow> if url' = [] then Inr (ls @ l) else Inl (url', ls @ l))"
  using assms by (simp add: logins_step_def crash_of_def split: option.split)

lemma logins_loop_from:
  assumes "page_chain http url w pages w'" "res_map (page_logins login_of) pages = Inr lss"
  shows "page_loop (\<lambda>(url, ls) w. case http url w of (answer, w') \<Rightarrow> Some (Inr answer, w')) (logins_step what login_of) (url, ls) w =
           Some (Inr (ls @ concat lss), w')"
  using assms
proof (induction pages arbitrary: url w ls lss)
  case (Cons p ps)
  from Cons.prems(2) obtain l lss' where l: "page_logins login_of p = Inr l" "res_map (page_logins login_of) ps = Inr lss'"
    "lss = l # lss'" by (auto simp: res_bind_eq_Inr)
  from Cons.prems(1) obtain link w1 where h: "http url w = (HttpPage p link, w1)" by auto
  show ?case
  proof (cases "ps = []")
    case True
    with Cons.prems(1) h have "next_link link = None \<or> next_link link = Some []" "w' = w1" by auto
    with True h l show ?thesis by (subst page_loop.simps) (auto simp: logins_step_page)
  next
    case False
    with Cons.prems(1) h obtain url' where "next_link link = Some url'" "url' \<noteq> []" "page_chain http url' w1 ps w'" by auto
    with Cons.IH [OF this(3) l(2), of "ls @ l"] h l show ?thesis
      by (subst page_loop.simps) (simp add: logins_step_page)
  qed
qed simp

text \<open>The logins of a paged list are those of all its pages, in order: the loop follows the links to the end.\<close>

lemma logins_loop_complete:
  assumes "page_chain http url w pages w'" "res_map (page_logins login_of) pages = Inr lss"
  shows "logins_loop http what login_of url w = Some (Inr (concat lss), w')"
  using logins_loop_from [OF assms, of what "[]"] by (simp add: logins_loop_def)

section \<open>What the status says\<close>

text \<open>
  The status is 0 just when every login that was found is recorded, and the list that is printed with
  status 1 is exactly the logins that are not, sorted and each once.
\<close>

lemma contributors_main_status:
  assumes "contributors_main http repo git_log event config w = Some (Inr (status, missing), w')"
  shows "\<exists>fetched w1 local author commits recorded.
           fetch_contributor_logins http repo w = Some (Inr fetched, w1) \<and>
           local_commit_author_logins git_log = Inr local \<and> pull_request_author_login event = Inr author \<and>
           pull_request_commit_author_logins http event w1 = Some (Inr commits, w') \<and>
           load_all_contributors config = Inr recorded \<and>
           set missing = set fetched \<union> set local \<union> set author \<union> set commits - set recorded \<and>
           sorted missing \<and> distinct missing \<and> (status = 0 \<longleftrightarrow> missing = [])"
proof -
  from assms obtain fetched w1 where f: "fetch_contributor_logins http repo w = Some (Inr fetched, w1)"
    by (auto simp: contributors_main_def split: option.splits sum.splits)
  from assms f obtain local where l: "local_commit_author_logins git_log = Inr local"
    by (cases "local_commit_author_logins git_log") (auto simp: contributors_main_def)
  from assms f l obtain author where a: "pull_request_author_login event = Inr author"
    by (cases "pull_request_author_login event") (auto simp: contributors_main_def crash_of_def)
  from assms f l a obtain commits w2 where c: "pull_request_commit_author_logins http event w1 = Some (Inr commits, w2)"
    by (auto simp: contributors_main_def crash_of_def split: option.splits sum.splits)
  from assms f l a c obtain recorded where r: "load_all_contributors config = Inr recorded"
    by (cases "load_all_contributors config") (auto simp: contributors_main_def crash_of_def)
  define gone where "gone = sort (remdups (filter (\<lambda>login. login \<notin> set recorded) (fetched @ (local @ author) @ commits)))"
  from assms f l a c r have m: "missing = gone" "status = (if gone = [] then 0 else 1)" "w2 = w'"
    by (auto simp: contributors_main_def crash_of_def Let_def gone_def)
  have "set gone = set fetched \<union> set local \<union> set author \<union> set commits - set recorded" "sorted gone" "distinct gone"
    by (auto simp: gone_def)
  with m f l a c r show ?thesis by (metis one_neq_zero)
qed

section \<open>Examples\<close>

lemma next_link_examples:
  "next_link (Some (''<https://a/2>; rel='' @ [CHR 34] @ ''next'' @ [CHR 34] @ '', <https://a/9>; rel='' @ [CHR 34] @ ''last'' @ [CHR 34])) =
     Some ''https://a/2''"
  "next_link (Some (''<https://a/1>; rel='' @ [CHR 34] @ ''prev'' @ [CHR 34])) = None"
  by code_simp+

lemma noreply_examples:
  "noreply_login ''1+me@users.noreply.github.com'' = Some ''me''"
  "noreply_login ''1+@users.noreply.github.com'' = Some ''1+''"
  "noreply_login ''me@example.com'' = None"
  by code_simp+

end
