(* ===== verification/AgentHooks.thy ===== *)
theory AgentHooks
  imports CodexReview
begin

text \<open>
  The hooks that run around the edits of a coding agent in the repository
  (\<open>src/.agents/hooks/\<close>): \<open>skill_guard.py\<close> blocks an edit until a skill was used,
  \<open>skill_tracker.py\<close> records that one was, \<open>skill_activation.py\<close> suggests skills for a prompt and
  \<open>post_edit_tracker.py\<close> records the edited code files. A hook gets a JSON document and ends with
  an exit status; the files it reads and writes are the state. Regular expressions come from the rules
  file, so their search is a parameter, and the analytics module is not in the repository: its
  fallback does nothing.
\<close>

section \<open>Matching of file names\<close>

text \<open>
  \<open>fnmatch.fnmatch\<close> on Linux: \<open>*\<close> is any text, also across slashes, \<open>?\<close> one character, and a
  bracket a set, or its complement after an exclamation mark, with ranges. A bracket without an end
  is a character. The Python module turns the pattern into a regular expression for this.
\<close>

fun in_char_set :: "char \<Rightarrow> string \<Rightarrow> bool" where
  "in_char_set c (a # m # b # r) =
     (if m = CHR ''-'' then (code_point a \<le> code_point c \<and> code_point c \<le> code_point b) \<or> in_char_set c r
      else c = a \<or> in_char_set c (m # b # r))"
| "in_char_set c [a, b] = (c = a \<or> c = b)"
| "in_char_set c [a] = (c = a)"
| "in_char_set c [] = False"

text \<open>The set of a bracket and the pattern after it; a bracket that closes at once is part of the set.\<close>

definition bracket_set :: "string \<Rightarrow> (bool \<times> string \<times> string) option" where
  "bracket_set r =
     (let neg = (r \<noteq> [] \<and> hd r = CHR ''!''); r1 = (if neg then tl r else r);
          lead = (if r1 \<noteq> [] \<and> hd r1 = CHR '']'' then [CHR '']''] else []); r2 = drop (length lead) r1;
          body = takeWhile (\<lambda>c. c \<noteq> CHR '']'') r2
      in case dropWhile (\<lambda>c. c \<noteq> CHR '']'') r2 of
           [] \<Rightarrow> None
         | _ # rest \<Rightarrow> Some (neg, lead @ body, rest))"

lemma bracket_set_length: "bracket_set r = Some (neg, chars, rest) \<Longrightarrow> length rest < length r"
proof -
  assume *: "bracket_set r = Some (neg, chars, rest)"
  let ?r1 = "if r \<noteq> [] \<and> hd r = CHR ''!'' then tl r else r"
  let ?r2 = "drop (length (if ?r1 \<noteq> [] \<and> hd ?r1 = CHR '']'' then [CHR '']''] else [])) ?r1"
  obtain d where d: "dropWhile (\<lambda>c. c \<noteq> CHR '']'') ?r2 = d # rest"
    using * by (auto simp: bracket_set_def Let_def split: list.splits)
  have "length (d # rest) \<le> length ?r2" using length_dropWhile_le [of "\<lambda>c. c \<noteq> CHR '']''" ?r2] d by simp
  also have "\<dots> \<le> length ?r1" by simp
  also have "\<dots> \<le> length r" by simp
  finally show ?thesis by simp
qed

function fnmatch :: "string \<Rightarrow> string \<Rightarrow> bool" where
  "fnmatch s [] = (s = [])"
| "fnmatch [] (p # ps) = (p = CHR ''*'' \<and> fnmatch [] ps)"
| "fnmatch (c # r) (p # ps) =
     (if p = CHR ''*'' then fnmatch (c # r) ps \<or> fnmatch r (p # ps)
      else if p = CHR ''?'' then fnmatch r ps
      else if p = CHR ''['' then
        (case bracket_set ps of
           None \<Rightarrow> c = p \<and> fnmatch r ps
         | Some (neg, chars, rest) \<Rightarrow> in_char_set c chars \<noteq> neg \<and> fnmatch r rest)
      else c = p \<and> fnmatch r ps)"
  by pat_completeness auto
termination
  by (relation "measure (\<lambda>(s, p). length s + length p)") (auto dest: bracket_set_length)

section \<open>Documents and files\<close>

text \<open>
  The content of a state file: a document, or text that is no JSON. Writing a document with \<open>json.dump\<close>
  and reading it back gives the document.
\<close>

datatype state_text = Doc json | Broken

text \<open>The state directory by file name, the files of the project, and the environment.\<close>

record hook_files =
  hf_state :: "string \<Rightarrow> state_text option"
  hf_text :: "string \<Rightarrow> string option"
  hf_env :: "string \<Rightarrow> string option"

text \<open>What a hook does in the end: a status, with the message it prints on standard error.\<close>

datatype hook_message = NoMessage | CustomMessage json | GuardMessage string | RemindMessage string

definition obj_of :: "json \<Rightarrow> jobj res" where
  "obj_of v = (case v of JObj ob \<Rightarrow> Inr ob | _ \<Rightarrow> Inl AttributeError)"

text \<open>\<open>str(v)\<close> for the names of state files; \<open>pstr\<close> prints what is neither text nor a number.\<close>

definition hook_str :: "(json \<Rightarrow> string) \<Rightarrow> json \<Rightarrow> string" where
  "hook_str pstr v = (case v of JStr s \<Rightarrow> s | JInt n \<Rightarrow> py_str_int n | _ \<Rightarrow> pstr v)"

text \<open>\<open>name in value\<close>: a member of a list, a part of a text, a key of a dictionary.\<close>

definition py_in :: "json \<Rightarrow> json \<Rightarrow> bool res" where
  "py_in x v =
     (case v of
        JArr xs \<Rightarrow> Inr (list_ex (\<lambda>y. json_eq y x) xs)
      | JStr s \<Rightarrow> (case x of JStr sub \<Rightarrow> Inr (str_in sub s) | _ \<Rightarrow> Inl TypeError)
      | JObj ob \<Rightarrow> (case x of JStr k \<Rightarrow> Inr (map_of ob k \<noteq> None) | JArr _ \<Rightarrow> Inl TypeError | JObj _ \<Rightarrow> Inl TypeError
                    | _ \<Rightarrow> Inr False)
      | _ \<Rightarrow> Inl TypeError)"

text \<open>\<open>any(test(p) for p in patterns)\<close>: the first hit ends it, a pattern that is no text raises.\<close>

fun any_pattern :: "(string \<Rightarrow> bool) \<Rightarrow> json list \<Rightarrow> bool res" where
  "any_pattern test [] = Inr False"
| "any_pattern test (p # ps) =
     (case p of JStr s \<Rightarrow> if test s then Inr True else any_pattern test ps | _ \<Rightarrow> Inl TypeError)"

section \<open>The guard\<close>

definition skills_used_file :: "(json \<Rightarrow> string) \<Rightarrow> json \<Rightarrow> string" where
  "skills_used_file pstr session_id = ''skills-used-'' @ hook_str pstr session_id @ ''.json''"

definition default_session :: json where
  "default_session = JObj [(''suggestedSkills'', JArr []), (''usedSkills'', JArr [])]"

definition load_session_state :: "(json \<Rightarrow> string) \<Rightarrow> hook_files \<Rightarrow> json \<Rightarrow> json" where
  "load_session_state pstr files session_id =
     (case hf_state files (skills_used_file pstr session_id) of Some (Doc v) \<Rightarrow> v | _ \<Rightarrow> default_session)"

text \<open>The path of the edited file is a value of the input: only a text can be matched or opened.\<close>

definition match_path_patterns :: "json \<Rightarrow> json \<Rightarrow> bool res" where
  "match_path_patterns file_path patterns =
     res_bind (py_iter patterns) (\<lambda>ps.
       case file_path of
         JStr s \<Rightarrow> any_pattern (fnmatch s) ps
       | _ \<Rightarrow> if ps = [] then Inr False else Inl TypeError)"

text \<open>A test on the text of the file, false when the file cannot be read.\<close>

definition match_file :: "(string \<Rightarrow> string \<Rightarrow> bool) \<Rightarrow> hook_files \<Rightarrow> json \<Rightarrow> json \<Rightarrow> bool res" where
  "match_file test files file_path patterns =
     (case file_path of
        JStr s \<Rightarrow>
          (case hf_text files s of
             None \<Rightarrow> Inr False
           | Some content \<Rightarrow> res_bind (py_iter patterns) (any_pattern (\<lambda>p. test p content)))
      | _ \<Rightarrow> Inl TypeError)"

definition check_pass_state :: "hook_files \<Rightarrow> json \<Rightarrow> bool res" where
  "check_pass_state files pass_state_file =
     (case pass_state_file of
        JStr name \<Rightarrow>
          (case hf_state files name of
             Some (Doc v) \<Rightarrow> res_bind (obj_of v) (\<lambda>data. Inr (jget data ''result'' = JStr ''PASS''))
           | _ \<Rightarrow> Inr False)
      | _ \<Rightarrow> Inl TypeError)"

definition env_set :: "hook_files \<Rightarrow> json \<Rightarrow> bool res" where
  "env_set files env_override =
     (if \<not> truthy env_override then Inr False
      else case env_override of
             JStr name \<Rightarrow> Inr (case hf_env files name of Some v \<Rightarrow> v \<noteq> [] | None \<Rightarrow> False)
           | _ \<Rightarrow> Inl TypeError)"

text \<open>\<open>a and f()\<close> where the second part can raise.\<close>

definition and_then :: "bool \<Rightarrow> bool res \<Rightarrow> bool res" where
  "and_then b m = (if b then m else Inr False)"

definition or_else :: "bool res \<Rightarrow> bool res \<Rightarrow> bool res" where
  "or_else m m' = res_bind m (\<lambda>b. if b then Inr True else m')"

text \<open>The rule's file triggers apply to the edited file.\<close>

definition triggered :: "(string \<Rightarrow> string \<Rightarrow> bool) \<Rightarrow> hook_files \<Rightarrow> json \<Rightarrow> jobj \<Rightarrow> bool res" where
  "triggered re_search files file_path triggers =
     (let exclusions = jget_or triggers ''pathExclusions'' (JArr []); contents = jget_or triggers ''contentPatterns'' (JArr [])
      in res_bind (match_path_patterns file_path (jget_or triggers ''pathPatterns'' (JArr []))) (\<lambda>hit.
         if \<not> hit then Inr False
         else
           res_bind (and_then (truthy exclusions) (match_path_patterns file_path exclusions)) (\<lambda>excluded.
             if excluded then Inr False
             else if \<not> truthy contents then Inr True
             else match_file re_search files file_path contents)))"

definition session_skill_used :: "json \<Rightarrow> string \<Rightarrow> jobj \<Rightarrow> bool res" where
  "session_skill_used session_state name skip =
     and_then (truthy (jget skip ''sessionSkillUsed''))
       (res_bind (obj_of session_state) (\<lambda>st. py_in (JStr name) (jget_or st ''usedSkills'' (JArr []))))"

text \<open>The skip conditions of a guardrail, in their order, and the two that a reminder looks at.\<close>

definition guard_skipped :: "hook_files \<Rightarrow> json \<Rightarrow> json \<Rightarrow> string \<Rightarrow> jobj \<Rightarrow> bool res" where
  "guard_skipped files session_state file_path name skip =
     or_else (and_then (truthy (jget skip ''passStateFile'')) (check_pass_state files (jget skip ''passStateFile'')))
    (or_else (session_skill_used session_state name skip)
    (or_else (and_then (truthy (jget_or skip ''fileMarkers'' (JArr [])))
                (match_file str_in files file_path (jget_or skip ''fileMarkers'' (JArr []))))
       (env_set files (jget skip ''envOverride''))))"

definition remind_skipped :: "hook_files \<Rightarrow> json \<Rightarrow> string \<Rightarrow> jobj \<Rightarrow> bool res" where
  "remind_skipped files session_state name skip =
     or_else (session_skill_used session_state name skip) (env_set files (jget skip ''envOverride''))"

text \<open>The first rule that is triggered and not skipped; \<open>skipped\<close> is the test of the phase.\<close>

fun first_block ::
  "(jobj \<Rightarrow> bool res) \<Rightarrow> (string \<Rightarrow> jobj \<Rightarrow> bool res) \<Rightarrow> (string \<times> jobj) list \<Rightarrow> (string \<times> jobj) option res" where
  "first_block trig skipped [] = Inr None"
| "first_block trig skipped ((name, rule) # rules) =
     (if \<not> truthy (jget rule ''fileTriggers'') then first_block trig skipped rules
      else
        res_bind (obj_of (jget rule ''fileTriggers'')) (\<lambda>triggers.
        res_bind (trig triggers) (\<lambda>hit.
          if \<not> hit then first_block trig skipped rules
          else
            res_bind (obj_of (jget_or rule ''skipConditions'' (JObj []))) (\<lambda>skip.
            res_bind (skipped name skip) (\<lambda>sk.
              if sk then first_block trig skipped rules else Inr (Some (name, rule)))))))"

definition block_message :: "jobj \<Rightarrow> hook_message \<Rightarrow> hook_message" where
  "block_message rule dflt = (case map_of rule ''blockMessage'' of Some v \<Rightarrow> CustomMessage v | None \<Rightarrow> dflt)"

definition rule_list :: "jobj \<Rightarrow> (string \<times> jobj) list res" where
  "rule_list skills = res_map (\<lambda>(name, v). res_bind (obj_of v) (\<lambda>rule. Inr (name, rule))) skills"

text \<open>
  The hook: \<open>Inl\<close> an uncaught exception, otherwise the status and the message. \<open>rules_doc\<close> is the
  rules file, \<open>None\<close> when it is missing or no JSON.
\<close>

definition skill_guard ::
  "(json \<Rightarrow> string) \<Rightarrow> (string \<Rightarrow> string \<Rightarrow> bool) \<Rightarrow> hook_files \<Rightarrow> json option \<Rightarrow> json option \<Rightarrow> (int \<times> hook_message) res" where
  "skill_guard pstr re_search files rules_doc stdin =
     (case stdin of
        None \<Rightarrow> Inr (0, NoMessage)
      | Some doc \<Rightarrow>
          res_bind (obj_of doc) (\<lambda>input.
          res_bind (obj_of (jget_or input ''tool_input'' (JObj []))) (\<lambda>tool_input.
            let session_id = jget_or input ''session_id'' (JStr ''unknown'');
                file_path = jget_or tool_input ''file_path'' (JStr [])
            in if \<not> truthy file_path then Inr (0, NoMessage)
               else case rules_doc of
                      None \<Rightarrow> Inr (0, NoMessage)
                    | Some rd \<Rightarrow>
                        res_bind (obj_of rd) (\<lambda>rules.
                        res_bind (obj_of (jget_or rules ''skills'' (JObj []))) (\<lambda>skills.
                        let session_state = load_session_state pstr files session_id
                        in res_bind (rule_list skills) (\<lambda>all.
                           res_bind (first_block (triggered re_search files file_path)
                                       (guard_skipped files session_state file_path)
                                       (filter (\<lambda>(_, r). jget r ''type'' = JStr ''guardrail'' \<and>
                                                         jget r ''enforcement'' = JStr ''block'') all)) (\<lambda>blocked.
                             case blocked of
                               Some (name, rule) \<Rightarrow> Inr (2, block_message rule (GuardMessage name))
                             | None \<Rightarrow>
                                 res_bind (first_block (triggered re_search files file_path)
                                             (remind_skipped files session_state)
                                             (filter (\<lambda>(_, r). jget r ''enforcement'' = JStr ''remind'' \<and>
                                                               truthy (jget r ''fileTriggers'')) all)) (\<lambda>reminded.
                                   case reminded of
                                     Some (name, rule) \<Rightarrow> Inr (2, block_message rule (RemindMessage name))
                                   | None \<Rightarrow> Inr (0, NoMessage)))))))))"

section \<open>The tracker of skills\<close>

definition put_state :: "hook_files \<Rightarrow> string \<Rightarrow> json \<Rightarrow> hook_files" where
  "put_state files name v = files\<lparr>hf_state := (hf_state files)(name \<mapsto> Doc v)\<rparr>"

definition record_skill_used :: "(json \<Rightarrow> string) \<Rightarrow> hook_files \<Rightarrow> json \<Rightarrow> json \<Rightarrow> hook_files res" where
  "record_skill_used pstr files session_id skill_name =
     res_bind (obj_of (load_session_state pstr files session_id)) (\<lambda>state.
       let used = jget_or state ''usedSkills'' (JArr [])
       in res_bind (py_in skill_name used) (\<lambda>known.
          res_bind (if known then Inr used
                    else case used of JArr xs \<Rightarrow> Inr (JArr (xs @ [skill_name])) | _ \<Rightarrow> Inl AttributeError) (\<lambda>used'.
            Inr (put_state files (skills_used_file pstr session_id) (JObj (dict_set ''usedSkills'' used' state))))))"

definition skill_tracker :: "(json \<Rightarrow> string) \<Rightarrow> hook_files \<Rightarrow> json option \<Rightarrow> (int \<times> hook_files) res" where
  "skill_tracker pstr files stdin =
     (case stdin of
        None \<Rightarrow> Inr (0, files)
      | Some doc \<Rightarrow>
          res_bind (obj_of doc) (\<lambda>input.
          res_bind (obj_of (jget_or input ''tool_input'' (JObj []))) (\<lambda>tool_input.
            let session_id = jget_or input ''session_id'' (JStr ''unknown'');
                name = jget_or tool_input ''name'' (JStr []);
                skill_name = (if truthy name then name else jget_or tool_input ''skill'' (JStr []))
            in if \<not> truthy skill_name then Inr (0, files)
               else res_bind (record_skill_used pstr files session_id skill_name) (\<lambda>files'. Inr (0, files')))))"

section \<open>Suggestions for a prompt\<close>

text \<open>\<open>re_search_i\<close> is the search that ignores case, \<open>bar\<close> the ruled line of the banner.\<close>

fun any_keyword :: "string \<Rightarrow> json list \<Rightarrow> bool res" where
  "any_keyword prompt_lower [] = Inr False"
| "any_keyword prompt_lower (kw # kws) =
     (case kw of
        JStr s \<Rightarrow> if str_in (lower s) prompt_lower then Inr True else any_keyword prompt_lower kws
      | _ \<Rightarrow> Inl AttributeError)"

definition match_prompt_triggers :: "(string \<Rightarrow> string \<Rightarrow> bool) \<Rightarrow> string \<Rightarrow> jobj \<Rightarrow> bool res" where
  "match_prompt_triggers re_search_i prompt triggers =
     res_bind (py_iter (jget_or triggers ''keywords'' (JArr []))) (\<lambda>kws.
     res_bind (any_keyword (lower prompt) kws) (\<lambda>hit.
       if hit then Inr True
       else res_bind (py_iter (jget_or triggers ''intentPatterns'' (JArr []))) (any_pattern (\<lambda>p. re_search_i p prompt))))"

definition matched_skills :: "(string \<Rightarrow> string \<Rightarrow> bool) \<Rightarrow> string \<Rightarrow> jobj \<Rightarrow> (string \<times> json) list res" where
  "matched_skills re_search_i prompt skills =
     res_bind (res_map (\<lambda>(name, v).
         res_bind (obj_of v) (\<lambda>rule.
           if \<not> truthy (jget rule ''promptTriggers'') then Inr None
           else
             res_bind (obj_of (jget rule ''promptTriggers'')) (\<lambda>triggers.
             res_bind (match_prompt_triggers re_search_i prompt triggers) (\<lambda>hit.
               Inr (if hit then Some (name, jget_or rule ''priority'' (JStr ''medium'')) else None))))) skills)
       (\<lambda>ms. Inr (List.map_filter id ms))"

definition priority_labels :: "(string \<times> string) list" where
  "priority_labels =
     [(''critical'', ''CRITICAL SKILLS (REQUIRED):''), (''high'', ''RECOMMENDED SKILLS:''),
      (''medium'', ''SUGGESTED SKILLS:''), (''low'', ''OPTIONAL SKILLS:'')]"

definition priority_group :: "(string \<times> json) list \<Rightarrow> string \<times> string \<Rightarrow> string list" where
  "priority_group matched pl =
     (let group = map fst (filter (\<lambda>(_, p). p = JStr (fst pl)) matched)
      in if group = [] then [] else [''  '' @ snd pl] @ map (\<lambda>name. ''    -> '' @ name) group @ [[]])"

definition banner :: "string \<Rightarrow> (string \<times> json) list \<Rightarrow> string list" where
  "banner bar matched =
     [[], bar, ''SKILL ACTIVATION CHECK'', bar, []] @ concat (map (priority_group matched) priority_labels) @
     [''  ACTION: Use Skill tool to invoke matched skills'', bar, []]"

text \<open>The printed lines; a priority that is a list or a dictionary is no key of the groups.\<close>

definition skill_activation ::
  "(string \<Rightarrow> string \<Rightarrow> bool) \<Rightarrow> string \<Rightarrow> json option \<Rightarrow> json option \<Rightarrow> (int \<times> string list) res" where
  "skill_activation re_search_i bar rules_doc stdin =
     (case stdin of
        None \<Rightarrow> Inr (0, [])
      | Some doc \<Rightarrow>
          res_bind (obj_of doc) (\<lambda>input.
            case jget_or input ''prompt'' (JStr []) of
              JStr prompt \<Rightarrow>
                if strip prompt = [] then Inr (0, [])
                else (case rules_doc of
                        None \<Rightarrow> Inr (0, [])
                      | Some rd \<Rightarrow>
                          res_bind (obj_of rd) (\<lambda>rules.
                          res_bind (obj_of (jget_or rules ''skills'' (JObj []))) (\<lambda>skills.
                          res_bind (matched_skills re_search_i prompt skills) (\<lambda>matched.
                            if matched = [] then Inr (0, [])
                            else if list_ex (\<lambda>(_, p). case p of JArr _ \<Rightarrow> True | JObj _ \<Rightarrow> True | _ \<Rightarrow> False) matched
                            then Inl TypeError
                            else Inr (0, banner bar matched)))))
            | _ \<Rightarrow> Inl AttributeError))"

section \<open>The tracker of edited files\<close>

text \<open>A \<open>PurePosixPath\<close>: its root and its parts, without empty parts and dots.\<close>

definition path_of :: "string \<Rightarrow> string \<times> string list" where
  "path_of s =
     (let slashes = takeWhile (\<lambda>c. c = CHR ''/'') s
      in (if length slashes = 2 then slashes else take 1 slashes,
          filter (\<lambda>p. p \<noteq> [] \<and> p \<noteq> ''.'') (split_on (CHR ''/'') s)))"

text \<open>The suffix of a name: from its last dot, when that is neither its first nor its last character.\<close>

definition suffix_of :: "string \<Rightarrow> string" where
  "suffix_of name =
     (let ext = takeWhile (\<lambda>c. c \<noteq> CHR ''.'') (rev name); stem_len = length name - length ext
      in if ext \<noteq> [] \<and> 1 < stem_len then CHR ''.'' # rev ext else [])"

definition path_suffix :: "string \<Rightarrow> string" where
  "path_suffix s = (case rev (snd (path_of s)) of [] \<Rightarrow> [] | name # _ \<Rightarrow> suffix_of name)"

text \<open>\<open>str(path.relative_to(other))\<close>, when the path lies under the other.\<close>

definition relative_to :: "string \<Rightarrow> string \<Rightarrow> string option" where
  "relative_to s other =
     (let (root, parts) = path_of s; (oroot, oparts) = path_of other
      in if root = oroot \<and> take (length oparts) parts = oparts
         then Some (if drop (length oparts) parts = [] then ''.'' else join ''/'' (drop (length oparts) parts)) else None)"

definition CODE_DIRS :: "string list" where "CODE_DIRS = [''app/'', ''tests/'']"

definition EXCLUDE_PATTERNS :: "string list" where "EXCLUDE_PATTERNS = [''__pycache__/'', ''.claude/'', ''.agents/'']"

definition is_code_file :: "string \<Rightarrow> string \<Rightarrow> bool" where
  "is_code_file file_path project_dir =
     (path_suffix file_path = ''.py'' \<and>
      (case relative_to file_path project_dir of
         None \<Rightarrow> False
       | Some rel \<Rightarrow>
           \<not> list_ex (\<lambda>excl. str_in excl rel) EXCLUDE_PATTERNS \<and> list_ex (\<lambda>d. startswith rel d) CODE_DIRS))"

definition is_code_file_json :: "json \<Rightarrow> json \<Rightarrow> bool res" where
  "is_code_file_json file_path project_dir =
     (case file_path of
        JStr f \<Rightarrow>
          if path_suffix f \<noteq> ''.py'' then Inr False
          else (case project_dir of JStr d \<Rightarrow> Inr (is_code_file f d) | _ \<Rightarrow> Inl TypeError)
      | _ \<Rightarrow> Inl TypeError)"

definition dirty_file :: "(json \<Rightarrow> string) \<Rightarrow> json \<Rightarrow> string" where
  "dirty_file pstr session_id = ''dirty-'' @ hook_str pstr session_id @ ''.json''"

definition record_edit :: "(json \<Rightarrow> string) \<Rightarrow> hook_files \<Rightarrow> string \<Rightarrow> json \<Rightarrow> json \<Rightarrow> hook_files res" where
  "record_edit pstr files now session_id file_path =
     (let name = dirty_file pstr session_id;
          loaded = (case hf_state files name of
                      Some (Doc v) \<Rightarrow> v
                    | _ \<Rightarrow> JObj [(''modified'', JBool True), (''files'', JArr []), (''last_modified'', JStr [])])
      in res_bind (obj_of loaded) (\<lambda>state.
           let listed = jget_or state ''files'' (JArr []);
               listed = (case listed of
                           JArr xs \<Rightarrow> if list_ex (\<lambda>y. json_eq y file_path) xs then listed else JArr (xs @ [file_path])
                         | _ \<Rightarrow> listed)
           in Inr (put_state files name
                (JObj (dict_set ''last_modified'' (JStr now)
                  (dict_set ''modified'' (JBool True) (dict_set ''files'' listed state)))))))"

definition post_edit_tracker :: "(json \<Rightarrow> string) \<Rightarrow> hook_files \<Rightarrow> string \<Rightarrow> json option \<Rightarrow> (int \<times> hook_files) res" where
  "post_edit_tracker pstr files now stdin =
     (case stdin of
        None \<Rightarrow> Inr (0, files)
      | Some doc \<Rightarrow>
          res_bind (obj_of doc) (\<lambda>input.
          res_bind (obj_of (jget_or input ''tool_input'' (JObj []))) (\<lambda>tool_input.
            let session_id = jget_or input ''session_id'' (JStr ''unknown'');
                file_path = jget_or tool_input ''file_path'' (JStr []);
                project_dir = jget_or input ''cwd'' (JStr [])
            in if \<not> truthy file_path then Inr (0, files)
               else
                 res_bind (is_code_file_json file_path project_dir) (\<lambda>code.
                   if \<not> code then Inr (0, files)
                   else res_bind (record_edit pstr files now session_id file_path) (\<lambda>files'. Inr (0, files'))))))"

section \<open>A used skill does not block\<close>

lemma json_eq_str [simp]: "json_eq (JStr a) (JStr b) \<longleftrightarrow> a = b"
  by auto

text \<open>After a skill was recorded, the session it was recorded for counts it as used, and keeps those before.\<close>

lemma record_skill_used_session:
  assumes "record_skill_used pstr files session_id (JStr name) = Inr files'"
  shows "session_skill_used (load_session_state pstr files' session_id) name skip =
           Inr (truthy (jget skip ''sessionSkillUsed''))"
proof -
  from assms obtain state used' where st: "load_session_state pstr files session_id = JObj state"
    and files': "files' = put_state files (skills_used_file pstr session_id) (JObj (dict_set ''usedSkills'' used' state))"
    and used: "py_in (JStr name) used' = Inr True"
    by (auto simp: record_skill_used_def res_bind_eq_Inr Let_def obj_of_def py_in_def split: json.splits if_splits)
  have "load_session_state pstr files' session_id = JObj (dict_set ''usedSkills'' used' state)"
    by (simp add: load_session_state_def files' put_state_def)
  then show ?thesis using used
    by (simp add: session_skill_used_def and_then_def obj_of_def jget_or_def)
qed

lemma first_block_names:
  assumes "first_block trig skipped rules = Inr (Some (name, rule))"
  shows "(name, rule) \<in> set rules \<and>
         (\<exists>skip. obj_of (jget_or rule ''skipConditions'' (JObj [])) = Inr skip \<and> skipped name skip = Inr False)"
  using assms
proof (induction rules)
  case (Cons r rules)
  then show ?case by (cases r) (auto simp: res_bind_eq_Inr split: if_splits)
qed simp

lemma or_else_false: "or_else m m' = Inr False \<longleftrightarrow> m = Inr False \<and> m' = Inr False"
  by (auto simp: or_else_def res_bind_eq_Inr split: if_splits)

text \<open>
  The guard blocks with a rule only if the skill of the rule has not been recorded for the session, or
  the rule does not accept that as a reason.
\<close>

lemma used_skill_does_not_block:
  assumes "record_skill_used pstr files session_id (JStr name) = Inr files'"
    "first_block trig skipped rules = Inr (Some (name, rule))"
    "skipped = guard_skipped files' (load_session_state pstr files' session_id) file_path \<or>
     skipped = remind_skipped files' (load_session_state pstr files' session_id)"
    "obj_of (jget_or rule ''skipConditions'' (JObj [])) = Inr skip"
  shows "\<not> truthy (jget skip ''sessionSkillUsed'')"
proof -
  from first_block_names [OF assms(2)] assms(4) have "skipped name skip = Inr False" by auto
  then have "session_skill_used (load_session_state pstr files' session_id) name skip = Inr False"
    using assms(3) by (auto simp: guard_skipped_def remind_skipped_def or_else_false)
  then show ?thesis using record_skill_used_session [OF assms(1)] by simp
qed

text \<open>An edit of a file that nothing guards passes; a missing rules file lets every edit pass.\<close>

lemma guard_open_without_rules:
  "skill_guard pstr re_search files None (Some (JObj input)) = Inr (0, NoMessage) \<or>
   (\<exists>e. skill_guard pstr re_search files None (Some (JObj input)) = Inl e)"
  by (auto simp: skill_guard_def obj_of_def res_bind_def Let_def split: json.splits)

section \<open>A session\<close>

text \<open>The rule of the repository, shortened to one path.\<close>

definition convention_rules :: json where
  "convention_rules = JObj [(''skills'', JObj [(''conv'', JObj
     [(''enforcement'', JStr ''remind''),
      (''fileTriggers'', JObj [(''pathPatterns'', JArr [JStr ''**/m/*.py''])]),
      (''skipConditions'', JObj [(''sessionSkillUsed'', JBool True)])])])]"

definition no_files :: hook_files where
  "no_files = \<lparr>hf_state = (\<lambda>_. None), hf_text = (\<lambda>_. None), hf_env = (\<lambda>_. None)\<rparr>"

definition edit_input :: json where
  "edit_input = JObj [(''session_id'', JStr ''s''), (''tool_input'', JObj [(''file_path'', JStr ''/m/a.py'')])]"

lemma session_example:
  "skill_guard (\<lambda>_. []) (\<lambda>_ _. False) no_files (Some convention_rules) (Some edit_input) = Inr (2, RemindMessage ''conv'')"
  "res_bind (skill_tracker (\<lambda>_. []) no_files
       (Some (JObj [(''session_id'', JStr ''s''), (''tool_input'', JObj [(''skill'', JStr ''conv'')])])))
     (\<lambda>(_, files). skill_guard (\<lambda>_. []) (\<lambda>_ _. False) files (Some convention_rules) (Some edit_input)) = Inr (0, NoMessage)"
  by code_simp+

lemma code_file_examples:
  "is_code_file ''/p/app/x.py'' ''/p''" "\<not> is_code_file ''/p/docs/x.py'' ''/p''" "\<not> is_code_file ''/q/app/x.py'' ''/p''"
  "\<not> is_code_file ''/p/app/.py'' ''/p''"
  by code_simp+

end
