(* ===== verification/RuntimeLog.thy ===== *)
theory RuntimeLog
  imports CodexReview
begin

text \<open>
  What the service writes to its log (\<open>src/app/core/runtime_logging.py\<close>): the redaction of secrets in
  a logged value, the entries of the JSON formatters, the log configuration and the line of an error
  response. The three patterns of the redaction are functions from a text to the replacement and the
  rest; the clock, the trace context and uvicorn's own configuration are arguments.
\<close>

section \<open>Redaction\<close>

definition LOG_REDACTION :: string where
  "LOG_REDACTION = ''[REDACTED]''"

definition collapse_log_value :: "string option \<Rightarrow> string option" where
  "collapse_log_value value =
     (case value of
        None \<Rightarrow> None
      | Some v \<Rightarrow> let collapsed = join '' '' (split_ws v) in if collapsed \<noteq> [] then Some collapsed else None)"

text \<open>
  \<open>pattern.sub\<close>: matches from left to right that do not overlap. A match is the replacement and the
  rest of the text, which is shorter.
\<close>

function re_sub :: "(string \<Rightarrow> (string \<times> string) option) \<Rightarrow> string \<Rightarrow> string" where
  "re_sub pat s =
     (case s of
        [] \<Rightarrow> []
      | c # r \<Rightarrow>
          (case pat s of
             Some (new, rest) \<Rightarrow> if length rest < length s then new @ re_sub pat rest else c # re_sub pat r
           | None \<Rightarrow> c # re_sub pat r))"
  by pat_completeness auto
termination
  by (relation "measure (\<lambda>(pat, s). length s)") auto

declare re_sub.simps [simp del]

text \<open>\<open>(?i)word\<close> at the start of a text: what was matched and the rest.\<close>

definition word_ci :: "string \<Rightarrow> string \<Rightarrow> (string \<times> string) option" where
  "word_ci word s = (if lower (take (length word) s) = word then Some (take (length word) s, drop (length word) s) else None)"

definition SECRET_WORDS :: "string list" where
  "SECRET_WORDS = [''password'', ''passwd'', ''pwd'', ''token'', ''secret'', ''apikey'', ''api_key'', ''api-key'']"

definition secret_word :: "string \<Rightarrow> (string \<times> string) option" where
  "secret_word s = (case List.map_filter (\<lambda>word. word_ci word s) SECRET_WORDS of [] \<Rightarrow> None | m # _ \<Rightarrow> Some m)"

text \<open>\<open>\s*[=:]\<close>, with the blanks after it taken as far as they go.\<close>

definition separator :: "string \<Rightarrow> (string \<times> string) option" where
  "separator s =
     (let blanks = takeWhile py_isspace s; t = dropWhile py_isspace s
      in case t of
           c # r \<Rightarrow> if c \<in> {CHR ''='', CHR '':''} then Some (blanks @ [c], r) else None
         | [] \<Rightarrow> None)"

definition value_char :: "char \<Rightarrow> bool" where
  "value_char c = (\<not> py_isspace c \<and> c \<noteq> CHR '','' \<and> c \<noteq> CHR ''&'')"

definition redact_keyed_secret :: "string \<Rightarrow> (string \<times> string) option" where
  "redact_keyed_secret s =
     Option.bind (secret_word s) (\<lambda>(key, r1).
     Option.bind (separator r1) (\<lambda>(sep, r2).
       let blanks = takeWhile py_isspace r2; r3 = dropWhile py_isspace r2
       in if r3 \<noteq> [] \<and> value_char (hd r3)
          then Some (key @ sep @ blanks @ LOG_REDACTION, dropWhile value_char r3) else None))"

definition bearer_char :: "char \<Rightarrow> bool" where
  "bearer_char c = (let n = code_point c :: nat in
     48 \<le> n \<and> n \<le> 57 \<or> 65 \<le> n \<and> n \<le> 90 \<or> 97 \<le> n \<and> n \<le> 122 \<or> c \<in> set ''._~+/=-'')"

definition redact_bearer_token :: "string \<Rightarrow> (string \<times> string) option" where
  "redact_bearer_token s =
     Option.bind (word_ci ''bearer'' s) (\<lambda>(word, r1).
       let blanks = takeWhile py_isspace r1; r2 = dropWhile py_isspace r1
       in if blanks \<noteq> [] \<and> r2 \<noteq> [] \<and> bearer_char (hd r2)
          then Some (word @ blanks @ LOG_REDACTION, dropWhile bearer_char r2) else None)"

text \<open>
  The authorization pattern gives way to a bearer token. When a comma or the end follows the blanks,
  the last blank is what the value matches.
\<close>

definition auth_char :: "char \<Rightarrow> bool" where
  "auth_char c = (c \<noteq> CHR '','' \<and> c \<noteq> CHR ''&'')"

definition redact_authorization_value :: "string \<Rightarrow> (string \<times> string) option" where
  "redact_authorization_value s =
     Option.bind (word_ci ''authorization'' s) (\<lambda>(word, r1).
     Option.bind (separator r1) (\<lambda>(sep, r2).
       let blanks = takeWhile py_isspace r2; r3 = dropWhile py_isspace r2
       in case word_ci ''bearer'' r3 of
            Some (_, r4) \<Rightarrow>
              if at_word_end r4 then None
              else Some (word @ sep @ blanks @ LOG_REDACTION, dropWhile auth_char r3)
          | None \<Rightarrow>
              if r3 \<noteq> [] \<and> auth_char (hd r3)
              then Some (word @ sep @ blanks @ LOG_REDACTION, dropWhile auth_char r3)
              else if blanks \<noteq> [] then Some (word @ sep @ butlast blanks @ LOG_REDACTION, r3)
              else None))"

definition redact_log_value :: "string option \<Rightarrow> string option" where
  "redact_log_value value =
     map_option (\<lambda>collapsed.
         re_sub redact_authorization_value (re_sub redact_bearer_token (re_sub redact_keyed_secret collapsed)))
       (collapse_log_value value)"

section \<open>Log entries\<close>

text \<open>An attribute of a record: a value \<open>json.dumps\<close> prints, or one that is written with \<open>str\<close>.\<close>

datatype log_attr = Dumpable json | Opaque string

fun log_attr_value :: "log_attr \<Rightarrow> json" where
  "log_attr_value (Dumpable v) = v"
| "log_attr_value (Opaque s) = JStr s"

record log_record =
  lr_levelname :: string
  lr_name :: string
  lr_message :: string
  lr_attrs :: "(string \<times> log_attr) list"
  lr_exception :: "string option"

definition excluded_keys :: "string list" where
  "excluded_keys =
     [''name'', ''msg'', ''args'', ''levelname'', ''levelno'', ''pathname'', ''filename'', ''module'', ''exc_info'',
      ''exc_text'', ''stack_info'', ''lineno'', ''funcName'', ''created'', ''msecs'', ''relativeCreated'', ''thread'',
      ''threadName'', ''processName'', ''process'', ''message'', ''taskName'']"

definition optional_id :: "string \<Rightarrow> string option \<Rightarrow> jobj \<Rightarrow> jobj" where
  "optional_id key v entry = (case v of Some s \<Rightarrow> if s \<noteq> [] then dict_set key (JStr s) entry else entry | None \<Rightarrow> entry)"

definition log_entry :: "string \<Rightarrow> string option \<Rightarrow> string option \<Rightarrow> log_record \<Rightarrow> jobj" where
  "log_entry timestamp trace_id span_id r =
     (let base = [(''timestamp'', JStr timestamp), (''level'', JStr (lr_levelname r)), (''logger'', JStr (lr_name r)),
                  (''message'', JStr (lr_message r))];
          traced = optional_id ''span_id'' span_id (optional_id ''trace_id'' trace_id base);
          full = foldl (\<lambda>entry (key, v). if key \<in> set excluded_keys then entry else dict_set key (log_attr_value v) entry)
                   traced (lr_attrs r)
      in case lr_exception r of None \<Rightarrow> full | Some t \<Rightarrow> dict_set ''exception'' (JStr t) full)"

definition json_format :: "(rat \<Rightarrow> string) \<Rightarrow> string \<Rightarrow> string option \<Rightarrow> string option \<Rightarrow> log_record \<Rightarrow> string" where
  "json_format float_repr timestamp trace_id span_id r =
     dumps float_repr '', '' '': '' (JObj (log_entry timestamp trace_id span_id r))"

text \<open>\<open>getattr(record, key, None)\<close> of the access record.\<close>

definition access_attr :: "log_record \<Rightarrow> string \<Rightarrow> json" where
  "access_attr r key = (case map_of (lr_attrs r) key of None \<Rightarrow> JNull | Some v \<Rightarrow> log_attr_value v)"

definition access_entry :: "string \<Rightarrow> log_record \<Rightarrow> jobj" where
  "access_entry timestamp r =
     [(''timestamp'', JStr timestamp), (''level'', JStr (lr_levelname r)), (''logger'', JStr (lr_name r)),
      (''type'', JStr ''access''), (''client'', access_attr r ''client_addr''),
      (''request'', access_attr r ''request_line''), (''status'', access_attr r ''status_code'')]"

section \<open>Configuration\<close>

definition default_formatter :: "string \<Rightarrow> json" where
  "default_formatter log_format =
     (if log_format = ''json'' then JObj [(''()'', JStr ''app.core.runtime_logging.JsonFormatter'')]
      else JObj [(''()'', JStr ''app.core.runtime_logging.UtcDefaultFormatter''),
                 (''fmt'', JStr ''%(asctime)s %(levelprefix)s %(name)s %(message)s''),
                 (''datefmt'', JStr ''%Y-%m-%dT%H:%M:%SZ''), (''use_colors'', JNull)])"

definition access_formatter :: "string \<Rightarrow> json" where
  "access_formatter log_format =
     (if log_format = ''json'' then JObj [(''()'', JStr ''app.core.runtime_logging.JsonAccessFormatter'')]
      else JObj [(''()'', JStr ''app.core.runtime_logging.UtcAccessFormatter''),
                 (''fmt'', JStr (''%(asctime)s %(levelprefix)s %(client_addr)s - '' @ [CHR 34] @ ''%(request_line)s'' @ [CHR 34] @
                                 '' %(status_code)s'')),
                 (''datefmt'', JStr ''%Y-%m-%dT%H:%M:%SZ''), (''use_colors'', JNull)])"

text \<open>\<open>config\<close> is uvicorn's configuration, whose formatters and handlers are dictionaries.\<close>

definition build_log_config :: "string \<Rightarrow> jobj \<Rightarrow> jobj" where
  "build_log_config log_format config =
     (let formatters = object_of (jget_or config ''formatters'' (JObj []));
          handlers = object_of (jget_or config ''handlers'' (JObj []));
          formatters = dict_set ''access'' (access_formatter log_format) (dict_set ''default'' (default_formatter log_format) formatters);
          handlers = (if map_of handlers ''default'' \<noteq> None then handlers
                      else dict_set ''default'' (JObj [(''class'', JStr ''logging.StreamHandler''), (''formatter'', JStr ''default''),
                                                       (''stream'', JStr ''ext://sys.stderr'')]) handlers)
      in dict_set ''root'' (JObj [(''handlers'', JArr [JStr ''default'']), (''level'', JStr ''INFO'')])
           (dict_set ''handlers'' (JObj handlers) (dict_set ''formatters'' (JObj formatters) config)))"

text \<open>The line of an error response and its level.\<close>

definition error_response_line :: "int \<Rightarrow> string option \<Rightarrow> string \<Rightarrow> string \<Rightarrow> string \<Rightarrow> string \<times> string" where
  "error_response_line status_code request_id method path category =
     (if 500 \<le> status_code then ''ERROR'' else ''WARNING'',
      category @ '' request_id='' @ (case request_id of None \<Rightarrow> ''None'' | Some t \<Rightarrow> t) @ '' method='' @ method @
      '' path='' @ path @ '' status='' @ py_str_int status_code)"

section \<open>Redaction of keyed secrets\<close>

lemma re_sub_Nil [simp]: "re_sub pat [] = []"
  by (simp add: re_sub.simps)

lemma re_sub_hit: "pat s = Some (new, rest) \<Longrightarrow> length rest < length s \<Longrightarrow> re_sub pat s = new @ re_sub pat rest"
  by (subst re_sub.simps) (cases s, simp_all)

lemma re_sub_miss: "pat (c # s) = None \<Longrightarrow> re_sub pat (c # s) = c # re_sub pat s"
  by (subst re_sub.simps) simp

lemma dropWhile_value: "list_all value_char v \<Longrightarrow> (r = [] \<or> \<not> value_char (hd r)) \<Longrightarrow> dropWhile value_char (v @ r) = r"
  by (induction v) (auto simp: dropWhile_eq_self_iff)

text \<open>
  A secret word, a separator and a value: the value goes, whatever it is, up to the next blank, comma or
  ampersand; the replacement depends on neither.
\<close>

lemma keyed_secret_match:
  assumes "secret_word s = Some (key, sep # v @ r)" "sep \<in> {CHR ''='', CHR '':''}"
    "v \<noteq> []" "list_all value_char v" "r = [] \<or> \<not> value_char (hd r)"
  shows "redact_keyed_secret s = Some (key @ [sep] @ LOG_REDACTION, r)"
proof -
  obtain c w where v: "v = c # w" "\<not> py_isspace c" "value_char c" using assms(3,4) by (cases v) (auto simp: value_char_def)
  have "\<not> py_isspace sep" using assms(2) by (auto simp: py_isspace_def)
  then have sep: "separator (sep # v @ r) = Some ([sep], v @ r)"
    using assms(2) by (simp add: separator_def Let_def)
  have "takeWhile py_isspace (v @ r) = []" "dropWhile py_isspace (v @ r) = v @ r" using v by simp_all
  then show ?thesis
    using assms(1) sep v dropWhile_value [OF assms(4,5)] by (simp add: redact_keyed_secret_def)
qed

lemma secret_word_shorter: "secret_word s = Some (key, r) \<Longrightarrow> length r < length s"
proof -
  assume "secret_word s = Some (key, r)"
  then have "(key, r) \<in> set (List.map_filter (\<lambda>word. word_ci word s) SECRET_WORDS)"
    by (auto simp: secret_word_def split: list.splits)
  then obtain word where w: "word \<in> set SECRET_WORDS" "word_ci word s = Some (key, r)"
    by (auto simp: List.map_filter_def)
  then have "lower (take (length word) s) = word" "r = drop (length word) s"
    by (auto simp: word_ci_def split: if_splits)
  then have "length (take (length word) s) = length word" by (metis length_map lower_def)
  moreover have "word \<noteq> []" using w(1) by (auto simp: SECRET_WORDS_def)
  ultimately show "length r < length s" using \<open>r = drop (length word) s\<close>
    by (cases word) auto
qed

text \<open>Two logs that differ only in such a value are the same after the first pass.\<close>

lemma keyed_secret_hidden:
  assumes "secret_word (key @ sep # v @ r) = Some (key, sep # v @ r)" "sep \<in> {CHR ''='', CHR '':''}"
    "v \<noteq> []" "list_all value_char v" "r = [] \<or> \<not> value_char (hd r)"
  shows "re_sub redact_keyed_secret (key @ sep # v @ r) = key @ [sep] @ LOG_REDACTION @ re_sub redact_keyed_secret r"
  using re_sub_hit [where pat = redact_keyed_secret, OF keyed_secret_match [OF assms]] by simp

text \<open>A pattern that needs a letter the text does not have leaves the text alone.\<close>

lemma re_sub_absent: "(\<And>t. set t \<subseteq> set s \<Longrightarrow> pat t = None) \<Longrightarrow> re_sub pat s = s"
proof (induction s)
  case (Cons c s)
  have "pat (c # s) = None" using Cons.prems by simp
  moreover have "re_sub pat s = s" using Cons.prems by (intro Cons.IH) auto
  ultimately show ?case by (simp add: re_sub_miss)
qed simp

lemma word_ci_letter:
  assumes "c \<in> set word" "c \<notin> set (lower s)" "set t \<subseteq> set s"
  shows "word_ci word t = None"
proof (rule ccontr)
  assume "word_ci word t \<noteq> None"
  then have "lower (take (length word) t) = word" by (simp add: word_ci_def split: if_splits)
  with assms(1) have "c \<in> lower_char ` set (take (length word) t)" by (metis lower_def list.set_map)
  with assms(2,3) set_take_subset [of "length word" t] show False by (auto simp: lower_def)
qed

lemma bearer_absent: "CHR ''b'' \<notin> set (lower s) \<Longrightarrow> re_sub redact_bearer_token s = s"
  using word_ci_letter [of "CHR ''b''" "''bearer''" s]
  by (intro re_sub_absent) (simp add: redact_bearer_token_def)

lemma authorization_absent: "CHR ''h'' \<notin> set (lower s) \<Longrightarrow> re_sub redact_authorization_value s = s"
  using word_ci_letter [of "CHR ''h''" "''authorization''" s]
  by (intro re_sub_absent) (simp add: redact_authorization_value_def)

text \<open>
  What the patterns leave in the log: a bearer token after a secret word, because the word ``Bearer''
  is taken for the value of the key and the token is what follows it.
\<close>

lemma redaction_leaks_bearer:
  "redact_log_value (Some ''pwd: Bearer x'') = Some ''pwd: [REDACTED] x''"
proof -
  have collapsed: "collapse_log_value (Some ''pwd: Bearer x'') = Some ''pwd: Bearer x''" by code_simp
  have m: "redact_keyed_secret ''pwd: Bearer x'' = Some (''pwd: [REDACTED]'', '' x'')" by code_simp
  have t: "re_sub redact_keyed_secret '' x'' = '' x''" by code_simp
  have "re_sub redact_keyed_secret ''pwd: Bearer x'' = ''pwd: [REDACTED] x''"
    by (subst re_sub_hit [where pat = redact_keyed_secret, OF m]) (simp_all add: t)
  moreover have "CHR ''b'' \<notin> set (lower ''pwd: [REDACTED] x'')" "CHR ''h'' \<notin> set (lower ''pwd: [REDACTED] x'')"
    by code_simp+
  ultimately show ?thesis
    by (simp add: redact_log_value_def collapsed bearer_absent authorization_absent)
qed

section \<open>The fields of an entry\<close>

lemma foldl_attrs_other:
  "key \<notin> fst ` set attrs \<Longrightarrow>
   map_of (foldl (\<lambda>entry (k, v). if k \<in> set excluded_keys then entry else dict_set k (log_attr_value v) entry) entry attrs) key =
   map_of entry key"
  by (induction attrs arbitrary: entry) auto

text \<open>The level, the logger and the message are the record's, unless an extra attribute has their name.\<close>

lemma log_entry_fields:
  assumes "key \<in> {''timestamp'', ''level'', ''logger'', ''message''}" "key \<notin> fst ` set (lr_attrs r)"
  shows "map_of (log_entry timestamp trace_id span_id r) key =
           map_of [(''timestamp'', JStr timestamp), (''level'', JStr (lr_levelname r)), (''logger'', JStr (lr_name r)),
                   (''message'', JStr (lr_message r))] key"
proof -
  let ?base = "[(''timestamp'', JStr timestamp), (''level'', JStr (lr_levelname r)), (''logger'', JStr (lr_name r)),
    (''message'', JStr (lr_message r))]"
  let ?start = "optional_id ''span_id'' span_id (optional_id ''trace_id'' trace_id ?base)"
  let ?full = "foldl (\<lambda>entry (k, v). if k \<in> set excluded_keys then entry else dict_set k (log_attr_value v) entry) ?start (lr_attrs r)"
  have ids: "key \<noteq> ''trace_id''" "key \<noteq> ''span_id''" "key \<noteq> ''exception''" using assms(1) by auto
  have "map_of (log_entry timestamp trace_id span_id r) key = map_of ?full key"
    using ids(3) by (simp only: log_entry_def Let_def split: option.split) simp
  also have "\<dots> = map_of ?start key" by (rule foldl_attrs_other [OF assms(2)])
  also have "\<dots> = map_of ?base key"
    using ids(1,2) by (simp only: optional_id_def split: option.split) simp
  finally show ?thesis .
qed

text \<open>An extra attribute named like a field of the entry replaces it.\<close>

lemma log_entry_overridden:
  "jget (log_entry ''now'' None None
     \<lparr>lr_levelname = ''ERROR'', lr_name = ''app'', lr_message = ''m'', lr_attrs = [(''level'', Dumpable (JStr ''DEBUG''))],
      lr_exception = None\<rparr>) ''level'' = JStr ''DEBUG''"
  by code_simp

text \<open>Whatever uvicorn configures, the root logger writes at level INFO to a handler that exists.\<close>

lemma build_log_config_root:
  "jget (build_log_config log_format config) ''root'' =
     JObj [(''handlers'', JArr [JStr ''default'']), (''level'', JStr ''INFO'')] \<and>
   map_of (object_of (jget (build_log_config log_format config) ''handlers'')) ''default'' \<noteq> None"
  by (auto simp: build_log_config_def Let_def jget_def object_of_def)

end
