(* ===== verification/CircuitBreaker.thy ===== *)
theory CircuitBreaker
  imports Complex_Main Prelude
begin

text \<open>
  The circuit breaker of \<open>src/app/core/resilience/circuit_breaker.py\<close>. Times are the values of
  \<open>time.monotonic()\<close>. Every method that holds the lock is one step; a call is split at its
  \<open>await\<close> points, so that calls may interleave: it is checked in, its outcome is recorded, and, when
  it was the probe, its slot is released.
\<close>

datatype circuit_state = CLOSED | OPEN | HALF_OPEN

record circuit_breaker =
  cb_state :: circuit_state
  cb_failure_count :: int
  cb_success_count :: int
  cb_last_failure_time :: "rat option"
  cb_half_open_probe_in_flight :: bool
  cb_failure_threshold :: int
  cb_recovery_timeout_seconds :: rat
  cb_success_threshold :: int

definition new_circuit_breaker :: "int \<Rightarrow> rat \<Rightarrow> int \<Rightarrow> circuit_breaker" where
  "new_circuit_breaker failure_threshold recovery_timeout_seconds success_threshold =
     \<lparr>cb_state = CLOSED, cb_failure_count = 0, cb_success_count = 0, cb_last_failure_time = None,
      cb_half_open_probe_in_flight = False, cb_failure_threshold = failure_threshold,
      cb_recovery_timeout_seconds = recovery_timeout_seconds, cb_success_threshold = success_threshold\<rparr>"

definition breaker_state :: "rat \<Rightarrow> circuit_breaker \<Rightarrow> circuit_state" where
  "breaker_state now cb =
     (if cb_state cb = OPEN \<and>
         (case cb_last_failure_time cb of None \<Rightarrow> False | Some t \<Rightarrow> cb_recovery_timeout_seconds cb \<le> now - t)
      then HALF_OPEN else cb_state cb)"

text \<open>\<open>None\<close> is \<open>CircuitBreakerOpenError\<close>, \<open>Some is_probe\<close> the returned flag.\<close>

definition pre_call_check :: "rat \<Rightarrow> circuit_breaker \<Rightarrow> circuit_breaker \<times> bool option" where
  "pre_call_check now cb =
     (case breaker_state now cb of
        OPEN \<Rightarrow> (cb, None)
      | HALF_OPEN \<Rightarrow>
          if cb_half_open_probe_in_flight cb then (cb, None)
          else (cb\<lparr>cb_half_open_probe_in_flight := True\<rparr>, Some True)
      | CLOSED \<Rightarrow> (cb, Some False))"

definition release_half_open_probe :: "circuit_breaker \<Rightarrow> circuit_breaker" where
  "release_half_open_probe cb = cb\<lparr>cb_half_open_probe_in_flight := False\<rparr>"

definition record_success :: "rat \<Rightarrow> circuit_breaker \<Rightarrow> circuit_breaker" where
  "record_success now cb =
     (case breaker_state now cb of
        HALF_OPEN \<Rightarrow>
          (let cb = cb\<lparr>cb_success_count := cb_success_count cb + 1\<rparr>
           in if cb_success_threshold cb \<le> cb_success_count cb
              then cb\<lparr>cb_state := CLOSED, cb_failure_count := 0, cb_success_count := 0\<rparr> else cb)
      | CLOSED \<Rightarrow> if 0 < cb_failure_count cb then cb\<lparr>cb_failure_count := 0\<rparr> else cb
      | OPEN \<Rightarrow> cb)"

text \<open>
  The exceptions the breaker tells apart: an aiohttp response error with its status, a timeout,
  any other exception with its \<open>status_code\<close> attribute, if it has one.
\<close>

datatype call_error = ClientResponseError int | Timeout | OtherException "int option"

fun is_server_error :: "call_error \<Rightarrow> bool" where
  "is_server_error (ClientResponseError status) = (500 \<le> status)"
| "is_server_error Timeout = True"
| "is_server_error (OtherException (Some status_code)) = (500 \<le> status_code)"
| "is_server_error (OtherException None) = True"

definition record_failure :: "rat \<Rightarrow> call_error \<Rightarrow> circuit_breaker \<Rightarrow> circuit_breaker" where
  "record_failure now exc cb =
     (if \<not> is_server_error exc then cb
      else let cb = cb\<lparr>cb_failure_count := cb_failure_count cb + 1, cb_last_failure_time := Some now,
                       cb_success_count := 0\<rparr>
           in if cb_failure_threshold cb \<le> cb_failure_count cb then cb\<lparr>cb_state := OPEN\<rparr> else cb)"

text \<open>How the awaited coroutine ends; a cancellation is not an \<open>Exception\<close> and is not recorded.\<close>

datatype 'a outcome = Returned 'a | Failed call_error | Cancelled

definition record_outcome_of :: "rat \<Rightarrow> 'a outcome \<Rightarrow> circuit_breaker \<Rightarrow> circuit_breaker" where
  "record_outcome_of now r cb =
     (case r of Returned _ \<Rightarrow> record_success now cb | Failed e \<Rightarrow> record_failure now e cb | Cancelled \<Rightarrow> cb)"

text \<open>A call with nothing in between; \<open>None\<close> is a rejected call.\<close>

definition call :: "rat \<Rightarrow> rat \<Rightarrow> 'a outcome \<Rightarrow> circuit_breaker \<Rightarrow> circuit_breaker \<times> 'a outcome option" where
  "call t0 t1 r cb =
     (case pre_call_check t0 cb of
        (cb, None) \<Rightarrow> (cb, None)
      | (cb, Some is_probe) \<Rightarrow>
          let cb = record_outcome_of t1 r cb
          in (if is_probe then release_half_open_probe cb else cb, Some r))"

section \<open>The registry\<close>

record breaker_settings =
  bs_enabled :: bool
  bs_failure_threshold :: int
  bs_recovery_timeout_seconds :: rat

record breakers =
  br_global :: "circuit_breaker option"
  br_accounts :: "(string \<times> circuit_breaker) list"

definition get_circuit_breaker :: "breaker_settings option \<Rightarrow> breakers \<Rightarrow> breakers \<times> circuit_breaker option" where
  "get_circuit_breaker settings b =
     (case settings of
        None \<Rightarrow> (b, br_global b)
      | Some s \<Rightarrow>
          let b = (if bs_enabled s \<and> br_global b = None
                   then b\<lparr>br_global := Some (new_circuit_breaker (bs_failure_threshold s) (bs_recovery_timeout_seconds s) 2)\<rparr>
                   else b)
          in (b, if bs_enabled s then br_global b else None))"

definition get_circuit_breaker_for_account ::
  "string \<Rightarrow> breaker_settings \<Rightarrow> breakers \<Rightarrow> breakers \<times> circuit_breaker option" where
  "get_circuit_breaker_for_account account_id s b =
     (if \<not> bs_enabled s then (b, None)
      else case map_of (br_accounts b) account_id of
             Some cb \<Rightarrow> (b, Some cb)
           | None \<Rightarrow>
               let cb = new_circuit_breaker (bs_failure_threshold s) (bs_recovery_timeout_seconds s) 2
               in (b\<lparr>br_accounts := dict_set account_id cb (br_accounts b)\<rparr>, Some cb))"

definition are_all_account_circuit_breakers_open :: "rat \<Rightarrow> breakers \<Rightarrow> bool" where
  "are_all_account_circuit_breakers_open now b =
     (if br_accounts b = [] then False else list_all (\<lambda>(_, cb). breaker_state now cb = OPEN) (br_accounts b))"

section \<open>Interleaved calls\<close>

text \<open>
  The calls in flight: running ones and ones whose outcome is recorded but whose probe slot is
  not released yet. The flag says whether the call is the probe.
\<close>

record cb_system =
  sys_breaker :: circuit_breaker
  sys_running :: "bool list"
  sys_releasing :: nat

inductive cb_step :: "cb_system \<Rightarrow> cb_system \<Rightarrow> bool" where
  admit: "pre_call_check t cb = (cb', Some probe) \<Longrightarrow>
    cb_step \<lparr>sys_breaker = cb, sys_running = run, sys_releasing = n\<rparr>
            \<lparr>sys_breaker = cb', sys_running = probe # run, sys_releasing = n\<rparr>"
| reject: "pre_call_check t cb = (cb', None) \<Longrightarrow>
    cb_step \<lparr>sys_breaker = cb, sys_running = run, sys_releasing = n\<rparr>
            \<lparr>sys_breaker = cb', sys_running = run, sys_releasing = n\<rparr>"
| finish: "cb_step \<lparr>sys_breaker = cb, sys_running = run @ probe # run', sys_releasing = n\<rparr>
    \<lparr>sys_breaker = record_outcome_of t (r :: unit outcome) cb, sys_running = run @ run',
     sys_releasing = (if probe then Suc n else n)\<rparr>"
| release: "cb_step \<lparr>sys_breaker = cb, sys_running = run, sys_releasing = Suc n\<rparr>
    \<lparr>sys_breaker = release_half_open_probe cb, sys_running = run, sys_releasing = n\<rparr>"

inductive cb_reachable :: "circuit_breaker \<Rightarrow> cb_system \<Rightarrow> bool" for cb0 where
  init: "cb_reachable cb0 \<lparr>sys_breaker = cb0, sys_running = [], sys_releasing = 0\<rparr>"
| step: "cb_reachable cb0 s \<Longrightarrow> cb_step s s' \<Longrightarrow> cb_reachable cb0 s'"

inductive_cases cb_stepE: "cb_step s s'"

definition probes :: "cb_system \<Rightarrow> nat" where
  "probes s = count_list (sys_running s) True + sys_releasing s"

text \<open>
  The probe slot is taken exactly while a probe is in flight, and there is never more than one;
  an open breaker has a failure time and has reached its threshold; the success count stays below
  its threshold.
\<close>

definition cb_inv :: "cb_system \<Rightarrow> bool" where
  "cb_inv s \<longleftrightarrow> probes s = (if cb_half_open_probe_in_flight (sys_breaker s) then 1 else 0) \<and>
     cb_state (sys_breaker s) \<noteq> HALF_OPEN \<and>
     (cb_state (sys_breaker s) = OPEN \<longrightarrow> cb_last_failure_time (sys_breaker s) \<noteq> None \<and>
        cb_failure_threshold (sys_breaker s) \<le> cb_failure_count (sys_breaker s)) \<and>
     (cb_state (sys_breaker s) = CLOSED \<longrightarrow> cb_failure_count (sys_breaker s) < cb_failure_threshold (sys_breaker s)) \<and>
     0 < cb_failure_threshold (sys_breaker s) \<and> 0 < cb_success_threshold (sys_breaker s) \<and>
     0 \<le> cb_success_count (sys_breaker s) \<and> cb_success_count (sys_breaker s) < cb_success_threshold (sys_breaker s)"

lemma breaker_state_cases:
  "breaker_state now cb = HALF_OPEN \<Longrightarrow> cb_state cb \<noteq> HALF_OPEN \<Longrightarrow> cb_state cb = OPEN"
  "breaker_state now cb = CLOSED \<longleftrightarrow> cb_state cb = CLOSED"
  by (auto simp: breaker_state_def split: if_splits)

definition cb_fields_ok :: "circuit_breaker \<Rightarrow> bool" where
  "cb_fields_ok cb \<longleftrightarrow> cb_state cb \<noteq> HALF_OPEN \<and>
     (cb_state cb = OPEN \<longrightarrow> cb_last_failure_time cb \<noteq> None \<and> cb_failure_threshold cb \<le> cb_failure_count cb) \<and>
     (cb_state cb = CLOSED \<longrightarrow> cb_failure_count cb < cb_failure_threshold cb) \<and>
     0 < cb_failure_threshold cb \<and> 0 < cb_success_threshold cb \<and>
     0 \<le> cb_success_count cb \<and> cb_success_count cb < cb_success_threshold cb"

lemma cb_inv_alt:
  "cb_inv s \<longleftrightarrow> probes s = (if cb_half_open_probe_in_flight (sys_breaker s) then 1 else 0) \<and> cb_fields_ok (sys_breaker s)"
  by (simp add: cb_inv_def cb_fields_ok_def)

lemma record_success_ok: "cb_fields_ok cb \<Longrightarrow> cb_fields_ok (record_success now cb)"
  by (auto simp: record_success_def cb_fields_ok_def breaker_state_def Let_def split: if_splits option.splits circuit_state.splits)

lemma record_failure_ok: "cb_fields_ok cb \<Longrightarrow> cb_fields_ok (record_failure now e cb)"
  by (cases "cb_state cb") (auto simp: record_failure_def cb_fields_ok_def Let_def)

lemma record_outcome_ok: "cb_fields_ok cb \<Longrightarrow> cb_fields_ok (record_outcome_of now r cb)"
  by (simp add: record_outcome_of_def record_success_ok record_failure_ok split: outcome.split)

lemma record_keeps_probe [simp]:
  "cb_half_open_probe_in_flight (record_outcome_of now r cb) = cb_half_open_probe_in_flight cb"
  by (simp add: record_outcome_of_def record_success_def record_failure_def Let_def
      split: outcome.split circuit_state.split)

lemma probe_ok: "cb_fields_ok (cb\<lparr>cb_half_open_probe_in_flight := b\<rparr>) = cb_fields_ok cb"
  by (simp add: cb_fields_ok_def)

lemma cb_step_inv:
  assumes "cb_step s s'" "cb_inv s"
  shows "cb_inv s'"
  using assms
proof (cases rule: cb_step.cases)
  case (admit t cb cb' probe run n)
  with assms(2) show ?thesis
    by (auto simp: cb_inv_alt probes_def pre_call_check_def probe_ok split: circuit_state.splits if_splits)
next
  case (reject t cb cb' run n)
  with assms(2) show ?thesis by (auto simp: pre_call_check_def split: circuit_state.splits if_splits)
next
  case (finish cb run probe run' n t r)
  with assms(2) show ?thesis by (auto simp: cb_inv_alt probes_def record_outcome_ok split: if_splits)
next
  case (release cb run n)
  with assms(2) show ?thesis
    by (auto simp: cb_inv_alt probes_def release_half_open_probe_def probe_ok split: if_splits)
qed

lemma new_breaker_ok: "0 < ft \<Longrightarrow> 0 < st \<Longrightarrow> cb_fields_ok (new_circuit_breaker ft to st)"
  by (simp add: cb_fields_ok_def new_circuit_breaker_def)

lemma cb_reachable_inv:
  assumes "cb_reachable (new_circuit_breaker ft to st) s" "0 < ft" "0 < st"
  shows "cb_inv s"
  using assms(1)
proof (induction rule: cb_reachable.induct)
  case init
  show ?case using assms(2,3) by (simp add: cb_inv_alt new_breaker_ok) (simp add: probes_def new_circuit_breaker_def)
next
  case (step s s')
  then show ?case using cb_step_inv by blast
qed

section \<open>Properties\<close>

text \<open>
  C14: however calls interleave, and at whatever times, a half-open breaker lets through one probe
  at a time: in every reachable state at most one probe is in flight, the slot is taken exactly
  while it is, an open breaker remembers its last failure and a closed one is below its failure
  threshold.
\<close>

theorem breaker_single_probe:
  assumes "cb_reachable (new_circuit_breaker ft to st) s" "0 < ft" "0 < st"
  shows "probes s \<le> 1 \<and> (cb_half_open_probe_in_flight (sys_breaker s) \<longleftrightarrow> probes s = 1) \<and>
    (cb_state (sys_breaker s) = OPEN \<longrightarrow> cb_last_failure_time (sys_breaker s) \<noteq> None) \<and>
    (cb_state (sys_breaker s) = CLOSED \<longrightarrow> cb_failure_count (sys_breaker s) < cb_failure_threshold (sys_breaker s))"
  using cb_reachable_inv [OF assms] by (auto simp: cb_inv_def split: if_splits)

theorem breaker_single_probe_witness:
  "\<exists>s. cb_reachable (new_circuit_breaker 1 60 2) s \<and> sys_running s = [True] \<and>
     cb_half_open_probe_in_flight (sys_breaker s)"
proof -
  let ?cb = "new_circuit_breaker 1 60 2"
  let ?s = "\<lambda>cb run. \<lparr>sys_breaker = cb, sys_running = run, sys_releasing = 0\<rparr>"
  let ?open = "record_outcome_of 0 (Failed Timeout :: unit outcome) ?cb"
  let ?probe = "?open\<lparr>cb_half_open_probe_in_flight := True\<rparr>"
  have open_eq: "?open = ?cb\<lparr>cb_state := OPEN, cb_failure_count := 1, cb_last_failure_time := Some 0\<rparr>"
    by (simp add: record_outcome_of_def record_failure_def new_circuit_breaker_def)
  have r1: "cb_reachable ?cb (?s ?cb [False])"
    by (rule cb_reachable.step [OF cb_reachable.init cb_step.admit [of 0]])
      (simp add: pre_call_check_def breaker_state_def new_circuit_breaker_def)
  have r2: "cb_reachable ?cb (?s ?open [])"
    using cb_reachable.step [OF r1 cb_step.finish [of ?cb "[]" False "[]" 0 0 "Failed Timeout", simplified]] by simp
  have "pre_call_check 60 ?open = (?probe, Some True)"
    unfolding open_eq by (simp add: pre_call_check_def breaker_state_def new_circuit_breaker_def)
  from cb_reachable.step [OF r2 cb_step.admit [OF this]] have r3: "cb_reachable ?cb (?s ?probe [True])" .
  from breaker_single_probe [OF r3] r3 show ?thesis by (intro exI [of _ "?s ?probe [True]"]) (simp add: probes_def)
qed

text \<open>The states between failures and between probe successes.\<close>

fun fail_calls :: "rat \<Rightarrow> call_error list \<Rightarrow> circuit_breaker \<Rightarrow> circuit_breaker" where
  "fail_calls t [] cb = cb"
| "fail_calls t (e # es) cb = fail_calls t es (fst (call t t (Failed e :: unit outcome) cb))"

fun succeed_calls :: "rat \<Rightarrow> nat \<Rightarrow> circuit_breaker \<Rightarrow> circuit_breaker" where
  "succeed_calls t 0 cb = cb"
| "succeed_calls t (Suc n) cb = succeed_calls t n (fst (call t t (Returned () :: unit outcome) cb))"

lemma fail_calls_count:
  assumes "cb_state cb = CLOSED" "list_all is_server_error es" "es \<noteq> []"
    "cb_failure_count cb + int (length es) \<le> cb_failure_threshold cb"
  shows "fail_calls t es cb = cb\<lparr>cb_failure_count := cb_failure_count cb + int (length es),
     cb_last_failure_time := Some t, cb_success_count := 0,
     cb_state := (if cb_failure_count cb + int (length es) = cb_failure_threshold cb then OPEN else CLOSED)\<rparr>"
  using assms
proof (induction es arbitrary: cb)
  case (Cons e es)
  have closed: "breaker_state t cb = CLOSED" using Cons.prems(1) by (simp add: breaker_state_def)
  have c: "fst (call t t (Failed e :: unit outcome) cb) = record_failure t e cb"
    by (simp add: call_def pre_call_check_def closed record_outcome_of_def Let_def)
  show ?case
  proof (cases "es = []")
    case True
    with Cons.prems c show ?thesis by (auto simp: record_failure_def Let_def)
  next
    case False
    then have lt: "cb_failure_count cb + 1 < cb_failure_threshold cb"
      using Cons.prems(4) by (cases es) auto
    then have "record_failure t e cb = cb\<lparr>cb_failure_count := cb_failure_count cb + 1,
        cb_last_failure_time := Some t, cb_success_count := 0\<rparr>"
      using Cons.prems(2) by (simp add: record_failure_def Let_def)
    with Cons.IH [of "record_failure t e cb"] Cons.prems c False show ?thesis by (simp add: algebra_simps)
  qed
qed simp

text \<open>
  C15: the breaker trips at its threshold and then blocks. After exactly as many server failures in
  a row as the threshold, it is open: every call within the recovery timeout is rejected and leaves
  the breaker as it was; one failure fewer leaves it closed.
\<close>

theorem breaker_trips:
  assumes "0 < ft" "list_all is_server_error es" "int (length es) = ft" "t' - t < to"
  shows "call t' t'' r (fail_calls t es (new_circuit_breaker ft to st)) =
      (fail_calls t es (new_circuit_breaker ft to st), None) \<and>
    cb_state (fail_calls t (tl es) (new_circuit_breaker ft to st)) = CLOSED"
proof -
  let ?cb = "new_circuit_breaker ft to st"
  have es: "es \<noteq> []" using assms(1,3) by auto
  let ?f = "fail_calls t es ?cb"
  have f: "cb_state ?f = OPEN" "cb_last_failure_time ?f = Some t" "cb_recovery_timeout_seconds ?f = to"
    using fail_calls_count [of ?cb es t] assms(2,3) es by (simp_all add: new_circuit_breaker_def)
  have "breaker_state t' ?f = OPEN" using f assms(4) by (simp add: breaker_state_def)
  then have "call t' t'' r ?f = (?f, None)" by (simp add: call_def pre_call_check_def)
  moreover have "cb_state (fail_calls t (tl es) ?cb) = CLOSED"
  proof (cases "tl es = []")
    case False
    have "list_all is_server_error (tl es)" "int (length (tl es)) < ft" using assms(2,3) es by (cases es; simp)+
    with fail_calls_count [of ?cb "tl es" t] False show ?thesis
      by (simp add: new_circuit_breaker_def)
  qed (simp add: new_circuit_breaker_def)
  ultimately show ?thesis by blast
qed

theorem breaker_trips_witness:
  "call 59 59 (Returned ()) (fail_calls 0 [Timeout, ClientResponseError 503] (new_circuit_breaker 2 60 2)) =
     (fail_calls 0 [Timeout, ClientResponseError 503] (new_circuit_breaker 2 60 2), None)"
  using breaker_trips [of 2 "[Timeout, ClientResponseError 503]" 59 0 60 59 "Returned ()" 2] by simp

lemma succeed_call_half_open:
  assumes "cb_state cb = OPEN" "cb_last_failure_time cb = Some t0" "cb_recovery_timeout_seconds cb \<le> t - t0"
    "\<not> cb_half_open_probe_in_flight cb"
  shows "fst (call t t (Returned () :: unit outcome) cb) =
    (if cb_success_threshold cb \<le> cb_success_count cb + 1
     then cb\<lparr>cb_state := CLOSED, cb_failure_count := 0, cb_success_count := 0\<rparr>
     else cb\<lparr>cb_success_count := cb_success_count cb + 1\<rparr>)"
  using assms
  by (simp add: call_def pre_call_check_def breaker_state_def record_outcome_of_def record_success_def
      release_half_open_probe_def Let_def)

text \<open>
  C16: an open breaker recovers. Once the recovery timeout has passed, as many successful probes in
  a row as the success threshold close it again, with its failures forgotten.
\<close>

theorem breaker_recovers:
  assumes "cb_state cb = OPEN" "cb_last_failure_time cb = Some t0" "cb_recovery_timeout_seconds cb \<le> t - t0"
    "\<not> cb_half_open_probe_in_flight cb" "int n = cb_success_threshold cb - cb_success_count cb" "0 < n"
  shows "succeed_calls t n cb = cb\<lparr>cb_state := CLOSED, cb_failure_count := 0, cb_success_count := 0\<rparr>"
  using assms
proof (induction n arbitrary: cb)
  case (Suc n)
  show ?case
  proof (cases "n = 0")
    case True
    with succeed_call_half_open [of cb t0 t] Suc.prems show ?thesis by simp
  next
    case False
    with Suc.prems(5) have "\<not> cb_success_threshold cb \<le> cb_success_count cb + 1" by simp
    with succeed_call_half_open [of cb t0 t] Suc.prems Suc.IH [of "cb\<lparr>cb_success_count := cb_success_count cb + 1\<rparr>"] False
    show ?thesis by simp
  qed
qed simp

theorem breaker_recovers_witness:
  "cb_state (succeed_calls 60 2 (fail_calls 0 [Timeout] (new_circuit_breaker 1 60 2))) = CLOSED"
proof -
  have f: "fail_calls 0 [Timeout] (new_circuit_breaker 1 60 2) = (new_circuit_breaker 1 60 2)\<lparr>cb_failure_count := 1,
     cb_last_failure_time := Some 0, cb_success_count := 0, cb_state := OPEN\<rparr>"
    using fail_calls_count [of "new_circuit_breaker 1 60 2" "[Timeout]" 0] by (simp add: new_circuit_breaker_def)
  show ?thesis unfolding f
    by (subst breaker_recovers [where ?t0.0 = 0]) (simp_all add: new_circuit_breaker_def)
qed

end
