(* ===== verification/Metrics.thy ===== *)
theory Metrics
  imports Application
begin

text \<open>
  The metrics of \<open>src/app/core/metrics\<close>: their declarations, the registry that is scraped, and the
  middleware that counts requests while many of them are in flight. \<open>prometheus_client\<close> is used for
  its documented meaning of a labelled counter, gauge and histogram: one child per tuple of label
  values. Whether it is installed is a parameter.
\<close>

section \<open>Declarations\<close>

datatype metric_kind = CounterMetric | HistogramMetric | GaugeMetric

record metric_decl =
  mt_kind :: metric_kind
  mt_name :: string
  mt_help :: string
  mt_labels :: "string list"
  mt_multiprocess_mode :: "string option"

definition multiprocess_mode :: "string option \<Rightarrow> bool" where
  "multiprocess_mode env_dir = (case env_dir of None \<Rightarrow> False | Some d \<Rightarrow> d \<noteq> [])"

definition gauge_mode :: "bool \<Rightarrow> string \<Rightarrow> string option" where
  "gauge_mode multiprocess mode = (if multiprocess then Some mode else None)"

definition registry_metrics :: "bool \<Rightarrow> metric_decl list" where
  "registry_metrics multiprocess =
     [\<lparr>mt_kind = CounterMetric, mt_name = ''firecrawl_lb_requests_total'', mt_help = ''Total HTTP requests'',
       mt_labels = [''method'', ''path'', ''status''], mt_multiprocess_mode = None\<rparr>,
      \<lparr>mt_kind = HistogramMetric, mt_name = ''firecrawl_lb_request_duration_seconds'', mt_help = ''HTTP request duration'',
       mt_labels = [''method'', ''path''], mt_multiprocess_mode = None\<rparr>,
      \<lparr>mt_kind = CounterMetric, mt_name = ''firecrawl_lb_upstream_requests_total'',
       mt_help = ''Total Firecrawl upstream requests'', mt_labels = [''account_id'', ''status''],
       mt_multiprocess_mode = None\<rparr>,
      \<lparr>mt_kind = HistogramMetric, mt_name = ''firecrawl_lb_upstream_request_duration_seconds'',
       mt_help = ''Firecrawl upstream request duration'', mt_labels = [], mt_multiprocess_mode = None\<rparr>,
      \<lparr>mt_kind = GaugeMetric, mt_name = ''firecrawl_lb_active_connections'', mt_help = ''Active HTTP connections'',
       mt_labels = [], mt_multiprocess_mode = gauge_mode multiprocess ''livesum''\<rparr>,
      \<lparr>mt_kind = CounterMetric, mt_name = ''firecrawl_lb_rate_limit_hits_total'', mt_help = ''Rate limit hits'',
       mt_labels = [''type''], mt_multiprocess_mode = None\<rparr>,
      \<lparr>mt_kind = GaugeMetric, mt_name = ''firecrawl_lb_circuit_breaker_state'',
       mt_help = ''Circuit breaker state (0=closed, 1=open, 2=half-open)'', mt_labels = [''service''],
       mt_multiprocess_mode = gauge_mode multiprocess ''liveall''\<rparr>,
      \<lparr>mt_kind = GaugeMetric, mt_name = ''firecrawl_lb_accounts_total'',
       mt_help = ''Total Firecrawl accounts by status'', mt_labels = [''status''],
       mt_multiprocess_mode = gauge_mode multiprocess ''liveall''\<rparr>]"

text \<open>Without the library every name of the module is \<open>None\<close>.\<close>

definition declared_metrics :: "bool \<Rightarrow> string option \<Rightarrow> metric_decl list option" where
  "declared_metrics available env_dir = (if available then Some (registry_metrics (multiprocess_mode env_dir)) else None)"

text \<open>
  A registry refuses a second metric of a name; the names of the module differ, so importing it never
  fails there, and only gauges have a mode.
\<close>

lemma registry_metrics_distinct:
  "distinct (map mt_name (registry_metrics mp)) \<and>
   (\<forall>m\<in>set (registry_metrics mp). mt_multiprocess_mode m \<noteq> None \<longleftrightarrow> mp \<and> mt_kind m = GaugeMetric)"
  by (simp add: registry_metrics_def gauge_mode_def)

section \<open>Scraping and the end of a process\<close>

datatype scrape_registry = SharedRegistry | MultiprocessRegistry

text \<open>How a call into a library that may be missing ends.\<close>

datatype lib_exc = LibImportError | LibAttributeError | LibException | LibBaseException

definition make_scrape_registry ::
  "bool \<Rightarrow> bool \<Rightarrow> lib_exc option \<Rightarrow> lib_exc + scrape_registry option" where
  "make_scrape_registry available multiprocess collector =
     (if \<not> available then Inr None
      else if multiprocess then (case collector of Some e \<Rightarrow> Inl e | None \<Rightarrow> Inr (Some MultiprocessRegistry))
      else Inr (Some SharedRegistry))"

text \<open>\<open>marking\<close> is how the import and the call of \<open>mark_process_dead\<close> of the library end.\<close>

definition mark_process_dead :: "bool \<Rightarrow> bool \<Rightarrow> lib_exc option \<Rightarrow> lib_exc + unit" where
  "mark_process_dead available multiprocess marking =
     (if available \<and> multiprocess
      then (case marking of
              None \<Rightarrow> Inr ()
            | Some e \<Rightarrow> if e = LibImportError \<or> e = LibAttributeError then Inr () else Inl e)
      else Inr ())"

text \<open>What ends the task of the metrics server, with the exit code or the errno where there is one.\<close>

datatype server_end = Served | ServerExit "int option" | ServerOSError "int option" | ServerError

definition EADDRINUSE :: int where "EADDRINUSE = 98"
definition EADDRNOTAVAIL :: int where "EADDRNOTAVAIL = 99"

definition is_benign_metrics_bind_failure :: "bool \<Rightarrow> server_end \<Rightarrow> bool" where
  "is_benign_metrics_bind_failure multiprocess exc =
     (if \<not> multiprocess then False
      else case exc of
             ServerExit code \<Rightarrow> code = Some 1
           | ServerOSError no \<Rightarrow> no = Some EADDRINUSE \<or> no = Some EADDRNOTAVAIL
           | _ \<Rightarrow> False)"

text \<open>The task: its end and the line it logs about the port.\<close>

definition serve_metrics :: "bool \<Rightarrow> server_end \<Rightarrow> server_end \<times> string option" where
  "serve_metrics multiprocess r =
     (case r of
        ServerExit code \<Rightarrow>
          if is_benign_metrics_bind_failure multiprocess r
          then (Served, Some ''Metrics port %d unavailable (another worker likely serves metrics)'') else (r, None)
      | ServerOSError no \<Rightarrow>
          if is_benign_metrics_bind_failure multiprocess r
          then (Served, Some ''Metrics port %d already bound (another worker serves metrics)'') else (r, None)
      | _ \<Rightarrow> (r, None))"

text \<open>A single worker never hides that its port cannot be bound.\<close>

lemma serve_metrics_single_worker: "serve_metrics False r = (r, None)"
  by (cases r) (simp_all add: serve_metrics_def is_benign_metrics_bind_failure_def)

lemma serve_metrics_ends_well:
  "fst (serve_metrics mp r) = Served \<longleftrightarrow> r = Served \<or> mp \<and> r \<in> {ServerExit (Some 1), ServerOSError (Some 98), ServerOSError (Some 99)}"
  by (cases r) (auto simp: serve_metrics_def is_benign_metrics_bind_failure_def EADDRINUSE_def EADDRNOTAVAIL_def)

section \<open>The middleware\<close>

record metrics_scope =
  sc_type :: string
  sc_method :: "string option"
  sc_path :: "string option"

text \<open>The children of the three metrics the middleware writes.\<close>

record metrics_state =
  ms_active :: int
  ms_total :: "string \<times> string \<times> string \<Rightarrow> nat"
  ms_durations :: "string \<times> string \<Rightarrow> rat list"

text \<open>The locals of one call of the middleware.\<close>

record metered =
  mq_method :: string
  mq_path :: string
  mq_status :: int
  mq_start :: rat

definition metrics_applies :: "bool \<Rightarrow> bool \<Rightarrow> metrics_scope \<Rightarrow> bool" where
  "metrics_applies enabled available sc = (\<not> (sc_type sc \<noteq> ''http'' \<or> \<not> enabled \<or> \<not> available))"

definition metrics_enter :: "metrics_scope \<Rightarrow> rat \<Rightarrow> metrics_state \<Rightarrow> metered \<times> metrics_state" where
  "metrics_enter sc now ms =
     (\<lparr>mq_method = (case sc_method sc of None \<Rightarrow> ''GET'' | Some m \<Rightarrow> m),
       mq_path = metrics_path (case sc_path sc of None \<Rightarrow> ''/'' | Some p \<Rightarrow> p), mq_status = 500, mq_start = now\<rparr>,
      ms\<lparr>ms_active := ms_active ms + 1\<rparr>)"

text \<open>\<open>send_wrapper\<close> looks only at the type; a start without a status is a \<open>KeyError\<close> before anything is sent.\<close>

definition send_wrapper :: "asgi_message \<Rightarrow> metered \<Rightarrow> pyexc + (metered \<times> asgi_message)" where
  "send_wrapper msg q =
     (case msg of
        ResponseStart ty status _ \<Rightarrow> Inr (if ty = ''http.response.start'' then q\<lparr>mq_status := status\<rparr> else q, msg)
      | ResponseBody ty _ \<Rightarrow> if ty = ''http.response.start'' then Inl KeyError else Inr (q, msg))"

definition metrics_leave :: "rat \<Rightarrow> metered \<Rightarrow> metrics_state \<Rightarrow> metrics_state" where
  "metrics_leave now q ms =
     (let k = (mq_method q, mq_path q, py_str_int (mq_status q)); h = (mq_method q, mq_path q)
      in ms\<lparr>ms_total := (ms_total ms)(k := ms_total ms k + 1),
            ms_durations := (ms_durations ms)(h := ms_durations ms h @ [now - mq_start q]),
            ms_active := ms_active ms - 1\<rparr>)"

text \<open>
  Requests interleave at the awaits of the application behind the middleware: each arrives, sends
  messages and ends, by returning, raising or being cancelled (the \<open>finally\<close> block runs for all
  three). A request is known by a number.
\<close>

datatype meter_event = Arrives nat metrics_scope rat | Sends nat asgi_message | Ends nat rat

record meter_system =
  my_metrics :: metrics_state
  my_running :: "nat \<Rightarrow> metered option"

definition meter_start :: meter_system where
  "meter_start = \<lparr>my_metrics = \<lparr>ms_active = 0, ms_total = (\<lambda>_. 0), ms_durations = (\<lambda>_. [])\<rparr>, my_running = (\<lambda>_. None)\<rparr>"

fun meter_step :: "bool \<Rightarrow> bool \<Rightarrow> meter_event \<Rightarrow> meter_system \<Rightarrow> meter_system" where
  "meter_step enabled available (Arrives i sc now) s =
     (if metrics_applies enabled available sc
      then case metrics_enter sc now (my_metrics s) of
             (q, ms) \<Rightarrow> \<lparr>my_metrics = ms, my_running = (my_running s)(i \<mapsto> q)\<rparr>
      else s)"
| "meter_step enabled available (Sends i msg) s =
     (case my_running s i of
        None \<Rightarrow> s
      | Some q \<Rightarrow> (case send_wrapper msg q of Inl _ \<Rightarrow> s | Inr (q', _) \<Rightarrow> s\<lparr>my_running := (my_running s)(i \<mapsto> q')\<rparr>))"
| "meter_step enabled available (Ends i now) s =
     (case my_running s i of
        None \<Rightarrow> s
      | Some q \<Rightarrow> \<lparr>my_metrics = metrics_leave now q (my_metrics s), my_running = (my_running s)(i := None)\<rparr>)"

definition meter_run :: "bool \<Rightarrow> bool \<Rightarrow> meter_event list \<Rightarrow> meter_system" where
  "meter_run enabled available evs = fold (meter_step enabled available) evs meter_start"

lemma meter_run_simps [simp]:
  "meter_run en av [] = meter_start"
  "meter_run en av (evs @ [e]) = meter_step en av e (meter_run en av evs)"
  by (simp_all add: meter_run_def)

section \<open>What the log says of a request\<close>

definition meter_arrivals :: "meter_event list \<Rightarrow> (nat \<times> metrics_scope \<times> rat) list" where
  "meter_arrivals evs = concat (map (\<lambda>e. case e of Arrives i sc t \<Rightarrow> [(i, sc, t)] | _ \<Rightarrow> []) evs)"

definition ends_request :: "nat \<Rightarrow> meter_event \<Rightarrow> bool" where
  "ends_request i e = (case e of Ends j _ \<Rightarrow> j = i | _ \<Rightarrow> False)"

definition has_ended :: "nat \<Rightarrow> meter_event list \<Rightarrow> bool" where
  "has_ended i evs = list_ex (ends_request i) evs"

text \<open>The status a client has been told: the last response start before the end, 500 if there is none.\<close>

definition status_sent :: "nat \<Rightarrow> meter_event \<Rightarrow> int list" where
  "status_sent i e =
     (case e of Sends j (ResponseStart ty status _) \<Rightarrow> if j = i \<and> ty = ''http.response.start'' then [status] else [] | _ \<Rightarrow> [])"

definition last_status :: "nat \<Rightarrow> meter_event list \<Rightarrow> int" where
  "last_status i evs = last (500 # concat (map (status_sent i) (takeWhile (\<lambda>e. \<not> ends_request i e) evs)))"

definition scope_labels :: "metrics_scope \<Rightarrow> string \<times> string" where
  "scope_labels sc = (case sc_method sc of None \<Rightarrow> ''GET'' | Some m \<Rightarrow> m,
     metrics_path (case sc_path sc of None \<Rightarrow> ''/'' | Some p \<Rightarrow> p))"

text \<open>The metered requests of a log with their labels, those that have ended and those in flight.\<close>

definition metered_requests :: "bool \<Rightarrow> bool \<Rightarrow> meter_event list \<Rightarrow> (nat \<times> metrics_scope \<times> rat) list" where
  "metered_requests enabled available evs = filter (\<lambda>(i, sc, t). metrics_applies enabled available sc) (meter_arrivals evs)"

definition ended_requests :: "bool \<Rightarrow> bool \<Rightarrow> meter_event list \<Rightarrow> (nat \<times> metrics_scope \<times> rat) list" where
  "ended_requests enabled available evs = filter (\<lambda>(i, sc, t). has_ended i evs) (metered_requests enabled available evs)"

definition request_labels :: "meter_event list \<Rightarrow> nat \<times> metrics_scope \<times> rat \<Rightarrow> string \<times> string \<times> string" where
  "request_labels evs = (\<lambda>(i, sc, t). (fst (scope_labels sc), snd (scope_labels sc), py_str_int (last_status i evs)))"

text \<open>A log in which no request arrives twice, and none sends or ends before it has arrived.\<close>

inductive meter_log :: "meter_event list \<Rightarrow> bool" where
  empty_log: "meter_log []"
| arrival: "meter_log evs \<Longrightarrow> i \<notin> fst ` set (meter_arrivals evs) \<Longrightarrow> meter_log (evs @ [Arrives i sc t])"
| sending: "meter_log evs \<Longrightarrow> i \<in> fst ` set (meter_arrivals evs) \<Longrightarrow> meter_log (evs @ [Sends i msg])"
| ending: "meter_log evs \<Longrightarrow> i \<in> fst ` set (meter_arrivals evs) \<Longrightarrow> meter_log (evs @ [Ends i t])"

lemma meter_arrivals_snoc [simp]:
  "meter_arrivals [] = []"
  "meter_arrivals (evs @ [Arrives i sc t]) = meter_arrivals evs @ [(i, sc, t)]"
  "meter_arrivals (evs @ [Sends i msg]) = meter_arrivals evs"
  "meter_arrivals (evs @ [Ends i t]) = meter_arrivals evs"
  by (simp_all add: meter_arrivals_def)

lemma has_ended_snoc [simp]:
  "has_ended i [] = False"
  "has_ended i (evs @ [Arrives j sc t]) = has_ended i evs"
  "has_ended i (evs @ [Sends j msg]) = has_ended i evs"
  "has_ended i (evs @ [Ends j t]) = (has_ended i evs \<or> j = i)"
  by (auto simp: has_ended_def ends_request_def)

lemma last_singleton: "last [x] = x"
  by simp

lemma last_Cons_append: "last (x # xs @ ys) = last (last (x # xs) # ys)"
  by (induction ys rule: rev_induct) simp_all

lemma last_status_snoc:
  "last_status i (evs @ [e]) =
     (if has_ended i evs \<or> ends_request i e then last_status i evs else last (last_status i evs # status_sent i e))"
proof (cases "has_ended i evs")
  case True
  then have "takeWhile (\<lambda>e. \<not> ends_request i e) (evs @ [e]) = takeWhile (\<lambda>e. \<not> ends_request i e) evs"
    by (auto simp: has_ended_def list_ex_iff intro: takeWhile_append1)
  with True show ?thesis by (simp add: last_status_def)
next
  case False
  then have all: "\<forall>x\<in>set evs. \<not> ends_request i x" by (simp add: has_ended_def list_ex_iff)
  have "concat (map (status_sent i) (takeWhile (\<lambda>e. \<not> ends_request i e) (evs @ [e]))) =
      concat (map (status_sent i) evs) @ (if ends_request i e then [] else status_sent i e)"
    using all by (subst takeWhile_append2) auto
  moreover have "takeWhile (\<lambda>e. \<not> ends_request i e) evs = evs" using all by simp
  ultimately show ?thesis using False
    by (cases "ends_request i e") (simp_all only: last_status_def last_Cons_append if_True if_False
        last_singleton append_Nil2 simp_thms)
qed

lemma last_status_other [simp]:
  "last_status i (evs @ [Arrives j sc t]) = last_status i evs"
  "last_status i (evs @ [Ends j t]) = last_status i evs"
  "j \<noteq> i \<Longrightarrow> last_status i (evs @ [Sends j msg]) = last_status i evs"
  by (auto simp: last_status_snoc status_sent_def split: asgi_message.split)

lemma log_distinct: "meter_log evs \<Longrightarrow> distinct (map fst (meter_arrivals evs))"
  by (induction rule: meter_log.induct) (auto simp: image_iff)

text \<open>An end or a message of a request that has not arrived is not in the log.\<close>

lemma not_arrived:
  "meter_log evs \<Longrightarrow> i \<notin> fst ` set (meter_arrivals evs) \<Longrightarrow> \<not> has_ended i evs \<and> last_status i evs = 500"
proof (induction rule: meter_log.induct)
  case empty_log
  show ?case by (simp add: last_status_def)
next
  case (sending evs j msg)
  then have "j \<noteq> i" by auto
  with sending show ?case by simp
qed auto

section \<open>The middleware counts what the log says\<close>

definition metered_locals :: "meter_event list \<Rightarrow> nat \<times> metrics_scope \<times> rat \<Rightarrow> metered" where
  "metered_locals evs = (\<lambda>(i, sc, t).
     \<lparr>mq_method = fst (scope_labels sc), mq_path = snd (scope_labels sc), mq_status = last_status i evs, mq_start = t\<rparr>)"

lemma running_requests:
  assumes "meter_log evs"
  shows "my_running (meter_run en av evs) i =
    (case map_of (metered_requests en av evs) i of
       None \<Rightarrow> None
     | Some (sc, t) \<Rightarrow> if has_ended i evs then None else Some (metered_locals evs (i, sc, t)))"
  using assms
proof (induction rule: meter_log.induct)
  case empty_log
  show ?case by (simp add: meter_start_def metered_requests_def)
next
  case (arrival evs j sc t)
  have "map_of (metered_requests en av evs) j = None"
    using arrival.hyps(2) by (force simp: map_of_eq_None_iff metered_requests_def)
  with arrival not_arrived [OF arrival.hyps(1,2)] show ?case
    by (auto simp: metered_requests_def map_add_def metrics_enter_def metered_locals_def scope_labels_def
        split: option.splits)
next
  case (sending evs j msg)
  then show ?case
    by (auto simp: metered_requests_def metered_locals_def last_status_snoc ends_request_def status_sent_def
        send_wrapper_def split: option.splits asgi_message.splits)
next
  case (ending evs j t)
  then show ?case by (auto simp: metered_requests_def metered_locals_def split: option.splits)
qed

lemma filter_one_more:
  assumes "distinct (map fst xs)" and "map_of xs j = Some v" and "\<not> P j"
  shows "length (filter Q (filter (\<lambda>(i, x). P i \<or> i = j) xs)) =
    length (filter Q (filter (\<lambda>(i, x). P i) xs)) + (if Q (j, v) then 1 else 0)"
  using assms
proof (induction xs)
  case (Cons r xs)
  show ?case
  proof (cases "fst r = j")
    case True
    with Cons.prems(1) have "j \<notin> fst ` set xs" by (cases r) auto
    then have "filter (\<lambda>(i, x). P i \<or> i = j) xs = filter (\<lambda>(i, x). P i) xs" by (intro filter_cong) force+
    with True Cons.prems show ?thesis by (cases r) auto
  next
    case False
    with Cons show ?thesis by (cases r) auto
  qed
qed simp

lemma filter_none_more:
  assumes "j \<notin> fst ` set xs \<or> P j"
  shows "filter (\<lambda>(i, x). P i \<or> i = j) xs = filter (\<lambda>(i, x). P i) xs"
  using assms by (intro filter_cong) force+

lemma metered_distinct: "meter_log evs \<Longrightarrow> distinct (map fst (metered_requests en av evs))"
  unfolding metered_requests_def by (intro distinct_map_filter log_distinct)

lemma ended_snoc:
  assumes "meter_log evs"
  shows "j \<notin> fst ` set (meter_arrivals evs) \<Longrightarrow>
      ended_requests en av (evs @ [Arrives j sc t]) = ended_requests en av evs"
    and "ended_requests en av (evs @ [Sends j msg]) = ended_requests en av evs"
    and "ended_requests en av (evs @ [Ends j t]) =
      filter (\<lambda>(i, x). has_ended i evs \<or> i = j) (metered_requests en av evs)"
  using not_arrived [OF assms] by (auto simp: ended_requests_def metered_requests_def intro!: filter_cong)

text \<open>What is said of an ended request does not change any more.\<close>

lemma ended_labels:
  assumes "r \<in> set (ended_requests en av evs)"
  shows "request_labels (evs @ [e]) r = request_labels evs r"
  using assms by (auto simp: ended_requests_def request_labels_def last_status_snoc)

definition counted :: "meter_event list \<Rightarrow> (nat \<times> metrics_scope \<times> rat) list \<Rightarrow> string \<times> string \<times> string \<Rightarrow> nat" where
  "counted evs rs k = length (filter (\<lambda>r. request_labels evs r = k) rs)"

lemma counted_snoc: "counted (evs @ [e]) (ended_requests en av evs) k = counted evs (ended_requests en av evs) k"
  unfolding counted_def by (rule arg_cong [of _ _ length], rule filter_cong) (simp_all add: ended_labels)

lemma metrics_after_end:
  assumes "meter_log evs"
    and total: "\<And>k. ms_total (my_metrics (meter_run en av evs)) k = counted evs (ended_requests en av evs) k"
    and active: "ms_active (my_metrics (meter_run en av evs)) =
      int (length (metered_requests en av evs)) - int (length (ended_requests en av evs))"
  shows "ms_total (my_metrics (meter_run en av (evs @ [Ends j t]))) k =
      counted (evs @ [Ends j t]) (ended_requests en av (evs @ [Ends j t])) k"
    and "ms_active (my_metrics (meter_run en av (evs @ [Ends j t]))) =
      int (length (metered_requests en av (evs @ [Ends j t]))) - int (length (ended_requests en av (evs @ [Ends j t])))"
proof -
  let ?rs = "metered_requests en av evs" and ?e = "Ends j t"
  have rs: "metered_requests en av (evs @ [?e]) = ?rs" by (simp add: metered_requests_def)
  have lab: "request_labels (evs @ [?e]) = request_labels evs" by (intro ext) (simp add: request_labels_def)
  have ended: "ended_requests en av evs = filter (\<lambda>(i, x). has_ended i evs) ?rs"
    by (auto simp: ended_requests_def intro!: filter_cong)
  have run: "my_running (meter_run en av evs) j = (case map_of ?rs j of None \<Rightarrow> None
     | Some (sc, t) \<Rightarrow> if has_ended j evs then None else Some (metered_locals evs (j, sc, t)))"
    by (rule running_requests [OF assms(1)])
  have "ms_total (my_metrics (meter_run en av (evs @ [?e]))) k =
        counted (evs @ [?e]) (ended_requests en av (evs @ [?e])) k \<and>
      ms_active (my_metrics (meter_run en av (evs @ [?e]))) =
        int (length ?rs) - int (length (ended_requests en av (evs @ [?e])))"
  proof (cases "map_of ?rs j = None \<or> has_ended j evs")
    case True
    then have idle: "my_running (meter_run en av evs) j = None" using run by (auto split: option.splits)
    from True have "ended_requests en av (evs @ [?e]) = ended_requests en av evs"
      unfolding ended_snoc(3) [OF assms(1)] ended by (intro filter_none_more) (auto simp: map_of_eq_None_iff)
    with idle total active rs lab show ?thesis by (simp add: counted_def)
  next
    case False
    then obtain sc t0 where m: "map_of ?rs j = Some (sc, t0)" and unended: "\<not> has_ended j evs" by auto
    then have busy: "my_running (meter_run en av evs) j = Some (metered_locals evs (j, sc, t0))" using run by simp
    note one_more = filter_one_more [OF metered_distinct [OF assms(1)] m, where P = "\<lambda>i. has_ended i evs", OF unended]
    have "length (ended_requests en av (evs @ [?e])) = length (ended_requests en av evs) + 1"
      using one_more [of "\<lambda>_. True"] by (simp add: ended_snoc(3) [OF assms(1)] ended)
    moreover have "counted (evs @ [?e]) (ended_requests en av (evs @ [?e])) k =
        counted evs (ended_requests en av evs) k + (if request_labels evs (j, sc, t0) = k then 1 else 0)"
      unfolding counted_def lab ended_snoc(3) [OF assms(1)] ended by (rule one_more)
    ultimately show ?thesis using busy total active rs
      by (simp add: metrics_leave_def metered_locals_def request_labels_def Let_def)
  qed
  then show "ms_total (my_metrics (meter_run en av (evs @ [?e]))) k =
      counted (evs @ [?e]) (ended_requests en av (evs @ [?e])) k"
    and "ms_active (my_metrics (meter_run en av (evs @ [?e]))) =
      int (length (metered_requests en av (evs @ [?e]))) - int (length (ended_requests en av (evs @ [?e])))"
    unfolding rs by simp_all
qed

lemma metrics_count_the_log:
  assumes "meter_log evs"
  shows "(\<forall>k. ms_total (my_metrics (meter_run en av evs)) k = counted evs (ended_requests en av evs) k) \<and>
    ms_active (my_metrics (meter_run en av evs)) =
      int (length (metered_requests en av evs)) - int (length (ended_requests en av evs))"
  using assms
proof (induction rule: meter_log.induct)
  case empty_log
  show ?case by (simp add: meter_start_def metered_requests_def ended_requests_def counted_def)
next
  case (arrival evs j sc t)
  then show ?case
    using counted_snoc [of evs "Arrives j sc t" en av]
    by (auto simp: metrics_enter_def ended_snoc(1) [OF arrival.hyps(1,2)] metered_requests_def)
next
  case (sending evs j msg)
  then show ?case
    using counted_snoc [of evs "Sends j msg" en av]
    by (auto simp: ended_snoc(2) [OF sending.hyps(1)] metered_requests_def split: option.splits sum.splits)
next
  case (ending evs j t)
  then show ?case
    using metrics_after_end [OF ending.hyps(1), of en av j t] by blast
qed

text \<open>The gauge is the number of requests in flight, so it never falls below zero.\<close>

lemma active_is_in_flight:
  assumes "meter_log evs"
  shows "ms_active (my_metrics (meter_run en av evs)) =
    int (length (filter (\<lambda>(i, r). \<not> has_ended i evs) (metered_requests en av evs)))"
proof -
  have "length (filter (\<lambda>(i, r). \<not> has_ended i evs) (metered_requests en av evs)) =
      length (metered_requests en av evs) - length (ended_requests en av evs)"
    using sum_length_filter_compl [of "\<lambda>(i, r). has_ended i evs" "metered_requests en av evs"]
    by (simp add: ended_requests_def case_prod_unfold)
  moreover have "length (ended_requests en av evs) \<le> length (metered_requests en av evs)"
    by (simp add: ended_requests_def)
  ultimately show ?thesis using metrics_count_the_log [OF assms, of en av] by (simp add: of_nat_diff)
qed

text \<open>
  C30: While any number of requests interleave, the request counter holds under each method, path
  label and status exactly the number of requests that ended with these labels, each once and with the
  last status it was told (500 when it was told none, whether it returned, raised or was cancelled);
  the gauge is the number of requests in flight; and no label value of a path is longer than fifty
  characters.
\<close>

theorem metrics_exact:
  assumes "meter_log evs"
  shows "ms_total (my_metrics (meter_run enabled available evs)) k =
      length (filter (\<lambda>r. request_labels evs r = k) (ended_requests enabled available evs)) \<and>
    ms_active (my_metrics (meter_run enabled available evs)) =
      int (length (filter (\<lambda>(i, r). \<not> has_ended i evs) (metered_requests enabled available evs))) \<and>
    (ms_total (my_metrics (meter_run enabled available evs)) k \<noteq> 0 \<longrightarrow> length (fst (snd k)) \<le> 50)"
proof -
  let ?n = "length (filter (\<lambda>r. request_labels evs r = k) (ended_requests enabled available evs))"
  have total: "ms_total (my_metrics (meter_run enabled available evs)) k = ?n"
    using metrics_count_the_log [OF assms, of enabled available] unfolding counted_def by blast
  have "length (fst (snd k)) \<le> 50" if "?n \<noteq> 0"
  proof -
    from that obtain r where "request_labels evs r = k" by (auto simp: filter_empty_conv)
    then show ?thesis using metrics_path_bounded
      by (cases r) (auto simp: request_labels_def scope_labels_def)
  qed
  with total active_is_in_flight [OF assms] show ?thesis by simp
qed

text \<open>
  Two requests to the same route overlap: the first is answered 200, the second is cancelled before
  it is answered; a third to the health routes is still in flight.
\<close>

definition sample_log :: "meter_event list" where
  "sample_log =
     [Arrives 1 \<lparr>sc_type = ''http'', sc_method = Some ''POST'', sc_path = Some ''/v2/scrape''\<rparr> 0,
      Arrives 2 \<lparr>sc_type = ''http'', sc_method = Some ''POST'', sc_path = Some ''/v2/map''\<rparr> 1,
      Sends 1 (ResponseStart ''http.response.start'' 200 []), Ends 2 2, Ends 1 3,
      Arrives 3 \<lparr>sc_type = ''http'', sc_method = None, sc_path = Some ''/health/live''\<rparr> 4]"

lemma sample_log_ok: "meter_log sample_log"
proof -
  let ?post = "\<lambda>p. \<lparr>sc_type = ''http'', sc_method = Some ''POST'', sc_path = Some p\<rparr>"
  have "meter_log [Arrives 1 (?post ''/v2/scrape'') 0]"
    using arrival [OF empty_log, of 1 "?post ''/v2/scrape''" 0] by simp
  from arrival [OF this, of 2 "?post ''/v2/map''" 1]
  have "meter_log (take 2 sample_log)" by (simp add: meter_arrivals_def sample_log_def)
  from sending [OF this, of 1 "ResponseStart ''http.response.start'' 200 []"]
  have "meter_log (take 3 sample_log)" by (simp add: meter_arrivals_def sample_log_def)
  from ending [OF this, of 2 2] have "meter_log (take 4 sample_log)" by (simp add: meter_arrivals_def sample_log_def)
  from ending [OF this, of 1 3] have "meter_log (take 5 sample_log)" by (simp add: meter_arrivals_def sample_log_def)
  from arrival [OF this, of 3 "\<lparr>sc_type = ''http'', sc_method = None, sc_path = Some ''/health/live''\<rparr>" 4]
  show ?thesis by (simp add: meter_arrivals_def sample_log_def)
qed

lemma status_labels: "py_str_int 200 = ''200''" "py_str_int 500 = ''500''"
  by code_simp+

theorem metrics_exact_witness:
  "ms_total (my_metrics (meter_run True True sample_log)) (''POST'', ''/v2/...'', ''200'') = 1 \<and>
   ms_total (my_metrics (meter_run True True sample_log)) (''POST'', ''/v2/...'', ''500'') = 1 \<and>
   ms_active (my_metrics (meter_run True True sample_log)) = 1"
  using metrics_exact [OF sample_log_ok, of True True "(''POST'', ''/v2/...'', ''200'')"]
    metrics_exact [OF sample_log_ok, of True True "(''POST'', ''/v2/...'', ''500'')"]
  by (simp add: sample_log_def ended_requests_def metered_requests_def meter_arrivals_def metrics_applies_def
      request_labels_def scope_labels_def has_ended_def ends_request_def last_status_def status_sent_def
      metrics_path_def startswith_def status_labels)

end
