(* ===== verification/Tracing.thy ===== *)
theory Tracing
  imports Metrics IpAddress
begin

text \<open>
  Distributed tracing, \<open>src/app/core/tracing/otel.py\<close>. OpenTelemetry is optional: every call into it
  may raise, and \<open>lib\<close> says how each call ends. The calls are kept as a trace, so that it can be stated
  what the source did with the library and in which order.
\<close>

section \<open>Calls into the library\<close>

datatype lib_call =
    ImportModule string
  | GetAttr string string
  | NewProvider string
  | NewExporter string
  | AddSpanProcessor
  | SetTracerProvider
  | InstrumentApp
  | Instrument string

record tracing_state =
  tr_initialized :: bool
  tr_calls :: "lib_call list"
  tr_logs :: "string list"

text \<open>A sequence of calls up to the first that raises.\<close>

fun perform :: "(lib_call \<Rightarrow> lib_exc option) \<Rightarrow> lib_call list \<Rightarrow> tracing_state \<Rightarrow> tracing_state \<times> lib_exc option" where
  "perform lib [] st = (st, None)"
| "perform lib (c # cs) st =
     (let st' = st\<lparr>tr_calls := tr_calls st @ [c]\<rparr>
      in case lib c of Some e \<Rightarrow> (st', Some e) | None \<Rightarrow> perform lib cs st')"

definition tr_log :: "string \<Rightarrow> tracing_state \<Rightarrow> tracing_state" where
  "tr_log m st = st\<lparr>tr_logs := tr_logs st @ [m]\<rparr>"

section \<open>Initialisation\<close>

definition core_calls :: "string \<Rightarrow> lib_call list" where
  "core_calls service_name =
     [ImportModule ''opentelemetry.trace'', ImportModule ''opentelemetry.sdk.trace'',
      ImportModule ''opentelemetry.sdk.resources'', ImportModule ''opentelemetry.sdk.trace.export'',
      GetAttr ''opentelemetry.sdk.resources'' ''Resource'', GetAttr ''opentelemetry.sdk.resources'' ''SERVICE_NAME'',
      GetAttr ''opentelemetry.sdk.trace'' ''TracerProvider'',
      GetAttr ''opentelemetry.sdk.trace.export'' ''BatchSpanProcessor'', NewProvider service_name]"

definition export_calls :: "string \<Rightarrow> lib_call list" where
  "export_calls endpoint =
     [ImportModule ''opentelemetry.exporter.otlp.proto.grpc.trace_exporter'',
      GetAttr ''opentelemetry.exporter.otlp.proto.grpc.trace_exporter'' ''OTLPSpanExporter'',
      NewExporter endpoint, AddSpanProcessor]"

definition export_step :: "(lib_call \<Rightarrow> lib_exc option) \<Rightarrow> string \<Rightarrow> tracing_state \<Rightarrow> tracing_state \<times> lib_exc option" where
  "export_step lib endpoint st =
     (if endpoint = [] then (st, None)
      else case perform lib (export_calls endpoint) st of
             (st', Some LibImportError) \<Rightarrow> (tr_log ''OTLP exporter not available; tracing without export'' st', None)
           | r \<Rightarrow> r)"

text \<open>An instrumentation: a missing package is passed over, any other \<open>Exception\<close> is logged.\<close>

definition instrument_step ::
  "(lib_call \<Rightarrow> lib_exc option) \<Rightarrow> lib_call list \<Rightarrow> string \<Rightarrow> tracing_state \<Rightarrow> tracing_state \<times> lib_exc option" where
  "instrument_step lib cs message st =
     (case perform lib cs st of
        (st', None) \<Rightarrow> (st', None)
      | (st', Some LibImportError) \<Rightarrow> (st', None)
      | (st', Some LibBaseException) \<Rightarrow> (st', Some LibBaseException)
      | (st', Some _) \<Rightarrow> (tr_log message st', None))"

definition fastapi_calls :: "bool \<Rightarrow> lib_call list" where
  "fastapi_calls app_given =
     [ImportModule ''opentelemetry.instrumentation.fastapi'',
      GetAttr ''opentelemetry.instrumentation.fastapi'' ''FastAPIInstrumentor'',
      if app_given then InstrumentApp else Instrument ''FastAPIInstrumentor'']"

definition aiohttp_calls :: "lib_call list" where
  "aiohttp_calls =
     [ImportModule ''opentelemetry.instrumentation.aiohttp_client'',
      GetAttr ''opentelemetry.instrumentation.aiohttp_client'' ''AioHttpClientInstrumentor'',
      Instrument ''AioHttpClientInstrumentor'']"

definition sqlalchemy_calls :: "lib_call list" where
  "sqlalchemy_calls =
     [ImportModule ''opentelemetry.instrumentation.sqlalchemy'',
      GetAttr ''opentelemetry.instrumentation.sqlalchemy'' ''SQLAlchemyInstrumentor'',
      Instrument ''SQLAlchemyInstrumentor'']"

text \<open>Steps one after the other, up to the first that raises.\<close>

fun in_turn :: "(tracing_state \<Rightarrow> tracing_state \<times> lib_exc option) list \<Rightarrow> tracing_state \<Rightarrow> tracing_state \<times> lib_exc option" where
  "in_turn [] st = (st, None)"
| "in_turn (f # fs) st = (case f st of (st', Some e) \<Rightarrow> (st', Some e) | (st', None) \<Rightarrow> in_turn fs st')"

definition tracing_steps ::
  "(lib_call \<Rightarrow> lib_exc option) \<Rightarrow> string \<Rightarrow> string \<Rightarrow> bool \<Rightarrow> (tracing_state \<Rightarrow> tracing_state \<times> lib_exc option) list" where
  "tracing_steps lib service_name endpoint app_given =
     [perform lib (core_calls service_name), export_step lib endpoint, perform lib [SetTracerProvider],
      instrument_step lib (fastapi_calls app_given) ''Failed to auto-instrument FastAPI'',
      instrument_step lib aiohttp_calls ''Failed to auto-instrument aiohttp client'',
      instrument_step lib sqlalchemy_calls ''Failed to auto-instrument SQLAlchemy'']"

definition init_tracing ::
  "(lib_call \<Rightarrow> lib_exc option) \<Rightarrow> string \<Rightarrow> string \<Rightarrow> bool \<Rightarrow> tracing_state \<Rightarrow> tracing_state \<times> (lib_exc + bool)" where
  "init_tracing lib service_name endpoint app_given st =
     (if tr_initialized st then (st, Inr True)
      else case in_turn (tracing_steps lib service_name endpoint app_given) st of
             (st', None) \<Rightarrow>
               (tr_log ''OpenTelemetry tracing initialized (service=%s)'' (st'\<lparr>tr_initialized := True\<rparr>), Inr True)
           | (st', Some LibImportError) \<Rightarrow> (tr_log ''opentelemetry packages not installed; tracing disabled. Install with: pip install firecrawl-lb[tracing]'' st', Inr False)
           | (st', Some e) \<Rightarrow> (st', Inl e))"

definition is_initialized :: "tracing_state \<Rightarrow> bool" where
  "is_initialized st = tr_initialized st"

section \<open>Identifiers\<close>

record span_context =
  sp_is_valid :: bool
  sp_trace_id :: int
  sp_span_id :: int

text \<open>\<open>format(n, "0<width>x")\<close>: the sign counts as a digit.\<close>

definition format_hex :: "nat \<Rightarrow> int \<Rightarrow> string" where
  "format_hex width n =
     (if n < 0 then ''-'' @ (let h = hex_of (- n) in replicate (width - 1 - length h) (CHR ''0'') @ h)
      else (let h = hex_of n in replicate (width - length h) (CHR ''0'') @ h))"

text \<open>\<open>current\<close> is the import of the library with the context of the current span, which may be \<open>None\<close>.\<close>

definition current_id ::
  "nat \<Rightarrow> (span_context \<Rightarrow> int) \<Rightarrow> lib_exc + span_context option \<Rightarrow> lib_exc + string option" where
  "current_id width get current =
     (case current of
        Inl LibBaseException \<Rightarrow> Inl LibBaseException
      | Inl _ \<Rightarrow> Inr None
      | Inr None \<Rightarrow> Inr None
      | Inr (Some ctx) \<Rightarrow> Inr (if sp_is_valid ctx then Some (format_hex width (get ctx)) else None))"

definition get_current_trace_id :: "lib_exc + span_context option \<Rightarrow> lib_exc + string option" where
  "get_current_trace_id current = current_id 32 sp_trace_id current"

definition get_current_span_id :: "lib_exc + span_context option \<Rightarrow> lib_exc + string option" where
  "get_current_span_id current = current_id 16 sp_span_id current"

section \<open>The provider is set once\<close>

definition provider_sets :: "lib_call list \<Rightarrow> nat" where
  "provider_sets cs = length (filter (\<lambda>c. c = SetTracerProvider) cs)"

lemma provider_sets_simps [simp]:
  "provider_sets [] = 0"
  "provider_sets (xs @ ys) = provider_sets xs + provider_sets ys"
  "provider_sets (c # cs) = (if c = SetTracerProvider then 1 else 0) + provider_sets cs"
  by (simp_all add: provider_sets_def)

lemma perform_keeps:
  assumes "SetTracerProvider \<notin> set cs" and "perform lib cs st = (st', r)"
  shows "provider_sets (tr_calls st') = provider_sets (tr_calls st) \<and> tr_initialized st' = tr_initialized st"
  using assms by (induction cs arbitrary: st) (auto simp: Let_def split: option.splits)

lemma perform_raises: "perform lib cs st = (st', Some e) \<Longrightarrow> \<exists>c\<in>set cs. lib c = Some e"
  by (induction cs arbitrary: st) (auto simp: Let_def split: option.splits)

lemma no_provider [simp]:
  "SetTracerProvider \<notin> set (core_calls s)" "SetTracerProvider \<notin> set (export_calls ep)"
  "SetTracerProvider \<notin> set (fastapi_calls a)" "SetTracerProvider \<notin> set aiohttp_calls"
  "SetTracerProvider \<notin> set sqlalchemy_calls"
  by (simp_all add: core_calls_def export_calls_def fastapi_calls_def aiohttp_calls_def sqlalchemy_calls_def)

lemma tr_log_simps [simp]:
  "tr_calls (tr_log m st) = tr_calls st" "tr_initialized (tr_log m st) = tr_initialized st"
  by (simp_all add: tr_log_def)

lemma export_keeps:
  "export_step lib ep st = (st', r) \<Longrightarrow>
     provider_sets (tr_calls st') = provider_sets (tr_calls st) \<and> tr_initialized st' = tr_initialized st"
  by (auto simp: export_step_def dest!: perform_keeps [rotated]
      split: if_splits prod.splits option.splits lib_exc.splits)

lemma instrument_keeps:
  "SetTracerProvider \<notin> set cs \<Longrightarrow> instrument_step lib cs m st = (st', r) \<Longrightarrow>
     provider_sets (tr_calls st') = provider_sets (tr_calls st) \<and> tr_initialized st' = tr_initialized st \<and>
     (r = None \<or> r = Some LibBaseException)"
  by (auto simp: instrument_step_def dest!: perform_keeps [rotated] split: prod.splits option.splits lib_exc.splits)

lemma init_tracing_step:
  assumes "init_tracing lib s ep a st = (st', r)"
    and "lib SetTracerProvider = None" and "\<And>c. lib c \<noteq> Some LibBaseException"
  shows "provider_sets (tr_calls st') = provider_sets (tr_calls st) +
      (if tr_initialized st' \<and> \<not> tr_initialized st then 1 else 0) \<and>
    (tr_initialized st \<longrightarrow> tr_initialized st') \<and> (r = Inr True \<longleftrightarrow> tr_initialized st')"
proof (cases "tr_initialized st")
  case True
  with assms(1) show ?thesis by (simp add: init_tracing_def)
next
  case False
  have no_base: "r \<noteq> Some LibBaseException" if "perform lib cs x = (y, r)" for cs x y r
    using that perform_raises assms(3) by metis
  have instr: "r = None" if "instrument_step lib cs m x = (y, r)" for cs m x y r
    using that no_base by (auto simp: instrument_step_def split: prod.splits option.splits lib_exc.splits)
  obtain st1 r1 where c: "perform lib (core_calls s) st = (st1, r1)" by force
  obtain st2 r2 where x: "export_step lib ep st1 = (st2, r2)" by force
  obtain st3 r3 where p: "perform lib [SetTracerProvider] st2 = (st3, r3)" by force
  obtain st4 r4 where f: "instrument_step lib (fastapi_calls a) ''Failed to auto-instrument FastAPI'' st3 = (st4, r4)" by force
  obtain st5 r5 where h: "instrument_step lib aiohttp_calls ''Failed to auto-instrument aiohttp client'' st4 = (st5, r5)" by force
  obtain st6 r6 where q: "instrument_step lib sqlalchemy_calls ''Failed to auto-instrument SQLAlchemy'' st5 = (st6, r6)" by force
  note keeps = perform_keeps [OF no_provider(1) c] export_keeps [OF x] instrument_keeps [OF no_provider(3) f]
    instrument_keeps [OF no_provider(4) h] instrument_keeps [OF no_provider(5) q]
  have p': "r3 = None" "provider_sets (tr_calls st3) = provider_sets (tr_calls st2) + 1" "tr_initialized st3 = tr_initialized st2"
    using p assms(2) by (auto simp: Let_def)
  have turn: "in_turn (tracing_steps lib s ep a) st =
      (case r1 of Some e \<Rightarrow> (st1, Some e) | None \<Rightarrow> (case r2 of Some e \<Rightarrow> (st2, Some e) | None \<Rightarrow> (st6, None)))"
  proof (cases "r1 = None \<and> r2 = None")
    case True
    with c x p p'(1) f h q instr [OF f] instr [OF h] instr [OF q] show ?thesis
      by (simp only: tracing_steps_def in_turn.simps prod.case option.case simp_thms)
  next
    case no: False
    show ?thesis
    proof (cases r1)
      case None
      with no obtain e where "r2 = Some e" by auto
      with None c x show ?thesis by (simp only: tracing_steps_def in_turn.simps(2) prod.case option.case)
    next
      case (Some e)
      with c show ?thesis by (simp only: tracing_steps_def in_turn.simps(2) prod.case option.case)
    qed
  qed
  show ?thesis
  proof (cases "r1 = None \<and> r2 = None")
    case True
    with turn assms(1) False have "st' = tr_log ''OpenTelemetry tracing initialized (service=%s)'' (st6\<lparr>tr_initialized := True\<rparr>)"
      "r = Inr True" by (auto simp: init_tracing_def)
    with keeps p' False show ?thesis by simp
  next
    case no: False
    then obtain y e where "in_turn (tracing_steps lib s ep a) st = (y, Some e)" "y = st1 \<or> y = st2"
      using turn by (cases r1; cases r2) auto
    moreover from this(2) keeps False
    have "provider_sets (tr_calls y) = provider_sets (tr_calls st)" "\<not> tr_initialized y" by auto
    ultimately show ?thesis using assms(1) False by (cases e) (simp_all add: init_tracing_def, safe, simp_all)
  qed
qed

text \<open>The initialisations of a process, each with the library as it answers then.\<close>

fun init_runs :: "((lib_call \<Rightarrow> lib_exc option) \<times> string \<times> string \<times> bool) list \<Rightarrow> tracing_state \<Rightarrow> tracing_state" where
  "init_runs [] st = st"
| "init_runs ((lib, s, ep, a) # rs) st = init_runs rs (fst (init_tracing lib s ep a st))"

definition tracing_off :: tracing_state where
  "tracing_off = \<lparr>tr_initialized = False, tr_calls = [], tr_logs = []\<rparr>"

definition orderly :: "(lib_call \<Rightarrow> lib_exc option) \<Rightarrow> bool" where
  "orderly lib \<longleftrightarrow> lib SetTracerProvider = None \<and> (\<forall>c. lib c \<noteq> Some LibBaseException)"

lemma init_runs_provider:
  assumes "\<forall>(lib, r)\<in>set rs. orderly lib" and "provider_sets (tr_calls st) = (if tr_initialized st then 1 else 0)"
  shows "provider_sets (tr_calls (init_runs rs st)) = (if tr_initialized (init_runs rs st) then 1 else 0)"
  using assms
proof (induction rs arbitrary: st)
  case (Cons r rs)
  obtain lib s ep a where r: "r = (lib, s, ep, a)" by (cases r)
  obtain st' x where i: "init_tracing lib s ep a st = (st', x)" by force
  with Cons.prems r have "provider_sets (tr_calls st') = (if tr_initialized st' then 1 else 0)"
    using init_tracing_step [OF i] by (auto simp: orderly_def)
  with Cons i r show ?case by simp
qed simp

text \<open>Whatever optional package is missing or broken, the core decides the answer.\<close>

lemma in_turn_fine: "(\<And>f x. f \<in> set fs \<Longrightarrow> snd (f x) = None) \<Longrightarrow> snd (in_turn fs st) = None"
proof (induction fs arbitrary: st)
  case (Cons f fs)
  obtain y r where y: "f st = (y, r)" by force
  with Cons.prems [of f st] have "r = None" by simp
  moreover have "snd (in_turn fs y) = None" using Cons.prems by (intro Cons.IH) simp
  ultimately show ?case using y by simp
qed simp

lemma perform_fine: "(\<And>c. c \<in> set cs \<Longrightarrow> lib c = None) \<Longrightarrow> snd (perform lib cs st) = None"
  by (induction cs arbitrary: st) (simp_all add: Let_def)

lemma instrument_fine: "(\<And>c. lib c \<noteq> Some LibBaseException) \<Longrightarrow> snd (instrument_step lib cs m x) = None"
  using perform_raises [of lib cs x]
  by (force simp: instrument_step_def split: prod.split option.split lib_exc.split)

lemma export_fine: "(\<And>c. c \<in> set (export_calls ep) \<Longrightarrow> lib c = None) \<Longrightarrow> snd (export_step lib ep x) = None"
  using perform_fine [of "export_calls ep" lib x] by (auto simp: export_step_def split: prod.split)

lemma init_tracing_answer:
  assumes "\<And>c. c \<in> set (core_calls s) \<union> set (export_calls ep) \<union> {SetTracerProvider} \<Longrightarrow> lib c = None"
    and "\<And>c. lib c \<noteq> Some LibBaseException"
  shows "snd (init_tracing lib s ep a st) = Inr True"
proof -
  have "snd (f x) = None" if "f \<in> set (tracing_steps lib s ep a)" for f x
    using that assms perform_fine [of "core_calls s" lib x] perform_fine [of "[SetTracerProvider]" lib x]
      export_fine [of ep lib x] instrument_fine [of lib _ _ x]
    unfolding tracing_steps_def by (auto simp del: perform.simps)
  then have "snd (in_turn (tracing_steps lib s ep a) st) = None" by (rule in_turn_fine)
  then show ?thesis by (auto simp: init_tracing_def split: prod.split)
qed

text \<open>Without the packages nothing is set up and the application starts all the same.\<close>

lemma init_tracing_not_installed:
  assumes "\<not> tr_initialized st" and "lib (ImportModule ''opentelemetry.trace'') = Some LibImportError"
  shows "snd (init_tracing lib s ep a st) = Inr False"
    and "tr_calls (fst (init_tracing lib s ep a st)) = tr_calls st @ [ImportModule ''opentelemetry.trace'']"
  using assms by (simp_all add: init_tracing_def tracing_steps_def core_calls_def Let_def)

section \<open>Identifiers have their width\<close>

lemma to_base_snoc: "16 \<le> n \<Longrightarrow> to_base 16 n = to_base 16 (n div 16) @ [n mod 16]"
  by (subst to_base.simps) simp

lemma to_base_digit: "0 \<le> n \<Longrightarrow> n < 16 \<Longrightarrow> to_base 16 n = [n]"
  by (subst to_base.simps) simp

lemma to_base_16:
  assumes "0 \<le> n" and "n < 16 ^ w" and "0 < w"
  shows "length (to_base 16 n) \<le> w \<and> (\<forall>d\<in>set (to_base 16 n). 0 \<le> d \<and> d < 16) \<and> from_digits 16 (to_base 16 n) = n"
  using assms
proof (induction w arbitrary: n)
  case (Suc w)
  show ?case
  proof (cases "n < 16")
    case True
    with Suc.prems show ?thesis by (simp add: to_base_digit from_digits_def)
  next
    case False
    with Suc.prems have "n div 16 < 16 ^ w" by (simp add: div_less_iff_less_mult)
    moreover from this False have "0 < w" by (cases w) auto
    moreover have "0 \<le> n div 16" using Suc.prems(1) by simp
    ultimately have ih: "length (to_base 16 (n div 16)) \<le> w" "\<forall>d\<in>set (to_base 16 (n div 16)). 0 \<le> d \<and> d < 16"
      "from_digits 16 (to_base 16 (n div 16)) = n div 16"
      using Suc.IH [of "n div 16"] by blast+
    have snoc: "to_base 16 n = to_base 16 (n div 16) @ [n mod 16]" using False by (intro to_base_snoc) simp
    have digits: "from_digits 16 (to_base 16 (n div 16) @ [n mod 16]) = n div 16 * 16 + n mod 16"
      using ih(3) by (simp only: from_digits_def foldl_append foldl.simps)
    show ?thesis unfolding snoc digits using ih(1,2) by simp
  qed
qed simp

lemma hex_digit_char:
  assumes "0 \<le> d" and "d < 16"
  shows "hex_digit (IpAddress.hex_char d) = Some d"
proof -
  have "nat (if d < 10 then 48 + d else 87 + d) < 256" using assms by auto
  then have "of_char (IpAddress.hex_char d) = (if d < 10 then 48 + d else 87 + d)"
    using assms by (simp add: of_char_of take_bit_eq_mod)
  with assms show ?thesis by (auto simp: hex_digit_def Let_def)
qed

lemma hex_digits_of: "\<forall>d\<in>set ds. 0 \<le> d \<and> d < 16 \<Longrightarrow> opt_map hex_digit (map IpAddress.hex_char ds) = Some ds"
  by (induction ds) (auto simp: hex_digit_char opt_map_def split: if_splits simp del: IpAddress.hex_char.simps)

lemma zero_digit: "hex_digit (CHR ''0'') = Some 0"
  by (simp add: hex_digit_def)

lemma hex_zeros: "opt_map hex_digit (replicate k (CHR ''0'') @ s) = map_option (\<lambda>ds. replicate k 0 @ ds) (opt_map hex_digit s)"
  by (auto simp: opt_map_def zero_digit list_all_iff)

lemma from_digits_zeros: "from_digits b (replicate k 0 @ ds) = from_digits b ds"
  by (induction k) (simp_all add: from_digits_def)

lemma format_hex_width:
  assumes "0 \<le> n" and "n < 16 ^ w" and "0 < w"
  shows "length (format_hex w n) = w \<and> map_option (from_digits 16) (opt_map hex_digit (format_hex w n)) = Some n"
proof -
  note b = to_base_16 [OF assms]
  have "opt_map hex_digit (format_hex w n) = Some (replicate (w - length (to_base 16 n)) 0 @ to_base 16 n)"
    using assms(1) b by (simp add: format_hex_def hex_of_def Let_def hex_zeros hex_digits_of)
  with assms(1) b show ?thesis
    by (simp add: from_digits_zeros) (simp add: format_hex_def hex_of_def Let_def)
qed

text \<open>
  The identifiers that are logged have their fixed width and can be read back: the trace identifier of
  a valid span is 32 hexadecimal digits, its span identifier 16, and their values are those of the span.
\<close>

lemma logged_ids:
  assumes "sp_is_valid ctx" and "0 \<le> sp_trace_id ctx" "sp_trace_id ctx < 2 ^ 128" and "0 \<le> sp_span_id ctx" "sp_span_id ctx < 2 ^ 64"
  shows "\<exists>t s. get_current_trace_id (Inr (Some ctx)) = Inr (Some t) \<and> length t = 32 \<and>
      map_option (from_digits 16) (opt_map hex_digit t) = Some (sp_trace_id ctx) \<and>
    get_current_span_id (Inr (Some ctx)) = Inr (Some s) \<and> length s = 16 \<and>
      map_option (from_digits 16) (opt_map hex_digit s) = Some (sp_span_id ctx)"
proof -
  have "(2::int) ^ 128 = 16 ^ 32" "(2::int) ^ 64 = 16 ^ 16" by simp_all
  with assms format_hex_width [of "sp_trace_id ctx" 32] format_hex_width [of "sp_span_id ctx" 16] show ?thesis
    by (simp add: get_current_trace_id_def get_current_span_id_def current_id_def)
qed

text \<open>No failure of the library but one that ends the process reaches the log line.\<close>

lemma ids_never_fail:
  assumes "current \<noteq> Inl LibBaseException"
  shows "\<exists>r. get_current_trace_id current = Inr r \<and> (r \<noteq> None \<longleftrightarrow> (\<exists>ctx. current = Inr (Some ctx) \<and> sp_is_valid ctx))"
  using assms by (auto simp: get_current_trace_id_def current_id_def split: sum.split lib_exc.split option.split)

text \<open>Over all initialisations of a process the provider is set once at most, and exactly when one succeeds.\<close>

lemma tracing_set_up_once:
  assumes "\<forall>(lib, r)\<in>set rs. orderly lib"
  shows "provider_sets (tr_calls (init_runs rs tracing_off)) = (if is_initialized (init_runs rs tracing_off) then 1 else 0)"
  using init_runs_provider [OF assms, of tracing_off] by (simp add: tracing_off_def is_initialized_def)

text \<open>Interrupted after the provider was set, the next initialisation sets another one.\<close>

lemma tracing_interrupted:
  defines "lib \<equiv> (\<lambda>c. if c = InstrumentApp then Some LibBaseException else None)"
  shows "provider_sets (tr_calls (init_runs [(lib, ''s'', [], True), (\<lambda>_. None, ''s'', [], True)] tracing_off)) = 2"
  by (simp add: lib_def init_tracing_def tracing_steps_def tracing_off_def core_calls_def export_step_def
      fastapi_calls_def aiohttp_calls_def sqlalchemy_calls_def instrument_step_def Let_def tr_log_def)

end
