(* ===== verification/GuardRuns.thy ===== *)
theory GuardRuns
  imports ReleaseRuns CodexReview
begin

text \<open>
  The two release guards as whole runs, \<open>guard_stable_release.py\<close> and \<open>guard_beta_release.py\<close> in
  \<open>src/scripts\<close>: from the event file, the version files of the checkout and the contents that \<open>git\<close>
  shows at the base, to the exit code. The guards themselves are in the theories of the release
  versions and of the beta scripts; here are the readers that feed them, with every error they raise in
  the order of the source. \<open>git show\<close> is a function that gives nothing when the command fails.
\<close>

section \<open>Outcomes\<close>

text \<open>\<open>GuardError\<close>, \<open>CalledProcessError\<close> and everything else; only the first is caught by \<open>main\<close>.\<close>

datatype run_error = Guarded string | GitFailed | Uncaught pyexc

datatype run_end = Exited int | Traceback run_error

definition main_end :: "run_error + 'a \<Rightarrow> run_end" where
  "main_end r = (case r of Inr _ \<Rightarrow> Exited 0 | Inl (Guarded m) \<Rightarrow> Exited 1 | Inl e \<Rightarrow> Traceback e)"

definition of_res :: "'a res \<Rightarrow> run_error + 'a" where
  "of_res r = (case r of Inl e \<Rightarrow> Inl (Uncaught e) | Inr v \<Rightarrow> Inr v)"

definition of_guard :: "guard_exc + 'a \<Rightarrow> run_error + 'a" where
  "of_guard r =
     (case r of Inl (GuardFailed m) \<Rightarrow> Inl (Guarded m) | Inl (OtherError e) \<Rightarrow> Inl (Uncaught e) | Inr v \<Rightarrow> Inr v)"

definition of_git :: "'a option \<Rightarrow> run_error + 'a" where
  "of_git r = (case r of None \<Rightarrow> Inl GitFailed | Some v \<Rightarrow> Inr v)"

text \<open>\<open>find\<close> of both scripts: no match is an error of the guard.\<close>

definition found :: "string \<Rightarrow> string res \<Rightarrow> run_error + string" where
  "found name r = (case r of Inl _ \<Rightarrow> Inl (Guarded (''could not find '' @ name)) | Inr v \<Rightarrow> Inr v)"

lemma outcome_simps [simp]:
  "of_res (Inr v) = Inr v" "of_res (Inl e) = Inl (Uncaught e)" "of_guard (Inr u) = Inr u"
  "of_guard (Inl (GuardFailed m)) = Inl (Guarded m)" "of_guard (Inl (OtherError e)) = Inl (Uncaught e)"
  "of_git None = Inl GitFailed" "of_git (Some w) = Inr w" "found n (Inr t) = Inr t"
  "main_end (Inr x) = Exited 0" "main_end (Inl (Guarded m)) = Exited 1" "main_end (Inl GitFailed) = Traceback GitFailed"
  "main_end (Inl (Uncaught e)) = Traceback (Uncaught e)"
  by (simp_all add: of_res_def of_guard_def of_git_def found_def main_end_def)

lemma outcome_Inr:
  "of_res r = Inr v \<longleftrightarrow> r = Inr v" "of_guard g = Inr w \<longleftrightarrow> g = Inr w" "of_git ov = Inr u \<longleftrightarrow> ov = Some u"
  "found n fr = Inr t \<longleftrightarrow> fr = Inr t" "main_end r' = Exited 0 \<longleftrightarrow> (\<exists>x. r' = Inr x)"
  by (auto simp: of_res_def of_guard_def of_git_def found_def main_end_def
      split: sum.splits guard_exc.splits option.splits run_error.splits)

section \<open>The event\<close>

text \<open>\<open>event\<close> is the text of the event file, nothing when no path is given or no file is there.\<close>

definition load_event :: "string option \<Rightarrow> json res" where
  "load_event event = (case event of None \<Rightarrow> Inr (JObj []) | Some t \<Rightarrow> loads t)"

text \<open>\<open>event.get\<close>: a document that is not an object has no such attribute.\<close>

definition event_object :: "json \<Rightarrow> jobj res" where
  "event_object v = (case v of JObj ob \<Rightarrow> Inr ob | _ \<Rightarrow> Inl AttributeError)"

section \<open>The versions at a ref\<close>

type_synonym git_show = "string \<Rightarrow> string option"

definition package_path :: string where "package_path = ''frontend/package.json''"
definition chart_path :: string where "chart_path = ''deploy/helm/firecrawl-lb/Chart.yaml''"
definition init_path :: string where "init_path = ''app/__init__.py''"

text \<open>The fields in the order in which both scripts put them together.\<close>

definition version_entries :: "git_show \<Rightarrow> string \<Rightarrow> json \<Rightarrow> string \<Rightarrow> string \<Rightarrow> run_error + (string \<times> json) list" where
  "version_entries show_file pyproject package chart uv =
     res_bind (of_git (show_file init_path)) (\<lambda>t.
     res_bind (found ''app version'' (search_quoted True False init_pre dquote t)) (\<lambda>i.
     res_bind (of_res (package_version package)) (\<lambda>j.
     res_bind (found ''chart version'' (search_line chart_version_pre chart)) (\<lambda>c.
     res_bind (found ''chart appVersion'' (search_line chart_app_version_pre chart)) (\<lambda>a.
     res_bind (found ''uv.lock firecrawl-lb version'' (search_quoted False False uv_pre uv_post uv)) (\<lambda>u.
       Inr [(''pyproject.toml'', JStr pyproject), (''app/__init__.py'', JStr i), (''frontend/package.json'', j),
            (''deploy/helm/firecrawl-lb/Chart.yaml version'', JStr c),
            (''deploy/helm/firecrawl-lb/Chart.yaml appVersion'', JStr a), (''uv.lock'', JStr u)]))))))"

definition pyproject_at_ref :: "(string \<Rightarrow> jobj res) \<Rightarrow> string \<Rightarrow> run_error + string" where
  "pyproject_at_ref toml t =
     (case toml t of
        Inl _ \<Rightarrow> Inl (Guarded ''could not read pyproject version'')
      | Inr data \<Rightarrow>
          (case (case jget data ''project'' of JObj project \<Rightarrow> nonempty_str (jget project ''version'') | _ \<Rightarrow> None) of
             None \<Rightarrow> Inl (Guarded ''could not find pyproject version'')
           | Some v \<Rightarrow> Inr v))"

definition stable_versions_at_ref :: "(string \<Rightarrow> jobj res) \<Rightarrow> git_show \<Rightarrow> run_error + (string \<times> json) list" where
  "stable_versions_at_ref toml show_file =
     res_bind (of_git (show_file ''pyproject.toml'')) (\<lambda>py.
     res_bind (pyproject_at_ref toml py) (\<lambda>p.
     res_bind (of_git (show_file package_path)) (\<lambda>t.
     res_bind (of_res (loads t)) (\<lambda>package.
     res_bind (of_git (show_file chart_path)) (\<lambda>chart.
     res_bind (of_git (show_file ''uv.lock'')) (\<lambda>uv.
       version_entries show_file p package chart uv))))))"

definition beta_versions_at_ref :: "(string \<Rightarrow> jobj res) \<Rightarrow> git_show \<Rightarrow> run_error + (string \<times> json) list" where
  "beta_versions_at_ref toml show_file =
     res_bind (of_git (show_file package_path)) (\<lambda>t.
     res_bind (of_res (loads t)) (\<lambda>package.
     res_bind (of_git (show_file chart_path)) (\<lambda>chart.
     res_bind (of_git (show_file ''uv.lock'')) (\<lambda>uv.
     res_bind (of_git (show_file ''pyproject.toml'')) (\<lambda>py.
     res_bind (of_res (read_pyproject_version_text toml py)) (\<lambda>p.
       version_entries show_file p package chart uv))))))"

text \<open>The two readers differ only in which errors the guard reports itself.\<close>

lemma same_versions_at_ref:
  "stable_versions_at_ref toml show_file = Inr vs \<longleftrightarrow> beta_versions_at_ref toml show_file = Inr vs"
proof -
  have "pyproject_at_ref toml t = Inr p \<longleftrightarrow> read_pyproject_version_text toml t = Inr p" for t p
    by (auto simp: pyproject_at_ref_def read_pyproject_version_text_def res_bind_eq_Inr
        split: sum.splits json.splits option.splits)
  then show ?thesis
    unfolding stable_versions_at_ref_def beta_versions_at_ref_def res_bind_eq_Inr outcome_Inr by blast
qed

section \<open>Versions that are not text\<close>

text \<open>
  Only the version of \<open>package.json\<close> can be something else than a string. It is then no version that
  another field could agree with: it counts as empty text, which no reader of the other fields gives,
  and a value of the base that differs from it is left out, so that the field counts as changed.
\<close>

definition current_texts :: "(string \<times> json) list \<Rightarrow> (string \<times> string) list" where
  "current_texts current = map (\<lambda>(n, v). (n, case v of JStr s \<Rightarrow> s | _ \<Rightarrow> [])) current"

definition base_text :: "json \<Rightarrow> json \<Rightarrow> string option" where
  "base_text c b =
     (case (c, b) of
        (JStr _, JStr s) \<Rightarrow> Some s
      | (JStr _, _) \<Rightarrow> None
      | _ \<Rightarrow> if json_eq b c then Some [] else None)"

definition base_texts :: "(string \<times> json) list \<Rightarrow> (string \<times> json) list \<Rightarrow> (string \<times> string) list" where
  "base_texts current base =
     List.map_filter (\<lambda>(n, b). map_option (\<lambda>s. (n, s)) (Option.bind (map_of current n) (\<lambda>c. base_text c b))) base"

definition unhashable :: "json \<Rightarrow> bool" where
  "unhashable v = (case v of JArr _ \<Rightarrow> True | JObj _ \<Rightarrow> True | _ \<Rightarrow> False)"

definition has_unhashable :: "(string \<times> json) list \<Rightarrow> bool" where
  "has_unhashable current = list_ex (\<lambda>(n, v). unhashable v) current"

section \<open>The guard of stable releases\<close>

definition of_result :: "guard_result \<Rightarrow> run_error + unit" where
  "of_result g =
     (case g of GuardPassed \<Rightarrow> Inr () | GuardError \<Rightarrow> Inl (Guarded ''stable release guard'') | GuardRaised e \<Rightarrow> Inl (Uncaught e))"

text \<open>The branch of a pull request: the option, or what the event says.\<close>

definition event_branch :: "(json \<Rightarrow> string) \<Rightarrow> jobj option \<Rightarrow> string \<Rightarrow> guard_exc + string option" where
  "event_branch pstr pr head_ref =
     (case pr of
        None \<Rightarrow> Inr None
      | Some p \<Rightarrow>
          if head_ref \<noteq> [] then Inr (Some head_ref)
          else res_bind (head_get p ''ref'') (\<lambda>v. Inr (Some (str_or_empty pstr v))))"

text \<open>A version that cannot be hashed fails when the versions are compared, which is after the branch has been checked.\<close>

definition compares_versions :: "(string \<times> string) list \<Rightarrow> (string \<times> string) list \<Rightarrow> string option \<Rightarrow> bool \<Rightarrow> string \<Rightarrow> bool" where
  "compares_versions base current branch canonical_head head_ref \<longleftrightarrow>
     ''pyproject.toml'' \<in> set (changed_version_fields base current) \<and>
     (case map_of current ''pyproject.toml'' of
        None \<Rightarrow> False
      | Some v \<Rightarrow> (case parse_version v of Inl _ \<Rightarrow> False | Inr release \<Rightarrow> rv_channel release = Stable)) \<and>
     (case branch of
        None \<Rightarrow> head_ref = [] \<or> head_ref = RELEASE_PLEASE_BRANCH
      | Some b \<Rightarrow> b = RELEASE_PLEASE_BRANCH \<and> canonical_head)"

definition stable_guard_run ::
  "(string \<Rightarrow> jobj res) \<Rightarrow> git_show \<Rightarrow> (json \<Rightarrow> string) \<Rightarrow> string \<Rightarrow> string option \<Rightarrow> string \<Rightarrow> version_files \<Rightarrow> run_error + unit" where
  "stable_guard_run toml show_file pstr env_repository event head_ref f =
     res_bind (of_res (res_bind (load_event event) event_object)) (\<lambda>ev.
     let pr = pull_request ev in
     res_bind (of_guard (event_branch pstr pr head_ref)) (\<lambda>branch.
     res_bind (of_res (read_project_versions toml f)) (\<lambda>current.
     res_bind (stable_versions_at_ref toml show_file) (\<lambda>base.
       let canonical_head = (case pr of None \<Rightarrow> True | Some p \<Rightarrow> require_canonical_head_repository env_repository ev p = Inr ());
           cur = current_texts current; bas = base_texts current base
       in if compares_versions bas cur branch canonical_head head_ref \<and> has_unhashable current then Inl (Uncaught TypeError)
          else of_result (guard_stable_pull_request bas cur branch canonical_head head_ref)))))"

definition stable_main ::
  "(string \<Rightarrow> jobj res) \<Rightarrow> git_show \<Rightarrow> (json \<Rightarrow> string) \<Rightarrow> string \<Rightarrow> string option \<Rightarrow> string \<Rightarrow> version_files \<Rightarrow> run_end" where
  "stable_main toml show_file pstr env_repository event head_ref f =
     main_end (stable_guard_run toml show_file pstr env_repository event head_ref f)"

section \<open>The guard of betas\<close>

text \<open>
  A changed file is found by writing the contents of the base over it, reading the versions and
  restoring it: the reader sees the checkout with this one file replaced.
\<close>

definition overlay :: "string \<Rightarrow> string \<Rightarrow> version_files \<Rightarrow> version_files res" where
  "overlay path t f =
     (if path = ''pyproject.toml'' then Inr (f\<lparr>vf_pyproject := t\<rparr>)
      else if path = init_path then Inr (f\<lparr>vf_init := t\<rparr>)
      else if path = package_path then res_bind (loads t) (\<lambda>j. Inr (f\<lparr>vf_package := j\<rparr>))
      else if path = chart_path then Inr (f\<lparr>vf_chart := t\<rparr>)
      else Inr (f\<lparr>vf_uv_lock := t\<rparr>))"

definition version_at_base :: "(string \<Rightarrow> jobj res) \<Rightarrow> git_show \<Rightarrow> version_files \<Rightarrow> string \<Rightarrow> json option res" where
  "version_at_base toml show_file f name =
     (let path = fst (split_first (CHR '' '') name)
      in case show_file path of
           None \<Rightarrow> Inr None
         | Some t \<Rightarrow>
             res_bind (overlay path t f) (\<lambda>f'. res_bind (read_project_versions toml f') (\<lambda>vs. Inr (map_of vs name))))"

fun versions_at_base ::
  "(string \<Rightarrow> jobj res) \<Rightarrow> git_show \<Rightarrow> version_files \<Rightarrow> (string \<times> json) list \<Rightarrow> (string \<times> json) list res" where
  "versions_at_base toml show_file f [] = Inr []"
| "versions_at_base toml show_file f ((name, v) # current) =
     res_bind (version_at_base toml show_file f name) (\<lambda>b.
     res_bind (versions_at_base toml show_file f current) (\<lambda>bs.
       Inr (case b of None \<Rightarrow> bs | Some w \<Rightarrow> (name, w) # bs)))"

text \<open>The managed files that \<open>git diff --name-only\<close> lists, sorted and without repetition.\<close>

definition changed_release_files :: "string option \<Rightarrow> run_error + string list" where
  "changed_release_files diff =
     res_bind (of_git diff) (\<lambda>output.
       Inr (sort (remdups (filter (\<lambda>line. line \<noteq> []) (map strip (split_lines output))))))"

lemma changed_release_files_listed:
  "changed_release_files diff = Inr fs \<Longrightarrow> sorted fs \<and> distinct fs \<and> [] \<notin> set fs \<and> (\<exists>output. diff = Some output)"
  by (cases diff) (auto simp: changed_release_files_def)

text \<open>What the environment and \<open>git\<close> say; \<open>be_git_head\<close> is the commit that is checked out, if \<open>git\<close> can tell.\<close>

record beta_env =
  be_event_name :: string
  be_repository :: string
  be_body :: string
  be_git_head :: "string option"
  be_pstr :: "json \<Rightarrow> string"

definition beta_inputs :: "beta_env \<Rightarrow> jobj \<Rightarrow> (string \<times> json) list \<Rightarrow> (string \<times> json) list \<Rightarrow> (string \<times> json) list \<Rightarrow> guard_inputs" where
  "beta_inputs env ev current at_base base =
     \<lparr>gi_event = ev, gi_event_name = be_event_name env, gi_repository = be_repository env, gi_body = be_body env,
      gi_git_head = (case be_git_head env of None \<Rightarrow> [] | Some h \<Rightarrow> h), gi_current = current_texts current,
      gi_base_file = map_of (base_texts current at_base), gi_base = base_texts current base, gi_pstr = be_pstr env\<rparr>"

definition beta_pull_request_run ::
  "(string \<Rightarrow> jobj res) \<Rightarrow> git_show \<Rightarrow> beta_env \<Rightarrow> jobj \<Rightarrow> string \<Rightarrow> version_files \<Rightarrow> run_error + guard_pass" where
  "beta_pull_request_run toml show_file env ev head_ref f =
     (let gi0 = beta_inputs env ev [] [] []; pr = pull_request ev
      in if pr = None \<and> be_event_name env \<noteq> [] \<and> be_event_name env \<noteq> ''merge_group'' then Inr NoPullRequest
         else if pr = None \<and> be_git_head env = None then Inl GitFailed
         else res_bind (of_guard (pr_context gi0 head_ref)) (\<lambda>(ref, expected_sha, body).
              res_bind (of_res (read_project_versions toml f)) (\<lambda>current.
              res_bind (of_res (versions_at_base toml show_file f current)) (\<lambda>at_base.
                let gi1 = beta_inputs env ev current at_base []; canonical_beta = is_canonical_beta_pr ref (gi_current gi1)
                in if changed_release_version_files (gi_current gi1) (gi_base_file gi1) = [] \<and> \<not> canonical_beta
                   then Inr NoVersionChange
                   else res_bind (beta_versions_at_ref toml show_file) (\<lambda>base.
                     let gi = beta_inputs env ev current at_base base
                     in if canonical_versions (gi_current gi) = canonical_versions (gi_base gi) \<and> \<not> canonical_beta
                        then Inr MetadataUnchanged
                        else if has_unhashable current then Inl (Uncaught TypeError)
                        else of_guard (guard_pull_request gi head_ref))))))"

definition beta_publish_run ::
  "(string \<Rightarrow> jobj res) \<Rightarrow> (bool \<Rightarrow> string \<Rightarrow> string option) \<Rightarrow> (string \<Rightarrow> bool) \<Rightarrow> beta_env \<Rightarrow> jobj \<Rightarrow> version_files \<Rightarrow>
   run_error + publish_pass" where
  "beta_publish_run toml rev_tree fetch env ev f =
     (case pull_request ev of
        None \<Rightarrow> Inl (Guarded ''pull request required'')
      | Some pr \<Rightarrow>
          if jget pr ''merged'' \<noteq> JBool True then Inr NotMerged
          else if str_or_empty (be_pstr env) (jget pr ''merge_commit_sha'') = [] \<and> be_git_head env = None then Inl GitFailed
          else res_bind (of_res (read_pyproject_version_text toml (vf_pyproject f))) (\<lambda>v.
                 of_guard (guard_publish rev_tree fetch v (beta_inputs env ev [] [] []))))"

datatype guard_mode = PrMode | PublishMode

definition beta_main ::
  "(string \<Rightarrow> jobj res) \<Rightarrow> git_show \<Rightarrow> (bool \<Rightarrow> string \<Rightarrow> string option) \<Rightarrow> (string \<Rightarrow> bool) \<Rightarrow> beta_env \<Rightarrow>
   guard_mode \<Rightarrow> string option \<Rightarrow> string \<Rightarrow> version_files \<Rightarrow> run_end" where
  "beta_main toml show_file rev_tree fetch env mode event head_ref f =
     main_end (res_bind (of_res (res_bind (load_event event) event_object)) (\<lambda>ev.
       case mode of
         PrMode \<Rightarrow> res_bind (beta_pull_request_run toml show_file env ev head_ref f) (\<lambda>_. Inr ())
       | PublishMode \<Rightarrow> res_bind (beta_publish_run toml rev_tree fetch env ev f) (\<lambda>_. Inr ())))"

section \<open>Stable promotions\<close>

lemma read_names: "read_project_versions toml f = Inr vs \<Longrightarrow> map fst vs = version_fields"
  by (auto simp: read_project_versions_def res_bind_eq_Inr version_fields_def)

lemma ref_names: "stable_versions_at_ref toml show_file = Inr vs \<Longrightarrow> map fst vs = version_fields"
  by (auto simp: stable_versions_at_ref_def version_entries_def res_bind_eq_Inr outcome_Inr version_fields_def)

lemma fields_distinct: "distinct version_fields"
  by (simp add: version_fields_def)

lemma current_texts_fst [simp]: "map fst (current_texts vs) = map fst vs"
  by (simp add: current_texts_def case_prod_unfold comp_def)

lemma map_of_canonical:
  "map_of (canonical_versions vs) n = map_option (canonical_release_version_for_file n) (map_of vs n)"
  by (induction vs) (auto simp: canonical_versions_def)

text \<open>When every field has changed, they are listed as all the fields are.\<close>

lemma all_changed:
  assumes "distinct (map fst cur)"
  shows "changed_version_fields bas cur = sort (map fst cur) \<longleftrightarrow>
    (\<forall>(n, s)\<in>set cur. map_of (canonical_versions bas) n \<noteq> Some (canonical_release_version_for_file n s))"
proof -
  let ?P = "\<lambda>(n, s). map_of (canonical_versions bas) n \<noteq> Some (canonical_release_version_for_file n s)"
  have changed: "changed_version_fields bas cur = sort (map fst (filter ?P cur))"
    unfolding changed_version_fields_def canonical_versions_def [of cur] filter_map
    by (simp add: comp_def case_prod_unfold)
  show ?thesis
  proof
    assume "changed_version_fields bas cur = sort (map fst cur)"
    then have "length (sort (map fst (filter ?P cur))) = length (sort (map fst cur))" using changed by simp
    then have len: "length (filter ?P cur) = length cur" by simp
    show "\<forall>x\<in>set cur. ?P x"
    proof
      fix x assume "x \<in> set cur"
      with len length_filter_less [of x cur ?P] show "?P x" by auto
    qed
  next
    assume "\<forall>x\<in>set cur. ?P x"
    then show "changed_version_fields bas cur = sort (map fst cur)" using changed by (simp add: filter_id_conv)
  qed
qed

lemma consistent_iff:
  assumes "cur \<noteq> []"
  shows "require_consistent_current_versions cur \<noteq> None \<longleftrightarrow> (\<exists>u. \<forall>(n, s)\<in>set cur. canonical_release_version_for_file n s = u)"
proof -
  let ?xs = "map snd (canonical_versions cur)"
  have one: "xs = [u]" if "distinct xs" "set xs = {u}" for xs and u :: string
    using that by (cases xs; cases "tl xs") auto
  have "require_consistent_current_versions cur \<noteq> None \<longleftrightarrow> (\<exists>v. remdups ?xs = [v])"
    by (auto simp: require_consistent_current_versions_def split: list.splits)
  also have "\<dots> \<longleftrightarrow> (\<exists>u. set ?xs = {u})"
    using one [OF distinct_remdups] by (metis list.set(1,2) set_remdups)
  also have "\<dots> \<longleftrightarrow> (\<exists>u. \<forall>(n, s)\<in>set cur. canonical_release_version_for_file n s = u)"
    using assms by (cases cur) (auto simp: canonical_versions_def, force+)
  finally show ?thesis .
qed

lemma promotion_passes:
  assumes "distinct (map fst cur)" and v: "map_of cur ''pyproject.toml'' = Some v"
    and rel: "parse_version v = Inr rel" "rv_channel rel = Stable"
    and changed: "''pyproject.toml'' \<in> set (changed_version_fields bas cur)"
  shows "guard_stable_pull_request bas cur (Some r) canonical_head head_ref = GuardPassed \<longleftrightarrow>
    (if head_ref = [] then r else head_ref) = RELEASE_PLEASE_BRANCH \<and> canonical_head \<and>
    (\<forall>(n, s)\<in>set cur. canonical_release_version_for_file n s = v) \<and>
    (\<forall>(n, s)\<in>set cur. map_of (canonical_versions bas) n \<noteq> Some (canonical_release_version_for_file n s))"
proof -
  have here: "(''pyproject.toml'', v) \<in> set cur" using v by (rule map_of_SomeD)
  then have ne: "cur \<noteq> []" by auto
  have own: "canonical_release_version_for_file ''pyproject.toml'' v = v"
    by (simp add: canonical_release_version_for_file_def)
  have only: "u = v" if "\<forall>(n, s)\<in>set cur. canonical_release_version_for_file n s = u" for u
    using bspec [OF that here] own by simp
  have agree: "require_consistent_current_versions cur \<noteq> None \<longleftrightarrow>
      (\<forall>(n, s)\<in>set cur. canonical_release_version_for_file n s = v)"
    unfolding consistent_iff [OF ne] using only by blast
  have branch: "RELEASE_PLEASE_BRANCH \<noteq> []" by (simp add: RELEASE_PLEASE_BRANCH_def)
  show ?thesis
    unfolding agree [symmetric] all_changed [OF assms(1), symmetric]
    by (cases "head_ref = []"; cases "r = []")
      (simp_all add: guard_stable_pull_request_def Let_def v rel changed branch branch [symmetric] del: sort_key_simps)
qed

text \<open>Text that stands for another value agrees with no version.\<close>

lemma current_texts_agree:
  assumes "v \<noteq> []"
  shows "(\<forall>(n, s)\<in>set (current_texts vs). canonical_release_version_for_file n s = v) \<longleftrightarrow>
    (\<forall>(n, c)\<in>set vs. \<exists>s. c = JStr s \<and> canonical_release_version_for_file n s = v)"
proof -
  have "canonical_release_version_for_file n [] = []" for n
    by (simp add: canonical_release_version_for_file_def canonical_release_version_def pep440_channel_def)
  with assms show ?thesis by (force simp: current_texts_def split: json.splits)
qed

lemma map_of_current_texts: "map_of (current_texts vs) n = map_option (\<lambda>v. case v of JStr s \<Rightarrow> s | _ \<Rightarrow> []) (map_of vs n)"
  by (induction vs) (auto simp: current_texts_def)

lemma map_of_base_texts:
  "distinct (map fst base) \<Longrightarrow> map_of (base_texts current base) n =
     (case (map_of current n, map_of base n) of (Some c, Some b) \<Rightarrow> base_text c b | _ \<Rightarrow> None)"
proof (induction base)
  case (Cons r base)
  show ?case
  proof (cases "fst r = n")
    case True
    with Cons.prems have "map_of base n = None" by (auto simp: map_of_eq_None_iff)
    with Cons True show ?thesis
      by (cases r) (auto simp: base_texts_def map_filter_simps split: option.splits)
  next
    case False
    with Cons show ?thesis by (cases r) (auto simp: base_texts_def map_filter_simps split: option.splits)
  qed
qed (simp add: base_texts_def map_filter_simps split: option.split)

lemma base_text_str [simp]: "base_text (JStr s) b = (case b of JStr t \<Rightarrow> Some t | _ \<Rightarrow> None)"
  by (simp add: base_text_def split: json.split)

text \<open>Among text versions, a field has advanced when the base does not have it in the same canonical form.\<close>

definition advanced :: "(string \<times> json) list \<Rightarrow> string \<Rightarrow> string \<Rightarrow> bool" where
  "advanced base n v \<longleftrightarrow> (\<forall>s. map_of base n = Some (JStr s) \<longrightarrow> canonical_release_version_for_file n s \<noteq> v)"

lemma advanced_iff:
  assumes "distinct (map fst base)" and "map_of current n = Some (JStr s)" and "canonical_release_version_for_file n s = v"
  shows "map_of (canonical_versions (base_texts current base)) n \<noteq> Some v \<longleftrightarrow> advanced base n v"
proof (cases "map_of base n")
  case None
  then show ?thesis
    by (simp add: map_of_canonical map_of_base_texts [OF assms(1)] advanced_def assms(2,3) split: option.split)
next
  case (Some b)
  then show ?thesis
    by (cases b) (simp_all add: map_of_canonical map_of_base_texts [OF assms(1)] advanced_def assms(2,3))
qed

definition pr_branch :: "(json \<Rightarrow> string) \<Rightarrow> jobj \<Rightarrow> string \<Rightarrow> guard_exc + string" where
  "pr_branch pstr pr head_ref =
     (if head_ref \<noteq> [] then Inr head_ref else res_bind (head_get pr ''ref'') (\<lambda>v. Inr (str_or_empty pstr v)))"

lemma pyproject_changed:
  assumes "distinct (map fst base)" and "map_of current ''pyproject.toml'' = Some (JStr v)" and "advanced base ''pyproject.toml'' v"
  shows "''pyproject.toml'' \<in> set (changed_version_fields (base_texts current base) (current_texts current))"
proof -
  let ?c = "canonical_versions (current_texts current)"
  have own: "canonical_release_version_for_file ''pyproject.toml'' v = v"
    by (simp add: canonical_release_version_for_file_def)
  then have "map_of ?c ''pyproject.toml'' = Some v" by (simp add: map_of_canonical map_of_current_texts assms(2))
  then have "(''pyproject.toml'', v) \<in> set ?c" by (rule map_of_SomeD)
  with advanced_iff [OF assms(1,2) own] assms(3) show ?thesis
    unfolding changed_version_fields_def set_sort set_map set_filter by (intro image_eqI [where x = "(''pyproject.toml'', v)"]) auto
qed

lemma promotion_iff:
  assumes "load_event event = Inr (JObj ev)" and "pull_request ev = Some pr"
    and "pr_branch pstr pr head_ref = Inr branch"
    and "read_project_versions toml f = Inr current" and "stable_versions_at_ref toml show_file = Inr base"
    and "map_of current ''pyproject.toml'' = Some (JStr v)" and "advanced base ''pyproject.toml'' v"
    and "parse_version v = Inr release" and "rv_channel release = Stable"
  shows "stable_main toml show_file pstr env_repository event head_ref f = Exited 0 \<longleftrightarrow>
    branch = RELEASE_PLEASE_BRANCH \<and> require_canonical_head_repository env_repository ev pr = Inr () \<and>
    (\<forall>(n, c)\<in>set current. \<exists>s. c = JStr s \<and> canonical_release_version_for_file n s = v) \<and>
    (\<forall>n\<in>set version_fields. advanced base n v)"
proof -
  let ?cur = "current_texts current" and ?bas = "base_texts current base"
    and ?owned = "require_canonical_head_repository env_repository ev pr = Inr ()"
  have cd: "distinct (map fst current)" and bd: "distinct (map fst base)"
    using read_names [OF assms(4)] ref_names [OF assms(5)] fields_distinct by simp_all
  have ev: "event_branch pstr (Some pr) head_ref = Inr (Some branch)"
    using assms(3) by (auto simp: event_branch_def pr_branch_def res_bind_eq_Inr split: if_splits)
  have head: "(if head_ref = [] then branch else head_ref) = branch"
    using assms(3) by (auto simp: pr_branch_def split: if_splits)
  have changed: "''pyproject.toml'' \<in> set (changed_version_fields ?bas ?cur)"
    by (rule pyproject_changed [OF bd assms(6,7)])
  have mv: "map_of ?cur ''pyproject.toml'' = Some v" by (simp add: map_of_current_texts assms(6))
  have vne: "v \<noteq> []" using parse_version_Inr [OF assms(8)] assms(9) by (auto simp: base_ok_def)
  have run: "stable_main toml show_file pstr env_repository event head_ref f = Exited 0 \<longleftrightarrow>
      \<not> (compares_versions ?bas ?cur (Some branch) ?owned head_ref \<and> has_unhashable current) \<and>
      guard_stable_pull_request ?bas ?cur (Some branch) ?owned head_ref = GuardPassed"
    by (simp add: stable_main_def stable_guard_run_def assms(1,2,4,5) event_object_def ev Let_def)
      (auto simp: of_result_def split: guard_result.splits)
  have agree: "(\<forall>(n, s)\<in>set ?cur. canonical_release_version_for_file n s = v) \<longleftrightarrow>
      (\<forall>(n, c)\<in>set current. \<exists>s. c = JStr s \<and> canonical_release_version_for_file n s = v)"
    by (rule current_texts_agree [OF vne])
  have advance: "(\<forall>(n, s)\<in>set ?cur. map_of (canonical_versions ?bas) n \<noteq> Some (canonical_release_version_for_file n s)) \<longleftrightarrow>
      (\<forall>n\<in>set version_fields. advanced base n v)"
    if a: "\<forall>(n, c)\<in>set current. \<exists>s. c = JStr s \<and> canonical_release_version_for_file n s = v"
  proof -
    let ?t = "\<lambda>(n, c). (n, case c of JStr s \<Rightarrow> s | _ \<Rightarrow> [])"
    let ?Q = "\<lambda>(n, s). map_of (canonical_versions ?bas) n \<noteq> Some (canonical_release_version_for_file n s)"
    have step: "?Q (?t x) \<longleftrightarrow> advanced base (fst x) v" if x: "x \<in> set current" for x
    proof -
      obtain n c where n: "x = (n, c)" by (cases x)
      with bspec [OF a x] obtain s where c: "c = JStr s" "canonical_release_version_for_file n s = v" by auto
      from x have "map_of current n = Some (JStr s)" unfolding n c by (rule map_of_is_SomeI [OF cd])
      from advanced_iff [OF bd this c(2)] show ?thesis by (simp add: n c)
    qed
    have "(\<forall>y\<in>set ?cur. ?Q y) \<longleftrightarrow> (\<forall>x\<in>set current. ?Q (?t x))" unfolding current_texts_def by simp
    also have "\<dots> \<longleftrightarrow> (\<forall>x\<in>set current. advanced base (fst x) v)" by (rule ball_cong [OF refl step])
    also have "\<dots> \<longleftrightarrow> (\<forall>n\<in>set version_fields. advanced base n v)" by (simp flip: read_names [OF assms(4)])
    finally show ?thesis .
  qed
  have hashable: "\<not> has_unhashable current"
    if "\<forall>(n, c)\<in>set current. \<exists>s. c = JStr s \<and> canonical_release_version_for_file n s = v"
    using that by (fastforce simp: has_unhashable_def list_ex_iff unhashable_def)
  have d: "distinct (map fst ?cur)" using cd by simp
  show ?thesis
    unfolding run promotion_passes [OF d mv assms(8,9) changed] head agree
    using advance hashable by blast
qed

text \<open>A promotion written by the update passes from the right branch when every field of the base is older.\<close>

lemma written_versions_canonical:
  assumes "written_versions v = Inr ws" and "parse_version v = Inr release" and "rv_channel release = Stable" and "(n, s) \<in> set ws"
  shows "canonical_release_version_for_file n s = v"
proof -
  have "pypi_version release = v" using parse_version_Inr [OF assms(2)] assms(3) by (auto simp: pypi_version_def)
  with assms have "s = v" by (auto simp: written_versions_def)
  then show ?thesis using canonical_of_version [OF assms(2)] by (simp add: canonical_release_version_for_file_def)
qed

lemma promotion_by_update:
  assumes "load_event event = Inr (JObj ev)" and "pull_request ev = Some pr"
    and "pr_branch pstr pr head_ref = Inr RELEASE_PLEASE_BRANCH"
    and "require_canonical_head_repository env_repository ev pr = Inr ()"
    and "update_project_versions v f = (Inr (), f')" and "project_version_line toml (vf_pyproject f)"
    and "parse_version v = Inr release" and "rv_channel release = Stable"
    and "stable_versions_at_ref toml show_file = Inr base" and "\<forall>n\<in>set version_fields. advanced base n v"
  shows "stable_main toml show_file pstr env_repository event head_ref f' = Exited 0"
proof -
  obtain ws where ws: "written_versions v = Inr ws" "read_project_versions toml f' = Inr (map (\<lambda>(n, v). (n, JStr v)) ws)"
    using update_then_read [OF assms(5,6)] by blast
  let ?cur = "map (\<lambda>(n, v). (n, JStr v)) ws"
  have all: "\<forall>(n, c)\<in>set ?cur. \<exists>s. c = JStr s \<and> canonical_release_version_for_file n s = v"
    using written_versions_canonical [OF ws(1) assms(7,8)] by auto
  have "map_of ?cur ''pyproject.toml'' = Some (JStr v)"
    using ws(1) assms(7) by (auto simp: written_versions_def version_fields_def)
  moreover have "''pyproject.toml'' \<in> set version_fields" by (simp add: version_fields_def)
  ultimately show ?thesis
    using promotion_iff [OF assms(1,2,3) ws(2) assms(9) _ _ assms(7,8)] assms(4,10) all by blast
qed

text \<open>
  C34: The guard of stable releases lets a pull request through exactly when the promotion is whole and
  owned: when the version of \<open>pyproject.toml\<close> has become a new stable version, the run exits with 0 if and
  only if the head branch is the one of release-please in the canonical repository, every version field
  of the checkout reads as this version, and every field differs from what the base has. What is read
  are the files themselves, the event and what \<open>git\<close> shows.
\<close>

theorem stable_promotion_guarded:
  assumes "load_event event = Inr (JObj ev)" and "pull_request ev = Some pr"
    and "pr_branch pstr pr head_ref = Inr branch"
    and "read_project_versions toml f = Inr current" and "stable_versions_at_ref toml show_file = Inr base"
    and "map_of current ''pyproject.toml'' = Some (JStr v)" and "advanced base ''pyproject.toml'' v"
    and "parse_version v = Inr release" and "rv_channel release = Stable"
  shows "stable_main toml show_file pstr env_repository event head_ref f = Exited 0 \<longleftrightarrow>
    branch = RELEASE_PLEASE_BRANCH \<and> require_canonical_head_repository env_repository ev pr = Inr () \<and>
    (\<forall>(n, c)\<in>set current. \<exists>s. c = JStr s \<and> canonical_release_version_for_file n s = v) \<and>
    (\<forall>n\<in>set version_fields. advanced base n v)"
  by (rule promotion_iff [OF assms])

text \<open>The sample files are the base; the promotion to 0.1.0 is a pull request of release-please.\<close>

definition sample_show :: git_show where
  "sample_show = map_of
     [(''pyproject.toml'', vf_pyproject sample_files), (init_path, vf_init sample_files),
      (package_path, dumps (\<lambda>_. []) '','' '':'' (vf_package sample_files)), (chart_path, vf_chart sample_files),
      (''uv.lock'', vf_uv_lock sample_files)]"

definition sample_event :: string where
  "sample_event = dumps (\<lambda>_. []) '','' '':'' (JObj [(''pull_request'', JObj
     [(''head'', JObj [(''ref'', JStr RELEASE_PLEASE_BRANCH), (''repo'', JObj [(''full_name'', JStr ''o/r'')])]),
      (''base'', JObj [(''repo'', JObj [(''full_name'', JStr ''o/r'')])])])])"

definition promoted_files :: version_files where
  "promoted_files = snd (update_project_versions ''0.1.0'' sample_files)"

lemma sample_event_read:
  "case load_event (Some sample_event) of
     Inr (JObj ev) \<Rightarrow>
       (case pull_request ev of
          None \<Rightarrow> False
        | Some pr \<Rightarrow> pr_branch (\<lambda>_. []) pr [] = Inr RELEASE_PLEASE_BRANCH \<and> require_canonical_head_repository [] ev pr = Inr ())
   | _ \<Rightarrow> False"
  by code_simp

lemma sample_promotion:
  "case (read_project_versions version_line_toml promoted_files, stable_versions_at_ref version_line_toml sample_show) of
     (Inr current, Inr base) \<Rightarrow>
       map_of current ''pyproject.toml'' = Some (JStr ''0.1.0'') \<and>
       list_all (\<lambda>(n, c). case c of JStr s \<Rightarrow> canonical_release_version_for_file n s = ''0.1.0'' | _ \<Rightarrow> False) current \<and>
       list_all (\<lambda>n. map_of base n = Some (JStr ''0.0.0'')) version_fields
   | _ \<Rightarrow> False"
  by code_simp

lemma sample_base_older: "canonical_release_version_for_file n ''0.0.0'' \<noteq> ''0.1.0''"
proof -
  have "canonical_release_version ''0.0.0'' = ''0.0.0''" by code_simp
  then show ?thesis by (simp add: canonical_release_version_for_file_def)
qed

lemma sample_version: "case parse_version ''0.1.0'' of Inr r \<Rightarrow> rv_channel r = Stable | Inl _ \<Rightarrow> False"
  by code_simp

theorem stable_promotion_guarded_witness:
  "stable_main version_line_toml sample_show (\<lambda>_. []) [] (Some sample_event) [] promoted_files = Exited 0"
proof -
  obtain ev pr where ev: "load_event (Some sample_event) = Inr (JObj ev)" "pull_request ev = Some pr"
    "pr_branch (\<lambda>_. []) pr [] = Inr RELEASE_PLEASE_BRANCH" "require_canonical_head_repository [] ev pr = Inr ()"
    using sample_event_read by (auto split: sum.splits json.splits option.splits)
  obtain current base where vs: "read_project_versions version_line_toml promoted_files = Inr current"
    "stable_versions_at_ref version_line_toml sample_show = Inr base"
    "map_of current ''pyproject.toml'' = Some (JStr ''0.1.0'')"
    "list_all (\<lambda>(n, c). case c of JStr s \<Rightarrow> canonical_release_version_for_file n s = ''0.1.0'' | _ \<Rightarrow> False) current"
    "list_all (\<lambda>n. map_of base n = Some (JStr ''0.0.0'')) version_fields"
    using sample_promotion by (auto split: sum.splits)
  obtain release where release: "parse_version ''0.1.0'' = Inr release" "rv_channel release = Stable"
    using sample_version by (auto split: sum.splits)
  have older: "advanced base n ''0.1.0''" if "n \<in> set version_fields" for n
    using vs(5) that sample_base_older by (simp add: advanced_def list_all_iff)
  have agree: "\<forall>(n, c)\<in>set current. \<exists>s. c = JStr s \<and> canonical_release_version_for_file n s = ''0.1.0''"
    using vs(4) by (auto simp: list_all_iff split: json.splits)
  have "''pyproject.toml'' \<in> set version_fields" by (simp add: version_fields_def)
  from stable_promotion_guarded [OF ev(1-3) vs(1-3) older [OF this] release] ev(4) agree older
  show ?thesis by blast
qed

text \<open>The same pull request with the lock file left behind is refused.\<close>

lemma partial_promotion_refused:
  "stable_main version_line_toml sample_show (\<lambda>_. []) [] (Some sample_event) []
     (promoted_files\<lparr>vf_uv_lock := vf_uv_lock sample_files\<rparr>) = Exited 1"
  by code_simp

section \<open>Betas\<close>

text \<open>A run that exits with 0 in the publishing mode published nothing, or passed the publishing guard.\<close>

lemma beta_publish_exit:
  assumes "beta_main toml show_file rev_tree fetch env PublishMode event head_ref f = Exited 0"
  shows "\<exists>ev pr. load_event event = Inr (JObj ev) \<and> pull_request ev = Some pr \<and>
    (jget pr ''merged'' \<noteq> JBool True \<or>
     (\<exists>v. read_pyproject_version_text toml (vf_pyproject f) = Inr v \<and>
        (\<exists>p. guard_publish rev_tree fetch v (beta_inputs env ev [] [] []) = Inr p)))"
proof -
  obtain ev p where ev: "res_bind (load_event event) event_object = Inr ev" "beta_publish_run toml rev_tree fetch env ev f = Inr p"
    using assms by (auto simp: beta_main_def outcome_Inr res_bind_eq_Inr)
  then obtain v where "load_event event = Inr v" "event_object v = Inr ev" by (auto simp: res_bind_eq_Inr)
  then have "load_event event = Inr (JObj ev)" by (cases v) (auto simp: event_object_def)
  with ev(2) show ?thesis
    by (auto simp: beta_publish_run_def outcome_Inr res_bind_eq_Inr split: option.splits if_splits)
qed

text \<open>
  A pull request passes the guard of betas only if nothing has changed, the version is no beta, or the
  guard found its branch, repository and evidence in order.
\<close>

lemma beta_pull_request_exit:
  assumes "beta_pull_request_run toml show_file env ev head_ref f = Inr p" and "p = Validated branch sha"
  shows "\<exists>current at_base base. read_project_versions toml f = Inr current \<and>
    versions_at_base toml show_file f current = Inr at_base \<and> beta_versions_at_ref toml show_file = Inr base \<and>
    guard_pull_request (beta_inputs env ev current at_base base) head_ref = Inr (Validated branch sha) \<and> \<not> has_unhashable current"
  using assms by (auto simp: beta_pull_request_run_def outcome_Inr res_bind_eq_Inr Let_def split: if_splits)

end
