(* ===== verification/Migrations.thy ===== *)
theory Migrations
  imports Database
begin

text \<open>
  The migrations of the database: the metadata of \<open>src/app/db/models.py\<close>, the two revisions in
  \<open>src/app/db/alembic/versions\<close>, the environment of Alembic in \<open>alembic/env.py\<close> and the entry points of
  \<open>src/app/db/migrate.py\<close>. A database is its tables with their columns and rows and the revision it is
  stamped with. Inspecting, creating and dropping tables and adding and dropping columns have the meaning
  SQLAlchemy and Alembic document for them; Alembic's command is a parameter of the entry points.
\<close>

section \<open>Tables and metadata\<close>

datatype sql_type = SqlString "nat option" | SqlText | SqlInteger | SqlBoolean | SqlBinary | SqlDateTime bool

record column =
  co_name :: string
  co_type :: sql_type
  co_nullable :: bool

text \<open>A row gives each column its value, nothing for NULL.\<close>

record 'v db_table =
  dt_columns :: "column list"
  dt_rows :: "(string \<Rightarrow> 'v option) list"

type_synonym 'v db_tables = "string \<Rightarrow> 'v db_table option"

definition required :: "string \<Rightarrow> sql_type \<Rightarrow> column" where
  "required name ty = \<lparr>co_name = name, co_type = ty, co_nullable = False\<rparr>"

definition optional :: "string \<Rightarrow> sql_type \<Rightarrow> column" where
  "optional name ty = \<lparr>co_name = name, co_type = ty, co_nullable = True\<rparr>"

definition accounts_columns :: "column list" where
  "accounts_columns =
     [required ''id'' (SqlString None), required ''team_label'' (SqlString None), required ''plan_type'' (SqlString None),
      required ''status'' (SqlString None), optional ''monthly_budget_credits'' SqlInteger,
      optional ''remaining_credits_live'' SqlInteger, optional ''plan_credits_live'' SqlInteger,
      optional ''rpm_limit'' SqlInteger, optional ''billing_period_start'' (SqlDateTime False),
      optional ''billing_period_end'' (SqlDateTime False), optional ''queue_active_jobs'' SqlInteger,
      optional ''queue_waiting_jobs'' SqlInteger, optional ''queue_max_concurrency'' SqlInteger,
      optional ''cooldown_until'' (SqlDateTime False), optional ''last_usage_refresh_at'' (SqlDateTime False),
      optional ''last_queue_refresh_at'' (SqlDateTime False), optional ''last_refresh_error_at'' (SqlDateTime False),
      optional ''last_refresh_error_message'' SqlText, required ''created_at'' (SqlDateTime False),
      required ''updated_at'' (SqlDateTime False)]"

definition credentials_columns :: "column list" where
  "credentials_columns =
     [required ''id'' (SqlString None), required ''account_id'' (SqlString None), optional ''name'' (SqlString None),
      required ''api_key_encrypted'' SqlBinary, required ''status'' (SqlString None),
      optional ''last_validated_at'' (SqlDateTime False), optional ''last_error_at'' (SqlDateTime False),
      optional ''last_error_message'' SqlText, required ''created_at'' (SqlDateTime False),
      required ''updated_at'' (SqlDateTime False)]"

definition jobs_columns :: "column list" where
  "jobs_columns =
     [required ''id'' SqlInteger, optional ''account_id'' (SqlString None), optional ''credential_id'' (SqlString None),
      required ''endpoint'' (SqlString None), optional ''upstream_job_id'' (SqlString None),
      required ''status'' (SqlString None), optional ''estimated_credits_reserved'' SqlInteger,
      optional ''credits_used_final'' SqlInteger, required ''created_at'' (SqlDateTime False),
      optional ''completed_at'' (SqlDateTime False), optional ''last_polled_at'' (SqlDateTime False),
      optional ''next_url'' SqlText]"

definition request_logs_columns :: "column list" where
  "request_logs_columns =
     [required ''id'' SqlInteger, optional ''account_id'' (SqlString None), optional ''credential_id'' (SqlString None),
      optional ''client_api_key_id'' (SqlString None), required ''endpoint'' (SqlString None),
      optional ''upstream_job_id'' (SqlString None), required ''requested_at'' (SqlDateTime False),
      required ''status'' (SqlString None), optional ''upstream_status_code'' SqlInteger,
      optional ''estimated_credits_pre'' SqlInteger, optional ''credits_used_final'' SqlInteger,
      optional ''latency_ms'' SqlInteger, optional ''error_code'' (SqlString None), optional ''error_message'' SqlText]"

definition settings_columns :: "column list" where
  "settings_columns =
     [required ''id'' SqlInteger, required ''dashboard_session_ttl_seconds'' SqlInteger,
      required ''totp_required_on_login'' SqlBoolean, optional ''password_hash'' SqlText,
      optional ''bootstrap_token_encrypted'' SqlBinary, optional ''bootstrap_token_hash'' SqlBinary,
      required ''api_key_auth_enabled'' SqlBoolean, optional ''totp_secret_encrypted'' SqlBinary,
      optional ''totp_last_verified_step'' SqlInteger, required ''created_at'' (SqlDateTime False),
      required ''updated_at'' (SqlDateTime False)]"

definition metadata :: "(string \<times> column list) list" where
  "metadata =
     [(''firecrawl_accounts'', accounts_columns), (''firecrawl_credentials'', credentials_columns),
      (''firecrawl_jobs'', jobs_columns), (''firecrawl_request_logs'', request_logs_columns),
      (''audit_logs'',
         [required ''id'' SqlInteger, required ''timestamp'' (SqlDateTime True), required ''action'' (SqlString (Some 100)),
          optional ''actor_ip'' (SqlString (Some 50)), optional ''details'' SqlText,
          optional ''request_id'' (SqlString (Some 100))]),
      (''scheduler_leader'',
         [required ''id'' SqlInteger, required ''leader_id'' (SqlString (Some 100)),
          required ''acquired_at'' (SqlDateTime True), required ''expires_at'' (SqlDateTime True)]),
      (''dashboard_settings'', settings_columns),
      (''api_firewall_allowlist'', [required ''ip_address'' (SqlString None), required ''created_at'' (SqlDateTime False)]),
      (''rate_limit_attempts'',
         [required ''id'' SqlInteger, required ''key'' (SqlString (Some 255)), required ''attempted_at'' (SqlDateTime True),
          required ''type'' (SqlString (Some 50))]),
      (''cache_invalidations'',
         [required ''namespace'' (SqlString (Some 50)), required ''version'' SqlInteger,
          required ''created_at'' (SqlDateTime True)])]"

section \<open>What the libraries do to the tables\<close>

definition create_all :: "(string \<times> column list) list \<Rightarrow> 'v db_tables \<Rightarrow> 'v db_tables" where
  "create_all md tables t =
     (case tables t of
        Some x \<Rightarrow> Some x
      | None \<Rightarrow> map_option (\<lambda>cs. \<lparr>dt_columns = cs, dt_rows = []\<rparr>) (map_of md t))"

definition drop_all :: "(string \<times> column list) list \<Rightarrow> 'v db_tables \<Rightarrow> 'v db_tables" where
  "drop_all md tables t = (if map_of md t = None then tables t else None)"

datatype migration_exc = NoSuchTable | UnknownRevision | OtherMigrationError

definition add_column :: "string \<Rightarrow> column \<Rightarrow> 'v db_tables \<Rightarrow> migration_exc + 'v db_tables" where
  "add_column t c tables =
     (case tables t of
        None \<Rightarrow> Inl NoSuchTable
      | Some x \<Rightarrow> Inr (tables(t \<mapsto> x\<lparr>dt_columns := dt_columns x @ [c], dt_rows := map (\<lambda>r. r(co_name c := None)) (dt_rows x)\<rparr>)))"

definition drop_column :: "string \<Rightarrow> string \<Rightarrow> 'v db_tables \<Rightarrow> migration_exc + 'v db_tables" where
  "drop_column t n tables =
     (case tables t of
        None \<Rightarrow> Inl NoSuchTable
      | Some x \<Rightarrow> Inr (tables(t \<mapsto> x\<lparr>dt_columns := filter (\<lambda>c. co_name c \<noteq> n) (dt_columns x),
                                    dt_rows := map (\<lambda>r. r(n := None)) (dt_rows x)\<rparr>)))"

section \<open>The revisions\<close>

record 'v revision_script =
  rs_revision :: string
  rs_down_revision :: "string option"
  rs_upgrade :: "'v db_tables \<Rightarrow> migration_exc + 'v db_tables"
  rs_downgrade :: "'v db_tables \<Rightarrow> migration_exc + 'v db_tables"

definition base_script :: "'v revision_script" where
  "base_script =
     \<lparr>rs_revision = ''20260623_firecrawl_base'', rs_down_revision = None,
      rs_upgrade = (\<lambda>tables. Inr (create_all metadata tables)), rs_downgrade = (\<lambda>tables. Inr (drop_all metadata tables))\<rparr>"

definition table_columns :: "'v db_tables \<Rightarrow> string \<Rightarrow> string list" where
  "table_columns tables t = (case tables t of None \<Rightarrow> [] | Some x \<Rightarrow> map co_name (dt_columns x))"

definition error_at_column :: column where "error_at_column = optional ''last_refresh_error_at'' (SqlDateTime False)"
definition message_column :: column where "message_column = optional ''last_refresh_error_message'' SqlText"

definition refresh_upgrade :: "'v db_tables \<Rightarrow> migration_exc + 'v db_tables" where
  "refresh_upgrade tables =
     (let columns = table_columns tables ''firecrawl_accounts''
      in res_bind (if ''last_refresh_error_at'' \<notin> set columns then add_column ''firecrawl_accounts'' error_at_column tables else Inr tables)
           (\<lambda>tables. if ''last_refresh_error_message'' \<notin> set columns
                     then add_column ''firecrawl_accounts'' message_column tables else Inr tables))"

definition refresh_downgrade :: "'v db_tables \<Rightarrow> migration_exc + 'v db_tables" where
  "refresh_downgrade tables =
     (let columns = table_columns tables ''firecrawl_accounts''
      in res_bind (if ''last_refresh_error_message'' \<in> set columns
                   then drop_column ''firecrawl_accounts'' ''last_refresh_error_message'' tables else Inr tables)
           (\<lambda>tables. if ''last_refresh_error_at'' \<in> set columns
                     then drop_column ''firecrawl_accounts'' ''last_refresh_error_at'' tables else Inr tables))"

definition refresh_script :: "'v revision_script" where
  "refresh_script =
     \<lparr>rs_revision = ''20260623_firecrawl_refresh'', rs_down_revision = Some ''20260623_firecrawl_base'',
      rs_upgrade = refresh_upgrade, rs_downgrade = refresh_downgrade\<rparr>"

definition scripts :: "'v revision_script list" where
  "scripts = [base_script, refresh_script]"

definition head_revision :: string where
  "head_revision = ''20260623_firecrawl_refresh''"

text \<open>Each script continues the one before it, and the last is the head.\<close>

lemma scripts_chain:
  "map rs_down_revision scripts = None # map (Some \<circ> rs_revision) (butlast scripts) \<and>
   rs_revision (last scripts) = head_revision \<and> distinct (map rs_revision scripts)"
  by (simp add: scripts_def base_script_def refresh_script_def head_revision_def)

lemma last_script [simp]: "rs_revision (last scripts) = head_revision"
  using scripts_chain by blast

section \<open>Upgrading to the head\<close>

record 'v mig_db =
  md_tables :: "'v db_tables"
  md_revision :: "string option"

text \<open>What Alembic documents: the scripts after the revision of the database, in order, each stamped when it has run.\<close>

fun run_upgrades :: "'v revision_script list \<Rightarrow> 'v mig_db \<Rightarrow> migration_exc + 'v mig_db" where
  "run_upgrades [] db = Inr db"
| "run_upgrades (s # ss) db =
     res_bind (rs_upgrade s (md_tables db)) (\<lambda>tables.
       run_upgrades ss (db\<lparr>md_tables := tables, md_revision := Some (rs_revision s)\<rparr>))"

definition upgrade_to_head :: "'v mig_db \<Rightarrow> migration_exc + 'v mig_db" where
  "upgrade_to_head db =
     (case md_revision db of
        None \<Rightarrow> run_upgrades scripts db
      | Some r \<Rightarrow>
          if r \<in> set (map rs_revision (scripts :: 'v revision_script list))
          then run_upgrades (tl (dropWhile (\<lambda>s. rs_revision s \<noteq> r) scripts)) db
          else Inl UnknownRevision)"

section \<open>The environment\<close>

text \<open>
  \<open>make_url\<close> splits off the driver, and rendering puts it back; a URL may be malformed. The
  configuration of Alembic interpolates: it refuses a value with a lone percent sign.
\<close>

record url_lib =
  ul_parse :: "string \<Rightarrow> (string \<times> string) option"
  ul_render :: "string \<times> string \<Rightarrow> string"
  ul_settable :: "string \<Rightarrow> bool"

definition sync_driver :: "string \<Rightarrow> string" where
  "sync_driver driver =
     (if driver = ''sqlite+aiosqlite'' then ''sqlite''
      else if driver = ''postgresql+asyncpg'' then ''postgresql+psycopg'' else driver)"

definition to_sync_database_url :: "url_lib \<Rightarrow> string \<Rightarrow> string option" where
  "to_sync_database_url ul url = map_option (\<lambda>(driver, rest). ul_render ul (sync_driver driver, rest)) (ul_parse ul url)"

lemma to_sync_twice:
  assumes "\<And>d r. ul_parse ul (ul_render ul (d, r)) = Some (d, r)" and "to_sync_database_url ul url = Some u"
  shows "to_sync_database_url ul u = Some u"
proof -
  have sync: "sync_driver (sync_driver d) = sync_driver d" for d by (simp add: sync_driver_def)
  obtain d r where "ul_parse ul url = Some (d, r)" "u = ul_render ul (sync_driver d, r)"
    using assms(2) by (auto simp: to_sync_database_url_def)
  then show ?thesis by (simp add: to_sync_database_url_def assms(1) sync)
qed

record alembic_config =
  ac_script_location :: string
  ac_url :: string
  ac_configure_logger :: bool

definition build_alembic_config :: "url_lib \<Rightarrow> string \<Rightarrow> string \<Rightarrow> alembic_config option" where
  "build_alembic_config ul location url =
     Option.bind (to_sync_database_url ul url) (\<lambda>u.
       if ul_settable ul u then Some \<lparr>ac_script_location = location, ac_url = u, ac_configure_logger = False\<rparr> else None)"

text \<open>The environment script: the URL of the configuration goes before that of the settings.\<close>

record migration_context =
  mc_url :: string
  mc_offline :: bool
  mc_literal_binds :: bool
  mc_paramstyle :: "string option"
  mc_compare_type :: bool
  mc_render_as_batch :: bool

definition env_url :: "url_lib \<Rightarrow> string option \<Rightarrow> string \<Rightarrow> string option" where
  "env_url ul configured settings_url =
     (case configured of
        Some u \<Rightarrow> if u \<noteq> [] then Some u else to_sync_database_url ul settings_url
      | None \<Rightarrow> to_sync_database_url ul settings_url)"

definition run_migrations_offline :: "string \<Rightarrow> migration_context" where
  "run_migrations_offline url =
     \<lparr>mc_url = url, mc_offline = True, mc_literal_binds = True, mc_paramstyle = Some ''named'', mc_compare_type = True,
      mc_render_as_batch = startswith url ''sqlite''\<rparr>"

definition run_migrations_online :: "(string \<Rightarrow> string) \<Rightarrow> string \<Rightarrow> migration_context" where
  "run_migrations_online dialect url =
     \<lparr>mc_url = url, mc_offline = False, mc_literal_binds = False, mc_paramstyle = None, mc_compare_type = True,
      mc_render_as_batch = (dialect url = ''sqlite'')\<rparr>"

definition env_script ::
  "url_lib \<Rightarrow> (string \<Rightarrow> string) \<Rightarrow> bool \<Rightarrow> string option \<Rightarrow> string \<Rightarrow> migration_context option" where
  "env_script ul dialect offline configured settings_url =
     Option.bind (env_url ul configured settings_url) (\<lambda>url.
       if offline then (if ul_settable ul url then Some (run_migrations_offline url) else None)
       else Some (run_migrations_online dialect url))"

text \<open>
  Under the entry points the configuration has the synchronous URL, so the settings are not asked, and
  SQLite is migrated in batches either way when the dialect is what the URL begins with.
\<close>

lemma env_script_configured:
  assumes "build_alembic_config ul location url = Some config" and "ac_url config \<noteq> []"
    and "\<And>u. dialect u = ''sqlite'' \<longleftrightarrow> startswith u ''sqlite''"
  shows "\<exists>mc. env_script ul dialect offline (Some (ac_url config)) other = Some mc \<and> mc_url mc = ac_url config \<and>
    mc_offline mc = offline \<and> mc_compare_type mc \<and> (mc_render_as_batch mc \<longleftrightarrow> startswith (ac_url config) ''sqlite'')"
  using assms by (auto simp: build_alembic_config_def env_script_def env_url_def run_migrations_offline_def
      run_migrations_online_def split: Option.bind_splits if_splits)

section \<open>Entry points\<close>

text \<open>
  \<open>mw_connect\<close>: whether a connection can be opened; \<open>mw_alembic\<close>: the upgrade command, how it ends and
  what it leaves; \<open>mw_compare\<close>: the differences between the tables and the metadata.
\<close>

record 'v mig_world =
  mw_urls :: url_lib
  mw_location :: string
  mw_settings_url :: string
  mw_connect :: "string \<Rightarrow> bool"
  mw_alembic :: "alembic_config \<Rightarrow> string \<Rightarrow> 'v mig_db \<Rightarrow> migration_exc option \<times> 'v mig_db"
  mw_compare :: "'v db_tables \<Rightarrow> string list"

definition given_url :: "'v mig_world \<Rightarrow> string option \<Rightarrow> string" where
  "given_url w database_url =
     (case database_url of Some u \<Rightarrow> if u \<noteq> [] then u else mw_settings_url w | None \<Rightarrow> mw_settings_url w)"

text \<open>An engine for the synchronous URL; what is read from its connection, or an error.\<close>

definition with_connection :: "'v mig_world \<Rightarrow> string \<Rightarrow> 'a \<Rightarrow> migration_exc + 'a" where
  "with_connection w url v =
     (case to_sync_database_url (mw_urls w) url of
        None \<Rightarrow> Inl OtherMigrationError
      | Some u \<Rightarrow> if mw_connect w u then Inr v else Inl OtherMigrationError)"

definition current_revision :: "'v mig_world \<Rightarrow> string \<Rightarrow> 'v mig_db \<Rightarrow> migration_exc + string option" where
  "current_revision w url db = with_connection w url (md_revision db)"

definition head_of_config :: "'v mig_world \<Rightarrow> string \<Rightarrow> migration_exc + string" where
  "head_of_config w url =
     (case build_alembic_config (mw_urls w) (mw_location w) url of
        None \<Rightarrow> Inl OtherMigrationError
      | Some _ \<Rightarrow> Inr (rs_revision (last (scripts :: 'v revision_script list))))"

definition get_head_revision :: "'v mig_world \<Rightarrow> migration_exc + string" where
  "get_head_revision w = head_of_config w (mw_settings_url w)"

record migration_state =
  mi_current_revision :: "string option"
  mi_head_revision :: string
  mi_has_alembic_version_table :: bool
  mi_has_legacy_migrations_table :: bool
  mi_needs_upgrade :: bool

definition inspect_migration_state :: "'v mig_world \<Rightarrow> string \<Rightarrow> 'v mig_db \<Rightarrow> migration_exc + migration_state" where
  "inspect_migration_state w url db =
     res_bind (current_revision w url db) (\<lambda>current.
     res_bind (head_of_config w url) (\<lambda>head.
       Inr \<lparr>mi_current_revision = current, mi_head_revision = head, mi_has_alembic_version_table = (current \<noteq> None),
            mi_has_legacy_migrations_table = False, mi_needs_upgrade = (current \<noteq> Some head)\<rparr>))"

definition alembic_upgrade :: "'v mig_world \<Rightarrow> string \<Rightarrow> string \<Rightarrow> 'v mig_db \<Rightarrow> (migration_exc + unit) \<times> 'v mig_db" where
  "alembic_upgrade w url target db =
     (case build_alembic_config (mw_urls w) (mw_location w) url of
        None \<Rightarrow> (Inl OtherMigrationError, db)
      | Some config \<Rightarrow> (case mw_alembic w config target db of (Some e, db') \<Rightarrow> (Inl e, db') | (None, db') \<Rightarrow> (Inr (), db')))"

definition run_migrations :: "'v mig_world \<Rightarrow> string option \<Rightarrow> 'v mig_db \<Rightarrow> (migration_exc + string option) \<times> 'v mig_db" where
  "run_migrations w database_url db =
     (let db_url = given_url w database_url
      in case alembic_upgrade w db_url ''head'' db of
           (Inl e, db') \<Rightarrow> (Inl e, db')
         | (Inr _, db') \<Rightarrow> (current_revision w db_url db', db'))"

text \<open>The result of the start holds the revision that is read once more.\<close>

definition run_startup_migrations ::
  "'v mig_world \<Rightarrow> string option \<Rightarrow> 'v mig_db \<Rightarrow> (migration_exc + string option) \<times> 'v mig_db" where
  "run_startup_migrations w database_url db =
     (let db_url = given_url w database_url
      in case run_migrations w (Some db_url) db of
           (Inl e, db') \<Rightarrow> (Inl e, db')
         | (Inr _, db') \<Rightarrow> (current_revision w db_url db', db'))"

definition check_schema_drift :: "'v mig_world \<Rightarrow> string option \<Rightarrow> 'v mig_db \<Rightarrow> migration_exc + string list" where
  "check_schema_drift w database_url db = with_connection w (given_url w database_url) (mw_compare w (md_tables db))"

text \<open>The command line: an upgrade, or a check that prints the drift and exits with 1 when there is some.\<close>

datatype db_command = UpgradeTo "string option" | CheckDrift | OtherCommand string

datatype db_exit = Finished | ExitWith int | ExitMessage string | Raised migration_exc

definition migrate_main ::
  "'v mig_world \<Rightarrow> string option \<Rightarrow> db_command \<Rightarrow> 'v mig_db \<Rightarrow> (string list \<times> db_exit) \<times> 'v mig_db" where
  "migrate_main w db_url_arg cmd db =
     (let db_url = given_url w db_url_arg
      in case cmd of
           UpgradeTo r \<Rightarrow>
             (case alembic_upgrade w db_url (case r of None \<Rightarrow> ''head'' | Some t \<Rightarrow> t) db of
                (Inl e, db') \<Rightarrow> (([], Raised e), db')
              | (Inr _, db') \<Rightarrow> (([], Finished), db'))
         | CheckDrift \<Rightarrow>
             (case check_schema_drift w (Some db_url) db of
                Inl e \<Rightarrow> (([], Raised e), db)
              | Inr drift \<Rightarrow>
                  if drift \<noteq> [] then ((drift, ExitWith 1), db) else (([''No schema drift detected.''], Finished), db))
         | OtherCommand c \<Rightarrow> (([], ExitMessage (''Unknown command: '' @ c)), db))"

section \<open>Upgrades keep the data\<close>

text \<open>
  One set of tables continues another: no table, no column and no row is lost, and every value in a
  column that was there is as it was.
\<close>

definition keeps_table :: "'v db_table \<Rightarrow> 'v db_table \<Rightarrow> bool" where
  "keeps_table x y \<longleftrightarrow> set (dt_columns x) \<subseteq> set (dt_columns y) \<and>
     list_all2 (\<lambda>r r'. \<forall>n\<in>co_name ` set (dt_columns x). r' n = r n) (dt_rows x) (dt_rows y)"

definition keeps_data :: "'v db_tables \<Rightarrow> 'v db_tables \<Rightarrow> bool" where
  "keeps_data a b \<longleftrightarrow> (\<forall>t x. a t = Some x \<longrightarrow> (\<exists>y. b t = Some y \<and> keeps_table x y))"

lemma keeps_table_refl: "keeps_table x x"
  by (simp add: keeps_table_def list_all2_refl)

lemma keeps_table_trans: "keeps_table x y \<Longrightarrow> keeps_table y z \<Longrightarrow> keeps_table x z"
proof -
  assume xy: "keeps_table x y" and yz: "keeps_table y z"
  have sub: "set (dt_columns x) \<subseteq> set (dt_columns y)" using xy by (simp add: keeps_table_def)
  have rows: "list_all2 (\<lambda>r r'. \<forall>n\<in>co_name ` set (dt_columns x). r' n = r n) (dt_rows x) (dt_rows y)"
    "list_all2 (\<lambda>r r'. \<forall>n\<in>co_name ` set (dt_columns y). r' n = r n) (dt_rows y) (dt_rows z)"
    using xy yz by (simp_all add: keeps_table_def)
  have "list_all2 (\<lambda>r r'. \<forall>n\<in>co_name ` set (dt_columns x). r' n = r n) (dt_rows x) (dt_rows z)"
  proof (rule list_all2_trans [OF _ rows])
    fix r r' r'' :: "string \<Rightarrow> 'a option"
    assume a: "\<forall>n\<in>co_name ` set (dt_columns x). r' n = r n" and b: "\<forall>n\<in>co_name ` set (dt_columns y). r'' n = r' n"
    show "\<forall>n\<in>co_name ` set (dt_columns x). r'' n = r n"
    proof
      fix n assume n: "n \<in> co_name ` set (dt_columns x)"
      then have "n \<in> co_name ` set (dt_columns y)" using sub by blast
      with bspec [OF a n] bspec [OF b] show "r'' n = r n" by simp
    qed
  qed
  with sub yz show "keeps_table x z" by (auto simp: keeps_table_def)
qed

lemma keeps_data_refl: "keeps_data a a"
  using keeps_table_refl by (auto simp: keeps_data_def)

lemma keeps_data_trans: "keeps_data a b \<Longrightarrow> keeps_data b c \<Longrightarrow> keeps_data a c"
  unfolding keeps_data_def using keeps_table_trans by metis

lemma create_all_keeps: "keeps_data tables (create_all md tables)"
  by (auto simp: keeps_data_def create_all_def keeps_table_refl)

lemma add_column_keeps:
  assumes "add_column t c tables = Inr tables'" and "co_name c \<notin> set (table_columns tables t)"
  shows "keeps_data tables tables' \<and> set (table_columns tables' t) = insert (co_name c) (set (table_columns tables t))"
proof -
  obtain x where x: "tables t = Some x" and tables': "tables' = tables(t \<mapsto> x\<lparr>dt_columns := dt_columns x @ [c],
      dt_rows := map (\<lambda>r. r(co_name c := None)) (dt_rows x)\<rparr>)"
    using assms(1) by (auto simp: add_column_def split: option.splits)
  have "keeps_table x (x\<lparr>dt_columns := dt_columns x @ [c], dt_rows := map (\<lambda>r. r(co_name c := None)) (dt_rows x)\<rparr>)"
    using assms(2) x
    by (auto simp: keeps_table_def table_columns_def list_all2_map2 intro!: list_all2_refl) (metis imageI)
  then show ?thesis using x keeps_table_refl by (auto simp: tables' keeps_data_def table_columns_def)
qed

lemma refresh_upgrade_keeps:
  assumes "refresh_upgrade tables = Inr tables'"
  shows "keeps_data tables tables' \<and>
    {''last_refresh_error_at'', ''last_refresh_error_message''} \<subseteq> set (table_columns tables' ''firecrawl_accounts'')"
proof -
  let ?t = "''firecrawl_accounts''"
  obtain mid where mid: "(if ''last_refresh_error_at'' \<notin> set (table_columns tables ?t) then add_column ?t error_at_column tables else Inr tables) = Inr mid"
    and last: "(if ''last_refresh_error_message'' \<notin> set (table_columns tables ?t) then add_column ?t message_column mid else Inr mid) = Inr tables'"
    using assms by (auto simp: refresh_upgrade_def res_bind_eq_Inr Let_def)
  have names: "co_name error_at_column = ''last_refresh_error_at''" "co_name message_column = ''last_refresh_error_message''"
    by (simp_all add: error_at_column_def message_column_def optional_def)
  have m: "keeps_data tables mid \<and> set (table_columns mid ?t) = insert ''last_refresh_error_at'' (set (table_columns tables ?t))"
    using mid add_column_keeps [of ?t error_at_column tables mid] names keeps_data_refl by (auto split: if_splits)
  have "keeps_data mid tables' \<and> set (table_columns tables' ?t) = insert ''last_refresh_error_message'' (set (table_columns mid ?t))"
    using last m add_column_keeps [of ?t message_column mid tables'] names keeps_data_refl by (auto split: if_splits)
  with m keeps_data_trans show ?thesis by blast
qed

text \<open>The revisions the database may be stamped with, and what the last one needs.\<close>

definition stamped :: "'v mig_db \<Rightarrow> bool" where
  "stamped db \<longleftrightarrow>
     md_revision db = None \<or> md_revision db = Some head_revision \<or>
     md_revision db = Some ''20260623_firecrawl_base'' \<and> md_tables db ''firecrawl_accounts'' \<noteq> None"

lemma add_column_total: "tables t \<noteq> None \<Longrightarrow> \<exists>tables'. add_column t c tables = Inr tables' \<and> tables' t \<noteq> None"
  by (auto simp: add_column_def)

lemma refresh_upgrade_total:
  assumes "tables ''firecrawl_accounts'' \<noteq> None"
  shows "\<exists>tables'. refresh_upgrade tables = Inr tables'"
proof -
  let ?t = "''firecrawl_accounts''"
  obtain mid where "(if ''last_refresh_error_at'' \<notin> set (table_columns tables ?t) then add_column ?t error_at_column tables else Inr tables) = Inr mid"
    "mid ?t \<noteq> None"
    using add_column_total [of tables ?t error_at_column] assms
    by (cases "''last_refresh_error_at'' \<notin> set (table_columns tables ?t)") force+
  with add_column_total [of mid ?t message_column] show ?thesis
    by (auto simp: refresh_upgrade_def Let_def)
qed

text \<open>The refresh revision on the base revision without its table fails; nothing else does.\<close>

lemma refresh_upgrade_missing: "tables ''firecrawl_accounts'' = None \<Longrightarrow> refresh_upgrade tables = Inl NoSuchTable"
  by (simp add: refresh_upgrade_def table_columns_def add_column_def Let_def)

lemma upgrade_cases:
  "upgrade_to_head db =
     (if md_revision db = None then
        res_bind (refresh_upgrade (create_all metadata (md_tables db))) (\<lambda>ts. Inr (db\<lparr>md_tables := ts, md_revision := Some head_revision\<rparr>))
      else if md_revision db = Some ''20260623_firecrawl_base'' then
        res_bind (refresh_upgrade (md_tables db)) (\<lambda>ts. Inr (db\<lparr>md_tables := ts, md_revision := Some head_revision\<rparr>))
      else if md_revision db = Some head_revision then Inr db else Inl UnknownRevision)"
  by (auto simp: upgrade_to_head_def scripts_def base_script_def refresh_script_def head_revision_def res_bind_def
      split: option.splits sum.splits)

lemma upgrade_sound:
  assumes "upgrade_to_head db = Inr db'"
  shows "md_revision db' = Some head_revision \<and> keeps_data (md_tables db) (md_tables db') \<and>
    (md_revision db \<noteq> Some head_revision \<longrightarrow>
       {''last_refresh_error_at'', ''last_refresh_error_message''} \<subseteq> set (table_columns (md_tables db') ''firecrawl_accounts''))"
proof -
  have head: "Some ''20260623_firecrawl_base'' \<noteq> Some head_revision" by (simp add: head_revision_def)
  consider (fresh) ts where "refresh_upgrade (create_all metadata (md_tables db)) = Inr ts" "md_tables db' = ts" "md_revision db' = Some head_revision"
    | (base) ts where "refresh_upgrade (md_tables db) = Inr ts" "md_tables db' = ts" "md_revision db' = Some head_revision"
    | (head) "md_revision db = Some head_revision" "db' = db"
    using assms unfolding upgrade_cases by (auto simp: res_bind_eq_Inr split: if_splits)
  then show ?thesis
  proof cases
    case fresh
    with refresh_upgrade_keeps [OF fresh(1)] keeps_data_trans [OF create_all_keeps] show ?thesis by auto
  next
    case base
    with refresh_upgrade_keeps [OF base(1)] show ?thesis by auto
  qed (simp add: keeps_data_refl)
qed

lemma upgrade_total: "stamped db \<Longrightarrow> \<exists>db'. upgrade_to_head db = Inr db'"
proof -
  assume st: "stamped db"
  have "create_all metadata (md_tables db) ''firecrawl_accounts'' \<noteq> None"
    by (auto simp: create_all_def metadata_def split: option.split)
  with st refresh_upgrade_total [of "md_tables db"] refresh_upgrade_total [of "create_all metadata (md_tables db)"] show ?thesis
    unfolding upgrade_cases stamped_def by (auto simp: head_revision_def)
qed

text \<open>The command does what is documented: it succeeds with what the scripts give, and fails when they do.\<close>

definition follows_scripts :: "'v mig_world \<Rightarrow> bool" where
  "follows_scripts w \<longleftrightarrow>
     (\<forall>config db db'. mw_alembic w config ''head'' db = (None, db') \<longleftrightarrow> upgrade_to_head db = Inr db')"

lemma run_startup_Inr:
  assumes "run_startup_migrations w url db = (Inr r, db')" and "follows_scripts w"
  shows "upgrade_to_head db = Inr db' \<and> r = md_revision db' \<and>
    inspect_migration_state w (given_url w url) db' = Inr
      \<lparr>mi_current_revision = md_revision db', mi_head_revision = head_revision,
       mi_has_alembic_version_table = (md_revision db' \<noteq> None), mi_has_legacy_migrations_table = False,
       mi_needs_upgrade = (md_revision db' \<noteq> Some head_revision)\<rparr>"
proof -
  have same: "given_url w (Some (given_url w url)) = given_url w url"
    by (auto simp: given_url_def split: option.split)
  obtain config u where config: "build_alembic_config (mw_urls w) (mw_location w) (given_url w url) = Some config"
    and up: "mw_alembic w config ''head'' db = (None, db')"
    and cur: "current_revision w (given_url w url) db' = Inr r"
    using assms(1)
    by (auto simp: run_startup_migrations_def run_migrations_def alembic_upgrade_def same Let_def
        split: prod.splits sum.splits option.splits)
  moreover have "r = md_revision db'"
    using cur by (auto simp: current_revision_def with_connection_def split: option.splits if_splits)
  ultimately show ?thesis
    using assms(2) by (simp add: follows_scripts_def inspect_migration_state_def head_of_config_def)
qed

text \<open>
  A migration at the start-up loses nothing. Whatever tables, rows and columns the database had,
  after a successful run they are all there with their values; the database is at the head revision, the
  state that is inspected asks for no further upgrade and another upgrade changes nothing; and a database
  that was not at the head has the columns of the refresh errors.
\<close>

lemma startup_keeps_data:
  assumes "follows_scripts w" and "run_startup_migrations w url db = (Inr r, db')"
  shows "r = Some head_revision \<and> keeps_data (md_tables db) (md_tables db') \<and>
    (\<exists>st. inspect_migration_state w (given_url w url) db' = Inr st \<and> \<not> mi_needs_upgrade st) \<and>
    (md_revision db \<noteq> Some head_revision \<longrightarrow>
       {''last_refresh_error_at'', ''last_refresh_error_message''} \<subseteq> set (table_columns (md_tables db') ''firecrawl_accounts'')) \<and>
    upgrade_to_head db' = Inr db'"
proof -
  note run = run_startup_Inr [OF assms(2,1)]
  note sound = upgrade_sound [OF conjunct1 [OF run]]
  have "upgrade_to_head db' = Inr db'" using sound by (simp add: upgrade_cases head_revision_def)
  with run sound show ?thesis by auto
qed

text \<open>A SQLite database of the base revision with one account, and a world in which Alembic runs the scripts.\<close>

definition script_world :: "string mig_world" where
  "script_world =
     \<lparr>mw_urls = \<lparr>ul_parse = (\<lambda>u. Some (takeWhile (\<lambda>c. c \<noteq> CHR '':'') u, dropWhile (\<lambda>c. c \<noteq> CHR '':'') u)),
                ul_render = (\<lambda>(d, r). d @ r), ul_settable = (\<lambda>u. CHR ''%'' \<notin> set u)\<rparr>,
      mw_location = ''alembic'', mw_settings_url = ''sqlite+aiosqlite:///store.db'', mw_connect = (\<lambda>u. startswith u ''sqlite:''),
      mw_alembic = (\<lambda>config target db. case upgrade_to_head db of Inl e \<Rightarrow> (Some e, db) | Inr db' \<Rightarrow> (None, db')),
      mw_compare = (\<lambda>_. [])\<rparr>"

definition old_database :: "string mig_db" where
  "old_database =
     \<lparr>md_tables = (\<lambda>t. if t = ''firecrawl_accounts''
         then Some \<lparr>dt_columns = [required ''id'' (SqlString None)], dt_rows = [(\<lambda>n. if n = ''id'' then Some ''a1'' else None)]\<rparr>
         else None),
      md_revision = Some ''20260623_firecrawl_base''\<rparr>"

lemma script_world_follows: "follows_scripts script_world"
  by (simp add: follows_scripts_def script_world_def split: sum.split)

lemma old_database_upgraded:
  "case run_startup_migrations script_world None old_database of
     (Inr r, db) \<Rightarrow> r = Some head_revision \<and>
       (case md_tables db ''firecrawl_accounts'' of
          Some x \<Rightarrow> map (\<lambda>r. map r [''id'', ''last_refresh_error_at'']) (dt_rows x) = [[Some ''a1'', None]]
        | None \<Rightarrow> False)
   | _ \<Rightarrow> False"
  by code_simp

lemma startup_keeps_data_example:
  "\<exists>r db'. run_startup_migrations script_world None old_database = (Inr r, db') \<and>
     keeps_data (md_tables old_database) (md_tables db') \<and> r = Some head_revision"
proof -
  obtain r db' where run: "run_startup_migrations script_world None old_database = (Inr r, db')"
    using old_database_upgraded by (auto split: prod.splits sum.splits)
  from startup_keeps_data [OF script_world_follows run] run show ?thesis by blast
qed

section \<open>Fresh databases and the way back\<close>

text \<open>
  The base revision creates the tables of today's models, so on an empty database it has the columns of
  the refresh revision already, which then changes nothing.
\<close>

lemma refresh_upgrade_present:
  "{''last_refresh_error_at'', ''last_refresh_error_message''} \<subseteq> set (table_columns tables ''firecrawl_accounts'') \<Longrightarrow>
     refresh_upgrade tables = Inr tables"
  by (simp add: refresh_upgrade_def Let_def)

lemma fresh_columns:
  "{''last_refresh_error_at'', ''last_refresh_error_message''} \<subseteq>
     set (table_columns (create_all metadata (\<lambda>_. None)) ''firecrawl_accounts'')"
  by (simp add: table_columns_def create_all_def metadata_def accounts_columns_def optional_def required_def)

lemma fresh_is_metadata:
  "upgrade_to_head \<lparr>md_tables = (\<lambda>_. None), md_revision = None\<rparr> =
     Inr \<lparr>md_tables = create_all metadata (\<lambda>_. None), md_revision = Some head_revision\<rparr>"
  by (simp add: upgrade_cases refresh_upgrade_present [OF fresh_columns])

text \<open>Going back a revision and forth again keeps the tables but forgets the recorded refresh errors.\<close>

lemma drop_column_columns:
  "drop_column t n tables = Inr tables' \<Longrightarrow> set (table_columns tables' t) = set (table_columns tables t) - {n}"
  by (auto simp: drop_column_def table_columns_def split: option.splits)

lemma refresh_downgrade_columns:
  assumes "refresh_downgrade tables = Inr tables'"
  shows "set (table_columns tables' ''firecrawl_accounts'') =
    set (table_columns tables ''firecrawl_accounts'') - {''last_refresh_error_at'', ''last_refresh_error_message''}"
proof -
  let ?t = "''firecrawl_accounts''" and ?m = "''last_refresh_error_message''" and ?a = "''last_refresh_error_at''"
  obtain mid where mid: "(if ?m \<in> set (table_columns tables ?t) then drop_column ?t ?m tables else Inr tables) = Inr mid"
    and last: "(if ?a \<in> set (table_columns tables ?t) then drop_column ?t ?a mid else Inr mid) = Inr tables'"
    using assms unfolding refresh_downgrade_def Let_def res_bind_eq_Inr by blast
  have m: "set (table_columns mid ?t) = set (table_columns tables ?t) - {?m}"
    using mid drop_column_columns [of ?t ?m tables mid] by (cases "?m \<in> set (table_columns tables ?t)") auto
  have "?a \<in> set (table_columns tables ?t) \<longleftrightarrow> ?a \<in> set (table_columns mid ?t)" unfolding m by simp
  then have "set (table_columns tables' ?t) = set (table_columns mid ?t) - {?a}"
    using last drop_column_columns [of ?t ?a mid tables'] by (cases "?a \<in> set (table_columns tables ?t)") auto
  then show ?thesis unfolding m by blast
qed

lemma downgrade_then_upgrade:
  assumes "refresh_downgrade tables = Inr down" and "refresh_upgrade down = Inr up"
  shows "set (table_columns up ''firecrawl_accounts'') =
    set (table_columns tables ''firecrawl_accounts'') \<union> {''last_refresh_error_at'', ''last_refresh_error_message''}"
proof -
  let ?t = "''firecrawl_accounts''"
  have names: "co_name error_at_column = ''last_refresh_error_at''" "co_name message_column = ''last_refresh_error_message''"
    by (simp_all add: error_at_column_def message_column_def optional_def)
  have none: "''last_refresh_error_at'' \<notin> set (table_columns down ?t)" "''last_refresh_error_message'' \<notin> set (table_columns down ?t)"
    using refresh_downgrade_columns [OF assms(1)] by auto
  with assms(2) obtain mid where mid: "add_column ?t error_at_column down = Inr mid" "add_column ?t message_column mid = Inr up"
    by (auto simp: refresh_upgrade_def res_bind_eq_Inr Let_def)
  have "set (table_columns mid ?t) = insert ''last_refresh_error_at'' (set (table_columns down ?t))"
    using add_column_keeps [OF mid(1)] names none by auto
  moreover from this have "set (table_columns up ?t) = insert ''last_refresh_error_message'' (set (table_columns mid ?t))"
    using add_column_keeps [OF mid(2)] names none by auto
  ultimately show ?thesis using refresh_downgrade_columns [OF assms(1)] by auto
qed

text \<open>A URL whose password has an escaped character cannot be migrated: the percent sign is refused by the configuration.\<close>

lemma percent_refused:
  assumes "to_sync_database_url (mw_urls w) (given_url w url) = Some u" and "\<not> ul_settable (mw_urls w) u"
  shows "run_startup_migrations w url db = (Inl OtherMigrationError, db)"
proof -
  have "given_url w (Some (given_url w url)) = given_url w url"
    by (auto simp: given_url_def split: option.split)
  with assms show ?thesis
    by (simp add: run_startup_migrations_def run_migrations_def alembic_upgrade_def build_alembic_config_def Let_def)
qed

end
