(* ===== verification/Startup.thy ===== *)
theory Startup
  imports Migrations
begin

text \<open>
  How the database is started and recovered from outside: the entry point of the container
  (\<open>src/scripts/distroless-entrypoint.py\<close>), which migrates by the command line before the application
  runs, the command line of \<open>src/app/db/recover.py\<close>, and the parts of \<open>src/app/db/session.py\<close> that open
  and close the database. Composed with the start-up of the database and the migrations.
\<close>

section \<open>Opening and closing\<close>

text \<open>\<open>Path(p).parent\<close>; the directory that is made for the database file, if any.\<close>

definition path_parent :: "string \<Rightarrow> string" where
  "path_parent p = path_str (path_root p @ join_with ''/'' (butlast (path_parts p)))"

definition ensure_sqlite_dir :: "host \<Rightarrow> string \<Rightarrow> settings_exc + string option" where
  "ensure_sqlite_dir ho url =
     (case url_path url of None \<Rightarrow> Inr None | Some p \<Rightarrow> res_bind (expanduser ho p) (\<lambda>q. Inr (Some (path_parent q))))"

text \<open>The directory is made exactly for the URLs that have a database file.\<close>

lemma ensure_sqlite_dir_iff:
  "(\<exists>d. ensure_sqlite_dir ho url = Inr (Some d)) \<longleftrightarrow> (\<exists>p. sqlite_db_path_from_url ho url = Inr (Some p))"
  by (auto simp: ensure_sqlite_dir_def sqlite_db_path_from_url_def res_bind_eq_Inr split: option.split)

lemma ensure_sqlite_dir_example:
  "ensure_sqlite_dir sample_host ''sqlite+aiosqlite:////var/lib/app/store.db?x=1'' = Inr (Some ''/var/lib/app'')"
  "ensure_sqlite_dir sample_host ''sqlite:///:memory:'' = Inr None"
  by code_simp+

definition startup_sqlite_check_mode :: "string \<Rightarrow> check_mode option res" where
  "startup_sqlite_check_mode raw =
     (if raw = ''off'' then Inr None
      else if raw = ''quick'' then Inr (Some QuickCheck)
      else if raw = ''full'' then Inr (Some FullCheck) else Inl ValueError)"

lemma startup_sqlite_check_mode_value:
  "startup_sqlite_check_mode (check_mode_value m) = Inr (if m = NoCheck then None else Some m)"
  by (cases m) (simp_all add: startup_sqlite_check_mode_def)

text \<open>
  \<open>close_db\<close>: the engines that are disposed of, in order. For an in-memory database the background
  engine is the main one, which is then disposed of twice.
\<close>

datatype engine_ref = MainEngine | BackgroundEngine

definition close_db :: "bool option \<Rightarrow> engine_ref list" where
  "close_db background_reuses_main =
     MainEngine # (case background_reuses_main of None \<Rightarrow> [] | Some True \<Rightarrow> [MainEngine] | Some False \<Rightarrow> [BackgroundEngine])"

section \<open>Recovery from the command line\<close>

definition file_name :: "string \<Rightarrow> string" where
  "file_name p = (case path_parts p of [] \<Rightarrow> [] | ps \<Rightarrow> last ps)"

definition with_name :: "string \<Rightarrow> string \<Rightarrow> string" where
  "with_name p name = path_str (path_root p @ join_with ''/'' (butlast (path_parts p) @ [name]))"

definition default_output_path :: "string \<Rightarrow> string \<Rightarrow> string" where
  "default_output_path timestamp source =
     (let name = file_name source; suffix = (if name_suffix name = [] then ''.db'' else name_suffix name)
      in with_name source (name_stem name @ ''.recover-'' @ timestamp @ suffix))"

datatype recover_main_exc = RecoverPath settings_exc | NotASqliteFile | RecoveryFailed recovery_exc

definition resolve_source_path :: "host \<Rightarrow> string \<Rightarrow> string option \<Rightarrow> recover_main_exc + string" where
  "resolve_source_path ho database_url db_path =
     (case db_path of
        Some p \<Rightarrow>
          if p \<noteq> [] then (case expanduser ho p of Inl e \<Rightarrow> Inl (RecoverPath e) | Inr q \<Rightarrow> Inr q)
          else (case sqlite_db_path_from_url ho database_url of
                  Inl e \<Rightarrow> Inl (RecoverPath e) | Inr None \<Rightarrow> Inl NotASqliteFile | Inr (Some q) \<Rightarrow> Inr q)
      | None \<Rightarrow>
          (case sqlite_db_path_from_url ho database_url of
             Inl e \<Rightarrow> Inl (RecoverPath e) | Inr None \<Rightarrow> Inl NotASqliteFile | Inr (Some q) \<Rightarrow> Inr q))"

record recover_args =
  ra_db :: "string option"
  ra_output :: "string option"
  ra_replace :: bool

definition recover_main ::
  "host \<Rightarrow> string \<Rightarrow> (string \<Rightarrow> string option) \<Rightarrow> (string \<Rightarrow> string option + string) \<Rightarrow> string \<Rightarrow> recover_args \<Rightarrow> directory
   \<Rightarrow> directory \<times> (recover_main_exc + (string \<times> string \<times> bool))" where
  "recover_main ho database_url dump written timestamp args dir =
     (case res_bind (resolve_source_path ho database_url (ra_db args)) (\<lambda>source.
             case ra_output args of
               Some p \<Rightarrow>
                 if p \<noteq> [] then (case expanduser ho p of Inl e \<Rightarrow> Inl (RecoverPath e) | Inr q \<Rightarrow> Inr (source, q))
                 else Inr (source, default_output_path timestamp source)
             | None \<Rightarrow> Inr (source, default_output_path timestamp source)) of
        Inl e \<Rightarrow> (dir, Inl e)
      | Inr (source, output) \<Rightarrow>
          (case recover_sqlite_db dump written timestamp source output (ra_replace args) dir of
             (dir', Inl e) \<Rightarrow> (dir', Inl (RecoveryFailed e))
           | (dir', Inr r) \<Rightarrow> (dir', Inr r)))"

lemma default_output_example:
  "default_output_path ''20250101-000000'' ''/var/lib/app/store.db'' = ''/var/lib/app/store.recover-20250101-000000.db''"
  "default_output_path ''20250101-000000'' ''store'' = ''store.recover-20250101-000000.db''"
  by code_simp+

text \<open>Without replacement a run leaves every file as it was: at most it adds the output, or a part of it.\<close>

lemma recover_sqlite_db_files:
  assumes "recover_sqlite_db dump written ts source out False dir = (dir', r)"
  shows "dir' = dir \<or> (\<exists>db. dir' = dir @ [(out, db)] \<and> \<not> file_exists dir out \<and> (r = Inr (source, out, False) \<or> r = Inl WriteFailed))"
  using assms by (auto simp: recover_sqlite_db_def write_dump_def Let_def split: if_splits option.splits sum.splits prod.splits)

lemma recover_main_files:
  assumes "recover_main ho url dump written ts args dir = (dir', r)" and "\<not> ra_replace args" and "file_exists dir n"
  shows "map_of dir' n = map_of dir n"
proof -
  have keep: "map_of d n = map_of dir n" if "recover_sqlite_db dump written ts source out False dir = (d, q)" for source out d q
    using recover_sqlite_db_files [OF that] assms(3) by (auto simp: file_exists_def map_of_append_new)
  show ?thesis
    using assms(1,2) by (auto simp: recover_main_def split: sum.splits prod.splits dest: keep)
qed

section \<open>The entry point of the container\<close>

text \<open>
  The upgrade runs as a process of its own; a failure of it ends the entry point. Then the application is
  started with the migration at its start switched off.
\<close>

definition entry_settings :: "settings \<Rightarrow> settings" where
  "entry_settings s = s\<lparr>st_database_migrate_on_startup := False\<rparr>"

definition container_start ::
  "host \<Rightarrow> settings \<Rightarrow> 'v mig_world \<Rightarrow> db_world \<Rightarrow> 'v mig_db \<Rightarrow> directory
   \<Rightarrow> 'v mig_db \<times> (db_effect list \<times> directory \<times> (init_exc + unit)) option" where
  "container_start ho s w dw db dir =
     (case migrate_main w None (UpgradeTo None) db of
        ((_, Finished), db') \<Rightarrow>
          let state = (case inspect_migration_state w (mw_settings_url w) db' of
                         Inl _ \<Rightarrow> None
                       | Inr st \<Rightarrow> Some (mi_current_revision st, Some (mi_head_revision st)))
          in (db', Some (init_db ho (entry_settings s) (dw\<lparr>dw_state := state\<rparr>) dir))
      | (_, db') \<Rightarrow> (db', None))"

lemma init_db_not_migrating:
  assumes "init_db ho (entry_settings s) dw dir = (effects, dir', result)"
  shows "effects = [] \<and> dir' = dir \<and> result \<notin> Inl ` {MigrationFailed} \<union> range (\<lambda>d. Inl (SchemaDrift d)) \<and>
    (result = Inl InspectFailed \<longrightarrow> dw_state dw = None) \<and>
    (result = Inl SchemaBehind \<longrightarrow> (\<exists>st. dw_state dw = Some st \<and> needs_upgrade st))"
  using assms
  by (auto simp: init_db_def entry_settings_def startup_integrity_def Let_def split: sum.splits option.splits if_splits)


lemma container_start_sample:
  "case container_start sample_host (settings_defaults sample_host ''/data'') (script_world\<lparr>mw_connect := (\<lambda>_. True)\<rparr>)
      sample_db_world old_database [(''store.db'', ''x'')] of
     (db, Some (effects, dir, r)) \<Rightarrow> r = Inr () | _ \<Rightarrow> False"
  by code_simp


text \<open>When the upgrade fails, the application is not started.\<close>

lemma container_start_refused:
  "container_start ho s w dw db dir = (db', None) \<longleftrightarrow>
     (\<exists>e. alembic_upgrade w (mw_settings_url w) ''head'' db = (Inl e, db'))"
  by (auto simp: container_start_def migrate_main_def given_url_def Let_def split: prod.splits sum.splits)

end
