(* ===== verification/Helpers.thy ===== *)
theory Helpers
  imports RuntimeLog Clock Admission ReleaseVersions
begin

text \<open>
  Small helpers of the program: the delays of retries in \<open>src/app/core/clients/retry.py\<close> and
  \<open>src/app/core/utils/retry.py\<close>, the conversions of \<open>src/app/core/utils/time.py\<close>, the check of the built
  wheel in \<open>src/scripts/verify-wheel-assets.py\<close>, and the two process-wide singletons of the resilience
  package. Floating point numbers are the rational numbers they stand for, rounding aside; powers that
  leave the range of a float raise as in the source. What \<open>random\<close> draws is an argument.
\<close>

section \<open>Delays\<close>

record retry_options =
  ro_attempts :: int
  ro_start_timeout :: rat
  ro_max_timeout :: rat
  ro_factor :: rat
  ro_retryable_statuses :: "int list"

definition default_retry_options :: retry_options where
  "default_retry_options =
     \<lparr>ro_attempts = 3, ro_start_timeout = 1 / 2, ro_max_timeout = 2, ro_factor = 2,
      ro_retryable_statuses = [408, 429, 500, 502, 503, 504]\<rparr>"

text \<open>The power of a float: a result that would be rounded to infinity is an \<open>OverflowError\<close>.\<close>

definition float_limit :: rat where
  "float_limit = 2 ^ 1024 - 2 ^ 970"

definition float_power :: "rat \<Rightarrow> nat \<Rightarrow> rat res" where
  "float_power x n = (if float_limit \<le> \<bar>x ^ n\<bar> then Inl OverflowError else Inr (x ^ n))"

definition calculate_backoff_delay :: "nat \<Rightarrow> rat \<Rightarrow> rat \<Rightarrow> rat \<Rightarrow> rat \<Rightarrow> rat res" where
  "calculate_backoff_delay attempt start_timeout max_timeout factor random =
     res_bind (float_power factor attempt) (\<lambda>power.
       let delay = min (start_timeout * power) max_timeout in Inr (delay * (1 / 2 + random * (1 / 2))))"

definition BACKOFF_INITIAL_DELAY_MS :: rat where "BACKOFF_INITIAL_DELAY_MS = 200"
definition BACKOFF_FACTOR :: rat where "BACKOFF_FACTOR = 2"
definition BACKOFF_JITTER_MIN :: rat where "BACKOFF_JITTER_MIN = 9 / 10"
definition BACKOFF_JITTER_MAX :: rat where "BACKOFF_JITTER_MAX = 11 / 10"

definition backoff_seconds :: "int \<Rightarrow> rat \<Rightarrow> rat res" where
  "backoff_seconds attempt jitter =
     (let attempt = (if attempt < 1 then 1 else attempt)
      in res_bind (float_power BACKOFF_FACTOR (nat (attempt - 1))) (\<lambda>exponent.
           Inr (BACKOFF_INITIAL_DELAY_MS * exponent * jitter / 1000)))"

text \<open>A delay lies between half of the capped exponential delay and all of it, and never above the maximum.\<close>

lemma backoff_delay_bounds:
  assumes "calculate_backoff_delay n start_timeout max_timeout factor random = Inr d"
    and "0 \<le> random" "random < 1" "0 \<le> start_timeout" "0 \<le> max_timeout" "0 \<le> factor"
  shows "min (start_timeout * factor ^ n) max_timeout / 2 \<le> d \<and> d \<le> min (start_timeout * factor ^ n) max_timeout \<and> d \<le> max_timeout"
proof -
  let ?m = "min (start_timeout * factor ^ n) max_timeout"
  have d: "d = ?m * (1 / 2 + random / 2)"
    using assms(1) by (auto simp: calculate_backoff_delay_def float_power_def Let_def split: if_splits)
  have m: "0 \<le> ?m" using assms by (simp add: min_def)
  have "?m * (1 / 2) \<le> d" unfolding d using m assms(2) by (intro mult_left_mono) simp_all
  moreover have "d \<le> ?m * 1" unfolding d using m assms(3) by (intro mult_left_mono) simp_all
  ultimately show ?thesis by simp
qed

lemma default_retry_delays:
  assumes "0 \<le> random" "random < 1" and "n < 3"
  shows "\<exists>d. calculate_backoff_delay n (ro_start_timeout default_retry_options) (ro_max_timeout default_retry_options)
      (ro_factor default_retry_options) random = Inr d \<and> 1 / 4 \<le> d \<and> d \<le> 2"
proof -
  have n: "n = 0 \<or> n = 1 \<or> n = 2" using assms(3) by auto
  have power: "float_power 2 n = Inr (2 ^ n)" using n by (auto simp: float_power_def float_limit_def)
  show ?thesis using n assms by (auto simp: calculate_backoff_delay_def default_retry_options_def power Let_def)
qed

text \<open>The jittered back-off grows from 180 ms; an attempt beyond 1024 overflows instead of being capped.\<close>

lemma backoff_seconds_small:
  assumes "attempt \<le> 10" and "BACKOFF_JITTER_MIN \<le> jitter" and "jitter \<le> BACKOFF_JITTER_MAX"
  shows "\<exists>d. backoff_seconds attempt jitter = Inr d \<and> 18 / 100 \<le> d \<and> d \<le> 22 / 100 * 2 ^ nat (attempt - 1)"
proof -
  let ?a = "if attempt < 1 then 1 else attempt"
  have e: "nat (?a - 1) = nat (attempt - 1)" by simp
  have "nat (attempt - 1) \<le> 9" using assms(1) by simp
  then have top: "(2 :: rat) ^ nat (attempt - 1) \<le> 2 ^ 9" by (rule power_increasing) simp
  have p: "(1 :: rat) \<le> 2 ^ nat (attempt - 1)" by simp
  from top have "float_power BACKOFF_FACTOR (nat (?a - 1)) = Inr (2 ^ nat (attempt - 1))"
    unfolding e by (simp add: float_power_def float_limit_def BACKOFF_FACTOR_def)
  then have d: "backoff_seconds attempt jitter = Inr (200 * 2 ^ nat (attempt - 1) * jitter / 1000)"
    unfolding backoff_seconds_def Let_def by (simp add: BACKOFF_INITIAL_DELAY_MS_def)
  have j: "9 / 10 \<le> jitter" "jitter \<le> 11 / 10" using assms(2,3) by (simp_all add: BACKOFF_JITTER_MIN_def BACKOFF_JITTER_MAX_def)
  have "1 * (9 / 10) \<le> 2 ^ nat (attempt - 1) * jitter" using p j(1) by (intro mult_mono) simp_all
  moreover have "2 ^ nat (attempt - 1) * jitter \<le> 2 ^ nat (attempt - 1) * (11 / 10)" using j(2) by (intro mult_left_mono) simp_all
  ultimately have "18 / 100 \<le> 200 * 2 ^ nat (attempt - 1) * jitter / 1000"
    "200 * 2 ^ nat (attempt - 1) * jitter / 1000 \<le> 22 / 100 * 2 ^ nat (attempt - 1)"
    by (simp_all add: field_simps)
  with d show ?thesis by blast
qed

lemma backoff_seconds_overflow: "backoff_seconds 1025 jitter = Inl OverflowError"
proof -
  have "float_limit \<le> (2 :: rat) ^ 1024" by (simp add: float_limit_def)
  then show ?thesis by (simp add: backoff_seconds_def float_power_def BACKOFF_FACTOR_def)
qed

section \<open>Announced delays\<close>

text \<open>
  The pattern \<open>try again in\s*(\d+(?:\.\d+)?)\s*(s|ms|seconds?)\<close> without regard to case, at a position: the
  number and whether it is in milliseconds. A second that is spelled out is read by its first letter.
\<close>

definition number_at :: "string \<Rightarrow> (rat \<times> string) option" where
  "number_at s =
     (let whole = takeWhile is_dec s; rest = dropWhile is_dec s; frac = takeWhile is_dec (drop 1 rest)
      in if whole = [] then None
         else if rest \<noteq> [] \<and> hd rest = CHR ''.'' \<and> frac \<noteq> []
         then Some (of_int (dec_value whole) + of_int (dec_value frac) / 10 ^ length frac, drop (length frac + 1) rest)
         else Some (of_int (dec_value whole), rest))"

definition retry_at :: "string \<Rightarrow> rat option" where
  "retry_at s =
     Option.bind (word_ci ''try again in'' s) (\<lambda>(_, r1).
     Option.bind (number_at (dropWhile py_isspace r1)) (\<lambda>(value, r2).
       let unit = dropWhile py_isspace r2
       in if word_ci ''s'' unit \<noteq> None then Some value
          else if word_ci ''ms'' unit \<noteq> None then Some (value / 1000) else None))"

fun parse_retry_after :: "string \<Rightarrow> rat option" where
  "parse_retry_after [] = None"
| "parse_retry_after (c # s) = (case retry_at (c # s) of Some v \<Rightarrow> Some v | None \<Rightarrow> parse_retry_after s)"

lemma retry_after_examples:
  "parse_retry_after ''Rate limited. Try again in 1.5s.'' = Some (3 / 2)"
  "parse_retry_after ''please try again in 250 ms'' = Some (1 / 4)"
  "parse_retry_after ''try again in 20 Seconds'' = Some 20"
  "parse_retry_after ''try again in a minute'' = None"
  "parse_retry_after ''try again in 2 minutes'' = None"
  by code_simp+

lemma retry_at_nonneg: "retry_at s = Some v \<Longrightarrow> 0 \<le> v"
proof -
  have dec: "0 \<le> dec_value (takeWhile is_dec t)" for t
    by (rule ReleaseVersions.dec_value_nonneg) (auto simp: list_all_iff dest: set_takeWhileD)
  have "0 \<le> w" if "number_at t = Some (w, r)" for t w r
    using that dec by (auto simp: number_at_def Let_def split: if_splits)
  moreover assume "retry_at s = Some v"
  ultimately show "0 \<le> v"
    by (fastforce simp: retry_at_def Let_def bind_eq_Some_conv split: if_splits)
qed

lemma parse_retry_after_nonneg: "parse_retry_after s = Some v \<Longrightarrow> 0 \<le> v"
  by (induction s) (auto split: option.splits dest: retry_at_nonneg)

section \<open>Times\<close>

definition to_utc_naive :: "py_datetime \<Rightarrow> py_datetime" where
  "to_utc_naive value = (case value of Naive t \<Rightarrow> Naive t | Aware t \<Rightarrow> drop_tz (Aware t))"

text \<open>\<open>int\<close> of a timestamp cuts toward zero.\<close>

definition naive_utc_to_epoch :: "py_datetime \<Rightarrow> int" where
  "naive_utc_to_epoch dt = (let t = dt_micros dt in if t < 0 then - (- t div 1000000) else t div 1000000)"

text \<open>The instant of a number of seconds; what lies beyond the years of a date raises.\<close>

definition from_epoch_seconds :: "int option \<Rightarrow> py_datetime option res" where
  "from_epoch_seconds value =
     (case value of
        None \<Rightarrow> Inr None
      | Some v \<Rightarrow> if dt_min \<le> 1000000 * v \<and> 1000000 * v \<le> dt_max then Inr (Some (Aware (1000000 * v))) else Inl ValueError)"

lemma epoch_roundtrip:
  assumes "from_epoch_seconds (Some v) = Inr (Some d)"
  shows "naive_utc_to_epoch (to_utc_naive d) = v"
  using assms by (auto simp: from_epoch_seconds_def naive_utc_to_epoch_def to_utc_naive_def drop_tz_def Let_def split: if_splits)

text \<open>An aware and a naive value of one instant become the same value, so that they can be compared.\<close>

lemma to_utc_naive_comparable: "dt_gt (to_utc_naive a) (to_utc_naive b) = Inr (dt_micros b < dt_micros a)"
  by (cases a; cases b) (simp_all add: to_utc_naive_def drop_tz_def)

section \<open>The built wheel\<close>

text \<open>\<open>namelist\<close> gives the names in a wheel; the result is the wheel that was verified, or the message of the exit.\<close>

definition verify_wheel_assets :: "string list \<Rightarrow> (string \<Rightarrow> string list) \<Rightarrow> string + string" where
  "verify_wheel_assets files namelist =
     (case sort (filter (\<lambda>p. endswith p ''.whl'') files) of
        [] \<Rightarrow> Inl ''no wheel found in dist/''
      | [wheel] \<Rightarrow>
          let names = namelist wheel;
              has_index = (''app/static/index.html'' \<in> set names);
              has_js = list_ex (\<lambda>n. startswith n ''app/static/assets/'' \<and> endswith n ''.js'') names;
              has_css = list_ex (\<lambda>n. startswith n ''app/static/assets/'' \<and> endswith n ''.css'') names
          in if \<not> (has_index \<and> has_js \<and> has_css) then Inl ''frontend assets missing in wheel'' else Inr wheel
      | wheels \<Rightarrow> Inl ''expected exactly one wheel in dist/'')"

text \<open>The check passes exactly for a single wheel that holds the page, a script and a style sheet.\<close>

lemma verify_wheel_assets_iff:
  "verify_wheel_assets files namelist = Inr wheel \<longleftrightarrow>
     filter (\<lambda>p. endswith p ''.whl'') files = [wheel] \<and> ''app/static/index.html'' \<in> set (namelist wheel) \<and>
     (\<exists>n\<in>set (namelist wheel). startswith n ''app/static/assets/'' \<and> endswith n ''.js'') \<and>
     (\<exists>n\<in>set (namelist wheel). startswith n ''app/static/assets/'' \<and> endswith n ''.css'')"
proof -
  let ?ws = "filter (\<lambda>p. endswith p ''.whl'') files"
  have one: "?ws = [w]" if "sort ?ws = [w]" for w
  proof -
    from that have "length (sort ?ws) = 1" by simp
    then obtain x where "?ws = [x]" by (auto simp: length_Suc_conv)
    with that show ?thesis by simp
  qed
  have eq: "?ws = [wheel] \<longleftrightarrow> sort ?ws = [wheel]"
  proof
    assume "?ws = [wheel]"
    then show "sort ?ws = [wheel]" by simp
  qed (rule one)
  show ?thesis
    unfolding verify_wheel_assets_def eq
    by (cases "sort ?ws"; cases "tl (sort ?ws)") (auto simp: Let_def list_ex_iff)
qed

section \<open>Singletons\<close>

text \<open>\<open>get_bulkhead\<close>: the limits of the first call hold for the process.\<close>

definition get_bulkhead :: "int option \<Rightarrow> int option \<Rightarrow> bulkhead option \<Rightarrow> bulkhead \<times> bulkhead option" where
  "get_bulkhead proxy_http_limit dashboard_limit held =
     (case held of
        Some b \<Rightarrow> (b, held)
      | None \<Rightarrow>
          let b = new_bulkhead None (case dashboard_limit of None \<Rightarrow> 50 | Some n \<Rightarrow> n) 10
                    (Some (case proxy_http_limit of None \<Rightarrow> 200 | Some n \<Rightarrow> n))
          in (b, Some b))"

lemma get_bulkhead_once:
  "get_bulkhead p d held = (b, held') \<Longrightarrow> get_bulkhead p' d' held' = (b, held')"
  by (auto simp: get_bulkhead_def Let_def split: option.splits)

text \<open>The warning about a missing memory reading is logged once.\<close>

definition log_rss_provider_unavailable :: "bool \<Rightarrow> bool \<times> string list" where
  "log_rss_provider_unavailable logged =
     (if logged then (True, [])
      else (True, [''Memory RSS provider unavailable on platform %s; disabling memory-pressure checks'']))"

lemma rss_warning_once:
  "log_rss_provider_unavailable logged = (logged', m) \<Longrightarrow> snd (log_rss_provider_unavailable logged') = []"
  by (auto simp: log_rss_provider_unavailable_def split: if_splits)

end
