(* ===== verification/BackgroundTasks.thy ===== *)
theory BackgroundTasks
  imports Caches Refresh
begin

text \<open>
  The tasks behind the invalidation poller (\<open>start\<close>, \<open>stop\<close> and \<open>_run\<close> in \<open>src/app/core/cache/invalidation.py\<close>)
  and the refresh scheduler (\<open>src/app/modules/firecrawl/refresh.py\<close>): who owns a task, how it is started,
  cancelled and awaited, with the calls interleaving at their awaits. Both owners meet one interface, over
  which the facts about their tasks are proved.
\<close>

section \<open>Owners and tasks\<close>

text \<open>
  The task the owner holds, the tasks that have not ended, the stop event, and the tasks that calls of
  \<open>stop\<close> are waiting for. Tasks are numbered in the order of their creation.
\<close>

record task_life =
  tl_task :: "nat option"
  tl_alive :: "nat list"
  tl_stop :: bool
  tl_stopping :: "nat list"
  tl_next :: nat

definition no_task :: task_life where
  "no_task = \<lparr>tl_task = None, tl_alive = [], tl_stop = False, tl_stopping = [], tl_next = 0\<rparr>"

definition create_task :: "task_life \<Rightarrow> task_life" where
  "create_task st = st\<lparr>tl_task := Some (tl_next st), tl_alive := tl_next st # tl_alive st, tl_next := tl_next st + 1\<rparr>"

text \<open>The poller starts unless its task is running, the scheduler when it is enabled and holds none.\<close>

definition poller_may_start :: "task_life \<Rightarrow> bool" where
  "poller_may_start st = (case tl_task st of None \<Rightarrow> True | Some i \<Rightarrow> i \<notin> set (tl_alive st))"

definition poller_start :: "task_life \<Rightarrow> task_life" where
  "poller_start st = (if \<not> poller_may_start st then st else create_task (st\<lparr>tl_stop := False\<rparr>))"

definition scheduler_may_start :: "bool \<Rightarrow> task_life \<Rightarrow> bool" where
  "scheduler_may_start enabled st = (\<not> (\<not> enabled \<or> tl_task st \<noteq> None))"

definition scheduler_start :: "bool \<Rightarrow> task_life \<Rightarrow> task_life" where
  "scheduler_start enabled st = (if \<not> scheduler_may_start enabled st then st else create_task st)"

text \<open>
  \<open>stop\<close> up to the await and after it; without a task it returns at once. Only the poller has an event.
\<close>

definition poller_stop_begin :: "task_life \<Rightarrow> task_life" where
  "poller_stop_begin st =
     (case tl_task st of None \<Rightarrow> st | Some i \<Rightarrow> st\<lparr>tl_stop := True, tl_stopping := i # tl_stopping st\<rparr>)"

definition scheduler_stop_begin :: "task_life \<Rightarrow> task_life" where
  "scheduler_stop_begin st = (case tl_task st of None \<Rightarrow> st | Some i \<Rightarrow> st\<lparr>tl_stopping := i # tl_stopping st\<rparr>)"

definition stop_end :: "nat \<Rightarrow> task_life \<Rightarrow> task_life" where
  "stop_end i st = st\<lparr>tl_task := None, tl_stopping := remove1 i (tl_stopping st)\<rparr>"

definition task_end :: "nat \<Rightarrow> task_life \<Rightarrow> task_life" where
  "task_end i st = st\<lparr>tl_alive := remove1 i (tl_alive st)\<rparr>"

section \<open>The interface\<close>

text \<open>
  The runs of an owner in which no \<open>start\<close> comes between the two halves of a \<open>stop\<close>. A task ends at any
  time after its start; a \<open>stop\<close> goes on when the task it waits for has ended.
\<close>

inductive life_run :: "(task_life \<Rightarrow> task_life) \<Rightarrow> (task_life \<Rightarrow> task_life) \<Rightarrow> task_life \<Rightarrow> bool"
  for start stop_begin where
  at_first: "life_run start stop_begin no_task"
| starting: "life_run start stop_begin st \<Longrightarrow> tl_stopping st = [] \<Longrightarrow> life_run start stop_begin (start st)"
| stopping: "life_run start stop_begin st \<Longrightarrow> life_run start stop_begin (stop_begin st)"
| dying: "life_run start stop_begin st \<Longrightarrow> i \<in> set (tl_alive st) \<Longrightarrow> life_run start stop_begin (task_end i st)"
| stopped: "life_run start stop_begin st \<Longrightarrow> i \<in> set (tl_stopping st) \<Longrightarrow> i \<notin> set (tl_alive st) \<Longrightarrow>
    life_run start stop_begin (stop_end i st)"

definition owned :: "task_life \<Rightarrow> bool" where
  "owned st \<longleftrightarrow> (tl_alive st = [] \<or> (\<exists>i. tl_task st = Some i \<and> tl_alive st = [i])) \<and>
     (\<forall>i\<in>set (tl_stopping st). tl_task st = None \<or> tl_task st = Some i)"

locale task_owner =
  fixes start stop_begin :: "task_life \<Rightarrow> task_life"
  assumes start_step: "start st = st \<or>
      (\<forall>i. tl_task st = Some i \<longrightarrow> i \<notin> set (tl_alive st)) \<and> (\<exists>b. start st = create_task (st\<lparr>tl_stop := b\<rparr>))"
    and stop_begin_step: "stop_begin st = st \<and> tl_task st = None \<or>
      (\<exists>i b. tl_task st = Some i \<and> stop_begin st = st\<lparr>tl_stop := b, tl_stopping := i # tl_stopping st\<rparr>)"
begin

lemma run_owned: "life_run start stop_begin st \<Longrightarrow> owned st"
proof (induction rule: life_run.induct)
  case at_first
  show ?case by (simp add: owned_def no_task_def)
next
  case (starting st)
  with start_step [of st] show ?case by (auto simp: owned_def create_task_def)
next
  case (stopping st)
  with stop_begin_step [of st] show ?case by (auto simp: owned_def)
next
  case (dying st i)
  then show ?case by (auto simp: owned_def task_end_def)
next
  case (stopped st i)
  then show ?case by (auto simp: owned_def stop_end_def dest: notin_set_remove1)
qed

text \<open>At most one task is running, and the owner holds it, so that a stop reaches it.\<close>

lemma one_task:
  assumes "life_run start stop_begin st"
  shows "length (tl_alive st) \<le> 1 \<and> (\<forall>i\<in>set (tl_alive st). tl_task st = Some i)"
  using run_owned [OF assms] by (auto simp: owned_def)

text \<open>When a stop has returned and nothing was started since, nothing is running.\<close>

lemma quiet_after_stop:
  assumes "life_run start stop_begin st" and "i \<in> set (tl_stopping st)" and "i \<notin> set (tl_alive st)"
  shows "tl_alive (stop_end i st) = [] \<and> tl_task (stop_end i st) = None"
  using run_owned [OF assms(1)] assms(2,3) by (auto simp: owned_def stop_end_def)

text \<open>A start makes a task run unless one is held.\<close>

lemma start_held: "tl_task (start st) = None \<Longrightarrow> start st = st"
  using start_step [of st] by (auto simp: create_task_def)

end

interpretation poller_task: task_owner poller_start poller_stop_begin
proof
  fix st :: task_life
  show "poller_start st = st \<or> (\<forall>i. tl_task st = Some i \<longrightarrow> i \<notin> set (tl_alive st)) \<and>
      (\<exists>b. poller_start st = create_task (st\<lparr>tl_stop := b\<rparr>))"
    by (auto simp: poller_start_def poller_may_start_def split: option.splits)
  show "poller_stop_begin st = st \<and> tl_task st = None \<or>
      (\<exists>i b. tl_task st = Some i \<and> poller_stop_begin st = st\<lparr>tl_stop := b, tl_stopping := i # tl_stopping st\<rparr>)"
    by (auto simp: poller_stop_begin_def split: option.splits)
qed

interpretation scheduler_task: task_owner "scheduler_start enabled" scheduler_stop_begin for enabled
proof
  fix st :: task_life
  have "\<exists>b. create_task st = create_task (st\<lparr>tl_stop := b\<rparr>)" by (rule exI [of _ "tl_stop st"]) simp
  then show "scheduler_start enabled st = st \<or> (\<forall>i. tl_task st = Some i \<longrightarrow> i \<notin> set (tl_alive st)) \<and>
      (\<exists>b. scheduler_start enabled st = create_task (st\<lparr>tl_stop := b\<rparr>))"
    by (cases "scheduler_may_start enabled st") (simp_all add: scheduler_start_def scheduler_may_start_def)
  have "\<exists>b. st\<lparr>tl_stopping := s\<rparr> = st\<lparr>tl_stop := b, tl_stopping := s\<rparr>" for s
    by (rule exI [of _ "tl_stop st"]) simp
  then show "scheduler_stop_begin st = st \<and> tl_task st = None \<or>
      (\<exists>i b. tl_task st = Some i \<and> scheduler_stop_begin st = st\<lparr>tl_stop := b, tl_stopping := i # tl_stopping st\<rparr>)"
    by (auto simp: scheduler_stop_begin_def split: option.splits)
qed

section \<open>What the tasks guarantee\<close>

text \<open>
  Neither the poller nor the refresh scheduler ever runs two tasks, as long as it is not started while
  it is being stopped: whatever the order of starts, stops and endings, at most one task is alive, its
  owner holds it, and a stop that returns leaves none.
\<close>

lemma one_background_task:
  assumes "life_run poller_start poller_stop_begin p" and "life_run (scheduler_start enabled) scheduler_stop_begin s"
  shows "length (tl_alive p) \<le> 1 \<and> (\<forall>i\<in>set (tl_alive p). tl_task p = Some i) \<and>
    length (tl_alive s) \<le> 1 \<and> (\<forall>i\<in>set (tl_alive s). tl_task s = Some i) \<and>
    (\<forall>i\<in>set (tl_stopping p) - set (tl_alive p). tl_alive (stop_end i p) = []) \<and>
    (\<forall>i\<in>set (tl_stopping s) - set (tl_alive s). tl_alive (stop_end i s) = [])"
  using poller_task.one_task [OF assms(1)] scheduler_task.one_task [OF assms(2)]
    poller_task.quiet_after_stop [OF assms(1)] scheduler_task.quiet_after_stop [OF assms(2)] by blast

lemma one_background_task_example:
  "tl_alive (poller_start (poller_start no_task)) = [0] \<and>
   length (tl_alive (poller_start (poller_start no_task))) \<le> 1"
proof -
  have "tl_stopping (poller_start no_task) = []" by (simp add: poller_start_def no_task_def create_task_def poller_may_start_def)
  then have p: "life_run poller_start poller_stop_begin (poller_start (poller_start no_task))"
    by (intro life_run.starting life_run.at_first) (simp_all add: no_task_def)
  have s: "life_run (scheduler_start True) scheduler_stop_begin no_task" by (rule life_run.at_first)
  from one_background_task [OF p s] show ?thesis
    by (simp add: poller_start_def no_task_def create_task_def poller_may_start_def)
qed

text \<open>
  A start in the middle of a stop goes wrong: while the task still lives it is lost, and between the end
  of the task and the return of the stop it makes a task that nobody holds, which no later stop ends.
\<close>

lemma start_while_stopping_lost:
  "poller_start (poller_stop_begin (poller_start no_task)) = poller_stop_begin (poller_start no_task)"
  by (simp add: poller_start_def poller_stop_begin_def poller_may_start_def no_task_def create_task_def)

lemma start_while_stopping_orphan:
  "let st = stop_end 0 (poller_start (task_end 0 (poller_stop_begin (poller_start no_task))))
   in tl_alive st = [1] \<and> tl_task st = None \<and> poller_stop_begin st = st"
  by code_simp

section \<open>The loop of the poller\<close>

text \<open>
  \<open>_run\<close>: it polls, then waits for the stop event or the end of the interval. \<open>polls\<close> has the rows of each
  poll, nothing for a query that fails, with whether the event came before the interval was over.
\<close>

fun run_poller :: "bool \<Rightarrow> ((string \<times> int) list option \<times> bool) list \<Rightarrow> poller \<Rightarrow> poller \<times> nat list" where
  "run_poller stop_set [] p = (p, [])"
| "run_poller stop_set ((rows, stop_comes) # polls) p =
     (if stop_set then (p, [])
      else case poll_once rows p of
             (p', called) \<Rightarrow> (case run_poller stop_comes polls p' of (p'', cs) \<Rightarrow> (p'', called @ cs)))"

text \<open>A query that fails is skipped: it neither calls anything nor forgets a version.\<close>

lemma run_poller_skips: "run_poller False (replicate k (None, False) @ polls) p = run_poller False polls p"
  by (induction k) (simp_all add: poll_once_def split: prod.split)

lemma run_poller_last:
  assumes "cb \<in> set (snd (poll_once rows p))"
  shows "cb \<in> set (snd (run_poller False ((rows, s) # polls) p))"
  using assms by (auto split: prod.splits)

lemma run_poller_next: "set (snd (run_poller False polls (fst (poll_once rows p)))) \<subseteq> set (snd (run_poller False ((rows, False) # polls) p))"
  by (auto split: prod.splits)

text \<open>
  C19: The running poller delivers every invalidation. Once it has polled, a bump of a namespace by any
  process, together with whatever other bumps, makes the loop call every callback of the namespace as soon
  as a query succeeds again, however many queries fail before and whether or not the poller is stopped after it.
\<close>

theorem poller_loop_delivers:
  assumes "distinct (map fst table)" and "namespace \<in> set bumped" and "cb \<in> set (callbacks_of p namespace)"
    and "map_of (po_known_versions p) namespace \<noteq> None \<Longrightarrow> map_of table namespace \<noteq> None"
  shows "cb \<in> set (snd (run_poller False
    ((Some table, False) # replicate failures (None, False) @ [(Some (bumps bumped table), stopped)]) p))"
proof -
  let ?p = "fst (poll_once (Some table) p)"
  have "cb \<in> set (snd (poll_once (Some (bumps bumped table)) ?p))"
    by (rule invalidation_reaches [OF assms(1-3)]) (rule assms(4))
  then have "cb \<in> set (snd (run_poller False (replicate failures (None, False) @ [(Some (bumps bumped table), stopped)]) ?p))"
    unfolding run_poller_skips by (rule run_poller_last)
  then show ?thesis using run_poller_next by blast
qed

theorem poller_loop_delivers_witness:
  "(7 :: nat) \<in> set (snd (run_poller False ((Some [], False) # replicate 3 (None, False) @ [(Some (bumps [''firewall''] []), True)])
     (on_invalidation ''firewall'' 7 new_poller)))"
  by (rule poller_loop_delivers) (simp_all add: on_invalidation_def callbacks_of_def new_poller_def)

end
