(* ===== verification/FirewallRepository.thy ===== *)
theory FirewallRepository
  imports Firewall
begin

text \<open>
  The rows behind the API firewall: the writes of \<open>src/app/modules/firewall/repository.py\<close>, where the primary
  key of the table decides, and the service and the list route that use them. Requests interleave between
  their look-up and their commit; one that loses the race is told so.
\<close>

section \<open>The repository\<close>

text \<open>\<open>add\<close>: the insert is committed, or the key constraint fails, the session is rolled back and a conflict raised.\<close>

definition repo_add :: "int \<Rightarrow> string \<Rightarrow> allowlist_row list \<Rightarrow> (allowlist_row list \<times> allowlist_row) option" where
  "repo_add now ip rows =
     (if ip \<in> al_ip_address ` set rows then None
      else let row = \<lparr>al_ip_address = ip, al_created_at = now\<rparr> in Some (rows @ [row], row))"

text \<open>\<open>delete\<close>: its look-up, and the deletion of the row it found, which may be gone by then.\<close>

definition repo_find :: "string \<Rightarrow> allowlist_row list \<Rightarrow> bool" where
  "repo_find ip rows = (row_get al_ip_address rows ip \<noteq> None)"

definition repo_delete :: "string \<Rightarrow> allowlist_row list \<Rightarrow> allowlist_row list" where
  "repo_delete ip rows = filter (\<lambda>r. al_ip_address r \<noteq> ip) rows"

lemma repo_find_iff: "repo_find ip rows \<longleftrightarrow> ip \<in> al_ip_address ` set rows"
  unfolding repo_find_def row_get_def by (auto simp: find_None_iff)

text \<open>Without interleaving the service is the look-up followed by the write.\<close>

lemma add_ip_repo:
  "add_ip now value rows =
     (case normalize_ip_address value of
        Inl e \<Rightarrow> Inl e
      | Inr ip \<Rightarrow>
          (case (if ip_exists ip rows then None else repo_add now ip rows) of
             None \<Rightarrow> Inl (FirewallIpAlreadyExistsError ''IP address already exists'')
           | Some r \<Rightarrow> Inr r))"
  using repo_find_iff by (auto simp: add_ip_def repo_add_def ip_exists_def repo_find_def Let_def split: sum.split)

lemma remove_ip_repo:
  "remove_ip value rows =
     (case normalize_ip_address value of
        Inl e \<Rightarrow> Inl e
      | Inr ip \<Rightarrow> Inr (if repo_find ip rows then (repo_delete ip rows, True) else (rows, False)))"
  by (auto simp: remove_ip_def repo_delete_def ip_exists_def repo_find_def split: sum.split)

section \<open>The list route\<close>

definition firewall_mode_text :: "firewall_mode \<Rightarrow> string" where
  "firewall_mode_text m = (case m of AllowAll \<Rightarrow> ''allow_all'' | AllowlistActive \<Rightarrow> ''allowlist_active'')"

record firewall_ips_response =
  fr_mode :: string
  fr_entries :: "(string \<times> int) list"

definition list_firewall_ips :: "allowlist_row list \<Rightarrow> firewall_ips_response" where
  "list_firewall_ips rows =
     (case list_ips rows of
        (mode, entries) \<Rightarrow>
          \<lparr>fr_mode = firewall_mode_text mode, fr_entries = map (\<lambda>r. (al_ip_address r, al_created_at r)) entries\<rparr>)"

text \<open>The list says that all are allowed exactly when an address that is not listed would be let in.\<close>

lemma sort_key_empty: "sort_key f xs = [] \<longleftrightarrow> xs = []"
  by (metis length_0_conv length_sort)

lemma list_firewall_ips_mode:
  "fr_mode (list_firewall_ips rows) = ''allow_all'' \<longleftrightarrow> is_ip_allowed rows None"
  "fst ` set (fr_entries (list_firewall_ips rows)) = list_ip_addresses rows"
  by (auto simp: list_firewall_ips_def list_ips_def list_entries_def firewall_mode_text_def is_ip_allowed_def
      list_ip_addresses_def Let_def image_image sort_key_empty split: firewall_mode.split)

section \<open>Requests that interleave\<close>

text \<open>A request between its look-up and its commit, and the replies so far.\<close>

datatype allowlist_call = Adding string | Deleting string

record allowlist_system =
  as_rows :: "allowlist_row list"
  as_pending :: "allowlist_call list"
  as_created :: "string list"
  as_conflicts :: "string list"
  as_deleted :: "string list"

inductive allowlist_step :: "allowlist_system \<Rightarrow> allowlist_system \<Rightarrow> bool" where
  add_refused: "ip_exists ip (as_rows s) \<Longrightarrow> allowlist_step s (s\<lparr>as_conflicts := ip # as_conflicts s\<rparr>)"
| add_checked: "\<not> ip_exists ip (as_rows s) \<Longrightarrow> allowlist_step s (s\<lparr>as_pending := Adding ip # as_pending s\<rparr>)"
| add_done: "Adding ip \<in> set (as_pending s) \<Longrightarrow> repo_add now ip (as_rows s) = Some (rows, row) \<Longrightarrow>
    allowlist_step s (s\<lparr>as_rows := rows, as_pending := remove1 (Adding ip) (as_pending s), as_created := ip # as_created s\<rparr>)"
| add_lost: "Adding ip \<in> set (as_pending s) \<Longrightarrow> repo_add now ip (as_rows s) = None \<Longrightarrow>
    allowlist_step s (s\<lparr>as_pending := remove1 (Adding ip) (as_pending s), as_conflicts := ip # as_conflicts s\<rparr>)"
| delete_found: "repo_find ip (as_rows s) \<Longrightarrow> allowlist_step s (s\<lparr>as_pending := Deleting ip # as_pending s\<rparr>)"
| delete_done: "Deleting ip \<in> set (as_pending s) \<Longrightarrow>
    allowlist_step s (s\<lparr>as_rows := repo_delete ip (as_rows s), as_pending := remove1 (Deleting ip) (as_pending s),
      as_deleted := ip # as_deleted s\<rparr>)"

definition empty_allowlist :: allowlist_system where
  "empty_allowlist = \<lparr>as_rows = [], as_pending = [], as_created = [], as_conflicts = [], as_deleted = []\<rparr>"

definition allowlist_ok :: "allowlist_system \<Rightarrow> bool" where
  "allowlist_ok s \<longleftrightarrow> distinct (map al_ip_address (as_rows s)) \<and>
     (\<forall>ip. count_list (as_created s) ip \<le> (if ip \<in> al_ip_address ` set (as_rows s) then 1 else 0) + count_list (as_deleted s) ip)"

lemma allowlist_step_ok: "allowlist_step s s' \<Longrightarrow> allowlist_ok s \<Longrightarrow> allowlist_ok s'"
proof (induction rule: allowlist_step.induct)
  case (add_done ip s now rows row)
  then have new: "ip \<notin> al_ip_address ` set (as_rows s)" "rows = as_rows s @ [\<lparr>al_ip_address = ip, al_created_at = now\<rparr>]"
    by (auto simp: repo_add_def Let_def split: if_splits)
  show ?case unfolding allowlist_ok_def
  proof (intro conjI allI)
    fix x
    show "count_list (as_created (s\<lparr>as_rows := rows, as_pending := remove1 (Adding ip) (as_pending s), as_created := ip # as_created s\<rparr>)) x
      \<le> (if x \<in> al_ip_address ` set (as_rows (s\<lparr>as_rows := rows, as_pending := remove1 (Adding ip) (as_pending s), as_created := ip # as_created s\<rparr>)) then 1 else 0)
        + count_list (as_deleted (s\<lparr>as_rows := rows, as_pending := remove1 (Adding ip) (as_pending s), as_created := ip # as_created s\<rparr>)) x"
      using add_done.prems new by (cases "x = ip") (auto simp: allowlist_ok_def dest: spec [of _ x])
  qed (use add_done.prems new in \<open>auto simp: allowlist_ok_def\<close>)
next
  case (delete_done ip s)
  have "distinct (map al_ip_address (repo_delete ip (as_rows s)))"
    using delete_done.prems by (simp add: allowlist_ok_def repo_delete_def distinct_map_filter)
  moreover have "x \<in> al_ip_address ` set (repo_delete ip (as_rows s)) \<longleftrightarrow> x \<in> al_ip_address ` set (as_rows s) \<and> x \<noteq> ip" for x
    by (auto simp: repo_delete_def)
  ultimately show ?case using delete_done.prems
    by (auto simp: allowlist_ok_def le_Suc_eq dest!: spec split: if_splits)
qed (auto simp: allowlist_ok_def)

text \<open>
  However requests interleave, no address is listed twice, and an address is confirmed as added once more
  than it is confirmed as deleted at most: of the requests that add it at a time one succeeds.
\<close>

lemma allowlist_consistent: "allowlist_step\<^sup>*\<^sup>* empty_allowlist s \<Longrightarrow> allowlist_ok s"
proof (induction rule: rtranclp_induct)
  case base
  show ?case by (simp add: allowlist_ok_def empty_allowlist_def)
qed (rule allowlist_step_ok)

text \<open>Two requests that delete the same row are both told that they deleted it.\<close>

lemma deleted_twice:
  "\<exists>s. allowlist_step\<^sup>*\<^sup>* (empty_allowlist\<lparr>as_rows := [\<lparr>al_ip_address = ''1.1.1.1'', al_created_at = 0\<rparr>]\<rparr>) s \<and>
    as_deleted s = [''1.1.1.1'', ''1.1.1.1'']"
proof -
  let ?ip = "''1.1.1.1''"
  let ?s0 = "empty_allowlist\<lparr>as_rows := [\<lparr>al_ip_address = ?ip, al_created_at = 0\<rparr>]\<rparr>"
  let ?s1 = "?s0\<lparr>as_pending := Deleting ?ip # as_pending ?s0\<rparr>"
  let ?s2 = "?s1\<lparr>as_pending := Deleting ?ip # as_pending ?s1\<rparr>"
  let ?d = "\<lambda>s. s\<lparr>as_rows := repo_delete ?ip (as_rows s), as_pending := remove1 (Deleting ?ip) (as_pending s), as_deleted := ?ip # as_deleted s\<rparr>"
  have "allowlist_step ?s0 ?s1" by (rule allowlist_step.delete_found) (simp add: repo_find_iff)
  moreover have "allowlist_step ?s1 ?s2" by (rule allowlist_step.delete_found) (simp add: repo_find_iff)
  moreover have "allowlist_step ?s2 (?d ?s2)" by (rule allowlist_step.delete_done) simp
  moreover have "allowlist_step (?d ?s2) (?d (?d ?s2))" by (rule allowlist_step.delete_done) (simp add: empty_allowlist_def)
  ultimately have "allowlist_step\<^sup>*\<^sup>* ?s0 (?d (?d ?s2))" by (meson converse_rtranclp_into_rtranclp rtranclp.rtrancl_refl)
  moreover have "as_deleted (?d (?d ?s2)) = [?ip, ?ip]" by (simp add: empty_allowlist_def)
  ultimately show ?thesis by blast
qed

end
