(* ===== verification/Wiring.thy ===== *)
theory Wiring
  imports Infrastructure
begin

text \<open>
  How a request gets its services: the session providers of \<open>src/app/db/session.py\<close> and the contexts of
  \<open>src/app/dependencies.py\<close> and \<open>src/app/modules/firecrawl/api.py\<close>, each a repository and a service over one
  session. The handler of a route is a function of its context; it runs inside the scope of the session.
\<close>

section \<open>Sessions\<close>

text \<open>\<open>get_session\<close> takes a session of the main pool, \<open>get_background_session\<close> one of the background pool once there is one.\<close>

definition get_session :: "('s, 'e) session_ops \<Rightarrow> 's \<Rightarrow> ('s \<Rightarrow> ('e + 'a) \<times> 's) \<Rightarrow> ('e + 'a) \<times> 's" where
  "get_session ops from_main body = session_scope ops body from_main"

definition get_background_session ::
  "('s, 'e) session_ops \<Rightarrow> 's \<Rightarrow> 's option \<Rightarrow> ('s \<Rightarrow> ('e + 'a) \<times> 's) \<Rightarrow> ('e + 'a) \<times> 's" where
  "get_background_session ops from_main from_background body =
     session_scope ops body (case from_background of Some s \<Rightarrow> s | None \<Rightarrow> from_main)"

section \<open>Contexts\<close>

datatype 's repository =
    AuditRepository 's | DashboardAuthRepository 's | FirewallRepository 's | FirecrawlRepository 's

text \<open>The login service also holds the store of dashboard sessions of the process, the admin service an encryptor.\<close>

datatype ('s, 'st) service =
    AuditLogsService "'s repository" | DashboardAuthService "'s repository" 'st
  | FirewallService "'s repository" | FirecrawlAdminService "'s repository"

record ('s, 'st) request_context =
  rc_session :: 's
  rc_repository :: "'s repository"
  rc_service :: "('s, 'st) service"

definition get_audit_context :: "'s \<Rightarrow> ('s, 'st) request_context" where
  "get_audit_context session =
     (let repository = AuditRepository session
      in \<lparr>rc_session = session, rc_repository = repository, rc_service = AuditLogsService repository\<rparr>)"

definition get_dashboard_auth_context :: "'st \<Rightarrow> 's \<Rightarrow> ('s, 'st) request_context" where
  "get_dashboard_auth_context session_store session =
     (let repository = DashboardAuthRepository session
      in \<lparr>rc_session = session, rc_repository = repository, rc_service = DashboardAuthService repository session_store\<rparr>)"

definition get_firewall_context :: "'s \<Rightarrow> ('s, 'st) request_context" where
  "get_firewall_context session =
     (let repository = FirewallRepository session
      in \<lparr>rc_session = session, rc_repository = repository, rc_service = FirewallService repository\<rparr>)"

definition get_firecrawl_admin_service :: "'s \<Rightarrow> ('s, 'st) service" where
  "get_firecrawl_admin_service session = FirecrawlAdminService (FirecrawlRepository session)"

fun repository_session :: "'s repository \<Rightarrow> 's" where
  "repository_session (AuditRepository s) = s"
| "repository_session (DashboardAuthRepository s) = s"
| "repository_session (FirewallRepository s) = s"
| "repository_session (FirecrawlRepository s) = s"

fun service_repository :: "('s, 'st) service \<Rightarrow> 's repository" where
  "service_repository (AuditLogsService r) = r"
| "service_repository (DashboardAuthService r st) = r"
| "service_repository (FirewallService r) = r"
| "service_repository (FirecrawlAdminService r) = r"

text \<open>Everything a handler is given works on the session of its request.\<close>

definition one_session :: "('s, 'st) request_context \<Rightarrow> bool" where
  "one_session c \<longleftrightarrow> repository_session (rc_repository c) = rc_session c \<and> service_repository (rc_service c) = rc_repository c"

lemma contexts_one_session:
  "one_session (get_audit_context s)" "one_session (get_dashboard_auth_context store s)" "one_session (get_firewall_context s)"
  "rc_session (get_audit_context s) = s" "rc_session (get_dashboard_auth_context store s) = s"
  "rc_session (get_firewall_context s) = s" "repository_session (service_repository (get_firecrawl_admin_service s)) = s"
  by (simp_all add: one_session_def get_audit_context_def get_dashboard_auth_context_def get_firewall_context_def
      get_firecrawl_admin_service_def Let_def)

section \<open>A handled request\<close>

text \<open>The handler gets the context over the fresh session and leaves the session in some state.\<close>

definition handle_with ::
  "('s, 'e) session_ops \<Rightarrow> ('s \<Rightarrow> ('s, 'st) request_context) \<Rightarrow> (('s, 'st) request_context \<Rightarrow> ('e + 'a) \<times> 's) \<Rightarrow> 's \<Rightarrow> ('e + 'a) \<times> 's" where
  "handle_with ops context handler session = get_session ops session (\<lambda>s. handler (context s))"

text \<open>
  Whatever the handler does, the reply is its outcome, what it has not committed is gone, and the session
  is not left in a transaction when closing works.
\<close>

lemma handled_request:
  assumes "session_contract ops committed" and "handler (context session) = (r, s1)"
  shows "\<exists>s'. handle_with ops context handler session = (r, s') \<and> committed s' = committed s1 \<and>
    ((\<forall>s. fst (so_close ops s) = None) \<longrightarrow> \<not> so_in_transaction ops s')"
  using session_scope_outcome [OF assms(1), of "\<lambda>s. handler (context s)" session r s1] assms(2)
  by (simp add: handle_with_def get_session_def)

text \<open>A firewall request that fails after an uncommitted write leaves the rows as they were.\<close>

lemma handled_request_example:
  "handle_with plain_session_ops get_firewall_context
     (\<lambda>c. (Inl ValueError :: unit res, (fst (rc_session c), Some [''1.1.1.1'']))) ([], None) = (Inl ValueError, ([], None))"
  by (simp add: handle_with_def get_session_def session_scope_def plain_session_ops_def safe_rollback_def safe_close_def
      get_firewall_context_def Let_def)

end
