(* ===== verification/ResponseTimes.thy ===== *)
theory ResponseTimes
  imports Refresh
begin

text \<open>
  The times in the JSON answers: the serializers of \<open>modules/firecrawl/schemas.py\<close> (admin API) and of
  \<open>modules/shared/schemas.py\<close> (dashboard). \<open>date\<close> and \<open>isoformat\<close> of the standard library are written
  out: the proleptic Gregorian calendar with the first of January of year 1 as day 1.
\<close>

section \<open>The calendar\<close>

definition is_leap :: "int \<Rightarrow> bool" where
  "is_leap y \<longleftrightarrow> y mod 4 = 0 \<and> (y mod 100 \<noteq> 0 \<or> y mod 400 = 0)"

definition days_before_year :: "int \<Rightarrow> int" where
  "days_before_year year = (let y = year - 1 in y * 365 + y div 4 - y div 100 + y div 400)"

definition days_before_month :: "bool \<Rightarrow> int \<Rightarrow> int" where
  "days_before_month leap m =
     [0, 31, 59, 90, 120, 151, 181, 212, 243, 273, 304, 334] ! nat (m - 1) + (if 2 < m \<and> leap then 1 else 0)"

definition ymd2ord :: "int \<times> int \<times> int \<Rightarrow> int" where
  "ymd2ord = (\<lambda>(y, m, d). days_before_year y + days_before_month (is_leap y) m + d)"

text \<open>The month of a day of the year, counted from 0: the last one that begins by then.\<close>

definition month_of_day :: "bool \<Rightarrow> int \<Rightarrow> int" where
  "month_of_day leap n = int (length (filter (\<lambda>m. days_before_month leap m \<le> n) [1..12]))"

definition ord2ymd :: "int \<Rightarrow> int \<times> int \<times> int" where
  "ord2ymd ordinal =
     (let n = ordinal - 1;
          n400 = n div 146097; n = n mod 146097;
          n100 = n div 36524; n = n mod 36524;
          n4 = n div 1461; n = n mod 1461;
          n1 = n div 365; n = n mod 365;
          year = n400 * 400 + 1 + n100 * 100 + n4 * 4 + n1
      in if n1 = 4 \<or> n100 = 4 then (year - 1, 12, 31)
         else let leap = (n1 = 3 \<and> (n4 \<noteq> 24 \<or> n100 = 3)); m = month_of_day leap n
              in (year, m, n - days_before_month leap m + 1))"

lemma upto_12: "[1..12] = [1, 2, 3, 4, 5, 6, 7, 8, 9, 10, 11, 12 :: int]"
  by code_simp

lemma month_day_bounds:
  assumes "0 \<le> n" and "n < (if leap then 366 else 365)"
  shows "1 \<le> month_of_day leap n \<and> month_of_day leap n \<le> 12 \<and>
    0 \<le> n - days_before_month leap (month_of_day leap n) \<and> n - days_before_month leap (month_of_day leap n) < 31"
  using assms
  by (cases leap) (auto simp: month_of_day_def upto_12 days_before_month_def)

lemma full_cycle:
  assumes "1 \<le> r" and "r \<le> (k :: int)"
  shows "(k * q + r) mod k = 0 \<longleftrightarrow> r = k"
proof (cases "r = k")
  case False
  with assms have "r mod k = r" by (intro mod_pos_pos_trivial) simp_all
  with False assms show ?thesis by simp
qed simp

text \<open>The year of the cycles: \<open>b\<close> centuries, \<open>c\<close> leap cycles and \<open>d\<close> years after a multiple of 400.\<close>

lemma year_of_cycles:
  assumes "0 \<le> b" "b \<le> 3" "0 \<le> c" "c \<le> 24" "0 \<le> d" "d \<le> 3"
  shows "days_before_year (a * 400 + 1 + b * 100 + c * 4 + d) = 146097 * a + 36524 * b + 1461 * c + 365 * d"
    and "is_leap (a * 400 + 1 + b * 100 + c * 4 + d) \<longleftrightarrow> d = 3 \<and> (c \<noteq> 24 \<or> b = 3)"
proof -
  let ?y = "a * 400 + b * 100 + c * 4 + d" and ?z = "a * 400 + 1 + b * 100 + c * 4 + d"
  have div4: "?y div 4 = 100 * a + 25 * b + c" by (rule int_div_pos_eq [of _ _ _ d]) (use assms in simp_all)
  have div100: "?y div 100 = 4 * a + b" by (rule int_div_pos_eq [of _ _ _ "c * 4 + d"]) (use assms in simp_all)
  have div400: "?y div 400 = a" by (rule int_div_pos_eq [of _ _ _ "b * 100 + c * 4 + d"]) (use assms in simp_all)
  have y: "?z - 1 = ?y" by simp
  show "days_before_year ?z = 146097 * a + 36524 * b + 1461 * c + 365 * d"
    unfolding days_before_year_def Let_def y div4 div100 div400 by simp
  have z: "?z = 4 * (100 * a + 25 * b + c) + (d + 1)" "?z = 100 * (4 * a + b) + (c * 4 + d + 1)"
    "?z = 400 * a + (b * 100 + c * 4 + d + 1)" by simp_all
  have mod4: "?z mod 4 = 0 \<longleftrightarrow> d + 1 = 4" by (subst z(1), rule full_cycle) (use assms in simp_all)
  have mod100: "?z mod 100 = 0 \<longleftrightarrow> c * 4 + d + 1 = 100" by (subst z(2), rule full_cycle) (use assms in simp_all)
  have mod400: "?z mod 400 = 0 \<longleftrightarrow> b * 100 + c * 4 + d + 1 = 400" by (subst z(3), rule full_cycle) (use assms in simp_all)
  show "is_leap ?z \<longleftrightarrow> d = 3 \<and> (c \<noteq> 24 \<or> b = 3)"
    unfolding is_leap_def mod4 mod100 mod400 using assms by linarith
qed

text \<open>The two ways of reading a day number: the last day of a leap cycle, or a month and its day.\<close>

lemma ymd2ord_last_day:
  assumes "0 \<le> b" "b \<le> 3" "0 \<le> c" "c \<le> 24" "c \<noteq> 24 \<or> b = 3"
  shows "ymd2ord (a * 400 + 1 + b * 100 + c * 4 + 3, 12, 31) = 146097 * a + 36524 * b + 1461 * c + 1461"
  using year_of_cycles [of b c 3 a] assms by (simp add: ymd2ord_def days_before_month_def)

lemma ymd2ord_month:
  assumes "0 \<le> b" "b \<le> 3" "0 \<le> c" "c \<le> 24" "0 \<le> d" "d \<le> 3" "leap \<longleftrightarrow> d = 3 \<and> (c \<noteq> 24 \<or> b = 3)"
  shows "ymd2ord (a * 400 + 1 + b * 100 + c * 4 + d, m, e - days_before_month leap m + 1) =
    146097 * a + 36524 * b + 1461 * c + 365 * d + e + 1"
  using year_of_cycles [of b c d a] assms by (simp add: ymd2ord_def)

lemma ord2ymd_cases:
  obtains (last_day) a b c where "0 \<le> b" "b \<le> 3" "0 \<le> c" "c \<le> 24" "c \<noteq> 24 \<or> b = 3"
      "n = 146097 * a + 36524 * b + 1461 * c + 1461" "ord2ymd n = (a * 400 + 1 + b * 100 + c * 4 + 3, 12, 31)"
  | (month) a b c d e leap where "0 \<le> b" "b \<le> 3" "0 \<le> c" "c \<le> 24" "0 \<le> d" "d \<le> 3"
      "leap \<longleftrightarrow> d = 3 \<and> (c \<noteq> 24 \<or> b = 3)" "0 \<le> e" "e < 365" "n = 146097 * a + 36524 * b + 1461 * c + 365 * d + e + 1"
      "ord2ymd n = (a * 400 + 1 + b * 100 + c * 4 + d, month_of_day leap e, e - days_before_month leap (month_of_day leap e) + 1)"
proof -
  define a where "a = (n - 1) div 146097"
  define r4 where "r4 = (n - 1) mod 146097"
  define b where "b = r4 div 36524"
  define r1 where "r1 = r4 mod 36524"
  define c where "c = r1 div 1461"
  define r where "r = r1 mod 1461"
  define d where "d = r div 365"
  define e where "e = r mod 365"
  note defs = a_def r4_def b_def r1_def c_def r_def d_def e_def
  have n1: "n - 1 = a * 146097 + r4" and r4: "r4 = b * 36524 + r1" and r1: "r1 = c * 1461 + r" and r: "r = d * 365 + e"
    unfolding defs by simp_all
  have range: "0 \<le> r4" "r4 < 146097" "0 \<le> r1" "r1 < 36524" "0 \<le> r" "r < 1461" "0 \<le> e" "e < 365"
    unfolding defs by simp_all
  have b: "0 \<le> b" "b \<le> 4" and c: "0 \<le> c" "c \<le> 24" and d: "0 \<le> d" "d \<le> 4"
    using range r4 r1 r by linarith+
  have ord: "ord2ymd n =
      (if d = 4 \<or> b = 4 then (a * 400 + 1 + b * 100 + c * 4 + d - 1, 12, 31)
       else let leap = (d = 3 \<and> (c \<noteq> 24 \<or> b = 3)); m = month_of_day leap e
            in (a * 400 + 1 + b * 100 + c * 4 + d, m, e - days_before_month leap m + 1))"
    unfolding ord2ymd_def Let_def defs ..
  consider "b = 4" | "b \<noteq> 4" "d = 4" | "b \<noteq> 4" "d \<noteq> 4" by blast
  then show ?thesis
  proof cases
    case 1
    with range r4 r1 r c d have z: "c = 0" "d = 0" "e = 0" by linarith+
    have "ord2ymd n = (a * 400 + 1 + 3 * 100 + 24 * 4 + 3, 12, 31)" unfolding ord using 1 z by simp
    with n1 r4 r1 r 1 z show ?thesis by (intro last_day [of 3 24 a]) simp_all
  next
    case 2
    with range r4 r1 r b c have z: "e = 0" "b \<le> 3" "c \<le> 23" by linarith+
    have "ord2ymd n = (a * 400 + 1 + b * 100 + c * 4 + 3, 12, 31)" unfolding ord using 2 by simp
    with n1 r4 r1 r 2 z b c show ?thesis by (intro last_day [of b c a]) simp_all
  next
    case 3
    with b d have le: "b \<le> 3" "d \<le> 3" by linarith+
    define leap where "leap \<longleftrightarrow> d = 3 \<and> (c \<noteq> 24 \<or> b = 3)"
    have o: "ord2ymd n = (a * 400 + 1 + b * 100 + c * 4 + d, month_of_day leap e,
        e - days_before_month leap (month_of_day leap e) + 1)" unfolding ord Let_def leap_def using 3 by simp
    have "n = 146097 * a + 36524 * b + 1461 * c + 365 * d + e + 1" using n1 r4 r1 r by linarith
    from month [OF b(1) le(1) c d(1) le(2) leap_def range(7,8) this o] show ?thesis .
  qed
qed

lemma ymd2ord_ord2ymd: "ymd2ord (ord2ymd n) = n"
proof (cases n rule: ord2ymd_cases)
  case (last_day a b c)
  with ymd2ord_last_day [of b c a] show ?thesis by simp
next
  case (month a b c d e leap)
  with ymd2ord_month [of b c d leap a] show ?thesis by simp
qed

text \<open>The fields of a day have the widths of the text.\<close>

lemma ord2ymd_bounds:
  assumes "1 \<le> n" and "n \<le> 3652059" and "ord2ymd n = (y, m, d)"
  shows "1 \<le> y \<and> y \<le> 9999 \<and> 1 \<le> m \<and> m \<le> 12 \<and> 1 \<le> d \<and> d \<le> 31"
proof (cases n rule: ord2ymd_cases)
  case (last_day a b c)
  with assms have "y = a * 400 + 1 + b * 100 + c * 4 + 3" "m = 12" "d = 31" by simp_all
  with assms last_day show ?thesis by linarith
next
  case (month a b c k e leap)
  have "e < (if leap then 366 else 365)" using month by simp
  from month_day_bounds [OF month(8) this] month assms(3)
  have "1 \<le> m \<and> m \<le> 12 \<and> 1 \<le> d \<and> d \<le> 31" by auto
  moreover from month assms have "y = a * 400 + 1 + b * 100 + c * 4 + k" by simp
  ultimately show ?thesis using month(1-6,8,9,10) assms(1,2) by linarith
qed

lemma ord2ymd_examples:
  "ord2ymd 719163 = (1970, 1, 1)" "ord2ymd 738945 = (2024, 2, 29)" "ord2ymd 3652059 = (9999, 12, 31)" "ord2ymd 1 = (1, 1, 1)"
  by code_simp+

section \<open>Times as text\<close>

text \<open>A number in a fixed number of decimal digits.\<close>

fun dec :: "nat \<Rightarrow> int \<Rightarrow> string" where
  "dec 0 n = []"
| "dec (Suc w) n = dec w (n div 10) @ [char_of (48 + nat (n mod 10))]"

definition date_text :: "int \<Rightarrow> string" where
  "date_text ordinal = (case ord2ymd ordinal of (y, m, d) \<Rightarrow> dec 4 y @ ''-'' @ dec 2 m @ ''-'' @ dec 2 d)"

definition time_text :: "int \<Rightarrow> string" where
  "time_text us =
     dec 2 (us div 3600000000) @ '':'' @ dec 2 (us div 60000000 mod 60) @ '':'' @ dec 2 (us div 1000000 mod 60) @
     (if us mod 1000000 = 0 then [] else ''.'' @ dec 6 (us mod 1000000))"

definition day_micros :: int where "day_micros = 86400000000"

text \<open>The epoch is day 719163. The aware values of the model are in UTC.\<close>

definition naive_text :: "int \<Rightarrow> string" where
  "naive_text t = date_text (t div day_micros + 719163) @ ''T'' @ time_text (t mod day_micros)"

fun isoformat :: "py_datetime \<Rightarrow> string" where
  "isoformat (Naive t) = naive_text t"
| "isoformat (Aware t) = naive_text t @ ''+00:00''"

lemma isoformat_examples:
  "isoformat (Naive 1782212400000000) = ''2026-06-23T11:00:00''"
  "isoformat (Aware 1782212400000001) = ''2026-06-23T11:00:00.000001+00:00''"
  by code_simp+

section \<open>The serializers\<close>

text \<open>\<open>FirecrawlAdminModel.serialize_datetime_as_utc\<close>, for the fields that are times.\<close>

definition serialize_admin_datetime :: "py_datetime option \<Rightarrow> string option" where
  "serialize_admin_datetime value =
     (case value of
        Some (Naive t) \<Rightarrow> Some (isoformat (Naive t))
      | Some (Aware t) \<Rightarrow> Some (str_replace ''+00:00'' ''Z'' (isoformat (Aware t)))
      | None \<Rightarrow> None)"

text \<open>\<open>DashboardModel.serialize_datetime_as_utc\<close>, for every field.\<close>

datatype field_value = TimeValue py_datetime | OtherValue json

definition serialize_dashboard_value :: "field_value \<Rightarrow> json" where
  "serialize_dashboard_value value =
     (case value of
        TimeValue (Naive t) \<Rightarrow> JStr (isoformat (Naive t) @ ''Z'')
      | TimeValue (Aware t) \<Rightarrow> JStr (str_replace ''+00:00'' ''Z'' (isoformat (Aware t)))
      | OtherValue v \<Rightarrow> v)"

lemma str_replace_absent:
  "c \<notin> set s \<Longrightarrow> str_replace (c # cs) new (s @ rest) = s @ str_replace (c # cs) new rest"
proof (induction s)
  case (Cons x s)
  then show ?case using str_replace.simps [of "c # cs" new "x # s @ rest"] by (auto simp: startswith_def)
qed simp

lemma dec_digits: "set (dec w n) \<subseteq> char_of ` {48..57 :: nat}"
proof (induction w arbitrary: n)
  case (Suc w)
  have "48 + nat (n mod 10) \<in> {48..57}" by auto
  with Suc show ?case by auto
qed simp

lemma naive_text_chars: "c \<in> set (naive_text t) \<Longrightarrow> c \<in> char_of ` {48..57 :: nat} \<or> c \<in> set ''-T:.''"
  using dec_digits unfolding naive_text_def date_text_def time_text_def
  by (auto split: prod.splits if_splits dest!: subsetD)

lemma naive_text_plain: "CHR ''+'' \<notin> set (naive_text t)" "CHR ''Z'' \<notin> set (naive_text t)"
proof -
  have "CHR ''+'' \<notin> char_of ` {48..57 :: nat}" "CHR ''Z'' \<notin> char_of ` {48..57 :: nat}" by code_simp+
  then show "CHR ''+'' \<notin> set (naive_text t)" "CHR ''Z'' \<notin> set (naive_text t)"
    using naive_text_chars [of "CHR ''+''" t] naive_text_chars [of "CHR ''Z''" t] by auto
qed

lemma designators:
  "str_replace ''+00:00'' ''Z'' ''+00:00'' = ''Z''" "str_replace ''Z'' ''+00:00'' ''Z'' = ''+00:00''"
  "str_replace ''Z'' ''+00:00'' [] = []"
  by code_simp+

lemma serialized_text:
  "str_replace ''+00:00'' ''Z'' (isoformat (Aware t)) = isoformat (Naive t) @ ''Z''"
  "str_replace ''Z'' ''+00:00'' (isoformat (Naive t) @ ''Z'') = isoformat (Aware t)"
  "str_replace ''Z'' ''+00:00'' (isoformat (Naive t)) = isoformat (Naive t)"
  using str_replace_absent [OF naive_text_plain(1), of "''00:00''" "''Z''" t "''+00:00''"]
    str_replace_absent [OF naive_text_plain(2), of "[]" "''+00:00''" t "''Z''"]
    str_replace_absent [OF naive_text_plain(2), of "[]" "''+00:00''" t "[]"]
  by (simp_all add: designators)

section \<open>Reading the times back\<close>

text \<open>
  What is documented of \<open>fromisoformat\<close>: it reads every text of \<open>isoformat\<close>. It gives the local
  microseconds and the offset, if there is one.
\<close>

definition reads_isoformat :: "(string \<Rightarrow> (int \<times> int option) option) \<Rightarrow> bool" where
  "reads_isoformat f \<longleftrightarrow>
     (\<forall>t. dt_min \<le> t \<longrightarrow> t \<le> dt_max \<longrightarrow> f (isoformat (Naive t)) = Some (t, None) \<and> f (isoformat (Aware t)) = Some (t, Some 0))"

text \<open>A reader of the format, which shows that there is one.\<close>

definition undec :: "string \<Rightarrow> int" where
  "undec s = foldl (\<lambda>n c. 10 * n + (int (of_char c) - 48)) 0 s"

definition read_isoformat :: "string \<Rightarrow> (int \<times> int option) option" where
  "read_isoformat s =
     (let day = ymd2ord (undec (take 4 s), undec (take 2 (drop 5 s)), undec (take 2 (drop 8 s)));
          us = 3600000000 * undec (take 2 (drop 11 s)) + 60000000 * undec (take 2 (drop 14 s)) +
            1000000 * undec (take 2 (drop 17 s));
          rest = drop 19 s; point = take 1 rest = ''.'';
          frac = (if point then undec (take 6 (drop 1 rest)) else 0);
          offset = (if point then drop 7 rest else rest)
      in Some ((day - 719163) * day_micros + us + frac, if offset = [] then None else Some 0))"

lemma length_dec [simp]: "length (dec w n) = w"
  by (induction w arbitrary: n) simp_all

lemma undec_dec: "0 \<le> n \<Longrightarrow> n < 10 ^ w \<Longrightarrow> undec (dec w n) = n"
proof (induction w arbitrary: n)
  case (Suc w)
  then have "undec (dec w (n div 10)) = n div 10" by (intro Suc.IH) (simp_all add: int_div_less_self div_less_iff_less_mult)
  then show ?case by (simp add: undec_def of_char_of)
qed (simp add: undec_def)

lemma clock_fields:
  fixes u :: int
  shows "3600000000 * (u div 3600000000) + 60000000 * (u div 60000000 mod 60) + 1000000 * (u div 1000000 mod 60) + u mod 1000000 = u"
proof -
  define s where "s = u div 1000000"
  define k where "k = s div 60"
  have k: "u div 60000000 = k" and h: "u div 3600000000 = k div 60"
    using zdiv_zmult2_eq [of 60 u 1000000] zdiv_zmult2_eq [of 3600 u 1000000] zdiv_zmult2_eq [of 60 s 60]
    by (simp_all add: s_def k_def)
  have "u = 1000000 * s + u mod 1000000" "s = 60 * k + s mod 60" "k = 60 * (k div 60) + k mod 60"
    unfolding k_def s_def by simp_all
  then show ?thesis unfolding k h s_def [symmetric] by linarith
qed

lemma clock_digits:
  assumes "0 \<le> u" and "u < day_micros"
  shows "undec (dec 2 (u div 3600000000)) = u div 3600000000" "undec (dec 2 (u div 60000000 mod 60)) = u div 60000000 mod 60"
    "undec (dec 2 (u div 1000000 mod 60)) = u div 1000000 mod 60" "undec (dec 6 (u mod 1000000)) = u mod 1000000"
proof -
  have "0 \<le> u div 3600000000" "u div 3600000000 < 100" using assms by (simp_all add: day_micros_def)
  then show "undec (dec 2 (u div 3600000000)) = u div 3600000000" by (intro undec_dec) simp_all
  have "0 \<le> k mod 60 \<and> k mod 60 < 100" for k :: int using pos_mod_bound [of 60 k] by simp
  then show "undec (dec 2 (u div 60000000 mod 60)) = u div 60000000 mod 60"
    "undec (dec 2 (u div 1000000 mod 60)) = u div 1000000 mod 60"
    by (intro undec_dec; simp)+
  show "undec (dec 6 (u mod 1000000)) = u mod 1000000" by (intro undec_dec) simp_all
qed

lemma read_time:
  assumes "length date = 10" and "0 \<le> u" and "u < day_micros" and "offset = [] \<or> offset = ''+00:00''"
  shows "read_isoformat (date @ ''T'' @ time_text u @ offset) =
    Some ((ymd2ord (undec (take 4 date), undec (take 2 (drop 5 date)), undec (take 2 (drop 8 date))) - 719163) * day_micros + u,
      if offset = [] then None else Some 0)"
proof -
  let ?h = "u div 3600000000" and ?m = "u div 60000000 mod 60" and ?s = "u div 1000000 mod 60" and ?f = "u mod 1000000"
  let ?frac = "if ?f = 0 then [] else ''.'' @ dec 6 ?f"
  let ?text = "date @ ''T'' @ dec 2 ?h @ '':'' @ dec 2 ?m @ '':'' @ dec 2 ?s @ ?frac @ offset"
  have parts: "take 4 ?text = take 4 date" "take 2 (drop 5 ?text) = take 2 (drop 5 date)"
    "take 2 (drop 8 ?text) = take 2 (drop 8 date)" "take 2 (drop 11 ?text) = dec 2 ?h" "take 2 (drop 14 ?text) = dec 2 ?m"
    "take 2 (drop 17 ?text) = dec 2 ?s" "drop 19 ?text = ?frac @ offset"
    using assms(1) by simp_all
  have rest: "take 1 (?frac @ offset) = ''.'' \<longleftrightarrow> ?f \<noteq> 0" using assms(4) by auto
  have "?f \<noteq> 0 \<Longrightarrow> undec (take 6 (drop 1 (?frac @ offset))) = ?f \<and> drop 7 (?frac @ offset) = offset"
    using clock_digits(4) [OF assms(2,3)] by simp
  then show ?thesis
    unfolding time_text_def append_assoc read_isoformat_def Let_def parts rest
    using clock_fields [of u] clock_digits [OF assms(2,3)] by (cases "?f = 0") simp_all
qed

lemma read_naive_text:
  assumes "dt_min \<le> t" and "t \<le> dt_max" and "offset = [] \<or> offset = ''+00:00''"
  shows "read_isoformat (naive_text t @ offset) = Some (t, if offset = [] then None else Some 0)"
proof -
  let ?n = "t div day_micros + 719163"
  obtain y m d where ymd: "ord2ymd ?n = (y, m, d)" by (cases "ord2ymd ?n") auto
  have "1 \<le> ?n \<and> ?n \<le> 3652059"
    using assms(1,2) by (simp add: day_micros_def dt_min_def dt_max_def) linarith
  then have "1 \<le> y \<and> y \<le> 9999 \<and> 1 \<le> m \<and> m \<le> 12 \<and> 1 \<le> d \<and> d \<le> 31" using ord2ymd_bounds [OF _ _ ymd] by blast
  then have "undec (dec 4 y) = y" "undec (dec 2 m) = m" "undec (dec 2 d) = d" by (simp_all add: undec_dec)
  then have fields: "undec (take 4 (date_text ?n)) = y" "undec (take 2 (drop 5 (date_text ?n))) = m"
    "undec (take 2 (drop 8 (date_text ?n))) = d" and len: "length (date_text ?n) = 10"
    by (simp_all add: date_text_def ymd)
  have u: "0 \<le> t mod day_micros" "t mod day_micros < day_micros" by (simp_all add: day_micros_def)
  have "ymd2ord (y, m, d) - 719163 = t div day_micros" using ymd2ord_ord2ymd [of ?n] ymd by simp
  then show ?thesis
    unfolding naive_text_def append_assoc read_time [OF len u assms(3)] fields by simp
qed

lemma read_isoformat_reads: "reads_isoformat read_isoformat"
  using read_naive_text [of _ "[]"] read_naive_text [of _ "''+00:00''"] by (simp add: reads_isoformat_def)

text \<open>
  A time that is served can be read back, and by the program's own reader of dates too: whatever the
  value, its text in the dashboard API, and in the admin API, is read as the same instant, so that
  two different instants never have the same text. The two APIs write the same text exactly for an aware
  time: the dashboard marks a naive time as UTC, the admin API serves it without a designator.
\<close>

lemma times_read_back:
  assumes "reads_isoformat f" and "dt_min \<le> dt_micros d" and "dt_micros d \<le> dt_max"
  shows "\<exists>s. serialize_dashboard_value (TimeValue d) = JStr s \<and> parse_datetime f s = Inr (Some (drop_tz d)) \<and>
    (\<exists>s'. serialize_admin_datetime (Some d) = Some s' \<and> parse_datetime f s' = Inr (Some (drop_tz d)) \<and>
      (s = s' \<longleftrightarrow> (\<exists>t. d = Aware t)) \<and> (s = s' \<or> s = s' @ ''Z''))"
proof (cases d)
  case (Naive t)
  with assms show ?thesis
    by (auto simp: serialize_dashboard_value_def serialize_admin_datetime_def parse_datetime_def serialized_text
        reads_isoformat_def drop_tz_def simp del: isoformat.simps)
next
  case (Aware t)
  with assms show ?thesis
    by (auto simp: serialize_dashboard_value_def serialize_admin_datetime_def parse_datetime_def serialized_text
        reads_isoformat_def drop_tz_def simp del: isoformat.simps)
qed

lemma times_read_back_example:
  "\<exists>s. serialize_dashboard_value (TimeValue (Naive 1782212400000000)) = JStr s \<and>
     parse_datetime read_isoformat s = Inr (Some (Naive 1782212400000000))"
  using times_read_back [OF read_isoformat_reads, of "Naive 1782212400000000"]
  by (auto simp: dt_min_def dt_max_def drop_tz_def)

end
