(* ===== verification/Spec2Isabelle.thy ===== *)
theory Spec2Isabelle
  imports Admin Refresh LoginThrottle Leadership AuditLog Application Database RuntimeVersion ReleaseRuns Infrastructure CodexRuns
    Contributors AgentHooks RuntimeLog CircuitBreaker Limiters Caches Metrics Tracing GuardRuns Startup Helpers BackgroundTasks
    FirewallRepository Wiring ResponseTimes
begin

text \<open>
  A verification development of firecrawl-lb, a load balancer in front of the Firecrawl API
  (\<open>src/app\<close>), of the scripts of its releases (\<open>src/scripts\<close>) and of the automation around its repository
  (\<open>src/.github/scripts\<close>, \<open>src/.agents/hooks\<close>).

  \<^bold>\<open>The program.\<close> Clients send Firecrawl requests to \<open>/v2\<close>. The proxy service estimates what a request
  costs, selects one of the stored accounts by eligibility and score, sends the request upstream
  with a key of that account, and records the outcome: a log row, the credits, and the verdicts of
  the upstream on the key, the credits or the rate. Crawl and batch jobs are pinned to the account
  that submitted them and settled once. A scheduler refreshes credits from the upstream, an admin
  API manages accounts and keys, a dashboard with password, one-time codes and sessions guards it.
  Around the routes stands a stack of middlewares: bulkheads, backpressure, an IP firewall with a
  cache, decompression, a header sanitizer and an in-flight counter for draining. Releases are prepared and
  guarded by scripts that rewrite the version files and judge pull requests by their evidence; a label bot
  reads the reviews, checks and merge state of pull requests and keeps their labels.

  \<^bold>\<open>Theories and sources.\<close> Python strings are lists of Latin-1 characters, dictionaries are association
  lists or JSON values, Python integers are \<^typ>\<open>int\<close>, floats are binary64 values over the rationals,
  exceptions are the left part of a sum, and every operation that changes state returns the new
  state. Each theory names its sources.

  \<^item> \<open>Prelude\<close>, \<open>Float64\<close>, \<open>Json\<close>, \<open>JsonCodec\<close>, \<open>Clock\<close>, \<open>IpAddress\<close>: Python strings, \<open>int\<close> of a
    string, binary64 rounding and division, JSON values, \<open>json.dumps\<close> and \<open>json.loads\<close>, date arithmetic,
    and the parser and printer of IP addresses.
  \<^item> \<open>Usage\<close>: \<open>modules/firecrawl/usage.py\<close>. \<open>Routing\<close>: \<open>models.py\<close>, \<open>routing.py\<close>. \<open>Store\<close>: the tables and
    \<open>repository.py\<close>. \<open>ProxyService\<close>, \<open>ProxyJobs\<close>: \<open>client.py\<close>, \<open>service.py\<close> and the proxy routes of
    \<open>api.py\<close>. \<open>Refresh\<close>: \<open>refresh.py\<close>. \<open>Admin\<close>: \<open>schemas.py\<close>, \<open>admin_service.py\<close> and the admin routes.
    \<open>ResponseTimes\<close>: the times in the answers of the admin API and of the dashboard.
  \<^item> \<open>CircuitBreaker\<close>, \<open>Admission\<close>, \<open>Limiters\<close>: \<open>core/resilience\<close>, \<open>core/middleware/inflight.py\<close>,
    \<open>core/shutdown.py\<close>, \<open>core/rate_limiter\<close>. \<open>Leadership\<close>: \<open>core/scheduling/leader_election.py\<close>.
    \<open>Caches\<close>: the settings cache, the firewall cache and the invalidation poller. \<open>Firewall\<close>:
    \<open>modules/firewall\<close>, \<open>core/middleware/api_firewall.py\<close>, \<open>core/request_locality.py\<close>;
    \<open>FirewallRepository\<close>: its sessions and the routes that list and change the allowlist while requests
    interleave. \<open>BackgroundTasks\<close>: the loops and the starts and stops of the poller and of the refresh scheduler.
    \<open>Metrics\<close>, \<open>Tracing\<close>: \<open>core/metrics\<close> with the metrics server of \<open>main.py\<close>, and \<open>core/tracing/otel.py\<close>.
    \<open>Helpers\<close>: \<open>core/clients/retry.py\<close>, \<open>core/utils\<close>, the bulkhead holder, the warning of
    \<open>memory_monitor.py\<close> and \<open>scripts/verify-wheel-assets.py\<close>.
  \<^item> \<open>ErrorHandlers\<close>: \<open>core/exceptions.py\<close>, \<open>core/handlers\<close>. \<open>Totp\<close>: \<open>core/auth/totp.py\<close>.
    \<open>DashboardState\<close>, \<open>DashboardAuth\<close>, \<open>DashboardSecurity\<close>: \<open>modules/dashboard_auth\<close>,
    \<open>modules/settings\<close>, \<open>core/auth\<close>, \<open>core/bootstrap.py\<close> and the header sanitizer. \<open>LoginThrottle\<close>: the
    login route composed with the limiter. \<open>AuditLog\<close>: \<open>core/audit\<close>, \<open>modules/audit\<close>. \<open>RuntimeLog\<close>:
    \<open>core/runtime_logging.py\<close>.
  \<^item> \<open>RequestBody\<close>: the decompression, request identifier and version middlewares. \<open>Config\<close>:
    \<open>core/config/settings.py\<close>, \<open>cli.py\<close>. \<open>Application\<close>: \<open>main.py\<close>, the health and drain routes,
    the start and stop of the process. \<open>Database\<close>: \<open>db/session.py\<close>, \<open>db/backup.py\<close>, \<open>db/recover.py\<close>.
    \<open>Migrations\<close>: the revisions of \<open>db/alembic\<close>, the tables of the models, \<open>db/migrate.py\<close> with its command
    line. \<open>Startup\<close>: the directory of the database, the recovery command and the entry point of the container.
    \<open>RuntimeVersion\<close>: \<open>modules/runtime\<close>. \<open>ReleaseVersions\<close>: \<open>scripts/release_versions.py\<close>,
    \<open>scripts/guard_stable_release.py\<close>. \<open>BetaRelease\<close>: the beta guard, the preparation of a beta, the
    clean-up of superseded pull requests and the release check of \<open>scripts\<close>. \<open>VersionFiles\<close>: the rewriting and
    reading of the version files, the commits of \<open>git log\<close> and the outputs of \<open>release_versions.py\<close>.
    \<open>ReleaseRuns\<close>: the preparation, the verification and the clean-up as whole runs. \<open>GuardRuns\<close>: both guards
    as whole runs, from the event file, the version files and \<open>git\<close> to the exit code.
  \<^item> \<open>Infrastructure\<close>: the engines, session scopes and writer lock of \<open>db/session.py\<close>,
    \<open>core/clients/http.py\<close>, \<open>core/crypto.py\<close>. \<open>Wiring\<close>: \<open>app/dependencies.py\<close>, the scope of the session of a request.
  \<^item> \<open>Paging\<close>: the loops over the pages of a list. \<open>CodexReview\<close>, \<open>CodexLabels\<close>, \<open>CodexRuns\<close>:
    \<open>sync_codex_ok_labels.py\<close>, as the evidence read from a timeline, the programs that call the GitHub command
    line, and their runs. \<open>Contributors\<close>: \<open>check_all_contributors.py\<close>. \<open>AgentHooks\<close>: the four editor hooks.

  \<^bold>\<open>Interfaces.\<close> Locales state what components rely on and are interpreted on the model's own
  operations: \<open>rounding\<close> for the float operations, \<open>keyed_rows\<close> for tables with a primary key,
  \<open>gate\<close> for middlewares that hold slots (bulkhead and backpressure), \<open>ttl_cache\<close> for the caches,
  \<open>sliding_window\<close> for the limiters, \<open>kept\<close>, \<open>kept_login\<close> and \<open>kept_row\<close> for dashboard operations that leave the
  settings row, the login attempts or parts of them alone, \<open>task_owner\<close> for the owners of a background
  task. \<open>Application\<close> composes the gates: a run of the whole stack gives a run of each gate, so their lemmas
  carry over.

  \<^bold>\<open>What the lemmas show.\<close>
  \<^item> Routing: a selected account is eligible and best by float score; the no-account error names a
    reason for each account; scores are bounded and monotone in the credits in spite of rounding.
  \<^item> Proxying: a success charges exactly the account used, once; 401, 402 and 429 have exactly their
    effects; a job is charged at most once over any run and stays with its account; every request
    keeps the store well formed; an account that left the active status is never used or changed.
  \<^item> Refresh and admin: a pass refines the row-by-row specification; listings never fail validation
    except the log listing after a job submission, which is proved to fail.
  \<^item> Resilience: one probe at a time in a half-open breaker, tripping and recovery; bounds of the
    gates, of the limiter in every window; exclusive leadership; delivery of invalidations by the running
    poller, of which at most one task lives unless it is started while it is stopped; a firewall
    cache that agrees with the allowlist after an invalidation; client addresses cannot be forged.
  \<^item> Dashboard: admission needs an unexpired issued session of the required strength or a local
    request with nothing configured; sessions are issued only on grounds; one-time codes are accepted
    once; a password is set up once; over any run a client is told at most eight times a minute that a
    password is wrong.
  \<^item> Application: the stack bounds the work in progress and loses no slot under any interleaving; a
    route sees only requests that passed every check; decompression always returns and is bounded;
    every time that is served is read back as the same instant by the program's own reader;
    validated settings are well formed; the version check is the order of Semantic Versioning. The metrics
    are exact while requests interleave; tracing is set up once, unless a set-up is interrupted.
  \<^item> Database: a migration runs only behind the integrity check and a backup; backups overwrite nothing
    and are limited; a recovery keeps the old file; the stop sequence closes the database last. The migrations
    keep every row and column and end at the head revision; the container serves only from there.
    A session scope passes the outcome of its body on and leaves exactly what was committed; one task at a
    time writes to a SQLite file; the HTTP session is single except while it is being closed.
  \<^item> Releases: the spellings of a version agree, a prepared beta never reuses a tag, and the guards pass
    only with consistent versions, the right branch and complete evidence; the run of the stable guard exits
    with 0 exactly for a whole promotion from the right branch. A successful update of the
    version files reads back as the specified versions, passes the check and can be overwritten by another;
    a prepared beta passes the check of its release, and its tag is new.
  \<^item> Repository automation: the running review state is the last verdict after the head; the ok label needs a
    clean verdict, green checks and a mergeable head; applying a decision settles the labels; a dry run only
    reads; paged lists are read to their end; the contributor check fails just when somebody is missing.

  \<^bold>\<open>Recursion, fuel and bounds.\<close> Loops of the source are total functions with termination proofs. The
  deflate loop is a partial function into an option; \<open>RequestBody\<close> proves that it returns for every
  input under the documented contract of \<open>zlib\<close>. The loops over pages are partial functions too, because
  only the server can end them; \<open>Paging\<close> characterises them by their finite runs, and the lemmas on complete
  lists show that they return. There is no fuel. \<open>int\<close> of a string refuses
  more than 4300 digits, as Python does.

  \<^bold>\<open>Parameters.\<close> The upstream transport, Fernet, bcrypt, SHA-256, \<open>pyotp\<close>, the codecs, the database as
  far as it can fail, clocks and random values, \<open>git\<close> output, the GitHub command line, the HTTP requests of the
  scripts, the TOML parser, the regular expressions of the hook rules, the file system, the OpenTelemetry and
  Prometheus libraries as far as they can be missing or fail, and Alembic's commands are arguments. What is
  assumed of them is a named hypothesis with a concrete instance in a witness: \<open>inflate_contract\<close>,
  \<open>follows_scripts\<close> (an upgrade runs the scripts of the repository in their order),
  \<open>reads_isoformat\<close>, the session contracts of \<open>DashboardSecurity\<close> and \<open>project_version_line\<close>.

  \<^bold>\<open>Not modelled.\<close> The log lines of the components, which only observe; FastAPI's routing, its default
  error pages, its resolution of dependencies beyond the scope of a session and the parsing of command lines
  by \<open>argparse\<close>, which are library code that the sources only configure; the Windows query of
  the memory; protocols, exports and type annotations, which do nothing when the program runs. Helpers that
  several files repeat word for word (the checks of addresses, the canonical versions) are modelled once. Characters outside Latin-1 are not represented: labels with such
  characters are parameters. SQL is modelled by the effect of each statement on its table, not as text.
\<close>

end
